(* ===== verification/JS_Core.thy ===== *)
theory JS_Core
  imports Complex_Main "HOL-Library.Char_ord" "HOL-Library.List_Lexorder"
begin

text \<open>
  The part of ECMAScript that the control plane uses: strings and their methods, JSON values,
  truthiness, the nullish operators, abstract equality and relational comparison, number and
  date formatting, and \<open>JSON.stringify\<close>.

  Strings are lists of code units below 256; on these \<open>trim\<close>, \<open>toLowerCase\<close> and the order of
  strings are exactly those of the language. A finite number is the rational it denotes. Times are
  milliseconds since the epoch, as \<open>Date.getTime()\<close> returns them. Property look-up sees own
  properties only: the names inherited from \<open>Object.prototype\<close> are never field references.
\<close>

type_synonym ms = int

section \<open>Characters and strings\<close>

definition code_unit :: "char \<Rightarrow> nat" where
  "code_unit c = of_char c"

definition is_js_space :: "char \<Rightarrow> bool" where
  "is_js_space c = (code_unit c \<in> {9, 10, 11, 12, 13, 32, 160})"

definition js_trim :: "string \<Rightarrow> string" where
  "js_trim s = rev (dropWhile is_js_space (rev (dropWhile is_js_space s)))"

definition is_upper_unit :: "nat \<Rightarrow> bool" where
  "is_upper_unit n = (65 \<le> n \<and> n \<le> 90 \<or> 192 \<le> n \<and> n \<le> 222 \<and> n \<noteq> 215)"

definition js_lower_char :: "char \<Rightarrow> char" where
  "js_lower_char c = (if is_upper_unit (code_unit c) then char_of (code_unit c + 32) else c)"

definition js_toLowerCase :: "string \<Rightarrow> string" where
  "js_toLowerCase s = map js_lower_char s"

definition js_startsWith :: "string \<Rightarrow> string \<Rightarrow> bool" where
  "js_startsWith s p = (take (length p) s = p)"

definition js_endsWith :: "string \<Rightarrow> string \<Rightarrow> bool" where
  "js_endsWith s p = js_startsWith (rev s) (rev p)"

fun js_includes :: "string \<Rightarrow> string \<Rightarrow> bool" where
  "js_includes [] p = (p = [])"
| "js_includes (c # s) p = (js_startsWith (c # s) p \<or> js_includes s p)"

text \<open>The index of the first occurrence of a character, \<open>None\<close> for \<open>-1\<close>.\<close>

fun js_indexOf :: "string \<Rightarrow> char \<Rightarrow> nat option" where
  "js_indexOf [] c = None"
| "js_indexOf (x # xs) c = (if x = c then Some 0 else map_option Suc (js_indexOf xs c))"

definition js_lastIndexOf :: "string \<Rightarrow> char \<Rightarrow> nat option" where
  "js_lastIndexOf s c = map_option (\<lambda>i. length s - 1 - i) (js_indexOf (rev s) c)"

definition js_slice :: "string \<Rightarrow> nat \<Rightarrow> nat \<Rightarrow> string" where
  "js_slice s i j = drop i (take j s)"

fun js_split :: "char \<Rightarrow> string \<Rightarrow> string list" where
  "js_split c [] = [[]]"
| "js_split c (x # xs) =
     (if x = c then [] # js_split c xs
      else case js_split c xs of [] \<Rightarrow> [[x]] | w # ws \<Rightarrow> (x # w) # ws)"

fun js_join :: "string \<Rightarrow> string list \<Rightarrow> string" where
  "js_join sep [] = []"
| "js_join sep [x] = x"
| "js_join sep (x # y # zs) = x @ sep @ js_join sep (y # zs)"

section \<open>Numbers\<close>

datatype jsnum = Fin rat | NaN | PosInf | NegInf

fun jsnum_less :: "jsnum \<Rightarrow> jsnum \<Rightarrow> bool" where
  "jsnum_less (Fin a) (Fin b) = (a < b)"
| "jsnum_less (Fin a) PosInf = True"
| "jsnum_less NegInf (Fin b) = True"
| "jsnum_less NegInf PosInf = True"
| "jsnum_less _ _ = False"

fun jsnum_eq :: "jsnum \<Rightarrow> jsnum \<Rightarrow> bool" where
  "jsnum_eq NaN _ = False"
| "jsnum_eq _ NaN = False"
| "jsnum_eq a b = (a = b)"

definition jsnum_neg :: "jsnum \<Rightarrow> jsnum" where
  "jsnum_neg n = (case n of Fin q \<Rightarrow> Fin (- q) | NaN \<Rightarrow> NaN | PosInf \<Rightarrow> NegInf | NegInf \<Rightarrow> PosInf)"

text \<open>\<open>Math.round\<close>: ties go towards plus infinity.\<close>

definition math_round :: "rat \<Rightarrow> int" where
  "math_round q = \<lfloor>q + 1 / 2\<rfloor>"

subsection \<open>Numbers as strings\<close>

definition digit_char :: "nat \<Rightarrow> char" where
  "digit_char d = char_of (48 + d)"

fun show_nat :: "nat \<Rightarrow> string" where
  "show_nat n = (if n < 10 then [digit_char n] else show_nat (n div 10) @ [digit_char (n mod 10)])"

declare show_nat.simps [simp del]

definition show_int :: "int \<Rightarrow> string" where
  "show_int i = (if i < 0 then ''-'' @ show_nat (nat (- i)) else show_nat (nat i))"

text \<open>The decimals of \<open>r / b\<close>, at most \<open>k\<close> of them.\<close>

fun frac_digits :: "nat \<Rightarrow> nat \<Rightarrow> nat \<Rightarrow> string" where
  "frac_digits 0 r b = []"
| "frac_digits (Suc k) r b =
     (if r = 0 then [] else digit_char (10 * r div b) # frac_digits k (10 * r mod b) b)"

text \<open>
  \<open>Number::toString\<close> on numbers whose magnitude needs no exponent; decimals that do not end
  are cut after twenty places.
\<close>

definition num_to_string :: "rat \<Rightarrow> string" where
  "num_to_string q =
     (let (a, b) = quotient_of q; n = nat \<bar>a\<bar>; d = nat b
      in (if a < 0 then ''-'' else '''') @ show_nat (n div d) @
         (if n mod d = 0 then '''' else ''.'' @ frac_digits 20 (n mod d) d))"

subsection \<open>Strings as numbers\<close>

definition is_digit :: "char \<Rightarrow> bool" where
  "is_digit c = (48 \<le> code_unit c \<and> code_unit c \<le> 57)"

definition digits_val :: "string \<Rightarrow> nat" where
  "digits_val s = foldl (\<lambda>n c. 10 * n + (code_unit c - 48)) 0 s"

definition pow10 :: "int \<Rightarrow> rat" where
  "pow10 e = (if 0 \<le> e then 10 ^ nat e else 1 / 10 ^ nat (- e))"

text \<open>An exponent part, and what follows it; no exponent part reads as \<open>0\<close>.\<close>

definition parse_exponent :: "string \<Rightarrow> int \<times> string" where
  "parse_exponent s =
     (case s of
        c # r \<Rightarrow>
          if c \<in> {CHR ''e'', CHR ''E''} then
            (let (sg, r') = (case r of x # t \<Rightarrow>
                 if x = CHR ''-'' then (-1, t) else if x = CHR ''+'' then (1, t) else (1, r)
               | [] \<Rightarrow> (1, r));
                 ds = takeWhile is_digit r'
             in if ds = [] then (0, s) else (sg * int (digits_val ds), dropWhile is_digit r'))
          else (0, s)
      | [] \<Rightarrow> (0, s))"

text \<open>The longest unsigned decimal literal at the head of a string, and the rest.\<close>

definition parse_decimal :: "string \<Rightarrow> (rat \<times> string) option" where
  "parse_decimal s =
     (let ip = takeWhile is_digit s; r1 = dropWhile is_digit s;
          (fp, r2) = (case r1 of c # r \<Rightarrow>
              if c = CHR ''.'' \<and> (ip \<noteq> [] \<or> takeWhile is_digit r \<noteq> [])
              then (takeWhile is_digit r, dropWhile is_digit r) else ([], r1)
            | [] \<Rightarrow> ([], r1))
      in if ip = [] \<and> fp = [] then None
         else let (e, r3) = parse_exponent r2
              in Some ((of_nat (digits_val ip) + of_nat (digits_val fp) / 10 ^ length fp) * pow10 e, r3))"

definition parse_signed :: "string \<Rightarrow> (jsnum \<times> string) option" where
  "parse_signed s =
     (let (sg, r) = (case s of c # t \<Rightarrow>
            if c = CHR ''-'' then (True, t) else if c = CHR ''+'' then (False, t) else (False, s)
          | [] \<Rightarrow> (False, s));
          sgn' = (if sg then jsnum_neg else id)
      in if js_startsWith r ''Infinity'' then Some (sgn' PosInf, drop 8 r)
         else map_option (\<lambda>(q, t). (sgn' (Fin q), t)) (parse_decimal r))"

definition hex_val :: "char \<Rightarrow> nat option" where
  "hex_val c = (let n = code_unit c in
     if 48 \<le> n \<and> n \<le> 57 then Some (n - 48)
     else if 97 \<le> n \<and> n \<le> 102 then Some (n - 87)
     else if 65 \<le> n \<and> n \<le> 70 then Some (n - 55) else None)"

fun radix_val :: "nat \<Rightarrow> nat \<Rightarrow> string \<Rightarrow> nat option" where
  "radix_val b acc [] = Some acc"
| "radix_val b acc (c # s) =
     (case hex_val c of None \<Rightarrow> None
      | Some d \<Rightarrow> if d < b then radix_val b (b * acc + d) s else None)"

definition radix_literal :: "string \<Rightarrow> jsnum option" where
  "radix_literal s =
     (case s of
        z # x # ds \<Rightarrow>
          if z = CHR ''0'' \<and> ds \<noteq> [] then
            (let b = (if x \<in> {CHR ''x'', CHR ''X''} then Some 16
                      else if x \<in> {CHR ''o'', CHR ''O''} then Some 8
                      else if x \<in> {CHR ''b'', CHR ''B''} then Some 2 else None)
             in case b of None \<Rightarrow> None
                | Some r \<Rightarrow> map_option (\<lambda>n. Fin (of_nat n)) (radix_val r 0 ds))
          else None
      | _ \<Rightarrow> None)"

text \<open>\<open>StringToNumber\<close>, the conversion of abstract equality and of the relational operators.\<close>

definition string_to_number :: "string \<Rightarrow> jsnum" where
  "string_to_number s =
     (let t = js_trim s in
      if t = [] then Fin 0
      else case radix_literal t of Some n \<Rightarrow> n
           | None \<Rightarrow> (case parse_signed t of Some (n, []) \<Rightarrow> n | _ \<Rightarrow> NaN))"

text \<open>\<open>parseFloat\<close>: the longest literal at the head of the trimmed string.\<close>

definition js_parseFloat :: "string \<Rightarrow> jsnum" where
  "js_parseFloat s =
     (case parse_signed (dropWhile is_js_space s) of Some (n, _) \<Rightarrow> n | None \<Rightarrow> NaN)"

section \<open>JSON values\<close>

datatype jsval =
    JUndef
  | JNull
  | JBool bool
  | JNum rat
  | JStr string
  | JArr "jsval list"
  | JObj "(string \<times> jsval) list"

type_synonym jsobj = "(string \<times> jsval) list"

abbreviation nullish :: "jsval \<Rightarrow> bool" where
  "nullish v \<equiv> v = JUndef \<or> v = JNull"

fun is_object :: "jsval \<Rightarrow> bool" where
  "is_object (JArr _) = True"
| "is_object (JObj _) = True"
| "is_object _ = False"

fun js_truthy :: "jsval \<Rightarrow> bool" where
  "js_truthy JUndef = False"
| "js_truthy JNull = False"
| "js_truthy (JBool b) = b"
| "js_truthy (JNum q) = (q \<noteq> 0)"
| "js_truthy (JStr s) = (s \<noteq> [])"
| "js_truthy _ = True"

text \<open>Property read on an object; an absent own property reads as \<open>undefined\<close>.\<close>

definition obj_get :: "jsobj \<Rightarrow> string \<Rightarrow> jsval" where
  "obj_get o' k = (case map_of o' k of None \<Rightarrow> JUndef | Some v \<Rightarrow> v)"

text \<open>Assignment \<open>o[k] = v\<close>: an existing key keeps its place, a new one goes last.\<close>

fun obj_set :: "string \<Rightarrow> jsval \<Rightarrow> jsobj \<Rightarrow> jsobj" where
  "obj_set k v [] = [(k, v)]"
| "obj_set k v ((k', v') # r) = (if k = k' then (k, v) # r else (k', v') # obj_set k v r)"

text \<open>Object spread \<open>{...a, ...b}\<close>.\<close>

definition obj_spread :: "jsobj \<Rightarrow> jsobj \<Rightarrow> jsobj" where
  "obj_spread a b = foldl (\<lambda>o' (k, v). obj_set k v o') a b"

text \<open>The operator \<open>a ?? b\<close> on values.\<close>

definition coalesce :: "jsval \<Rightarrow> jsval \<Rightarrow> jsval" where
  "coalesce a b = (if nullish a then b else a)"

fun js_to_string :: "jsval \<Rightarrow> string" where
  "js_to_string JUndef = ''undefined''"
| "js_to_string JNull = ''null''"
| "js_to_string (JBool b) = (if b then ''true'' else ''false'')"
| "js_to_string (JNum q) = num_to_string q"
| "js_to_string (JStr s) = s"
| "js_to_string (JArr vs) =
     js_join '','' (map (\<lambda>v. if nullish v then [] else js_to_string v) vs)"
| "js_to_string (JObj _) = ''[object Object]''"

text \<open>\<open>ToPrimitive\<close>: arrays and objects become strings, anything else is itself.\<close>

definition to_primitive :: "jsval \<Rightarrow> jsval" where
  "to_primitive v = (if is_object v then JStr (js_to_string v) else v)"

fun prim_to_number :: "jsval \<Rightarrow> jsnum" where
  "prim_to_number JUndef = NaN"
| "prim_to_number JNull = Fin 0"
| "prim_to_number (JBool b) = Fin (if b then 1 else 0)"
| "prim_to_number (JNum q) = Fin q"
| "prim_to_number (JStr s) = string_to_number s"
| "prim_to_number _ = NaN"

text \<open>
  Abstract equality \<open>a == b\<close>. Two objects are equal only when they are the same object, which two
  values decoded separately never are.
\<close>

definition js_loose_eq :: "jsval \<Rightarrow> jsval \<Rightarrow> bool" where
  "js_loose_eq a b =
     (if nullish a \<or> nullish b then nullish a \<and> nullish b
      else if is_object a \<and> is_object b then False
      else case (to_primitive a, to_primitive b) of
             (JStr s, JStr t) \<Rightarrow> s = t
           | (p, q) \<Rightarrow> jsnum_eq (prim_to_number p) (prim_to_number q))"

text \<open>
  The relational operators: two strings compare by code units, anything else as numbers, where a
  \<open>NaN\<close> makes every comparison false.
\<close>

definition js_less :: "jsval \<Rightarrow> jsval \<Rightarrow> bool" where
  "js_less a b =
     (case (to_primitive a, to_primitive b) of
        (JStr s, JStr t) \<Rightarrow> s < t
      | (p, q) \<Rightarrow> jsnum_less (prim_to_number p) (prim_to_number q))"

definition js_less_eq :: "jsval \<Rightarrow> jsval \<Rightarrow> bool" where
  "js_less_eq a b =
     (case (to_primitive a, to_primitive b) of
        (JStr s, JStr t) \<Rightarrow> s \<le> t
      | (p, q) \<Rightarrow> (let x = prim_to_number p; y = prim_to_number q in jsnum_less x y \<or> jsnum_eq x y))"

text \<open>\<open>SameValueZero\<close>, the test of \<open>Array.prototype.includes\<close>.\<close>

fun same_value_zero :: "jsval \<Rightarrow> jsval \<Rightarrow> bool" where
  "same_value_zero (JArr _) _ = False"
| "same_value_zero (JObj _) _ = False"
| "same_value_zero a b = (a = b)"

definition arr_includes :: "jsval list \<Rightarrow> jsval \<Rightarrow> bool" where
  "arr_includes vs v = list_ex (\<lambda>x. same_value_zero x v) vs"

subsection \<open>JSON text\<close>

definition hex_digit :: "nat \<Rightarrow> char" where
  "hex_digit d = (if d < 10 then char_of (48 + d) else char_of (87 + d))"

definition json_escape :: "char \<Rightarrow> string" where
  "json_escape c =
     (let n = code_unit c in
      if n = 34 \<or> n = 92 then [char_of (92::nat), c]
      else if n = 8 then [char_of (92::nat), CHR ''b'']
      else if n = 12 then [char_of (92::nat), CHR ''f'']
      else if n = 10 then [char_of (92::nat), CHR ''n'']
      else if n = 13 then [char_of (92::nat), CHR ''r'']
      else if n = 9 then [char_of (92::nat), CHR ''t'']
      else if n < 32 then [char_of (92::nat)] @ ''u00'' @ [hex_digit (n div 16), hex_digit (n mod 16)]
      else [c])"

definition json_quote :: "string \<Rightarrow> string" where
  "json_quote s = [char_of (34::nat)] @ concat (map json_escape s) @ [char_of (34::nat)]"

text \<open>
  \<open>JSON.stringify(v, keys)\<close>. With a list of keys, every object in \<open>v\<close>, at any depth, shows the
  listed properties only, in the order of the list; without one it shows them all. An
  \<open>undefined\<close> member is left out, an \<open>undefined\<close> element prints as \<open>null\<close>.
\<close>

fun pick_keys :: "string list option \<Rightarrow> (string \<times> 'a) list \<Rightarrow> (string \<times> 'a) list" where
  "pick_keys None o' = o'"
| "pick_keys (Some ks) o' = List.map_filter (\<lambda>k. map_option (Pair k) (map_of o' k)) (remdups ks)"

fun json_text :: "string list option \<Rightarrow> jsval \<Rightarrow> string option" where
  "json_text ks JUndef = None"
| "json_text ks JNull = Some ''null''"
| "json_text ks (JBool b) = Some (if b then ''true'' else ''false'')"
| "json_text ks (JNum q) = Some (num_to_string q)"
| "json_text ks (JStr s) = Some (json_quote s)"
| "json_text ks (JArr vs) =
     Some (''['' @ js_join '','' (map (\<lambda>v. case json_text ks v of None \<Rightarrow> ''null'' | Some t \<Rightarrow> t) vs) @ '']'')"
| "json_text ks (JObj ps) =
     Some (''{'' @ js_join '',''
       (List.map_filter (\<lambda>(k, t). map_option (\<lambda>s. json_quote k @ '':'' @ s) t)
         (pick_keys ks (map (\<lambda>(k, v). (k, json_text ks v)) ps))) @ ''}'')"

definition json_stringify :: "jsval \<Rightarrow> string" where
  "json_stringify v = (case json_text None v of None \<Rightarrow> ''undefined'' | Some t \<Rightarrow> t)"

section \<open>Nullable strings\<close>

text \<open>Truthiness of a \<open>string | null\<close>, the operators \<open>x || null\<close> and \<open>x ?? y\<close>.\<close>

definition present :: "string option \<Rightarrow> bool" where
  "present x = (case x of None \<Rightarrow> False | Some s \<Rightarrow> s \<noteq> [])"

definition or_null :: "string \<Rightarrow> string option" where
  "or_null s = (if s = [] then None else Some s)"

definition opt_or_null :: "string option \<Rightarrow> string option" where
  "opt_or_null x = (if present x then x else None)"

definition orelse :: "'a option \<Rightarrow> 'a option \<Rightarrow> 'a option" where
  "orelse a b = (case a of None \<Rightarrow> b | Some _ \<Rightarrow> a)"

definition default :: "'a \<Rightarrow> 'a option \<Rightarrow> 'a" where
  "default d x = (case x of None \<Rightarrow> d | Some v \<Rightarrow> v)"

definition jstr_opt :: "string option \<Rightarrow> jsval" where
  "jstr_opt x = (case x of None \<Rightarrow> JNull | Some s \<Rightarrow> JStr s)"

definition jnum_opt :: "rat option \<Rightarrow> jsval" where
  "jnum_opt x = (case x of None \<Rightarrow> JNull | Some q \<Rightarrow> JNum q)"

definition jbool_opt :: "bool option \<Rightarrow> jsval" where
  "jbool_opt x = (case x of None \<Rightarrow> JNull | Some b \<Rightarrow> JBool b)"

section \<open>Dates\<close>

text \<open>The civil date of a day number (days since 1970-01-01, proleptic Gregorian calendar).\<close>

definition civil_from_days :: "int \<Rightarrow> int \<times> int \<times> int" where
  "civil_from_days d =
     (let z = d + 719468; era = z div 146097; doe = z mod 146097;
          yoe = (doe - doe div 1460 + doe div 36524 - doe div 146096) div 365;
          doy = doe - (365 * yoe + yoe div 4 - yoe div 100);
          mp = (5 * doy + 2) div 153;
          dd = doy - (153 * mp + 2) div 5 + 1;
          mm = (if mp < 10 then mp + 3 else mp - 9)
      in (yoe + era * 400 + (if mm \<le> 2 then 1 else 0), mm, dd))"

definition pad0 :: "nat \<Rightarrow> int \<Rightarrow> string" where
  "pad0 k i = (let s = show_nat (nat i) in replicate (k - length s) (CHR ''0'') @ s)"

text \<open>\<open>Date.prototype.toISOString\<close> for the years 0 to 9999.\<close>

definition to_iso :: "ms \<Rightarrow> string" where
  "to_iso t =
     (let (y, m, d) = civil_from_days (t div 86400000); r = t mod 86400000
      in pad0 4 y @ ''-'' @ pad0 2 m @ ''-'' @ pad0 2 d @ ''T'' @
         pad0 2 (r div 3600000) @ '':'' @ pad0 2 (r div 60000 mod 60) @ '':'' @
         pad0 2 (r div 1000 mod 60) @ ''.'' @ pad0 3 (r mod 1000) @ ''Z'')"

section \<open>Exceptions\<close>

text \<open>
  A computation that may throw is a sum: \<open>Inl\<close> carries the error. Array callbacks run in index
  order; \<open>every\<close> and \<open>some\<close> stop at the first element that decides.
\<close>

datatype js_error = TypeError | AppError string

fun js_every :: "('a \<Rightarrow> js_error + bool) \<Rightarrow> 'a list \<Rightarrow> js_error + bool" where
  "js_every f [] = Inr True"
| "js_every f (x # xs) =
     (case f x of Inl e \<Rightarrow> Inl e | Inr b \<Rightarrow> if b then js_every f xs else Inr False)"

fun js_some :: "('a \<Rightarrow> js_error + bool) \<Rightarrow> 'a list \<Rightarrow> js_error + bool" where
  "js_some f [] = Inr False"
| "js_some f (x # xs) =
     (case f x of Inl e \<Rightarrow> Inl e | Inr b \<Rightarrow> if b then Inr True else js_some f xs)"

fun js_map :: "('a \<Rightarrow> js_error + 'b) \<Rightarrow> 'a list \<Rightarrow> js_error + 'b list" where
  "js_map f [] = Inr []"
| "js_map f (x # xs) =
     (case f x of Inl e \<Rightarrow> Inl e
      | Inr y \<Rightarrow> (case js_map f xs of Inl e \<Rightarrow> Inl e | Inr ys \<Rightarrow> Inr (y # ys)))"

definition sum_bind :: "'e + 'a \<Rightarrow> ('a \<Rightarrow> 'e + 'b) \<Rightarrow> 'e + 'b" where
  "sum_bind m f = (case m of Inl e \<Rightarrow> Inl e | Inr x \<Rightarrow> f x)"

lemma js_every_cong [fundef_cong]:
  assumes "xs = ys" and "\<And>x. x \<in> set ys \<Longrightarrow> f x = g x"
  shows "js_every f xs = js_every g ys"
  using assms(2) unfolding assms(1) by (induction ys) (auto split: sum.splits)

lemma js_some_cong [fundef_cong]:
  assumes "xs = ys" and "\<And>x. x \<in> set ys \<Longrightarrow> f x = g x"
  shows "js_some f xs = js_some g ys"
  using assms(2) unfolding assms(1) by (induction ys) (auto split: sum.splits)

lemma js_map_cong [fundef_cong]:
  assumes "xs = ys" and "\<And>x. x \<in> set ys \<Longrightarrow> f x = g x"
  shows "js_map f xs = js_map g ys"
  using assms(2) unfolding assms(1) by (induction ys) (auto split: sum.splits)

lemma js_every_Inr:
  assumes "\<And>x. x \<in> set xs \<Longrightarrow> f x = Inr (p x)"
  shows "js_every f xs = Inr (list_all p xs)"
  using assms by (induction xs) auto

lemma js_some_Inr:
  assumes "\<And>x. x \<in> set xs \<Longrightarrow> f x = Inr (p x)"
  shows "js_some f xs = Inr (list_ex p xs)"
  using assms by (induction xs) auto

lemma js_map_Inr:
  assumes "\<And>x. x \<in> set xs \<Longrightarrow> f x = Inr (p x)"
  shows "js_map f xs = Inr (map p xs)"
  using assms by (induction xs) auto

lemma js_map_Inr_D:
  assumes "js_map f xs = Inr ys"
  shows "list_all2 (\<lambda>x y. f x = Inr y) xs ys"
  using assms by (induction xs arbitrary: ys) (auto split: sum.splits)

lemma sum_bind_simps [simp]:
  "sum_bind (Inl e) f = Inl e" "sum_bind (Inr x) f = f x"
  by (simp_all add: sum_bind_def)

lemma sum_bind_Inr_iff: "sum_bind m f = Inr y \<longleftrightarrow> (\<exists>x. m = Inr x \<and> f x = Inr y)"
  by (cases m) auto

section \<open>Facts about the language layer\<close>

lemma obj_get_Nil [simp]: "obj_get [] k = JUndef"
  by (simp add: obj_get_def)

lemma map_of_obj_set [simp]: "map_of (obj_set k v o') = (map_of o')(k \<mapsto> v)"
  by (induction k v o' rule: obj_set.induct) auto

lemma obj_get_set [simp]: "obj_get (obj_set k v o') k' = (if k' = k then v else obj_get o' k')"
  by (simp add: obj_get_def)

lemma keys_obj_set: "fst ` set (obj_set k v o') = insert k (fst ` set o')"
  by (induction k v o' rule: obj_set.induct) auto

lemma distinct_obj_set [simp]: "distinct (map fst o') \<Longrightarrow> distinct (map fst (obj_set k v o'))"
proof (induction k v o' rule: obj_set.induct)
  case (2 k v k' v' r)
  then show ?case using keys_obj_set [of k v r] by auto
qed simp

lemma obj_spread_Nil [simp]: "obj_spread a [] = a"
  by (simp add: obj_spread_def)

lemma obj_spread_Cons: "obj_spread a ((k, v) # b) = obj_spread (obj_set k v a) b"
  by (simp add: obj_spread_def)

lemma obj_get_spread_absent: "k \<notin> fst ` set b \<Longrightarrow> obj_get (obj_spread a b) k = obj_get a k"
  by (induction b arbitrary: a) (auto simp: obj_spread_Cons)

text \<open>Spreading an object with distinct keys: its own properties win, the others are kept.\<close>

lemma obj_get_spread:
  "distinct (map fst b) \<Longrightarrow>
   obj_get (obj_spread a b) k = (case map_of b k of Some v \<Rightarrow> v | None \<Rightarrow> obj_get a k)"
proof (induction b arbitrary: a)
  case (Cons p b)
  obtain k' v where p: "p = (k', v)" by force
  show ?case
  proof (cases "k = k'")
    case True
    with Cons.prems p show ?thesis by (simp add: obj_spread_Cons obj_get_spread_absent)
  next
    case False
    with Cons p show ?thesis by (simp add: obj_spread_Cons split: option.splits)
  qed
qed simp

lemma append_sep_inject:
  "\<lbrakk>c \<notin> set a; c \<notin> set b; a @ c # x = b @ c # y\<rbrakk> \<Longrightarrow> a = b \<and> x = y"
  by (induction a arbitrary: b) (case_tac b; auto)+

lemma js_startsWith_iff: "js_startsWith s p \<longleftrightarrow> (\<exists>r. s = p @ r)"
  by (metis append_eq_conv_conj append_take_drop_id js_startsWith_def)

lemma js_indexOf_None [simp]: "js_indexOf s c = None \<longleftrightarrow> c \<notin> set s"
  by (induction s) auto

lemma js_indexOf_append: "c \<notin> set a \<Longrightarrow> js_indexOf (a @ c # b) c = Some (length a)"
  by (induction a) auto

lemma js_lastIndexOf_None [simp]: "js_lastIndexOf s c = None \<longleftrightarrow> c \<notin> set s"
  by (simp add: js_lastIndexOf_def)

lemma js_lastIndexOf_append: "c \<notin> set b \<Longrightarrow> js_lastIndexOf (a @ c # b) c = Some (length a)"
  using js_indexOf_append [of c "rev b" "rev a"] by (simp add: js_lastIndexOf_def)

lemma dropWhile_idem [simp]: "dropWhile P (dropWhile P s) = dropWhile P s"
  by (induction s) auto

lemma dropWhile_rev_dropWhile:
  assumes "s = [] \<or> \<not> P (hd s)"
  shows "dropWhile P (rev (dropWhile P (rev s))) = rev (dropWhile P (rev s))"
proof -
  let ?t = "dropWhile P (rev s)"
  have split: "s = rev ?t @ rev (takeWhile P (rev s))"
    by (metis rev_append rev_swap takeWhile_dropWhile_id)
  show ?thesis
  proof (cases "?t = []")
    case False
    then have "hd s = hd (rev ?t)"
      by (metis split hd_append2 rev_is_Nil_conv)
    moreover have "s \<noteq> []"
      using False by auto
    ultimately have "\<not> P (hd (rev ?t))"
      using assms by simp
    then show ?thesis
      by (simp add: dropWhile_eq_self_iff)
  next
    case True
    then show ?thesis
      by (simp only: rev.simps dropWhile.simps)
  qed
qed

lemma js_trim_idem [simp]: "js_trim (js_trim s) = js_trim s"
proof -
  let ?u = "dropWhile is_js_space s"
  have "?u = [] \<or> \<not> is_js_space (hd ?u)"
    by (metis hd_dropWhile)
  then show ?thesis
    using dropWhile_rev_dropWhile [of ?u is_js_space] by (simp add: js_trim_def)
qed

lemma js_trim_Nil [simp]: "js_trim [] = []"
  by (simp add: js_trim_def)

lemma js_lower_char_idem [simp]: "js_lower_char (js_lower_char c) = js_lower_char c"
proof -
  have "n < 256 \<Longrightarrow> is_upper_unit n \<Longrightarrow>
        of_char (char_of (n + 32) :: char) = n + 32 \<and> \<not> is_upper_unit (n + 32)" for n :: nat
    by (auto simp: is_upper_unit_def)
  then show ?thesis
    using nat_of_char_less_256 [of c] by (auto simp: js_lower_char_def code_unit_def)
qed

lemma js_toLowerCase_idem [simp]: "js_toLowerCase (js_toLowerCase s) = js_toLowerCase s"
  by (simp add: js_toLowerCase_def)

lemma js_toLowerCase_Nil [simp]: "js_toLowerCase [] = []"
  by (simp add: js_toLowerCase_def)

lemma is_js_space_lower [simp]: "is_js_space (js_lower_char c) = is_js_space c"
proof -
  have "n < 256 \<Longrightarrow> is_upper_unit n \<Longrightarrow> of_char (char_of (n + 32) :: char) = n + 32" for n :: nat
    by (auto simp: is_upper_unit_def)
  then show ?thesis
    using nat_of_char_less_256 [of c]
    by (auto simp: js_lower_char_def is_js_space_def code_unit_def is_upper_unit_def)
qed

lemma js_trim_toLowerCase: "js_trim (js_toLowerCase s) = js_toLowerCase (js_trim s)"
  by (simp add: js_trim_def js_toLowerCase_def dropWhile_map comp_def rev_map)

end
