(* ===== verification/Tables.thy ===== *)
theory Tables
  imports JS_Core
begin

text \<open>
  Relational tables as the code uses them. A table is the list of its rows; the order stands for
  the unspecified order in which the server returns rows, so every statement below holds for all
  orders. \<open>insert ... on conflict do update\<close> is \<open>upsert_row\<close>: the key of a row is optional, because
  a unique index never sees a conflict on a row with a null key column.

  The locale \<open>upserting\<close> states what a client may rely on after an upsert; each table that the code
  writes with an upsert interprets it.
\<close>

section \<open>Queries\<close>

text \<open>\<open>select ... limit 1\<close>\<close>

definition first_row :: "('r \<Rightarrow> bool) \<Rightarrow> 'r list \<Rightarrow> 'r option" where
  "first_row P rows = find P rows"

definition update_where :: "('r \<Rightarrow> bool) \<Rightarrow> ('r \<Rightarrow> 'r) \<Rightarrow> 'r list \<Rightarrow> 'r list" where
  "update_where P f rows = map (\<lambda>r. if P r then f r else r) rows"

text \<open>\<open>effective_from \<le> t < effective_to\<close>, where \<open>None\<close> is the timestamp \<open>infinity\<close>.\<close>

definition in_force :: "ms \<Rightarrow> ms \<Rightarrow> ms option \<Rightarrow> bool" where
  "in_force t effective_from effective_to =
     (effective_from \<le> t \<and> (case effective_to of None \<Rightarrow> True | Some u \<Rightarrow> t < u))"

lemma find_SomeD: "find P xs = Some x \<Longrightarrow> x \<in> set xs \<and> P x"
  by (induction xs) (auto split: if_splits)

lemma find_NoneD: "find P xs = None \<Longrightarrow> x \<in> set xs \<Longrightarrow> \<not> P x"
  by (induction xs) (auto split: if_splits)

lemma list_all2_set1: "list_all2 P xs ys \<Longrightarrow> x \<in> set xs \<Longrightarrow> \<exists>y \<in> set ys. P x y"
  by (induction rule: list_all2_induct) auto

lemma list_all2_set2: "list_all2 P xs ys \<Longrightarrow> y \<in> set ys \<Longrightarrow> \<exists>x \<in> set xs. P x y"
  by (induction rule: list_all2_induct) auto

lemma find_filter: "find P xs = (case filter P xs of [] \<Rightarrow> None | x # _ \<Rightarrow> Some x)"
  by (induction xs) auto

text \<open>\<open>select ... order by f limit 1\<close>\<close>

definition first_by :: "('r \<Rightarrow> 'k::linorder) \<Rightarrow> ('r \<Rightarrow> bool) \<Rightarrow> 'r list \<Rightarrow> 'r option" where
  "first_by f P rows = (case sort_key f (filter P rows) of [] \<Rightarrow> None | r # _ \<Rightarrow> Some r)"

lemma first_by_SomeD:
  assumes "first_by f P rows = Some r"
  shows "r \<in> set rows \<and> P r"
proof -
  from assms obtain rs where "sort_key f (filter P rows) = r # rs"
    by (auto simp: first_by_def split: list.splits)
  then have "r \<in> set (sort_key f (filter P rows))" by simp
  then show ?thesis by simp
qed

lemma first_by_None: "first_by f P rows = None \<longleftrightarrow> (\<forall>r \<in> set rows. \<not> P r)"
proof -
  have "first_by f P rows = None \<longleftrightarrow> sort_key f (filter P rows) = []"
    by (simp add: first_by_def split: list.split)
  also have "\<dots> \<longleftrightarrow> filter P rows = []"
    by (metis length_0_conv length_sort)
  finally show ?thesis by (simp add: filter_empty_conv)
qed

section \<open>Upsert\<close>

definition upsert_row :: "('r \<Rightarrow> 'k option) \<Rightarrow> ('r \<Rightarrow> 'r) \<Rightarrow> 'r \<Rightarrow> 'r list \<Rightarrow> 'r list" where
  "upsert_row key merge new rows =
     (if key new \<noteq> None \<and> list_ex (\<lambda>r. key r = key new) rows
      then map (\<lambda>r. if key r = key new then merge r else r) rows
      else rows @ [new])"

text \<open>The rows with a key have distinct keys.\<close>

definition unique_key :: "('r \<Rightarrow> 'k option) \<Rightarrow> 'r list \<Rightarrow> bool" where
  "unique_key key rows = distinct (List.map_filter key rows)"

lemma unique_key_Nil [simp]: "unique_key key []"
  by (simp add: unique_key_def)

lemma unique_key_Cons:
  "unique_key key (r # rows) \<longleftrightarrow>
     unique_key key rows \<and> (key r = None \<or> (\<forall>s \<in> set rows. key s \<noteq> key r))"
proof (cases "key r")
  case (Some k)
  have "k \<in> set (List.map_filter key rows) \<longleftrightarrow> (\<exists>s \<in> set rows. key s = Some k)"
    by (induction rows) (auto simp: map_filter_simps split: option.splits)
  with Some show ?thesis by (auto simp: unique_key_def map_filter_simps)
qed (simp add: unique_key_def map_filter_simps)

lemma unique_key_append:
  "unique_key key (rows @ [r]) \<longleftrightarrow>
     unique_key key rows \<and> (key r = None \<or> (\<forall>s \<in> set rows. key s \<noteq> key r))"
  by (induction rows) (auto simp: unique_key_Cons)

lemma unique_key_inj:
  "\<lbrakk>unique_key key rows; r \<in> set rows; s \<in> set rows; key r = key s; key r \<noteq> None\<rbrakk> \<Longrightarrow> r = s"
  by (induction rows) (auto simp: unique_key_Cons)

lemma unique_key_map_same:
  assumes "\<And>r. r \<in> set rows \<Longrightarrow> key (f r) = key r"
  shows "unique_key key (map f rows) \<longleftrightarrow> unique_key key rows"
  using assms by (induction rows) (auto simp: unique_key_Cons)

lemma unique_key_apart:
  assumes "unique_key key (xs @ a # ys)" and "key a \<noteq> None" and "r \<in> set xs \<union> set ys"
  shows "key r \<noteq> key a"
  using assms by (induction xs) (auto simp: unique_key_Cons)

lemma unique_key_replace:
  assumes "unique_key key (xs @ a # ys)" and "\<forall>r \<in> set xs \<union> set ys. key r \<noteq> key b"
  shows "unique_key key (xs @ b # ys)"
  using assms by (induction xs) (auto simp: unique_key_Cons)

lemma unique_key_filter: "unique_key key rows \<Longrightarrow> unique_key key (filter P rows)"
  by (induction rows) (auto simp: unique_key_Cons)

lemma unique_key_filter_single:
  assumes "unique_key key rows" and "r \<in> set rows" and "key r = Some k"
  shows "filter (\<lambda>s. key s = Some k) rows = [r]"
  using assms
proof (induction rows)
  case (Cons s rows)
  then show ?case
    by (cases "key s = Some k") (auto simp: unique_key_Cons filter_empty_conv)
qed simp

locale upserting =
  fixes key :: "'r \<Rightarrow> 'k option" and merge :: "'r \<Rightarrow> 'r \<Rightarrow> 'r"
  assumes merge_key: "key r = key new \<Longrightarrow> key new \<noteq> None \<Longrightarrow> key (merge new r) = key new"
begin

lemma upsert_unique:
  assumes "unique_key key rows"
  shows "unique_key key (upsert_row key (merge new) new rows)"
proof (cases "key new \<noteq> None \<and> list_ex (\<lambda>r. key r = key new) rows")
  case True
  with assms show ?thesis
    by (simp add: upsert_row_def unique_key_map_same merge_key)
next
  case False
  then have "upsert_row key (merge new) new rows = rows @ [new]"
    by (auto simp: upsert_row_def)
  with assms False show ?thesis
    by (auto simp: unique_key_append list_ex_iff)
qed

lemma upsert_other:
  assumes "key r \<noteq> key new"
  shows "r \<in> set (upsert_row key (merge new) new rows) \<longleftrightarrow> r \<in> set rows"
  using assms merge_key by (auto simp: upsert_row_def)

text \<open>The one row with the key of the new one is the new one or an old one merged with it.\<close>

lemma upsert_same:
  assumes "key new \<noteq> None" and "unique_key key rows"
  shows "\<exists>!r. r \<in> set (upsert_row key (merge new) new rows) \<and> key r = key new"
proof -
  have "\<exists>r. r \<in> set (upsert_row key (merge new) new rows) \<and> key r = key new"
  proof (cases "list_ex (\<lambda>r. key r = key new) rows")
    case True
    then obtain s where s: "s \<in> set rows" "key s = key new"
      by (auto simp: list_ex_iff)
    then have "merge new s \<in> set (upsert_row key (merge new) new rows)"
      using assms(1) True by (auto simp: upsert_row_def)
    with s show ?thesis using merge_key assms(1) by blast
  next
    case False
    then show ?thesis by (auto simp: upsert_row_def)
  qed
  moreover have "unique_key key (upsert_row key (merge new) new rows)"
    using assms(2) by (rule upsert_unique)
  ultimately show ?thesis
    using assms(1) unique_key_inj by metis
qed

lemma upsert_same_cases:
  assumes "r \<in> set (upsert_row key (merge new) new rows)" and "key r = key new" and "key new \<noteq> None"
  shows "r = new \<and> (\<forall>s \<in> set rows. key s \<noteq> key new) \<or>
         (\<exists>s \<in> set rows. key s = key new \<and> r = merge new s)"
  using assms by (auto simp: upsert_row_def list_ex_iff split: if_splits)

lemma upsert_filter:
  assumes "key new = Some k" and "unique_key key rows"
  obtains r where "filter (\<lambda>s. key s = Some k) (upsert_row key (merge new) new rows) = [r]"
    and "r = new \<or> (\<exists>s. r = merge new s)"
proof -
  obtain r where r: "r \<in> set (upsert_row key (merge new) new rows)" "key r = Some k"
    using upsert_same [OF _ assms(2), of new] assms(1) by auto
  have "r = new \<or> (\<exists>s. r = merge new s)"
    using upsert_same_cases [OF r(1)] r(2) assms(1) by auto
  moreover have "filter (\<lambda>s. key s = Some k) (upsert_row key (merge new) new rows) = [r]"
    using upsert_unique [OF assms(2)] r by (rule unique_key_filter_single)
  ultimately show thesis using that by blast
qed

text \<open>What a lookup by the key finds after an upsert.\<close>

lemma upsert_find:
  assumes "key new \<noteq> None"
  shows "find (\<lambda>r. key r = Some k) (upsert_row key (merge new) new rows) =
    (if key new = Some k then Some (case find (\<lambda>r. key r = Some k) rows of None \<Rightarrow> new | Some r \<Rightarrow> merge new r)
     else find (\<lambda>r. key r = Some k) rows)"
proof (cases "list_ex (\<lambda>r. key r = key new) rows")
  case True
  have "find (\<lambda>r. key r = Some k) (map (\<lambda>r. if key r = key new then merge new r else r) rows) =
      (if key new = Some k then map_option (merge new) (find (\<lambda>r. key r = Some k) rows) else find (\<lambda>r. key r = Some k) rows)"
    by (induction rows) (auto simp: merge_key assms)
  moreover have "find (\<lambda>r. key r = Some k) rows \<noteq> None" if "key new = Some k"
    using True that by (auto simp: find_None_iff list_ex_iff)
  ultimately show ?thesis using True assms by (auto simp: upsert_row_def)
next
  case False
  have "find (\<lambda>r. key r = Some k) (rows @ [new]) =
      (case find (\<lambda>r. key r = Some k) rows of None \<Rightarrow> if key new = Some k then Some new else None | Some r \<Rightarrow> Some r)"
    by (induction rows) auto
  moreover have "find (\<lambda>r. key r = Some k) rows = None" if "key new = Some k"
    using False that by (auto simp: find_None_iff list_ex_iff)
  ultimately show ?thesis using False by (auto simp: upsert_row_def split: option.splits)
qed

lemma upsert_length:
  "length (upsert_row key (merge new) new rows) \<in> {length rows, Suc (length rows)}"
  by (simp add: upsert_row_def)

end

lemma find_map_comp: "find P (map h xs) = map_option h (find (\<lambda>x. P (h x)) xs)"
  by (induction xs) auto

section \<open>Fresh identifiers\<close>

text \<open>
  \<open>gen_random_uuid\<close> and \<open>randomUUID\<close>: a stream of identifiers and how many were drawn. What the code
  relies on is that identifiers never repeat, \<open>inj supply\<close>, and are not empty.
\<close>

record uuid_source =
  us_supply :: "nat \<Rightarrow> string"
  us_drawn :: nat

definition draw :: "uuid_source \<Rightarrow> string \<times> uuid_source" where
  "draw u = (us_supply u (us_drawn u), u\<lparr>us_drawn := Suc (us_drawn u)\<rparr>)"

definition source_ok :: "uuid_source \<Rightarrow> bool" where
  "source_ok u = (inj (us_supply u) \<and> (\<forall>n. us_supply u n \<noteq> []))"

text \<open>An identifier that has been drawn.\<close>

definition drawn_id :: "uuid_source \<Rightarrow> string \<Rightarrow> bool" where
  "drawn_id u x = (\<exists>n < us_drawn u. x = us_supply u n)"

lemma draw_fresh: "source_ok u \<Longrightarrow> draw u = (x, u') \<Longrightarrow> \<not> drawn_id u x"
  by (auto simp: draw_def drawn_id_def source_ok_def inj_eq)

lemma draw_source_ok [simp]: "source_ok (snd (draw u)) = source_ok u"
  by (simp add: draw_def source_ok_def)

lemma drawn_id_draw: "draw u = (x, u') \<Longrightarrow> drawn_id u' y \<longleftrightarrow> y = x \<or> drawn_id u y"
  by (auto simp: draw_def drawn_id_def less_Suc_eq)

lemma drawn_id_mono: "draw u = (x, u') \<Longrightarrow> drawn_id u y \<Longrightarrow> drawn_id u' y"
  by (auto simp: draw_def drawn_id_def less_Suc_eq)

lemma draw_drawn: "draw u = (x, u') \<Longrightarrow> drawn_id u' x"
  by (auto simp: draw_def drawn_id_def)

lemma draw_source: "draw u = (x, u') \<Longrightarrow> source_ok u \<Longrightarrow> source_ok u'"
  by (auto simp: draw_def source_ok_def)

lemma draw_nonempty: "draw u = (x, u') \<Longrightarrow> source_ok u \<Longrightarrow> x \<noteq> []"
  by (auto simp: draw_def source_ok_def)

text \<open>The identifiers of a table: distinct, and all drawn from the source.\<close>

definition ids_ok :: "('r \<Rightarrow> string) \<Rightarrow> uuid_source \<Rightarrow> 'r list \<Rightarrow> bool" where
  "ids_ok rid u rows = (distinct (map rid rows) \<and> (\<forall>r \<in> set rows. drawn_id u (rid r)))"

lemma ids_ok_Nil [simp]: "ids_ok rid u []"
  by (simp add: ids_ok_def)

lemma ids_ok_draw: "draw u = (x, u') \<Longrightarrow> ids_ok rid u rows \<Longrightarrow> ids_ok rid u' rows"
  by (auto simp: ids_ok_def intro: drawn_id_mono)

lemma ids_ok_append:
  assumes "source_ok u" and "draw u = (x, u')" and "ids_ok rid u rows" and "rid r = x"
  shows "ids_ok rid u' (rows @ [r])"
  using assms draw_fresh [OF assms(1,2)] by (auto simp: ids_ok_def intro: drawn_id_mono draw_drawn)

lemma ids_ok_map_same: "(\<And>r. rid (f r) = rid r) \<Longrightarrow> ids_ok rid u (map f rows) = ids_ok rid u rows"
  by (simp add: ids_ok_def comp_def)

lemma ids_ok_inj: "ids_ok rid u rows \<Longrightarrow> r \<in> set rows \<Longrightarrow> s \<in> set rows \<Longrightarrow> rid r = rid s \<Longrightarrow> r = s"
  by (auto simp: ids_ok_def distinct_map inj_on_def)

section \<open>Versioned tables\<close>

text \<open>
  A table keeps the history of each key as rows, of which at most one is current. A change closes
  the current row and appends its successor. The locale gives what every such table relies on;
  \<open>close\<close> stands for the update of the superseded row.
\<close>

definition current_key :: "('r \<Rightarrow> 'k) \<Rightarrow> ('r \<Rightarrow> bool) \<Rightarrow> 'r \<Rightarrow> 'k option" where
  "current_key key cur r = (if cur r then Some (key r) else None)"

lemma unique_key_map_weaken:
  assumes "\<And>r. r \<in> set rows \<Longrightarrow> key (f r) = key r \<or> key (f r) = None" and "unique_key key rows"
  shows "unique_key key (map f rows)"
  using assms
proof (induction rows)
  case (Cons r rows)
  then have IH: "unique_key key (map f rows)"
    and "key r = None \<or> (\<forall>s \<in> set rows. key s \<noteq> key r)"
    by (auto simp: unique_key_Cons)
  moreover have "key (f r) = key r \<or> key (f r) = None" "\<forall>s \<in> set rows. key (f s) = key s \<or> key (f s) = None"
    using Cons.prems(1) by auto
  ultimately have "key (f r) = None \<or> (\<forall>s \<in> set (map f rows). key s \<noteq> key (f r))"
    by (metis (no_types, lifting) imageE list.set_map)
  with IH show ?case by (simp add: unique_key_Cons)
qed simp

locale versioning =
  fixes rid :: "'r \<Rightarrow> string" and key :: "'r \<Rightarrow> 'k" and cur :: "'r \<Rightarrow> bool" and close :: "'c \<Rightarrow> 'r \<Rightarrow> 'r"
  assumes close_not_cur: "\<not> cur (close c r)"
    and close_rid: "rid (close c r) = rid r"
begin

lemma close_unique:
  assumes "unique_key (current_key key cur) rows"
  shows "unique_key (current_key key cur) (update_where P (close c) rows)"
  unfolding update_where_def using assms
  by (intro unique_key_map_weaken) (auto simp: current_key_def close_not_cur)

lemma close_ids: "ids_ok rid u (update_where P (close c) rows) = ids_ok rid u rows"
  unfolding update_where_def by (rule ids_ok_map_same) (simp add: close_rid)

text \<open>Nothing current is left under the key of the row that was closed.\<close>

lemma close_frees:
  assumes "unique_key (current_key key cur) rows" and "ids_ok rid u rows"
    and "old \<in> set rows" and "cur old" and "s \<in> set (update_where (\<lambda>r. rid r = rid old) (close c) rows)"
  shows "\<not> (cur s \<and> key s = key old)"
proof
  assume s: "cur s \<and> key s = key old"
  then have "s \<in> set rows" "rid s \<noteq> rid old"
    using assms(5) close_not_cur by (auto simp: update_where_def split: if_splits)
  with s assms(1,3,4) have "s = old"
    by (intro unique_key_inj [of "current_key key cur" rows]) (auto simp: current_key_def)
  with \<open>rid s \<noteq> rid old\<close> show False by simp
qed

lemma append_unique:
  assumes "unique_key (current_key key cur) rows" and "\<And>s. s \<in> set rows \<Longrightarrow> \<not> (cur s \<and> key s = key new)"
  shows "unique_key (current_key key cur) (rows @ [new])"
  using assms by (auto simp: unique_key_append current_key_def)

lemma supersede_unique:
  assumes "unique_key (current_key key cur) rows" and "ids_ok rid u rows"
    and "old \<in> set rows" and "cur old" and "key new = key old"
  shows "unique_key (current_key key cur) (update_where (\<lambda>r. rid r = rid old) (close c) rows @ [new])"
  using close_frees [OF assms(1-4)] assms(5) by (intro append_unique close_unique assms(1)) auto

lemma current_row_unique:
  assumes "unique_key (current_key key cur) rows" and "r \<in> set rows" and "s \<in> set rows"
    and "cur r" and "cur s" and "key r = key s"
  shows "r = s"
  using assms by (intro unique_key_inj [of "current_key key cur" rows]) (auto simp: current_key_def)

end

end
