(* ===== verification/Connector_Types.thy ===== *)
theory Connector_Types
  imports JS_Core
begin

text \<open>
  The contracts between the dispatcher and the package intelligence connectors,
  \<open>connectors/types.ts\<close> and \<open>connectors/events.ts\<close>: severities, findings, results, snapshots,
  events, and the connector interface as a record of its members. \<open>normalizeToSnapshot\<close> and
  \<open>supportsEvent\<close> are functions of the connector. \<open>handleEvent\<close> stands for a call to a remote
  service: what it answers to an event is a member of the record, an exception or a result.
\<close>

section \<open>Severities and findings\<close>

datatype severity = CRITICAL | HIGH | MEDIUM | LOW | NONE

fun severity_index :: "severity \<Rightarrow> nat" where
  "severity_index CRITICAL = 0"
| "severity_index HIGH = 1"
| "severity_index MEDIUM = 2"
| "severity_index LOW = 3"
| "severity_index NONE = 4"

fun severity_name :: "severity \<Rightarrow> string" where
  "severity_name CRITICAL = ''CRITICAL''"
| "severity_name HIGH = ''HIGH''"
| "severity_name MEDIUM = ''MEDIUM''"
| "severity_name LOW = ''LOW''"
| "severity_name NONE = ''NONE''"

text \<open>Severities are ordered by urgency: the smaller index is the more severe one.\<close>

instantiation severity :: linorder
begin

definition less_eq_severity :: "severity \<Rightarrow> severity \<Rightarrow> bool" where
  "less_eq_severity a b = (severity_index a \<le> severity_index b)"

definition less_severity :: "severity \<Rightarrow> severity \<Rightarrow> bool" where
  "less_severity a b = (severity_index a < severity_index b)"

instance
proof
  fix a b c :: severity
  show "(a < b) = (a \<le> b \<and> \<not> b \<le> a)" "a \<le> a" "a \<le> b \<or> b \<le> a"
    by (auto simp: less_eq_severity_def less_severity_def)
  show "a \<le> b \<Longrightarrow> b \<le> c \<Longrightarrow> a \<le> c"
    by (simp add: less_eq_severity_def)
  show "a \<le> b \<Longrightarrow> b \<le> a \<Longrightarrow> a = b"
    by (cases a; cases b) (simp_all add: less_eq_severity_def)
qed

end

record connector_finding =
  cf_findingId :: string
  cf_severity :: severity
  cf_title :: "string option"
  cf_publishedAt :: "ms option"
  cf_attributes :: jsobj

record vulnerability_summary =
  vs_maxSeverity :: severity
  vs_findingCount :: nat
  vs_fixAvailable :: bool
  vs_bestFixVersion :: "string option"
  vs_severityCounts :: "(nat \<times> nat \<times> nat \<times> nat) option"

record risk_summary =
  rs_tier :: severity
  rs_score :: "rat option"

record remediation_summary =
  rm_available :: bool
  rm_best :: "string option"

record result_summary =
  su_risk :: "risk_summary option"
  su_findings :: "nat option"
  su_remediation :: "remediation_summary option"
  su_vulnerability :: "vulnerability_summary option"
  su_other :: jsobj

text \<open>
  \<open>cr_legacy\<close> holds the members \<open>maxSeverity\<close>, \<open>vulnCount\<close>, \<open>fixAvailable\<close>, \<open>bestFixVersion\<close> and
  \<open>severityCounts\<close> that results of the older vulnerability shape carry at the top level.
\<close>

record connector_result =
  cr_findings :: "connector_finding list"
  cr_summary :: "result_summary option"
  cr_ttlSeconds :: "int option"
  cr_legacy :: "vulnerability_summary option"

section \<open>Snapshots\<close>

text \<open>
  \<open>observedAt\<close> is an ISO 8601 string written by \<open>toISOString\<close> and read back by \<open>new Date\<close>; the
  model keeps the instant it denotes.
\<close>

datatype snapshot_status = Ok | Cache_hit | Timeout | Unavailable | Error | Background_pending

fun status_name :: "snapshot_status \<Rightarrow> string" where
  "status_name Ok = ''ok''"
| "status_name Cache_hit = ''cache_hit''"
| "status_name Timeout = ''timeout''"
| "status_name Unavailable = ''unavailable''"
| "status_name Error = ''error''"
| "status_name Background_pending = ''background_pending''"

record snapshot_meta =
  sm_status :: snapshot_status
  sm_responseTimeMs :: int
  sm_cacheAgeHours :: "rat option"
  sm_isCacheHit :: bool
  sm_errorCode :: "string option"

record entity_context =
  ec_packageId :: "string option"
  ec_packageVersionId :: "string option"
  ec_ecosystem :: string
  ec_pkg :: string
  ec_version :: "string option"
  ec_displayName :: string
  ec_isCacheHit :: bool
  ec_responseTimeMs :: int
  ec_cacheAgeHours :: "rat option"

record connector_snapshot =
  sn_connectorKey :: string
  sn_entityType :: string
  sn_packageId :: "string option"
  sn_packageVersionId :: "string option"
  sn_ecosystem :: string
  sn_packageName :: string
  sn_version :: "string option"
  sn_displayName :: string
  sn_fields :: jsobj
  sn_meta :: snapshot_meta
  sn_observedAt :: ms

section \<open>Events and the connector interface\<close>

datatype event_source = Proxy | Sync | Manual | Webhook
datatype event_kind = Package_metadata | Artifact_request
datatype execution_mode = Sync_required | Async_preferred | Async_only

record artifact_event =
  ev_id :: string
  ev_kind :: event_kind
  ev_packageId :: string
  ev_packageVersionId :: "string option"
  ev_ecosystem :: string
  ev_packageName :: string
  ev_version :: "string option"
  ev_source :: event_source
  ev_observedAt :: ms

record connector_config =
  cc_cacheTtlSeconds :: int
  cc_responseTimeoutMs :: int
  cc_backgroundTimeoutMs :: int
  cc_baseUrl :: string

record connector =
  cn_id :: string
  cn_config :: connector_config
  cn_supportedEcosystems :: "string list option"
  cn_subscribedEvents :: "(event_kind \<times> execution_mode) list"
  cn_readSnapshots :: "bool option"
  cn_supportsEvent :: "artifact_event \<Rightarrow> bool"
  cn_handleEvent :: "artifact_event \<Rightarrow> js_error + connector_result option"
  cn_normalizeToSnapshot ::
    "connector_result option \<Rightarrow> entity_context \<Rightarrow> snapshot_status option \<Rightarrow> string option \<Rightarrow> connector_snapshot"

text \<open>The ecosystems \<open>None\<close> are the literal \<open>"all"\<close> of the source.\<close>

definition getConnectorSubscription ::
    "connector \<Rightarrow> event_kind \<Rightarrow> (event_kind \<times> execution_mode) option" where
  "getConnectorSubscription connector kind =
     find (\<lambda>subscription. fst subscription = kind) (cn_subscribedEvents connector)"

definition connectorSupportsEcosystem :: "connector \<Rightarrow> string \<Rightarrow> bool" where
  "connectorSupportsEcosystem connector ecosystem =
     (case cn_supportedEcosystems connector of None \<Rightarrow> True
      | Some es \<Rightarrow> js_toLowerCase ecosystem \<in> set es)"

definition connectorSupportsEvent :: "connector \<Rightarrow> artifact_event \<Rightarrow> bool" where
  "connectorSupportsEvent connector event =
     (getConnectorSubscription connector (ev_kind event) \<noteq> None \<and>
      connectorSupportsEcosystem connector (ev_ecosystem event) \<and>
      cn_supportsEvent connector event)"

definition eventEntityContext ::
    "artifact_event \<Rightarrow> string \<Rightarrow> bool \<Rightarrow> int \<Rightarrow> rat option \<Rightarrow> entity_context" where
  "eventEntityContext event displayName isCacheHit responseTimeMs cacheAgeHours =
     \<lparr> ec_packageId = Some (ev_packageId event),
       ec_packageVersionId = ev_packageVersionId event,
       ec_ecosystem = ev_ecosystem event,
       ec_pkg = ev_packageName event,
       ec_version = ev_version event,
       ec_displayName = displayName,
       ec_isCacheHit = isCacheHit,
       ec_responseTimeMs = responseTimeMs,
       ec_cacheAgeHours = cacheAgeHours \<rparr>"

end
