(* ===== verification/Policy_Schema.thy ===== *)
theory Policy_Schema
  imports Tables Connector_Types
begin

text \<open>
  The rows of the policy tables, \<open>db/schema/policies.ts\<close>. Columns keep their names; \<open>None\<close> is a
  null, and for \<open>effective_to\<close> the timestamp \<open>infinity\<close>. The bookkeeping columns \<open>created_at\<close>,
  \<open>created_by_user_id\<close> and \<open>updated_at\<close> are left out.
\<close>

record policy_row =
  po_id :: string
  po_policy_key :: string
  po_tenant_id :: string
  po_project_id :: "string option"
  po_name :: string
  po_description :: "string option"
  po_category :: "string option"
  po_scope :: string
  po_status :: string
  po_enforcement_mode :: string
  po_priority :: int
  po_version :: int
  po_effective_from :: ms
  po_effective_to :: "ms option"
  po_superseded_by_id :: "string option"

record project_binding_row =
  pb_id :: string
  pb_binding_key :: string
  pb_policy_key :: string
  pb_project_id :: string
  pb_tenant_id :: string
  pb_enabled :: bool
  pb_inheritance_mode :: string
  pb_severity_override :: "string option"
  pb_threshold_overrides :: jsval
  pb_rule_overrides :: jsval
  pb_enforcement_mode_override :: "string option"
  pb_version :: int
  pb_effective_from :: ms
  pb_effective_to :: "ms option"
  pb_superseded_by_id :: "string option"

record rule_row =
  ru_id :: string
  ru_rule_key :: string
  ru_tenant_id :: string
  ru_name :: string
  ru_description :: "string option"
  ru_target_entity :: string
  ru_condition :: jsval
  ru_action :: jsobj
  ru_version :: int
  ru_effective_from :: ms
  ru_effective_to :: "ms option"
  ru_superseded_by_id :: "string option"

record rule_binding_row =
  rb_id :: string
  rb_tenant_id :: string
  rb_policy_id :: string
  rb_rule_id :: string
  rb_enabled :: bool
  rb_required :: bool
  rb_order_index :: int

record snapshot_row =
  sr_tenant_id :: string
  sr_project_id :: string
  sr_connector_key :: string
  sr_entity_type :: string
  sr_package_id :: "string option"
  sr_package_version_id :: "string option"
  sr_fields :: jsobj
  sr_meta :: snapshot_meta
  sr_observed_at :: ms

record policy_db =
  pd_policies :: "policy_row list"
  pd_project_bindings :: "project_binding_row list"
  pd_rules :: "rule_row list"
  pd_rule_bindings :: "rule_binding_row list"
  pd_uuids :: uuid_source

end
