(* ===== verification/Identity.thy ===== *)
theory Identity
  imports JS_Core
begin

text \<open>
  Package identity, \<open>features/packages/identity.ts\<close>, the pure part of
  \<open>features/packages/artifact-identity.ts\<close> and \<open>features/packages/catalog-classification.ts\<close>:
  canonical ecosystem, name and version, package references, keys, and the classification of
  versions and references.
\<close>

section \<open>Canonical identities\<close>

record package_identity =
  pi_ecosystem :: string
  pi_package :: string
  pi_version :: "string option"

definition canonicalizeEcosystem :: "string \<Rightarrow> string" where
  "canonicalizeEcosystem ecosystem = js_toLowerCase (js_trim ecosystem)"

definition is_name_sep :: "char \<Rightarrow> bool" where
  "is_name_sep c = (c \<in> {CHR ''-'', CHR ''_'', CHR ''.''})"

text \<open>\<open>s.replace(/[-_.]+/g, "-")\<close>\<close>

function collapse_seps :: "string \<Rightarrow> string" where
  "collapse_seps [] = []"
| "collapse_seps (c # s) =
     (if is_name_sep c then CHR ''-'' # collapse_seps (dropWhile is_name_sep s)
      else c # collapse_seps s)"
  by pat_completeness auto

termination collapse_seps
  by (relation "measure length") (auto simp: le_imp_less_Suc length_dropWhile_le)

definition canonicalizePackageName :: "string \<Rightarrow> string \<Rightarrow> string" where
  "canonicalizePackageName ecosystem packageName =
     (let canonicalEcosystem = canonicalizeEcosystem ecosystem;
          trimmed = js_toLowerCase (js_trim packageName)
      in if canonicalEcosystem = ''pypi'' then collapse_seps trimmed else trimmed)"

definition canonicalizePackageVersion :: "string \<Rightarrow> string" where
  "canonicalizePackageVersion version = js_trim version"

definition canonicalizeOptionalPackageVersion :: "string option \<Rightarrow> string option" where
  "canonicalizeOptionalPackageVersion version =
     (let canonicalVersion = canonicalizePackageVersion (default [] version)
      in if canonicalVersion = [] then None else Some canonicalVersion)"

definition canonicalizePackageIdentity :: "package_identity \<Rightarrow> package_identity" where
  "canonicalizePackageIdentity input =
     (let ecosystem = canonicalizeEcosystem (pi_ecosystem input)
      in \<lparr> pi_ecosystem = ecosystem,
           pi_package = canonicalizePackageName ecosystem (pi_package input),
           pi_version = canonicalizeOptionalPackageVersion (pi_version input) \<rparr>)"

definition parsePackageRef :: "string \<Rightarrow> package_identity option" where
  "parsePackageRef packageRef =
     (case (js_indexOf packageRef (CHR '':''), js_lastIndexOf packageRef (CHR '':'')) of
        (Some firstSeparator, Some lastSeparator) \<Rightarrow>
          let ecosystem = take firstSeparator packageRef
          in if lastSeparator = firstSeparator
             then Some \<lparr> pi_ecosystem = ecosystem,
                         pi_package = drop (firstSeparator + 1) packageRef,
                         pi_version = None \<rparr>
             else Some \<lparr> pi_ecosystem = ecosystem,
                         pi_package = js_slice packageRef (firstSeparator + 1) lastSeparator,
                         pi_version = Some (drop (lastSeparator + 1) packageRef) \<rparr>
      | _ \<Rightarrow> None)"

definition packageKey :: "string \<Rightarrow> string \<Rightarrow> string" where
  "packageKey ecosystem package =
     canonicalizeEcosystem ecosystem @ ''|'' @ canonicalizePackageName ecosystem package"

definition packageVersionKey :: "string \<Rightarrow> string \<Rightarrow> string" where
  "packageVersionKey packageId version = packageId @ ''|'' @ canonicalizePackageVersion version"

section \<open>Artifact identities\<close>

datatype artifact_scope = Package_scope | Package_version_scope

record raw_artifact_identity =
  ra_ecosystem :: string
  ra_package :: string
  ra_version :: "string option"
  ra_source :: string
  ra_parser_version :: string

record artifact_identity_input = package_identity +
  ii_source :: "string option"
  ii_parser_version :: "string option"

record catalog_reference =
  rf_package_id :: "string option"
  rf_package_version_id :: "string option"

record artifact_identity =
  ai_ecosystem :: string
  ai_package :: string
  ai_version :: "string option"
  ai_scope :: artifact_scope
  ai_package_id :: "string option"
  ai_package_version_id :: "string option"
  ai_canonical_ref :: string
  ai_display_name :: string
  ai_raw :: raw_artifact_identity

definition DEFAULT_ARTIFACT_IDENTITY_PARSER_VERSION :: string where
  "DEFAULT_ARTIFACT_IDENTITY_PARSER_VERSION = ''artifact-identity-v1''"

definition buildArtifactCanonicalRef :: "package_identity \<Rightarrow> string" where
  "buildArtifactCanonicalRef identity =
     (if present (pi_version identity)
      then pi_ecosystem identity @ '':'' @ pi_package identity @ '':'' @ the (pi_version identity)
      else pi_ecosystem identity @ '':'' @ pi_package identity)"

definition buildArtifactDisplayName :: "package_identity \<Rightarrow> string" where
  "buildArtifactDisplayName identity =
     (if present (pi_version identity)
      then pi_ecosystem identity @ '':'' @ pi_package identity @ ''@'' @ the (pi_version identity)
      else pi_ecosystem identity @ '':'' @ pi_package identity)"

definition buildRawArtifactIdentity :: "artifact_identity_input \<Rightarrow> raw_artifact_identity" where
  "buildRawArtifactIdentity input =
     \<lparr> ra_ecosystem = pi_ecosystem input,
       ra_package = pi_package input,
       ra_version = pi_version input,
       ra_source = default ''unknown'' (ii_source input),
       ra_parser_version =
         default DEFAULT_ARTIFACT_IDENTITY_PARSER_VERSION (ii_parser_version input) \<rparr>"

definition buildArtifactIdentity ::
    "artifact_identity_input \<Rightarrow> catalog_reference \<Rightarrow> artifact_identity" where
  "buildArtifactIdentity input catalogReference =
     (let identity = canonicalizePackageIdentity (package_identity.truncate input)
      in \<lparr> ai_ecosystem = pi_ecosystem identity,
           ai_package = pi_package identity,
           ai_version = pi_version identity,
           ai_scope = (if present (pi_version identity) then Package_version_scope else Package_scope),
           ai_package_id = rf_package_id catalogReference,
           ai_package_version_id = rf_package_version_id catalogReference,
           ai_canonical_ref = buildArtifactCanonicalRef identity,
           ai_display_name = buildArtifactDisplayName identity,
           ai_raw = buildRawArtifactIdentity input \<rparr>)"

section \<open>Classification\<close>

datatype version_kind = Version | Digest | Artifact
datatype artifact_kind = Package_release | Docker_index | Docker_manifest | Docker_blob
datatype display_role = Primary | Child | Internal
datatype ref_kind = Tag | Dist_tag | Digest_ref | Version_ref | Filename | Alias

record catalog_classification =
  cl_version_kind :: version_kind
  cl_artifact_kind :: artifact_kind
  cl_display_role :: display_role

record observed_ref_classification =
  oc_ref_kind :: ref_kind
  oc_is_display_preferred :: bool

definition isDigestReference :: "string option \<Rightarrow> bool" where
  "isDigestReference value =
     (case value of None \<Rightarrow> False | Some s \<Rightarrow> js_startsWith (js_trim s) ''sha256:'')"

text \<open>The classifier table has one entry, for the Docker ecosystem.\<close>

definition has_docker_classifier :: "string \<Rightarrow> bool" where
  "has_docker_classifier ecosystem = (js_toLowerCase (js_trim ecosystem) = ''docker'')"

definition classifyPackageCatalogVersion :: "string \<Rightarrow> string option \<Rightarrow> catalog_classification" where
  "classifyPackageCatalogVersion ecosystem version =
     (if has_docker_classifier ecosystem
      then \<lparr> cl_version_kind = (if isDigestReference version then Digest else Version),
             cl_artifact_kind = Docker_index,
             cl_display_role = Primary \<rparr>
      else \<lparr> cl_version_kind = Version, cl_artifact_kind = Package_release,
             cl_display_role = Primary \<rparr>)"

definition classifyObservedPackageVersionRef :: "string \<Rightarrow> string \<Rightarrow> observed_ref_classification" where
  "classifyObservedPackageVersionRef ecosystem ref =
     (if has_docker_classifier ecosystem
      then let isDigest = isDigestReference (Some ref)
           in \<lparr> oc_ref_kind = (if isDigest then Digest_ref else Tag),
                oc_is_display_preferred = (\<not> isDigest) \<rparr>
      else \<lparr> oc_ref_kind = Alias, oc_is_display_preferred = False \<rparr>)"

section \<open>Canonical forms are stable\<close>

lemma canonicalizeEcosystem_idem [simp]:
  "canonicalizeEcosystem (canonicalizeEcosystem e) = canonicalizeEcosystem e"
  by (simp add: canonicalizeEcosystem_def js_trim_toLowerCase)

lemma is_name_sep_lower [simp]: "is_name_sep (js_lower_char c) = is_name_sep c"
proof -
  have "js_lower_char c = d \<longleftrightarrow> c = d" if "d \<in> {CHR ''-'', CHR ''_'', CHR ''.''}" for d
  proof (cases "is_upper_unit (code_unit c)")
    case True
    then have "code_unit (js_lower_char c) = code_unit c + 32"
      using nat_of_char_less_256 [of c]
      by (auto simp: js_lower_char_def code_unit_def is_upper_unit_def)
    moreover have "code_unit d \<in> {45, 95, 46}"
      using that by (auto simp: code_unit_def)
    ultimately have "js_lower_char c \<noteq> d" and "c \<noteq> d"
      using True by (auto simp: is_upper_unit_def)
    then show ?thesis by simp
  qed (simp add: js_lower_char_def)
  then show ?thesis by (simp add: is_name_sep_def)
qed

lemma js_lower_char_sep [simp]: "js_lower_char (CHR ''-'') = CHR ''-''"
  by (simp add: js_lower_char_def is_upper_unit_def code_unit_def)

lemma collapse_seps_lower: "collapse_seps (js_toLowerCase s) = js_toLowerCase (collapse_seps s)"
proof (induction s rule: collapse_seps.induct)
  case (2 c s)
  have "dropWhile is_name_sep (map js_lower_char s) = map js_lower_char (dropWhile is_name_sep s)"
    by (simp add: dropWhile_map comp_def)
  with 2 show ?case by (simp add: js_toLowerCase_def)
qed simp

lemma collapse_seps_no_sep_hd: "s = [] \<or> \<not> is_name_sep (hd s) \<Longrightarrow>
    collapse_seps s = [] \<or> \<not> is_name_sep (hd (collapse_seps s))"
  by (cases s) auto

lemma collapse_seps_idem [simp]: "collapse_seps (collapse_seps s) = collapse_seps s"
proof (induction s rule: collapse_seps.induct)
  case (2 c s)
  show ?case
  proof (cases "is_name_sep c")
    case True
    let ?r = "dropWhile is_name_sep s"
    have "?r = [] \<or> \<not> is_name_sep (hd ?r)"
      by (metis hd_dropWhile)
    then have "dropWhile is_name_sep (collapse_seps ?r) = collapse_seps ?r"
      using collapse_seps_no_sep_hd [of ?r] by (auto simp: dropWhile_eq_self_iff)
    with 2 True show ?thesis by (simp add: is_name_sep_def)
  qed (use 2 in simp)
qed simp

text \<open>A string with no white space at either end is its own trimmed form.\<close>

definition trimmed :: "string \<Rightarrow> bool" where
  "trimmed s = (s = [] \<or> \<not> is_js_space (hd s) \<and> \<not> is_js_space (last s))"

lemma trimmed_js_trim: "trimmed s \<Longrightarrow> js_trim s = s"
proof -
  assume "trimmed s"
  then have "dropWhile is_js_space s = s" and "dropWhile is_js_space (rev s) = rev s"
    by (auto simp: trimmed_def dropWhile_eq_self_iff hd_rev)
  then show ?thesis by (simp add: js_trim_def)
qed

lemma js_trim_trimmed: "trimmed (js_trim s)"
proof -
  let ?t = "js_trim s"
  have "dropWhile is_js_space ?t = ?t"
    using dropWhile_rev_dropWhile [of "dropWhile is_js_space s" is_js_space]
    by (metis hd_dropWhile js_trim_def)
  then have "?t = [] \<or> \<not> is_js_space (hd ?t)"
    by (simp add: dropWhile_eq_self_iff)
  moreover have "?t = [] \<or> \<not> is_js_space (last ?t)"
    by (metis hd_dropWhile js_trim_def last_rev rev_is_Nil_conv)
  ultimately show ?thesis by (auto simp: trimmed_def)
qed

lemma hd_collapse: "s \<noteq> [] \<Longrightarrow> hd (collapse_seps s) = hd s \<or> hd (collapse_seps s) = CHR ''-''"
  by (cases s) auto

lemma last_collapse: "s \<noteq> [] \<Longrightarrow>
    collapse_seps s \<noteq> [] \<and> (last (collapse_seps s) = last s \<or> last (collapse_seps s) = CHR ''-'')"
proof (induction s rule: collapse_seps.induct)
  case (2 c s)
  show ?case
  proof (cases "is_name_sep c")
    case True
    show ?thesis
    proof (cases "dropWhile is_name_sep s = []")
      case False
      then have "last (dropWhile is_name_sep s) = last s" and "s \<noteq> []"
        by (metis last_appendR takeWhile_dropWhile_id) (use False in auto)
      with 2 True False show ?thesis by auto
    next
      case empty: True
      with True show ?thesis by (simp add: empty)
    qed
  qed (use 2 in auto)
qed simp

lemma trimmed_collapse: "trimmed s \<Longrightarrow> trimmed (collapse_seps s)"
  using hd_collapse [of s] last_collapse [of s]
  by (cases "s = []") (auto simp: trimmed_def is_js_space_def code_unit_def)

lemma trimmed_lower: "trimmed s \<Longrightarrow> trimmed (js_toLowerCase s)"
  by (cases "s = []") (auto simp: trimmed_def js_toLowerCase_def hd_map last_map)

lemma canonicalizePackageName_trimmed: "trimmed (canonicalizePackageName e p)"
  by (simp add: canonicalizePackageName_def Let_def trimmed_collapse trimmed_lower js_trim_trimmed)

lemma canonicalizePackageName_idem [simp]:
  "canonicalizePackageName e (canonicalizePackageName e p) = canonicalizePackageName e p"
  using trimmed_js_trim [OF canonicalizePackageName_trimmed [of e p]]
  by (auto simp: canonicalizePackageName_def Let_def collapse_seps_lower [symmetric])

lemma canonicalizePackageName_eco [simp]:
  "canonicalizePackageName (canonicalizeEcosystem e) p = canonicalizePackageName e p"
  by (simp add: canonicalizePackageName_def)

lemma canonicalizeOptionalPackageVersion_idem [simp]:
  "canonicalizeOptionalPackageVersion (canonicalizeOptionalPackageVersion v) =
   canonicalizeOptionalPackageVersion v"
  by (auto simp: canonicalizeOptionalPackageVersion_def canonicalizePackageVersion_def default_def Let_def
      split: option.splits)

lemma canonicalizePackageIdentity_idem [simp]:
  "canonicalizePackageIdentity (canonicalizePackageIdentity i) = canonicalizePackageIdentity i"
  by (simp add: canonicalizePackageIdentity_def Let_def)

lemma packageKey_canonical [simp]:
  "packageKey (canonicalizeEcosystem e) (canonicalizePackageName e p) = packageKey e p"
  by (simp add: packageKey_def)

lemma packageKey_inject:
  assumes "CHR ''|'' \<notin> set (canonicalizeEcosystem e)" and "CHR ''|'' \<notin> set (canonicalizeEcosystem e')"
  shows "packageKey e p = packageKey e' p' \<longleftrightarrow>
         canonicalizeEcosystem e = canonicalizeEcosystem e' \<and>
         canonicalizePackageName e p = canonicalizePackageName e' p'"
  using append_sep_inject [OF assms] by (auto simp: packageKey_def)

section \<open>References\<close>

lemma parsePackageRef_two:
  assumes "CHR '':'' \<notin> set e" and "CHR '':'' \<notin> set p"
  shows "parsePackageRef (e @ '':'' @ p) = Some \<lparr> pi_ecosystem = e, pi_package = p, pi_version = None \<rparr>"
  using js_indexOf_append [OF assms(1), of p] js_lastIndexOf_append [OF assms(2), of e]
  by (simp add: parsePackageRef_def)

lemma parsePackageRef_three:
  assumes "CHR '':'' \<notin> set e" and "CHR '':'' \<notin> set v"
  shows "parsePackageRef (e @ '':'' @ p @ '':'' @ v) =
         Some \<lparr> pi_ecosystem = e, pi_package = p, pi_version = Some v \<rparr>"
  using js_indexOf_append [OF assms(1), of "p @ '':'' @ v"]
    js_lastIndexOf_append [OF assms(2), of "e @ '':'' @ p"]
  by (simp add: parsePackageRef_def js_slice_def)

section \<open>Properties\<close>

text \<open>
  Canonicalization is idempotent on identities, and the package key of an identity is that of
  its canonical form.
\<close>

theorem canonicalizePackageIdentity_stable:
  "canonicalizePackageIdentity (canonicalizePackageIdentity i) = canonicalizePackageIdentity i \<and>
   packageKey (pi_ecosystem (canonicalizePackageIdentity i)) (pi_package (canonicalizePackageIdentity i)) =
     packageKey (pi_ecosystem i) (pi_package i)"
  by (simp add: canonicalizePackageIdentity_def packageKey_def Let_def)

text \<open>
  The canonical reference of an identity parses back to it, provided the separator does not
  occur in the ecosystem, in the version, or, for an identity without version, in the package.
\<close>

theorem canonical_ref_roundtrip:
  assumes "CHR '':'' \<notin> set (pi_ecosystem i)"
    and "case pi_version i of None \<Rightarrow> CHR '':'' \<notin> set (pi_package i)
         | Some v \<Rightarrow> v \<noteq> [] \<and> CHR '':'' \<notin> set v"
  shows "parsePackageRef (buildArtifactCanonicalRef i) = Some i"
proof (cases "pi_version i")
  case None
  with assms show ?thesis
    using parsePackageRef_two [of "pi_ecosystem i" "pi_package i"]
    by (simp add: buildArtifactCanonicalRef_def present_def)
next
  case (Some v)
  with assms show ?thesis
    using parsePackageRef_three [of "pi_ecosystem i" v "pi_package i"]
    by (simp add: buildArtifactCanonicalRef_def present_def)
qed

theorem canonical_ref_roundtrip_witness:
  "parsePackageRef (buildArtifactCanonicalRef
     \<lparr> pi_ecosystem = ''npm'', pi_package = ''@scope/left-pad'', pi_version = Some ''1.3.0'' \<rparr>) =
   Some \<lparr> pi_ecosystem = ''npm'', pi_package = ''@scope/left-pad'', pi_version = Some ''1.3.0'' \<rparr>"
  by (rule canonical_ref_roundtrip) simp_all

text \<open>
  A reference to a Docker digest does not parse back: the digest contains the separator, so
  its algorithm becomes part of the package name. The version of the parsed identity is the bare
  hash and the package is a different one.
\<close>

theorem canonical_ref_digest_misparsed:
  assumes "CHR '':'' \<notin> set e" and "CHR '':'' \<notin> set h"
  shows "parsePackageRef (buildArtifactCanonicalRef
           \<lparr> pi_ecosystem = e, pi_package = p, pi_version = Some (''sha256:'' @ h) \<rparr>) =
         Some \<lparr> pi_ecosystem = e, pi_package = p @ '':sha256'', pi_version = Some h \<rparr>"
  using parsePackageRef_three [OF assms, of "p @ '':sha256''"]
  by (simp add: buildArtifactCanonicalRef_def present_def)

theorem canonical_ref_digest_misparsed_witness:
  "parsePackageRef (buildArtifactCanonicalRef
     \<lparr> pi_ecosystem = ''docker'', pi_package = ''library/alpine'', pi_version = Some (''sha256:'' @ ''ab12'') \<rparr>) =
   Some \<lparr> pi_ecosystem = ''docker'', pi_package = ''library/alpine'' @ '':sha256'', pi_version = Some ''ab12'' \<rparr>"
  by (rule canonical_ref_digest_misparsed) simp_all

end
