(* ===== verification/Expression.thy ===== *)
theory Expression
  imports JS_Core
begin

text \<open>
  The policy expression engine, \<open>policy/expression.ts\<close>: condition trees, their evaluation against
  a field map (plain and with a trace), and message templates.

  A condition arrives as a JSON value; \<open>decode_condition\<close> applies the type guards in the order
  of the evaluator and yields a value of type \<open>condition\<close>, in which a node that passes no guard is
  \<open>Malformed\<close> and a node on which the \<open>in\<close> operator throws is \<open>NotObject\<close>.
\<close>

type_synonym field_map = jsobj

section \<open>Condition trees\<close>

datatype condition =
    Leaf jsval jsval jsval
  | All "condition list"
  | Any "condition list"
  | Not condition
  | Malformed
  | NotObject

fun elems :: "jsval \<Rightarrow> jsval list option" where
  "elems (JArr vs) = Some vs"
| "elems _ = None"

definition has_key :: "string \<Rightarrow> jsobj \<Rightarrow> bool" where
  "has_key k ps = (k \<in> set (map fst ps))"

definition is_all :: "jsobj \<Rightarrow> bool" where
  "is_all ps = (has_key ''all'' ps \<and> elems (obj_get ps ''all'') \<noteq> None)"

definition is_any :: "jsobj \<Rightarrow> bool" where
  "is_any ps = (has_key ''any'' ps \<and> elems (obj_get ps ''any'') \<noteq> None)"

definition is_not :: "jsobj \<Rightarrow> bool" where
  "is_not ps = has_key ''not'' ps"

definition is_leaf :: "jsobj \<Rightarrow> bool" where
  "is_leaf ps = (has_key ''field'' ps \<and> has_key ''operator'' ps)"

lemma size_obj_get: "has_key k ps \<Longrightarrow> size (obj_get ps k) < size (JObj ps)"
proof (induction ps)
  case (Cons p ps)
  then show ?case by (cases p) (force simp: has_key_def obj_get_def)
qed (simp add: has_key_def)

lemma size_elems:
  assumes "elems v = Some vs" and "c \<in> set vs"
  shows "size c < size v"
proof (cases v)
  case (JArr us)
  then show ?thesis
    using assms size_list_estimation' [of c us "size c" size] by simp
qed (use assms in auto)

function decode_condition :: "jsval \<Rightarrow> condition" where
  "decode_condition v =
     (case v of
        JObj ps \<Rightarrow>
          if is_all ps then All (map decode_condition (the (elems (obj_get ps ''all''))))
          else if is_any ps then Any (map decode_condition (the (elems (obj_get ps ''any''))))
          else if is_not ps then Not (decode_condition (obj_get ps ''not''))
          else if is_leaf ps then
            Leaf (obj_get ps ''field'') (obj_get ps ''operator'') (obj_get ps ''value'')
          else Malformed
      | JArr _ \<Rightarrow> Malformed
      | _ \<Rightarrow> NotObject)"
  by pat_completeness auto

termination decode_condition
proof (relation "measure size")
  show "wf (measure (size :: jsval \<Rightarrow> nat))" by simp
  have elem: "size c < size (JObj ps)"
    if "has_key k ps" and "elems (obj_get ps k) \<noteq> None" and "c \<in> set (the (elems (obj_get ps k)))"
    for k ps c
    using that size_obj_get [of k ps] size_elems [of "obj_get ps k" _ c] by fastforce
  show "(c, v) \<in> measure size"
    if "v = JObj ps" and "is_all ps" and "c \<in> set (the (elems (obj_get ps ''all'')))" for v ps c
    using that elem [of "''all''" ps c] by (simp add: is_all_def)
  show "(c, v) \<in> measure size"
    if "v = JObj ps" and "\<not> is_all ps" and "is_any ps"
      and "c \<in> set (the (elems (obj_get ps ''any'')))" for v ps c
    using that elem [of "''any''" ps c] by (simp add: is_any_def)
  show "(obj_get ps ''not'', v) \<in> measure size"
    if "v = JObj ps" and "\<not> is_all ps" and "\<not> is_any ps" and "is_not ps" for v ps
    using that size_obj_get [of "''not''" ps] by (simp add: is_not_def)
qed

declare decode_condition.simps [simp del]

section \<open>Evaluation\<close>

definition evaluateLeaf :: "jsval \<Rightarrow> jsval \<Rightarrow> jsval \<Rightarrow> bool" where
  "evaluateLeaf fieldValue operator conditionValue =
     (if operator = JStr ''exists'' then \<not> nullish fieldValue
      else if operator = JStr ''not_exists'' then nullish fieldValue
      else if operator = JStr ''is_true'' then fieldValue = JBool True
      else if operator = JStr ''is_false'' then fieldValue = JBool False
      else if nullish fieldValue then False
      else if operator = JStr ''eq'' then js_loose_eq fieldValue conditionValue
      else if operator = JStr ''ne'' then \<not> js_loose_eq fieldValue conditionValue
      else if operator = JStr ''gt'' then js_less conditionValue fieldValue
      else if operator = JStr ''gte'' then js_less_eq conditionValue fieldValue
      else if operator = JStr ''lt'' then js_less fieldValue conditionValue
      else if operator = JStr ''lte'' then js_less_eq fieldValue conditionValue
      else if operator = JStr ''in'' then
        (case conditionValue of JArr vs \<Rightarrow> arr_includes vs fieldValue | _ \<Rightarrow> False)
      else if operator = JStr ''not_in'' then
        (case conditionValue of JArr vs \<Rightarrow> \<not> arr_includes vs fieldValue | _ \<Rightarrow> False)
      else if operator = JStr ''contains'' then
        (case fieldValue of JStr s \<Rightarrow> js_includes s (js_to_string conditionValue) | _ \<Rightarrow> False)
      else if operator = JStr ''not_contains'' then
        (case fieldValue of JStr s \<Rightarrow> \<not> js_includes s (js_to_string conditionValue) | _ \<Rightarrow> False)
      else if operator = JStr ''starts_with'' then
        (case fieldValue of JStr s \<Rightarrow> js_startsWith s (js_to_string conditionValue) | _ \<Rightarrow> False)
      else if operator = JStr ''ends_with'' then
        (case fieldValue of JStr s \<Rightarrow> js_endsWith s (js_to_string conditionValue) | _ \<Rightarrow> False)
      else False)"

text \<open>\<open>fields[condition.field] ?? null\<close>\<close>

definition field_value :: "field_map \<Rightarrow> jsval \<Rightarrow> jsval" where
  "field_value fields f = coalesce (obj_get fields (js_to_string f)) JNull"

fun evaluate :: "condition \<Rightarrow> field_map \<Rightarrow> js_error + bool" where
  "evaluate (All cs) fields = js_every (\<lambda>c. evaluate c fields) cs"
| "evaluate (Any cs) fields = js_some (\<lambda>c. evaluate c fields) cs"
| "evaluate (Not c) fields = sum_bind (evaluate c fields) (\<lambda>b. Inr (\<not> b))"
| "evaluate (Leaf f op v) fields = Inr (evaluateLeaf (field_value fields f) op v)"
| "evaluate Malformed fields = Inr False"
| "evaluate NotObject fields = Inl TypeError"

definition evaluateCondition :: "jsval \<Rightarrow> field_map \<Rightarrow> js_error + bool" where
  "evaluateCondition condition fields = evaluate (decode_condition condition) fields"

datatype leaf_trace = LeafTrace (lt_field: jsval) (lt_operator: jsval) (lt_value: jsval) (lt_resolved: jsval)

datatype trace_node =
  TraceNode (tn_node: string) (tn_result: bool) (tn_leaf: "leaf_trace option") (tn_children: "trace_node list")

fun evaluateWithTrace :: "condition \<Rightarrow> field_map \<Rightarrow> js_error + bool \<times> trace_node" where
  "evaluateWithTrace (All cs) fields =
     sum_bind (js_map (\<lambda>c. evaluateWithTrace c fields) cs) (\<lambda>rs.
       let children = map snd rs; result = list_all tn_result children
       in Inr (result, TraceNode ''all'' result None children))"
| "evaluateWithTrace (Any cs) fields =
     sum_bind (js_map (\<lambda>c. evaluateWithTrace c fields) cs) (\<lambda>rs.
       let children = map snd rs; result = list_ex tn_result children
       in Inr (result, TraceNode ''any'' result None children))"
| "evaluateWithTrace (Not c) fields =
     sum_bind (evaluateWithTrace c fields) (\<lambda>(r, t).
       Inr (\<not> r, TraceNode ''not'' (\<not> r) None [t]))"
| "evaluateWithTrace (Leaf f op v) fields =
     (let resolved = field_value fields f; result = evaluateLeaf resolved op v
      in Inr (result, TraceNode ''leaf'' result (Some (LeafTrace f op v resolved)) []))"
| "evaluateWithTrace Malformed fields = Inr (False, TraceNode ''leaf'' False None [])"
| "evaluateWithTrace NotObject fields = Inl TypeError"

definition evaluateConditionWithTrace :: "jsval \<Rightarrow> field_map \<Rightarrow> js_error + bool \<times> trace_node" where
  "evaluateConditionWithTrace condition fields = evaluateWithTrace (decode_condition condition) fields"

section \<open>Templates\<close>

text \<open>
  One match of \<open>/\{\{([^}]+)\}\}/\<close> at the head of a string: the captured reference and the rest.
  The group is greedy and stops at the first closing brace, so it has one candidate.
\<close>

definition template_match :: "string \<Rightarrow> (string \<times> string) option" where
  "template_match s =
     (if js_startsWith s ''{{'' then
        let r = drop 2 s; run = takeWhile (\<lambda>c. c \<noteq> CHR ''}'') r; t = drop (length run) r
        in if run \<noteq> [] \<and> js_startsWith t ''}}'' then Some (run, drop 2 t) else None
      else None)"

definition render_value :: "jsval \<Rightarrow> string" where
  "render_value v =
     (case v of
        JUndef \<Rightarrow> ''?''
      | JNull \<Rightarrow> ''?''
      | JArr _ \<Rightarrow> json_stringify v
      | JObj _ \<Rightarrow> json_stringify v
      | JStr s \<Rightarrow> s
      | JNum q \<Rightarrow> if q = of_int \<lfloor>q\<rfloor> then num_to_string q
                  else num_to_string (of_int (math_round (q * 100)) / 100)
      | JBool b \<Rightarrow> js_to_string v)"

lemma template_match_shorter: "template_match s = Some (ref, rest) \<Longrightarrow> length rest < length s"
  by (auto simp: template_match_def Let_def js_startsWith_iff split: if_splits
      dest: arg_cong [where f = length])

function renderTemplate :: "string \<Rightarrow> field_map \<Rightarrow> string" where
  "renderTemplate [] fields = []"
| "renderTemplate (c # s) fields =
     (case template_match (c # s) of
        Some (ref, rest) \<Rightarrow> render_value (obj_get fields (js_trim ref)) @ renderTemplate rest fields
      | None \<Rightarrow> c # renderTemplate s fields)"
  by pat_completeness auto

termination renderTemplate
  by (relation "measure (\<lambda>(s, _). length s)") (use template_match_shorter in fastforce)+

section \<open>What evaluation means\<close>

text \<open>The reference semantics: connectives of logic over leaf tests.\<close>

fun holds :: "field_map \<Rightarrow> condition \<Rightarrow> bool" where
  "holds fields (All cs) \<longleftrightarrow> (\<forall>c \<in> set cs. holds fields c)"
| "holds fields (Any cs) \<longleftrightarrow> (\<exists>c \<in> set cs. holds fields c)"
| "holds fields (Not c) \<longleftrightarrow> \<not> holds fields c"
| "holds fields (Leaf f op v) \<longleftrightarrow> evaluateLeaf (field_value fields f) op v"
| "holds fields Malformed \<longleftrightarrow> False"
| "holds fields NotObject \<longleftrightarrow> False"

text \<open>A condition in which every node is an object.\<close>

fun well_formed :: "condition \<Rightarrow> bool" where
  "well_formed (All cs) \<longleftrightarrow> list_all well_formed cs"
| "well_formed (Any cs) \<longleftrightarrow> list_all well_formed cs"
| "well_formed (Not c) \<longleftrightarrow> well_formed c"
| "well_formed NotObject \<longleftrightarrow> False"
| "well_formed _ \<longleftrightarrow> True"

lemma evaluate_holds: "well_formed c \<Longrightarrow> evaluate c fields = Inr (holds fields c)"
proof (induction c)
  case (All cs)
  then show ?case
    using js_every_Inr [of cs "\<lambda>c. evaluate c fields" "holds fields"]
    by (auto simp: list_all_iff)
next
  case (Any cs)
  then show ?case
    using js_some_Inr [of cs "\<lambda>c. evaluate c fields" "holds fields"]
    by (auto simp: list_all_iff list_ex_iff)
qed auto

lemma evaluateWithTrace_agrees:
  "evaluateWithTrace c fields = Inr (r, t) \<Longrightarrow> evaluate c fields = Inr r \<and> tn_result t = r"
proof (induction c arbitrary: r t)
  case (All cs)
  then obtain rs where rs: "js_map (\<lambda>c. evaluateWithTrace c fields) cs = Inr rs"
    and rt: "r = list_all tn_result (map snd rs)" "tn_result t = r"
    by (auto simp: sum_bind_Inr_iff Let_def)
  have "list_all2 (\<lambda>c p. evaluate c fields = Inr (tn_result (snd p))) cs rs"
    using js_map_Inr_D [OF rs] by (rule list.rel_mono_strong) (use All.IH in fastforce)
  then have "js_every (\<lambda>c. evaluate c fields) cs = Inr (list_all tn_result (map snd rs))"
    by (induction rule: list_all2_induct) auto
  with rt show ?case by simp
next
  case (Any cs)
  then obtain rs where rs: "js_map (\<lambda>c. evaluateWithTrace c fields) cs = Inr rs"
    and rt: "r = list_ex tn_result (map snd rs)" "tn_result t = r"
    by (auto simp: sum_bind_Inr_iff Let_def)
  have "list_all2 (\<lambda>c p. evaluate c fields = Inr (tn_result (snd p))) cs rs"
    using js_map_Inr_D [OF rs] by (rule list.rel_mono_strong) (use Any.IH in fastforce)
  then have "js_some (\<lambda>c. evaluate c fields) cs = Inr (list_ex tn_result (map snd rs))"
    by (induction rule: list_all2_induct) auto
  with rt show ?case by simp
qed (auto simp: sum_bind_Inr_iff Let_def)

lemma js_map_total: "(\<And>x. x \<in> set xs \<Longrightarrow> \<exists>y. f x = Inr y) \<Longrightarrow> \<exists>ys. js_map f xs = Inr ys"
  by (induction xs) fastforce+

lemma evaluateWithTrace_total: "well_formed c \<Longrightarrow> \<exists>p. evaluateWithTrace c fields = Inr p"
proof (induction c)
  case (All cs)
  then have "\<exists>ys. js_map (\<lambda>c. evaluateWithTrace c fields) cs = Inr ys"
    by (intro js_map_total) (auto simp: list_all_iff)
  then show ?case by (auto simp: Let_def)
next
  case (Any cs)
  then have "\<exists>ys. js_map (\<lambda>c. evaluateWithTrace c fields) cs = Inr ys"
    by (intro js_map_total) (auto simp: list_all_iff)
  then show ?case by (auto simp: Let_def)
qed (auto simp: Let_def)

lemma evaluateWithTrace_well_formed:
  assumes "well_formed c"
  shows "\<exists>t. evaluateWithTrace c fields = Inr (holds fields c, t) \<and> tn_result t = holds fields c"
  using evaluateWithTrace_total [OF assms, of fields] evaluateWithTrace_agrees [of c fields]
    evaluate_holds [OF assms, of fields] by fastforce

text \<open>The field references of a condition; evaluation reads no other field.\<close>

fun refs :: "condition \<Rightarrow> string set" where
  "refs (All cs) = (\<Union>c \<in> set cs. refs c)"
| "refs (Any cs) = (\<Union>c \<in> set cs. refs c)"
| "refs (Not c) = refs c"
| "refs (Leaf f op v) = {js_to_string f}"
| "refs _ = {}"

lemma evaluate_local:
  "(\<And>k. k \<in> refs c \<Longrightarrow> obj_get fields k = obj_get fields' k) \<Longrightarrow> evaluate c fields = evaluate c fields'"
proof (induction c)
  case (All cs)
  then show ?case by (auto intro!: js_every_cong)
next
  case (Any cs)
  then show ?case by (auto intro!: js_some_cong)
qed (auto simp: field_value_def)

text \<open>
  A condition that needs data: it has no negation and no \<open>not_exists\<close> test, and each conjunction
  has at least one member that needs data. Such a condition never matches when none of its
  fields has a value, which is the situation after a connector failed.
\<close>

fun needs_data :: "condition \<Rightarrow> bool" where
  "needs_data (All cs) \<longleftrightarrow> list_ex needs_data cs"
| "needs_data (Any cs) \<longleftrightarrow> list_all needs_data cs"
| "needs_data (Leaf f op v) \<longleftrightarrow> op \<noteq> JStr ''not_exists''"
| "needs_data Malformed \<longleftrightarrow> True"
| "needs_data _ \<longleftrightarrow> False"

lemma evaluateLeaf_nullish:
  "nullish fv \<Longrightarrow> evaluateLeaf fv op v \<longleftrightarrow> op = JStr ''not_exists''"
  by (auto simp: evaluateLeaf_def)

lemma needs_data_silent:
  "\<lbrakk>needs_data c; \<And>k. k \<in> refs c \<Longrightarrow> nullish (obj_get fields k)\<rbrakk> \<Longrightarrow> \<not> holds fields c"
proof (induction c)
  case (Leaf f op v)
  then have "nullish (field_value fields f)"
    by (simp add: field_value_def coalesce_def)
  with Leaf.prems show ?case by (simp add: evaluateLeaf_nullish)
qed (auto simp: list_all_iff list_ex_iff)

subsection \<open>Leaf operators\<close>

lemma evaluateLeaf_complement:
  assumes "\<not> nullish fv"
  shows "evaluateLeaf fv (JStr ''ne'') v \<longleftrightarrow> \<not> evaluateLeaf fv (JStr ''eq'') v"
    and "evaluateLeaf fv (JStr ''not_in'') (JArr vs) \<longleftrightarrow> \<not> evaluateLeaf fv (JStr ''in'') (JArr vs)"
    and "evaluateLeaf (JStr s) (JStr ''not_contains'') v \<longleftrightarrow> \<not> evaluateLeaf (JStr s) (JStr ''contains'') v"
    and "evaluateLeaf (JNum p) (JStr ''gt'') (JNum q) \<longleftrightarrow> \<not> evaluateLeaf (JNum p) (JStr ''lte'') (JNum q)"
    and "evaluateLeaf (JNum p) (JStr ''lt'') (JNum q) \<longleftrightarrow> \<not> evaluateLeaf (JNum p) (JStr ''gte'') (JNum q)"
  using assms
  by (auto simp: evaluateLeaf_def js_less_def js_less_eq_def to_primitive_def Let_def)

section \<open>What a template renders to\<close>

lemma template_match_None: "CHR ''{'' \<notin> set s \<Longrightarrow> template_match s = None"
  by (auto simp: template_match_def js_startsWith_iff)

lemma renderTemplate_literal_append:
  "CHR ''{'' \<notin> set a \<Longrightarrow> renderTemplate (a @ s) fields = a @ renderTemplate s fields"
proof (induction a)
  case (Cons c a)
  then have "template_match (c # a @ s) = None"
    by (auto simp: template_match_def js_startsWith_iff)
  with Cons show ?case by simp
qed simp

lemma template_match_ref:
  assumes "ref \<noteq> []" and "CHR ''}'' \<notin> set ref"
  shows "template_match (''{{'' @ ref @ ''}}'' @ s) = Some (ref, s)"
proof -
  have "takeWhile (\<lambda>c. c \<noteq> CHR ''}'') (ref @ CHR ''}'' # CHR ''}'' # s) = ref"
    using assms(2) by (auto simp: takeWhile_append)
  then show ?thesis
    using assms(1) by (simp add: template_match_def js_startsWith_iff)
qed

lemma renderTemplate_ref:
  assumes "ref \<noteq> []" and "CHR ''}'' \<notin> set ref"
  shows "renderTemplate (''{{'' @ ref @ ''}}'' @ s) fields =
         render_value (obj_get fields (js_trim ref)) @ renderTemplate s fields"
  using template_match_ref [OF assms, of s] by simp

section \<open>Properties\<close>


definition sample_condition :: jsval where
  "sample_condition =
     JObj [(''all'', JArr
       [JObj [(''field'', JStr ''source.osv.critical_count''), (''operator'', JStr ''gte''), (''value'', JNum 1)],
        JObj [(''not'', JObj [(''field'', JStr ''asset.ecosystem''), (''operator'', JStr ''in''),
                              (''value'', JArr [JStr ''docker''])])]])]"

definition sample_fields :: field_map where
  "sample_fields = [(''asset.ecosystem'', JStr ''npm''), (''source.osv.critical_count'', JNum 2)]"

lemma sample_condition_eval:
  "well_formed (decode_condition sample_condition)"
  "holds sample_fields (decode_condition sample_condition)"
  by code_simp+


text \<open>
  Evaluation depends on nothing but the fields the condition names: two field maps that agree
  on these give the same outcome, exceptions included.
\<close>

theorem evaluateCondition_local:
  assumes "\<And>k. k \<in> refs (decode_condition c) \<Longrightarrow> obj_get fields k = obj_get fields' k"
  shows "evaluateCondition c fields = evaluateCondition c fields'"
  using evaluate_local [OF assms] by (simp add: evaluateCondition_def)

theorem evaluateCondition_local_witness:
  "evaluateCondition sample_condition sample_fields =
   evaluateCondition sample_condition ((''asset.version'', JStr ''1.0.0'') # sample_fields)"
proof (rule evaluateCondition_local)
  have "refs (decode_condition sample_condition) = {''source.osv.critical_count'', ''asset.ecosystem''}"
    by code_simp
  then show "obj_get sample_fields k = obj_get ((''asset.version'', JStr ''1.0.0'') # sample_fields) k"
    if "k \<in> refs (decode_condition sample_condition)" for k
    using that by (auto simp: obj_get_def)
qed

text \<open>
  A message template keeps its literal text and replaces each reference by the value of the
  trimmed field name; what follows is rendered in the same way.
\<close>

theorem renderTemplate_substitutes:
  assumes "CHR ''{'' \<notin> set lit" and "ref \<noteq> []" and "CHR ''}'' \<notin> set ref"
  shows "renderTemplate (lit @ ''{{'' @ ref @ ''}}'' @ rest) fields =
         lit @ render_value (obj_get fields (js_trim ref)) @ renderTemplate rest fields"
  using renderTemplate_literal_append [OF assms(1)] renderTemplate_ref [OF assms(2,3)] by simp

lemma sample_render:
  "render_value (obj_get sample_fields (js_trim '' source.osv.critical_count '')) = ''2''"
  "renderTemplate '' CVEs'' sample_fields = '' CVEs''"
  by code_simp+

theorem renderTemplate_substitutes_witness:
  "renderTemplate (''Has '' @ ''{{'' @ '' source.osv.critical_count '' @ ''}}'' @ '' CVEs'') sample_fields =
   ''Has 2 CVEs''"
  by (subst renderTemplate_substitutes) (simp_all add: sample_render del: renderTemplate.simps)

end
