(* ===== verification/Effective_Policy.thy ===== *)
theory Effective_Policy
  imports Policy_Schema Identity Expression "HOL-Library.Product_Lexorder"
begin

text \<open>
  The effective policy loader and the snapshot store, \<open>policy/effective.ts\<close>. The three queries, the
  binding table, the resolution of each rule with its overrides and the two sorts follow the code;
  \<open>Array.prototype.sort\<close> and \<open>order by\<close> are the stable \<open>sort_key\<close>.
\<close>

section \<open>Types\<close>

record resolved_rule =
  rr_id :: string
  rr_ruleKey :: string
  rr_policyId :: string
  rr_policyRuleBindingId :: string
  rr_policyProjectBindingId :: "string option"
  rr_policyName :: string
  rr_name :: string
  rr_description :: "string option"
  rr_targetEntity :: string
  rr_condition :: jsval
  rr_action :: jsobj
  rr_effectiveEnforcementMode :: jsval
  rr_orderIndex :: int
  rr_policyPriority :: int

datatype policy_source = From_global | From_project | From_assigned

record resolved_policy =
  rp_id :: string
  rp_policyKey :: string
  rp_name :: string
  rp_scope :: string
  rp_enforcementMode :: jsval
  rp_priority :: int
  rp_source :: policy_source
  rp_policyProjectBindingId :: "string option"
  rp_binding :: "project_binding_row option"
  rp_rules :: "resolved_rule list"

text \<open>The override state of the source is a copy of five columns of the binding \<open>rp_binding\<close>.\<close>

record policy_snapshot =
  ps_resolvedAt :: ms
  ps_tenantId :: string
  ps_projectId :: string
  ps_policies :: "resolved_policy list"
  ps_allRules :: "resolved_rule list"

section \<open>Overrides\<close>

text \<open>Property read with optional chaining, \<open>v?.k\<close>: no value but an object has named properties.\<close>

fun js_prop :: "jsval \<Rightarrow> string \<Rightarrow> jsval" where
  "js_prop (JObj ps) k = obj_get ps k"
| "js_prop _ k = JUndef"

text \<open>The own enumerable properties an object spread copies.\<close>

fun own_props :: "jsval \<Rightarrow> jsobj" where
  "own_props (JObj ps) = ps"
| "own_props (JArr vs) = zip (map show_nat [0..<length vs]) vs"
| "own_props (JStr s) = zip (map show_nat [0..<length s]) (map (\<lambda>c. JStr [c]) s)"
| "own_props _ = []"

definition resolveEnforcementMode :: "jsval \<Rightarrow> string option \<Rightarrow> jsval" where
  "resolveEnforcementMode base override =
     (if \<not> present override then base
      else if base = JStr ''enforcing'' \<and> override = Some ''advisory'' then JStr ''advisory''
      else if override = Some ''disabled'' then JStr ''disabled''
      else base)"

definition getRuleOverride :: "jsval \<Rightarrow> string \<Rightarrow> jsval option" where
  "getRuleOverride ruleOverrides ruleKey =
     (if \<not> is_object ruleOverrides then None
      else let v = js_prop ruleOverrides ruleKey in if is_object v then Some v else None)"

section \<open>Resolution\<close>

text \<open>\<open>new Map(rows.map(b => [b.policy_key, b])).get(key)\<close>: the last row with the key.\<close>

definition binding_for :: "project_binding_row list \<Rightarrow> string \<Rightarrow> project_binding_row option" where
  "binding_for bindingRows key = find (\<lambda>b. pb_policy_key b = key) (rev bindingRows)"

definition opted_out :: "project_binding_row option \<Rightarrow> bool" where
  "opted_out binding =
     (case binding of None \<Rightarrow> False
      | Some b \<Rightarrow> \<not> pb_enabled b \<or> pb_inheritance_mode b = ''disabled'')"

definition project_policy_rows :: "policy_db \<Rightarrow> ms \<Rightarrow> string \<Rightarrow> string \<Rightarrow> policy_row list" where
  "project_policy_rows db effectiveAt tenantId projectId =
     sort_key po_priority (filter (\<lambda>p. po_tenant_id p = tenantId \<and> po_status p = ''active'' \<and>
        po_scope p = ''project'' \<and> po_project_id p = Some projectId \<and>
        in_force effectiveAt (po_effective_from p) (po_effective_to p)) (pd_policies db))"

definition global_policy_rows :: "policy_db \<Rightarrow> ms \<Rightarrow> string \<Rightarrow> policy_row list" where
  "global_policy_rows db effectiveAt tenantId =
     sort_key po_priority (filter (\<lambda>p. po_tenant_id p = tenantId \<and> po_status p = ''active'' \<and>
        po_scope p = ''global'' \<and> po_project_id p = None \<and>
        in_force effectiveAt (po_effective_from p) (po_effective_to p)) (pd_policies db))"

definition binding_rows :: "policy_db \<Rightarrow> ms \<Rightarrow> string \<Rightarrow> string \<Rightarrow> project_binding_row list" where
  "binding_rows db effectiveAt tenantId projectId =
     filter (\<lambda>b. pb_tenant_id b = tenantId \<and> pb_project_id b = projectId \<and>
        in_force effectiveAt (pb_effective_from b) (pb_effective_to b)) (pd_project_bindings db)"

type_synonym effective_entry = "policy_row \<times> policy_source \<times> project_binding_row option"

definition effective_policies :: "policy_db \<Rightarrow> ms \<Rightarrow> string \<Rightarrow> string \<Rightarrow> effective_entry list" where
  "effective_policies db effectiveAt tenantId projectId =
     (let bindingRows = binding_rows db effectiveAt tenantId projectId
      in sort_key (\<lambda>(p, _). po_priority p)
           (concat (map (\<lambda>p.
              let binding = binding_for bindingRows (po_policy_key p)
              in if opted_out binding then []
                 else [(p, if binding = None then From_global else From_assigned, binding)])
              (global_policy_rows db effectiveAt tenantId)) @
            map (\<lambda>p. (p, From_project, None))
              (project_policy_rows db effectiveAt tenantId projectId)))"

definition binding_rule_rows ::
    "policy_db \<Rightarrow> ms \<Rightarrow> string list \<Rightarrow> (rule_binding_row \<times> rule_row) list" where
  "binding_rule_rows db effectiveAt policyIds =
     sort_key (\<lambda>(b, _). rb_order_index b)
       (filter (\<lambda>(b, r). rb_policy_id b \<in> set policyIds \<and> rb_enabled b \<and>
            in_force effectiveAt (ru_effective_from r) (ru_effective_to r))
         (concat (map (\<lambda>b. map (Pair b) (filter (\<lambda>r. rb_rule_id b = ru_id r) (pd_rules db)))
           (pd_rule_bindings db))))"

definition resolve_rule ::
    "policy_row \<Rightarrow> project_binding_row option \<Rightarrow> rule_binding_row \<times> rule_row \<Rightarrow> resolved_rule list" where
  "resolve_rule policy binding row =
     (let (rb, rule) = row;
          override = default JUndef (getRuleOverride (case binding of None \<Rightarrow> JUndef | Some b \<Rightarrow> pb_rule_overrides b)
                       (ru_rule_key rule));
          mode_override = Option.bind binding pb_enforcement_mode_override;
          condition = js_prop override ''condition'';
          act = js_prop override ''action''
      in if js_prop override ''enabled'' = JBool False then []
         else let action = (if js_prop act ''mode'' = JStr ''merge''
                            then obj_spread (ru_action rule) (own_props (js_prop act ''value''))
                            else ru_action rule)
              in [\<lparr> rr_id = ru_id rule,
                    rr_ruleKey = ru_rule_key rule,
                    rr_policyId = po_id policy,
                    rr_policyRuleBindingId = rb_id rb,
                    rr_policyProjectBindingId = map_option pb_id binding,
                    rr_policyName = po_name policy,
                    rr_name = ru_name rule,
                    rr_description = ru_description rule,
                    rr_targetEntity = ru_target_entity rule,
                    rr_condition = (if js_prop condition ''mode'' = JStr ''replace''
                                    then js_prop condition ''value'' else ru_condition rule),
                    rr_action = action,
                    rr_effectiveEnforcementMode =
                      resolveEnforcementMode
                        (coalesce (obj_get action ''enforcement_mode'') (JStr (po_enforcement_mode policy)))
                        mode_override,
                    rr_orderIndex = rb_order_index rb,
                    rr_policyPriority = po_priority policy \<rparr>])"

definition resolve_policy ::
    "(rule_binding_row \<times> rule_row) list \<Rightarrow> effective_entry \<Rightarrow> resolved_policy" where
  "resolve_policy bindingRuleRows entry =
     (let (policy, source, binding) = entry
      in \<lparr> rp_id = po_id policy,
           rp_policyKey = po_policy_key policy,
           rp_name = po_name policy,
           rp_scope = po_scope policy,
           rp_enforcementMode =
             resolveEnforcementMode (JStr (po_enforcement_mode policy))
               (Option.bind binding pb_enforcement_mode_override),
           rp_priority = po_priority policy,
           rp_source = source,
           rp_policyProjectBindingId = map_option pb_id binding,
           rp_binding = binding,
           rp_rules = concat (map (resolve_rule policy binding)
             (filter (\<lambda>(b, _). rb_policy_id b = po_id policy) bindingRuleRows)) \<rparr>)"

definition loadEffectivePolicy :: "policy_db \<Rightarrow> ms \<Rightarrow> string \<Rightarrow> string \<Rightarrow> policy_snapshot" where
  "loadEffectivePolicy db now tenantId projectId =
     (let entries = effective_policies db now tenantId projectId;
          policyIds = map (\<lambda>(p, _). po_id p) entries
      in if policyIds = []
         then \<lparr> ps_resolvedAt = now, ps_tenantId = tenantId, ps_projectId = projectId,
                ps_policies = [], ps_allRules = [] \<rparr>
         else let resolvedPolicies =
                    map (resolve_policy (binding_rule_rows db now policyIds)) entries
              in \<lparr> ps_resolvedAt = now, ps_tenantId = tenantId, ps_projectId = projectId,
                   ps_policies = resolvedPolicies,
                   ps_allRules = sort_key (\<lambda>r. (rr_policyPriority r, rr_orderIndex r))
                     (concat (map rp_rules resolvedPolicies)) \<rparr>)"

section \<open>The snapshot store\<close>

text \<open>
  The unique index covers \<open>package_id\<close> and \<open>package_version_id\<close>, which may be null: rows with a null
  there never conflict.
\<close>

definition snapshot_key ::
    "snapshot_row \<Rightarrow> (string \<times> string \<times> string \<times> string \<times> string) option" where
  "snapshot_key r =
     (case (sr_package_id r, sr_package_version_id r) of
        (Some p, Some v) \<Rightarrow> Some (sr_project_id r, sr_connector_key r, sr_entity_type r, p, v)
      | _ \<Rightarrow> None)"

definition snapshot_merge :: "snapshot_row \<Rightarrow> snapshot_row \<Rightarrow> snapshot_row" where
  "snapshot_merge new r =
     r\<lparr> sr_fields := sr_fields new, sr_meta := sr_meta new, sr_package_id := sr_package_id new,
        sr_package_version_id := sr_package_version_id new, sr_observed_at := sr_observed_at new \<rparr>"

definition upsertConnectorSnapshot ::
    "string \<Rightarrow> string \<Rightarrow> connector_snapshot \<Rightarrow> snapshot_row list \<Rightarrow> snapshot_row list" where
  "upsertConnectorSnapshot tenantId projectId snapshot rows =
     (let new = \<lparr> sr_tenant_id = tenantId, sr_project_id = projectId,
                  sr_connector_key = sn_connectorKey snapshot, sr_entity_type = sn_entityType snapshot,
                  sr_package_id = sn_packageId snapshot, sr_package_version_id = sn_packageVersionId snapshot,
                  sr_fields = sn_fields snapshot, sr_meta = sn_meta snapshot,
                  sr_observed_at = sn_observedAt snapshot \<rparr>
      in upsert_row snapshot_key (snapshot_merge new) new rows)"

definition loadSnapshots ::
    "snapshot_row list \<Rightarrow> string \<Rightarrow> artifact_identity \<Rightarrow> string \<Rightarrow> connector_snapshot list" where
  "loadSnapshots rows projectId artifactIdentity entityType =
     (if \<not> present (ai_package_id artifactIdentity) then []
      else map (\<lambda>r. \<lparr> sn_connectorKey = sr_connector_key r, sn_entityType = sr_entity_type r,
                      sn_packageId = ai_package_id artifactIdentity,
                      sn_packageVersionId = ai_package_version_id artifactIdentity,
                      sn_ecosystem = ai_ecosystem artifactIdentity,
                      sn_packageName = ai_package artifactIdentity,
                      sn_version = ai_version artifactIdentity,
                      sn_displayName = ai_display_name artifactIdentity,
                      sn_fields = sr_fields r, sn_meta = sr_meta r,
                      sn_observedAt = sr_observed_at r \<rparr>)
             (filter (\<lambda>r. sr_project_id r = projectId \<and>
                (if present (ai_package_version_id artifactIdentity)
                 then sr_package_version_id r = ai_package_version_id artifactIdentity
                 else sr_package_id r = ai_package_id artifactIdentity) \<and>
                sr_entity_type r = entityType) rows))"

interpretation snapshots: upserting snapshot_key snapshot_merge
  by unfold_locales (auto simp: snapshot_key_def snapshot_merge_def split: option.splits)

section \<open>What is resolved\<close>

lemma effective_policies_iff:
  "(p, src, binding) \<in> set (effective_policies db t tenantId projectId) \<longleftrightarrow>
     p \<in> set (pd_policies db) \<and> po_tenant_id p = tenantId \<and> po_status p = ''active'' \<and>
     in_force t (po_effective_from p) (po_effective_to p) \<and>
     (po_scope p = ''global'' \<and> po_project_id p = None \<and>
        binding = binding_for (binding_rows db t tenantId projectId) (po_policy_key p) \<and>
        \<not> opted_out binding \<and> src = (if binding = None then From_global else From_assigned) \<or>
      po_scope p = ''project'' \<and> po_project_id p = Some projectId \<and> binding = None \<and> src = From_project)"
  by (auto simp: effective_policies_def global_policy_rows_def project_policy_rows_def Let_def split: if_splits)

lemma effective_policies_sorted: "sorted (map (\<lambda>(p, _). po_priority p) (effective_policies db t tenantId projectId))"
  by (simp add: effective_policies_def Let_def)

lemma binding_rule_rows_iff:
  "(b, r) \<in> set (binding_rule_rows db t ids) \<longleftrightarrow>
     b \<in> set (pd_rule_bindings db) \<and> r \<in> set (pd_rules db) \<and> rb_rule_id b = ru_id r \<and>
     rb_policy_id b \<in> set ids \<and> rb_enabled b \<and> in_force t (ru_effective_from r) (ru_effective_to r)"
  by (auto simp: binding_rule_rows_def)

lemma allRules_def':
  "ps_allRules (loadEffectivePolicy db t tenantId projectId) =
     sort_key (\<lambda>r. (rr_policyPriority r, rr_orderIndex r))
       (concat (map rp_rules (ps_policies (loadEffectivePolicy db t tenantId projectId))))"
  by (simp add: loadEffectivePolicy_def Let_def)

lemma ps_policies_def':
  "ps_policies (loadEffectivePolicy db t tenantId projectId) =
     (let es = effective_policies db t tenantId projectId
      in map (resolve_policy (binding_rule_rows db t (map (\<lambda>(p, _). po_id p) es))) es)"
  by (simp add: loadEffectivePolicy_def Let_def)

lemma resolve_policy_rules_iff:
  "rr \<in> set (rp_rules (resolve_policy rows (p, src, binding))) \<longleftrightarrow>
     (\<exists>b r. (b, r) \<in> set rows \<and> rb_policy_id b = po_id p \<and> rr \<in> set (resolve_rule p binding (b, r)))"
  by (simp add: resolve_policy_def Bex_def split_paired_Ex conj_assoc)

text \<open>Which rules are effective, in terms of the tables.\<close>

lemma allRules_iff:
  "rr \<in> set (ps_allRules (loadEffectivePolicy db t tenantId projectId)) \<longleftrightarrow>
     (\<exists>p src binding b r.
        (p, src, binding) \<in> set (effective_policies db t tenantId projectId) \<and>
        b \<in> set (pd_rule_bindings db) \<and> r \<in> set (pd_rules db) \<and>
        rb_policy_id b = po_id p \<and> rb_rule_id b = ru_id r \<and> rb_enabled b \<and>
        in_force t (ru_effective_from r) (ru_effective_to r) \<and>
        rr \<in> set (resolve_rule p binding (b, r)))"
  (is "?L \<longleftrightarrow> ?R")
proof -
  let ?es = "effective_policies db t tenantId projectId"
  let ?rows = "binding_rule_rows db t (map (\<lambda>(p, _). po_id p) ?es)"
  have "?L \<longleftrightarrow> (\<exists>e \<in> set ?es. rr \<in> set (rp_rules (resolve_policy ?rows e)))"
    by (simp add: allRules_def' ps_policies_def' Let_def)
  also have "\<dots> \<longleftrightarrow> (\<exists>p src binding b r. (p, src, binding) \<in> set ?es \<and> (b, r) \<in> set ?rows \<and>
       rb_policy_id b = po_id p \<and> rr \<in> set (resolve_rule p binding (b, r)))"
    unfolding Bex_def split_paired_Ex resolve_policy_rules_iff by blast
  also have "\<dots> \<longleftrightarrow> ?R"
    by (auto simp: binding_rule_rows_iff; force)
  finally show ?thesis .
qed

lemma allRules_sorted:
  "sorted (map (\<lambda>r. (rr_policyPriority r, rr_orderIndex r))
     (ps_allRules (loadEffectivePolicy db t tenantId projectId)))"
  by (simp add: allRules_def')

lemma resolveEnforcementMode_soft:
  "resolveEnforcementMode base override = JStr ''enforcing'' \<Longrightarrow> base = JStr ''enforcing''"
  by (auto simp: resolveEnforcementMode_def split: if_splits)

lemma opted_in:
  "(\<not> opted_out binding) = (case binding of None \<Rightarrow> True | Some b \<Rightarrow> pb_enabled b \<and> pb_inheritance_mode b \<noteq> ''disabled'')"
  by (simp add: opted_out_def split: option.split)

section \<open>Properties\<close>

text \<open>
  C3: the rules in force for a project are exactly those of the active, current policies of its
  tenant that are global (and not switched off by the project's binding) or owned by the project,
  restricted to enabled rule bindings and current rules and to rules the binding does not disable;
  they come in ascending order of policy priority, then of order index.
\<close>

theorem loadEffectivePolicy_rules:
  "(rr \<in> set (ps_allRules (loadEffectivePolicy db t tenantId projectId)) \<longleftrightarrow>
     (\<exists>p \<in> set (pd_policies db). \<exists>b \<in> set (pd_rule_bindings db). \<exists>r \<in> set (pd_rules db). \<exists>binding.
        po_tenant_id p = tenantId \<and> po_status p = ''active'' \<and>
        in_force t (po_effective_from p) (po_effective_to p) \<and>
        (po_scope p = ''global'' \<and> po_project_id p = None \<and>
           binding = binding_for (binding_rows db t tenantId projectId) (po_policy_key p) \<and>
           (case binding of None \<Rightarrow> True | Some x \<Rightarrow> pb_enabled x \<and> pb_inheritance_mode x \<noteq> ''disabled'') \<or>
         po_scope p = ''project'' \<and> po_project_id p = Some projectId \<and> binding = None) \<and>
        rb_policy_id b = po_id p \<and> rb_rule_id b = ru_id r \<and> rb_enabled b \<and>
        in_force t (ru_effective_from r) (ru_effective_to r) \<and>
        rr \<in> set (resolve_rule p binding (b, r)))) \<and>
   sorted (map (\<lambda>r. (rr_policyPriority r, rr_orderIndex r))
     (ps_allRules (loadEffectivePolicy db t tenantId projectId)))"
  unfolding allRules_iff effective_policies_iff opted_in using allRules_sorted by blast

text \<open>
  The mode override of a project binding only softens: when a resolved rule is enforcing, the
  mode its action or else its policy declares is already enforcing and the binding does not
  override it to advisory or disabled; and an override to disabled always takes effect.
\<close>

theorem enforcement_only_softens:
  assumes "rr \<in> set (resolve_rule p binding (b, r))"
  shows "(rr_effectiveEnforcementMode rr = JStr ''enforcing'' \<longrightarrow>
            coalesce (obj_get (rr_action rr) ''enforcement_mode'') (JStr (po_enforcement_mode p)) = JStr ''enforcing'' \<and>
            Option.bind binding pb_enforcement_mode_override \<notin> {Some ''advisory'', Some ''disabled''}) \<and>
         (Option.bind binding pb_enforcement_mode_override = Some ''disabled'' \<longrightarrow>
            rr_effectiveEnforcementMode rr = JStr ''disabled'')"
  using assms
  by (auto simp: resolve_rule_def Let_def resolveEnforcementMode_def present_def split: if_splits)

definition sample_policy :: policy_row where
  "sample_policy = \<lparr> po_id = ''p1'', po_policy_key = ''pk'', po_tenant_id = ''t'', po_project_id = None,
     po_name = ''baseline'', po_description = None, po_category = None, po_scope = ''global'',
     po_status = ''active'', po_enforcement_mode = ''enforcing'', po_priority = 100, po_version = 1,
     po_effective_from = 0, po_effective_to = None, po_superseded_by_id = None \<rparr>"

definition sample_rule :: rule_row where
  "sample_rule = \<lparr> ru_id = ''r1'', ru_rule_key = ''rk'', ru_tenant_id = ''t'', ru_name = ''critical'',
     ru_description = None, ru_target_entity = ''artifact'', ru_condition = sample_condition,
     ru_action = [(''type'', JStr ''violation'')], ru_version = 1, ru_effective_from = 0,
     ru_effective_to = None, ru_superseded_by_id = None \<rparr>"

definition sample_rule_binding :: rule_binding_row where
  "sample_rule_binding = \<lparr> rb_id = ''rb1'', rb_tenant_id = ''t'', rb_policy_id = ''p1'', rb_rule_id = ''r1'',
     rb_enabled = True, rb_required = False, rb_order_index = 0 \<rparr>"

definition sample_binding :: "jsval \<Rightarrow> string option \<Rightarrow> project_binding_row" where
  "sample_binding overrides mode = \<lparr> pb_id = ''b1'', pb_binding_key = ''bk'', pb_policy_key = ''pk'',
     pb_project_id = ''proj'', pb_tenant_id = ''t'', pb_enabled = True, pb_inheritance_mode = ''customized'',
     pb_severity_override = None, pb_threshold_overrides = JNull, pb_rule_overrides = overrides,
     pb_enforcement_mode_override = mode, pb_version = 1, pb_effective_from = 0, pb_effective_to = None,
     pb_superseded_by_id = None \<rparr>"

theorem enforcement_only_softens_witness:
  "rr_effectiveEnforcementMode
     (hd (resolve_rule sample_policy (Some (sample_binding JNull (Some ''disabled''))) (sample_rule_binding, sample_rule))) =
   JStr ''disabled''"
proof -
  let ?b = "Some (sample_binding JNull (Some ''disabled''))"
  have "resolve_rule sample_policy ?b (sample_rule_binding, sample_rule) \<noteq> []"
    by (simp add: resolve_rule_def Let_def sample_binding_def getRuleOverride_def default_def)
  then show ?thesis
    using enforcement_only_softens [of "hd (resolve_rule sample_policy ?b (sample_rule_binding, sample_rule))"
        sample_policy ?b sample_rule_binding sample_rule]
    by (simp add: sample_binding_def)
qed

text \<open>
  A rule override does harden: whatever the mode of the policy and of the rule, a project
  binding without mode override whose override of the rule merges an enforcing mode into its action
  makes the rule enforcing.
\<close>

theorem rule_override_hardens:
  assumes "pb_enforcement_mode_override bd = None"
    and "pb_rule_overrides bd = JObj os" and "obj_get os (ru_rule_key r) = JObj ov"
    and "obj_get ov ''enabled'' \<noteq> JBool False"
    and "obj_get ov ''action'' = JObj act" and "obj_get act ''mode'' = JStr ''merge''"
    and "obj_get act ''value'' = JObj [(''enforcement_mode'', JStr ''enforcing'')]"
  shows "\<exists>rr. resolve_rule p (Some bd) (b, r) = [rr] \<and> rr_effectiveEnforcementMode rr = JStr ''enforcing''"
  using assms
  by (simp add: resolve_rule_def Let_def getRuleOverride_def default_def resolveEnforcementMode_def
      present_def obj_spread_Cons coalesce_def)

definition hardening_override :: jsval where
  "hardening_override = JObj [(''rk'', JObj [(''action'', JObj [(''mode'', JStr ''merge''),
     (''value'', JObj [(''enforcement_mode'', JStr ''enforcing'')])])])]"

theorem rule_override_hardens_witness:
  "\<exists>rr. resolve_rule (sample_policy\<lparr>po_enforcement_mode := ''advisory''\<rparr>)
          (Some (sample_binding hardening_override None)) (sample_rule_binding, sample_rule) = [rr] \<and>
        rr_effectiveEnforcementMode rr = JStr ''enforcing''"
  by (rule rule_override_hardens [where os = "[(''rk'', JObj [(''action'', JObj [(''mode'', JStr ''merge''),
        (''value'', JObj [(''enforcement_mode'', JStr ''enforcing'')])])])]"
        and ov = "[(''action'', JObj [(''mode'', JStr ''merge''),
        (''value'', JObj [(''enforcement_mode'', JStr ''enforcing'')])])]"
        and act = "[(''mode'', JStr ''merge''), (''value'', JObj [(''enforcement_mode'', JStr ''enforcing'')])]"])
    (simp_all add: sample_binding_def hardening_override_def sample_rule_def obj_get_def)

text \<open>An upsert replaces the snapshot of its key and leaves the others alone.\<close>

lemma loadSnapshots_upsert:
  assumes "unique_key snapshot_key rows"
    and "sn_packageId s = Some pid" and "sn_packageVersionId s = Some vid" and "pid \<noteq> []" and "vid \<noteq> []"
    and "ai_package_id ai = Some pid" and "ai_package_version_id ai = Some vid"
    and "\<forall>r \<in> set rows. sr_package_version_id r = Some vid \<longrightarrow> sr_package_id r = Some pid"
  shows "unique_key snapshot_key (upsertConnectorSnapshot tenantId projectId s rows) \<and>
         map (\<lambda>x. (sn_fields x, sn_meta x, sn_observedAt x))
           (filter (\<lambda>x. sn_connectorKey x = sn_connectorKey s)
             (loadSnapshots (upsertConnectorSnapshot tenantId projectId s rows) projectId ai (sn_entityType s))) =
           [(sn_fields s, sn_meta s, sn_observedAt s)] \<and>
         (\<forall>r. snapshot_key r \<noteq> Some (projectId, sn_connectorKey s, sn_entityType s, pid, vid) \<longrightarrow>
              (r \<in> set (upsertConnectorSnapshot tenantId projectId s rows) \<longleftrightarrow> r \<in> set rows))"
proof -
  let ?new = "\<lparr> sr_tenant_id = tenantId, sr_project_id = projectId,
                sr_connector_key = sn_connectorKey s, sr_entity_type = sn_entityType s,
                sr_package_id = sn_packageId s, sr_package_version_id = sn_packageVersionId s,
                sr_fields = sn_fields s, sr_meta = sn_meta s, sr_observed_at = sn_observedAt s \<rparr>"
  let ?k = "(projectId, sn_connectorKey s, sn_entityType s, pid, vid)"
  let ?rows' = "upsertConnectorSnapshot tenantId projectId s rows"
  have up: "?rows' = upsert_row snapshot_key (snapshot_merge ?new) ?new rows"
    by (simp add: upsertConnectorSnapshot_def Let_def)
  have key: "snapshot_key ?new = Some ?k"
    using assms(2,3) by (simp add: snapshot_key_def)
  obtain r where r: "filter (\<lambda>x. snapshot_key x = Some ?k) ?rows' = [r]"
      "r = ?new \<or> (\<exists>x. r = snapshot_merge ?new x)"
    using snapshots.upsert_filter [OF key assms(1)] unfolding up by blast
  have sel: "sr_project_id x = projectId \<and> sr_package_version_id x = Some vid \<and>
         sr_entity_type x = sn_entityType s \<and> sr_connector_key x = sn_connectorKey s
        \<longleftrightarrow> snapshot_key x = Some ?k" if "x \<in> set ?rows'" for x
  proof -
    have "sr_package_version_id x = Some vid \<Longrightarrow> sr_package_id x = Some pid"
      using that assms(2,3,8) by (auto simp: up upsert_row_def snapshot_merge_def split: if_splits)
    then show ?thesis by (auto simp: snapshot_key_def split: option.splits)
  qed
  have "filter (\<lambda>x. sr_project_id x = projectId \<and> sr_package_version_id x = Some vid \<and>
         sr_entity_type x = sn_entityType s \<and> sr_connector_key x = sn_connectorKey s) ?rows' = [r]"
    unfolding r(1) [symmetric] by (rule filter_cong [OF refl sel])
  moreover have "sr_fields r = sn_fields s" "sr_meta r = sn_meta s" "sr_observed_at r = sn_observedAt s"
    using r(2) by (auto simp: snapshot_merge_def)
  ultimately have "map (\<lambda>x. (sn_fields x, sn_meta x, sn_observedAt x))
           (filter (\<lambda>x. sn_connectorKey x = sn_connectorKey s)
             (loadSnapshots ?rows' projectId ai (sn_entityType s))) = [(sn_fields s, sn_meta s, sn_observedAt s)]"
    using assms(4-7) by (simp add: loadSnapshots_def present_def filter_map comp_def conj_assoc)
  then show ?thesis
    using snapshots.upsert_unique [OF assms(1), of ?new] snapshots.upsert_other [of _ ?new rows] key
    by (simp add: up)
qed

text \<open>
  The snapshot store returns what was stored last. After an upsert of a snapshot of a package
  version, loading the snapshots of that version gives exactly one for its connector, with its
  fields and status; the table keeps one row per key, and the snapshots of other keys are unchanged.
\<close>

theorem snapshot_store_roundtrip:
  assumes "unique_key snapshot_key rows"
    and "sn_packageId s = Some pid" and "sn_packageVersionId s = Some vid" and "pid \<noteq> []" and "vid \<noteq> []"
    and "ai_package_id ai = Some pid" and "ai_package_version_id ai = Some vid"
    and "\<forall>r \<in> set rows. sr_package_version_id r = Some vid \<longrightarrow> sr_package_id r = Some pid"
  shows "unique_key snapshot_key (upsertConnectorSnapshot tenantId projectId s rows) \<and>
         map (\<lambda>x. (sn_fields x, sn_meta x, sn_observedAt x))
           (filter (\<lambda>x. sn_connectorKey x = sn_connectorKey s)
             (loadSnapshots (upsertConnectorSnapshot tenantId projectId s rows) projectId ai (sn_entityType s))) =
           [(sn_fields s, sn_meta s, sn_observedAt s)] \<and>
         (\<forall>r. snapshot_key r \<noteq> Some (projectId, sn_connectorKey s, sn_entityType s, pid, vid) \<longrightarrow>
              (r \<in> set (upsertConnectorSnapshot tenantId projectId s rows) \<longleftrightarrow> r \<in> set rows))"
  by (rule loadSnapshots_upsert [OF assms])

definition sample_meta :: snapshot_meta where
  "sample_meta = \<lparr> sm_status = Ok, sm_responseTimeMs = 12, sm_cacheAgeHours = None, sm_isCacheHit = False,
     sm_errorCode = None \<rparr>"

definition sample_snapshot :: connector_snapshot where
  "sample_snapshot = \<lparr> sn_connectorKey = ''osv'', sn_entityType = ''artifact'', sn_packageId = Some ''pkg'',
     sn_packageVersionId = Some ''ver'', sn_ecosystem = ''npm'', sn_packageName = ''left-pad'',
     sn_version = Some ''1.3.0'', sn_displayName = ''npm:left-pad@1.3.0'',
     sn_fields = [(''critical_count'', JNum 2)], sn_meta = sample_meta, sn_observedAt = 7 \<rparr>"

definition sample_identity :: artifact_identity where
  "sample_identity = buildArtifactIdentity
     \<lparr> pi_ecosystem = ''npm'', pi_package = ''left-pad'', pi_version = Some ''1.3.0'', ii_source = None,
       ii_parser_version = None \<rparr> \<lparr> rf_package_id = Some ''pkg'', rf_package_version_id = Some ''ver'' \<rparr>"

theorem snapshot_store_roundtrip_witness:
  "map (\<lambda>x. (sn_fields x, sn_meta x, sn_observedAt x))
     (filter (\<lambda>x. sn_connectorKey x = ''osv'')
       (loadSnapshots (upsertConnectorSnapshot ''t'' ''proj'' sample_snapshot []) ''proj'' sample_identity ''artifact'')) =
   [([(''critical_count'', JNum 2)], sample_meta, 7)]"
  using snapshot_store_roundtrip [of "[]" sample_snapshot "''pkg''" "''ver''" sample_identity "''t''" "''proj''"]
  by (simp add: sample_snapshot_def sample_identity_def buildArtifactIdentity_def Let_def)

end
