(* ===== verification/Decision.thy ===== *)
theory Decision
  imports Effective_Policy
begin

text \<open>
  The policy decision, \<open>evaluatePolicyDecision\<close> of \<open>connect/check-service.ts\<close>: the loop over the
  resolved rules with its mutable variables as a record, and the declarative specification it is
  shown to implement. In the two fixed detail texts the dash is a hyphen.
\<close>

section \<open>The loop\<close>

datatype decision = ALLOW | BLOCK
datatype serve_mode = UNSPECIFIED | REDIRECT | PULL

record collected_violation =
  cv_rule_id :: string
  cv_rule_key :: string
  cv_policy_id :: string
  cv_policy_rule_binding_id :: string
  cv_policy_project_binding_id :: "string option"
  cv_recommended_remediation :: jsval
  cv_severity :: jsval
  cv_code :: jsval
  cv_message :: string
  cv_enforcement_mode :: jsval
  cv_blocked :: bool

record evaluated_decision =
  ed_decision :: decision
  ed_reason :: string
  ed_detail :: string
  ed_cacheTtl :: int
  ed_serveMode :: serve_mode
  ed_rulesEvaluated :: nat
  ed_rulesMatched :: nat
  ed_collectedViolations :: "collected_violation list"

record loop_state =
  ls_decision :: decision
  ls_detail :: string
  ls_cacheTtl :: int
  ls_serveMode :: serve_mode
  ls_blockingReasonCodes :: "jsval list"
  ls_collectedViolations :: "collected_violation list"
  ls_rulesEvaluated :: nat
  ls_rulesMatched :: nat

definition action_type :: "resolved_rule \<Rightarrow> jsval" where
  "action_type rule = coalesce (obj_get (rr_action rule) ''type'') (JStr ''violation'')"

text \<open>A template that is no string has no \<open>replace\<close> method: the call throws.\<close>

definition rule_message :: "resolved_rule \<Rightarrow> field_map \<Rightarrow> js_error + string" where
  "rule_message rule fm =
     (let template = obj_get (rr_action rule) ''message_template''
      in if js_truthy template
         then (case template of JStr s \<Rightarrow> Inr (renderTemplate s fm) | _ \<Rightarrow> Inl TypeError)
         else Inr (''Rule '' @ [char_of (34::nat)] @ rr_name rule @ [char_of (34::nat)] @ '' matched''))"

definition rule_blocks :: "resolved_rule \<Rightarrow> bool" where
  "rule_blocks rule =
     (action_type rule = JStr ''violation'' \<and> rr_effectiveEnforcementMode rule = JStr ''enforcing'')"

definition rule_recorded :: "resolved_rule \<Rightarrow> bool" where
  "rule_recorded rule =
     (action_type rule = JStr ''violation'' \<or> action_type rule = JStr ''warning'' \<or>
      action_type rule = JStr ''info'')"

definition violation_of :: "resolved_rule \<Rightarrow> string \<Rightarrow> collected_violation" where
  "violation_of rule message =
     \<lparr> cv_rule_id = rr_id rule,
       cv_rule_key = rr_ruleKey rule,
       cv_policy_id = rr_policyId rule,
       cv_policy_rule_binding_id = rr_policyRuleBindingId rule,
       cv_policy_project_binding_id = rr_policyProjectBindingId rule,
       cv_recommended_remediation = coalesce (obj_get (rr_action rule) ''recommended_remediation'') JNull,
       cv_severity = coalesce (obj_get (rr_action rule) ''severity'') (JStr ''high''),
       cv_code = coalesce (obj_get (rr_action rule) ''code'') (JStr ''RULE_MATCHED''),
       cv_message = message,
       cv_enforcement_mode = rr_effectiveEnforcementMode rule,
       cv_blocked = rule_blocks rule \<rparr>"

definition blocking_code :: "resolved_rule \<Rightarrow> jsval" where
  "blocking_code rule = coalesce (obj_get (rr_action rule) ''code'') (JStr ''policy_violation'')"

definition apply_rule :: "resolved_rule \<Rightarrow> string \<Rightarrow> loop_state \<Rightarrow> loop_state" where
  "apply_rule rule message st =
     (let st1 = (if rule_recorded rule
                 then st\<lparr> ls_collectedViolations := ls_collectedViolations st @ [violation_of rule message] \<rparr>
                 else st);
          st2 = (if rule_blocks rule \<and> ls_decision st1 = ALLOW
                 then st1\<lparr> ls_detail := message, ls_cacheTtl := 0, ls_serveMode := UNSPECIFIED \<rparr>
                 else st1)
      in if rule_blocks rule
         then st2\<lparr> ls_decision := BLOCK,
                   ls_blockingReasonCodes := ls_blockingReasonCodes st2 @ [blocking_code rule] \<rparr>
         else st2)"

fun decide_loop :: "resolved_rule list \<Rightarrow> field_map \<Rightarrow> loop_state \<Rightarrow> js_error + loop_state" where
  "decide_loop [] fm st = Inr st"
| "decide_loop (rule # rules) fm st =
     (let st' = st\<lparr> ls_rulesEvaluated := ls_rulesEvaluated st + 1 \<rparr>
      in sum_bind (evaluateCondition (rr_condition rule) fm) (\<lambda>matched.
           if \<not> matched then decide_loop rules fm st'
           else sum_bind (rule_message rule fm) (\<lambda>message.
             decide_loop rules fm
               (apply_rule rule message (st'\<lparr> ls_rulesMatched := ls_rulesMatched st' + 1 \<rparr>)))))"

definition evaluatePolicyDecision ::
    "resolved_rule list \<Rightarrow> field_map \<Rightarrow> int \<Rightarrow> serve_mode \<Rightarrow> js_error + evaluated_decision" where
  "evaluatePolicyDecision rules fm defaultCacheTtl defaultServeMode =
     sum_bind (decide_loop rules fm
         \<lparr> ls_decision = ALLOW, ls_detail = ''No policy rules matched'', ls_cacheTtl = defaultCacheTtl,
           ls_serveMode = defaultServeMode, ls_blockingReasonCodes = [], ls_collectedViolations = [],
           ls_rulesEvaluated = 0, ls_rulesMatched = 0 \<rparr>) (\<lambda>st.
       let (reason, detail) =
         (if ls_decision st = BLOCK then (js_to_string (JArr (ls_blockingReasonCodes st)), ls_detail st)
          else if ls_rulesMatched st = 0
          then (''allowed'', ''No policy rules matched - package allowed'')
          else (''advisory_only'', ''Rules matched in advisory mode only - package allowed''))
       in Inr \<lparr> ed_decision = ls_decision st, ed_reason = reason, ed_detail = detail,
                ed_cacheTtl = ls_cacheTtl st, ed_serveMode = ls_serveMode st,
                ed_rulesEvaluated = ls_rulesEvaluated st, ed_rulesMatched = ls_rulesMatched st,
                ed_collectedViolations = ls_collectedViolations st \<rparr>)"

section \<open>The specification\<close>

text \<open>
  A rule is sound when its condition is well formed and its template, if any, is a string: what
  the rule schemas of the API guarantee.
\<close>

definition rule_ok :: "resolved_rule \<Rightarrow> bool" where
  "rule_ok rule =
     (well_formed (decode_condition (rr_condition rule)) \<and>
      (case obj_get (rr_action rule) ''message_template'' of
         JStr _ \<Rightarrow> True | t \<Rightarrow> \<not> js_truthy t))"

definition rule_matches :: "field_map \<Rightarrow> resolved_rule \<Rightarrow> bool" where
  "rule_matches fm rule = holds fm (decode_condition (rr_condition rule))"

definition message_of :: "field_map \<Rightarrow> resolved_rule \<Rightarrow> string" where
  "message_of fm rule =
     (case obj_get (rr_action rule) ''message_template'' of
        JStr (c # s) \<Rightarrow> renderTemplate (c # s) fm
      | _ \<Rightarrow> ''Rule '' @ [char_of (34::nat)] @ rr_name rule @ [char_of (34::nat)] @ '' matched'')"

text \<open>The answer read off the list of matching rules, with no state.\<close>

definition decision_spec ::
    "resolved_rule list \<Rightarrow> field_map \<Rightarrow> int \<Rightarrow> serve_mode \<Rightarrow> evaluated_decision" where
  "decision_spec rules fm ttl mode =
     (let matched = filter (rule_matches fm) rules; blocking = filter rule_blocks matched
      in \<lparr> ed_decision = (if blocking = [] then ALLOW else BLOCK),
           ed_reason = (if blocking \<noteq> [] then js_to_string (JArr (map blocking_code blocking))
                        else if matched = [] then ''allowed'' else ''advisory_only''),
           ed_detail = (if blocking \<noteq> [] then message_of fm (hd blocking)
                        else if matched = [] then ''No policy rules matched - package allowed''
                        else ''Rules matched in advisory mode only - package allowed''),
           ed_cacheTtl = (if blocking = [] then ttl else 0),
           ed_serveMode = (if blocking = [] then mode else UNSPECIFIED),
           ed_rulesEvaluated = length rules,
           ed_rulesMatched = length matched,
           ed_collectedViolations = map (\<lambda>r. violation_of r (message_of fm r)) (filter rule_recorded matched) \<rparr>)"

lemma rule_message_ok: "rule_ok rule \<Longrightarrow> rule_message rule fm = Inr (message_of fm rule)"
  by (auto simp: rule_ok_def rule_message_def message_of_def Let_def split: jsval.splits list.splits)

lemma rule_condition_ok: "rule_ok rule \<Longrightarrow> evaluateCondition (rr_condition rule) fm = Inr (rule_matches fm rule)"
  by (simp add: rule_ok_def rule_matches_def evaluateCondition_def evaluate_holds)

lemma blocks_recorded: "rule_blocks r \<Longrightarrow> rule_recorded r"
  by (simp add: rule_blocks_def rule_recorded_def)

text \<open>What the loop does to an arbitrary state, rule by rule.\<close>

lemma decide_loop_spec:
  assumes "list_all rule_ok rules"
  shows "decide_loop rules fm st =
    (let matched = filter (rule_matches fm) rules; blocking = filter rule_blocks matched;
         first = (blocking \<noteq> [] \<and> ls_decision st = ALLOW)
     in Inr (st\<lparr> ls_decision := (if blocking = [] then ls_decision st else BLOCK),
                 ls_detail := (if first then message_of fm (hd blocking) else ls_detail st),
                 ls_cacheTtl := (if first then 0 else ls_cacheTtl st),
                 ls_serveMode := (if first then UNSPECIFIED else ls_serveMode st),
                 ls_blockingReasonCodes := ls_blockingReasonCodes st @ map blocking_code blocking,
                 ls_collectedViolations := ls_collectedViolations st @
                   map (\<lambda>r. violation_of r (message_of fm r)) (filter rule_recorded matched),
                 ls_rulesEvaluated := ls_rulesEvaluated st + length rules,
                 ls_rulesMatched := ls_rulesMatched st + length matched \<rparr>))"
  using assms
proof (induction rules arbitrary: st)
  case (Cons rule rules)
  then have ok: "rule_ok rule" by simp
  from Cons have IH: "decide_loop rules fm st' =
    (let matched = filter (rule_matches fm) rules; blocking = filter rule_blocks matched;
         first = (blocking \<noteq> [] \<and> ls_decision st' = ALLOW)
     in Inr (st'\<lparr> ls_decision := (if blocking = [] then ls_decision st' else BLOCK),
                 ls_detail := (if first then message_of fm (hd blocking) else ls_detail st'),
                 ls_cacheTtl := (if first then 0 else ls_cacheTtl st'),
                 ls_serveMode := (if first then UNSPECIFIED else ls_serveMode st'),
                 ls_blockingReasonCodes := ls_blockingReasonCodes st' @ map blocking_code blocking,
                 ls_collectedViolations := ls_collectedViolations st' @
                   map (\<lambda>r. violation_of r (message_of fm r)) (filter rule_recorded matched),
                 ls_rulesEvaluated := ls_rulesEvaluated st' + length rules,
                 ls_rulesMatched := ls_rulesMatched st' + length matched \<rparr>))" for st'
    by simp
  show ?case
  proof (cases "rule_matches fm rule")
    case False
    then show ?thesis
      using IH by (simp add: rule_condition_ok [OF ok] Let_def)
  next
    case True
    then show ?thesis
      using IH blocks_recorded [of rule]
      by (cases "rule_blocks rule"; cases "rule_recorded rule"; cases "ls_decision st")
        (simp_all add: rule_condition_ok [OF ok] rule_message_ok [OF ok] Let_def apply_rule_def)
  qed
qed simp

lemma evaluatePolicyDecision_spec:
  "list_all rule_ok rules \<Longrightarrow> evaluatePolicyDecision rules fm ttl mode = Inr (decision_spec rules fm ttl mode)"
  by (simp add: evaluatePolicyDecision_def decide_loop_spec decision_spec_def Let_def)

text \<open>Without any assumption on the rules: what a run that returns has seen.\<close>

lemma decide_loop_block:
  assumes "decide_loop rules fm st = Inr st'"
  shows "(ls_decision st' = BLOCK \<longleftrightarrow> ls_decision st = BLOCK \<or>
            (\<exists>r \<in> set rules. evaluateCondition (rr_condition r) fm = Inr True \<and> rule_blocks r)) \<and>
         (ls_decision st = ALLOW \<and> ls_decision st' = BLOCK \<longrightarrow> ls_cacheTtl st' = 0 \<and> ls_serveMode st' = UNSPECIFIED) \<and>
         (ls_decision st' = ls_decision st \<longrightarrow> ls_cacheTtl st' = ls_cacheTtl st \<and> ls_serveMode st' = ls_serveMode st)"
  using assms
proof (induction rules arbitrary: st)
  case (Cons r rules)
  let ?st = "st\<lparr> ls_rulesEvaluated := ls_rulesEvaluated st + 1 \<rparr>"
  from Cons.prems obtain m where m: "evaluateCondition (rr_condition r) fm = Inr m"
    by (auto simp: Let_def sum_bind_Inr_iff)
  show ?case
  proof (cases m)
    case False
    with Cons.prems m have "decide_loop rules fm ?st = Inr st'"
      by (simp add: Let_def)
    from Cons.IH [OF this] m False show ?thesis by auto
  next
    case True
    with Cons.prems m obtain msg where "decide_loop rules fm
        (apply_rule r msg (?st\<lparr> ls_rulesMatched := ls_rulesMatched st + 1 \<rparr>)) = Inr st'"
      by (auto simp: Let_def sum_bind_Inr_iff)
    from Cons.IH [OF this] m True show ?thesis
      by (cases "ls_decision st") (auto simp: apply_rule_def Let_def split: if_splits)
  qed
qed auto

section \<open>Properties\<close>

text \<open>
  C1: on rules with well-formed conditions and string templates the decision loop returns, and its
  answer is the declarative one: blocked exactly when some matching rule is an enforcing violation,
  the reason lists the codes of the blocking rules in order, the detail is the message of the first
  of them, a block is not cached and has no serve mode, an allow keeps the defaults, and the
  violations recorded are the matching rules of the three recorded kinds, in order.
\<close>

theorem evaluatePolicyDecision_refines:
  assumes "list_all rule_ok rules"
  shows "evaluatePolicyDecision rules fm ttl mode = Inr (decision_spec rules fm ttl mode)"
  using assms by (rule evaluatePolicyDecision_spec)

definition sample_resolved :: "string \<Rightarrow> resolved_rule" where
  "sample_resolved mode = hd (resolve_rule (sample_policy\<lparr> po_enforcement_mode := mode \<rparr>) None
     (sample_rule_binding, sample_rule))"

lemma sample_decision:
  "list_all rule_ok [sample_resolved ''advisory'', sample_resolved ''enforcing'']"
  "ed_decision (decision_spec [sample_resolved ''advisory'', sample_resolved ''enforcing''] sample_fields 300 REDIRECT) = BLOCK"
  "ed_reason (decision_spec [sample_resolved ''advisory'', sample_resolved ''enforcing''] sample_fields 300 REDIRECT) = ''policy_violation''"
  by code_simp+

theorem evaluatePolicyDecision_refines_witness:
  "\<exists>d. evaluatePolicyDecision [sample_resolved ''advisory'', sample_resolved ''enforcing''] sample_fields 300 REDIRECT = Inr d \<and>
       ed_decision d = BLOCK \<and> ed_reason d = ''policy_violation''"
  using evaluatePolicyDecision_refines [OF sample_decision(1), of sample_fields 300 REDIRECT] sample_decision(2,3)
  by blast

lemma decision_blocks:
  assumes "evaluatePolicyDecision rules fm ttl mode = Inr d"
  shows "(ed_decision d = BLOCK \<longleftrightarrow> (\<exists>r \<in> set rules. evaluateCondition (rr_condition r) fm = Inr True \<and> rule_blocks r)) \<and>
         (ed_decision d = BLOCK \<longrightarrow> ed_cacheTtl d = 0 \<and> ed_serveMode d = UNSPECIFIED) \<and>
         (ed_decision d = ALLOW \<longrightarrow> ed_cacheTtl d = ttl \<and> ed_serveMode d = mode)"
proof -
  obtain st where "decide_loop rules fm
         \<lparr> ls_decision = ALLOW, ls_detail = ''No policy rules matched'', ls_cacheTtl = ttl,
           ls_serveMode = mode, ls_blockingReasonCodes = [], ls_collectedViolations = [],
           ls_rulesEvaluated = 0, ls_rulesMatched = 0 \<rparr> = Inr st"
    and d: "ed_decision d = ls_decision st" "ed_cacheTtl d = ls_cacheTtl st" "ed_serveMode d = ls_serveMode st"
    using assms by (auto simp: evaluatePolicyDecision_def sum_bind_Inr_iff Let_def split: if_splits)
  from decide_loop_block [OF this(1)] show ?thesis
    by (auto simp: d)
qed

text \<open>
  For arbitrary rules, also malformed ones, a decision that is returned blocks exactly when
  the condition of some violation rule in enforcing mode evaluated to true; a block carries
  cache time zero and no serve mode, an allow carries the defaults.
\<close>

theorem evaluatePolicyDecision_block_iff:
  assumes "evaluatePolicyDecision rules fm ttl mode = Inr d"
  shows "(ed_decision d = BLOCK \<longleftrightarrow>
            (\<exists>r \<in> set rules. evaluateCondition (rr_condition r) fm = Inr True \<and>
               action_type r = JStr ''violation'' \<and> rr_effectiveEnforcementMode r = JStr ''enforcing'')) \<and>
         (ed_decision d = BLOCK \<longrightarrow> ed_cacheTtl d = 0 \<and> ed_serveMode d = UNSPECIFIED) \<and>
         (ed_decision d = ALLOW \<longrightarrow> ed_cacheTtl d = ttl \<and> ed_serveMode d = mode)"
  using decision_blocks [OF assms] by (simp add: rule_blocks_def)

theorem evaluatePolicyDecision_block_iff_witness:
  "ed_decision (projr (evaluatePolicyDecision [sample_resolved ''advisory''] sample_fields 300 REDIRECT)) = ALLOW"
proof -
  let ?r = "sample_resolved ''advisory''"
  obtain d where d: "evaluatePolicyDecision [?r] sample_fields 300 REDIRECT = Inr d"
    using evaluatePolicyDecision_spec [of "[?r]"] sample_decision(1) by simp
  have "rr_effectiveEnforcementMode ?r \<noteq> JStr ''enforcing''"
    by code_simp
  then have "ed_decision d \<noteq> BLOCK"
    using evaluatePolicyDecision_block_iff [OF d] by simp
  then show ?thesis using d by (cases "ed_decision d") simp_all
qed

end
