(* ===== verification/Findings.thy ===== *)
theory Findings
  imports Tables Connector_Types
begin

text \<open>
  Findings of a project, \<open>features/security/project-findings.ts\<close>: identities of findings, their
  versions over time and the findings a project currently has. The transaction is a function on the
  three tables; one clock value serves the whole call.
\<close>

record finding_row =
  fi_finding_key :: string
  fi_connector_key :: string
  fi_external_finding_id :: string

record finding_version_row =
  fv_id :: string
  fv_finding_key :: string
  fv_version :: int
  fv_connector_cache_id :: "string option"
  fv_severity :: string
  fv_title :: "string option"
  fv_description :: jsval
  fv_aliases :: jsval
  fv_affected_ranges :: jsval
  fv_fixed_versions :: jsval
  fv_raw_attributes :: jsval
  fv_effective_from :: ms
  fv_effective_to :: "ms option"
  fv_superseded_by_id :: "string option"

record project_finding_row =
  pf_id :: string
  pf_tenant_id :: string
  pf_project_id :: string
  pf_package_id :: string
  pf_package_version_id :: "string option"
  pf_finding_key :: string
  pf_current_finding_version_id :: string
  pf_observed_from :: ms
  pf_observed_to :: "ms option"
  pf_last_seen_at :: ms

record findings_db =
  fd_findings :: "finding_row list"
  fd_versions :: "finding_version_row list"
  fd_project :: "project_finding_row list"
  fd_uuids :: uuid_source

section \<open>Material changes\<close>

record material_payload =
  mp_severity :: string
  mp_title :: "string option"
  mp_description :: jsval
  mp_aliases :: jsval
  mp_affected_ranges :: jsval
  mp_fixed_versions :: jsval
  mp_raw_attributes :: jsval

definition materialFindingPayload :: "connector_finding \<Rightarrow> material_payload" where
  "materialFindingPayload finding =
     (let a = obj_get (cf_attributes finding)
      in \<lparr> mp_severity = severity_name (cf_severity finding),
           mp_title = cf_title finding,
           mp_description = coalesce (a ''description'') JNull,
           mp_aliases = coalesce (a ''aliases'') JNull,
           mp_affected_ranges = coalesce (a ''affected_ranges'') JNull,
           mp_fixed_versions =
             coalesce (a ''fixed_versions'') (coalesce (a ''fix_versions'')
               (if js_truthy (a ''fix_version'') then JArr [a ''fix_version''] else JNull)),
           mp_raw_attributes = JObj (cf_attributes finding) \<rparr>)"

text \<open>The own keys of a value, as \<open>Object.keys\<close> lists them; an array has its indices.\<close>

fun js_keys :: "jsval \<Rightarrow> string list" where
  "js_keys (JObj ps) = map fst ps"
| "js_keys (JArr vs) = map show_nat [0..<length vs]"
| "js_keys _ = []"

definition stableJson :: "jsval \<Rightarrow> string" where
  "stableJson v =
     (if nullish v then ''null''
      else if \<not> is_object v then json_stringify v
      else default ''undefined'' (json_text (Some (sort (js_keys v))) v))"

definition hasMaterialChange :: "finding_version_row \<Rightarrow> material_payload \<Rightarrow> bool" where
  "hasMaterialChange current nxt =
     (fv_severity current \<noteq> mp_severity nxt \<or>
      fv_title current \<noteq> mp_title nxt \<or>
      fv_description current \<noteq> mp_description nxt \<or>
      stableJson (fv_aliases current) \<noteq> stableJson (mp_aliases nxt) \<or>
      stableJson (fv_affected_ranges current) \<noteq> stableJson (mp_affected_ranges nxt) \<or>
      stableJson (fv_fixed_versions current) \<noteq> stableJson (mp_fixed_versions nxt) \<or>
      stableJson (fv_raw_attributes current) \<noteq> stableJson (mp_raw_attributes nxt))"

definition dateAfterNowAnd :: "ms \<Rightarrow> ms option \<Rightarrow> ms" where
  "dateAfterNowAnd now v = (case v of None \<Rightarrow> now | Some x \<Rightarrow> if x < now then now else x + 1)"

section \<open>The transaction\<close>

text \<open>The identity row of a finding: found, or created under a fresh key.\<close>

definition upsert_finding :: "string \<Rightarrow> string \<Rightarrow> findings_db \<Rightarrow> string \<times> findings_db" where
  "upsert_finding connectorKey externalId db =
     (case first_row (\<lambda>f. fi_connector_key f = connectorKey \<and> fi_external_finding_id f = externalId)
             (fd_findings db) of
        Some f \<Rightarrow> (fi_finding_key f, db)
      | None \<Rightarrow>
          let (key, uuids) = draw (fd_uuids db)
          in (key, db\<lparr> fd_findings := fd_findings db @
                [\<lparr> fi_finding_key = key, fi_connector_key = connectorKey,
                   fi_external_finding_id = externalId \<rparr>],
                      fd_uuids := uuids \<rparr>))"

definition current_version :: "string \<Rightarrow> findings_db \<Rightarrow> finding_version_row option" where
  "current_version key db =
     first_row (\<lambda>v. fv_finding_key v = key \<and> fv_effective_to v = None) (fd_versions db)"

definition insert_version ::
    "string \<Rightarrow> int \<Rightarrow> string option \<Rightarrow> material_payload \<Rightarrow> ms \<Rightarrow> findings_db \<Rightarrow> string \<times> findings_db" where
  "insert_version key n connectorCacheId material from db =
     (let (vid, uuids) = draw (fd_uuids db)
      in (vid, db\<lparr> fd_versions := fd_versions db @
            [\<lparr> fv_id = vid, fv_finding_key = key, fv_version = n, fv_connector_cache_id = connectorCacheId,
               fv_severity = mp_severity material, fv_title = mp_title material,
               fv_description = mp_description material, fv_aliases = mp_aliases material,
               fv_affected_ranges = mp_affected_ranges material, fv_fixed_versions = mp_fixed_versions material,
               fv_raw_attributes = mp_raw_attributes material, fv_effective_from = from,
               fv_effective_to = None, fv_superseded_by_id = None \<rparr>],
                   fd_uuids := uuids \<rparr>))"

definition ensure_version ::
    "ms \<Rightarrow> string \<Rightarrow> string option \<Rightarrow> material_payload \<Rightarrow> findings_db \<Rightarrow> string \<times> findings_db" where
  "ensure_version now key connectorCacheId material db =
     (case current_version key db of
        None \<Rightarrow> insert_version key 1 connectorCacheId material (dateAfterNowAnd now None) db
      | Some current \<Rightarrow>
          if \<not> hasMaterialChange current material then (fv_id current, db)
          else
            let seen_at = dateAfterNowAnd now (Some (fv_effective_from current));
                closed = db\<lparr> fd_versions := update_where (\<lambda>v. fv_id v = fv_id current)
                               (\<lambda>v. v\<lparr> fv_effective_to := Some seen_at \<rparr>) (fd_versions db) \<rparr>;
                (vid, created) = insert_version key (fv_version current + 1) connectorCacheId material seen_at closed
            in (vid, created\<lparr> fd_versions := update_where (\<lambda>v. fv_id v = fv_id current)
                        (\<lambda>v. v\<lparr> fv_superseded_by_id := Some vid \<rparr>) (fd_versions created) \<rparr>))"

definition open_finding :: "string \<Rightarrow> string \<Rightarrow> string option \<Rightarrow> project_finding_row \<Rightarrow> bool" where
  "open_finding projectId packageId packageVersionId r =
     (pf_project_id r = projectId \<and> pf_package_id r = packageId \<and>
      (if present packageVersionId then pf_package_version_id r = packageVersionId
       else pf_package_version_id r = None) \<and>
      pf_observed_to r = None)"

record findings_input =
  in_tenantId :: string
  in_projectId :: string
  in_connectorKey :: string
  in_connectorCacheId :: "string option"
  in_packageId :: "string option"
  in_packageVersionId :: "string option"
  in_findings :: "connector_finding list"

definition see_project_finding ::
    "ms \<Rightarrow> findings_input \<Rightarrow> string \<Rightarrow> string \<Rightarrow> string \<Rightarrow> findings_db \<Rightarrow> nat \<times> findings_db" where
  "see_project_finding now input packageId key vid db =
     (case first_row (\<lambda>r. open_finding (in_projectId input) packageId (in_packageVersionId input) r \<and>
                          pf_finding_key r = key) (fd_project db) of
        None \<Rightarrow>
          let (pid, uuids) = draw (fd_uuids db); seen_at = dateAfterNowAnd now None
          in (1, db\<lparr> fd_project := fd_project db @
                [\<lparr> pf_id = pid, pf_tenant_id = in_tenantId input, pf_project_id = in_projectId input,
                   pf_package_id = packageId, pf_package_version_id = in_packageVersionId input,
                   pf_finding_key = key, pf_current_finding_version_id = vid, pf_observed_from = seen_at,
                   pf_observed_to = None, pf_last_seen_at = seen_at \<rparr>],
                      fd_uuids := uuids \<rparr>)
      | Some r \<Rightarrow>
          (0, db\<lparr> fd_project := update_where (\<lambda>x. pf_id x = pf_id r)
                (\<lambda>x. x\<lparr> pf_current_finding_version_id := vid,
                        pf_last_seen_at := dateAfterNowAnd now (Some (pf_observed_from r)) \<rparr>) (fd_project db) \<rparr>))"

fun observe_findings ::
    "ms \<Rightarrow> findings_input \<Rightarrow> string \<Rightarrow> connector_finding list \<Rightarrow> findings_db \<Rightarrow> nat \<times> string list \<times> findings_db" where
  "observe_findings now input packageId [] db = (0, [], db)"
| "observe_findings now input packageId (f # fs) db =
     (let (key, db1) = upsert_finding (in_connectorKey input) (cf_findingId f) db;
          (vid, db2) = ensure_version now key (in_connectorCacheId input) (materialFindingPayload f) db1;
          (n, db3) = see_project_finding now input packageId key vid db2;
          (m, keys, db4) = observe_findings now input packageId fs db3
      in (n + m, key # keys, db4))"

definition connector_of_key :: "findings_db \<Rightarrow> string \<Rightarrow> string option" where
  "connector_of_key db key =
     map_option fi_connector_key (first_row (\<lambda>f. fi_finding_key f = key) (fd_findings db))"

definition close_unseen ::
    "ms \<Rightarrow> findings_input \<Rightarrow> string \<Rightarrow> string list \<Rightarrow> findings_db \<Rightarrow> findings_db" where
  "close_unseen now input packageId seen db =
     db\<lparr> fd_project := update_where
           (\<lambda>r. open_finding (in_projectId input) packageId (in_packageVersionId input) r \<and>
                connector_of_key db (pf_finding_key r) = Some (in_connectorKey input) \<and>
                pf_finding_key r \<notin> set seen)
           (\<lambda>r. r\<lparr> pf_observed_to := Some (dateAfterNowAnd now (Some (pf_observed_from r))) \<rparr>)
           (fd_project db) \<rparr>"

definition upsertProjectFindingsForEntity ::
    "ms \<Rightarrow> findings_input \<Rightarrow> findings_db \<Rightarrow> nat \<times> findings_db" where
  "upsertProjectFindingsForEntity now input db =
     (if \<not> present (in_packageId input) then (0, db)
      else
        let packageId = the (in_packageId input);
            (n, seen, db1) = observe_findings now input packageId (in_findings input) db
        in (n, close_unseen now input packageId seen db1))"

section \<open>The invariant of the tables\<close>

definition current_finding_version :: "finding_version_row \<Rightarrow> bool" where
  "current_finding_version v = (fv_effective_to v = None)"

definition close_finding_version :: "ms \<Rightarrow> finding_version_row \<Rightarrow> finding_version_row" where
  "close_finding_version t v = v\<lparr> fv_effective_to := Some t \<rparr>"

interpretation fversions: versioning fv_id fv_finding_key current_finding_version close_finding_version
  by unfold_locales (simp_all add: current_finding_version_def close_finding_version_def)

definition pf_entity :: "project_finding_row \<Rightarrow> string \<times> string \<times> string option \<times> string" where
  "pf_entity r = (pf_project_id r, pf_package_id r, pf_package_version_id r, pf_finding_key r)"

definition pf_open :: "project_finding_row \<Rightarrow> bool" where
  "pf_open r = (pf_observed_to r = None)"

definition pf_close :: "ms \<Rightarrow> project_finding_row \<Rightarrow> project_finding_row" where
  "pf_close now r = r\<lparr> pf_observed_to := Some (dateAfterNowAnd now (Some (pf_observed_from r))) \<rparr>"

interpretation pfindings: versioning pf_id pf_entity pf_open pf_close
  by unfold_locales (simp_all add: pf_open_def pf_close_def)

definition finding_identity :: "finding_row \<Rightarrow> (string \<times> string) option" where
  "finding_identity f = Some (fi_connector_key f, fi_external_finding_id f)"

definition window_ok :: "ms \<Rightarrow> ms option \<Rightarrow> bool" where
  "window_ok t u = (case u of None \<Rightarrow> True | Some x \<Rightarrow> t < x)"

definition findings_ok :: "findings_db \<Rightarrow> bool" where
  "findings_ok db =
     (source_ok (fd_uuids db) \<and>
      unique_key finding_identity (fd_findings db) \<and>
      ids_ok fi_finding_key (fd_uuids db) (fd_findings db) \<and>
      ids_ok fv_id (fd_uuids db) (fd_versions db) \<and>
      unique_key (current_key fv_finding_key current_finding_version) (fd_versions db) \<and>
      (\<forall>v \<in> set (fd_versions db). window_ok (fv_effective_from v) (fv_effective_to v)) \<and>
      ids_ok pf_id (fd_uuids db) (fd_project db) \<and>
      unique_key (current_key pf_entity pf_open) (fd_project db) \<and>
      (\<forall>r \<in> set (fd_project db). window_ok (pf_observed_from r) (pf_observed_to r)))"

lemma dateAfterNowAnd_later: "x < dateAfterNowAnd now (Some x)"
  by (simp add: dateAfterNowAnd_def)

lemma upsert_finding_spec:
  assumes "findings_ok db" and "upsert_finding ck ext db = (key, db')"
  shows "findings_ok db' \<and> fd_project db' = fd_project db \<and> fd_versions db' = fd_versions db \<and>
         set (fd_findings db) \<subseteq> set (fd_findings db') \<and>
         (\<exists>f \<in> set (fd_findings db'). fi_finding_key f = key \<and> fi_connector_key f = ck \<and> fi_external_finding_id f = ext)"
proof (cases "first_row (\<lambda>f. fi_connector_key f = ck \<and> fi_external_finding_id f = ext) (fd_findings db)")
  case (Some f)
  with assms show ?thesis
    by (auto simp: upsert_finding_def first_row_def dest!: find_SomeD)
next
  case None
  obtain x u where d: "draw (fd_uuids db) = (x, u)" by fastforce
  let ?f = "\<lparr> fi_finding_key = x, fi_connector_key = ck, fi_external_finding_id = ext \<rparr>"
  have db': "db' = db\<lparr> fd_findings := fd_findings db @ [?f], fd_uuids := u \<rparr>" "key = x"
    using assms(2) None d by (auto simp: upsert_finding_def)
  have "\<forall>s \<in> set (fd_findings db). finding_identity s \<noteq> finding_identity ?f"
    using find_NoneD [OF None [unfolded first_row_def]] by (auto simp: finding_identity_def)
  then have "unique_key finding_identity (fd_findings db @ [?f])"
    using assms(1) by (auto simp: findings_ok_def unique_key_append)
  with assms(1) d show ?thesis
    by (auto simp: db' findings_ok_def intro: draw_source ids_ok_append ids_ok_draw)
qed

lemma insert_version_spec:
  assumes "findings_ok db" and "insert_version key n cache material from db = (vid, db')"
    and "\<And>v. v \<in> set (fd_versions db) \<Longrightarrow> \<not> (current_finding_version v \<and> fv_finding_key v = key)"
  shows "findings_ok db' \<and> fd_project db' = fd_project db \<and> fd_findings db' = fd_findings db"
proof -
  obtain x u where d: "draw (fd_uuids db) = (x, u)" by fastforce
  have "vid = x" using assms(2) d by (auto simp: insert_version_def Let_def)
  obtain new where new: "fd_versions db' = fd_versions db @ [new]" "fv_id new = x" "fv_finding_key new = key"
      "fv_effective_to new = None"
    and rest: "fd_project db' = fd_project db" "fd_findings db' = fd_findings db" "fd_uuids db' = u"
    using assms(2) d by (auto simp: insert_version_def Let_def)
  have "unique_key (current_key fv_finding_key current_finding_version) (fd_versions db @ [new])"
    using assms(1,3) new(3) by (intro fversions.append_unique) (auto simp: findings_ok_def)
  with assms(1) d new rest show ?thesis
    by (auto simp: findings_ok_def window_ok_def intro: draw_source ids_ok_append ids_ok_draw)
qed

lemma close_version_ok:
  assumes "findings_ok db" and "current \<in> set (fd_versions db)" and "t > fv_effective_from current"
  shows "findings_ok (db\<lparr> fd_versions := update_where (\<lambda>v. fv_id v = fv_id current)
           (close_finding_version t) (fd_versions db) \<rparr>)"
proof -
  have ids: "ids_ok fv_id (fd_uuids db) (fd_versions db)" using assms(1) by (simp add: findings_ok_def)
  have "window_ok (fv_effective_from v) (fv_effective_to v)"
    if v: "v \<in> set (update_where (\<lambda>v. fv_id v = fv_id current) (close_finding_version t) (fd_versions db))" for v
  proof -
    from v obtain w where w: "w \<in> set (fd_versions db)"
      "v = (if fv_id w = fv_id current then close_finding_version t w else w)"
      by (auto simp: update_where_def)
    show ?thesis
      using ids_ok_inj [OF ids w(1) assms(2)] w assms(1,3)
      by (auto simp: close_finding_version_def window_ok_def findings_ok_def)
  qed
  then show ?thesis
    using assms(1) fversions.close_unique fversions.close_ids by (simp add: findings_ok_def)
qed

lemma supersede_ok:
  assumes "findings_ok db"
  shows "findings_ok (db\<lparr> fd_versions := update_where P (\<lambda>v. v\<lparr> fv_superseded_by_id := s \<rparr>) (fd_versions db) \<rparr>)"
proof -
  have "unique_key (current_key fv_finding_key current_finding_version)
          (map (\<lambda>v. if P v then v\<lparr> fv_superseded_by_id := s \<rparr> else v) (fd_versions db))"
    using assms by (subst unique_key_map_same) (auto simp: findings_ok_def current_key_def current_finding_version_def)
  moreover have "ids_ok fv_id (fd_uuids db) (map (\<lambda>v. if P v then v\<lparr> fv_superseded_by_id := s \<rparr> else v) (fd_versions db))"
    using assms by (subst ids_ok_map_same) (auto simp: findings_ok_def)
  ultimately show ?thesis
    using assms by (auto simp: findings_ok_def update_where_def)
qed

lemma ensure_version_spec:
  assumes ok: "findings_ok db" and run: "ensure_version now key cache material db = (vid, db')"
  shows "findings_ok db' \<and> fd_project db' = fd_project db \<and> fd_findings db' = fd_findings db"
proof (cases "current_version key db")
  case None
  then have "\<And>v. v \<in> set (fd_versions db) \<Longrightarrow> \<not> (current_finding_version v \<and> fv_finding_key v = key)"
    by (auto simp: current_version_def first_row_def current_finding_version_def dest: find_NoneD)
  with ok run None show ?thesis
    by (auto simp: ensure_version_def dest: insert_version_spec)
next
  case (Some cur)
  then have cur: "cur \<in> set (fd_versions db)" "fv_finding_key cur = key" "current_finding_version cur"
    by (auto simp: current_version_def first_row_def current_finding_version_def dest: find_SomeD)
  show ?thesis
  proof (cases "hasMaterialChange cur material")
    case False
    with ok run Some show ?thesis by (simp add: ensure_version_def)
  next
    case True
    let ?t = "dateAfterNowAnd now (Some (fv_effective_from cur))"
    let ?closed = "db\<lparr> fd_versions := update_where (\<lambda>v. fv_id v = fv_id cur) (close_finding_version ?t) (fd_versions db) \<rparr>"
    have closed: "findings_ok ?closed"
      using ok cur(1) dateAfterNowAnd_later by (rule close_version_ok)
    have free: "\<not> (current_finding_version v \<and> fv_finding_key v = key)" if "v \<in> set (fd_versions ?closed)" for v
      using fversions.close_frees [of "fd_versions db" "fd_uuids db" cur v ?t] ok cur that
      by (simp add: findings_ok_def)
    obtain created where ins: "insert_version key (fv_version cur + 1) cache material ?t ?closed = (vid, created)"
      and db': "db' = created\<lparr> fd_versions := update_where (\<lambda>v. fv_id v = fv_id cur)
                  (\<lambda>v. v\<lparr> fv_superseded_by_id := Some vid \<rparr>) (fd_versions created) \<rparr>"
      using run Some True
      by (auto simp: ensure_version_def Let_def close_finding_version_def [abs_def] split: prod.splits)
    from insert_version_spec [OF closed ins free] show ?thesis
      unfolding db' using supersede_ok by simp
  qed
qed

lemma open_finding_entity:
  assumes "in_packageVersionId input \<noteq> Some []"
  shows "open_finding (in_projectId input) p (in_packageVersionId input) r \<and> pf_finding_key r = key \<longleftrightarrow>
         pf_open r \<and> pf_entity r = (in_projectId input, p, in_packageVersionId input, key)"
  using assms by (cases "in_packageVersionId input") (auto simp: open_finding_def pf_open_def pf_entity_def present_def)

lemma see_project_finding_spec:
  assumes ok: "findings_ok db" and v: "in_packageVersionId input \<noteq> Some []"
    and run: "see_project_finding now input p key vid db = (n, db')"
  shows "findings_ok db' \<and> fd_findings db' = fd_findings db \<and> fd_versions db' = fd_versions db \<and>
         (\<forall>e. (\<exists>r \<in> set (fd_project db'). pf_open r \<and> pf_entity r = e) \<longleftrightarrow>
              (\<exists>r \<in> set (fd_project db). pf_open r \<and> pf_entity r = e) \<or>
              e = (in_projectId input, p, in_packageVersionId input, key)) \<and>
         length (fd_project db') = length (fd_project db) + n"
proof (cases "first_row (\<lambda>r. open_finding (in_projectId input) p (in_packageVersionId input) r \<and>
                 pf_finding_key r = key) (fd_project db)")
  case None
  then have free: "\<not> (pf_open r \<and> pf_entity r = (in_projectId input, p, in_packageVersionId input, key))"
    if "r \<in> set (fd_project db)" for r
    using find_NoneD [OF None [unfolded first_row_def] that] open_finding_entity [OF v, of p r key] by blast
  obtain x u where d: "draw (fd_uuids db) = (x, u)" by fastforce
  obtain new where new: "fd_project db' = fd_project db @ [new]" "pf_id new = x" "pf_observed_to new = None"
      "pf_entity new = (in_projectId input, p, in_packageVersionId input, key)"
    and rest: "fd_findings db' = fd_findings db" "fd_versions db' = fd_versions db" "fd_uuids db' = u" "n = 1"
    using run None d by (auto simp: see_project_finding_def Let_def pf_entity_def)
  have "unique_key (current_key pf_entity pf_open) (fd_project db @ [new])"
    using ok free new(4) by (intro pfindings.append_unique) (auto simp: findings_ok_def)
  with ok d new rest show ?thesis
    by (auto simp: findings_ok_def window_ok_def pf_open_def intro: draw_source ids_ok_append ids_ok_draw)
next
  case (Some r0)
  then have r0: "r0 \<in> set (fd_project db)" "pf_open r0" "pf_entity r0 = (in_projectId input, p, in_packageVersionId input, key)"
    using find_SomeD [OF Some [unfolded first_row_def]] open_finding_entity [OF v, of p r0 key] by blast+
  define f :: "project_finding_row \<Rightarrow> project_finding_row" where "f = (\<lambda>x. if pf_id x = pf_id r0 then x\<lparr> pf_current_finding_version_id := vid,
      pf_last_seen_at := dateAfterNowAnd now (Some (pf_observed_from r0)) \<rparr> else x)"
  have f: "pf_entity (f x) = pf_entity x" "pf_open (f x) = pf_open x" "pf_id (f x) = pf_id x"
    "pf_observed_from (f x) = pf_observed_from x" "pf_observed_to (f x) = pf_observed_to x" for x
    by (auto simp: f_def pf_entity_def pf_open_def)
  have db': "db' = db\<lparr> fd_project := map f (fd_project db) \<rparr>" "n = 0"
    using run Some by (simp_all add: see_project_finding_def f_def update_where_def)
  have "unique_key (current_key pf_entity pf_open) (map f (fd_project db))"
    using ok by (subst unique_key_map_same) (auto simp: findings_ok_def current_key_def f)
  moreover have "ids_ok pf_id (fd_uuids db) (map f (fd_project db))"
    using ok f(3) by (subst ids_ok_map_same) (auto simp: findings_ok_def)
  ultimately show ?thesis
    using ok r0 by (auto simp: db' findings_ok_def f bex_simps)
qed

text \<open>The entities with an open finding; what one pass over the findings does to them.\<close>

definition open_entities :: "findings_db \<Rightarrow> (string \<times> string \<times> string option \<times> string) set" where
  "open_entities db = {pf_entity r | r. r \<in> set (fd_project db) \<and> pf_open r}"

lemma open_entities_iff: "e \<in> open_entities db \<longleftrightarrow> (\<exists>r \<in> set (fd_project db). pf_open r \<and> pf_entity r = e)"
  by (auto simp: open_entities_def)

definition has_identity :: "findings_db \<Rightarrow> string \<Rightarrow> string \<Rightarrow> string \<Rightarrow> bool" where
  "has_identity db key ck ext =
     (\<exists>f \<in> set (fd_findings db). fi_finding_key f = key \<and> fi_connector_key f = ck \<and> fi_external_finding_id f = ext)"

lemma observe_findings_spec:
  assumes "findings_ok db" and "in_packageVersionId input \<noteq> Some []"
    and "observe_findings now input p fs db = (n, seen, db')"
  shows "findings_ok db' \<and> set (fd_findings db) \<subseteq> set (fd_findings db') \<and>
         open_entities db' = open_entities db \<union> {(in_projectId input, p, in_packageVersionId input, k) | k. k \<in> set seen} \<and>
         list_all2 (\<lambda>f k. has_identity db' k (in_connectorKey input) (cf_findingId f)) fs seen \<and>
         length (fd_project db') = length (fd_project db) + n"
  using assms
proof (induction fs arbitrary: db n seen db')
  case (Cons f fs)
  obtain key db1 where s1: "upsert_finding (in_connectorKey input) (cf_findingId f) db = (key, db1)" by fastforce
  obtain vid db2 where s2: "ensure_version now key (in_connectorCacheId input) (materialFindingPayload f) db1 = (vid, db2)"
    by fastforce
  obtain a db3 where s3: "see_project_finding now input p key vid db2 = (a, db3)" by fastforce
  obtain b keys db4 where s4: "observe_findings now input p fs db3 = (b, keys, db4)" by (metis prod_cases3)
  have res: "n = a + b" "seen = key # keys" "db' = db4"
    using Cons.prems(3) s1 s2 s3 s4 by simp_all
  note u = upsert_finding_spec [OF Cons.prems(1) s1]
  note e = ensure_version_spec [OF conjunct1 [OF u] s2]
  note v = see_project_finding_spec [OF conjunct1 [OF e] Cons.prems(2) s3]
  note w = Cons.IH [OF conjunct1 [OF v] Cons.prems(2) s4]
  have "open_entities db3 = open_entities db \<union> {(in_projectId input, p, in_packageVersionId input, key)}"
    using u e v by (auto simp: open_entities_iff)
  moreover have "has_identity db4 key (in_connectorKey input) (cf_findingId f)"
    using u e v w by (auto simp: has_identity_def)
  moreover have "set (fd_findings db) \<subseteq> set (fd_findings db4)"
    using u e v w by auto
  moreover have "length (fd_project db4) = length (fd_project db) + n"
    using u e v w by (simp add: res)
  ultimately show ?case
    using w by (auto simp: res)
qed simp

lemma close_unseen_spec:
  assumes ok: "findings_ok db" and v: "in_packageVersionId input \<noteq> Some []"
  shows "findings_ok (close_unseen now input p seen db) \<and>
         fd_findings (close_unseen now input p seen db) = fd_findings db \<and>
         open_entities (close_unseen now input p seen db) =
           {e \<in> open_entities db. \<not> (\<exists>k. e = (in_projectId input, p, in_packageVersionId input, k) \<and>
               connector_of_key db k = Some (in_connectorKey input) \<and> k \<notin> set seen)}"
proof -
  define P where "P = (\<lambda>r. open_finding (in_projectId input) p (in_packageVersionId input) r \<and>
        connector_of_key db (pf_finding_key r) = Some (in_connectorKey input) \<and> pf_finding_key r \<notin> set seen)"
  have cu: "close_unseen now input p seen db = db\<lparr> fd_project := update_where P (pf_close now) (fd_project db) \<rparr>"
    by (simp add: close_unseen_def P_def pf_close_def [abs_def])
  have P: "P r \<longleftrightarrow> pf_open r \<and> (\<exists>k. pf_entity r = (in_projectId input, p, in_packageVersionId input, k) \<and>
             connector_of_key db k = Some (in_connectorKey input) \<and> k \<notin> set seen)" for r
    using open_finding_entity [OF v, of p r "pf_finding_key r"] by (auto simp: P_def pf_entity_def)
  have win: "\<forall>r \<in> set (update_where P (pf_close now) (fd_project db)). window_ok (pf_observed_from r) (pf_observed_to r)"
    using ok by (auto simp: update_where_def pf_close_def window_ok_def findings_ok_def dateAfterNowAnd_later)
  have "r \<in> set (update_where P (pf_close now) (fd_project db)) \<and> pf_open r \<longleftrightarrow>
        r \<in> set (fd_project db) \<and> pf_open r \<and> \<not> P r" for r
    using pfindings.close_not_cur by (auto simp: update_where_def)
  then have "open_entities (close_unseen now input p seen db) = {pf_entity r | r. r \<in> set (fd_project db) \<and> pf_open r \<and> \<not> P r}"
    unfolding open_entities_def cu by auto
  then show ?thesis
    using ok win pfindings.close_unique pfindings.close_ids
    by (auto simp: cu findings_ok_def P open_entities_def)
qed

lemma connector_of_key_identity:
  assumes "findings_ok db" and "has_identity db k ck ext"
  shows "connector_of_key db k = Some ck"
proof -
  obtain f where f: "f \<in> set (fd_findings db)" "fi_finding_key f = k" "fi_connector_key f = ck"
    using assms(2) by (auto simp: has_identity_def)
  obtain g where g: "find (\<lambda>f. fi_finding_key f = k) (fd_findings db) = Some g"
    using f by (metis (mono_tags, lifting) find_NoneD not_None_eq)
  with f assms(1) show ?thesis
    using ids_ok_inj [of fi_finding_key "fd_uuids db" "fd_findings db" f g] find_SomeD [OF g]
    by (auto simp: connector_of_key_def first_row_def findings_ok_def)
qed

lemma has_identity_unique:
  assumes "findings_ok db" and "has_identity db k ck ext" and "has_identity db k ck' ext'"
  shows "ck = ck' \<and> ext = ext'"
  using assms ids_ok_inj [of fi_finding_key "fd_uuids db" "fd_findings db"]
  by (fastforce simp: has_identity_def findings_ok_def)

lemma has_identity_key:
  assumes "findings_ok db" and "has_identity db k ck ext" and "has_identity db k' ck ext"
  shows "k = k'"
proof -
  obtain f g where "f \<in> set (fd_findings db)" "g \<in> set (fd_findings db)"
    "fi_finding_key f = k" "fi_finding_key g = k'" "finding_identity f = finding_identity g"
    using assms(2,3) by (auto simp: has_identity_def finding_identity_def)
  with assms(1) show ?thesis
    using unique_key_inj [of finding_identity "fd_findings db" f g]
    by (simp add: findings_ok_def) (simp add: finding_identity_def)
qed

lemma upsertProjectFindings_ok:
  assumes "findings_ok db" and "in_packageVersionId input \<noteq> Some []"
  shows "findings_ok (snd (upsertProjectFindingsForEntity now input db))"
proof (cases "present (in_packageId input)")
  case True
  obtain m seen db1 where run: "observe_findings now input (the (in_packageId input)) (in_findings input) db = (m, seen, db1)"
    by (metis prod_cases3)
  note o = observe_findings_spec [OF assms run]
  from close_unseen_spec [OF conjunct1 [OF o] assms(2)] True run show ?thesis
    by (simp add: upsertProjectFindingsForEntity_def)
qed (simp add: upsertProjectFindingsForEntity_def assms)

text \<open>The external identifiers of the open findings of an entity that came from a connector.\<close>

definition open_external_ids :: "findings_db \<Rightarrow> string \<Rightarrow> string \<Rightarrow> string option \<Rightarrow> string \<Rightarrow> string set" where
  "open_external_ids db projectId p v ck =
     {ext. \<exists>k. has_identity db k ck ext \<and> (projectId, p, v, k) \<in> open_entities db}"

section \<open>Properties\<close>

text \<open>
  C4: recording the findings a connector reports for a package leaves the project with exactly
  these as its open findings of that connector on that package: new ones are opened, known ones
  stay, ones no longer reported are closed. The tables keep one identity per finding, at most one
  current version of each finding, at most one open record per project, package and finding, and no
  empty validity window; the number returned is the number of records added.
\<close>

theorem findings_synchronized:
  assumes "findings_ok db" and "in_packageId input = Some p" and "p \<noteq> []" and "in_packageVersionId input \<noteq> Some []"
    and "upsertProjectFindingsForEntity now input db = (n, db')"
  shows "findings_ok db' \<and>
         open_external_ids db' (in_projectId input) p (in_packageVersionId input) (in_connectorKey input) =
           cf_findingId ` set (in_findings input) \<and>
         length (fd_project db') = length (fd_project db) + n"
proof -
  obtain m seen db1 where run: "observe_findings now input p (in_findings input) db = (m, seen, db1)"
    by (metis prod_cases3)
  have db': "db' = close_unseen now input p seen db1" "n = m"
    using assms(2,3,5) run by (simp_all add: upsertProjectFindingsForEntity_def present_def)
  note o = observe_findings_spec [OF assms(1,4) run]
  note c = close_unseen_spec [OF conjunct1 [OF o] assms(4), of now p seen]
  have idn: "has_identity db' = has_identity db1"
    using c by (intro ext) (simp add: db' has_identity_def)
  let ?e = "\<lambda>k. (in_projectId input, p, in_packageVersionId input, k)"
  have l2: "list_all2 (\<lambda>f k. has_identity db1 k (in_connectorKey input) (cf_findingId f)) (in_findings input) seen"
    using o by blast
  have seen: "\<exists>f \<in> set (in_findings input). has_identity db1 k (in_connectorKey input) (cf_findingId f)" if "k \<in> set seen" for k
    using list_all2_set2 [OF l2 that] .
  have keys: "\<exists>k \<in> set seen. has_identity db1 k (in_connectorKey input) (cf_findingId f)" if "f \<in> set (in_findings input)" for f
    using list_all2_set1 [OF l2 that] .
  have open_iff: "?e k \<in> open_entities db' \<longleftrightarrow> k \<in> set seen"
    if "has_identity db1 k (in_connectorKey input) ext" for k ext
    using o c connector_of_key_identity [OF conjunct1 [OF o] that] by (auto simp: db')
  have "open_external_ids db' (in_projectId input) p (in_packageVersionId input) (in_connectorKey input) =
        {ext. \<exists>k \<in> set seen. has_identity db1 k (in_connectorKey input) ext}"
    unfolding open_external_ids_def idn using open_iff by blast
  also have "\<dots> = cf_findingId ` set (in_findings input)"
    using seen keys has_identity_unique [OF conjunct1 [OF o]] by blast
  finally show ?thesis
    using c o by (simp add: db' close_unseen_def update_where_def)
qed

definition sample_uuids :: uuid_source where
  "sample_uuids = \<lparr> us_supply = (\<lambda>n. replicate (Suc n) (CHR ''u'')), us_drawn = 0 \<rparr>"

lemma sample_uuids_ok: "source_ok sample_uuids"
proof -
  have "inj (\<lambda>n. replicate (Suc n) (CHR ''u''))"
    by (rule injI) (metis Suc_inject length_replicate)
  then show ?thesis by (simp add: source_ok_def sample_uuids_def)
qed

definition empty_findings :: findings_db where
  "empty_findings = \<lparr> fd_findings = [], fd_versions = [], fd_project = [], fd_uuids = sample_uuids \<rparr>"

definition sample_findings_input :: findings_input where
  "sample_findings_input = \<lparr> in_tenantId = ''t'', in_projectId = ''proj'', in_connectorKey = ''osv'',
     in_connectorCacheId = None, in_packageId = Some ''pkg'', in_packageVersionId = Some ''ver'',
     in_findings = [\<lparr> cf_findingId = ''GHSA-1'', cf_severity = HIGH, cf_title = None, cf_publishedAt = None,
                      cf_attributes = [] \<rparr>] \<rparr>"

theorem findings_synchronized_witness:
  "open_external_ids (snd (upsertProjectFindingsForEntity 1000 sample_findings_input empty_findings))
     ''proj'' ''pkg'' (Some ''ver'') ''osv'' = {''GHSA-1''}"
proof -
  have "findings_ok empty_findings"
    by (simp add: findings_ok_def empty_findings_def sample_uuids_ok)
  from findings_synchronized [OF this, of sample_findings_input "''pkg''" 1000]
  show ?thesis by (simp add: sample_findings_input_def prod_eq_iff)
qed

text \<open>
  The comparison that decides whether a finding has a new version does not look inside arrays
  of objects: two such arrays of the same length have the same stable text, whatever their objects
  hold, unless an object has a property named like an array index.
\<close>

theorem stableJson_ignores_nested:
  assumes "length as = length bs"
    and "\<forall>ps \<in> set as \<union> set bs. \<forall>k \<in> fst ` set ps. k \<notin> set (map show_nat [0..<length bs])"
  shows "stableJson (JArr (map JObj as)) = stableJson (JArr (map JObj bs))"
proof -
  let ?ks = "Some (sort (map show_nat [0..<length bs]))"
  have empty: "json_text ?ks (JObj ps) = Some ''{}''"
    if ps: "\<forall>k \<in> fst ` set ps. k \<notin> set (map show_nat [0..<length bs])" for ps
  proof -
    let ?qs = "map (\<lambda>(k, v). (k, json_text ?ks v)) ps"
    have "map_of ?qs k = None" if "k \<in> set (sort (map show_nat [0..<length bs]))" for k
    proof -
      have "k \<notin> fst ` set ps" using ps that by (simp only: set_sort) blast
      then show ?thesis by (force simp: map_of_eq_None_iff)
    qed
    then have "pick_keys ?ks ?qs = []"
      by (auto simp: map_filter_def filter_empty_conv simp del: sort_key_simps)
    then show ?thesis by (simp add: map_filter_simps)
  qed
  have all: "map (\<lambda>v. case json_text ?ks v of None \<Rightarrow> ''null'' | Some t \<Rightarrow> t) (map JObj cs) = replicate (length cs) ''{}''"
    if "\<forall>ps \<in> set cs. \<forall>k \<in> fst ` set ps. k \<notin> set (map show_nat [0..<length bs])" for cs
    using that empty by (induction cs) (simp_all del: json_text.simps(7))
  have "json_text ?ks (JArr (map JObj as)) = json_text ?ks (JArr (map JObj bs))"
  proof -
    have "\<forall>ps \<in> set as. \<forall>k \<in> fst ` set ps. k \<notin> set (map show_nat [0..<length bs])"
      and "\<forall>ps \<in> set bs. \<forall>k \<in> fst ` set ps. k \<notin> set (map show_nat [0..<length bs])"
      using assms(2) by blast+
    from this [THEN all] show ?thesis
      unfolding json_text.simps(6) using assms(1) by simp
  qed
  then show ?thesis
    using assms(1) by (simp add: stableJson_def)
qed

theorem stableJson_ignores_nested_witness:
  "stableJson (JArr (map JObj [[(''introduced'', JStr ''0''), (''fixed'', JStr ''1.2.0'')]])) =
   stableJson (JArr (map JObj [[(''introduced'', JStr ''0''), (''fixed'', JStr ''2.0.0'')]]))"
proof (rule stableJson_ignores_nested)
  have "show_nat 0 = ''0''" by code_simp
  then show "\<forall>ps \<in> set [[(''introduced'', JStr ''0''), (''fixed'', JStr ''1.2.0'')]] \<union>
        set [[(''introduced'', JStr ''0''), (''fixed'', JStr ''2.0.0'')]].
      \<forall>k \<in> fst ` set ps. k \<notin> set (map show_nat [0..<length [[(''introduced'', JStr ''0''), (''fixed'', JStr ''2.0.0'')]]])"
    by simp
qed simp

end
