(* ===== verification/Connector_Cache.thy ===== *)
theory Connector_Cache
  imports Tables Connector_Types
begin

text \<open>
  The connector cache, \<open>connectors/cache.ts\<close>: freshness, interpretation of a stored row, the read
  paths and the upsert. Findings are stored as JSON with ISO timestamps; the model stores them as
  values. A row without \<open>data\<close> is one written before that column existed.
\<close>

record cache_data =
  dt_summary :: "result_summary option"
  dt_findings :: "connector_finding list option"

record cache_row =
  ca_id :: string
  ca_connector_id :: string
  ca_package_id :: "string option"
  ca_package_version_id :: "string option"
  ca_risk_tier :: severity
  ca_risk_score :: "rat option"
  ca_finding_count :: nat
  ca_remediation_available :: bool
  ca_best_remediation :: "string option"
  ca_data :: "cache_data option"
  ca_ttl_seconds :: "int option"
  ca_queried_at :: ms

record cache_db =
  cb_rows :: "cache_row list"
  cb_uuids :: uuid_source

section \<open>Summaries of a result\<close>

fun highest_severity :: "severity \<Rightarrow> connector_finding list \<Rightarrow> severity" where
  "highest_severity highest [] = highest"
| "highest_severity highest (f # fs) =
     highest_severity
       (if severity_index (cf_severity f) < severity_index highest then cf_severity f else highest) fs"

definition highestFindingSeverity :: "connector_result \<Rightarrow> severity" where
  "highestFindingSeverity result = highest_severity NONE (cr_findings result)"

definition vulnerabilitySummaryFromResult :: "connector_result \<Rightarrow> vulnerability_summary" where
  "vulnerabilitySummaryFromResult result =
     (case Option.bind (cr_summary result) su_vulnerability of
        Some v \<Rightarrow> v
      | None \<Rightarrow>
         (case cr_legacy result of
            Some legacy \<Rightarrow> legacy
          | None \<Rightarrow> \<lparr> vs_maxSeverity = highestFindingSeverity result,
                      vs_findingCount = length (cr_findings result),
                      vs_fixAvailable = False,
                      vs_bestFixVersion = None,
                      vs_severityCounts = None \<rparr>))"

definition riskSummaryFromResult :: "connector_result \<Rightarrow> vulnerability_summary \<Rightarrow> risk_summary" where
  "riskSummaryFromResult result vulnerability =
     (case Option.bind (cr_summary result) su_risk of
        Some r \<Rightarrow> r
      | None \<Rightarrow> \<lparr> rs_tier = vs_maxSeverity vulnerability, rs_score = None \<rparr>)"

definition findingsSummaryFromResult :: "connector_result \<Rightarrow> nat" where
  "findingsSummaryFromResult result =
     (case Option.bind (cr_summary result) su_findings of
        Some n \<Rightarrow> n
      | None \<Rightarrow> (case Option.bind (cr_summary result) su_vulnerability of
                   Some v \<Rightarrow> vs_findingCount v
                 | None \<Rightarrow> length (cr_findings result)))"

definition remediationSummaryFromResult ::
    "connector_result \<Rightarrow> vulnerability_summary \<Rightarrow> remediation_summary" where
  "remediationSummaryFromResult result vulnerability =
     (case Option.bind (cr_summary result) su_remediation of
        Some r \<Rightarrow> r
      | None \<Rightarrow> \<lparr> rm_available = vs_fixAvailable vulnerability, rm_best = vs_bestFixVersion vulnerability \<rparr>)"

section \<open>Reading\<close>

definition cache_row_matches :: "artifact_event \<Rightarrow> cache_row \<Rightarrow> bool" where
  "cache_row_matches event r =
     (if present (ev_packageVersionId event) then ca_package_version_id r = ev_packageVersionId event
      else ev_packageId event \<noteq> [] \<and> ev_kind event = Package_metadata \<and>
           ca_package_id r = Some (ev_packageId event) \<and> ca_package_version_id r = None)"

definition cache_fresh :: "ms \<Rightarrow> connector \<Rightarrow> cache_row \<Rightarrow> bool" where
  "cache_fresh now connector row =
     (let effectiveTtlSeconds = default (cc_cacheTtlSeconds (cn_config connector)) (ca_ttl_seconds row)
      in now - effectiveTtlSeconds * 1000 < ca_queried_at row)"

definition findFreshCacheRow :: "cache_db \<Rightarrow> ms \<Rightarrow> connector \<Rightarrow> artifact_event \<Rightarrow> cache_row option" where
  "findFreshCacheRow db now connector event =
     (case first_row (\<lambda>r. ca_connector_id r = cn_id connector \<and> cache_row_matches event r) (cb_rows db) of
        None \<Rightarrow> None
      | Some row \<Rightarrow> if cache_fresh now connector row then Some row else None)"

definition severity_counts :: "connector_finding list \<Rightarrow> nat \<times> nat \<times> nat \<times> nat" where
  "severity_counts fs =
     (length (filter (\<lambda>f. cf_severity f = CRITICAL) fs), length (filter (\<lambda>f. cf_severity f = HIGH) fs),
      length (filter (\<lambda>f. cf_severity f = MEDIUM) fs), length (filter (\<lambda>f. cf_severity f = LOW) fs))"

definition row_findings :: "cache_row \<Rightarrow> connector_finding list" where
  "row_findings row = default [] (Option.bind (ca_data row) dt_findings)"

definition interpretCacheRow ::
    "ms \<Rightarrow> cache_row \<Rightarrow> bool \<Rightarrow> bool \<Rightarrow> (connector_result \<times> rat \<times> connector_finding list) option" where
  "interpretCacheRow now row includeFindings treatBrokenFindingStateAsMiss =
     (let findings = row_findings row
      in if treatBrokenFindingStateAsMiss \<and> ca_finding_count row > 0 \<and> findings = [] then None
         else Some
           (\<lparr> cr_findings = (if includeFindings then findings else []),
              cr_summary = Some (default
                \<lparr> su_risk = Some \<lparr> rs_tier = ca_risk_tier row, rs_score = ca_risk_score row \<rparr>,
                  su_findings = Some (ca_finding_count row),
                  su_remediation = Some \<lparr> rm_available = ca_remediation_available row,
                                          rm_best = ca_best_remediation row \<rparr>,
                  su_vulnerability = Some
                    \<lparr> vs_maxSeverity = ca_risk_tier row, vs_findingCount = ca_finding_count row,
                      vs_fixAvailable = ca_remediation_available row,
                      vs_bestFixVersion = ca_best_remediation row,
                      vs_severityCounts = (if findings \<noteq> [] then Some (severity_counts findings) else None) \<rparr>,
                  su_other = [] \<rparr>
                (Option.bind (ca_data row) dt_summary)),
              cr_ttlSeconds = None,
              cr_legacy = None \<rparr>,
            of_int (now - ca_queried_at row) / 3600000,
            findings))"

record cached_snapshot_result =
  cs_snapshot :: connector_snapshot
  cs_connectorCacheId :: string
  cs_findings :: "connector_finding list"

definition buildCachedSnapshot ::
    "cache_db \<Rightarrow> ms \<Rightarrow> connector \<Rightarrow> artifact_event \<Rightarrow> string \<Rightarrow> cached_snapshot_result option" where
  "buildCachedSnapshot db now connector event displayName =
     (if cn_readSnapshots connector = Some False then None
      else case findFreshCacheRow db now connector event of
        None \<Rightarrow> None
      | Some row \<Rightarrow>
          (case interpretCacheRow now row True True of
             None \<Rightarrow> None
           | Some (result, cacheAgeHours, findings) \<Rightarrow> Some
               \<lparr> cs_snapshot = cn_normalizeToSnapshot connector (Some result)
                   (eventEntityContext event displayName True 0 (Some cacheAgeHours)) None None,
                 cs_connectorCacheId = ca_id row,
                 cs_findings = findings \<rparr>))"

definition getCachedResult ::
    "cache_db \<Rightarrow> ms \<Rightarrow> connector \<Rightarrow> artifact_event \<Rightarrow> connector_result option" where
  "getCachedResult db now connector event =
     Option.bind (findFreshCacheRow db now connector event)
       (\<lambda>row. map_option fst (interpretCacheRow now row False False))"

definition getPackageScopedCachedResult ::
    "cache_db \<Rightarrow> ms \<Rightarrow> connector \<Rightarrow> artifact_event \<Rightarrow> connector_result option" where
  "getPackageScopedCachedResult db now connector event =
     Option.bind (findFreshCacheRow db now connector event)
       (\<lambda>row. map_option fst (interpretCacheRow now row True False))"

section \<open>Writing\<close>

text \<open>
  The two partial unique indexes: connector and version for rows with a version, connector and
  package for rows with a package only.
\<close>

definition cache_key :: "cache_row \<Rightarrow> (string \<times> (string + string)) option" where
  "cache_key r =
     (case ca_package_version_id r of
        Some v \<Rightarrow> Some (ca_connector_id r, Inl v)
      | None \<Rightarrow> map_option (\<lambda>p. (ca_connector_id r, Inr p)) (ca_package_id r))"

definition cache_merge :: "cache_row \<Rightarrow> cache_row \<Rightarrow> cache_row" where
  "cache_merge new r = new\<lparr> ca_id := ca_id r, ca_connector_id := ca_connector_id r \<rparr>"

definition result_row ::
    "string \<Rightarrow> ms \<Rightarrow> connector \<Rightarrow> artifact_event \<Rightarrow> connector_result \<Rightarrow> int option \<Rightarrow> cache_row" where
  "result_row rowId now connector event result ttlSeconds =
     (let vulnerability = vulnerabilitySummaryFromResult result;
          risk = riskSummaryFromResult result vulnerability;
          findingsSummary = findingsSummaryFromResult result;
          remediation = remediationSummaryFromResult result vulnerability;
          summary = default
            \<lparr> su_risk = Some risk, su_findings = Some findingsSummary, su_remediation = Some remediation,
              su_vulnerability = Some vulnerability, su_other = [] \<rparr> (cr_summary result)
      in \<lparr> ca_id = rowId,
           ca_connector_id = cn_id connector,
           ca_package_id = Some (ev_packageId event),
           ca_package_version_id = ev_packageVersionId event,
           ca_risk_tier = rs_tier risk,
           ca_risk_score = rs_score risk,
           ca_finding_count = findingsSummary,
           ca_remediation_available = rm_available remediation,
           ca_best_remediation = rm_best remediation,
           ca_data = Some \<lparr> dt_summary = Some summary, dt_findings = Some (cr_findings result) \<rparr>,
           ca_ttl_seconds = orelse ttlSeconds (cr_ttlSeconds result),
           ca_queried_at = now \<rparr>)"

definition upsertCachedResult ::
    "cache_db \<Rightarrow> ms \<Rightarrow> connector \<Rightarrow> artifact_event \<Rightarrow> connector_result \<Rightarrow> int option \<Rightarrow>
     cache_row option \<times> cache_db" where
  "upsertCachedResult db now connector event result ttlSeconds =
     (let (rowId, uuids) = draw (cb_uuids db);
          new = result_row rowId now connector event result ttlSeconds;
          rows = upsert_row cache_key (cache_merge new) new (cb_rows db)
      in (first_row (\<lambda>r. cache_key r = cache_key new) rows,
          db\<lparr> cb_rows := rows, cb_uuids := uuids \<rparr>))"

definition upsertPackageScopedCachedResult ::
    "cache_db \<Rightarrow> ms \<Rightarrow> connector \<Rightarrow> artifact_event \<Rightarrow> connector_result \<Rightarrow> int option \<Rightarrow>
     cache_row option \<times> cache_db" where
  "upsertPackageScopedCachedResult db now connector event result ttlSeconds =
     upsertCachedResult db now connector event result ttlSeconds"

interpretation cache: upserting cache_key cache_merge
  by unfold_locales (auto simp: cache_key_def cache_merge_def split: option.splits)

section \<open>Reading back what was written\<close>

text \<open>One row per key, and no row with an empty identifier.\<close>

definition cache_ok :: "cache_db \<Rightarrow> bool" where
  "cache_ok db = unique_key cache_key (cb_rows db)"

definition event_ok :: "artifact_event \<Rightarrow> bool" where
  "event_ok event =
     (case ev_packageVersionId event of
        Some v \<Rightarrow> v \<noteq> []
      | None \<Rightarrow> ev_packageId event \<noteq> [] \<and> ev_kind event = Package_metadata)"

text \<open>The row an event selects is the one with the key of a row written for that event.\<close>

lemma selects_iff_key:
  assumes "event_ok event"
  shows "ca_connector_id r = cn_id connector \<and> cache_row_matches event r \<longleftrightarrow>
         cache_key r = cache_key (result_row rowId now connector event result ttl)"
  using assms
  by (auto simp: event_ok_def cache_row_matches_def cache_key_def result_row_def Let_def present_def
      split: option.splits)

lemma cache_key_result_row: "cache_key (result_row rowId now connector event result ttl) \<noteq> None"
  by (auto simp: cache_key_def result_row_def Let_def split: option.splits)

lemma upsertCachedResult_ok: "cache_ok db \<Longrightarrow> cache_ok (snd (upsertCachedResult db now connector event result ttl))"
  by (simp add: upsertCachedResult_def cache_ok_def Let_def cache.upsert_unique split: prod.splits)

text \<open>Whatever was in the cache, the row found for the event is the written one but for its id.\<close>

lemma upsertCachedResult_row:
  assumes "cache_ok db" and "event_ok event"
  shows "\<exists>rid. first_row (\<lambda>r. ca_connector_id r = cn_id connector \<and> cache_row_matches event r)
            (cb_rows (snd (upsertCachedResult db now connector event result ttl))) =
          Some (result_row rid now connector event result ttl)"
proof -
  obtain rowId uuids where d: "draw (cb_uuids db) = (rowId, uuids)" by fastforce
  let ?new = "result_row rowId now connector event result ttl"
  let ?rows = "upsert_row cache_key (cache_merge ?new) ?new (cb_rows db)"
  obtain k where k: "cache_key ?new = Some k"
    using cache_key_result_row [of rowId now connector event result ttl] by auto
  obtain r where r: "filter (\<lambda>x. cache_key x = Some k) ?rows = [r]" "r = ?new \<or> (\<exists>s. r = cache_merge ?new s)"
    using cache.upsert_filter [OF k] assms(1) unfolding cache_ok_def by blast
  have key: "cache_key r = Some k"
    using r(1) by (metis (mono_tags, lifting) filter_eq_ConsD)
  have "r = result_row (ca_id r) now connector event result ttl"
  proof -
    have "ca_connector_id r = cn_id connector"
      using selects_iff_key [OF assms(2), of r connector rowId now result ttl] key k by simp
    with r(2) show ?thesis by (auto simp: cache_merge_def result_row_def Let_def)
  qed
  moreover have "first_row (\<lambda>r. ca_connector_id r = cn_id connector \<and> cache_row_matches event r) ?rows = Some r"
    unfolding first_row_def find_filter selects_iff_key [OF assms(2), of _ connector rowId now result ttl] k r(1)
    by simp
  ultimately show ?thesis
    by (auto simp: upsertCachedResult_def Let_def d)
qed

text \<open>The result a cached row is read back as: the same findings, and the summary or the derived one.\<close>

definition cached_form :: "connector_result \<Rightarrow> connector_result" where
  "cached_form result =
     (let v = vulnerabilitySummaryFromResult result
      in \<lparr> cr_findings = cr_findings result,
           cr_summary = Some (default
             \<lparr> su_risk = Some (riskSummaryFromResult result v),
               su_findings = Some (findingsSummaryFromResult result),
               su_remediation = Some (remediationSummaryFromResult result v),
               su_vulnerability = Some v, su_other = [] \<rparr> (cr_summary result)),
           cr_ttlSeconds = None,
           cr_legacy = None \<rparr>)"

definition effective_ttl :: "connector \<Rightarrow> connector_result \<Rightarrow> int option \<Rightarrow> int" where
  "effective_ttl connector result ttl =
     default (cc_cacheTtlSeconds (cn_config connector)) (orelse ttl (cr_ttlSeconds result))"

lemma findFreshCacheRow_upsert:
  assumes "cache_ok db" and "event_ok event"
  shows "\<exists>rid. findFreshCacheRow (snd (upsertCachedResult db t0 connector event result ttl)) t1 connector event =
     (if t1 < t0 + effective_ttl connector result ttl * 1000
      then Some (result_row rid t0 connector event result ttl) else None)"
  using upsertCachedResult_row [OF assms, of connector t0 result ttl]
  by (auto simp: findFreshCacheRow_def cache_fresh_def effective_ttl_def Let_def result_row_def)

lemma interpret_result_row:
  "interpretCacheRow t1 (result_row rid t0 connector event result ttl) True b =
     (if b \<and> findingsSummaryFromResult result > 0 \<and> cr_findings result = [] then None
      else Some (cached_form result, of_int (t1 - t0) / 3600000, cr_findings result))"
  by (simp add: interpretCacheRow_def result_row_def Let_def row_findings_def default_def cached_form_def)

lemma highest_severity_min: "highest_severity h fs \<le> h \<and> (\<forall>f \<in> set fs. highest_severity h fs \<le> cf_severity f) \<and>
    (highest_severity h fs = h \<or> (\<exists>f \<in> set fs. highest_severity h fs = cf_severity f))"
proof (induction fs arbitrary: h)
  case (Cons f fs)
  let ?h = "if severity_index (cf_severity f) < severity_index h then cf_severity f else h"
  have "?h \<le> h" "?h \<le> cf_severity f" "?h = h \<or> ?h = cf_severity f"
    by (auto simp: less_eq_severity_def)
  with Cons [of ?h] show ?case
    by (simp only: highest_severity.simps list.set) (auto intro: order_trans)
qed simp

section \<open>Properties\<close>

text \<open>
  C6: the cache returns what was written while it is fresh and nothing afterwards. After an upsert
  of a result at \<open>t0\<close>, a read for the same event at \<open>t1\<close> hits exactly while \<open>t1\<close> is less than the
  effective time to live (explicit, then the result's own, then the connector's) after \<open>t0\<close>, whatever
  the cache held before; the result read has the same findings and its own or the derived summary,
  and the snapshot of the hit is the connector's normalization of it, marked as a cache hit.
\<close>

theorem cache_roundtrip:
  assumes "cache_ok db" and "event_ok event"
  shows "getPackageScopedCachedResult (snd (upsertCachedResult db t0 connector event result ttl)) t1 connector event =
           (if t1 < t0 + effective_ttl connector result ttl * 1000 then Some (cached_form result) else None) \<and>
         map_option (\<lambda>c. (cs_snapshot c, cs_findings c))
           (buildCachedSnapshot (snd (upsertCachedResult db t0 connector event result ttl)) t1 connector event name) =
           (if cn_readSnapshots connector \<noteq> Some False \<and>
               t1 < t0 + effective_ttl connector result ttl * 1000 \<and>
               (cr_findings result \<noteq> [] \<or> findingsSummaryFromResult result = 0)
            then Some (cn_normalizeToSnapshot connector (Some (cached_form result))
                         (eventEntityContext event name True 0 (Some (of_int (t1 - t0) / 3600000))) None None,
                       cr_findings result)
            else None) \<and>
         cache_ok (snd (upsertCachedResult db t0 connector event result ttl))"
proof -
  obtain rid where "findFreshCacheRow (snd (upsertCachedResult db t0 connector event result ttl)) t1 connector event =
     (if t1 < t0 + effective_ttl connector result ttl * 1000
      then Some (result_row rid t0 connector event result ttl) else None)"
    using findFreshCacheRow_upsert [OF assms] by blast
  then show ?thesis
    using upsertCachedResult_ok [OF assms(1)]
    by (simp add: getPackageScopedCachedResult_def buildCachedSnapshot_def interpret_result_row)
qed

definition sample_connector :: connector where
  "sample_connector = \<lparr> cn_id = ''osv'',
     cn_config = \<lparr> cc_cacheTtlSeconds = 3600, cc_responseTimeoutMs = 500, cc_backgroundTimeoutMs = 5000, cc_baseUrl = [] \<rparr>,
     cn_supportedEcosystems = Some [''npm''], cn_subscribedEvents = [(Artifact_request, Sync_required)],
     cn_readSnapshots = None, cn_supportsEvent = (\<lambda>_. True), cn_handleEvent = (\<lambda>_. Inr None),
     cn_normalizeToSnapshot = (\<lambda>r c st e. \<lparr> sn_connectorKey = ''osv'', sn_entityType = ''artifact'',
       sn_packageId = ec_packageId c, sn_packageVersionId = ec_packageVersionId c, sn_ecosystem = ec_ecosystem c,
       sn_packageName = ec_pkg c, sn_version = ec_version c, sn_displayName = ec_displayName c, sn_fields = [],
       sn_meta = \<lparr> sm_status = Ok, sm_responseTimeMs = 0, sm_cacheAgeHours = None, sm_isCacheHit = ec_isCacheHit c,
                   sm_errorCode = e \<rparr>, sn_observedAt = 0 \<rparr>) \<rparr>"

definition sample_event :: artifact_event where
  "sample_event = \<lparr> ev_id = ''e'', ev_kind = Artifact_request, ev_packageId = ''pkg'', ev_packageVersionId = Some ''ver'',
     ev_ecosystem = ''npm'', ev_packageName = ''left-pad'', ev_version = Some ''1.3.0'', ev_source = Proxy, ev_observedAt = 0 \<rparr>"

definition sample_result :: connector_result where
  "sample_result = \<lparr> cr_findings = [\<lparr> cf_findingId = ''GHSA-1'', cf_severity = HIGH, cf_title = None,
     cf_publishedAt = None, cf_attributes = [] \<rparr>], cr_summary = None, cr_ttlSeconds = Some 60, cr_legacy = None \<rparr>"

definition empty_cache :: cache_db where
  "empty_cache = \<lparr> cb_rows = [], cb_uuids = \<lparr> us_supply = (\<lambda>n. replicate (Suc n) (CHR ''c'')), us_drawn = 0 \<rparr> \<rparr>"

theorem cache_roundtrip_witness:
  "getPackageScopedCachedResult (snd (upsertCachedResult empty_cache 0 sample_connector sample_event sample_result None))
     59999 sample_connector sample_event = Some (cached_form sample_result) \<and>
   getPackageScopedCachedResult (snd (upsertCachedResult empty_cache 0 sample_connector sample_event sample_result None))
     60000 sample_connector sample_event = None"
proof -
  have "cache_ok empty_cache" "event_ok sample_event"
    by (simp_all add: cache_ok_def empty_cache_def event_ok_def sample_event_def)
  from cache_roundtrip [OF this, of 0 sample_connector sample_result None 59999]
    cache_roundtrip [OF this, of 0 sample_connector sample_result None 60000]
  show ?thesis by (simp add: effective_ttl_def sample_result_def orelse_def default_def)
qed

text \<open>
  The risk tier cached for a result that brings no summary of its own is the severity of its
  most severe finding, \<open>NONE\<close> for a result without findings, and the finding count is their number.
\<close>

theorem cached_tier_is_worst:
  assumes "cr_summary result = None" and "cr_legacy result = None"
  shows "(\<forall>f \<in> set (cr_findings result).
            ca_risk_tier (result_row rid t connector event result ttl) \<le> cf_severity f) \<and>
         (ca_risk_tier (result_row rid t connector event result ttl) = NONE \<or>
          (\<exists>f \<in> set (cr_findings result). ca_risk_tier (result_row rid t connector event result ttl) = cf_severity f)) \<and>
         ca_finding_count (result_row rid t connector event result ttl) = length (cr_findings result)"
  using highest_severity_min [of NONE "cr_findings result"] assms
  by (auto simp: result_row_def Let_def riskSummaryFromResult_def vulnerabilitySummaryFromResult_def
      findingsSummaryFromResult_def highestFindingSeverity_def)

theorem cached_tier_is_worst_witness:
  "ca_risk_tier (result_row ''r'' 0 sample_connector sample_event sample_result None) \<le> HIGH \<and>
   ca_finding_count (result_row ''r'' 0 sample_connector sample_event sample_result None) = 1"
  using cached_tier_is_worst [of sample_result "''r''" 0 sample_connector sample_event None]
  by (simp add: sample_result_def)

end
