(* ===== verification/Resolver.thy ===== *)
theory Resolver
  imports Expression Connector_Types
begin

text \<open>
  The field resolver, \<open>policy/resolver.ts\<close>: the flat field map a condition is evaluated against,
  built from the request context and the connector snapshots.
\<close>

record asset_context =
  ac_ecosystem :: string
  ac_pkg :: string
  ac_version :: string
  ac_versionPublishedAt :: "string option"
  ac_versionAgeDays :: "rat option"
  ac_latestVersionPublishedAt :: "string option"

definition source_ref :: "string \<Rightarrow> string \<Rightarrow> string" where
  "source_ref key field = ''source.'' @ key @ ''.'' @ field"

definition asset_fields :: "ms \<Rightarrow> asset_context \<Rightarrow> field_map" where
  "asset_fields now asset =
     [(''asset.ecosystem'', JStr (ac_ecosystem asset)),
      (''asset.package'', JStr (ac_pkg asset)),
      (''asset.version'', JStr (ac_version asset)),
      (''asset.version_published_at'', jstr_opt (ac_versionPublishedAt asset)),
      (''asset.version_age_days'', jnum_opt (ac_versionAgeDays asset)),
      (''asset.latest_version_published_at'', jstr_opt (ac_latestVersionPublishedAt asset)),
      (''runtime.request_timestamp'', JStr (to_iso now))]"

definition meta_fields :: "snapshot_meta \<Rightarrow> jsobj" where
  "meta_fields m =
     [(''_meta.status'', JStr (status_name (sm_status m))),
      (''_meta.response_time_ms'', JNum (of_int (sm_responseTimeMs m))),
      (''_meta.cache_age_hours'', jnum_opt (sm_cacheAgeHours m)),
      (''_meta.is_cache_hit'', JBool (sm_isCacheHit m))] @
     (case sm_errorCode m of None \<Rightarrow> [] | Some c \<Rightarrow> [(''_meta.error_code'', JStr c)])"

text \<open>What one snapshot contributes, in the order it is written: status block, then data.\<close>

definition snapshot_entries :: "connector_snapshot \<Rightarrow> jsobj" where
  "snapshot_entries s = meta_fields (sn_meta s) @ sn_fields s"

definition add_snapshot :: "field_map \<Rightarrow> connector_snapshot \<Rightarrow> field_map" where
  "add_snapshot fm snapshot =
     foldl (\<lambda>fs (k, v). obj_set (source_ref (sn_connectorKey snapshot) k) v fs) fm
       (snapshot_entries snapshot)"

definition resolveFields :: "ms \<Rightarrow> connector_snapshot list \<Rightarrow> asset_context \<Rightarrow> field_map" where
  "resolveFields now snapshots asset = foldl add_snapshot (asset_fields now asset) snapshots"

definition unavailableSnapshot :: "ms \<Rightarrow> string \<Rightarrow> connector_snapshot" where
  "unavailableSnapshot now connectorKey =
     \<lparr> sn_connectorKey = connectorKey,
       sn_entityType = ''artifact'',
       sn_packageId = None,
       sn_packageVersionId = None,
       sn_ecosystem = '''',
       sn_packageName = '''',
       sn_version = None,
       sn_displayName = '''',
       sn_fields = [],
       sn_meta = \<lparr> sm_status = Unavailable, sm_responseTimeMs = 0, sm_cacheAgeHours = None,
                   sm_isCacheHit = False, sm_errorCode = None \<rparr>,
       sn_observedAt = now \<rparr>"

section \<open>What the field map holds\<close>

text \<open>
  A connector key with no dot: then \<open>source.<key>.<field>\<close> determines both parts, so two
  connectors never write the same field.
\<close>

definition plain_key :: "string \<Rightarrow> bool" where
  "plain_key k = (CHR ''.'' \<notin> set k)"

lemma source_ref_inject:
  "plain_key k \<Longrightarrow> plain_key k' \<Longrightarrow> source_ref k f = source_ref k' f' \<longleftrightarrow> k = k' \<and> f = f'"
  using append_sep_inject [of "CHR ''.''" k k' f f'] by (auto simp: source_ref_def plain_key_def)

lemma foldl_obj_set_get:
  "obj_get (foldl (\<lambda>fs (k, v). obj_set (g k) v fs) fs ps) x =
   (case find (\<lambda>(k, v). g k = x) (rev ps) of None \<Rightarrow> obj_get fs x | Some (k, v) \<Rightarrow> v)"
  by (induction ps rule: rev_induct) (auto split: prod.splits)

lemma find_None_iff': "find P xs = None \<longleftrightarrow> (\<forall>x \<in> set xs. \<not> P x)"
  by (induction xs) auto

lemma find_rev_map_of:
  assumes "distinct (map fst ps)"
  shows "find (\<lambda>(k, v). k = x) (rev ps) = map_option (Pair x) (map_of ps x)"
  using assms
proof (induction ps rule: rev_induct)
  case (snoc p ps)
  then show ?case by (cases p) (force simp: map_add_def split: option.splits)
qed simp

text \<open>A snapshot sets its own references and leaves those of other connectors alone.\<close>

lemma add_snapshot_other:
  assumes "plain_key k" and "plain_key (sn_connectorKey s)" and "k \<noteq> sn_connectorKey s"
  shows "obj_get (add_snapshot fs s) (source_ref k f) = obj_get fs (source_ref k f)"
proof -
  have "find (\<lambda>(k', v). source_ref (sn_connectorKey s) k' = source_ref k f)
          (rev (snapshot_entries s)) = None"
    using assms by (auto simp: find_None_iff' source_ref_inject)
  then show ?thesis by (simp add: add_snapshot_def foldl_obj_set_get)
qed

lemma add_snapshot_own:
  assumes "plain_key (sn_connectorKey s)"
    and "distinct (map fst (snapshot_entries s))"
  shows "obj_get (add_snapshot fs s) (source_ref (sn_connectorKey s) f) =
         (case map_of (snapshot_entries s) f of
            None \<Rightarrow> obj_get fs (source_ref (sn_connectorKey s) f) | Some v \<Rightarrow> v)"
proof -
  have "find (\<lambda>(k, v). source_ref (sn_connectorKey s) k = source_ref (sn_connectorKey s) f)
          (rev (snapshot_entries s)) =
        map_option (Pair f) (map_of (snapshot_entries s) f)"
    using find_rev_map_of [OF assms(2), of f] by (simp add: source_ref_inject assms(1))
  then show ?thesis
    by (simp add: add_snapshot_def foldl_obj_set_get split: option.splits)
qed

lemma foldl_add_snapshot_other:
  assumes "plain_key k" and "\<forall>s \<in> set ss. plain_key (sn_connectorKey s) \<and> sn_connectorKey s \<noteq> k"
  shows "obj_get (foldl add_snapshot fs ss) (source_ref k f) = obj_get fs (source_ref k f)"
  using assms(2) by (induction ss arbitrary: fs) (use assms(1) in \<open>auto simp: add_snapshot_other\<close>)

lemma source_ref_not_asset: "source_ref k f \<notin> fst ` set (asset_fields now asset)"
  by (simp add: asset_fields_def source_ref_def)

lemma asset_fields_source [simp]: "obj_get (asset_fields now asset) (source_ref k f) = JUndef"
  using source_ref_not_asset [of k f now asset] by (simp add: obj_get_def map_of_eq_None_iff [THEN iffD2])

text \<open>The snapshots of a request: distinct plain connector keys, distinct field keys.\<close>

definition snapshots_ok :: "connector_snapshot list \<Rightarrow> bool" where
  "snapshots_ok ss =
     (distinct (map sn_connectorKey ss) \<and>
      list_all (\<lambda>s. plain_key (sn_connectorKey s) \<and>
                    distinct (map fst (snapshot_entries s))) ss)"

lemma resolveFields_source:
  assumes "snapshots_ok ss" and "s \<in> set ss"
  shows "obj_get (resolveFields now ss asset) (source_ref (sn_connectorKey s) f) =
         obj_get (snapshot_entries s) f"
proof -
  obtain as bs where ss: "ss = as @ s # bs"
    using assms(2) by (auto simp: in_set_conv_decomp)
  have s: "plain_key (sn_connectorKey s)" "distinct (map fst (snapshot_entries s))"
    using assms by (auto simp: snapshots_ok_def list_all_iff)
  have others: "\<forall>t \<in> set as \<union> set bs. plain_key (sn_connectorKey t) \<and> sn_connectorKey t \<noteq> sn_connectorKey s"
    using assms(1) by (simp add: ss snapshots_ok_def list_all_iff ball_Un) (metis imageI)
  let ?pre = "foldl add_snapshot (asset_fields now asset) as"
  have "obj_get (resolveFields now ss asset) (source_ref (sn_connectorKey s) f) =
        obj_get (add_snapshot ?pre s) (source_ref (sn_connectorKey s) f)"
    using others s(1) by (simp add: resolveFields_def ss foldl_add_snapshot_other)
  also have "\<dots> = (case map_of (snapshot_entries s) f of
                   None \<Rightarrow> obj_get ?pre (source_ref (sn_connectorKey s) f) | Some v \<Rightarrow> v)"
    by (rule add_snapshot_own [OF s])
  also have "obj_get ?pre (source_ref (sn_connectorKey s) f) = JUndef"
    using others s(1) by (simp add: foldl_add_snapshot_other)
  finally show ?thesis by (simp add: obj_get_def)
qed

lemma resolveFields_unknown_source:
  assumes "snapshots_ok ss" and "plain_key k" and "k \<notin> sn_connectorKey ` set ss"
  shows "obj_get (resolveFields now ss asset) (source_ref k f) = JUndef"
proof -
  have "\<forall>s \<in> set ss. plain_key (sn_connectorKey s) \<and> sn_connectorKey s \<noteq> k"
    using assms(1,3) by (auto simp: snapshots_ok_def list_all_iff)
  then show ?thesis
    by (simp add: resolveFields_def foldl_add_snapshot_other [OF assms(2)])
qed

lemma meta_field_prefix: "list_all (\<lambda>p. js_startsWith (fst p) ''_meta.'') (meta_fields m)"
  by (simp add: meta_fields_def js_startsWith_def split: option.split)

lemma status_name_inject [simp]: "status_name a = status_name b \<longleftrightarrow> a = b"
  by (cases a; cases b) simp_all

section \<open>Properties\<close>

text \<open>
  Availability. When the snapshot of a connector is a failure (no data fields), a condition
  that needs data and reads only data fields of that connector does not match, whatever the other
  snapshots are; and its status field is there to be tested: an equality test on it matches exactly
  the recorded status.
\<close>

theorem failed_connector_fields:
  assumes "snapshots_ok ss" and "s \<in> set ss" and "sn_fields s = []"
    and "well_formed c" and "needs_data c"
    and "\<forall>k \<in> refs c. \<exists>f. k = source_ref (sn_connectorKey s) f \<and> \<not> js_startsWith f ''_meta.''"
  shows "evaluate c (resolveFields now ss asset) = Inr False \<and>
         evaluate (Leaf (JStr (source_ref (sn_connectorKey s) ''_meta.status'')) (JStr ''eq'')
                        (JStr (status_name st)))
                  (resolveFields now ss asset) = Inr (sm_status (sn_meta s) = st)"
proof
  have "nullish (obj_get (resolveFields now ss asset) k)" if "k \<in> refs c" for k
  proof -
    from assms(6) [rule_format, OF that]
    obtain f where f: "k = source_ref (sn_connectorKey s) f" "\<not> js_startsWith f ''_meta.''"
      by (elim exE conjE) (rule that)
    have "f \<notin> fst ` set (meta_fields (sn_meta s))"
      using f(2) meta_field_prefix [of "sn_meta s"] by (auto simp only: list_all_iff)
    then have "map_of (meta_fields (sn_meta s)) f = None"
      by (simp add: map_of_eq_None_iff)
    then have "obj_get (snapshot_entries s) f = JUndef"
      by (simp add: snapshot_entries_def assms(3) obj_get_def)
    then show ?thesis
      by (simp add: f(1) resolveFields_source [OF assms(1,2)])
  qed
  from needs_data_silent [OF assms(5) this] show "evaluate c (resolveFields now ss asset) = Inr False"
    by (simp add: evaluate_holds [OF assms(4)])
next
  have "obj_get (snapshot_entries s) ''_meta.status'' = JStr (status_name (sm_status (sn_meta s)))"
    by (simp add: snapshot_entries_def meta_fields_def obj_get_def)
  then have "obj_get (resolveFields now ss asset) (source_ref (sn_connectorKey s) ''_meta.status'') =
        JStr (status_name (sm_status (sn_meta s)))"
    by (simp add: resolveFields_source [OF assms(1,2)])
  then show "evaluate (Leaf (JStr (source_ref (sn_connectorKey s) ''_meta.status'')) (JStr ''eq'')
                     (JStr (status_name st))) (resolveFields now ss asset) =
                   Inr (sm_status (sn_meta s) = st)"
    by (simp add: field_value_def coalesce_def evaluateLeaf_def js_loose_eq_def to_primitive_def)
qed

definition sample_asset :: asset_context where
  "sample_asset = \<lparr> ac_ecosystem = ''npm'', ac_pkg = ''left-pad'', ac_version = ''1.3.0'',
     ac_versionPublishedAt = None, ac_versionAgeDays = None, ac_latestVersionPublishedAt = None \<rparr>"

theorem failed_connector_fields_witness:
  "evaluate (Leaf (JStr (source_ref ''osv'' ''critical_count'')) (JStr ''gte'') (JNum 1))
     (resolveFields 0 [unavailableSnapshot 0 ''osv''] sample_asset) = Inr False \<and>
   evaluate (Leaf (JStr (source_ref ''osv'' ''_meta.status'')) (JStr ''eq'') (JStr (status_name Unavailable)))
     (resolveFields 0 [unavailableSnapshot 0 ''osv''] sample_asset) = Inr True"
  using failed_connector_fields [of "[unavailableSnapshot 0 ''osv'']" "unavailableSnapshot 0 ''osv''"
      "Leaf (JStr (source_ref ''osv'' ''critical_count'')) (JStr ''gte'') (JNum 1)" 0 sample_asset Unavailable]
  by (simp add: unavailableSnapshot_def snapshots_ok_def plain_key_def snapshot_entries_def meta_fields_def
      js_startsWith_def source_ref_def)

end
