(* ===== verification/Registry.thy ===== *)
theory Registry
  imports Resolver Tables
begin

text \<open>
  The field catalog and its registration, \<open>connectors/registry.ts\<close>, the snapshot every connector
  builds around its fields, and the contract of a connector as the locale \<open>snapshot_provider\<close>. The
  three connectors interpret the locale; policy evaluation relies on it and on nothing else about
  a connector.
\<close>

section \<open>Field catalogs\<close>

record connector_field =
  fl_connectorKey :: string
  fl_fieldKey :: string
  fl_canonicalRef :: string
  fl_label :: string
  fl_description :: "string option"
  fl_dataType :: string
  fl_entityType :: string
  fl_operators :: "string list"
  fl_enumValues :: "string list option"

definition field_entry ::
    "string \<Rightarrow> string \<Rightarrow> string \<Rightarrow> string \<Rightarrow> string option \<Rightarrow> string \<Rightarrow> string list \<Rightarrow> string list option \<Rightarrow> connector_field" where
  "field_entry key fieldKey canonicalRef label description dataType operators enumValues =
     \<lparr> fl_connectorKey = key, fl_fieldKey = fieldKey, fl_canonicalRef = canonicalRef, fl_label = label,
       fl_description = description, fl_dataType = dataType, fl_entityType = ''artifact'',
       fl_operators = operators, fl_enumValues = enumValues \<rparr>"

definition intOps :: "string list" where
  "intOps = [''eq'', ''ne'', ''gt'', ''gte'', ''lt'', ''lte'']"

definition strOps :: "string list" where
  "strOps = [''eq'', ''ne'', ''in'', ''not_in'']"

definition boolOps :: "string list" where
  "boolOps = [''is_true'', ''is_false'']"

definition floatOps :: "string list" where
  "floatOps = [''gt'', ''gte'', ''lt'', ''lte'']"

definition metaStrOps :: "string list" where
  "metaStrOps = [''eq'', ''ne'', ''in'', ''not_in'', ''exists'', ''not_exists'']"

definition anyOps :: "string list" where
  "anyOps = [''exists'', ''not_exists'', ''eq'', ''ne'']"

text \<open>The operators the expression engine implements.\<close>

definition leaf_operators :: "string list" where
  "leaf_operators = [''exists'', ''not_exists'', ''is_true'', ''is_false'', ''eq'', ''ne'', ''gt'', ''gte'',
     ''lt'', ''lte'', ''in'', ''not_in'', ''contains'', ''not_contains'', ''starts_with'', ''ends_with'']"

text \<open>
  A catalog fits the engine: each reference is \<open>source.<connector>.<field>\<close>, references are distinct,
  the operators offered are implemented, and the status block is declared.
\<close>

definition catalog_ok :: "string \<Rightarrow> connector_field list \<Rightarrow> bool" where
  "catalog_ok key catalog =
     (list_all (\<lambda>f. fl_connectorKey f = key \<and> fl_canonicalRef f = source_ref key (fl_fieldKey f) \<and>
                    list_all (\<lambda>op. op \<in> set leaf_operators) (fl_operators f)) catalog \<and>
      distinct (map fl_fieldKey catalog) \<and>
      list_all (\<lambda>k. k \<in> set (map fl_fieldKey catalog))
        [''_meta.status'', ''_meta.response_time_ms'', ''_meta.cache_age_hours'', ''_meta.is_cache_hit'',
         ''_meta.error_code''])"

section \<open>Registration\<close>

record field_row =
  fr_id :: string
  fr_connector_key :: string
  fr_field_key :: string
  fr_canonical_ref :: string
  fr_label :: string
  fr_description :: "string option"
  fr_data_type :: string
  fr_entity_type :: string
  fr_operators :: "string list"
  fr_enum_values :: "string list option"
  fr_deprecated :: bool

record field_db =
  ft_rows :: "field_row list"
  ft_uuids :: uuid_source

definition field_ref_key :: "field_row \<Rightarrow> string option" where
  "field_ref_key r = Some (fr_canonical_ref r)"

definition field_merge :: "field_row \<Rightarrow> field_row \<Rightarrow> field_row" where
  "field_merge new r =
     r\<lparr> fr_label := fr_label new, fr_description := fr_description new, fr_operators := fr_operators new,
        fr_enum_values := fr_enum_values new, fr_deprecated := False \<rparr>"

definition register_field :: "field_db \<Rightarrow> connector_field \<Rightarrow> field_db" where
  "register_field db f =
     (let (rowId, uuids) = draw (ft_uuids db);
          new = \<lparr> fr_id = rowId, fr_connector_key = fl_connectorKey f, fr_field_key = fl_fieldKey f,
                  fr_canonical_ref = fl_canonicalRef f, fr_label = fl_label f,
                  fr_description = fl_description f, fr_data_type = fl_dataType f,
                  fr_entity_type = fl_entityType f, fr_operators = fl_operators f,
                  fr_enum_values = fl_enumValues f, fr_deprecated = False \<rparr>
      in db\<lparr> ft_rows := upsert_row field_ref_key (field_merge new) new (ft_rows db), ft_uuids := uuids \<rparr>)"

definition deprecateRemovedFields :: "connector_field list list \<Rightarrow> field_db \<Rightarrow> field_db" where
  "deprecateRemovedFields catalogs db =
     (let activeCatalogRefs = map fl_canonicalRef (concat catalogs)
      in if activeCatalogRefs = [] then db
         else db\<lparr> ft_rows := update_where
                (\<lambda>r. fr_canonical_ref r \<notin> set activeCatalogRefs \<and> \<not> fr_deprecated r)
                (\<lambda>r. r\<lparr> fr_deprecated := True \<rparr>) (ft_rows db) \<rparr>)"

definition registerAllFields :: "connector_field list list \<Rightarrow> field_db \<Rightarrow> field_db" where
  "registerAllFields catalogs db =
     deprecateRemovedFields catalogs
       (foldl (\<lambda>d catalog. foldl register_field d catalog) db catalogs)"

interpretation field_table: upserting field_ref_key field_merge
  by unfold_locales (simp add: field_ref_key_def field_merge_def)

section \<open>The snapshot of a connector\<close>

definition snapshot_meta_of :: "entity_context \<Rightarrow> snapshot_status option \<Rightarrow> string option \<Rightarrow> snapshot_meta" where
  "snapshot_meta_of context failureStatus errorCode =
     \<lparr> sm_status = (case failureStatus of Some st \<Rightarrow> st
                    | None \<Rightarrow> if ec_isCacheHit context then Cache_hit else Ok),
       sm_responseTimeMs = ec_responseTimeMs context,
       sm_cacheAgeHours = ec_cacheAgeHours context,
       sm_isCacheHit = ec_isCacheHit context,
       sm_errorCode = opt_or_null errorCode \<rparr>"

definition entity_snapshot ::
    "string \<Rightarrow> ms \<Rightarrow> entity_context \<Rightarrow> jsobj \<Rightarrow> snapshot_meta \<Rightarrow> connector_snapshot" where
  "entity_snapshot key now context fm meta =
     \<lparr> sn_connectorKey = key, sn_entityType = ''artifact'', sn_packageId = ec_packageId context,
       sn_packageVersionId = ec_packageVersionId context, sn_ecosystem = ec_ecosystem context,
       sn_packageName = ec_pkg context, sn_version = ec_version context,
       sn_displayName = ec_displayName context, sn_fields = fm, sn_meta = meta, sn_observedAt = now \<rparr>"

type_synonym normalizer =
  "connector_result option \<Rightarrow> entity_context \<Rightarrow> snapshot_status option \<Rightarrow> string option \<Rightarrow> connector_snapshot"

text \<open>
  The contract of \<open>normalizeToSnapshot\<close>: the snapshot carries the key of the connector and the
  identity of the entity, the status is the failure status or the cache state, a missing result has
  no data fields, and the data fields have distinct names outside the status block.
\<close>

locale snapshot_provider =
  fixes key :: string and norm :: normalizer
  assumes key_plain: "plain_key key"
    and norm_key: "sn_connectorKey (norm r c st e) = key"
    and norm_entity: "sn_entityType (norm r c st e) = ''artifact''"
      "sn_packageId (norm r c st e) = ec_packageId c"
      "sn_packageVersionId (norm r c st e) = ec_packageVersionId c"
    and norm_meta: "sn_meta (norm r c st e) = snapshot_meta_of c st e"
    and norm_failure: "sn_fields (norm None c st e) = []"
    and norm_distinct: "distinct (map fst (sn_fields (norm r c st e)))"
    and norm_data: "list_all (\<lambda>p. \<not> js_startsWith (fst p) ''_meta.'') (sn_fields (norm r c st e))"
begin

lemma entries_distinct: "distinct (map fst (snapshot_entries (norm r c st e)))"
proof -
  have "distinct (map fst (meta_fields m))" for m
    by (simp add: meta_fields_def split: option.split)
  moreover have "fst ` set (meta_fields m) \<inter> fst ` set (sn_fields (norm r c st e)) = {}" for m
    using meta_field_prefix [of m] norm_data [of r c st e] unfolding list_all_iff by fastforce
  ultimately show ?thesis
    using norm_distinct by (simp add: snapshot_entries_def)
qed

lemma norm_snapshot_ok: "snapshots_ok [norm r c st e]"
  using entries_distinct key_plain by (simp add: snapshots_ok_def norm_key)

text \<open>After a failure every data field of the connector reads as absent, whatever else is known.\<close>

lemma failure_fields_absent:
  assumes "snapshots_ok ss" and "norm None c st e \<in> set ss" and "\<not> js_startsWith f ''_meta.''"
  shows "obj_get (resolveFields now ss asset) (source_ref key f) = JUndef"
proof -
  have "f \<notin> fst ` set (meta_fields (snapshot_meta_of c st e))"
    using assms(3) meta_field_prefix [of "snapshot_meta_of c st e"] by (auto simp only: list_all_iff)
  then have "map_of (meta_fields (snapshot_meta_of c st e)) f = None"
    by (simp add: map_of_eq_None_iff)
  then have "obj_get (snapshot_entries (norm None c st e)) f = JUndef"
    by (simp add: snapshot_entries_def norm_failure norm_meta obj_get_def)
  then show ?thesis
    using resolveFields_source [OF assms(1,2), of now asset f] by (simp add: norm_key)
qed

end

text \<open>The common shape of the three connectors: an entity snapshot around a list of fields.\<close>

lemma snapshot_provider_entity:
  assumes "plain_key key"
    and eq: "\<And>r c st e. nm r c st e = entity_snapshot key now c (fs r c st) (snapshot_meta_of c st e)"
    and "\<And>c st. fs None c st = []"
    and "\<And>r c st. distinct (map fst (fs r c st))"
    and meta: "\<And>r c st. list_all (\<lambda>k. \<not> js_startsWith k ''_meta.'') (map fst (fs r c st))"
  shows "snapshot_provider key nm"
proof
  show "list_all (\<lambda>p. \<not> js_startsWith (fst p) ''_meta.'') (sn_fields (nm r c st e))" for r c st e
    using meta [of r c st] by (simp add: eq entity_snapshot_def list.pred_map comp_def)
qed (simp_all add: assms entity_snapshot_def)

section \<open>What registration leaves in the table\<close>

lemma register_field_ref:
  assumes "unique_key field_ref_key (ft_rows db)"
  shows "unique_key field_ref_key (ft_rows (register_field db f)) \<and>
         (\<forall>r. fr_canonical_ref r \<noteq> fl_canonicalRef f \<longrightarrow>
            (r \<in> set (ft_rows (register_field db f)) \<longleftrightarrow> r \<in> set (ft_rows db))) \<and>
         (\<exists>r \<in> set (ft_rows (register_field db f)). fr_canonical_ref r = fl_canonicalRef f \<and>
            \<not> fr_deprecated r \<and> fr_operators r = fl_operators f \<and> fr_label r = fl_label f)"
proof -
  obtain rowId uuids where d: "draw (ft_uuids db) = (rowId, uuids)" by fastforce
  define new where "new = \<lparr> fr_id = rowId, fr_connector_key = fl_connectorKey f, fr_field_key = fl_fieldKey f,
                  fr_canonical_ref = fl_canonicalRef f, fr_label = fl_label f,
                  fr_description = fl_description f, fr_data_type = fl_dataType f,
                  fr_entity_type = fl_entityType f, fr_operators = fl_operators f,
                  fr_enum_values = fl_enumValues f, fr_deprecated = False \<rparr>"
  have rows: "ft_rows (register_field db f) = upsert_row field_ref_key (field_merge new) new (ft_rows db)"
    by (simp add: register_field_def d new_def Let_def)
  have key: "field_ref_key new = Some (fl_canonicalRef f)"
    by (simp add: field_ref_key_def new_def)
  obtain r where r: "filter (\<lambda>s. field_ref_key s = Some (fl_canonicalRef f)) (ft_rows (register_field db f)) = [r]"
      "r = new \<or> (\<exists>s. r = field_merge new s)"
    using field_table.upsert_filter [OF key assms] unfolding rows by blast
  then have "r \<in> set (ft_rows (register_field db f))" "fr_canonical_ref r = fl_canonicalRef f"
    by (metis (mono_tags, lifting) filter_eq_ConsD field_ref_key_def in_set_conv_decomp option.inject)+
  moreover have "\<not> fr_deprecated r" "fr_operators r = fl_operators f" "fr_label r = fl_label f"
    using r(2) by (auto simp: new_def field_merge_def)
  moreover have "fr_canonical_ref x \<noteq> fl_canonicalRef f \<Longrightarrow>
      x \<in> set (ft_rows (register_field db f)) \<longleftrightarrow> x \<in> set (ft_rows db)" for x
    using field_table.upsert_other [of x new "ft_rows db"] key by (simp add: rows field_ref_key_def)
  ultimately show ?thesis
    using field_table.upsert_unique [OF assms, of new] by (auto simp: rows)
qed

lemma register_fields:
  assumes "unique_key field_ref_key (ft_rows db)"
  shows "unique_key field_ref_key (ft_rows (foldl register_field db fs)) \<and>
         (\<forall>f \<in> set fs. \<exists>r \<in> set (ft_rows (foldl register_field db fs)).
            fr_canonical_ref r = fl_canonicalRef f \<and> \<not> fr_deprecated r)"
proof (induction fs rule: rev_induct)
  case (snoc f fs)
  let ?d = "foldl register_field db fs"
  note step = register_field_ref [of ?d f]
  from snoc have u: "unique_key field_ref_key (ft_rows ?d)" by simp
  have "\<exists>r \<in> set (ft_rows (register_field ?d f)). fr_canonical_ref r = fl_canonicalRef g \<and> \<not> fr_deprecated r"
    if "g \<in> set (fs @ [f])" for g
  proof (cases "fl_canonicalRef g = fl_canonicalRef f")
    case True
    with step [OF u] show ?thesis by auto
  next
    case False
    with that snoc obtain r where "r \<in> set (ft_rows ?d)" "fr_canonical_ref r = fl_canonicalRef g" "\<not> fr_deprecated r"
      by auto
    with step [OF u] False show ?thesis by (intro bexI [of _ r]) auto
  qed
  with step [OF u] show ?case by simp
qed (use assms in simp)

lemma foldl_concat: "foldl (\<lambda>d xs. foldl f d xs) d xss = foldl f d (concat xss)"
  by (induction xss arbitrary: d) auto

section \<open>Properties\<close>

text \<open>
  After start-up registration exactly the declared fields are live: each reference of a
  registered catalog has a row that is not deprecated, and every row that is not deprecated belongs
  to a registered catalog (as soon as some connector declares a field); references stay unique.
\<close>

theorem registerAllFields_live:
  assumes "unique_key field_ref_key (ft_rows db)" and "concat catalogs \<noteq> []"
  shows "unique_key field_ref_key (ft_rows (registerAllFields catalogs db)) \<and>
         fr_canonical_ref ` {r \<in> set (ft_rows (registerAllFields catalogs db)). \<not> fr_deprecated r} =
           fl_canonicalRef ` set (concat catalogs)"
proof -
  let ?d = "foldl register_field db (concat catalogs)"
  let ?f = "\<lambda>r. if fr_canonical_ref r \<notin> fl_canonicalRef ` set (concat catalogs) \<and> \<not> fr_deprecated r
                then r\<lparr> fr_deprecated := True \<rparr> else r"
  have rows: "ft_rows (registerAllFields catalogs db) = map ?f (ft_rows ?d)"
  proof -
    have ne: "map fl_canonicalRef (concat catalogs) \<noteq> []"
      using assms(2) by (simp only: map_is_Nil_conv not_False_eq_True)
    show ?thesis
      unfolding registerAllFields_def deprecateRemovedFields_def foldl_concat Let_def update_where_def if_not_P [OF ne]
      by simp
  qed
  note reg = register_fields [OF assms(1), of "concat catalogs"]
  have "unique_key field_ref_key (map ?f (ft_rows ?d))"
    using reg by (subst unique_key_map_same) (auto simp: field_ref_key_def)
  have sub: "fr_canonical_ref r \<in> fl_canonicalRef ` set (concat catalogs)"
    if "r \<in> set (map ?f (ft_rows ?d))" "\<not> fr_deprecated r" for r
    using that by (auto split: if_splits)
  have sup: "\<exists>r \<in> set (map ?f (ft_rows ?d)). fr_canonical_ref r = fl_canonicalRef g \<and> \<not> fr_deprecated r"
    if g: "g \<in> set (concat catalogs)" for g
  proof -
    obtain r where "r \<in> set (ft_rows ?d)" "fr_canonical_ref r = fl_canonicalRef g" "\<not> fr_deprecated r"
      using reg g by blast
    then show ?thesis using g by (intro bexI [of _ "?f r"]) auto
  qed
  have "fr_canonical_ref ` {r \<in> set (map ?f (ft_rows ?d)). \<not> fr_deprecated r} = fl_canonicalRef ` set (concat catalogs)"
  proof (intro equalityI image_subsetI)
    fix r assume "r \<in> {r \<in> set (map ?f (ft_rows ?d)). \<not> fr_deprecated r}"
    then show "fr_canonical_ref r \<in> fl_canonicalRef ` set (concat catalogs)"
      using sub by blast
  next
    fix g assume "g \<in> set (concat catalogs)"
    then obtain r where "r \<in> set (map ?f (ft_rows ?d))" "fr_canonical_ref r = fl_canonicalRef g" "\<not> fr_deprecated r"
      using sup by blast
    then show "fl_canonicalRef g \<in> fr_canonical_ref ` {r \<in> set (map ?f (ft_rows ?d)). \<not> fr_deprecated r}"
      by (intro image_eqI [of _ _ r]) simp_all
  qed
  then show ?thesis
    unfolding rows using \<open>unique_key field_ref_key (map ?f (ft_rows ?d))\<close> by (rule conjI [rotated])
qed

theorem registerAllFields_live_witness:
  "fr_canonical_ref ` {r \<in> set (ft_rows (registerAllFields
       [[field_entry ''osv'' ''vuln_count'' ''source.osv.vuln_count'' ''Count'' None ''integer'' intOps None]]
       \<lparr> ft_rows = [], ft_uuids = \<lparr> us_supply = (\<lambda>n. ''id''), us_drawn = 0 \<rparr> \<rparr>)). \<not> fr_deprecated r} =
   {''source.osv.vuln_count''}"
  using registerAllFields_live [of "\<lparr> ft_rows = [], ft_uuids = \<lparr> us_supply = (\<lambda>n. ''id''), us_drawn = 0 \<rparr> \<rparr>"
      "[[field_entry ''osv'' ''vuln_count'' ''source.osv.vuln_count'' ''Count'' None ''integer'' intOps None]]"]
  by (simp add: field_entry_def)

end
