(* ===== verification/OSV.thy ===== *)
theory OSV
  imports Registry
begin

text \<open>
  The vulnerability connector, \<open>connectors/osv/parse.ts\<close> and \<open>connectors/osv/index.ts\<close>: parsing of an
  advisory response, the CVSS base score, fix information, and the snapshot. Scores are exact
  rationals. The version library is a parameter, \<open>clean\<close> for \<open>semver.valid(semver.coerce(v))\<close> and
  \<open>gt\<close> for \<open>semver.gt\<close>; \<open>parse_date\<close> is \<open>new Date(s).getTime()\<close> on the timestamps of the feed.
\<close>

section \<open>The wire format\<close>

record osv_severity_entry =
  os_type :: string
  os_score :: string

record osv_range_event =
  oe_introduced :: "string option"
  oe_fixed :: "string option"
  oe_last_affected :: "string option"

record osv_range =
  og_type :: string
  og_events :: "osv_range_event list"

record osv_affected =
  oa_ecosystem :: string
  oa_name :: string
  oa_ranges :: "osv_range list option"

record osv_reference =
  ox_type :: string
  ox_url :: string

record osv_vuln =
  ov_id :: string
  ov_aliases :: "string list option"
  ov_summary :: "string option"
  ov_severity :: "osv_severity_entry list option"
  ov_affected :: "osv_affected list option"
  ov_references :: "osv_reference list option"
  ov_cwe_ids :: "string list option"
  ov_published :: "string option"
  ov_modified :: "string option"
  ov_withdrawn :: "string option"

definition OSV_ECOSYSTEM_NAMES :: "(string \<times> string) list" where
  "OSV_ECOSYSTEM_NAMES = [(''npm'', ''npm''), (''pypi'', ''PyPI'')]"

section \<open>CVSS\<close>

definition parseCvssSegments :: "string \<Rightarrow> string \<Rightarrow> string option" where
  "parseCvssSegments vector =
     foldl (\<lambda>parts segment.
         case js_indexOf segment (CHR '':'') of
           None \<Rightarrow> parts
         | Some idx \<Rightarrow> parts(take idx segment \<mapsto> drop (idx + 1) segment))
       Map.empty (js_split (CHR ''/'') vector)"

definition weight :: "(string \<times> rat) list \<Rightarrow> string option \<Rightarrow> rat" where
  "weight table v = (case v of None \<Rightarrow> 0 | Some k \<Rightarrow> default 0 (map_of table k))"

definition AV_W :: "(string \<times> rat) list" where
  "AV_W = [(''N'', 85/100), (''A'', 62/100), (''L'', 55/100), (''P'', 2/10)]"

definition AC_W :: "(string \<times> rat) list" where
  "AC_W = [(''L'', 77/100), (''H'', 44/100)]"

definition UI_W :: "(string \<times> rat) list" where
  "UI_W = [(''N'', 85/100), (''R'', 62/100)]"

definition PR_U :: "(string \<times> rat) list" where
  "PR_U = [(''N'', 85/100), (''L'', 62/100), (''H'', 27/100)]"

definition PR_C :: "(string \<times> rat) list" where
  "PR_C = [(''N'', 85/100), (''L'', 68/100), (''H'', 5/10)]"

definition CIA_W :: "(string \<times> rat) list" where
  "CIA_W = [(''N'', 0), (''L'', 22/100), (''H'', 56/100)]"

text \<open>\<open>Math.ceil(Math.round(x * 100000) / 10000) / 10\<close>\<close>

definition cvss_roundup :: "rat \<Rightarrow> rat" where
  "cvss_roundup x = of_int \<lceil>of_int (math_round (x * 100000)) / (10000 :: rat)\<rceil> / 10"

definition computeCvssV3BaseScore :: "string \<Rightarrow> rat" where
  "computeCvssV3BaseScore vector =
     (let parts = parseCvssSegments vector;
          av = weight AV_W (parts ''AV'');
          ac = weight AC_W (parts ''AC'');
          ui = weight UI_W (parts ''UI'');
          s = default ''U'' (parts ''S'');
          pr = weight (if s = ''C'' then PR_C else PR_U) (parts ''PR'');
          c = weight CIA_W (parts ''C'');
          i = weight CIA_W (parts ''I'');
          a = weight CIA_W (parts ''A'');
          exploitability = 822/100 * av * ac * pr * ui;
          iscBase = 1 - (1 - c) * (1 - i) * (1 - a)
      in if iscBase \<le> 0 then 0
         else
           let impact = (if s = ''U'' then 642/100 * iscBase
                         else 752/100 * (iscBase - 29/1000) - 325/100 * (iscBase - 2/100) ^ 15);
               baseScore = (if s = ''U'' then min (impact + exploitability) 10
                            else min (108/100 * (impact + exploitability)) 10)
           in cvss_roundup baseScore)"

definition extractNumericScore :: "string \<Rightarrow> rat" where
  "extractNumericScore scoreOrVector =
     (case js_parseFloat scoreOrVector of
        Fin q \<Rightarrow> if 0 \<le> q \<and> q \<le> 10 then q
                 else if js_startsWith scoreOrVector ''CVSS:3'' then computeCvssV3BaseScore scoreOrVector else 0
      | _ \<Rightarrow> if js_startsWith scoreOrVector ''CVSS:3'' then computeCvssV3BaseScore scoreOrVector else 0)"

datatype cvss_version = V3 | V4 | V2 | No_cvss

definition pickBestCvss :: "osv_severity_entry list \<Rightarrow> rat \<times> cvss_version \<times> string option" where
  "pickBestCvss severities =
     (case find (\<lambda>s. os_type s = ''CVSS_V3'') severities of
        Some e \<Rightarrow> (extractNumericScore (os_score e), V3, Some (os_score e))
      | None \<Rightarrow>
     (case find (\<lambda>s. os_type s = ''CVSS_V4'') severities of
        Some e \<Rightarrow> (extractNumericScore (os_score e), V4, Some (os_score e))
      | None \<Rightarrow>
     (case find (\<lambda>s. os_type s = ''CVSS_V2'') severities of
        Some e \<Rightarrow> (extractNumericScore (os_score e), V2, Some (os_score e))
      | None \<Rightarrow> (0, No_cvss, None))))"

definition cvssScoreToSeverity :: "rat \<Rightarrow> severity" where
  "cvssScoreToSeverity score =
     (if score \<ge> 9 then CRITICAL else if score \<ge> 7 then HIGH else if score \<ge> 4 then MEDIUM
      else if score > 0 then LOW else NONE)"

record exploitability_parts =
  ep_attackVector :: "string option"
  ep_attackComplexity :: "string option"
  ep_privilegesRequired :: "string option"
  ep_userInteraction :: "string option"

definition parseCvssVector :: "string option \<Rightarrow> exploitability_parts" where
  "parseCvssVector vector =
     (if \<not> present vector
      then \<lparr> ep_attackVector = None, ep_attackComplexity = None, ep_privilegesRequired = None,
             ep_userInteraction = None \<rparr>
      else
        let parts = parseCvssSegments (the vector)
        in \<lparr> ep_attackVector = Option.bind (parts ''AV'')
               (map_of [(''N'', ''NETWORK''), (''A'', ''ADJACENT''), (''L'', ''LOCAL''), (''P'', ''PHYSICAL'')]),
             ep_attackComplexity = Option.bind (parts ''AC'') (map_of [(''L'', ''LOW''), (''H'', ''HIGH'')]),
             ep_privilegesRequired = Option.bind (parts ''PR'')
               (map_of [(''N'', ''NONE''), (''L'', ''LOW''), (''H'', ''HIGH'')]),
             ep_userInteraction = Option.bind (parts ''UI'') (map_of [(''N'', ''NONE''), (''R'', ''REQUIRED'')]) \<rparr>)"

section \<open>Fixes and references\<close>

definition see_range_event :: "string option \<times> bool \<Rightarrow> osv_range_event \<Rightarrow> string option \<times> bool" where
  "see_range_event st event =
     (if present (oe_fixed event) \<and> \<not> present (fst st) then oe_fixed event else fst st,
      snd st \<or> present (oe_last_affected event))"

definition see_range :: "string option \<times> bool \<Rightarrow> osv_range \<Rightarrow> string option \<times> bool" where
  "see_range st r =
     (if og_type r \<noteq> ''SEMVER'' \<and> og_type r \<noteq> ''ECOSYSTEM'' then st
      else foldl see_range_event st (og_events r))"

definition see_affected :: "string \<Rightarrow> string \<Rightarrow> string option \<times> bool \<Rightarrow> osv_affected \<Rightarrow> string option \<times> bool" where
  "see_affected pkg osvEcosystem st a =
     (if oa_ecosystem a \<noteq> osvEcosystem \<or> oa_name a \<noteq> pkg then st
      else foldl see_range st (default [] (oa_ranges a)))"

definition extractFixInfo :: "osv_affected list option \<Rightarrow> string \<Rightarrow> string \<Rightarrow> string option \<times> bool" where
  "extractFixInfo affected pkg osvEcosystem =
     (case affected of
        None \<Rightarrow> (None, False)
      | Some as \<Rightarrow>
          let (fixVersion, hasLastAffected) = foldl (see_affected pkg osvEcosystem) (None, False) as
          in (fixVersion, fixVersion \<noteq> None \<or> hasLastAffected))"

definition extractReferenceUrls :: "osv_reference list option \<Rightarrow> string \<Rightarrow> string list" where
  "extractReferenceUrls references t = map ox_url (filter (\<lambda>r. ox_type r = t) (default [] references))"

definition pickHighestVersion ::
    "(string \<Rightarrow> string option) \<Rightarrow> (string \<Rightarrow> string \<Rightarrow> bool) \<Rightarrow> string list \<Rightarrow> string option" where
  "pickHighestVersion clean gt versions =
     (case versions of
        [] \<Rightarrow> None
      | [v] \<Rightarrow> Some v
      | v # vs \<Rightarrow>
          if list_all (\<lambda>v. clean v \<noteq> None) versions
          then Some (foldl (\<lambda>best cur. if gt (the (clean cur)) (the (clean best)) then cur else best) v vs)
          else Some (last versions))"

section \<open>Advisories\<close>

record parsed_vuln =
  pv_osvId :: string
  pv_aliases :: "string list"
  pv_summary :: "string option"
  pv_severity :: severity
  pv_cvssV3Score :: "rat option"
  pv_cvssV3Vector :: "string option"
  pv_cvssV4Score :: "rat option"
  pv_cvssV4Vector :: "string option"
  pv_exploitability :: exploitability_parts
  pv_fixVersion :: "string option"
  pv_fixAvailable :: bool
  pv_fixReferenceUrls :: "string list"
  pv_cweIds :: "string list"
  pv_hasExploitEvidence :: bool
  pv_evidenceUrls :: "string list"
  pv_publishedAt :: "ms option"
  pv_withdrawnAt :: "ms option"

text \<open>A JavaScript \<open>Set\<close> keeps the first occurrence of each element, in insertion order.\<close>

definition js_set :: "string list \<Rightarrow> string list" where
  "js_set xs = rev (remdups (rev xs))"

definition parse_opt_date :: "(string \<Rightarrow> ms) \<Rightarrow> string option \<Rightarrow> ms option" where
  "parse_opt_date parse_date s = (if present s then map_option parse_date s else None)"

definition parseSingleVuln :: "(string \<Rightarrow> ms) \<Rightarrow> osv_vuln \<Rightarrow> string \<Rightarrow> string \<Rightarrow> parsed_vuln" where
  "parseSingleVuln parse_date vuln pkg osvEcosystem =
     (let (score, cvssVersion, vector) = pickBestCvss (default [] (ov_severity vuln));
          v3 = (cvssVersion = V3); v4 = (cvssVersion = V4);
          cvssV3Vec = (if v3 then vector else None);
          cvssV4Vec = (if v4 then vector else None);
          (fixVersion, fixAvailable) = extractFixInfo (ov_affected vuln) pkg osvEcosystem
      in \<lparr> pv_osvId = ov_id vuln,
           pv_aliases = filter (\<lambda>i. i \<noteq> ov_id vuln) (js_set (ov_id vuln # default [] (ov_aliases vuln))),
           pv_summary = ov_summary vuln,
           pv_severity = cvssScoreToSeverity score,
           pv_cvssV3Score = (if v3 then Some score else None),
           pv_cvssV3Vector = cvssV3Vec,
           pv_cvssV4Score = (if v4 then Some score else None),
           pv_cvssV4Vector = cvssV4Vec,
           pv_exploitability = parseCvssVector (orelse cvssV3Vec cvssV4Vec),
           pv_fixVersion = fixVersion,
           pv_fixAvailable = fixAvailable,
           pv_fixReferenceUrls = extractReferenceUrls (ov_references vuln) ''FIX'',
           pv_cweIds = default [] (ov_cwe_ids vuln),
           pv_hasExploitEvidence = list_ex (\<lambda>r. ox_type r = ''EVIDENCE'') (default [] (ov_references vuln)),
           pv_evidenceUrls = extractReferenceUrls (ov_references vuln) ''EVIDENCE'',
           pv_publishedAt = parse_opt_date parse_date (ov_published vuln),
           pv_withdrawnAt = parse_opt_date parse_date (ov_withdrawn vuln) \<rparr>)"

definition jstrs :: "string list \<Rightarrow> jsval" where
  "jstrs xs = JArr (map JStr xs)"

definition vuln_finding :: "parsed_vuln \<Rightarrow> connector_finding" where
  "vuln_finding v =
     \<lparr> cf_findingId = pv_osvId v,
       cf_severity = pv_severity v,
       cf_title = pv_summary v,
       cf_publishedAt = pv_publishedAt v,
       cf_attributes =
         [(''osv_id'', JStr (pv_osvId v)),
          (''aliases'', jstrs (pv_aliases v)),
          (''cvss_v3_score'', jnum_opt (pv_cvssV3Score v)),
          (''cvss_v3_vector'', jstr_opt (pv_cvssV3Vector v)),
          (''cvss_v4_score'', jnum_opt (pv_cvssV4Score v)),
          (''cvss_v4_vector'', jstr_opt (pv_cvssV4Vector v)),
          (''attack_vector'', jstr_opt (ep_attackVector (pv_exploitability v))),
          (''attack_complexity'', jstr_opt (ep_attackComplexity (pv_exploitability v))),
          (''privileges_required'', jstr_opt (ep_privilegesRequired (pv_exploitability v))),
          (''user_interaction'', jstr_opt (ep_userInteraction (pv_exploitability v))),
          (''fix_version'', jstr_opt (pv_fixVersion v)),
          (''fix_available'', JBool (pv_fixAvailable v)),
          (''fix_reference_urls'', jstrs (pv_fixReferenceUrls v)),
          (''cwe_ids'', jstrs (pv_cweIds v)),
          (''has_exploit_evidence'', JBool (pv_hasExploitEvidence v)),
          (''evidence_urls'', jstrs (pv_evidenceUrls v)),
          (''withdrawn_at'', jstr_opt (map_option to_iso (pv_withdrawnAt v)))] \<rparr>"

definition worst_of :: "severity \<Rightarrow> parsed_vuln \<Rightarrow> severity" where
  "worst_of worst v = (if severity_index (pv_severity v) < severity_index worst then pv_severity v else worst)"

definition vuln_counts :: "parsed_vuln list \<Rightarrow> nat \<times> nat \<times> nat \<times> nat" where
  "vuln_counts vs =
     (length (filter (\<lambda>v. pv_severity v = CRITICAL) vs), length (filter (\<lambda>v. pv_severity v = HIGH) vs),
      length (filter (\<lambda>v. pv_severity v = MEDIUM) vs), length (filter (\<lambda>v. pv_severity v = LOW) vs))"

definition parseOsvResponse ::
    "(string \<Rightarrow> string option) \<Rightarrow> (string \<Rightarrow> string \<Rightarrow> bool) \<Rightarrow> (string \<Rightarrow> ms) \<Rightarrow>
     osv_vuln list option \<Rightarrow> string \<Rightarrow> string \<Rightarrow> connector_result" where
  "parseOsvResponse clean gt parse_date vulns pkg ecosystem =
     (let osvEcosystem = default ecosystem (map_of OSV_ECOSYSTEM_NAMES (js_toLowerCase ecosystem));
          parsedVulns = map (\<lambda>v. parseSingleVuln parse_date v pkg osvEcosystem) (default [] vulns);
          fixVersions = List.map_filter (\<lambda>v. opt_or_null (pv_fixVersion v)) parsedVulns
      in \<lparr> cr_findings = map vuln_finding parsedVulns,
           cr_summary = Some
             \<lparr> su_risk = None, su_findings = None, su_remediation = None,
               su_vulnerability = Some
                 \<lparr> vs_maxSeverity = foldl worst_of NONE parsedVulns,
                   vs_findingCount = length parsedVulns,
                   vs_fixAvailable = list_ex pv_fixAvailable parsedVulns,
                   vs_bestFixVersion = pickHighestVersion clean gt fixVersions,
                   vs_severityCounts = Some (vuln_counts parsedVulns) \<rparr>,
               su_other = [] \<rparr>,
           cr_ttlSeconds = None,
           cr_legacy = None \<rparr>)"

section \<open>The connector\<close>

definition osvSupportsEvent :: "artifact_event \<Rightarrow> bool" where
  "osvSupportsEvent event = (ev_kind event = Artifact_request)"

text \<open>The client is the service: what it answers to a query, or the error it raises.\<close>

definition osvFetchArtifactSignals ::
    "(string \<Rightarrow> string option) \<Rightarrow> (string \<Rightarrow> string \<Rightarrow> bool) \<Rightarrow> (string \<Rightarrow> ms) \<Rightarrow>
     (string \<Rightarrow> string \<Rightarrow> string \<Rightarrow> js_error + osv_vuln list option) \<Rightarrow>
     string \<Rightarrow> string \<Rightarrow> string \<Rightarrow> js_error + connector_result" where
  "osvFetchArtifactSignals clean gt parse_date client ecosystem pkg version =
     (case map_of OSV_ECOSYSTEM_NAMES (js_toLowerCase ecosystem) of
        None \<Rightarrow> Inl (AppError ''connector_ecosystem_unsupported'')
      | Some osvEcosystem \<Rightarrow>
          sum_bind (client osvEcosystem pkg version)
            (\<lambda>raw. Inr (parseOsvResponse clean gt parse_date raw pkg ecosystem)))"

definition osvHandleEvent ::
    "(string \<Rightarrow> string option) \<Rightarrow> (string \<Rightarrow> string \<Rightarrow> bool) \<Rightarrow> (string \<Rightarrow> ms) \<Rightarrow>
     (string \<Rightarrow> string \<Rightarrow> string \<Rightarrow> js_error + osv_vuln list option) \<Rightarrow>
     artifact_event \<Rightarrow> js_error + connector_result option" where
  "osvHandleEvent clean gt parse_date client event =
     (if \<not> osvSupportsEvent event then Inr None
      else sum_bind (osvFetchArtifactSignals clean gt parse_date client (ev_ecosystem event)
                       (ev_packageName event) (default [] (ev_version event)))
             (\<lambda>r. Inr (Some r)))"

text \<open>The data fields of a successful result.\<close>

definition osv_fields :: "connector_result \<Rightarrow> entity_context \<Rightarrow> jsobj" where
  "osv_fields r context =
     (let vulnerability = Option.bind (cr_summary r) su_vulnerability;
          n = (\<lambda>sev. length (filter (\<lambda>f. cf_severity f = sev) (cr_findings r)));
          counts = default (n CRITICAL, n HIGH, n MEDIUM, n LOW) (Option.bind vulnerability vs_severityCounts);
          num = (\<lambda>k. JNum (of_nat k))
      in [(''critical_count'', num (fst counts)),
          (''high_count'', num (fst (snd counts))),
          (''medium_count'', num (fst (snd (snd counts)))),
          (''low_count'', num (snd (snd (snd counts)))),
          (''vuln_count'', num (case vulnerability of Some v \<Rightarrow> vs_findingCount v
                                | None \<Rightarrow> length (cr_findings r))),
          (''max_severity'', JStr (case vulnerability of Some v \<Rightarrow> severity_name (vs_maxSeverity v)
                                   | None \<Rightarrow> ''NONE'')),
          (''fix_available'', JBool (case vulnerability of Some v \<Rightarrow> vs_fixAvailable v | None \<Rightarrow> False)),
          (''best_fix_version'', jstr_opt (Option.bind vulnerability vs_bestFixVersion)),
          (''scan_age_hours'', jnum_opt (ec_cacheAgeHours context))])"

definition osvNormalizeToSnapshot :: "ms \<Rightarrow> normalizer" where
  "osvNormalizeToSnapshot now result context failureStatus errorCode =
     entity_snapshot ''osv'' now context
       (case (result, failureStatus) of (Some r, None) \<Rightarrow> osv_fields r context | _ \<Rightarrow> [])
       (snapshot_meta_of context failureStatus errorCode)"

definition osvDataFields :: "connector_field list" where
  "osvDataFields = (let key = ''osv'' in [
     field_entry key ''critical_count'' ''source.osv.critical_count'' ''Critical CVE Count''
       (Some ''Number of critical severity vulnerabilities found by OSV'') ''integer'' intOps None,
     field_entry key ''high_count'' ''source.osv.high_count'' ''High CVE Count''
       (Some ''Number of high severity vulnerabilities found by OSV'') ''integer'' intOps None,
     field_entry key ''medium_count'' ''source.osv.medium_count'' ''Medium CVE Count''
       (Some ''Number of medium severity vulnerabilities found by OSV'') ''integer'' intOps None,
     field_entry key ''low_count'' ''source.osv.low_count'' ''Low CVE Count''
       (Some ''Number of low severity vulnerabilities found by OSV'') ''integer'' intOps None,
     field_entry key ''vuln_count'' ''source.osv.vuln_count'' ''Total Vulnerability Count''
       (Some ''Total number of vulnerabilities found by OSV'') ''integer'' intOps None,
     field_entry key ''max_severity'' ''source.osv.max_severity'' ''Maximum Severity''
       (Some ''Highest severity level across all found vulnerabilities'') ''string'' strOps (Some [''NONE'', ''LOW'', ''MEDIUM'', ''HIGH'', ''CRITICAL'']),
     field_entry key ''fix_available'' ''source.osv.fix_available'' ''Fix Available''
       (Some ''Whether at least one vulnerability has a known fix'') ''boolean'' boolOps None,
     field_entry key ''best_fix_version'' ''source.osv.best_fix_version'' ''Best Fix Version''
       (Some ''Highest fix version across all vulnerabilities; null if none'') ''string'' anyOps None,
     field_entry key ''scan_age_hours'' ''source.osv.scan_age_hours'' ''Scan Age (hours)''
       (Some ''How many hours ago this scan result was fetched'') ''float'' floatOps None
   ])"

definition osvMetaFields :: "connector_field list" where
  "osvMetaFields = (let key = ''osv'' in [
     field_entry key ''_meta.status'' ''source.osv._meta.status'' ''Connector Status''
       (Some ''Response status of the OSV connector for this request'') ''string'' metaStrOps (Some [''ok'', ''cache_hit'', ''timeout'', ''unavailable'', ''error'', ''background_pending'']),
     field_entry key ''_meta.response_time_ms'' ''source.osv._meta.response_time_ms'' ''Response Time (ms)''
       (Some ''How long the OSV connector call took; 0 for cache hits'') ''integer'' intOps None,
     field_entry key ''_meta.cache_age_hours'' ''source.osv._meta.cache_age_hours'' ''Cache Age (hours)''
       (Some ''Hours since the cached result was written; null on fresh fetch'') ''float'' floatOps None,
     field_entry key ''_meta.is_cache_hit'' ''source.osv._meta.is_cache_hit'' ''Is Cache Hit''
       (Some ''True if served from connector cache, false if fresh'') ''boolean'' boolOps None,
     field_entry key ''_meta.error_code'' ''source.osv._meta.error_code'' ''Error Code''
       (Some ''Machine-readable error code when status is not ok'') ''string'' anyOps None
   ])"

definition osvFieldCatalog :: "connector_field list" where
  "osvFieldCatalog = osvDataFields @ osvMetaFields"

section \<open>Scores\<close>

lemma CIA_weight: "weight CIA_W v \<in> {0, 22/100, 56/100}"
  by (auto simp: weight_def CIA_W_def default_def split: option.splits)

lemma weight_nonneg:
  "0 \<le> weight AV_W v" "0 \<le> weight AC_W v" "0 \<le> weight UI_W v" "0 \<le> weight PR_U v" "0 \<le> weight PR_C v"
  by (auto simp: weight_def AV_W_def AC_W_def UI_W_def PR_U_def PR_C_def default_def split: option.splits)

text \<open>The impact base is zero without impact, and otherwise between the lowest and full impact.\<close>

lemma isc_base:
  fixes c i a :: rat
  assumes "c \<in> {0, 22/100, 56/100}" and "i \<in> {0, 22/100, 56/100}" and "a \<in> {0, 22/100, 56/100}"
  defines "x \<equiv> 1 - (1 - c) * (1 - i) * (1 - a)"
  shows "x = 0 \<longleftrightarrow> c = 0 \<and> i = 0 \<and> a = 0" and "x = 0 \<or> 22/100 \<le> x" and "x \<le> 1"
  unfolding x_def using assms(1-3) by (elim insertE emptyE; hypsubst; simp)+

lemma changed_impact_pos:
  fixes x :: rat
  assumes "22/100 \<le> x" and "x \<le> 1"
  shows "3/4 \<le> 752/100 * (x - 29/1000) - 325/100 * (x - 2/100) ^ 15"
proof -
  have "(x - 2/100) ^ 15 \<le> (x - 2/100) ^ 1"
    using assms by (intro power_decreasing) auto
  moreover define y where "y = (x - 2/100) ^ 15"
  ultimately have "y \<le> x - 2/100" by (simp only: power_one_right)
  with assms(1) have "3/4 \<le> 752/100 * (x - 29/1000) - 325/100 * y" by (simp add: field_simps)
  then show ?thesis by (simp only: y_def)
qed

lemma cvss_roundup_bounds:
  assumes "3/4 \<le> x" and "x \<le> 10"
  shows "0 < cvss_roundup x" and "cvss_roundup x \<le> 10"
proof -
  have "math_round (x * 100000) \<ge> 75000"
    using assms(1) by (simp add: math_round_def le_floor_iff)
  then have "0 < \<lceil>of_int (math_round (x * 100000)) / (10000 :: rat)\<rceil>"
    by simp
  then show "0 < cvss_roundup x" by (simp add: cvss_roundup_def)
  have "x * 100000 + 1 / 2 < of_int 1000001"
    using assms(2) by simp
  then have "math_round (x * 100000) \<le> 1000000"
    using floor_less_iff [of "x * 100000 + 1 / 2" 1000001] by (simp add: math_round_def)
  then have "of_int (math_round (x * 100000)) \<le> (of_int 1000000 :: rat)"
    by (simp only: of_int_le_iff)
  then have "of_int (math_round (x * 100000)) / (10000 :: rat) \<le> of_int 100"
    by simp
  then have "\<lceil>of_int (math_round (x * 100000)) / (10000 :: rat)\<rceil> \<le> 100"
    by (simp only: ceiling_le_iff)
  then have "(of_int \<lceil>of_int (math_round (x * 100000)) / (10000 :: rat)\<rceil> :: rat) \<le> of_int 100"
    by (simp only: of_int_le_iff)
  then show "cvss_roundup x \<le> 10" by (simp add: cvss_roundup_def)
qed

lemma computeCvssV3BaseScore_bounds:
  "0 \<le> computeCvssV3BaseScore vector \<and> computeCvssV3BaseScore vector \<le> 10 \<and>
   (computeCvssV3BaseScore vector = 0 \<longleftrightarrow>
      (\<forall>k \<in> {''C'', ''I'', ''A''}. weight CIA_W (parseCvssSegments vector k) = 0))"
proof -
  define parts where "parts = parseCvssSegments vector"
  define c i a where cia: "c = weight CIA_W (parts ''C'')" "i = weight CIA_W (parts ''I'')" "a = weight CIA_W (parts ''A'')"
  define s where "s = default ''U'' (parts ''S'')"
  define ex where "ex = 822/100 * weight AV_W (parts ''AV'') * weight AC_W (parts ''AC'') *
      weight (if s = ''C'' then PR_C else PR_U) (parts ''PR'') * weight UI_W (parts ''UI'')"
  define x where "x = 1 - (1 - c) * (1 - i) * (1 - a)"
  define imp where "imp = (if s = ''U'' then 642/100 * x
                         else 752/100 * (x - 29/1000) - 325/100 * (x - 2/100) ^ 15)"
  define b where "b = (if s = ''U'' then min (imp + ex) 10 else min (108/100 * (imp + ex)) 10)"
  note isc = isc_base [OF CIA_weight CIA_weight CIA_weight, of "parts ''C''" "parts ''I''" "parts ''A''",
      folded cia, folded x_def]
  have score: "computeCvssV3BaseScore vector = (if x \<le> 0 then 0 else cvss_roundup b)"
    by (simp add: computeCvssV3BaseScore_def Let_def parts_def cia s_def ex_def x_def imp_def b_def)
  have ex: "0 \<le> ex" by (simp add: ex_def weight_nonneg)
  have "0 < cvss_roundup b \<and> cvss_roundup b \<le> 10" if "22/100 \<le> x"
  proof -
    have "3/4 \<le> imp"
      using that isc(3) changed_impact_pos by (simp add: imp_def)
    then have "3/4 \<le> b" "b \<le> 10" using ex by (auto simp: b_def min_def)
    then show ?thesis using cvss_roundup_bounds by blast
  qed
  then show ?thesis
    using isc by (auto simp: score cia parts_def)
qed

lemma extractNumericScore_bounds: "0 \<le> extractNumericScore s \<and> extractNumericScore s \<le> 10"
  using computeCvssV3BaseScore_bounds [of s] by (auto simp: extractNumericScore_def split: jsnum.splits)

lemma parseFloat_CVSS: "js_parseFloat (CHR ''C'' # r) = NaN"
  by (simp add: js_parseFloat_def is_js_space_def code_unit_def parse_signed_def Let_def parse_decimal_def
      is_digit_def js_startsWith_def)

section \<open>The connector contract\<close>

lemma osv_fields_keys:
  "map fst (osv_fields r c) = [''critical_count'', ''high_count'', ''medium_count'', ''low_count'',
     ''vuln_count'', ''max_severity'', ''fix_available'', ''best_fix_version'', ''scan_age_hours'']"
  by (simp add: osv_fields_def Let_def)

interpretation osv: snapshot_provider "''osv''" "osvNormalizeToSnapshot now"
proof (rule snapshot_provider_entity)
  show "osvNormalizeToSnapshot now r c st e = entity_snapshot ''osv'' now c
      (case (r, st) of (Some x, None) \<Rightarrow> osv_fields x c | _ \<Rightarrow> []) (snapshot_meta_of c st e)" for r c st e
    by (simp add: osvNormalizeToSnapshot_def)
  show "distinct (map fst (case (r, st) of (Some x, None) \<Rightarrow> osv_fields x c | _ \<Rightarrow> []))" for r c and st :: "snapshot_status option"
    by (simp add: osv_fields_keys split: option.split)
  show "list_all (\<lambda>k. \<not> js_startsWith k ''_meta.'') (map fst (case (r, st) of (Some x, None) \<Rightarrow> osv_fields x c | _ \<Rightarrow> []))"
    for r c and st :: "snapshot_status option"
    by (simp add: osv_fields_keys js_startsWith_def split: option.split)
qed (simp_all add: plain_key_def)

section \<open>Aggregation\<close>

lemma worst_of_le: "foldl worst_of w vs \<le> w \<and> (\<forall>v \<in> set vs. foldl worst_of w vs \<le> pv_severity v) \<and>
    (foldl worst_of w vs = w \<or> (\<exists>v \<in> set vs. foldl worst_of w vs = pv_severity v))"
proof (induction vs arbitrary: w)
  case (Cons v vs)
  have "worst_of w v \<le> w" "worst_of w v \<le> pv_severity v" "worst_of w v = w \<or> worst_of w v = pv_severity v"
    by (auto simp: worst_of_def less_eq_severity_def)
  with Cons [of "worst_of w v"] show ?case
    by (simp only: foldl_Cons list.set) (auto intro: order_trans)
qed simp

lemma counts_total:
  "(case vuln_counts vs of (c, h, m, l) \<Rightarrow> c + h + m + l) + length (filter (\<lambda>v. pv_severity v = NONE) vs) = length vs"
proof (induction vs)
  case (Cons v vs)
  then show ?case by (cases "pv_severity v") (simp_all add: vuln_counts_def)
qed (simp add: vuln_counts_def)

text \<open>A fold that keeps the greater of two elements ends with one that no element exceeds.\<close>

lemma foldl_best:
  assumes "\<And>x y. \<not> gt x y \<or> \<not> gt y x" and "\<And>x y z. \<not> gt x y \<Longrightarrow> \<not> gt y z \<Longrightarrow> \<not> gt x z"
    and irr: "\<And>x. \<not> gt x x"
  shows "foldl (\<lambda>b x. if gt (f x) (f b) then x else b) v vs \<in> set (v # vs) \<and>
         (\<forall>x \<in> set (v # vs). \<not> gt (f x) (f (foldl (\<lambda>b x. if gt (f x) (f b) then x else b) v vs)))"
proof (induction vs arbitrary: v)
  case (Cons w vs)
  let ?b = "if gt (f w) (f v) then w else v"
  have "\<not> gt (f v) (f ?b)" "\<not> gt (f w) (f ?b)" "?b \<in> {v, w}"
    using assms(1) [of "f v" "f w"] irr by auto
  note b = this
  let ?B = "foldl (\<lambda>b x. if gt (f x) (f b) then x else b) ?b vs"
  have B: "?B \<in> set (?b # vs)" "\<not> gt (f ?b) (f ?B)" "\<forall>x \<in> set vs. \<not> gt (f x) (f ?B)"
    using Cons [of ?b] by simp_all
  have "\<not> gt (f v) (f ?B)" "\<not> gt (f w) (f ?B)"
    using assms(2) [OF b(1) B(2)] assms(2) [OF b(2) B(2)] by blast+
  moreover have "?B \<in> set (v # w # vs)"
    using B(1) b(3) by auto
  ultimately show ?case
    using B(3) unfolding foldl_Cons by simp
qed (simp add: irr)

section \<open>Properties\<close>


text \<open>
  An advisory scored with a CVSS v4 vector and no v3 one gets score 0 and severity NONE,
  whatever the vector says, so it counts neither in the severity counts nor in the maximum.
\<close>

theorem cvss_v4_unscored:
  assumes "ov_severity vuln = Some entries" and "\<forall>e \<in> set entries. os_type e \<noteq> ''CVSS_V3''"
    and "find (\<lambda>e. os_type e = ''CVSS_V4'') entries = Some e" and "js_startsWith (os_score e) ''CVSS:4''"
  shows "pv_severity (parseSingleVuln parse_date vuln pkg eco) = NONE \<and>
         pv_cvssV4Score (parseSingleVuln parse_date vuln pkg eco) = Some 0"
proof -
  obtain r where r: "os_score e = ''CVSS:4'' @ r"
    using assms(4) by (auto simp: js_startsWith_iff)
  have "extractNumericScore (os_score e) = 0"
    unfolding r by (simp add: extractNumericScore_def parseFloat_CVSS js_startsWith_def)
  moreover have "find (\<lambda>e. os_type e = ''CVSS_V3'') entries = None"
    using assms(2) by (simp add: find_None_iff)
  ultimately have "pickBestCvss entries = (0, V4, Some (os_score e))"
    using assms(3) by (simp add: pickBestCvss_def)
  then show ?thesis
    using assms(1) by (simp add: parseSingleVuln_def default_def cvssScoreToSeverity_def Let_def split: prod.split)
qed

definition v4_advisory :: osv_vuln where
  "v4_advisory = \<lparr> ov_id = ''GHSA-4'', ov_aliases = None, ov_summary = None,
     ov_severity = Some [\<lparr> os_type = ''CVSS_V4'', os_score = ''CVSS:4.0/AV:N/AC:L/AT:N/PR:N/UI:N/VC:H/VI:H/VA:H/SC:H/SI:H/SA:H'' \<rparr>],
     ov_affected = None, ov_references = None, ov_cwe_ids = None, ov_published = None, ov_modified = None,
     ov_withdrawn = None \<rparr>"

theorem cvss_v4_unscored_witness:
  "pv_severity (parseSingleVuln (\<lambda>_. 0) v4_advisory ''left-pad'' ''npm'') = NONE"
  using cvss_v4_unscored [of v4_advisory "the (ov_severity v4_advisory)" "hd (the (ov_severity v4_advisory))"
      "\<lambda>_. 0" "''left-pad''" "''npm''"]
  by (simp add: v4_advisory_def js_startsWith_def)

text \<open>
  The summary of a response describes its findings: as many findings as advisories, a maximum
  severity that no advisory exceeds and that one attains unless it is NONE, and severity counts that
  add up to the number of advisories above NONE.
\<close>

theorem osv_summary_sound:
  assumes "parseOsvResponse clean gt parse_date vulns pkg eco = r"
  shows "\<exists>v. cr_summary r = Some \<lparr> su_risk = None, su_findings = None, su_remediation = None,
                                  su_vulnerability = Some v, su_other = [] \<rparr> \<and>
           vs_findingCount v = length (cr_findings r) \<and>
           length (cr_findings r) = length (default [] vulns) \<and>
           (\<forall>f \<in> set (cr_findings r). vs_maxSeverity v \<le> cf_severity f) \<and>
           (vs_maxSeverity v = NONE \<or> (\<exists>f \<in> set (cr_findings r). vs_maxSeverity v = cf_severity f)) \<and>
           (\<exists>c h m l. vs_severityCounts v = Some (c, h, m, l) \<and>
              c + h + m + l + length (filter (\<lambda>f. cf_severity f = NONE) (cr_findings r)) = length (cr_findings r))"
proof -
  let ?eco = "default eco (map_of OSV_ECOSYSTEM_NAMES (js_toLowerCase eco))"
  define ps where "ps = map (\<lambda>v. parseSingleVuln parse_date v pkg ?eco) (default [] vulns)"
  have sev: "cf_severity (vuln_finding p) = pv_severity p" for p by (simp add: vuln_finding_def)
  have fs: "cr_findings r = map vuln_finding ps"
    by (simp add: assms [symmetric] parseOsvResponse_def Let_def ps_def)
  define V where "V = \<lparr> vs_maxSeverity = foldl worst_of NONE ps, vs_findingCount = length ps,
      vs_fixAvailable = list_ex pv_fixAvailable ps,
      vs_bestFixVersion = pickHighestVersion clean gt (List.map_filter (\<lambda>v. opt_or_null (pv_fixVersion v)) ps),
      vs_severityCounts = Some (vuln_counts ps) \<rparr>"
  have "cr_summary r = Some \<lparr> su_risk = None, su_findings = None, su_remediation = None,
      su_vulnerability = Some V, su_other = [] \<rparr>"
    by (simp add: assms [symmetric] parseOsvResponse_def Let_def ps_def V_def)
  moreover have "vs_findingCount V = length (cr_findings r)" "length (cr_findings r) = length (default [] vulns)"
    by (simp_all add: V_def fs) (simp add: ps_def)
  moreover have "\<forall>f \<in> set (cr_findings r). vs_maxSeverity V \<le> cf_severity f"
    "vs_maxSeverity V = NONE \<or> (\<exists>f \<in> set (cr_findings r). vs_maxSeverity V = cf_severity f)"
    using worst_of_le [of NONE ps] by (auto simp: V_def fs sev)
  moreover have "\<exists>c h m l. vs_severityCounts V = Some (c, h, m, l) \<and>
      c + h + m + l + length (filter (\<lambda>f. cf_severity f = NONE) (cr_findings r)) = length (cr_findings r)"
    using counts_total [of ps] by (cases "vuln_counts ps") (simp add: V_def fs filter_map comp_def sev)
  ultimately show ?thesis by blast
qed

theorem osv_summary_sound_witness:
  "\<exists>v. cr_summary (parseOsvResponse Some (\<lambda>_ _. False) (\<lambda>_. 0) (Some [v4_advisory]) ''left-pad'' ''npm'') =
         Some \<lparr> su_risk = None, su_findings = None, su_remediation = None, su_vulnerability = Some v, su_other = [] \<rparr> \<and>
       vs_findingCount v = 1"
  using osv_summary_sound [OF refl, of Some "\<lambda>_ _. False" "\<lambda>_. 0" "Some [v4_advisory]" "''left-pad''" "''npm''"]
  by (auto simp: default_def)

text \<open>
  The fix version recommended for several advisories is one of theirs and, when the version
  library reads them all and its comparison is a strict weak order, none of them is greater.
\<close>

theorem pickHighestVersion_greatest:
  assumes "\<And>x y. \<not> gt x y \<or> \<not> gt y x" and "\<And>x y z. \<not> gt x y \<Longrightarrow> \<not> gt y z \<Longrightarrow> \<not> gt x z"
    and "versions \<noteq> []" and "\<forall>v \<in> set versions. clean v \<noteq> None"
  shows "\<exists>best \<in> set versions. pickHighestVersion clean gt versions = Some best \<and>
           (\<forall>v \<in> set versions. \<not> gt (the (clean v)) (the (clean best)))"
proof -
  have irr: "\<not> gt x x" for x using assms(1) by blast
  obtain v vs where vs: "versions = v # vs" using assms(3) by (cases versions) auto
  show ?thesis
  proof (cases vs)
    case Nil
    then show ?thesis by (simp add: vs pickHighestVersion_def irr)
  next
    case (Cons w ws)
    have "list_all (\<lambda>v. clean v \<noteq> None) versions"
      using assms(4) by (simp add: list_all_iff)
    with foldl_best [of gt "\<lambda>v. the (clean v)" v vs, OF assms(1,2) irr] show ?thesis
      by (simp add: vs Cons pickHighestVersion_def)
  qed
qed

theorem pickHighestVersion_greatest_witness:
  "\<exists>best \<in> set [''1.2.0'', ''1.10.0'']. pickHighestVersion Some (\<lambda>x y. length x > length y) [''1.2.0'', ''1.10.0''] = Some best \<and>
     (\<forall>v \<in> set [''1.2.0'', ''1.10.0'']. \<not> length (the (Some v)) > length (the (Some best)))"
  by (rule pickHighestVersion_greatest) auto

text \<open>
  The catalog of the vulnerability connector fits the expression engine, and it declares
  exactly the data fields a successful snapshot has.
\<close>

theorem osv_catalog_complete:
  "catalog_ok ''osv'' osvFieldCatalog \<and> map fl_fieldKey osvDataFields = map fst (osv_fields r c)"
  unfolding osv_fields_keys by (rule conjI) code_simp+

end
