(* ===== verification/Contributor.thy ===== *)
theory Contributor
  imports Registry Identity
begin

text \<open>
  The contributor risk connector: the scorer (\<open>connectors/contributor/scorer.ts\<close>), and from
  \<open>connectors/contributor/index.ts\<close> the tiers, the time to live by age of the release, the result, the
  snapshot and the field catalog. Reading the stored facts from the database is in the theory
  \<open>Contributor_Facts\<close>.
\<close>

section \<open>Signals and their score\<close>

record contributor_signals =
  sg_version :: string
  sg_publishedAt :: ms
  sg_publisher :: "string option"
  sg_publisherSeenBeforePackage :: "bool option"
  sg_publisherSeenCountBefore :: "int option"
  sg_publisherMatchesPriorVersion :: "bool option"
  sg_priorVersionPublisher :: "string option"
  sg_maintainerSetChanged :: "bool option"
  sg_newMaintainerCount :: "int option"
  sg_removedMaintainerCount :: "int option"
  sg_maintainerCount :: "int option"
  sg_hasInstallScripts :: "bool option"
  sg_hasProvenance :: "bool option"
  sg_hasTrustedPublisher :: "bool option"
  sg_releaseVelocity7d :: "int option"
  sg_releaseVelocity30d :: "int option"
  sg_historyComplete :: "bool option"

definition SCORE_MODEL_VERSION :: string where
  "SCORE_MODEL_VERSION = ''3.0''"

definition contributorAgeDecayMultiplier :: "ms \<Rightarrow> ms \<Rightarrow> rat" where
  "contributorAgeDecayMultiplier now publishedAt =
     (let ageDays = of_int (now - publishedAt) / (86400000 :: rat)
      in if ageDays \<le> 30 then 1 else if ageDays \<le> 90 then 3/4 else if ageDays \<le> 180 then 1/2
         else if ageDays \<le> 365 then 1/4 else 1/10)"

definition decayFactor :: "int option \<Rightarrow> rat \<Rightarrow> rat option" where
  "decayFactor v multiplier = map_option (\<lambda>x. of_int (math_round (of_int x * multiplier))) v"

fun velocity_score :: "int \<Rightarrow> (int \<times> int) list \<Rightarrow> int" where
  "velocity_score v [] = 0"
| "velocity_score v ((minimum, score) # ts) = (if v \<ge> minimum then score else velocity_score v ts)"

definition velocityFactor :: "int option \<Rightarrow> (int \<times> int) list \<Rightarrow> int option" where
  "velocityFactor v thresholds = map_option (\<lambda>x. velocity_score x thresholds) v"

text \<open>\<open>Number(x.toFixed(2))\<close>\<close>

definition to_fixed2 :: "rat \<Rightarrow> rat" where
  "to_fixed2 x = of_int (math_round (x * 100)) / 100"

definition raw_factors :: "ms \<Rightarrow> contributor_signals \<Rightarrow> (string \<times> rat option) list" where
  "raw_factors now s =
     (let m = contributorAgeDecayMultiplier now (sg_publishedAt s)
      in [(''first_time_publisher'',
             decayFactor (Some (if sg_publisherSeenBeforePackage s = Some False then 25 else 0)) m),
          (''publisher_changed'',
             decayFactor (Some (if sg_publisherMatchesPriorVersion s = Some False then 20 else 0)) m),
          (''maintainer_set_changed'',
             decayFactor (Some (if sg_maintainerSetChanged s = Some True then 12 else 0)) m),
          (''new_maintainers'', decayFactor (map_option (\<lambda>n. min (n * 8) 24) (sg_newMaintainerCount s)) m),
          (''removed_maintainers'', decayFactor (map_option (\<lambda>n. min (n * 4) 12) (sg_removedMaintainerCount s)) m),
          (''install_scripts'', Some (if sg_hasInstallScripts s = Some True then 25 else 0)),
          (''missing_provenance'', Some (if sg_hasProvenance s = Some False then 10 else 0)),
          (''release_velocity_7d'',
             decayFactor (velocityFactor (sg_releaseVelocity7d s) [(5, 12), (3, 8), (2, 4)]) m),
          (''release_velocity_30d'',
             decayFactor (velocityFactor (sg_releaseVelocity30d s) [(12, 8), (8, 5)]) m),
          (''trusted_publisher_reduction'', Some (if sg_hasTrustedPublisher s = Some True then -10 else 0)),
          (''age_decay_multiplier'', Some (to_fixed2 m))])"

definition signal_entries :: "contributor_signals \<Rightarrow> jsobj" where
  "signal_entries s =
     (let num = (\<lambda>x. jnum_opt (map_option of_int x))
      in [(''version'', JStr (sg_version s)),
          (''publishedAt'', JStr (to_iso (sg_publishedAt s))),
          (''publisher'', jstr_opt (sg_publisher s)),
          (''publisherSeenBeforePackage'', jbool_opt (sg_publisherSeenBeforePackage s)),
          (''publisherSeenCountBefore'', num (sg_publisherSeenCountBefore s)),
          (''publisherMatchesPriorVersion'', jbool_opt (sg_publisherMatchesPriorVersion s)),
          (''priorVersionPublisher'', jstr_opt (sg_priorVersionPublisher s)),
          (''maintainerSetChanged'', jbool_opt (sg_maintainerSetChanged s)),
          (''newMaintainerCount'', num (sg_newMaintainerCount s)),
          (''removedMaintainerCount'', num (sg_removedMaintainerCount s)),
          (''maintainerCount'', num (sg_maintainerCount s)),
          (''hasInstallScripts'', jbool_opt (sg_hasInstallScripts s)),
          (''hasProvenance'', jbool_opt (sg_hasProvenance s)),
          (''hasTrustedPublisher'', jbool_opt (sg_hasTrustedPublisher s)),
          (''releaseVelocity7d'', num (sg_releaseVelocity7d s)),
          (''releaseVelocity30d'', num (sg_releaseVelocity30d s)),
          (''historyComplete'', jbool_opt (sg_historyComplete s))])"

record scored_signals = contributor_signals +
  ss_score :: rat
  ss_scoreModelVersion :: string
  ss_rawFactors :: "(string \<times> rat option) list"
  ss_signalsAvailable :: "string list"

definition factor_sum :: "(string \<times> rat option) list \<Rightarrow> rat" where
  "factor_sum fs = foldl (\<lambda>sum (_, v). sum + default 0 v) 0 fs"

definition score_signals :: "ms \<Rightarrow> contributor_signals \<Rightarrow> scored_signals" where
  "score_signals now s =
     contributor_signals.extend s
       (scored_signals.fields (max 0 (min 100 (factor_sum (raw_factors now s)))) SCORE_MODEL_VERSION
          (raw_factors now s)
          (map fst (filter (\<lambda>(_, v). v \<noteq> JNull) (signal_entries s))))"

section \<open>Tiers, time to live and the result\<close>

definition scoreToTier :: "rat \<Rightarrow> severity" where
  "scoreToTier score =
     (if score \<ge> 80 then HIGH else if score \<ge> 40 then MEDIUM else if score > 0 then LOW else NONE)"

definition versionAgeTtlSeconds :: "ms \<Rightarrow> ms \<Rightarrow> int option \<Rightarrow> int" where
  "versionAgeTtlSeconds now publishedAt cacheTtlOverrideSeconds =
     (case cacheTtlOverrideSeconds of
        Some t \<Rightarrow> t
      | None \<Rightarrow>
          let ageDays = of_int (now - publishedAt) / (86400000 :: rat)
          in if ageDays < 1 then 3600 else if ageDays < 7 then 21600 else if ageDays < 30 then 86400 else 259200)"

definition contributorEmptyResult :: connector_result where
  "contributorEmptyResult =
     \<lparr> cr_findings = [],
       cr_summary = Some \<lparr> su_risk = Some \<lparr> rs_tier = NONE, rs_score = Some 0 \<rparr>,
                           su_findings = Some 0,
                           su_remediation = Some \<lparr> rm_available = False, rm_best = None \<rparr>,
                           su_vulnerability = None, su_other = [] \<rparr>,
       cr_ttlSeconds = None, cr_legacy = None \<rparr>"

definition scoreToConnectorResult ::
    "string \<Rightarrow> string \<Rightarrow> string \<Rightarrow> scored_signals \<Rightarrow> severity \<Rightarrow> int option \<Rightarrow> connector_result" where
  "scoreToConnectorResult ecosystem pkg version scored scoreTier ttlSeconds =
     (let normalizedScore = math_round (ss_score scored);
          num = (\<lambda>x. jnum_opt (map_option of_int x))
      in \<lparr> cr_findings =
             [\<lparr> cf_findingId = ecosystem @ '':'' @ pkg @ ''@'' @ version @ '':contributor_signals'',
                cf_severity = scoreTier,
                cf_title = Some (''Contributor risk score: '' @ show_int normalizedScore),
                cf_publishedAt = Some (sg_publishedAt scored),
                cf_attributes =
                  [(''score'', JNum (of_int normalizedScore)),
                   (''score_model_version'', JStr SCORE_MODEL_VERSION),
                   (''publisher'', jstr_opt (sg_publisher scored)),
                   (''publisher_seen_before_package'', jbool_opt (sg_publisherSeenBeforePackage scored)),
                   (''publisher_seen_count_before'', num (sg_publisherSeenCountBefore scored)),
                   (''publisher_matches_prior_version'', jbool_opt (sg_publisherMatchesPriorVersion scored)),
                   (''prior_version_publisher'', jstr_opt (sg_priorVersionPublisher scored)),
                   (''maintainer_set_changed'', jbool_opt (sg_maintainerSetChanged scored)),
                   (''new_maintainer_count'', num (sg_newMaintainerCount scored)),
                   (''removed_maintainer_count'', num (sg_removedMaintainerCount scored)),
                   (''maintainer_count'', num (sg_maintainerCount scored)),
                   (''has_install_scripts'', jbool_opt (sg_hasInstallScripts scored)),
                   (''has_provenance'', jbool_opt (sg_hasProvenance scored)),
                   (''has_trusted_publisher'', jbool_opt (sg_hasTrustedPublisher scored)),
                   (''release_velocity_7d'', num (sg_releaseVelocity7d scored)),
                   (''release_velocity_30d'', num (sg_releaseVelocity30d scored)),
                   (''history_complete'', jbool_opt (sg_historyComplete scored)),
                   (''published_at'', JStr (to_iso (sg_publishedAt scored))),
                   (''raw_factors'', JObj (map (\<lambda>(k, v). (k, jnum_opt v)) (ss_rawFactors scored))),
                   (''signals_available'', JArr (map JStr (ss_signalsAvailable scored)))] \<rparr>],
           cr_summary = Some \<lparr> su_risk = Some \<lparr> rs_tier = scoreTier, rs_score = Some (of_int normalizedScore) \<rparr>,
                               su_findings = Some 1,
                               su_remediation = Some \<lparr> rm_available = False, rm_best = None \<rparr>,
                               su_vulnerability = None, su_other = [] \<rparr>,
           cr_ttlSeconds = ttlSeconds,
           cr_legacy = None \<rparr>)"

section \<open>The connector\<close>

definition contributorSupportsEvent :: "artifact_event \<Rightarrow> bool" where
  "contributorSupportsEvent event =
     (js_toLowerCase (ev_ecosystem event) = ''npm'' \<and> ev_kind event = Artifact_request \<and> ev_version event \<noteq> None)"

text \<open>\<open>stored\<close> is what \<open>loadStoredSignals\<close> finds for the canonical identity.\<close>

definition contributorFetchArtifactSignals ::
    "ms \<Rightarrow> int option \<Rightarrow> (string \<Rightarrow> string \<Rightarrow> string \<Rightarrow> contributor_signals option) \<Rightarrow>
     string \<Rightarrow> string \<Rightarrow> string \<Rightarrow> js_error + connector_result" where
  "contributorFetchArtifactSignals now ttlOverride stored ecosystem pkg version =
     (let identity = canonicalizePackageIdentity
            \<lparr> pi_ecosystem = ecosystem, pi_package = pkg, pi_version = Some version \<rparr>
      in if pi_ecosystem identity \<noteq> ''npm'' then Inr contributorEmptyResult
         else if \<not> present (pi_version identity) then Inr contributorEmptyResult
         else
           let v = the (pi_version identity)
           in case stored (pi_ecosystem identity) (pi_package identity) v of
                None \<Rightarrow> Inl (AppError ''contributor_facts_unavailable'')
              | Some s \<Rightarrow>
                  let scored = score_signals now s
                  in Inr (scoreToConnectorResult (pi_ecosystem identity) (pi_package identity) v scored
                       (scoreToTier (ss_score scored))
                       (Some (versionAgeTtlSeconds now (sg_publishedAt s) ttlOverride))))"

definition contributorHandleEvent ::
    "ms \<Rightarrow> int option \<Rightarrow> (string \<Rightarrow> string \<Rightarrow> string \<Rightarrow> contributor_signals option) \<Rightarrow>
     artifact_event \<Rightarrow> js_error + connector_result option" where
  "contributorHandleEvent now ttlOverride stored event =
     (if \<not> contributorSupportsEvent event then Inr None
      else sum_bind (contributorFetchArtifactSignals now ttlOverride stored (ev_ecosystem event)
                       (ev_packageName event) (the (ev_version event)))
             (\<lambda>r. Inr (Some r)))"

definition contributor_fields :: "connector_result \<Rightarrow> entity_context \<Rightarrow> jsobj" where
  "contributor_fields r context =
     (let attributes = (case cr_findings r of [] \<Rightarrow> [] | f # _ \<Rightarrow> cf_attributes f);
          risk = Option.bind (cr_summary r) su_risk;
          att = (\<lambda>k. (k, coalesce (obj_get attributes k) JNull))
      in [(''contributor_risk_score'', JNum (default 0 (Option.bind risk rs_score))),
          (''score_tier'', JStr (case risk of Some x \<Rightarrow> severity_name (rs_tier x) | None \<Rightarrow> ''NONE'')),
          (''score_model_version'', coalesce (obj_get attributes ''score_model_version'') (JStr SCORE_MODEL_VERSION)),
          att ''publisher_seen_before_package'',
          att ''publisher_seen_count_before'',
          att ''publisher_matches_prior_version'',
          att ''maintainer_set_changed'',
          att ''new_maintainer_count'',
          att ''removed_maintainer_count'',
          att ''maintainer_count'',
          att ''has_install_scripts'',
          att ''has_provenance'',
          att ''has_trusted_publisher'',
          att ''release_velocity_7d'',
          att ''release_velocity_30d'',
          att ''history_complete'',
          (''scan_age_hours'', jnum_opt (ec_cacheAgeHours context))])"

definition contributorNormalizeToSnapshot :: "ms \<Rightarrow> normalizer" where
  "contributorNormalizeToSnapshot now result context failureStatus errorCode =
     entity_snapshot ''contributor'' now context
       (case (result, failureStatus) of (Some r, None) \<Rightarrow> contributor_fields r context | _ \<Rightarrow> [])
       (snapshot_meta_of context failureStatus errorCode)"

definition contributorPublisherFields :: "connector_field list" where
  "contributorPublisherFields = (let key = ''contributor'' in [
     field_entry key ''contributor_risk_score'' ''source.contributor.contributor_risk_score'' ''Contributor Risk Score''
       (Some ''Composite risk score 0-100 based on publish-history and maintainer continuity signals'') ''integer'' intOps None,
     field_entry key ''score_tier'' ''source.contributor.score_tier'' ''Risk Tier''
       (Some ''Bucketed contributor risk tier'') ''string'' strOps (Some [''NONE'', ''LOW'', ''MEDIUM'', ''HIGH'']),
     field_entry key ''score_model_version'' ''source.contributor.score_model_version'' ''Score Model Version''
       (Some ''Contributor score model version used for this evaluation'') ''string'' strOps None,
     field_entry key ''publisher_seen_before_package'' ''source.contributor.publisher_seen_before_package'' ''Publisher Seen Before''
       (Some ''True when this publish actor was already seen on an earlier version of the same package'') ''boolean'' boolOps None,
     field_entry key ''publisher_seen_count_before'' ''source.contributor.publisher_seen_count_before'' ''Prior Publisher Uses''
       (Some ''How many earlier versions of this package were published by the same actor'') ''integer'' intOps None,
     field_entry key ''publisher_matches_prior_version'' ''source.contributor.publisher_matches_prior_version'' ''Publisher Matches Prior Version''
       (Some ''True when the publish actor matches the immediately prior version'') ''boolean'' boolOps None,
     field_entry key ''maintainer_set_changed'' ''source.contributor.maintainer_set_changed'' ''Maintainer Set Changed''
       (Some ''True when the maintainer set differs from the immediately prior version'') ''boolean'' boolOps None,
     field_entry key ''new_maintainer_count'' ''source.contributor.new_maintainer_count'' ''New Maintainer Count''
       (Some ''Number of maintainers added versus the prior version'') ''integer'' intOps None,
     field_entry key ''removed_maintainer_count'' ''source.contributor.removed_maintainer_count'' ''Removed Maintainer Count''
       (Some ''Number of maintainers removed versus the prior version'') ''integer'' intOps None,
     field_entry key ''maintainer_count'' ''source.contributor.maintainer_count'' ''Maintainer Count''
       (Some ''Maintainer count observed on this version'') ''integer'' intOps None,
     field_entry key ''has_install_scripts'' ''source.contributor.has_install_scripts'' ''Has Install Scripts''
       (Some ''Whether install, preinstall, or postinstall scripts were observed'') ''boolean'' boolOps None
   ])"

definition contributorReleaseFields :: "connector_field list" where
  "contributorReleaseFields = (let key = ''contributor'' in [
     field_entry key ''has_provenance'' ''source.contributor.has_provenance'' ''Has Provenance''
       (Some ''Whether provenance or attestation data was observed'') ''boolean'' boolOps None,
     field_entry key ''has_trusted_publisher'' ''source.contributor.has_trusted_publisher'' ''Trusted Publisher''
       (Some ''Whether the release used a trusted publisher flow'') ''boolean'' boolOps None,
     field_entry key ''release_velocity_7d'' ''source.contributor.release_velocity_7d'' ''Release Velocity 7d''
       (Some ''How many releases landed in the prior seven-day window at publish time'') ''integer'' intOps None,
     field_entry key ''release_velocity_30d'' ''source.contributor.release_velocity_30d'' ''Release Velocity 30d''
       (Some ''How many releases landed in the prior 30-day window at publish time'') ''integer'' intOps None,
     field_entry key ''history_complete'' ''source.contributor.history_complete'' ''History Complete''
       (Some ''Whether contributor history for this package is known to be complete'') ''boolean'' boolOps None,
     field_entry key ''scan_age_hours'' ''source.contributor.scan_age_hours'' ''Scan Age (hours)''
       (Some ''How old the cached contributor score is'') ''float'' floatOps None
   ])"

definition contributorMetaFields :: "connector_field list" where
  "contributorMetaFields = (let key = ''contributor'' in [
     field_entry key ''_meta.status'' ''source.contributor._meta.status'' ''Connector Status''
       (Some ''Contributor connector response status'') ''string'' metaStrOps (Some [''ok'', ''cache_hit'', ''timeout'', ''unavailable'', ''error'', ''background_pending'']),
     field_entry key ''_meta.response_time_ms'' ''source.contributor._meta.response_time_ms'' ''Response Time (ms)''
       (Some ''Contributor connector evaluation latency'') ''integer'' intOps None,
     field_entry key ''_meta.cache_age_hours'' ''source.contributor._meta.cache_age_hours'' ''Cache Age (hours)''
       (Some ''Hours since the cached contributor score was written'') ''float'' floatOps None,
     field_entry key ''_meta.is_cache_hit'' ''source.contributor._meta.is_cache_hit'' ''Is Cache Hit''
       (Some ''True when the contributor result came from cache'') ''boolean'' boolOps None,
     field_entry key ''_meta.error_code'' ''source.contributor._meta.error_code'' ''Error Code''
       (Some ''Machine-readable connector error code'') ''string'' anyOps None
   ])"

definition contributorFieldCatalog :: "connector_field list" where
  "contributorFieldCatalog = contributorPublisherFields @ contributorReleaseFields @ contributorMetaFields"

section \<open>The connector contract\<close>

lemma contributor_fields_keys:
  "map fst (contributor_fields r c) = [''contributor_risk_score'', ''score_tier'', ''score_model_version'',
     ''publisher_seen_before_package'', ''publisher_seen_count_before'', ''publisher_matches_prior_version'',
     ''maintainer_set_changed'', ''new_maintainer_count'', ''removed_maintainer_count'', ''maintainer_count'',
     ''has_install_scripts'', ''has_provenance'', ''has_trusted_publisher'', ''release_velocity_7d'',
     ''release_velocity_30d'', ''history_complete'', ''scan_age_hours'']"
  by (simp add: contributor_fields_def Let_def)

interpretation contributor: snapshot_provider "''contributor''" "contributorNormalizeToSnapshot now"
proof (rule snapshot_provider_entity)
  show "contributorNormalizeToSnapshot now r c st e = entity_snapshot ''contributor'' now c
      (case (r, st) of (Some x, None) \<Rightarrow> contributor_fields x c | _ \<Rightarrow> []) (snapshot_meta_of c st e)" for r c st e
    by (simp add: contributorNormalizeToSnapshot_def)
  show "distinct (map fst (case (r, st) of (Some x, None) \<Rightarrow> contributor_fields x c | _ \<Rightarrow> []))"
    for r c and st :: "snapshot_status option"
    by (simp add: contributor_fields_keys split: option.split)
  show "list_all (\<lambda>k. \<not> js_startsWith k ''_meta.'') (map fst (case (r, st) of (Some x, None) \<Rightarrow> contributor_fields x c | _ \<Rightarrow> []))"
    for r c and st :: "snapshot_status option"
    by (simp add: contributor_fields_keys js_startsWith_def split: option.split)
qed (simp_all add: plain_key_def)

section \<open>Properties\<close>

text \<open>
  The contributor score lies between 0 and 100 and its tier follows the thresholds: high from
  80, medium from 40, low above 0. The finding, the summary and the title of the result agree on the
  tier and on the rounded score.
\<close>

theorem contributor_score_range:
  "0 \<le> ss_score (score_signals now s) \<and> ss_score (score_signals now s) \<le> 100 \<and>
   (scoreToTier (ss_score (score_signals now s)) = HIGH \<longleftrightarrow> 80 \<le> ss_score (score_signals now s)) \<and>
   (scoreToTier (ss_score (score_signals now s)) = MEDIUM \<longleftrightarrow>
      40 \<le> ss_score (score_signals now s) \<and> ss_score (score_signals now s) < 80) \<and>
   (scoreToTier (ss_score (score_signals now s)) = NONE \<longleftrightarrow> ss_score (score_signals now s) = 0)"
proof -
  have "ss_score (score_signals now s) = max 0 (min 100 (factor_sum (raw_factors now s)))"
    by (simp add: score_signals_def contributor_signals.defs scored_signals.defs)
  then show ?thesis by (auto simp: scoreToTier_def)
qed

text \<open>
  The age multiplier is itself one of the factors that are summed. A release with no risk signal
  at all scores the multiplier (1 in its first month, 0.1 after a year) instead of 0, and is put in
  the low tier.
\<close>

theorem benign_release_scores_multiplier:
  assumes "sg_publisherSeenBeforePackage s \<noteq> Some False" and "sg_publisherMatchesPriorVersion s \<noteq> Some False"
    and "sg_maintainerSetChanged s \<noteq> Some True" and "sg_newMaintainerCount s = Some 0"
    and "sg_removedMaintainerCount s = Some 0" and "sg_hasInstallScripts s \<noteq> Some True"
    and "sg_hasProvenance s \<noteq> Some False" and "sg_hasTrustedPublisher s \<noteq> Some True"
    and "sg_releaseVelocity7d s = Some 1" and "sg_releaseVelocity30d s = Some 1"
  shows "ss_score (score_signals now s) = contributorAgeDecayMultiplier now (sg_publishedAt s) \<and>
         scoreToTier (ss_score (score_signals now s)) = LOW"
proof -
  define m where "m = contributorAgeDecayMultiplier now (sg_publishedAt s)"
  have m: "m \<in> {1, 3/4, 1/2, 1/4, 1/10}"
    by (simp add: m_def contributorAgeDecayMultiplier_def Let_def)
  then have fix2: "to_fixed2 m = m"
    by (elim insertE emptyE; hypsubst; code_simp)
  have round0: "math_round 0 = 0" by code_simp
  have "factor_sum (raw_factors now s) = to_fixed2 m"
    using assms by (simp add: raw_factors_def Let_def m_def [symmetric] factor_sum_def decayFactor_def
        velocityFactor_def default_def round0)
  then have "ss_score (score_signals now s) = max 0 (min 100 m)"
    by (simp add: score_signals_def contributor_signals.defs scored_signals.defs fix2)
  moreover have "max 0 (min 100 m) = m" "scoreToTier m = LOW"
    using m by (elim insertE emptyE; hypsubst; simp add: scoreToTier_def)+
  ultimately show ?thesis by (simp add: m_def)
qed

definition benign_release :: contributor_signals where
  "benign_release = \<lparr> sg_version = ''1.0.0'', sg_publishedAt = 0, sg_publisher = Some ''alice'',
     sg_publisherSeenBeforePackage = Some True, sg_publisherSeenCountBefore = Some 7,
     sg_publisherMatchesPriorVersion = Some True, sg_priorVersionPublisher = Some ''alice'',
     sg_maintainerSetChanged = Some False, sg_newMaintainerCount = Some 0, sg_removedMaintainerCount = Some 0,
     sg_maintainerCount = Some 2, sg_hasInstallScripts = Some False, sg_hasProvenance = Some True,
     sg_hasTrustedPublisher = Some False, sg_releaseVelocity7d = Some 1, sg_releaseVelocity30d = Some 1,
     sg_historyComplete = Some True \<rparr>"

theorem benign_release_scores_multiplier_witness:
  "ss_score (score_signals 0 benign_release) = 1 \<and> scoreToTier (ss_score (score_signals 0 benign_release)) = LOW"
proof -
  have "contributorAgeDecayMultiplier 0 (sg_publishedAt benign_release) = 1"
    by (simp add: benign_release_def contributorAgeDecayMultiplier_def)
  moreover have "ss_score (score_signals 0 benign_release) = contributorAgeDecayMultiplier 0 (sg_publishedAt benign_release) \<and>
      scoreToTier (ss_score (score_signals 0 benign_release)) = LOW"
    by (rule benign_release_scores_multiplier) (simp_all add: benign_release_def)
  ultimately show ?thesis by metis
qed

text \<open>
  The catalog of the contributor connector fits the expression engine and declares exactly the
  data fields of a successful snapshot.
\<close>

theorem contributor_catalog_complete:
  "catalog_ok ''contributor'' contributorFieldCatalog \<and>
   map fl_fieldKey (contributorPublisherFields @ contributorReleaseFields) = map fst (contributor_fields r c)"
  unfolding contributor_fields_keys by (rule conjI) code_simp+

end
