(* ===== verification/Intelligence.thy ===== *)
theory Intelligence
  imports Registry
begin

text \<open>
  The name-similarity connector, \<open>connectors/intelligence/index.ts\<close>: the mapping of the answer of the
  intelligence service to a result, the snapshot and the field catalog. The service itself (its HTTP
  call and its token) is the parameter \<open>service\<close>: the validated response, or the HTTP status of a
  failure.
\<close>

record intelligence_response =
  ir_is_suspicious :: bool
  ir_nearest_match :: "string option"
  ir_match_quality :: string
  ir_recommended_action :: string
  ir_llm_verdict :: "string option"
  ir_confidence :: string
  ir_latency_ms :: int
  ir_source :: string
  ir_similarity_score :: "rat option"
  ir_lexical_similarity_score :: "rat option"
  ir_candidate_source_rank :: "int option"
  ir_candidate_score_final :: "rat option"
  ir_candidate_trust :: "string option"
  ir_adjacent_name_found_in_corpus :: bool
  ir_judge_cache_hit :: "bool option"

definition intelligence_summary :: "intelligence_response \<Rightarrow> jsobj" where
  "intelligence_summary response =
     [(''is_suspicious'', JBool (ir_is_suspicious response)),
      (''nearest_match'', jstr_opt (ir_nearest_match response)),
      (''match_quality'', JStr (ir_match_quality response)),
      (''recommended_action'', JStr (ir_recommended_action response)),
      (''llm_verdict'', jstr_opt (ir_llm_verdict response)),
      (''confidence'', JStr (ir_confidence response)),
      (''latency_ms'', JNum (of_int (ir_latency_ms response))),
      (''source'', JStr (ir_source response)),
      (''semantic_score'', jnum_opt (ir_similarity_score response)),
      (''lexical_similarity_score'', jnum_opt (ir_lexical_similarity_score response)),
      (''candidate_source_rank'', jnum_opt (map_option of_int (ir_candidate_source_rank response))),
      (''candidate_score_final'', jnum_opt (ir_candidate_score_final response)),
      (''candidate_trust'', jstr_opt (ir_candidate_trust response)),
      (''adjacent_name_found_in_corpus'', JBool (ir_adjacent_name_found_in_corpus response)),
      (''judge_cache_hit'', jbool_opt (ir_judge_cache_hit response))]"

definition summary_result :: "jsobj \<Rightarrow> connector_finding list \<Rightarrow> connector_result" where
  "summary_result intelligence findings =
     \<lparr> cr_findings = findings,
       cr_summary = Some \<lparr> su_risk = None, su_findings = None, su_remediation = None, su_vulnerability = None,
                           su_other = [(''intelligence'', JObj intelligence)] \<rparr>,
       cr_ttlSeconds = None, cr_legacy = None \<rparr>"

definition intelligenceEmptyResult :: connector_result where
  "intelligenceEmptyResult =
     summary_result
       [(''is_suspicious'', JBool False), (''nearest_match'', JNull), (''match_quality'', JStr ''weak''),
        (''recommended_action'', JStr ''allow''), (''llm_verdict'', JNull), (''confidence'', JStr ''low''),
        (''latency_ms'', JNum 0), (''source'', JStr ''vector_search''), (''semantic_score'', JNull),
        (''lexical_similarity_score'', JNull), (''candidate_source_rank'', JNull),
        (''candidate_score_final'', JNull), (''candidate_trust'', JNull),
        (''adjacent_name_found_in_corpus'', JBool False), (''judge_cache_hit'', JNull)] []"

definition severityFromVerdict :: "string \<Rightarrow> string \<Rightarrow> severity" where
  "severityFromVerdict recommendedAction matchQuality =
     (if recommendedAction = ''block'' then (if matchQuality = ''strong'' then HIGH else MEDIUM)
      else if recommendedAction = ''review'' then MEDIUM else LOW)"

definition mapResponseToResult :: "string \<Rightarrow> string \<Rightarrow> intelligence_response \<Rightarrow> connector_result" where
  "mapResponseToResult ecosystem pkg response =
     (let summary = intelligence_summary response
      in if \<not> ir_is_suspicious response then summary_result summary []
         else summary_result summary
           [\<lparr> cf_findingId = ecosystem @ '':'' @ pkg @ '':typosquat_candidate'',
              cf_severity = severityFromVerdict (ir_recommended_action response) (ir_match_quality response),
              cf_title = Some (if present (ir_nearest_match response)
                               then ''Possible typosquat of '' @ the (ir_nearest_match response)
                               else ''Possible typosquat package: '' @ pkg),
              cf_publishedAt = None,
              cf_attributes = obj_spread [(''ecosystem'', JStr ecosystem), (''package'', JStr pkg)] summary \<rparr>])"

definition parseResultSummary :: "connector_result option \<Rightarrow> jsobj option" where
  "parseResultSummary result =
     (case Option.bind result cr_summary of
        None \<Rightarrow> None
      | Some su \<Rightarrow> (case obj_get (su_other su) ''intelligence'' of JObj ps \<Rightarrow> Some ps | _ \<Rightarrow> None))"

definition intelligenceSupportsEvent :: "artifact_event \<Rightarrow> bool" where
  "intelligenceSupportsEvent event = (js_toLowerCase (ev_ecosystem event) = ''npm'')"

definition fetchPackageSignals ::
    "(string \<Rightarrow> string \<Rightarrow> nat + intelligence_response) \<Rightarrow> string \<Rightarrow> string \<Rightarrow> js_error + connector_result" where
  "fetchPackageSignals service ecosystem pkg =
     (let normalizedEcosystem = js_toLowerCase ecosystem
      in if normalizedEcosystem \<noteq> ''npm'' then Inr intelligenceEmptyResult
         else case service normalizedEcosystem pkg of
                Inl http \<Rightarrow> Inl (AppError (''intelligence_http_'' @ show_nat http))
              | Inr response \<Rightarrow> Inr (mapResponseToResult normalizedEcosystem pkg response))"

definition intelligenceHandleEvent ::
    "(string \<Rightarrow> string \<Rightarrow> nat + intelligence_response) \<Rightarrow> artifact_event \<Rightarrow> js_error + connector_result option" where
  "intelligenceHandleEvent service event =
     (if \<not> intelligenceSupportsEvent event then Inr None
      else sum_bind (fetchPackageSignals service (ev_ecosystem event) (ev_packageName event)) (\<lambda>r. Inr (Some r)))"

definition intelligence_fields :: "connector_result \<Rightarrow> jsobj" where
  "intelligence_fields r =
     (let summary = default [] (parseResultSummary (Some r));
          att = (\<lambda>k d. (k, coalesce (obj_get summary k) d))
      in [att ''is_suspicious'' (JBool False),
          att ''nearest_match'' JNull,
          att ''match_quality'' (JStr ''weak''),
          att ''recommended_action'' (JStr ''allow''),
          att ''confidence'' (JStr ''low''),
          att ''llm_verdict'' JNull,
          att ''source'' (JStr ''vector_search''),
          att ''latency_ms'' (JNum 0),
          att ''semantic_score'' JNull,
          att ''lexical_similarity_score'' JNull,
          att ''candidate_source_rank'' JNull,
          att ''candidate_score_final'' JNull,
          att ''candidate_trust'' JNull,
          att ''adjacent_name_found_in_corpus'' (JBool False),
          att ''judge_cache_hit'' JNull])"

text \<open>Unlike the other connectors this one ignores the failure status when there is a result.\<close>

definition intelligenceNormalizeToSnapshot :: "ms \<Rightarrow> normalizer" where
  "intelligenceNormalizeToSnapshot now result context failureStatus errorCode =
     entity_snapshot ''intelligence'' now context
       (case result of None \<Rightarrow> [] | Some r \<Rightarrow> intelligence_fields r)
       (snapshot_meta_of context failureStatus errorCode)"

definition intelligenceDataFields :: "connector_field list" where
  "intelligenceDataFields = (let key = ''intelligence'' in [
     field_entry key ''is_suspicious'' ''source.intelligence.is_suspicious'' ''Suspicious Package''
       (Some ''Whether the intelligence service flagged this package as suspicious.'') ''boolean'' boolOps None,
     field_entry key ''nearest_match'' ''source.intelligence.nearest_match'' ''Nearest Match''
       (Some ''Closest known package returned by the intelligence service.'') ''string'' anyOps None,
     field_entry key ''match_quality'' ''source.intelligence.match_quality'' ''Match Quality''
       (Some ''Strength of the nearest package match.'') ''string'' strOps (Some [''weak'', ''ambiguous'', ''strong'']),
     field_entry key ''recommended_action'' ''source.intelligence.recommended_action'' ''Recommended Action''
       (Some ''Action recommended by the intelligence service.'') ''string'' strOps (Some [''allow'', ''review'', ''block'']),
     field_entry key ''confidence'' ''source.intelligence.confidence'' ''Confidence''
       (Some ''Confidence level for the intelligence verdict.'') ''string'' strOps (Some [''low'', ''medium'', ''high'']),
     field_entry key ''semantic_score'' ''source.intelligence.semantic_score'' ''Semantic Score''
       (Some ''Embedding similarity score for the selected candidate.'') ''float'' floatOps None,
     field_entry key ''lexical_similarity_score'' ''source.intelligence.lexical_similarity_score'' ''Lexical Score''
       (Some ''Lexical similarity score for the selected candidate.'') ''float'' floatOps None,
     field_entry key ''candidate_source_rank'' ''source.intelligence.candidate_source_rank'' ''Candidate Source Rank''
       (Some ''Source rank of the selected candidate package.'') ''integer'' intOps None,
     field_entry key ''candidate_score_final'' ''source.intelligence.candidate_score_final'' ''Candidate Score''
       (Some ''Final ranking score for the selected candidate package.'') ''float'' floatOps None,
     field_entry key ''candidate_trust'' ''source.intelligence.candidate_trust'' ''Candidate Trust''
       (Some ''Trust tier of the selected candidate package.'') ''string'' strOps (Some [''low'', ''medium'', ''high'']),
     field_entry key ''adjacent_name_found_in_corpus'' ''source.intelligence.adjacent_name_found_in_corpus'' ''Adjacent Name Found''
       (Some ''Whether a related adjacent package name exists in the corpus.'') ''boolean'' boolOps None,
     field_entry key ''judge_cache_hit'' ''source.intelligence.judge_cache_hit'' ''Judge Cache Hit''
       (Some ''Whether the intelligence judge response came from cache.'') ''boolean'' boolOps None
   ])"

definition intelligenceMetaFields :: "connector_field list" where
  "intelligenceMetaFields = (let key = ''intelligence'' in [
     field_entry key ''_meta.status'' ''source.intelligence._meta.status'' ''Connector Status''
       (Some ''Response status of the intelligence connector for this request.'') ''string'' metaStrOps (Some [''ok'', ''cache_hit'', ''timeout'', ''unavailable'', ''error'', ''background_pending'']),
     field_entry key ''_meta.response_time_ms'' ''source.intelligence._meta.response_time_ms'' ''Connector Response Time (ms)''
       (Some ''How long the connector call took for this request.'') ''integer'' intOps None,
     field_entry key ''_meta.cache_age_hours'' ''source.intelligence._meta.cache_age_hours'' ''Cache Age (hours)''
       (Some ''How old the cached connector result is, when served from cache.'') ''float'' floatOps None,
     field_entry key ''_meta.is_cache_hit'' ''source.intelligence._meta.is_cache_hit'' ''Cache Hit''
       (Some ''Whether the connector result came from cache.'') ''boolean'' boolOps None,
     field_entry key ''_meta.error_code'' ''source.intelligence._meta.error_code'' ''Connector Error Code''
       (Some ''Connector-specific error code when the request did not complete cleanly.'') ''string'' anyOps None
   ])"

definition intelligenceFieldCatalog :: "connector_field list" where
  "intelligenceFieldCatalog = intelligenceDataFields @ intelligenceMetaFields"

section \<open>The connector contract\<close>

lemma intelligence_fields_keys:
  "map fst (intelligence_fields r) = [''is_suspicious'', ''nearest_match'', ''match_quality'', ''recommended_action'',
     ''confidence'', ''llm_verdict'', ''source'', ''latency_ms'', ''semantic_score'', ''lexical_similarity_score'',
     ''candidate_source_rank'', ''candidate_score_final'', ''candidate_trust'', ''adjacent_name_found_in_corpus'',
     ''judge_cache_hit'']"
  by (simp add: intelligence_fields_def Let_def)

interpretation intelligence: snapshot_provider "''intelligence''" "intelligenceNormalizeToSnapshot now"
proof (rule snapshot_provider_entity)
  show "intelligenceNormalizeToSnapshot now r c st e = entity_snapshot ''intelligence'' now c
      (case r of None \<Rightarrow> [] | Some x \<Rightarrow> intelligence_fields x) (snapshot_meta_of c st e)" for r c st e
    by (simp add: intelligenceNormalizeToSnapshot_def)
  show "distinct (map fst (case r of None \<Rightarrow> [] | Some x \<Rightarrow> intelligence_fields x))" for r
    by (simp add: intelligence_fields_keys split: option.split)
  show "list_all (\<lambda>k. \<not> js_startsWith k ''_meta.'') (map fst (case r of None \<Rightarrow> [] | Some x \<Rightarrow> intelligence_fields x))" for r
    by (simp add: intelligence_fields_keys js_startsWith_def split: option.split)
qed (simp_all add: plain_key_def)

section \<open>Properties\<close>

text \<open>
  What the service says is what policies see: the snapshot of a mapped response carries the
  verdict, the recommended action and the nearest match of the response; there is a finding exactly
  when the package is suspicious, and its severity is high only for a strong match to be blocked.
\<close>

theorem intelligence_response_faithful:
  "obj_get (intelligence_fields (mapResponseToResult eco pkg resp)) ''is_suspicious'' = JBool (ir_is_suspicious resp) \<and>
   obj_get (intelligence_fields (mapResponseToResult eco pkg resp)) ''recommended_action'' = JStr (ir_recommended_action resp) \<and>
   obj_get (intelligence_fields (mapResponseToResult eco pkg resp)) ''nearest_match'' = jstr_opt (ir_nearest_match resp) \<and>
   (cr_findings (mapResponseToResult eco pkg resp) \<noteq> [] \<longleftrightarrow> ir_is_suspicious resp) \<and>
   ((\<exists>f \<in> set (cr_findings (mapResponseToResult eco pkg resp)). cf_severity f = HIGH) \<longleftrightarrow>
      ir_is_suspicious resp \<and> ir_recommended_action resp = ''block'' \<and> ir_match_quality resp = ''strong'')"
proof -
  have su: "parseResultSummary (Some (mapResponseToResult eco pkg resp)) = Some (intelligence_summary resp)"
    by (simp add: parseResultSummary_def mapResponseToResult_def summary_result_def Let_def obj_get_def)
  have "obj_get (intelligence_fields (mapResponseToResult eco pkg resp)) ''is_suspicious'' = JBool (ir_is_suspicious resp)"
    "obj_get (intelligence_fields (mapResponseToResult eco pkg resp)) ''recommended_action'' = JStr (ir_recommended_action resp)"
    "obj_get (intelligence_fields (mapResponseToResult eco pkg resp)) ''nearest_match'' = jstr_opt (ir_nearest_match resp)"
    by (simp_all add: intelligence_fields_def su default_def Let_def obj_get_def intelligence_summary_def coalesce_def
        jstr_opt_def split: option.split)
  moreover have "(cr_findings (mapResponseToResult eco pkg resp) \<noteq> []) = ir_is_suspicious resp"
    by (simp add: mapResponseToResult_def summary_result_def Let_def)
  moreover have "(\<exists>f \<in> set (cr_findings (mapResponseToResult eco pkg resp)). cf_severity f = HIGH) =
      (ir_is_suspicious resp \<and> ir_recommended_action resp = ''block'' \<and> ir_match_quality resp = ''strong'')"
    by (simp add: mapResponseToResult_def summary_result_def Let_def severityFromVerdict_def)
  ultimately show ?thesis by blast
qed

text \<open>
  Three data fields of the snapshot, the verdict text, the source and the latency, are missing
  from the catalog of this connector: a rule can read them, but the rule builder never offers them.
  The catalog is otherwise sound.
\<close>

theorem intelligence_catalog_incomplete:
  "catalog_ok ''intelligence'' intelligenceFieldCatalog \<and>
   filter (\<lambda>k. k \<notin> set (map fl_fieldKey intelligenceFieldCatalog)) (map fst (intelligence_fields r)) =
     [''llm_verdict'', ''source'', ''latency_ms'']"
  unfolding intelligence_fields_keys by (rule conjI) code_simp+

end
