(* ===== verification/Catalog.thy ===== *)
theory Catalog
  imports Identity Tables
begin

text \<open>
  The package catalog, \<open>features/packages/catalog-references.ts\<close> and the database part of
  \<open>features/packages/artifact-identity.ts\<close>: packages, versions, references to versions, version
  metadata and relationships between versions.
\<close>

section \<open>Tables\<close>

record package_row =
  pk_id :: string
  pk_ecosystem :: string
  pk_package :: string
  pk_latest_package_version_id :: "string option"
  pk_last_metadata_seen_at :: "ms option"

record package_version_row =
  pv_id :: string
  pv_package_id :: string
  pv_version :: string
  pv_version_kind :: version_kind
  pv_artifact_kind :: artifact_kind
  pv_display_role :: display_role
  pv_published_at :: "ms option"
  pv_last_metadata_seen_at :: "ms option"
  pv_last_used_at :: "ms option"

datatype ref_source = Proxy_source | Registry_metadata_source | Sync_source

record version_ref_row =
  vr_package_id :: string
  vr_package_version_id :: string
  vr_ref :: string
  vr_ref_kind :: ref_kind
  vr_source :: ref_source
  vr_is_display_preferred :: bool
  vr_metadata :: jsval
  vr_first_seen_at :: ms
  vr_last_seen_at :: ms

datatype metadata_kind =
  Descriptor | Platform | Integrity | Distribution_file | Provenance | Registry_metadata

record version_metadata_row =
  vm_package_version_id :: string
  vm_metadata_kind :: metadata_kind
  vm_data :: jsval
  vm_observed_at :: "ms option"

record version_relationship_row =
  rl_parent_package_version_id :: string
  rl_child_package_version_id :: string
  rl_relationship_type :: string
  rl_observed_at :: "ms option"

record catalog_db =
  cg_packages :: "package_row list"
  cg_versions :: "package_version_row list"
  cg_refs :: "version_ref_row list"
  cg_metadata :: "version_metadata_row list"
  cg_relationships :: "version_relationship_row list"
  cg_uuids :: uuid_source

section \<open>Resolving identities\<close>

record catalog_reference_input = package_identity +
  ci_version_kind :: "version_kind option"
  ci_artifact_kind :: "artifact_kind option"
  ci_display_role :: "display_role option"

record package_version_value =
  vv_package_id :: string
  vv_version :: string
  vv_version_kind :: version_kind
  vv_artifact_kind :: artifact_kind
  vv_display_role :: display_role

definition catalogReferenceDefaults :: "catalog_reference_input \<Rightarrow> catalog_classification" where
  "catalogReferenceDefaults input =
     (let classified = classifyPackageCatalogVersion (pi_ecosystem input) (pi_version input)
      in \<lparr> cl_version_kind = default (cl_version_kind classified) (ci_version_kind input),
           cl_artifact_kind = default (cl_artifact_kind classified) (ci_artifact_kind input),
           cl_display_role = default (cl_display_role classified) (ci_display_role input) \<rparr>)"

text \<open>
  \<open>[...new Map(entries).values()]\<close>: the first occurrence of a key fixes the place, the last one the
  value.
\<close>

fun map_set :: "string \<Rightarrow> 'a \<Rightarrow> (string \<times> 'a) list \<Rightarrow> (string \<times> 'a) list" where
  "map_set k v [] = [(k, v)]"
| "map_set k v ((k', v') # r) = (if k = k' then (k, v) # r else (k', v') # map_set k v r)"

definition new_map :: "(string \<times> 'a) list \<Rightarrow> (string \<times> 'a) list" where
  "new_map entries = foldl (\<lambda>m (k, v). map_set k v m) [] entries"

text \<open>\<open>insert ... on conflict (ecosystem, package) do nothing returning\<close>\<close>

fun insert_packages :: "(string \<times> string) list \<Rightarrow> catalog_db \<Rightarrow> package_row list \<times> catalog_db" where
  "insert_packages [] db = ([], db)"
| "insert_packages ((e, p) # vs) db =
     (if list_ex (\<lambda>r. pk_ecosystem r = e \<and> pk_package r = p) (cg_packages db) then insert_packages vs db
      else let (pid, uuids) = draw (cg_uuids db);
               row = \<lparr> pk_id = pid, pk_ecosystem = e, pk_package = p, pk_latest_package_version_id = None,
     pk_last_metadata_seen_at = None \<rparr>;
               (rows, db') = insert_packages vs (db\<lparr> cg_packages := cg_packages db @ [row], cg_uuids := uuids \<rparr>)
           in (row # rows, db'))"

fun insert_versions :: "package_version_value list \<Rightarrow> catalog_db \<Rightarrow> package_version_row list \<times> catalog_db" where
  "insert_versions [] db = ([], db)"
| "insert_versions (v # vs) db =
     (if list_ex (\<lambda>r. pv_package_id r = vv_package_id v \<and> pv_version r = vv_version v) (cg_versions db)
      then insert_versions vs db
      else let (vid, uuids) = draw (cg_uuids db);
               row = \<lparr> pv_id = vid, pv_package_id = vv_package_id v, pv_version = vv_version v,
                       pv_version_kind = vv_version_kind v, pv_artifact_kind = vv_artifact_kind v,
                       pv_display_role = vv_display_role v, pv_published_at = None,
     pv_last_metadata_seen_at = None, pv_last_used_at = None \<rparr>;
               (rows, db') = insert_versions vs (db\<lparr> cg_versions := cg_versions db @ [row], cg_uuids := uuids \<rparr>)
           in (row # rows, db'))"

definition selectPackageCatalogRows :: "catalog_db \<Rightarrow> (string \<times> string) list \<Rightarrow> package_row list" where
  "selectPackageCatalogRows db values =
     filter (\<lambda>r. (pk_ecosystem r, pk_package r) \<in> set values) (cg_packages db)"

definition selectPackageVersionCatalogRows ::
    "catalog_db \<Rightarrow> package_version_value list \<Rightarrow> package_version_row list" where
  "selectPackageVersionCatalogRows db values =
     filter (\<lambda>r. list_ex (\<lambda>v. pv_package_id r = vv_package_id v \<and> pv_version r = vv_version v) values) (cg_versions db)"

definition packageVersionCatalogUpdate ::
    "package_version_row \<Rightarrow> package_version_value \<Rightarrow> package_version_value" where
  "packageVersionCatalogUpdate row desired =
     (let keepExistingChildRole =
            (pv_display_role row = Child \<or> pv_display_role row = Internal) \<and> vv_display_role desired = Primary
      in \<lparr> vv_package_id = pv_package_id row,
           vv_version = pv_version row,
           vv_version_kind = vv_version_kind desired,
           vv_artifact_kind = (if keepExistingChildRole then pv_artifact_kind row else vv_artifact_kind desired),
           vv_display_role = (if keepExistingChildRole then pv_display_role row else vv_display_role desired) \<rparr>)"

definition shouldUpdatePackageVersionCatalog :: "package_version_row \<Rightarrow> package_version_value \<Rightarrow> bool" where
  "shouldUpdatePackageVersionCatalog row desired =
     (let update = packageVersionCatalogUpdate row desired
      in pv_version_kind row \<noteq> vv_version_kind update \<or> pv_artifact_kind row \<noteq> vv_artifact_kind update \<or>
         pv_display_role row \<noteq> vv_display_role update)"

definition updatePackageVersionCatalogRow ::
    "package_version_row \<Rightarrow> package_version_value \<Rightarrow> catalog_db \<Rightarrow> catalog_db" where
  "updatePackageVersionCatalogRow row desired db =
     (let update = packageVersionCatalogUpdate row desired
      in db\<lparr> cg_versions := update_where (\<lambda>r. pv_id r = pv_id row)
           (\<lambda>r. r\<lparr> pv_version_kind := vv_version_kind update, pv_artifact_kind := vv_artifact_kind update,
                   pv_display_role := vv_display_role update \<rparr>) (cg_versions db) \<rparr>)"

definition package_entries :: "package_identity list \<Rightarrow> (string \<times> (string \<times> string)) list" where
  "package_entries identities =
     new_map (map (\<lambda>i. (packageKey (pi_ecosystem i) (pi_package i), (pi_ecosystem i, pi_package i)))
       (filter (\<lambda>i. pi_ecosystem i \<noteq> [] \<and> pi_package i \<noteq> []) identities))"

definition row_key :: "package_row \<Rightarrow> string" where
  "row_key r = packageKey (pk_ecosystem r) (pk_package r)"

definition version_row_key :: "package_version_row \<Rightarrow> string" where
  "version_row_key r = packageVersionKey (pv_package_id r) (pv_version r)"

definition version_entries ::
    "(string \<times> string) list \<Rightarrow> catalog_reference_input list \<Rightarrow> (string \<times> package_version_value) list" where
  "version_entries packageIdMap inputs =
     new_map (List.map_filter (\<lambda>input.
        let identity = canonicalizePackageIdentity (package_identity.truncate input)
        in case (opt_or_null (map_of packageIdMap (packageKey (pi_ecosystem identity) (pi_package identity))),
                 opt_or_null (pi_version identity)) of
             (Some pid, Some v) \<Rightarrow>
               let d = catalogReferenceDefaults input
               in Some (packageVersionKey pid v,
                        \<lparr> vv_package_id = pid, vv_version = v, vv_version_kind = cl_version_kind d,
                          vv_artifact_kind = cl_artifact_kind d, vv_display_role = cl_display_role d \<rparr>)
           | _ \<Rightarrow> None) inputs)"

text \<open>Every package has a row afterwards; the result maps package keys to identifiers.\<close>

definition ensure_packages ::
    "(string \<times> string) list \<Rightarrow> catalog_db \<Rightarrow> (string \<times> string) list \<times> catalog_db" where
  "ensure_packages packageValues db =
     (let (insertedPackageRows, db1) = insert_packages packageValues db;
          idMap0 = new_map (map (\<lambda>r. (row_key r, pk_id r)) insertedPackageRows);
          missing = filter (\<lambda>(e, p). map_of idMap0 (packageKey e p) = None) packageValues
      in (foldl (\<lambda>m r. map_set (row_key r) (pk_id r) m) idMap0 (selectPackageCatalogRows db1 missing), db1))"

text \<open>Every version has a row afterwards, and rows that were there before get the classification.\<close>

definition reclassify ::
    "(string \<times> package_version_value) list \<Rightarrow> catalog_db \<Rightarrow> package_version_row \<Rightarrow> catalog_db" where
  "reclassify desiredMap db row =
     (case map_of desiredMap (version_row_key row) of
        Some desired \<Rightarrow> if shouldUpdatePackageVersionCatalog row desired
                        then updatePackageVersionCatalogRow row desired db else db
      | None \<Rightarrow> db)"

definition ensure_versions ::
    "package_version_value list \<Rightarrow> catalog_db \<Rightarrow> (string \<times> string) list \<times> catalog_db" where
  "ensure_versions versionValues db =
     (let (insertedVersionRows, db1) = insert_versions versionValues db;
          vMap0 = new_map (map (\<lambda>r. (version_row_key r, pv_id r)) insertedVersionRows);
          missingVersions = filter (\<lambda>v. map_of vMap0 (packageVersionKey (vv_package_id v) (vv_version v)) = None)
            versionValues;
          existingVersionRows = selectPackageVersionCatalogRows db1 missingVersions;
          desiredMap = new_map (map (\<lambda>v. (packageVersionKey (vv_package_id v) (vv_version v), v)) missingVersions)
      in (foldl (\<lambda>m r. map_set (version_row_key r) (pv_id r) m) vMap0 existingVersionRows,
          foldl (reclassify desiredMap) db1 existingVersionRows))"

definition reference_for ::
    "(string \<times> string) list \<Rightarrow> (string \<times> string) list \<Rightarrow> package_identity \<Rightarrow> catalog_reference" where
  "reference_for packageIdMap versionIdMap identity =
     (let package_id = map_of packageIdMap (packageKey (pi_ecosystem identity) (pi_package identity))
      in \<lparr> rf_package_id = package_id,
           rf_package_version_id =
             (if present package_id \<and> present (pi_version identity)
              then map_of versionIdMap (packageVersionKey (the package_id) (the (pi_version identity)))
              else None) \<rparr>)"

definition resolvePackageCatalogReferences ::
    "catalog_reference_input list \<Rightarrow> catalog_db \<Rightarrow> catalog_reference list \<times> catalog_db" where
  "resolvePackageCatalogReferences inputs db =
     (let identities = map (\<lambda>i. canonicalizePackageIdentity (package_identity.truncate i)) inputs;
          packageValues = map snd (package_entries identities)
      in if packageValues = []
         then (map (\<lambda>_. \<lparr> rf_package_id = None, rf_package_version_id = None \<rparr>) identities, db)
         else
           let (packageIdMap, db1) = ensure_packages packageValues db;
               (versionIdMap, db2) = ensure_versions (map snd (version_entries packageIdMap inputs)) db1
           in (map (reference_for packageIdMap versionIdMap) identities, db2))"

definition plain_input :: "package_identity \<Rightarrow> catalog_reference_input" where
  "plain_input i = package_identity.extend i (catalog_reference_input.fields None None None)"

definition no_reference :: catalog_reference where
  "no_reference = \<lparr> rf_package_id = None, rf_package_version_id = None \<rparr>"

definition resolvePackageCatalogReferenceForPackageRef ::
    "string \<Rightarrow> catalog_db \<Rightarrow> catalog_reference \<times> catalog_db" where
  "resolvePackageCatalogReferenceForPackageRef packageRef db =
     (case parsePackageRef packageRef of
        None \<Rightarrow> (no_reference, db)
      | Some identity \<Rightarrow>
          let (refs, db') = resolvePackageCatalogReferences [plain_input identity] db
          in (case refs of r # _ \<Rightarrow> r | [] \<Rightarrow> no_reference, db'))"

definition resolveArtifactIdentities ::
    "artifact_identity_input list \<Rightarrow> catalog_db \<Rightarrow> artifact_identity list \<times> catalog_db" where
  "resolveArtifactIdentities inputs db =
     (let (refs, db') = resolvePackageCatalogReferences
            (map (\<lambda>i. plain_input (package_identity.truncate i)) inputs) db
      in (map (\<lambda>(i, r). buildArtifactIdentity i r) (zip inputs refs), db'))"

definition resolveArtifactIdentity ::
    "artifact_identity_input \<Rightarrow> catalog_db \<Rightarrow> artifact_identity \<times> catalog_db" where
  "resolveArtifactIdentity input db =
     (let (ids, db') = resolveArtifactIdentities [input] db
      in (case ids of i # _ \<Rightarrow> i | [] \<Rightarrow> buildArtifactIdentity input no_reference, db'))"

definition loadArtifactIdentityByCatalogIds ::
    "catalog_db \<Rightarrow> string option \<Rightarrow> string option \<Rightarrow> string option \<Rightarrow> artifact_identity option" where
  "loadArtifactIdentityByCatalogIds db package_id package_version_id source =
     (let src = Some (default ''catalog'' source);
          input = (\<lambda>p v. \<lparr> pi_ecosystem = pk_ecosystem p, pi_package = pk_package p, pi_version = v,
                           ii_source = src, ii_parser_version = None \<rparr>)
      in if present package_version_id then
           (case find (\<lambda>(v, p). Some (pv_id v) = package_version_id)
                   (concat (map (\<lambda>v. map (Pair v) (filter (\<lambda>p. pk_id p = pv_package_id v) (cg_packages db)))
                     (cg_versions db))) of
              None \<Rightarrow> None
            | Some (v, p) \<Rightarrow> Some (buildArtifactIdentity (input p (Some (pv_version v)))
                               \<lparr> rf_package_id = Some (pk_id p), rf_package_version_id = Some (pv_id v) \<rparr>))
         else if \<not> present package_id then None
         else
           (case first_row (\<lambda>p. Some (pk_id p) = package_id) (cg_packages db) of
              None \<Rightarrow> None
            | Some p \<Rightarrow> Some (buildArtifactIdentity (input p None)
                          \<lparr> rf_package_id = Some (pk_id p), rf_package_version_id = None \<rparr>)))"

section \<open>References, metadata and relationships\<close>

record version_ref_input =
  ri_package_id :: string
  ri_package_version_id :: string
  ri_ref :: string
  ri_ref_kind :: ref_kind
  ri_source :: ref_source
  ri_is_display_preferred :: "bool option"
  ri_metadata :: "jsval option"
  ri_observed_at :: ms

definition ref_key :: "version_ref_row \<Rightarrow> (string \<times> string \<times> ref_kind \<times> string \<times> ref_source) option" where
  "ref_key r = Some (vr_package_id r, vr_ref r, vr_ref_kind r, vr_package_version_id r, vr_source r)"

text \<open>
  The update of a conflicting row: without metadata in the input it is guarded by a condition that
  says whether it would change anything.
\<close>

definition ref_merge :: "jsval option \<Rightarrow> version_ref_row \<Rightarrow> version_ref_row \<Rightarrow> version_ref_row" where
  "ref_merge metadata new r =
     (if metadata = None \<and> \<not> (vr_first_seen_at r > vr_first_seen_at new \<or> vr_last_seen_at r < vr_last_seen_at new \<or>
                             vr_is_display_preferred r \<noteq> vr_is_display_preferred new)
      then r
      else r\<lparr> vr_is_display_preferred := vr_is_display_preferred new,
              vr_metadata := default (vr_metadata r) metadata,
              vr_first_seen_at := min (vr_first_seen_at r) (vr_first_seen_at new),
              vr_last_seen_at := max (vr_last_seen_at r) (vr_last_seen_at new) \<rparr>)"

definition upsertPackageVersionRef :: "version_ref_input \<Rightarrow> catalog_db \<Rightarrow> catalog_db" where
  "upsertPackageVersionRef input db =
     (let ref = js_trim (ri_ref input)
      in if ref = [] then db
         else
           let preferred = default False (ri_is_display_preferred input);
               refs = (if preferred
                       then update_where (\<lambda>r. vr_package_version_id r = ri_package_version_id input \<and> vr_is_display_preferred r)
                              (\<lambda>r. r\<lparr> vr_is_display_preferred := False \<rparr>) (cg_refs db)
                       else cg_refs db);
               new = \<lparr> vr_package_id = ri_package_id input, vr_package_version_id = ri_package_version_id input,
                       vr_ref = ref, vr_ref_kind = ri_ref_kind input, vr_source = ri_source input,
                       vr_is_display_preferred = preferred, vr_metadata = default JNull (ri_metadata input),
                       vr_first_seen_at = ri_observed_at input, vr_last_seen_at = ri_observed_at input \<rparr>
           in db\<lparr> cg_refs := upsert_row ref_key (ref_merge (ri_metadata input) new) new refs \<rparr>)"

definition metadata_key :: "version_metadata_row \<Rightarrow> (string \<times> metadata_kind) option" where
  "metadata_key r = Some (vm_package_version_id r, vm_metadata_kind r)"

definition later :: "ms option \<Rightarrow> ms option \<Rightarrow> ms option" where
  "later old new = (case new of None \<Rightarrow> old | Some t \<Rightarrow> Some (case old of None \<Rightarrow> t | Some u \<Rightarrow> max u t))"

definition metadata_merge :: "version_metadata_row \<Rightarrow> version_metadata_row \<Rightarrow> version_metadata_row" where
  "metadata_merge new r = r\<lparr> vm_data := vm_data new, vm_observed_at := later (vm_observed_at r) (vm_observed_at new) \<rparr>"

definition upsertPackageVersionMetadata ::
    "string \<Rightarrow> metadata_kind \<Rightarrow> jsval \<Rightarrow> ms option \<Rightarrow> catalog_db \<Rightarrow> catalog_db" where
  "upsertPackageVersionMetadata vid kind data observed_at db =
     (let new = \<lparr> vm_package_version_id = vid, vm_metadata_kind = kind, vm_data = data, vm_observed_at = observed_at \<rparr>
      in db\<lparr> cg_metadata := upsert_row metadata_key (metadata_merge new) new (cg_metadata db) \<rparr>)"

definition relationship_key :: "version_relationship_row \<Rightarrow> (string \<times> string \<times> string) option" where
  "relationship_key r =
     Some (rl_parent_package_version_id r, rl_child_package_version_id r, rl_relationship_type r)"

definition relationship_merge :: "version_relationship_row \<Rightarrow> version_relationship_row \<Rightarrow> version_relationship_row" where
  "relationship_merge new r = r\<lparr> rl_observed_at := later (rl_observed_at r) (rl_observed_at new) \<rparr>"

definition upsertPackageVersionRelationship ::
    "string \<Rightarrow> string \<Rightarrow> string \<Rightarrow> ms option \<Rightarrow> catalog_db \<Rightarrow> catalog_db" where
  "upsertPackageVersionRelationship parent child rtype observed_at db =
     (let new = \<lparr> rl_parent_package_version_id = parent, rl_child_package_version_id = child,
                  rl_relationship_type = rtype, rl_observed_at = observed_at \<rparr>
      in db\<lparr> cg_relationships := upsert_row relationship_key (relationship_merge new) new (cg_relationships db) \<rparr>)"

record observed_refs_input =
  oi_ecosystem :: string
  oi_package_id :: "string option"
  oi_package_version_id :: "string option"
  oi_version :: "string option"
  oi_requested_ref :: "string option"
  oi_resolved_ref :: "string option"
  oi_ref_resolution_source :: "string option"

definition recordObservedPackageVersionRefs :: "ms \<Rightarrow> observed_refs_input \<Rightarrow> catalog_db \<Rightarrow> catalog_db" where
  "recordObservedPackageVersionRefs observedAt input db =
     (if \<not> present (oi_package_id input) \<or> \<not> present (oi_package_version_id input) then db
      else
        let pid = the (oi_package_id input); vid = the (oi_package_version_id input);
            db1 = (if present (oi_version input)
                   then let v = the (oi_version input)
                        in upsertPackageVersionRef
                             \<lparr> ri_package_id = pid, ri_package_version_id = vid, ri_ref = v,
                               ri_ref_kind = (if js_startsWith v ''sha256:'' then Digest_ref else Version_ref),
                               ri_source = Proxy_source, ri_is_display_preferred = None, ri_metadata = None,
                               ri_observed_at = observedAt \<rparr> db
                   else db);
            requestedRef = map_option js_trim (oi_requested_ref input);
            resolved = jstr_opt (orelse (oi_resolved_ref input) (oi_version input));
            src = jstr_opt (oi_ref_resolution_source input)
        in if \<not> present requestedRef \<or> requestedRef = oi_version input then db1
           else
             let ref = the requestedRef;
                 cls = classifyObservedPackageVersionRef (oi_ecosystem input) ref;
                 db2 = upsertPackageVersionRef
                   \<lparr> ri_package_id = pid, ri_package_version_id = vid, ri_ref = ref,
                     ri_ref_kind = oc_ref_kind cls, ri_source = Proxy_source,
                     ri_is_display_preferred = Some (oc_is_display_preferred cls),
                     ri_metadata = Some (JObj [(''resolved_ref'', resolved), (''ref_resolution_source'', src)]),
                     ri_observed_at = observedAt \<rparr> db1
             in upsertPackageVersionMetadata vid Registry_metadata
                  (JObj [(''ecosystem'', JStr (js_toLowerCase (js_trim (oi_ecosystem input)))),
                         (''requested_ref'', JStr ref), (''resolved_ref'', resolved),
                         (''ref_resolution_source'', src)])
                  (Some observedAt) db2)"

record related_version =
  rv_version :: string
  rv_version_kind :: version_kind
  rv_artifact_kind :: artifact_kind
  rv_display_role :: display_role
  rv_relationship_type :: string
  rv_media_type :: "string option"
  rv_size_bytes :: "int option"
  rv_platform_os :: "string option"
  rv_platform_arch :: "string option"
  rv_platform_variant :: "string option"
  rv_metadata_json :: "string option"

text \<open>\<open>json_parse\<close> stands for \<open>JSON.parse\<close>, \<open>None\<close> where it throws.\<close>

definition parseMetadataJson :: "(string \<Rightarrow> jsval option) \<Rightarrow> string option \<Rightarrow> jsval" where
  "parseMetadataJson json_parse v =
     (if \<not> present v then JNull
      else case json_parse (the v) of Some j \<Rightarrow> j | None \<Rightarrow> JObj [(''raw'', JStr (the v))])"

definition record_related_version ::
    "(string \<Rightarrow> jsval option) \<Rightarrow> ms \<Rightarrow> string \<Rightarrow> string \<Rightarrow> string \<Rightarrow> catalog_db \<Rightarrow> related_version \<Rightarrow> catalog_db" where
  "record_related_version json_parse observedAt ecosystem package parent db related =
     (let version = js_trim (rv_version related)
      in if version = [] \<or> rv_relationship_type related = [] then db
         else
           let (refs, db1) = resolvePackageCatalogReferences
                 [\<lparr> pi_ecosystem = ecosystem, pi_package = package, pi_version = Some version,
                    ci_version_kind = Some (rv_version_kind related),
                    ci_artifact_kind = Some (rv_artifact_kind related),
                    ci_display_role = Some (rv_display_role related) \<rparr>] db;
               child = (case refs of r # _ \<Rightarrow> r | [] \<Rightarrow> no_reference)
           in if \<not> present (rf_package_id child) \<or> \<not> present (rf_package_version_id child) then db1
              else
                let cid = the (rf_package_version_id child);
                    db2 = upsertPackageVersionRef
                      \<lparr> ri_package_id = the (rf_package_id child), ri_package_version_id = cid, ri_ref = version,
                        ri_ref_kind = Digest_ref, ri_source = Proxy_source, ri_is_display_preferred = None,
                        ri_metadata = None, ri_observed_at = observedAt \<rparr> db1;
                    db3 = upsertPackageVersionRelationship parent cid (rv_relationship_type related) (Some observedAt) db2;
                    db4 = upsertPackageVersionMetadata cid Descriptor
                      (JObj [(''media_type'', jstr_opt (rv_media_type related)),
                             (''size_bytes'', jnum_opt (map_option of_int (rv_size_bytes related))),
                             (''metadata'', parseMetadataJson json_parse (rv_metadata_json related))])
                      (Some observedAt) db3
                in if present (rv_platform_os related) \<or> present (rv_platform_arch related) \<or>
                      present (rv_platform_variant related)
                   then upsertPackageVersionMetadata cid Platform
                          (JObj [(''os'', jstr_opt (rv_platform_os related)),
                                 (''arch'', jstr_opt (rv_platform_arch related)),
                                 (''variant'', jstr_opt (rv_platform_variant related))])
                          (Some observedAt) db4
                   else db4)"

definition recordPackageVersionRelatedVersions ::
    "(string \<Rightarrow> jsval option) \<Rightarrow> ms \<Rightarrow> string \<Rightarrow> string \<Rightarrow> string option \<Rightarrow> string option \<Rightarrow>
     related_version list \<Rightarrow> catalog_db \<Rightarrow> catalog_db" where
  "recordPackageVersionRelatedVersions json_parse observedAt ecosystem package package_id package_version_id related db =
     (if \<not> present package_id \<or> \<not> present package_version_id then db
      else foldl (record_related_version json_parse observedAt ecosystem package (the package_version_id)) db related)"

interpretation version_refs: upserting ref_key "ref_merge m"
  by unfold_locales (simp add: ref_key_def ref_merge_def)

interpretation version_metadata: upserting metadata_key metadata_merge
  by unfold_locales (simp add: metadata_key_def metadata_merge_def)

interpretation version_relationships: upserting relationship_key relationship_merge
  by unfold_locales (simp add: relationship_key_def relationship_merge_def)

section \<open>The invariant of the catalog\<close>

definition package_key :: "package_row \<Rightarrow> (string \<times> string) option" where
  "package_key r = Some (pk_ecosystem r, pk_package r)"

definition version_key :: "package_version_row \<Rightarrow> (string \<times> string) option" where
  "version_key r = Some (pv_package_id r, pv_version r)"

definition preferred_key :: "version_ref_row \<Rightarrow> string option" where
  "preferred_key r = (if vr_is_display_preferred r then Some (vr_package_version_id r) else None)"

text \<open>The unique indexes of the five tables, and where identifiers come from.\<close>

definition catalog_inv :: "catalog_db \<Rightarrow> bool" where
  "catalog_inv db =
     (source_ok (cg_uuids db) \<and>
      ids_ok pk_id (cg_uuids db) (cg_packages db) \<and> unique_key package_key (cg_packages db) \<and>
      ids_ok pv_id (cg_uuids db) (cg_versions db) \<and> unique_key version_key (cg_versions db) \<and>
      unique_key ref_key (cg_refs db) \<and> unique_key preferred_key (cg_refs db) \<and>
      unique_key metadata_key (cg_metadata db) \<and> unique_key relationship_key (cg_relationships db))"

lemma upsert_metadata_inv: "catalog_inv db \<Longrightarrow> catalog_inv (upsertPackageVersionMetadata vid k d t db)"
  by (simp add: catalog_inv_def upsertPackageVersionMetadata_def Let_def version_metadata.upsert_unique)

lemma upsert_relationship_inv: "catalog_inv db \<Longrightarrow> catalog_inv (upsertPackageVersionRelationship p c r t db)"
  by (simp add: catalog_inv_def upsertPackageVersionRelationship_def Let_def version_relationships.upsert_unique)

text \<open>Making a reference the preferred one takes the preference from the others first.\<close>

lemma clear_preferred:
  fixes vid :: string
  assumes "unique_key preferred_key rows"
  defines "rows' \<equiv> update_where (\<lambda>r. vr_package_version_id r = vid \<and> vr_is_display_preferred r)
             (\<lambda>r. r\<lparr> vr_is_display_preferred := False \<rparr>) rows"
  shows "unique_key preferred_key rows'" and "\<forall>r \<in> set rows'. preferred_key r \<noteq> Some vid"
    and "unique_key ref_key rows' = unique_key ref_key rows"
proof -
  show "unique_key preferred_key rows'"
    unfolding rows'_def update_where_def
    by (rule unique_key_map_weaken [OF _ assms(1)]) (simp add: preferred_key_def)
  have "preferred_key (if vr_package_version_id r = vid \<and> vr_is_display_preferred r
      then r\<lparr> vr_is_display_preferred := False \<rparr> else r) \<noteq> Some vid" for r
    by (cases "vr_package_version_id r = vid"; cases "vr_is_display_preferred r") (simp_all add: preferred_key_def)
  then show "\<forall>r \<in> set rows'. preferred_key r \<noteq> Some vid"
    unfolding rows'_def update_where_def set_map by (intro ballI) (erule imageE, hypsubst)
  show "unique_key ref_key rows' = unique_key ref_key rows"
    unfolding rows'_def update_where_def by (rule unique_key_map_same) (simp add: ref_key_def)
qed

lemma upsert_preferred_unique:
  assumes u: "unique_key preferred_key rows" and k: "unique_key ref_key rows"
    and free: "vr_is_display_preferred new \<Longrightarrow> \<forall>r \<in> set rows. preferred_key r \<noteq> Some (vr_package_version_id new)"
  shows "unique_key preferred_key (upsert_row ref_key (ref_merge m new) new rows)"
proof (cases "list_ex (\<lambda>r. ref_key r = ref_key new) rows")
  case False
  then have "upsert_row ref_key (ref_merge m new) new rows = rows @ [new]"
    by (simp add: upsert_row_def)
  moreover have "preferred_key new = None \<or> (\<forall>s \<in> set rows. preferred_key s \<noteq> preferred_key new)"
    using free by (auto simp: preferred_key_def)
  ultimately show ?thesis using u by (simp add: unique_key_append)
next
  case True
  let ?f = "\<lambda>r. if ref_key r = ref_key new then ref_merge m new r else r"
  have rows: "upsert_row ref_key (ref_merge m new) new rows = map ?f rows"
    using True by (simp add: upsert_row_def ref_key_def)
  have pref: "preferred_key (?f r) =
      (if ref_key r = ref_key new then (if vr_is_display_preferred new then Some (vr_package_version_id new) else None)
       else preferred_key r)" for r
    by (auto simp: ref_merge_def preferred_key_def ref_key_def)
  show ?thesis
  proof (cases "vr_is_display_preferred new")
    case False
    then show ?thesis
      unfolding rows using u by (intro unique_key_map_weaken) (auto simp: pref)
  next
    case pnew: True
    from True obtain xs a ys where split: "rows = xs @ a # ys" "ref_key a = ref_key new"
      unfolding list_ex_iff by (metis split_list)
    have others: "ref_key r \<noteq> ref_key new" if "r \<in> set xs \<union> set ys" for r
      using unique_key_apart [OF k [unfolded split(1)] _ that] split(2) by (simp add: ref_key_def)
    then have "map ?f rows = xs @ ref_merge m new a # ys"
      using split(2) by (simp add: split(1) map_idI)
    moreover have "unique_key preferred_key (xs @ ref_merge m new a # ys)"
    proof (rule unique_key_replace [OF u [unfolded split(1)]])
      have "preferred_key (ref_merge m new a) = Some (vr_package_version_id new)"
        using pref [of a] split(2) pnew by simp
      then show "\<forall>r \<in> set xs \<union> set ys. preferred_key r \<noteq> preferred_key (ref_merge m new a)"
        using free [OF pnew] by (simp add: split(1) ball_Un)
    qed
    ultimately show ?thesis unfolding rows by simp
  qed
qed

lemma upsert_ref_inv: "catalog_inv db \<Longrightarrow> catalog_inv (upsertPackageVersionRef input db)"
proof -
  assume inv: "catalog_inv db"
  then have u: "unique_key preferred_key (cg_refs db)" "unique_key ref_key (cg_refs db)"
    by (simp_all add: catalog_inv_def)
  define refs where "refs = (if default False (ri_is_display_preferred input)
       then update_where (\<lambda>r. vr_package_version_id r = ri_package_version_id input \<and> vr_is_display_preferred r)
              (\<lambda>r. r\<lparr> vr_is_display_preferred := False \<rparr>) (cg_refs db)
       else cg_refs db)"
  have refs: "unique_key preferred_key refs" "unique_key ref_key refs"
    using u clear_preferred [OF u(1)] by (simp_all add: refs_def)
  have free: "default False (ri_is_display_preferred input) \<Longrightarrow>
      \<forall>r \<in> set refs. preferred_key r \<noteq> Some (ri_package_version_id input)"
    using clear_preferred(2) [OF u(1)] by (simp add: refs_def)
  define new where "new = \<lparr> vr_package_id = ri_package_id input, vr_package_version_id = ri_package_version_id input,
     vr_ref = js_trim (ri_ref input), vr_ref_kind = ri_ref_kind input, vr_source = ri_source input,
     vr_is_display_preferred = default False (ri_is_display_preferred input),
     vr_metadata = default JNull (ri_metadata input),
     vr_first_seen_at = ri_observed_at input, vr_last_seen_at = ri_observed_at input \<rparr>"
  have eq: "upsertPackageVersionRef input db =
      (if js_trim (ri_ref input) = [] then db
       else db\<lparr> cg_refs := upsert_row ref_key (ref_merge (ri_metadata input) new) new refs \<rparr>)"
    by (simp add: upsertPackageVersionRef_def Let_def refs_def new_def)
  have "unique_key preferred_key (upsert_row ref_key (ref_merge (ri_metadata input) new) new refs)"
    by (rule upsert_preferred_unique [OF refs]) (use free in \<open>simp add: new_def\<close>)
  then show ?thesis
    using inv version_refs.upsert_unique [OF refs(2)] by (simp add: eq catalog_inv_def)
qed

lemma record_observed_inv: "catalog_inv db \<Longrightarrow> catalog_inv (recordObservedPackageVersionRefs t input db)"
  by (simp add: recordObservedPackageVersionRefs_def Let_def upsert_ref_inv upsert_metadata_inv)

section \<open>Resolution keeps the invariant\<close>

lemma insert_packages_inv:
  "catalog_inv db \<Longrightarrow> insert_packages vs db = (rows, db') \<Longrightarrow> catalog_inv db'"
proof (induction vs db arbitrary: rows db' rule: insert_packages.induct)
  case (2 e p vs db)
  show ?case
  proof (cases "list_ex (\<lambda>r. pk_ecosystem r = e \<and> pk_package r = p) (cg_packages db)")
    case False
    obtain pid uuids where d: "draw (cg_uuids db) = (pid, uuids)" by fastforce
    let ?row = "\<lparr> pk_id = pid, pk_ecosystem = e, pk_package = p, pk_latest_package_version_id = None,
     pk_last_metadata_seen_at = None \<rparr>"
    let ?db = "db\<lparr> cg_packages := cg_packages db @ [?row], cg_uuids := uuids \<rparr>"
    obtain rows' where rec: "insert_packages vs ?db = (rows', db')"
      using 2(4) False d by (simp add: Let_def split: prod.splits)
    have new: "\<forall>s \<in> set (cg_packages db). package_key s \<noteq> package_key ?row"
      using False by (simp add: package_key_def list_ex_iff)
    have "catalog_inv ?db"
      using 2(3) d new by (simp add: catalog_inv_def unique_key_append draw_source
          ids_ok_append [OF _ d] ids_ok_draw [OF d])
    then show ?thesis
      using 2(2) [OF False d [symmetric] refl refl] rec by blast
  qed (use 2 in simp)
qed simp

lemma insert_versions_inv:
  "catalog_inv db \<Longrightarrow> insert_versions vs db = (rows, db') \<Longrightarrow> catalog_inv db'"
proof (induction vs db arbitrary: rows db' rule: insert_versions.induct)
  case (2 v vs db)
  show ?case
  proof (cases "list_ex (\<lambda>r. pv_package_id r = vv_package_id v \<and> pv_version r = vv_version v) (cg_versions db)")
    case False
    obtain vid uuids where d: "draw (cg_uuids db) = (vid, uuids)" by fastforce
    let ?row = "\<lparr> pv_id = vid, pv_package_id = vv_package_id v, pv_version = vv_version v,
                  pv_version_kind = vv_version_kind v, pv_artifact_kind = vv_artifact_kind v,
                  pv_display_role = vv_display_role v, pv_published_at = None,
     pv_last_metadata_seen_at = None, pv_last_used_at = None \<rparr>"
    let ?db = "db\<lparr> cg_versions := cg_versions db @ [?row], cg_uuids := uuids \<rparr>"
    obtain rows' where rec: "insert_versions vs ?db = (rows', db')"
      using 2(4) False d by (simp add: Let_def split: prod.splits)
    have new: "\<forall>s \<in> set (cg_versions db). version_key s \<noteq> version_key ?row"
      using False by (simp add: version_key_def list_ex_iff)
    have "catalog_inv ?db"
      using 2(3) d new by (simp add: catalog_inv_def unique_key_append draw_source
          ids_ok_append [OF _ d] ids_ok_draw [OF d])
    then show ?thesis
      using 2(2) [OF False d [symmetric] refl refl] rec by blast
  qed (use 2 in simp)
qed simp

lemma update_version_inv: "catalog_inv db \<Longrightarrow> catalog_inv (updatePackageVersionCatalogRow row desired db)"
  by (simp add: catalog_inv_def updatePackageVersionCatalogRow_def Let_def update_where_def
      ids_ok_map_same unique_key_map_same version_key_def)

lemma foldl_keeps: "P a \<Longrightarrow> (\<And>a x. P a \<Longrightarrow> P (f a x)) \<Longrightarrow> P (foldl f a xs)"
  by (induction xs arbitrary: a) auto

lemma ensure_packages_inv: "catalog_inv db \<Longrightarrow> ensure_packages vs db = (m, db') \<Longrightarrow> catalog_inv db'"
  by (auto simp: ensure_packages_def Let_def split: prod.splits dest: insert_packages_inv)

lemma reclassify_inv: "catalog_inv db \<Longrightarrow> catalog_inv (reclassify m db row)"
  by (simp add: reclassify_def update_version_inv split: option.split)

lemma ensure_versions_inv: "catalog_inv db \<Longrightarrow> ensure_versions vs db = (m, db') \<Longrightarrow> catalog_inv db'"
  by (auto simp: ensure_versions_def Let_def split: prod.splits dest: insert_versions_inv
      intro!: foldl_keeps [where P = catalog_inv] reclassify_inv)

lemma resolve_inv:
  "catalog_inv db \<Longrightarrow> resolvePackageCatalogReferences inputs db = (refs, db') \<Longrightarrow> catalog_inv db'"
  by (auto simp: resolvePackageCatalogReferences_def Let_def split: prod.splits if_splits
      dest: ensure_packages_inv ensure_versions_inv)

lemma record_related_inv: "catalog_inv db \<Longrightarrow> catalog_inv (record_related_version jp t e p parent db related)"
  by (simp add: record_related_version_def Let_def upsert_ref_inv upsert_metadata_inv upsert_relationship_inv
      resolve_inv split: prod.splits)

lemma record_related_all_inv:
  "catalog_inv db \<Longrightarrow> catalog_inv (recordPackageVersionRelatedVersions jp t e p pid vid related db)"
  by (simp add: recordPackageVersionRelatedVersions_def foldl_keeps record_related_inv)

section \<open>A resolved identity is catalogued\<close>

lemma new_map_single [simp]: "new_map [(k, v)] = [(k, v)]" "new_map [] = []"
  by (simp_all add: new_map_def)

lemma select_package_row:
  assumes "catalog_inv db" and "r \<in> set (cg_packages db)"
  shows "selectPackageCatalogRows db [(pk_ecosystem r, pk_package r)] = [r]"
  using unique_key_filter_single [of package_key "cg_packages db" r "(pk_ecosystem r, pk_package r)"] assms
  by (simp add: selectPackageCatalogRows_def package_key_def catalog_inv_def)

lemma select_version_row:
  assumes "catalog_inv db" and "r \<in> set (cg_versions db)" and "pv_package_id r = vv_package_id v" and "pv_version r = vv_version v"
  shows "selectPackageVersionCatalogRows db [v] = [r]"
  using unique_key_filter_single [of version_key "cg_versions db" r "(vv_package_id v, vv_version v)"] assms
  by (simp add: selectPackageVersionCatalogRows_def version_key_def catalog_inv_def)

lemma ensure_package_known:
  assumes "catalog_inv db" and "r \<in> set (cg_packages db)" and "pk_ecosystem r = e" and "pk_package r = p"
  shows "ensure_packages [(e, p)] db = ([(packageKey e p, pk_id r)], db)"
proof -
  have "list_ex (\<lambda>r. pk_ecosystem r = e \<and> pk_package r = p) (cg_packages db)"
    using assms by (auto simp: list_ex_iff)
  then show ?thesis
    using select_package_row [OF assms(1,2)] assms(3,4)
    by (simp add: ensure_packages_def row_key_def)
qed

lemma ensure_package_new:
  assumes "\<not> list_ex (\<lambda>r. pk_ecosystem r = e \<and> pk_package r = p) (cg_packages db)"
  obtains r where "ensure_packages [(e, p)] db =
      ([(packageKey e p, pk_id r)], db\<lparr> cg_packages := cg_packages db @ [r], cg_uuids := snd (draw (cg_uuids db)) \<rparr>)"
    and "pk_ecosystem r = e" and "pk_package r = p"
proof -
  let ?r = "\<lparr> pk_id = fst (draw (cg_uuids db)), pk_ecosystem = e, pk_package = p, pk_latest_package_version_id = None,
     pk_last_metadata_seen_at = None \<rparr>"
  show thesis
    by (rule that [of ?r])
      (use assms in \<open>simp_all add: ensure_packages_def Let_def row_key_def selectPackageCatalogRows_def case_prod_beta\<close>)
qed

lemma ensure_package:
  assumes "catalog_inv db" and "ensure_packages [(e, p)] db = (m, db')"
  obtains r where "r \<in> set (cg_packages db')" and "pk_ecosystem r = e" and "pk_package r = p"
    and "m = [(packageKey e p, pk_id r)]"
proof (cases "list_ex (\<lambda>r. pk_ecosystem r = e \<and> pk_package r = p) (cg_packages db)")
  case True
  then obtain r where r: "r \<in> set (cg_packages db)" "pk_ecosystem r = e" "pk_package r = p"
    by (auto simp: list_ex_iff)
  show thesis
    by (rule that [of r]) (use r assms(2) ensure_package_known [OF assms(1) r] in simp_all)
next
  case False
  then obtain r where "ensure_packages [(e, p)] db =
      ([(packageKey e p, pk_id r)], db\<lparr> cg_packages := cg_packages db @ [r], cg_uuids := snd (draw (cg_uuids db)) \<rparr>)"
    and "pk_ecosystem r = e" and "pk_package r = p"
    by (rule ensure_package_new)
  then show thesis using that [of r] assms(2) by simp
qed

text \<open>Reclassifying a row twice is reclassifying it once.\<close>

definition classified :: "package_version_row \<Rightarrow> package_version_value \<Rightarrow> bool" where
  "classified row v = (\<not> shouldUpdatePackageVersionCatalog row v)"

definition reclassified :: "package_version_row \<Rightarrow> package_version_value \<Rightarrow> package_version_row" where
  "reclassified row v =
     (let u = packageVersionCatalogUpdate row v
      in row\<lparr> pv_version_kind := vv_version_kind u, pv_artifact_kind := vv_artifact_kind u,
              pv_display_role := vv_display_role u \<rparr>)"

lemma reclassified_classified: "classified (reclassified row v) v"
  by (simp add: classified_def reclassified_def shouldUpdatePackageVersionCatalog_def packageVersionCatalogUpdate_def Let_def)

lemma classified_fresh:
  "classified \<lparr> pv_id = i, pv_package_id = a, pv_version = b, pv_version_kind = vv_version_kind v,
      pv_artifact_kind = vv_artifact_kind v, pv_display_role = vv_display_role v, pv_published_at = t,
      pv_last_metadata_seen_at = u, pv_last_used_at = w \<rparr> v"
  by (simp add: classified_def shouldUpdatePackageVersionCatalog_def packageVersionCatalogUpdate_def Let_def)

lemma ensure_version_known:
  assumes "catalog_inv db" and "r \<in> set (cg_versions db)" and "pv_package_id r = vv_package_id v" and "pv_version r = vv_version v"
  shows "ensure_versions [v] db =
      ([(packageVersionKey (vv_package_id v) (vv_version v), pv_id r)],
       if classified r v then db else updatePackageVersionCatalogRow r v db)"
proof -
  have "list_ex (\<lambda>r. pv_package_id r = vv_package_id v \<and> pv_version r = vv_version v) (cg_versions db)"
    using assms by (auto simp: list_ex_iff)
  then show ?thesis
    using select_version_row [OF assms] assms(3,4)
    by (simp add: ensure_versions_def version_row_key_def reclassify_def classified_def)
qed

lemma updated_row:
  assumes "catalog_inv db" and "r \<in> set (cg_versions db)"
  shows "reclassified r v \<in> set (cg_versions (updatePackageVersionCatalogRow r v db))"
  using assms by (auto simp: updatePackageVersionCatalogRow_def reclassified_def Let_def update_where_def image_iff
      intro!: bexI [of _ r])

lemma ensure_version:
  assumes "catalog_inv db" and "ensure_versions [v] db = (m, db')"
  obtains r where "r \<in> set (cg_versions db')" and "pv_package_id r = vv_package_id v" and "pv_version r = vv_version v"
    and "classified r v" and "m = [(packageVersionKey (vv_package_id v) (vv_version v), pv_id r)]"
    and "cg_packages db' = cg_packages db"
proof (cases "list_ex (\<lambda>r. pv_package_id r = vv_package_id v \<and> pv_version r = vv_version v) (cg_versions db)")
  case True
  then obtain r where r: "r \<in> set (cg_versions db)" "pv_package_id r = vv_package_id v" "pv_version r = vv_version v"
    by (auto simp: list_ex_iff)
  note eq = ensure_version_known [OF assms(1) r] assms(2)
  show thesis
  proof (cases "classified r v")
    case True
    then show thesis using that [of r] r eq by simp
  next
    case False
    show thesis
      by (rule that [of "reclassified r v"])
        (use False r eq updated_row [OF assms(1) r(1)] reclassified_classified in
          \<open>auto simp: reclassified_def Let_def updatePackageVersionCatalogRow_def\<close>)
  qed
next
  case False
  let ?r = "\<lparr> pv_id = fst (draw (cg_uuids db)), pv_package_id = vv_package_id v, pv_version = vv_version v,
              pv_version_kind = vv_version_kind v, pv_artifact_kind = vv_artifact_kind v,
              pv_display_role = vv_display_role v, pv_published_at = None,
     pv_last_metadata_seen_at = None, pv_last_used_at = None \<rparr>"
  have eq: "ensure_versions [v] db =
      ([(packageVersionKey (vv_package_id v) (vv_version v), pv_id ?r)],
       db\<lparr> cg_versions := cg_versions db @ [?r], cg_uuids := snd (draw (cg_uuids db)) \<rparr>)"
    using False by (simp add: ensure_versions_def Let_def version_row_key_def selectPackageVersionCatalogRows_def
        case_prod_beta)
  then have "m = [(packageVersionKey (vv_package_id v) (vv_version v), pv_id ?r)]"
    "db' = db\<lparr> cg_versions := cg_versions db @ [?r], cg_uuids := snd (draw (cg_uuids db)) \<rparr>"
    using assms(2) by simp_all
  then show thesis by (intro that [of ?r]) (simp_all add: classified_fresh)
qed

definition version_value :: "string \<Rightarrow> catalog_reference_input \<Rightarrow> string \<Rightarrow> package_version_value" where
  "version_value pid input v =
     (let d = catalogReferenceDefaults input
      in \<lparr> vv_package_id = pid, vv_version = v, vv_version_kind = cl_version_kind d,
           vv_artifact_kind = cl_artifact_kind d, vv_display_role = cl_display_role d \<rparr>)"

lemma version_entries_single:
  assumes "canonicalizePackageIdentity (package_identity.truncate input) = i" and "pid \<noteq> []"
  shows "map snd (version_entries [(packageKey (pi_ecosystem i) (pi_package i), pid)] [input]) =
           (if present (pi_version i) then [version_value pid input (the (pi_version i))] else [])"
  using assms by (cases "pi_version i")
    (simp_all add: version_entries_def version_value_def Let_def opt_or_null_def present_def List.map_filter_simps)

lemma ensure_no_versions: "ensure_versions [] db = ([], db)"
  by (simp add: ensure_versions_def selectPackageVersionCatalogRows_def)

text \<open>What one resolved input looks like, as the catalog has it.\<close>

definition reference_in :: "catalog_db \<Rightarrow> package_identity \<Rightarrow> catalog_reference_input \<Rightarrow> catalog_reference \<Rightarrow> bool" where
  "reference_in db i input ref \<longleftrightarrow>
     (\<exists>p \<in> set (cg_packages db). pk_ecosystem p = pi_ecosystem i \<and> pk_package p = pi_package i \<and>
        rf_package_id ref = Some (pk_id p) \<and>
        (if present (pi_version i)
         then \<exists>r \<in> set (cg_versions db). pv_package_id r = pk_id p \<and> pv_version r = the (pi_version i) \<and>
                classified r (version_value (pk_id p) input (the (pi_version i))) \<and>
                rf_package_version_id ref = Some (pv_id r)
         else rf_package_version_id ref = None))"

lemma package_id_nonempty: "catalog_inv db \<Longrightarrow> p \<in> set (cg_packages db) \<Longrightarrow> pk_id p \<noteq> []"
  by (auto simp: catalog_inv_def ids_ok_def drawn_id_def source_ok_def)

lemma package_entries_single:
  "pi_ecosystem i \<noteq> [] \<Longrightarrow> pi_package i \<noteq> [] \<Longrightarrow>
   package_entries [i] = [(packageKey (pi_ecosystem i) (pi_package i), (pi_ecosystem i, pi_package i))]"
  by (simp add: package_entries_def)

lemma resolve_single:
  assumes inv: "catalog_inv db" and i: "canonicalizePackageIdentity (package_identity.truncate input) = i"
    and ne: "pi_ecosystem i \<noteq> []" "pi_package i \<noteq> []"
    and eq: "resolvePackageCatalogReferences [input] db = (refs, db')"
  obtains ref where "refs = [ref]" and "catalog_inv db'" and "reference_in db' i input ref"
proof -
  obtain m db1 where e1: "ensure_packages [(pi_ecosystem i, pi_package i)] db = (m, db1)" by fastforce
  note inv1 = ensure_packages_inv [OF inv e1]
  obtain p where p: "p \<in> set (cg_packages db1)" "pk_ecosystem p = pi_ecosystem i" "pk_package p = pi_package i"
    "m = [(packageKey (pi_ecosystem i) (pi_package i), pk_id p)]"
    by (rule ensure_package [OF inv e1])
  have pid: "pk_id p \<noteq> []" using package_id_nonempty [OF inv1 p(1)] .
  let ?vs = "if present (pi_version i) then [version_value (pk_id p) input (the (pi_version i))] else []"
  obtain vm db2 where e: "ensure_versions ?vs db1 = (vm, db2)" by fastforce
  with eq ne have e2: "ensure_versions ?vs db1 = (vm, db')" and refs: "refs = [reference_for m vm i]"
    by (simp_all add: resolvePackageCatalogReferences_def Let_def i package_entries_single e1
        version_entries_single [OF i pid] p(4))
  note inv2 = ensure_versions_inv [OF inv1 e2]
  have "reference_in db' i input (reference_for m vm i)"
  proof (cases "present (pi_version i)")
    case True
    with e2 have "ensure_versions [version_value (pk_id p) input (the (pi_version i))] db1 = (vm, db')" by simp
    from ensure_version [OF inv1 this] obtain r where "r \<in> set (cg_versions db')" "pv_package_id r = pk_id p"
      "pv_version r = the (pi_version i)" "classified r (version_value (pk_id p) input (the (pi_version i)))"
      "vm = [(packageVersionKey (pk_id p) (the (pi_version i)), pv_id r)]" "cg_packages db' = cg_packages db1"
      by (auto simp: version_value_def Let_def)
    with p pid True show ?thesis
      by (auto simp: reference_in_def reference_for_def present_def)
  next
    case False
    with e2 p show ?thesis by (auto simp: reference_in_def reference_for_def ensure_no_versions)
  qed
  with refs inv2 that show thesis by blast
qed

lemma resolve_known:
  assumes inv: "catalog_inv db" and i: "canonicalizePackageIdentity (package_identity.truncate input) = i"
    and ne: "pi_ecosystem i \<noteq> []" "pi_package i \<noteq> []"
    and ref: "reference_in db i input ref"
  shows "resolvePackageCatalogReferences [input] db = ([ref], db)"
proof -
  from ref obtain p where p: "p \<in> set (cg_packages db)" "pk_ecosystem p = pi_ecosystem i" "pk_package p = pi_package i"
    "rf_package_id ref = Some (pk_id p)" and v: "if present (pi_version i)
         then \<exists>r \<in> set (cg_versions db). pv_package_id r = pk_id p \<and> pv_version r = the (pi_version i) \<and>
                classified r (version_value (pk_id p) input (the (pi_version i))) \<and>
                rf_package_version_id ref = Some (pv_id r)
         else rf_package_version_id ref = None"
    unfolding reference_in_def by blast
  have pid: "pk_id p \<noteq> []" using package_id_nonempty [OF inv p(1)] .
  note e1 = ensure_package_known [OF inv p(1-3)]
  let ?vs = "if present (pi_version i) then [version_value (pk_id p) input (the (pi_version i))] else []"
  obtain vm where e2: "ensure_versions ?vs db = (vm, db)"
    and vm: "reference_for [(packageKey (pi_ecosystem i) (pi_package i), pk_id p)] vm i = ref"
  proof (cases "present (pi_version i)")
    case True
    with v obtain r where r: "r \<in> set (cg_versions db)" "pv_package_id r = pk_id p" "pv_version r = the (pi_version i)"
      "classified r (version_value (pk_id p) input (the (pi_version i)))" "rf_package_version_id ref = Some (pv_id r)"
      by auto
    show thesis
      by (rule that [of "[(packageVersionKey (pk_id p) (the (pi_version i)), pv_id r)]"])
        (use True r p(4) pid ensure_version_known [OF inv r(1), of "version_value (pk_id p) input (the (pi_version i))"] in
          \<open>simp_all add: version_value_def Let_def reference_for_def present_def\<close>)
  next
    case False
    with v p(4) show thesis
      by (intro that [of "[]"]) (simp_all add: ensure_no_versions reference_for_def)
  qed
  show ?thesis
    using ne e2 vm by (simp add: resolvePackageCatalogReferences_def Let_def i package_entries_single e1
        version_entries_single [OF i pid])
qed

definition sample_catalog :: catalog_db where
  "sample_catalog =
     \<lparr> cg_packages = [], cg_versions = [], cg_refs = [], cg_metadata = [], cg_relationships = [],
       cg_uuids = \<lparr> us_supply = (\<lambda>n. replicate (Suc n) CHR ''u''), us_drawn = 0 \<rparr> \<rparr>"

lemma sample_catalog_inv: "catalog_inv sample_catalog"
  by (auto simp: catalog_inv_def sample_catalog_def source_ok_def intro!: injI dest: arg_cong [where f = length])

text \<open>
  C7: Resolving the identity of an artifact gives it a place in the catalog. The invariant of the
  catalog is kept (one row per canonical package and per version of it, one display-preferred
  reference per version, identifiers that never repeat), the returned identifiers are those of the
  rows that hold the canonical identity, and resolving the same input again returns the same
  identity and writes nothing.\<close>
theorem resolveArtifactIdentity_catalogued:
  assumes "catalog_inv db"
    and "canonicalizeEcosystem (pi_ecosystem input) \<noteq> []"
    and "canonicalizePackageName (pi_ecosystem input) (pi_package input) \<noteq> []"
    and "resolveArtifactIdentity input db = (identity, db')"
  shows "catalog_inv db' \<and>
    (\<exists>p \<in> set (cg_packages db').
       pk_ecosystem p = ai_ecosystem identity \<and> pk_package p = ai_package identity \<and>
       ai_package_id identity = Some (pk_id p) \<and>
       (if present (ai_version identity)
        then \<exists>r \<in> set (cg_versions db'). pv_package_id r = pk_id p \<and> Some (pv_version r) = ai_version identity \<and>
               ai_package_version_id identity = Some (pv_id r)
        else ai_package_version_id identity = None)) \<and>
    resolveArtifactIdentity input db' = (identity, db')"
proof -
  let ?in = "plain_input (package_identity.truncate input)"
  define i where "i = canonicalizePackageIdentity (package_identity.truncate input)"
  have i: "canonicalizePackageIdentity (package_identity.truncate ?in) = i"
    by (simp add: i_def plain_input_def package_identity.defs catalog_reference_input.defs)
  have ne: "pi_ecosystem i \<noteq> []" "pi_package i \<noteq> []"
    using assms(2,3) by (simp_all add: i_def canonicalizePackageIdentity_def package_identity.defs Let_def)
  obtain refs where eq: "resolvePackageCatalogReferences [?in] db = (refs, db')"
    using assms(4) by (simp add: resolveArtifactIdentity_def resolveArtifactIdentities_def split: prod.splits)
  from resolve_single [OF assms(1) i ne eq] obtain ref where ref: "refs = [ref]" "catalog_inv db'"
    "reference_in db' i ?in ref" .
  have id: "identity = buildArtifactIdentity input ref"
    using assms(4) eq ref(1) by (simp add: resolveArtifactIdentity_def resolveArtifactIdentities_def)
  have "resolveArtifactIdentity input db' = (identity, db')"
    using resolve_known [OF ref(2) i ne ref(3)] id
    by (simp add: resolveArtifactIdentity_def resolveArtifactIdentities_def)
  moreover have "ai_ecosystem identity = pi_ecosystem i" "ai_package identity = pi_package i"
    "ai_version identity = pi_version i" "ai_package_id identity = rf_package_id ref"
    "ai_package_version_id identity = rf_package_version_id ref"
    by (simp_all add: id buildArtifactIdentity_def i_def Let_def)
  ultimately show ?thesis
    using ref(2,3) by (fastforce simp: reference_in_def present_def split: option.splits if_splits)
qed

theorem resolveArtifactIdentity_catalogued_witness:
  "let input = \<lparr> pi_ecosystem = ''npm'', pi_package = ''left-pad'', pi_version = Some ''1.3.0'',
                 ii_source = None, ii_parser_version = None \<rparr>;
       (identity, db) = resolveArtifactIdentity input sample_catalog
   in catalog_inv db \<and> ai_package_version_id identity \<noteq> None \<and> resolveArtifactIdentity input db = (identity, db)"
proof -
  let ?input = "\<lparr> pi_ecosystem = ''npm'', pi_package = ''left-pad'', pi_version = Some ''1.3.0'',
                  ii_source = None, ii_parser_version = None \<rparr>"
  obtain identity db where eq: "resolveArtifactIdentity ?input sample_catalog = (identity, db)" by fastforce
  have "canonicalizeEcosystem (pi_ecosystem ?input) \<noteq> []" by code_simp
  moreover have "canonicalizePackageName (pi_ecosystem ?input) (pi_package ?input) \<noteq> []" by code_simp
  moreover have "present (ai_version (fst (resolveArtifactIdentity ?input sample_catalog)))" by code_simp
  ultimately show ?thesis
    using resolveArtifactIdentity_catalogued [OF sample_catalog_inv _ _ eq] eq by auto
qed

end
