(* ===== verification/Access_Control.thy ===== *)
theory Access_Control
  imports Tables
begin

text \<open>
  Roles, capabilities and guards, \<open>middleware/rbac.ts\<close> and \<open>http/guards.ts\<close>, with the tables of
  projects and members of \<open>db/schema/tenancy.ts\<close>. The authenticated caller, set by the middleware
  from a verified token, is a parameter of the guards; an error response is its status, code,
  message and detail.
\<close>

section \<open>Roles\<close>

datatype tenant_role = Owner | Admin | Demo | Member | Guest

fun role_name :: "tenant_role \<Rightarrow> string" where
  "role_name Owner = ''owner''"
| "role_name Admin = ''admin''"
| "role_name Demo = ''demo''"
| "role_name Member = ''member''"
| "role_name Guest = ''guest''"

record role_metadata =
  mt_inviteAssignable :: bool
  mt_directCreateAssignable :: bool
  mt_ownerLevel :: bool
  mt_implicitProjectAccess :: bool

fun TENANT_ROLE_METADATA :: "tenant_role \<Rightarrow> role_metadata" where
  "TENANT_ROLE_METADATA Owner =
     \<lparr> mt_inviteAssignable = False, mt_directCreateAssignable = False, mt_ownerLevel = True, mt_implicitProjectAccess = True \<rparr>"
| "TENANT_ROLE_METADATA Admin =
     \<lparr> mt_inviteAssignable = True, mt_directCreateAssignable = True, mt_ownerLevel = True, mt_implicitProjectAccess = True \<rparr>"
| "TENANT_ROLE_METADATA Demo =
     \<lparr> mt_inviteAssignable = False, mt_directCreateAssignable = True, mt_ownerLevel = False, mt_implicitProjectAccess = True \<rparr>"
| "TENANT_ROLE_METADATA Member =
     \<lparr> mt_inviteAssignable = True, mt_directCreateAssignable = True, mt_ownerLevel = False, mt_implicitProjectAccess = False \<rparr>"
| "TENANT_ROLE_METADATA Guest =
     \<lparr> mt_inviteAssignable = True, mt_directCreateAssignable = True, mt_ownerLevel = False, mt_implicitProjectAccess = False \<rparr>"

definition TENANT_ROLES :: "tenant_role list" where
  "TENANT_ROLES = [Owner, Admin, Demo, Member, Guest]"

definition ASSIGNABLE_TENANT_ROLES :: "tenant_role list" where
  "ASSIGNABLE_TENANT_ROLES = filter (mt_inviteAssignable \<circ> TENANT_ROLE_METADATA) TENANT_ROLES"

definition DIRECT_CREATABLE_TENANT_ROLES :: "tenant_role list" where
  "DIRECT_CREATABLE_TENANT_ROLES = filter (mt_directCreateAssignable \<circ> TENANT_ROLE_METADATA) TENANT_ROLES"

text \<open>\<open>isTenantRole\<close> is the test that the name is one of a role, \<open>tenant_role_of\<close> the role of the name.\<close>

definition tenant_role_of :: "string \<Rightarrow> tenant_role option" where
  "tenant_role_of role = find (\<lambda>r. role_name r = role) TENANT_ROLES"

definition isTenantRole :: "string \<Rightarrow> bool" where
  "isTenantRole role = (role \<in> set (map role_name TENANT_ROLES))"

definition role_flag :: "(role_metadata \<Rightarrow> bool) \<Rightarrow> string \<Rightarrow> bool" where
  "role_flag flag role = (case tenant_role_of role of None \<Rightarrow> False | Some r \<Rightarrow> flag (TENANT_ROLE_METADATA r))"

definition isAssignableTenantRole :: "string \<Rightarrow> bool" where
  "isAssignableTenantRole = role_flag mt_inviteAssignable"

definition isDirectCreatableTenantRole :: "string \<Rightarrow> bool" where
  "isDirectCreatableTenantRole = role_flag mt_directCreateAssignable"

definition isManageableTenantRole :: "string \<Rightarrow> bool" where
  "isManageableTenantRole role = (isTenantRole role \<and> role \<noteq> ''owner'')"

definition isOwnerOrAdmin :: "string \<Rightarrow> bool" where
  "isOwnerOrAdmin = role_flag mt_ownerLevel"

definition hasImplicitProjectAccess :: "string \<Rightarrow> bool" where
  "hasImplicitProjectAccess = role_flag mt_implicitProjectAccess"

section \<open>Capabilities\<close>

definition CAPABILITY_KEYS :: "string list" where
  "CAPABILITY_KEYS =
     [''overview.read'', ''projects.read'', ''projects.create'', ''projects.delete'', ''events.read_tenant'',
      ''events.read_project'', ''performance.read'', ''policy.read_tenant'', ''policy.read_project'',
      ''policy.write_tenant'', ''policy.write_project'', ''rules.read'', ''rules.write'',
      ''policy_assignments.read'', ''policy_assignments.write'', ''policy_preview.read'', ''connectors.read'',
      ''connectors.write'', ''security.read_tenant'', ''security.read_project'', ''security.write'',
      ''packages.read_tenant'', ''packages.read_project'', ''packages.rebuild'', ''tokens.read_all'',
      ''tokens.read_own'', ''tokens.create'', ''tokens.revoke_any'', ''tokens.revoke_own'', ''tokens.rotate_any'',
      ''tokens.rotate_own'', ''members.read'', ''members.invite'', ''members.invite_admin'',
      ''members.invite_unscoped'', ''members.write_roles'', ''members.create_password_user'',
      ''members.reset_password'', ''settings.read'', ''settings.write'', ''tenant.name.write'', ''proxies.read'',
      ''proxies.write'', ''platform.proxies.set_all_tenants'', ''mcp.read'', ''mcp.connect'', ''mcp.use_project'',
      ''mcp.use_tenant'', ''violations.read_tenant'', ''violations.read_project'', ''violations.write'']"

fun ROLE_CAPABILITIES :: "tenant_role \<Rightarrow> string list" where
  "ROLE_CAPABILITIES Owner = CAPABILITY_KEYS"
| "ROLE_CAPABILITIES Admin =
     filter (\<lambda>c. c \<noteq> ''mcp.use_tenant'' \<and> c \<noteq> ''members.create_password_user'' \<and> c \<noteq> ''tenant.name.write'') CAPABILITY_KEYS"
| "ROLE_CAPABILITIES Demo =
     [''overview.read'', ''projects.read'', ''events.read_tenant'', ''events.read_project'', ''performance.read'',
      ''policy.read_tenant'', ''policy.read_project'', ''rules.read'', ''policy_assignments.read'',
      ''policy_preview.read'', ''connectors.read'', ''security.read_tenant'', ''security.read_project'',
      ''packages.read_tenant'', ''packages.read_project'', ''tokens.read_own'', ''tokens.create'', ''settings.read'',
      ''proxies.read'', ''mcp.read'', ''mcp.connect'', ''mcp.use_project'', ''violations.read_tenant'',
      ''violations.read_project'']"
| "ROLE_CAPABILITIES Member =
     [''overview.read'', ''projects.read'', ''projects.create'', ''events.read_project'', ''policy.read_tenant'',
      ''policy.read_project'', ''rules.read'', ''policy_assignments.read'', ''policy_preview.read'',
      ''connectors.read'', ''security.read_project'', ''packages.read_project'', ''tokens.read_own'',
      ''tokens.create'', ''tokens.revoke_own'', ''tokens.rotate_own'', ''members.invite'',
      ''members.invite_unscoped'', ''proxies.read'', ''mcp.read'', ''mcp.connect'', ''mcp.use_project'',
      ''violations.read_project'']"
| "ROLE_CAPABILITIES Guest =
     [''overview.read'', ''projects.read'', ''events.read_project'', ''security.read_project'',
      ''packages.read_project'', ''violations.read_project'']"

definition isTenantCapability :: "string \<Rightarrow> bool" where
  "isTenantCapability c = (c \<in> set CAPABILITY_KEYS)"

record capability_context =
  cp_hasProjectAccess :: "bool option"
  cp_tenantKind :: "string option"
  cp_ownsToken :: "bool option"

definition no_context :: capability_context where
  "no_context = \<lparr> cp_hasProjectAccess = None, cp_tenantKind = None, cp_ownsToken = None \<rparr>"

definition canPerform :: "tenant_role \<Rightarrow> string \<Rightarrow> capability_context \<Rightarrow> bool" where
  "canPerform role capability context =
     (if js_startsWith capability ''platform.'' \<and> cp_tenantKind context \<noteq> Some ''platform'' then False
      else if capability \<notin> set (ROLE_CAPABILITIES role) then False
      else if capability \<in> {''security.read_project'', ''packages.read_project'', ''violations.read_project'',
                            ''policy.read_project'', ''events.read_project'', ''mcp.use_project''}
      then default True (cp_hasProjectAccess context)
      else if capability \<in> {''tokens.revoke_own'', ''tokens.rotate_own''}
      then default False (cp_ownsToken context)
      else True)"

definition getInvitableTenantRoles :: "tenant_role \<Rightarrow> tenant_role list" where
  "getInvitableTenantRoles role =
     (if canPerform role ''members.invite_admin'' no_context then ASSIGNABLE_TENANT_ROLES
      else filter (\<lambda>candidate. candidate \<noteq> Admin) ASSIGNABLE_TENANT_ROLES)"

definition canInviteTenantRole :: "tenant_role \<Rightarrow> tenant_role \<Rightarrow> bool" where
  "canInviteTenantRole actorRole targetRole = (targetRole \<in> set (getInvitableTenantRoles actorRole))"

definition canInviteWithoutProjectScope :: "tenant_role \<Rightarrow> bool" where
  "canInviteWithoutProjectScope role = canPerform role ''members.invite_unscoped'' no_context"

definition getDirectCreatableTenantRoles :: "tenant_role \<Rightarrow> tenant_role list" where
  "getDirectCreatableTenantRoles role =
     (if canPerform role ''members.create_password_user'' no_context then DIRECT_CREATABLE_TENANT_ROLES else [])"

definition canDirectCreateTenantRole :: "tenant_role \<Rightarrow> tenant_role \<Rightarrow> bool" where
  "canDirectCreateTenantRole actorRole targetRole = (targetRole \<in> set (getDirectCreatableTenantRoles actorRole))"

definition shouldAutoJoinCreatedProject :: "tenant_role \<Rightarrow> bool" where
  "shouldAutoJoinCreatedProject role = (role = Member)"

section \<open>Projects and members\<close>

text \<open>\<open>None\<close> stands for the timestamp \<open>infinity\<close> of \<open>effective_to\<close>.\<close>

record project_row =
  pj_id :: string
  pj_tenant_id :: string
  pj_name :: string
  pj_effective_from :: ms
  pj_effective_to :: "ms option"
  pj_created_at :: ms

record project_member_row =
  mb_project_id :: string
  mb_tenant_id :: string
  mb_user_id :: string

record auth_context =
  au_tenantId :: string
  au_tenantKind :: string
  au_userId :: string
  au_role :: string

record http_error =
  he_status :: nat
  he_code :: string
  he_message :: string
  he_detail :: "string option"

type_synonym 'a http_result = "http_error + 'a"

definition errorResult :: "nat \<Rightarrow> string \<Rightarrow> string \<Rightarrow> string option \<Rightarrow> 'a http_result" where
  "errorResult status code message detail =
     Inl \<lparr> he_status = status, he_code = code, he_message = message, he_detail = detail \<rparr>"

definition checkProjectAccess :: "string \<Rightarrow> string \<Rightarrow> string \<Rightarrow> string \<Rightarrow> project_member_row list \<Rightarrow> bool" where
  "checkProjectAccess userId projectId tenantId role members =
     (if hasImplicitProjectAccess role then True
      else list_ex (\<lambda>m. mb_project_id m = projectId \<and> mb_tenant_id m = tenantId \<and> mb_user_id m = userId) members)"

definition current_project :: "string \<Rightarrow> string \<Rightarrow> project_row list \<Rightarrow> project_row option" where
  "current_project projectId tenantId projects =
     first_row (\<lambda>p. pj_id p = projectId \<and> pj_tenant_id p = tenantId \<and> pj_effective_to p = None) projects"

definition resolveProjectWithAccess ::
    "string \<Rightarrow> auth_context \<Rightarrow> bool \<Rightarrow> project_row list \<Rightarrow> project_member_row list \<Rightarrow> project_row http_result" where
  "resolveProjectWithAccess projectId auth hideForbiddenAsNotFound projects members =
     (case current_project projectId (au_tenantId auth) projects of
        None \<Rightarrow> errorResult 404 ''NOT_FOUND'' ''Project not found'' (Some projectId)
      | Some project \<Rightarrow>
          if checkProjectAccess (au_userId auth) projectId (au_tenantId auth) (au_role auth) members then Inr project
          else if hideForbiddenAsNotFound then errorResult 404 ''NOT_FOUND'' ''Project not found'' (Some projectId)
          else errorResult 403 ''FORBIDDEN'' ''Access denied to this project'' None)"

section \<open>Guards\<close>

text \<open>\<open>is_uuid\<close> is the schema \<open>z.string().uuid()\<close>.\<close>

definition validateUuidParam :: "(string \<Rightarrow> bool) \<Rightarrow> string \<Rightarrow> string \<Rightarrow> string http_result" where
  "validateUuidParam is_uuid label value =
     (if is_uuid value then Inr value
      else errorResult 400 ''BAD_REQUEST'' (label @ '' must be a valid UUID'') None)"

definition requireTenantParamAccess :: "(string \<Rightarrow> bool) \<Rightarrow> auth_context \<Rightarrow> string \<Rightarrow> string http_result" where
  "requireTenantParamAccess is_uuid auth param =
     sum_bind (validateUuidParam is_uuid ''Tenant ID'' param) (\<lambda>tenantId.
       if tenantId \<noteq> au_tenantId auth then errorResult 403 ''FORBIDDEN'' ''Access denied to this tenant'' None
       else Inr tenantId)"

definition requireOwnerOrAdmin :: "auth_context \<Rightarrow> unit http_result" where
  "requireOwnerOrAdmin auth =
     (if isOwnerOrAdmin (au_role auth) then Inr ()
      else errorResult 403 ''FORBIDDEN'' ''Owner or admin role required'' None)"

definition requireTenantOwnerOrAdminAccess :: "(string \<Rightarrow> bool) \<Rightarrow> auth_context \<Rightarrow> string \<Rightarrow> string http_result" where
  "requireTenantOwnerOrAdminAccess is_uuid auth param =
     sum_bind (requireTenantParamAccess is_uuid auth param) (\<lambda>tenantId.
     sum_bind (requireOwnerOrAdmin auth) (\<lambda>_. Inr tenantId))"

definition requireTenantCapability :: "auth_context \<Rightarrow> string \<Rightarrow> string \<Rightarrow> unit http_result" where
  "requireTenantCapability auth capability message =
     (case tenant_role_of (au_role auth) of
        Some role \<Rightarrow>
          if canPerform role capability (no_context\<lparr> cp_tenantKind := Some (au_tenantKind auth) \<rparr>) then Inr ()
          else errorResult 403 ''FORBIDDEN'' message None
      | None \<Rightarrow> errorResult 403 ''FORBIDDEN'' message None)"

definition requireTenantCapabilityAccess ::
    "(string \<Rightarrow> bool) \<Rightarrow> auth_context \<Rightarrow> string \<Rightarrow> string \<Rightarrow> string \<Rightarrow> string http_result" where
  "requireTenantCapabilityAccess is_uuid auth capability message param =
     sum_bind (requireTenantParamAccess is_uuid auth param) (\<lambda>tenantId.
     sum_bind (requireTenantCapability auth capability message) (\<lambda>_. Inr tenantId))"

definition requireProjectAccess ::
    "(string \<Rightarrow> bool) \<Rightarrow> auth_context \<Rightarrow> bool \<Rightarrow> string \<Rightarrow> project_row list \<Rightarrow> project_member_row list \<Rightarrow>
     (string \<times> project_row) http_result" where
  "requireProjectAccess is_uuid auth hideForbiddenAsNotFound param projects members =
     sum_bind (validateUuidParam is_uuid ''Project ID'' param) (\<lambda>projectId.
     sum_bind (resolveProjectWithAccess projectId auth hideForbiddenAsNotFound projects members) (\<lambda>project.
       Inr (projectId, project)))"

definition listAccessibleProjectIds :: "auth_context \<Rightarrow> project_member_row list \<Rightarrow> string list option" where
  "listAccessibleProjectIds auth members =
     (if hasImplicitProjectAccess (au_role auth) then None
      else Some (map mb_project_id (filter (\<lambda>m. mb_user_id m = au_userId auth \<and> mb_tenant_id m = au_tenantId auth) members)))"

section \<open>Properties\<close>

text \<open>The capabilities a role includes of another.\<close>

lemma capabilities_included:
  "set (ROLE_CAPABILITIES Guest) \<subseteq> set (ROLE_CAPABILITIES Member)"
  "set (ROLE_CAPABILITIES Member) \<subseteq> set (ROLE_CAPABILITIES Admin)"
  "set (ROLE_CAPABILITIES Demo) \<subseteq> set (ROLE_CAPABILITIES Admin)"
  "set (ROLE_CAPABILITIES Admin) \<subseteq> set (ROLE_CAPABILITIES Owner)"
proof -
  have included: "list_all (\<lambda>c. list_ex (\<lambda>d. c = d) (ROLE_CAPABILITIES s)) (ROLE_CAPABILITIES r) \<Longrightarrow>
      set (ROLE_CAPABILITIES r) \<subseteq> set (ROLE_CAPABILITIES s)" for r s
    by (auto simp: list_all_iff list_ex_iff)
  show "set (ROLE_CAPABILITIES Guest) \<subseteq> set (ROLE_CAPABILITIES Member)"
    "set (ROLE_CAPABILITIES Member) \<subseteq> set (ROLE_CAPABILITIES Admin)"
    "set (ROLE_CAPABILITIES Demo) \<subseteq> set (ROLE_CAPABILITIES Admin)"
    by (rule included, code_simp)+
  show "set (ROLE_CAPABILITIES Admin) \<subseteq> set (ROLE_CAPABILITIES Owner)" by auto
qed

lemma canPerform_mono:
  assumes "set (ROLE_CAPABILITIES r) \<subseteq> set (ROLE_CAPABILITIES s)" and "canPerform r c context"
  shows "canPerform s c context"
proof -
  have c: "c \<in> set (ROLE_CAPABILITIES r)"
    by (rule ccontr) (use assms(2) in \<open>simp only: canPerform_def if_True if_cancel not_False_eq_True\<close>)
  then have "c \<in> set (ROLE_CAPABILITIES s)" using assms(1) by (rule subsetD [rotated])
  with c have "canPerform s c context = canPerform r c context"
    by (simp only: canPerform_def)
  with assms(2) show ?thesis by (simp only:)
qed

text \<open>
  Privileges grow with the role. Whatever the context, what a guest may do a member may do, what
  a member or a demo user may do an admin may do, and what an admin may do an owner may do; and no
  role has a platform capability in a tenant that is not the platform tenant.
\<close>

theorem capabilities_monotone:
  "(canPerform Guest c context \<longrightarrow> canPerform Member c context) \<and>
   (canPerform Member c context \<or> canPerform Demo c context \<longrightarrow> canPerform Admin c context) \<and>
   (canPerform Admin c context \<longrightarrow> canPerform Owner c context) \<and>
   (cp_tenantKind context \<noteq> Some ''platform'' \<and> js_startsWith c ''platform.'' \<longrightarrow> \<not> canPerform r c context)"
proof -
  have "\<not> canPerform r c context" if "cp_tenantKind context \<noteq> Some ''platform''" "js_startsWith c ''platform.''"
    using that by (simp add: canPerform_def)
  with canPerform_mono [OF capabilities_included(1)] canPerform_mono [OF capabilities_included(2)]
    canPerform_mono [OF capabilities_included(3)] canPerform_mono [OF capabilities_included(4)]
  show ?thesis by blast
qed

theorem capabilities_monotone_witness:
  "canPerform Guest ''projects.read'' no_context \<and> canPerform Owner ''projects.read'' no_context \<and>
   \<not> canPerform Owner ''platform.proxies.set_all_tenants'' no_context"
proof -
  have "canPerform Guest ''projects.read'' no_context" by code_simp
  moreover have "js_startsWith ''platform.proxies.set_all_tenants'' ''platform.''" by (simp add: js_startsWith_def)
  ultimately show ?thesis
    using capabilities_monotone [of "''projects.read''" no_context Owner]
      capabilities_monotone [of "''platform.proxies.set_all_tenants''" no_context Owner]
    by (simp add: no_context_def)
qed


text \<open>
  The roles as the head comment of \<open>middleware/rbac.ts\<close> describes them: the demo role is not
  read-only, the guest role manages nothing, and the admin role is less than the owner.
\<close>

definition reading :: "string \<Rightarrow> bool" where
  "reading c = (c \<in> {''overview.read'', ''projects.read'', ''events.read_project'', ''security.read_project'',
                    ''packages.read_project'', ''violations.read_project''})"

lemma roles_differ_from_comment:
  "canPerform Demo ''tokens.create'' no_context \<and> list_all reading (ROLE_CAPABILITIES Guest) \<and>
   \<not> canPerform Admin ''tenant.name.write'' no_context \<and> canPerform Owner ''tenant.name.write'' no_context"
  unfolding reading_def by code_simp

end
