(* ===== verification/Project_Tokens.thy ===== *)
theory Project_Tokens
  imports Access_Control
begin

text \<open>
  Projects and their access tokens, \<open>features/tokens/service.ts\<close> with the handlers of
  \<open>features/tokens/routes.ts\<close>, \<open>features/projects/service.ts\<close>, and the token lookup of a check,
  \<open>loadAuthorizedProjectToken\<close> of \<open>connect/check-service.ts\<close>.

  Parameters: \<open>hash\<close> is \<open>hashProjectToken\<close> (SHA-256); the random tokens of \<open>generateProjectToken\<close> are
  drawn from a stream of their own. The unique index on the token hash is modelled: an insert that
  breaks it throws.
\<close>

section \<open>Tables\<close>

record token_row =
  tk_id :: string
  tk_project_id :: string
  tk_tenant_id :: string
  tk_name :: string
  tk_owner_user_id :: string
  tk_created_by_user_id :: string
  tk_token_hash :: string
  tk_token_prefix :: string
  tk_created_at :: ms
  tk_last_used_at :: "ms option"
  tk_expires_at :: "ms option"
  tk_revoked_at :: "ms option"
  tk_revoked_by_user_id :: "string option"

record tenancy_db =
  tn_projects :: "project_row list"
  tn_members :: "project_member_row list"
  tn_tokens :: "token_row list"
  tn_uuids :: uuid_source
  tn_secrets :: uuid_source

section \<open>Permissions\<close>

definition canCreateProjectToken :: "string \<Rightarrow> bool" where
  "canCreateProjectToken role =
     (case tenant_role_of role of None \<Rightarrow> False | Some r \<Rightarrow> canPerform r ''tokens.create'' no_context)"

definition canReadProjectTokens :: "string \<Rightarrow> bool \<times> bool \<times> bool" where
  "canReadProjectTokens role =
     (case tenant_role_of role of
        None \<Rightarrow> (False, False, False)
      | Some r \<Rightarrow> (canPerform r ''tokens.read_all'' no_context, canPerform r ''tokens.read_own'' no_context,
                   canPerform r ''members.read'' no_context))"

datatype token_action = Revoke | Rotate

definition canManageExistingToken :: "string \<Rightarrow> token_action \<Rightarrow> bool \<Rightarrow> bool" where
  "canManageExistingToken role action ownsToken =
     (case tenant_role_of role of
        None \<Rightarrow> False
      | Some r \<Rightarrow>
          (case action of
             Revoke \<Rightarrow> canPerform r ''tokens.revoke_any'' no_context \<or>
                       canPerform r ''tokens.revoke_own'' (no_context\<lparr> cp_ownsToken := Some ownsToken \<rparr>)
           | Rotate \<Rightarrow> canPerform r ''tokens.rotate_any'' no_context \<or>
                       canPerform r ''tokens.rotate_own'' (no_context\<lparr> cp_ownsToken := Some ownsToken \<rparr>)))"

section \<open>Service\<close>

record generated_token =
  gt_token :: string
  gt_tokenHash :: string
  gt_tokenPrefix :: string

definition generateProjectToken :: "(string \<Rightarrow> string) \<Rightarrow> uuid_source \<Rightarrow> generated_token \<times> uuid_source" where
  "generateProjectToken hash secrets =
     (let (token, secrets') = draw secrets
      in (\<lparr> gt_token = token, gt_tokenHash = hash token,
            gt_tokenPrefix = drop (length token - 6) token \<rparr>, secrets'))"

record issued_token =
  is_token :: string
  is_id :: string
  is_prefix :: string
  is_expires_at :: "ms option"

definition insert_token ::
    "(string \<Rightarrow> string) \<Rightarrow> ms \<Rightarrow> string \<Rightarrow> string \<Rightarrow> string \<Rightarrow> string \<Rightarrow> string \<Rightarrow> ms option \<Rightarrow> tenancy_db \<Rightarrow>
     js_error + (issued_token \<times> tenancy_db)" where
  "insert_token hash now projectId tenantId name ownerId creatorId expiresAt db =
     (let (generated, secrets) = generateProjectToken hash (tn_secrets db);
          (rowId, uuids) = draw (tn_uuids db);
          row = \<lparr> tk_id = rowId, tk_project_id = projectId, tk_tenant_id = tenantId, tk_name = name,
                  tk_owner_user_id = ownerId, tk_created_by_user_id = creatorId,
                  tk_token_hash = gt_tokenHash generated, tk_token_prefix = gt_tokenPrefix generated,
                  tk_created_at = now, tk_last_used_at = None, tk_expires_at = expiresAt, tk_revoked_at = None,
                  tk_revoked_by_user_id = None \<rparr>
      in if list_ex (\<lambda>t. tk_token_hash t = gt_tokenHash generated) (tn_tokens db)
         then Inl (AppError ''project_tokens_token_hash_idx'')
         else Inr (\<lparr> is_token = gt_token generated, is_id = rowId, is_prefix = gt_tokenPrefix generated,
                     is_expires_at = expiresAt \<rparr>,
                   db\<lparr> tn_tokens := tn_tokens db @ [row], tn_uuids := uuids, tn_secrets := secrets \<rparr>))"

definition createProjectToken ::
    "(string \<Rightarrow> string) \<Rightarrow> ms \<Rightarrow> string \<Rightarrow> string \<Rightarrow> string \<Rightarrow> string \<Rightarrow> ms option \<Rightarrow> tenancy_db \<Rightarrow>
     js_error + (issued_token \<times> tenancy_db)" where
  "createProjectToken hash now projectId tenantId userId name expiresAt db =
     insert_token hash now projectId tenantId name userId userId expiresAt db"

text \<open>Without the display of the actors, which the identity service resolves.\<close>

definition listProjectTokens :: "string \<Rightarrow> string \<Rightarrow> bool \<Rightarrow> tenancy_db \<Rightarrow> token_row list" where
  "listProjectTokens projectId userId canReadAll db =
     sort_key tk_created_at
       (filter (\<lambda>t. tk_project_id t = projectId \<and> (canReadAll \<or> tk_owner_user_id t = userId)) (tn_tokens db))"

definition loadExistingProjectToken :: "string \<Rightarrow> string \<Rightarrow> tenancy_db \<Rightarrow> token_row option" where
  "loadExistingProjectToken tokenId projectId db =
     first_row (\<lambda>t. tk_id t = tokenId \<and> tk_project_id t = projectId) (tn_tokens db)"

definition revoke_rows :: "ms \<Rightarrow> string \<Rightarrow> (token_row \<Rightarrow> bool) \<Rightarrow> tenancy_db \<Rightarrow> tenancy_db" where
  "revoke_rows now userId P db =
     db\<lparr> tn_tokens := update_where (\<lambda>t. P t \<and> tk_revoked_at t = None)
           (\<lambda>t. t\<lparr> tk_expires_at := Some now, tk_revoked_at := Some now, tk_revoked_by_user_id := Some userId \<rparr>)
           (tn_tokens db) \<rparr>"

definition revokeProjectToken :: "ms \<Rightarrow> string \<Rightarrow> string \<Rightarrow> string \<Rightarrow> tenancy_db \<Rightarrow> string option \<times> tenancy_db" where
  "revokeProjectToken now tokenId projectId userId db =
     (map_option tk_id (first_row (\<lambda>t. tk_id t = tokenId \<and> tk_project_id t = projectId \<and> tk_revoked_at t = None) (tn_tokens db)),
      revoke_rows now userId (\<lambda>t. tk_id t = tokenId \<and> tk_project_id t = projectId) db)"

definition rotateProjectToken ::
    "(string \<Rightarrow> string) \<Rightarrow> ms \<Rightarrow> string \<Rightarrow> string \<Rightarrow> string \<Rightarrow> string \<Rightarrow> token_row \<Rightarrow> tenancy_db \<Rightarrow>
     js_error + (issued_token \<times> tenancy_db)" where
  "rotateProjectToken hash now tokenId projectId tenantId userId existing db =
     sum_bind (insert_token hash now projectId tenantId (tk_name existing) (tk_owner_user_id existing) userId
                 (tk_expires_at existing) db) (\<lambda>(issued, db1).
       Inr (issued, revoke_rows now userId (\<lambda>t. tk_id t = tokenId \<and> tk_project_id t = projectId) db1))"

section \<open>Projects\<close>

definition createProject :: "ms \<Rightarrow> string \<Rightarrow> string \<Rightarrow> string \<Rightarrow> string \<Rightarrow> tenancy_db \<Rightarrow> project_row \<times> tenancy_db" where
  "createProject now tenantId userId role name db =
     (let (rowId, uuids) = draw (tn_uuids db);
          row = \<lparr> pj_id = rowId, pj_tenant_id = tenantId, pj_name = name, pj_effective_from = now,
                  pj_effective_to = None, pj_created_at = now \<rparr>;
          joins = (case tenant_role_of role of None \<Rightarrow> False | Some r \<Rightarrow> shouldAutoJoinCreatedProject r)
      in (row, db\<lparr> tn_projects := tn_projects db @ [row],
                   tn_members := tn_members db @
                     (if joins then [\<lparr> mb_project_id = rowId, mb_tenant_id = tenantId, mb_user_id = userId \<rparr>] else []),
                   tn_uuids := uuids \<rparr>))"

definition deleteProject :: "ms \<Rightarrow> string \<Rightarrow> string \<Rightarrow> tenancy_db \<Rightarrow> string option \<times> tenancy_db" where
  "deleteProject now projectId userId db =
     (if list_ex (\<lambda>p. pj_id p = projectId \<and> pj_effective_to p = None) (tn_projects db)
      then (Some projectId,
            revoke_rows now userId (\<lambda>t. tk_project_id t = projectId)
              (db\<lparr> tn_projects := update_where (\<lambda>p. pj_id p = projectId \<and> pj_effective_to p = None)
                     (\<lambda>p. p\<lparr> pj_effective_to := Some now \<rparr>) (tn_projects db) \<rparr>))
      else (None, db))"

section \<open>The handlers\<close>

text \<open>The lookup every token handler starts with; a caller without access is told nothing is there.\<close>

definition token_project :: "auth_context \<Rightarrow> string \<Rightarrow> tenancy_db \<Rightarrow> project_row http_result" where
  "token_project auth projectId db =
     (case current_project projectId (au_tenantId auth) (tn_projects db) of
        None \<Rightarrow> errorResult 404 ''NOT_FOUND'' ''Project not found'' (Some projectId)
      | Some project \<Rightarrow>
          if checkProjectAccess (au_userId auth) projectId (au_tenantId auth) (au_role auth) (tn_members db)
          then Inr project else errorResult 404 ''NOT_FOUND'' ''Project not found'' (Some projectId))"

text \<open>An exception of the service becomes the status 500 of the framework.\<close>

definition service_call :: "js_error + 'a \<Rightarrow> 'a http_result" where
  "service_call r = (case r of Inl _ \<Rightarrow> errorResult 500 '''' ''Internal Server Error'' None | Inr x \<Rightarrow> Inr x)"

definition createProjectTokenRoute ::
    "(string \<Rightarrow> string) \<Rightarrow> ms \<Rightarrow> auth_context \<Rightarrow> string \<Rightarrow> string \<Rightarrow> ms option \<Rightarrow> tenancy_db \<Rightarrow>
     (issued_token \<times> tenancy_db) http_result" where
  "createProjectTokenRoute hash now auth projectId name expires_at db =
     sum_bind (token_project auth projectId db) (\<lambda>_.
       if \<not> canCreateProjectToken (au_role auth)
       then errorResult 403 ''FORBIDDEN'' ''Access denied to create project tokens'' None
       else service_call (createProjectToken hash now projectId (au_tenantId auth) (au_userId auth) name expires_at db))"

definition listProjectTokensRoute :: "auth_context \<Rightarrow> string \<Rightarrow> tenancy_db \<Rightarrow> token_row list http_result" where
  "listProjectTokensRoute auth projectId db =
     sum_bind (token_project auth projectId db) (\<lambda>_.
       let (canReadAll, canReadOwn, _) = canReadProjectTokens (au_role auth)
       in if \<not> canReadAll \<and> \<not> canReadOwn then errorResult 403 ''FORBIDDEN'' ''Access denied to project tokens'' None
          else Inr (listProjectTokens projectId (au_userId auth) canReadAll db))"

definition manageable_token :: "auth_context \<Rightarrow> token_action \<Rightarrow> string \<Rightarrow> string \<Rightarrow> tenancy_db \<Rightarrow> token_row http_result" where
  "manageable_token auth action projectId tokenId db =
     sum_bind (token_project auth projectId db) (\<lambda>_.
       case loadExistingProjectToken tokenId projectId db of
         None \<Rightarrow> errorResult 404 ''NOT_FOUND'' ''Token not found or already revoked'' None
       | Some existing \<Rightarrow>
           if tk_revoked_at existing \<noteq> None
           then errorResult 404 ''NOT_FOUND'' ''Token not found or already revoked'' None
           else if \<not> canManageExistingToken (au_role auth) action (tk_owner_user_id existing = au_userId auth)
           then errorResult 403 ''FORBIDDEN'' ''Access denied to this token'' None
           else Inr existing)"

definition revokeProjectTokenRoute ::
    "ms \<Rightarrow> auth_context \<Rightarrow> string \<Rightarrow> string \<Rightarrow> tenancy_db \<Rightarrow> (string \<times> tenancy_db) http_result" where
  "revokeProjectTokenRoute now auth projectId tokenId db =
     sum_bind (manageable_token auth Revoke projectId tokenId db) (\<lambda>_.
       case revokeProjectToken now tokenId projectId (au_userId auth) db of
         (None, _) \<Rightarrow> errorResult 404 ''NOT_FOUND'' ''Token not found or already revoked'' None
       | (Some revoked, db') \<Rightarrow> Inr (revoked, db'))"

definition rotateProjectTokenRoute ::
    "(string \<Rightarrow> string) \<Rightarrow> ms \<Rightarrow> auth_context \<Rightarrow> string \<Rightarrow> string \<Rightarrow> tenancy_db \<Rightarrow> (issued_token \<times> tenancy_db) http_result" where
  "rotateProjectTokenRoute hash now auth projectId tokenId db =
     sum_bind (manageable_token auth Rotate projectId tokenId db) (\<lambda>existing.
       service_call (rotateProjectToken hash now tokenId projectId (au_tenantId auth) (au_userId auth) existing db))"

section \<open>The lookup of a check\<close>

datatype tenant_scope = Owner_only | All_tenants

record proxy_context =
  px_proxyId :: string
  px_tenantId :: string
  px_tenantScope :: "tenant_scope option"
  px_proxyIp :: "string option"

definition proxyAllowsTenant :: "proxy_context \<Rightarrow> string \<Rightarrow> bool" where
  "proxyAllowsTenant proxy tenantId = (px_tenantScope proxy = Some All_tenants \<or> tenantId = px_tenantId proxy)"

definition token_live :: "ms \<Rightarrow> token_row \<Rightarrow> bool" where
  "token_live now t =
     (tk_revoked_at t = None \<and> (case tk_expires_at t of None \<Rightarrow> True | Some e \<Rightarrow> now < e))"

definition loadAuthorizedProjectToken ::
    "(string \<Rightarrow> string) \<Rightarrow> ms \<Rightarrow> proxy_context \<Rightarrow> string \<Rightarrow> tenancy_db \<Rightarrow> token_row option" where
  "loadAuthorizedProjectToken hash now proxy projectToken db =
     (case first_row (\<lambda>t. tk_token_hash t = hash projectToken \<and>
               list_ex (\<lambda>p. pj_id p = tk_project_id t \<and> pj_effective_to p = None) (tn_projects db)) (tn_tokens db) of
        None \<Rightarrow> None
      | Some t \<Rightarrow> if \<not> proxyAllowsTenant proxy (tk_tenant_id t) \<or> \<not> token_live now t then None else Some t)"

definition scheduleProjectTokenLastUsedUpdate :: "ms \<Rightarrow> token_row \<Rightarrow> tenancy_db \<Rightarrow> tenancy_db" where
  "scheduleProjectTokenLastUsedUpdate now t db =
     db\<lparr> tn_tokens := update_where (\<lambda>x. tk_id x = tk_id t) (\<lambda>x. x\<lparr> tk_last_used_at := Some now \<rparr>) (tn_tokens db) \<rparr>"

section \<open>Token hashes\<close>

definition hash_key :: "token_row \<Rightarrow> string option" where
  "hash_key t = Some (tk_token_hash t)"

definition tokens_ok :: "tenancy_db \<Rightarrow> bool" where
  "tokens_ok db = (unique_key hash_key (tn_tokens db) \<and> source_ok (tn_uuids db) \<and> ids_ok tk_id (tn_uuids db) (tn_tokens db))"

lemma insert_token_spec:
  assumes "insert_token hash now projectId tenantId name ownerId creatorId expiresAt db = Inr (issued, db')"
  shows "\<exists>t. tn_tokens db' = tn_tokens db @ [t] \<and> tk_token_hash t = hash (is_token issued) \<and> tk_project_id t = projectId \<and>
     tk_tenant_id t = tenantId \<and> tk_owner_user_id t = ownerId \<and> tk_expires_at t = expiresAt \<and> tk_revoked_at t = None \<and>
     (\<forall>x \<in> set (tn_tokens db). tk_token_hash x \<noteq> tk_token_hash t) \<and> draw (tn_uuids db) = (tk_id t, tn_uuids db') \<and>
     tn_projects db' = tn_projects db \<and> tn_members db' = tn_members db"
  using assms
  by (auto simp: insert_token_def generateProjectToken_def Let_def case_prod_beta list_ex_iff split: if_splits)

lemma insert_token_ok:
  "insert_token hash now projectId tenantId name ownerId creatorId expiresAt db = Inr (issued, db') \<Longrightarrow>
   tokens_ok db \<Longrightarrow> tokens_ok db'"
  by (auto dest!: insert_token_spec simp: tokens_ok_def unique_key_append hash_key_def draw_source intro: ids_ok_append)

lemma revoke_rows_ok: "tokens_ok (revoke_rows now userId P db) = tokens_ok db"
  by (simp add: tokens_ok_def revoke_rows_def update_where_def unique_key_map_same ids_ok_map_same hash_key_def)

lemma rotateProjectToken_Inr:
  "rotateProjectToken hash now tokenId projectId tenantId userId existing db = Inr (issued, db') \<longleftrightarrow>
     (\<exists>db1. insert_token hash now projectId tenantId (tk_name existing) (tk_owner_user_id existing) userId
              (tk_expires_at existing) db = Inr (issued, db1) \<and>
            db' = revoke_rows now userId (\<lambda>t. tk_id t = tokenId \<and> tk_project_id t = projectId) db1)"
  by (auto simp: rotateProjectToken_def sum_bind_Inr_iff)

text \<open>The token of a hash is the one row that has it.\<close>

lemma authorized_row:
  assumes "tokens_ok db" and "t \<in> set (tn_tokens db)" and "tk_token_hash t = hash secret"
  shows "loadAuthorizedProjectToken hash now proxy secret db =
     (if list_ex (\<lambda>p. pj_id p = tk_project_id t \<and> pj_effective_to p = None) (tn_projects db) \<and>
         proxyAllowsTenant proxy (tk_tenant_id t) \<and> token_live now t then Some t else None)"
proof -
  have only: "filter (\<lambda>x. tk_token_hash x = hash secret) (tn_tokens db) = [t]"
    using unique_key_filter_single [of hash_key "tn_tokens db" t] assms by (simp add: tokens_ok_def hash_key_def)
  have "first_row (\<lambda>x. tk_token_hash x = hash secret \<and>
               list_ex (\<lambda>p. pj_id p = tk_project_id x \<and> pj_effective_to p = None) (tn_projects db)) (tn_tokens db) =
      find (\<lambda>x. list_ex (\<lambda>p. pj_id p = tk_project_id x \<and> pj_effective_to p = None) (tn_projects db))
        (filter (\<lambda>x. tk_token_hash x = hash secret) (tn_tokens db))"
    unfolding first_row_def find_filter filter_filter by (simp add: conj_commute)
  then show ?thesis by (simp add: loadAuthorizedProjectToken_def only)
qed

section \<open>Dead tokens stay dead\<close>

text \<open>A token is dead when its row is revoked, or when its project has been deleted.\<close>

definition dead_token :: "string \<Rightarrow> tenancy_db \<Rightarrow> bool" where
  "dead_token h db = list_ex (\<lambda>t. tk_token_hash t = h \<and> tk_revoked_at t \<noteq> None) (tn_tokens db)"

lemma list_ex_update_where:
  "list_ex Q (update_where P f rows) = list_ex (\<lambda>r. if P r then Q (f r) else Q r) rows"
  by (induction rows) (auto simp: update_where_def)

text \<open>The requests that change the tokens, from any caller and at any time.\<close>

inductive token_step :: "(string \<Rightarrow> string) \<Rightarrow> tenancy_db \<Rightarrow> tenancy_db \<Rightarrow> bool" for hash where
  create: "createProjectTokenRoute hash now auth projectId name expires_at db = Inr (issued, db') \<Longrightarrow> token_step hash db db'"
| revoke: "revokeProjectTokenRoute now auth projectId tokenId db = Inr (x, db') \<Longrightarrow> token_step hash db db'"
| rotate: "rotateProjectTokenRoute hash now auth projectId tokenId db = Inr (issued, db') \<Longrightarrow> token_step hash db db'"
| rotate_stale: "rotateProjectToken hash now tokenId projectId tenantId userId existing db = Inr (issued, db') \<Longrightarrow>
    token_step hash db db'"
| new_project: "createProject now tenantId userId role name db = (row, db') \<Longrightarrow> token_step hash db db'"
| delete_project: "deleteProject now projectId userId db = (x, db') \<Longrightarrow> token_step hash db db'"
| used: "token_step hash db (scheduleProjectTokenLastUsedUpdate now t db)"

inductive_cases token_stepE: "token_step hash db db'"

lemma service_call_Inr [simp]: "service_call r = Inr x \<longleftrightarrow> r = Inr x"
  by (auto simp: service_call_def errorResult_def split: sum.split)

lemma revoke_rows_dead: "dead_token h db \<Longrightarrow> dead_token h (revoke_rows now userId P db)"
  by (simp add: dead_token_def revoke_rows_def list_ex_update_where) (auto simp: list_ex_iff)

lemma insert_token_dead:
  "insert_token hash now projectId tenantId name ownerId creatorId expiresAt db = Inr (issued, db') \<Longrightarrow>
   dead_token h db \<Longrightarrow> dead_token h db'"
  by (auto dest!: insert_token_spec simp: dead_token_def)

lemma rotate_keeps:
  assumes "rotateProjectToken hash now tokenId projectId tenantId userId existing db = Inr (issued, db')"
  shows "tokens_ok db \<longrightarrow> tokens_ok db'" and "dead_token h db \<longrightarrow> dead_token h db'"
  using assms
  by (auto simp: rotateProjectToken_Inr revoke_rows_ok dest: insert_token_ok insert_token_dead
      intro!: revoke_rows_dead)

lemma used_keeps:
  "tokens_ok (scheduleProjectTokenLastUsedUpdate now t db) = tokens_ok db"
  "dead_token h (scheduleProjectTokenLastUsedUpdate now t db) = dead_token h db"
proof -
  show "tokens_ok (scheduleProjectTokenLastUsedUpdate now t db) = tokens_ok db"
    by (simp add: tokens_ok_def scheduleProjectTokenLastUsedUpdate_def update_where_def unique_key_map_same ids_ok_map_same hash_key_def)
  show "dead_token h (scheduleProjectTokenLastUsedUpdate now t db) = dead_token h db"
    by (simp add: dead_token_def scheduleProjectTokenLastUsedUpdate_def list_ex_update_where)
qed

lemma delete_keeps:
  assumes "deleteProject now projectId userId db = (x, db')"
  shows "tokens_ok db \<longrightarrow> tokens_ok db'" and "dead_token h db \<longrightarrow> dead_token h db'"
proof -
  let ?db = "db\<lparr> tn_projects := update_where (\<lambda>p. pj_id p = projectId \<and> pj_effective_to p = None)
     (\<lambda>p. p\<lparr> pj_effective_to := Some now \<rparr>) (tn_projects db) \<rparr>"
  have "db' = db \<or> db' = revoke_rows now userId (\<lambda>t. tk_project_id t = projectId) ?db"
    using assms by (auto simp: deleteProject_def split: if_splits)
  moreover have "tokens_ok ?db = tokens_ok db" "dead_token h ?db = dead_token h db"
    by (simp_all add: tokens_ok_def dead_token_def)
  ultimately show "tokens_ok db \<longrightarrow> tokens_ok db'" and "dead_token h db \<longrightarrow> dead_token h db'"
    using revoke_rows_ok revoke_rows_dead by auto
qed

lemma token_step_keeps:
  assumes "token_step hash db db'"
  shows "(tokens_ok db \<longrightarrow> tokens_ok db') \<and> (dead_token h db \<longrightarrow> dead_token h db')"
  using assms
proof (cases rule: token_step.cases)
  case (create now auth projectId name expires_at issued)
  then show ?thesis
    by (auto simp: createProjectTokenRoute_def createProjectToken_def sum_bind_Inr_iff errorResult_def
        split: if_splits dest: insert_token_ok insert_token_dead)
next
  case (revoke now auth projectId tokenId x)
  then show ?thesis
    by (auto simp: revokeProjectTokenRoute_def revokeProjectToken_def sum_bind_Inr_iff errorResult_def revoke_rows_ok
        split: option.splits intro: revoke_rows_dead)
next
  case (rotate now auth projectId tokenId issued)
  then show ?thesis
    by (auto simp: rotateProjectTokenRoute_def sum_bind_Inr_iff dest: rotate_keeps [THEN mp])
next
  case (rotate_stale now tokenId projectId tenantId userId existing issued)
  show ?thesis using rotate_keeps [OF rotate_stale] by simp
next
  case (new_project now tenantId userId role name row)
  have "ids_ok tk_id (tn_uuids db) (tn_tokens db) \<Longrightarrow> ids_ok tk_id (snd (draw (tn_uuids db))) (tn_tokens db)"
    by (rule ids_ok_draw [OF prod.collapse [symmetric]])
  with new_project show ?thesis
    by (auto simp: createProject_def Let_def case_prod_beta tokens_ok_def dead_token_def)
next
  case (delete_project now projectId userId x)
  then show ?thesis using delete_keeps by blast
next
  case (used now t)
  then show ?thesis by (simp add: used_keeps)
qed

lemma token_run_keeps:
  "(token_step hash)\<^sup>*\<^sup>* db db' \<Longrightarrow> tokens_ok db \<Longrightarrow> dead_token h db \<Longrightarrow> tokens_ok db' \<and> dead_token h db'"
  by (induction rule: rtranclp_induct) (use token_step_keeps in blast)+

lemma dead_unauthorized:
  assumes "tokens_ok db" and "dead_token (hash secret) db"
  shows "loadAuthorizedProjectToken hash now proxy secret db = None"
proof -
  from assms(2) obtain t where t: "t \<in> set (tn_tokens db)" "tk_token_hash t = hash secret" "tk_revoked_at t \<noteq> None"
    by (auto simp: dead_token_def list_ex_iff)
  then show ?thesis using authorized_row [OF assms(1) t(1), of hash secret] by (simp add: token_live_def)
qed

lemma revoke_rows_kills:
  "t \<in> set (tn_tokens db) \<Longrightarrow> P t \<Longrightarrow> dead_token (tk_token_hash t) (revoke_rows now userId P db)"
  by (simp add: dead_token_def revoke_rows_def list_ex_update_where) (auto simp: list_ex_iff)

section \<open>Properties\<close>

text \<open>
  C10: revocation is final. After a request to revoke a token succeeds, after one to rotate it, or
  after its project is deleted, the token never opens a check again: not for any proxy, not at any
  later time, and not after any further requests of any callers, a rotation that raced with the
  revocation included.
\<close>

theorem revocation_is_final:
  assumes "tokens_ok db0" and "t \<in> set (tn_tokens db0)" and "tk_token_hash t = hash secret"
    and "(tk_project_id t = projectId \<and> tk_id t = tokenId \<and>
            (\<exists>x. revokeProjectTokenRoute now auth projectId tokenId db0 = Inr (x, db))) \<or>
         (tk_project_id t = projectId \<and> tk_id t = tokenId \<and>
            (\<exists>issued. rotateProjectTokenRoute hash now auth projectId tokenId db0 = Inr (issued, db))) \<or>
         (tk_project_id t = projectId \<and> (\<exists>x. deleteProject now projectId userId db0 = (Some x, db)))"
    and "(token_step hash)\<^sup>*\<^sup>* db db'"
  shows "loadAuthorizedProjectToken hash later proxy secret db' = None"
proof -
  have "tokens_ok db \<and> dead_token (tk_token_hash t) db"
    using assms(4)
  proof (elim disjE conjE exE)
    fix x assume k: "tk_project_id t = projectId" "tk_id t = tokenId"
      and r: "revokeProjectTokenRoute now auth projectId tokenId db0 = Inr (x, db)"
    then have "db = revoke_rows now (au_userId auth) (\<lambda>t. tk_id t = tokenId \<and> tk_project_id t = projectId) db0"
      by (auto simp: revokeProjectTokenRoute_def revokeProjectToken_def sum_bind_Inr_iff errorResult_def split: option.splits)
    with k assms(1,2) show ?thesis by (simp add: revoke_rows_ok revoke_rows_kills)
  next
    fix issued assume k: "tk_project_id t = projectId" "tk_id t = tokenId"
      and r: "rotateProjectTokenRoute hash now auth projectId tokenId db0 = Inr (issued, db)"
    then obtain existing where "rotateProjectToken hash now tokenId projectId (au_tenantId auth) (au_userId auth) existing db0 = Inr (issued, db)"
      by (auto simp: rotateProjectTokenRoute_def sum_bind_Inr_iff)
    then obtain db1 where i: "insert_token hash now projectId (au_tenantId auth) (tk_name existing)
          (tk_owner_user_id existing) (au_userId auth) (tk_expires_at existing) db0 = Inr (issued, db1)"
        and d: "db = revoke_rows now (au_userId auth) (\<lambda>t. tk_id t = tokenId \<and> tk_project_id t = projectId) db1"
      unfolding rotateProjectToken_Inr by blast
    have "t \<in> set (tn_tokens db1)" using insert_token_spec [OF i] assms(2) by auto
    with k d insert_token_ok [OF i assms(1)] show ?thesis by (simp add: revoke_rows_ok revoke_rows_kills)
  next
    fix x assume k: "tk_project_id t = projectId" and r: "deleteProject now projectId userId db0 = (Some x, db)"
    have "dead_token (tk_token_hash t) db"
      using r k assms(2) by (auto simp: deleteProject_def split: if_splits intro!: revoke_rows_kills)
    with delete_keeps(1) [OF r] assms(1) show ?thesis by simp
  qed
  then have "tokens_ok db" "dead_token (hash secret) db" by (simp_all add: assms(3))
  from token_run_keeps [OF assms(5) this] have "tokens_ok db'" "dead_token (hash secret) db'" by blast+
  then show ?thesis by (rule dead_unauthorized)
qed

definition sample_auth :: auth_context where
  "sample_auth = \<lparr> au_tenantId = ''t1'', au_tenantKind = ''customer'', au_userId = ''ann'', au_role = ''owner'' \<rparr>"

definition sample_proxy :: proxy_context where
  "sample_proxy = \<lparr> px_proxyId = ''px'', px_tenantId = ''t1'', px_tenantScope = None, px_proxyIp = None \<rparr>"

definition sample_tenancy :: tenancy_db where
  "sample_tenancy =
     \<lparr> tn_projects = [\<lparr> pj_id = ''p1'', pj_tenant_id = ''t1'', pj_name = ''web'', pj_effective_from = 0, pj_effective_to = None,
                        pj_created_at = 0 \<rparr>],
       tn_members = [],
       tn_tokens = [\<lparr> tk_id = ''u'', tk_project_id = ''p1'', tk_tenant_id = ''t1'', tk_name = ''ci'', tk_owner_user_id = ''ann'',
         tk_created_by_user_id = ''ann'', tk_token_hash = ''secret'', tk_token_prefix = ''ecret'', tk_created_at = 0,
         tk_last_used_at = None, tk_expires_at = None, tk_revoked_at = None, tk_revoked_by_user_id = None \<rparr>],
       tn_uuids = \<lparr> us_supply = (\<lambda>n. replicate (Suc n) CHR ''u''), us_drawn = 1 \<rparr>,
       tn_secrets = \<lparr> us_supply = (\<lambda>n. replicate (Suc n) CHR ''s''), us_drawn = 0 \<rparr> \<rparr>"

lemma sample_tenancy_ok: "tokens_ok sample_tenancy"
proof -
  have "inj (\<lambda>n. replicate (Suc n) CHR ''u'')"
    by (rule injI) (drule arg_cong [where f = length], simp)
  then show ?thesis
    by (simp add: tokens_ok_def sample_tenancy_def unique_key_Cons source_ok_def ids_ok_def drawn_id_def)
qed

theorem revocation_is_final_witness:
  "let t = hd (tn_tokens sample_tenancy)
   in loadAuthorizedProjectToken id 5 sample_proxy ''secret'' sample_tenancy = Some t \<and>
      (\<exists>x db. revokeProjectTokenRoute 3 sample_auth ''p1'' ''u'' sample_tenancy = Inr (x, db) \<and>
              loadAuthorizedProjectToken id 5 sample_proxy ''secret'' db = None)"
proof -
  have live: "loadAuthorizedProjectToken id 5 sample_proxy ''secret'' sample_tenancy = Some (hd (tn_tokens sample_tenancy))"
    by (simp add: loadAuthorizedProjectToken_def sample_tenancy_def sample_proxy_def first_row_def proxyAllowsTenant_def token_live_def)
  have "canManageExistingToken ''owner'' Revoke True" by code_simp
  moreover have "hasImplicitProjectAccess ''owner''" by code_simp
  ultimately obtain x db where r: "revokeProjectTokenRoute 3 sample_auth ''p1'' ''u'' sample_tenancy = Inr (x, db)"
    by (simp add: revokeProjectTokenRoute_def manageable_token_def token_project_def sample_auth_def sample_tenancy_def
        current_project_def first_row_def checkProjectAccess_def loadExistingProjectToken_def revokeProjectToken_def)
  let ?t = "hd (tn_tokens sample_tenancy)"
  have t: "?t \<in> set (tn_tokens sample_tenancy)" "tk_token_hash ?t = id ''secret''" "tk_project_id ?t = ''p1''" "tk_id ?t = ''u''"
    by (simp_all add: sample_tenancy_def)
  have "loadAuthorizedProjectToken id 5 sample_proxy ''secret'' db = None"
  proof (rule revocation_is_final)
    show "tokens_ok sample_tenancy" by (rule sample_tenancy_ok)
    show "?t \<in> set (tn_tokens sample_tenancy)" "tk_token_hash ?t = id ''secret''" by (rule t)+
    show "(token_step id)\<^sup>*\<^sup>* db db" by simp
    show "(tk_project_id ?t = ''p1'' \<and> tk_id ?t = ''u'' \<and>
            (\<exists>x. revokeProjectTokenRoute 3 sample_auth ''p1'' ''u'' sample_tenancy = Inr (x, db))) \<or>
         (tk_project_id ?t = ''p1'' \<and> tk_id ?t = ''u'' \<and>
            (\<exists>issued. rotateProjectTokenRoute id 3 sample_auth ''p1'' ''u'' sample_tenancy = Inr (issued, db))) \<or>
         (tk_project_id ?t = ''p1'' \<and> (\<exists>x. deleteProject 3 ''p1'' ''ann'' sample_tenancy = (Some x, db)))"
      using t r by simp
  qed
  with live r show ?thesis by (auto simp: Let_def)
qed

text \<open>
  An issued token opens exactly its project. When a request to create a token succeeds, the
  caller's role may create tokens and the caller has access to the project in the caller's tenant;
  the token handed out is accepted until it expires for proxies that serve that tenant, as a token
  of that project, that tenant and that owner, and for no other proxy.
\<close>

theorem issued_token_authorizes:
  assumes "tokens_ok db" and "createProjectTokenRoute hash now auth projectId name expires_at db = Inr (issued, db')"
  shows "tokens_ok db' \<and> canCreateProjectToken (au_role auth) \<and>
    checkProjectAccess (au_userId auth) projectId (au_tenantId auth) (au_role auth) (tn_members db) \<and>
    (\<exists>t. tk_project_id t = projectId \<and> tk_tenant_id t = au_tenantId auth \<and> tk_owner_user_id t = au_userId auth \<and>
       loadAuthorizedProjectToken hash later proxy (is_token issued) db' =
         (if proxyAllowsTenant proxy (au_tenantId auth) \<and> (case expires_at of None \<Rightarrow> True | Some e \<Rightarrow> later < e)
          then Some t else None))"
proof -
  obtain p where p: "current_project projectId (au_tenantId auth) (tn_projects db) = Some p"
      and access: "checkProjectAccess (au_userId auth) projectId (au_tenantId auth) (au_role auth) (tn_members db)"
      and can: "canCreateProjectToken (au_role auth)"
      and ins: "insert_token hash now projectId (au_tenantId auth) name (au_userId auth) (au_userId auth) expires_at db = Inr (issued, db')"
    using assms(2)
    by (auto simp: createProjectTokenRoute_def createProjectToken_def token_project_def sum_bind_Inr_iff errorResult_def
        split: if_splits option.splits)
  have ok: "tokens_ok db'" by (rule insert_token_ok [OF ins assms(1)])
  from insert_token_spec [OF ins] obtain t where t: "t \<in> set (tn_tokens db')" "tk_token_hash t = hash (is_token issued)"
      "tk_project_id t = projectId" "tk_tenant_id t = au_tenantId auth" "tk_owner_user_id t = au_userId auth"
      "tk_expires_at t = expires_at" "tk_revoked_at t = None" and pj: "tn_projects db' = tn_projects db"
    by (metis in_set_conv_decomp)
  have "list_ex (\<lambda>p. pj_id p = projectId \<and> pj_effective_to p = None) (tn_projects db')"
    using p by (auto simp: current_project_def first_row_def pj list_ex_iff dest: find_SomeD)
  with authorized_row [OF ok t(1), of hash "is_token issued" later proxy] t
  have "loadAuthorizedProjectToken hash later proxy (is_token issued) db' =
         (if proxyAllowsTenant proxy (au_tenantId auth) \<and> (case expires_at of None \<Rightarrow> True | Some e \<Rightarrow> later < e)
          then Some t else None)"
    by (simp add: token_live_def)
  with ok can access t show ?thesis by blast
qed

theorem issued_token_authorizes_witness:
  "\<exists>issued db' t. createProjectTokenRoute id 3 sample_auth ''p1'' ''deploy'' (Some 9) sample_tenancy = Inr (issued, db') \<and>
     loadAuthorizedProjectToken id 5 sample_proxy (is_token issued) db' = Some t \<and>
     loadAuthorizedProjectToken id 9 sample_proxy (is_token issued) db' = None"
proof -
  have "canCreateProjectToken ''owner''" "hasImplicitProjectAccess ''owner''" by code_simp+
  then obtain issued db' where r: "createProjectTokenRoute id 3 sample_auth ''p1'' ''deploy'' (Some 9) sample_tenancy = Inr (issued, db')"
    by (simp add: createProjectTokenRoute_def createProjectToken_def insert_token_def generateProjectToken_def token_project_def
        sample_auth_def sample_tenancy_def current_project_def first_row_def checkProjectAccess_def draw_def Let_def service_call_def)
  have "proxyAllowsTenant sample_proxy (au_tenantId sample_auth)"
    by (simp add: proxyAllowsTenant_def sample_proxy_def sample_auth_def)
  with issued_token_authorizes [OF sample_tenancy_ok r, of 5 sample_proxy] issued_token_authorizes [OF sample_tenancy_ok r, of 9 sample_proxy] r
  show ?thesis by auto
qed

text \<open>
  A rotation can outlive a revocation. The handler of a rotation reads the token before it
  rotates it; when the token is revoked in between, the rotation revokes nothing but still issues a
  new token of the project, and that token is accepted. A revoked credential so continues under a
  new secret.
\<close>

theorem rotation_survives_revocation:
  assumes "tokens_ok db" and "manageable_token auth Rotate projectId tokenId db = Inr existing"
    and "revokeProjectTokenRoute t1 admin projectId tokenId db = Inr (x, db1)"
    and "rotateProjectToken hash t2 tokenId projectId (au_tenantId auth) (au_userId auth) existing db1 = Inr (issued, db2)"
    and "case tk_expires_at existing of None \<Rightarrow> True | Some e \<Rightarrow> later < e" and "proxyAllowsTenant proxy (au_tenantId auth)"
  shows "\<exists>t. loadAuthorizedProjectToken hash later proxy (is_token issued) db2 = Some t \<and> tk_project_id t = projectId"
proof -
  let ?P = "\<lambda>t. tk_id t = tokenId \<and> tk_project_id t = projectId"
  obtain p where p: "current_project projectId (au_tenantId auth) (tn_projects db) = Some p"
    using assms(2) by (auto simp: manageable_token_def token_project_def sum_bind_Inr_iff errorResult_def split: option.splits if_splits)
  have db1: "db1 = revoke_rows t1 (au_userId admin) ?P db"
    using assms(3)
    by (auto simp: revokeProjectTokenRoute_def revokeProjectToken_def sum_bind_Inr_iff errorResult_def split: option.splits)
  from assms(4) [unfolded rotateProjectToken_Inr] obtain db' where
      ins: "insert_token hash t2 projectId (au_tenantId auth) (tk_name existing)
        (tk_owner_user_id existing) (au_userId auth) (tk_expires_at existing) db1 = Inr (issued, db')"
      and db2: "db2 = revoke_rows t2 (au_userId auth) ?P db'" by blast
  have ok: "tokens_ok db2"
    using insert_token_ok [OF ins] assms(1) by (simp add: db1 db2 revoke_rows_ok)
  from insert_token_spec [OF ins] obtain t where t: "tn_tokens db' = tn_tokens db1 @ [t]" "tk_token_hash t = hash (is_token issued)"
      "tk_project_id t = projectId" "tk_tenant_id t = au_tenantId auth" "tk_expires_at t = tk_expires_at existing"
      "tk_revoked_at t = None" and d: "draw (tn_uuids db1) = (tk_id t, tn_uuids db')" and pj: "tn_projects db' = tn_projects db1"
    by blast
  obtain y where "y \<in> set (tn_tokens db)" "tk_id y = tokenId"
    using assms(2)
    by (auto simp: manageable_token_def loadExistingProjectToken_def first_row_def sum_bind_Inr_iff errorResult_def
        split: option.splits if_splits dest: find_SomeD)
  then have "drawn_id (tn_uuids db1) tokenId"
    using assms(1) by (auto simp: tokens_ok_def ids_ok_def db1 revoke_rows_def)
  moreover have "source_ok (tn_uuids db1)" using assms(1) by (simp add: tokens_ok_def db1 revoke_rows_def)
  ultimately have "tk_id t \<noteq> tokenId" using draw_fresh [OF _ d] by blast
  then have "t \<in> set (tn_tokens db2)"
    by (simp add: db2 revoke_rows_def update_where_def t(1))
  moreover have "list_ex (\<lambda>p. pj_id p = projectId \<and> pj_effective_to p = None) (tn_projects db2)"
    using p by (auto simp: current_project_def first_row_def db2 db1 pj revoke_rows_def list_ex_iff dest: find_SomeD)
  ultimately show ?thesis
    using authorized_row [OF ok, of t hash "is_token issued" later proxy] t assms(5,6) by (simp add: token_live_def)
qed

theorem rotation_survives_revocation_witness:
  "\<exists>existing x db1 issued db2 t.
     manageable_token sample_auth Rotate ''p1'' ''u'' sample_tenancy = Inr existing \<and>
     revokeProjectTokenRoute 3 sample_auth ''p1'' ''u'' sample_tenancy = Inr (x, db1) \<and>
     rotateProjectToken id 4 ''u'' ''p1'' ''t1'' ''ann'' existing db1 = Inr (issued, db2) \<and>
     loadAuthorizedProjectToken id 5 sample_proxy (is_token issued) db2 = Some t"
proof -
  have can: "canManageExistingToken ''owner'' Revoke True" "canManageExistingToken ''owner'' Rotate True"
    "hasImplicitProjectAccess ''owner''" by code_simp+
  let ?t = "hd (tn_tokens sample_tenancy)"
  have m: "manageable_token sample_auth Rotate ''p1'' ''u'' sample_tenancy = Inr ?t"
    using can by (simp add: manageable_token_def token_project_def sample_auth_def sample_tenancy_def current_project_def
        first_row_def checkProjectAccess_def loadExistingProjectToken_def)
  obtain x db1 where r: "revokeProjectTokenRoute 3 sample_auth ''p1'' ''u'' sample_tenancy = Inr (x, db1)"
    and db1: "db1 = revoke_rows 3 ''ann'' (\<lambda>t. tk_id t = ''u'' \<and> tk_project_id t = ''p1'') sample_tenancy"
    using can by (simp add: revokeProjectTokenRoute_def manageable_token_def token_project_def sample_auth_def sample_tenancy_def
        current_project_def first_row_def checkProjectAccess_def loadExistingProjectToken_def revokeProjectToken_def)
  obtain issued db2 where o: "rotateProjectToken id 4 ''u'' ''p1'' ''t1'' ''ann'' ?t db1 = Inr (issued, db2)"
    by (simp add: rotateProjectToken_def insert_token_def generateProjectToken_def db1 sample_tenancy_def revoke_rows_def
        update_where_def draw_def Let_def)
  have "tk_expires_at ?t = None" "proxyAllowsTenant sample_proxy (au_tenantId sample_auth)"
    "au_tenantId sample_auth = ''t1''" "au_userId sample_auth = ''ann''"
    by (simp_all add: sample_tenancy_def proxyAllowsTenant_def sample_proxy_def sample_auth_def)
  with rotation_survives_revocation [OF sample_tenancy_ok m r, of id 4 issued db2 5 sample_proxy] o
  obtain t where "loadAuthorizedProjectToken id 5 sample_proxy (is_token issued) db2 = Some t" by auto
  with m r o show ?thesis by blast
qed

end
