(* ===== verification/Contributor_Facts.thy ===== *)
theory Contributor_Facts
  imports Contributor Catalog Connector_Cache "HOL-Library.Product_Lexorder" "HOL-Library.Option_ord"
begin

text \<open>
  Ingestion of contributor metadata, \<open>features/contributors/ingestion-service.ts\<close>, and
  \<open>loadStoredSignals\<close> of the contributor connector: from the manifest of a package the facts about
  each release are computed, stored unless better facts are there already, scored and cached.

  Parameters: \<open>parse_date\<close> is \<open>new Date(s).getTime()\<close>, \<open>None\<close> for \<open>NaN\<close>; \<open>json_parse\<close> is \<open>JSON.parse\<close>,
  \<open>None\<close> where it throws.
\<close>

section \<open>Tables and inputs\<close>

record package_fact_row =
  kf_package_id :: string
  kf_fingerprint :: "string option"
  kf_history_complete :: bool
  kf_oldest_included_published_at :: "ms option"
  kf_observed_at :: "ms option"

record release_fact_row =
  xf_package_version_id :: string
  xf_published_at :: "ms option"
  xf_source_kind :: "string option"
  xf_source_payload_version :: "string option"
  xf_source_payload :: jsval
  xf_source_observed_at :: "ms option"
  xf_publish_actor :: "string option"
  xf_publish_actor_kind :: "string option"
  xf_publisher_username :: "string option"
  xf_publisher_source :: "string option"
  xf_has_trusted_publisher :: "bool option"
  xf_maintainer_count :: "int option"
  xf_maintainers :: "string list"
  xf_maintainer_source :: "string option"
  xf_has_install_scripts :: "bool option"
  xf_has_provenance :: "bool option"
  xf_publisher_seen_before_package :: "bool option"
  xf_publisher_seen_count_before :: "int option"
  xf_publisher_matches_prior_version :: "bool option"
  xf_prior_package_version_id :: "string option"
  xf_prior_version_publish_actor :: "string option"
  xf_maintainer_set_changed :: "bool option"
  xf_maintainers_added :: "string list"
  xf_maintainers_removed :: "string list"
  xf_new_maintainer_count :: "int option"
  xf_removed_maintainer_count :: "int option"
  xf_release_velocity_7d_at_publish :: "int option"
  xf_release_velocity_30d_at_publish :: "int option"
  xf_first_published_at_for_package :: "ms option"
  xf_package_release_index :: "nat option"
  xf_history_complete :: "bool option"
  xf_contributor_slice_fingerprint :: "string option"
  xf_contributor_slice_observed_at :: "ms option"
  xf_observed_at :: "ms option"

record manifest_version =
  mv_version :: string
  mv_publishedAt :: string
  mv_publisher :: "string option"
  mv_maintainers :: "string list"
  mv_hasInstallScripts :: bool
  mv_hasAttestation :: bool
  mv_rawPayloadJson :: "string option"

record manifest_event =
  me_ecosystem :: string
  me_package :: string
  me_extractedAt :: string
  me_fingerprint :: "string option"
  me_packageMetadataFingerprint :: "string option"
  me_sliceFingerprint :: "string option"
  me_requestedVersion :: "string option"
  me_latestVersion :: "string option"
  me_latestPublishedAt :: "string option"
  me_historyComplete :: bool
  me_oldestIncludedPublishedAt :: "string option"
  me_versions :: "manifest_version list"

record contributor_config =
  co_enabled :: bool
  co_cacheTtlSeconds :: int
  co_cacheTtlOverrideSeconds :: "int option"

record upserted_version =
  uv_packageVersionId :: string
  uv_version :: string
  uv_publishedAt :: ms
  uv_publisher :: "string option"
  uv_maintainers :: "string list"
  uv_hasInstallScripts :: bool
  uv_hasAttestation :: bool
  uv_rawPayloadJson :: "string option"

record ingest_db =
  ig_catalog :: catalog_db
  ig_package_facts :: "package_fact_row list"
  ig_release_facts :: "release_fact_row list"
  ig_cache :: cache_db

section \<open>Which facts are better\<close>

record fact_quality =
  fq_historyComplete :: "bool option"
  fq_oldestIncludedPublishedAt :: "ms option"
  fq_observedAt :: "ms option"

definition shouldReplaceContributorFacts :: "fact_quality \<Rightarrow> fact_quality \<Rightarrow> bool" where
  "shouldReplaceContributorFacts incoming existing =
     (if fq_historyComplete existing \<noteq> Some True \<and> fq_historyComplete incoming = Some True then True
      else if fq_historyComplete existing = Some True \<and> fq_historyComplete incoming \<noteq> Some True then False
      else
        case (fq_oldestIncludedPublishedAt incoming, fq_oldestIncludedPublishedAt existing) of
          (Some i, None) \<Rightarrow> True
        | (None, Some e) \<Rightarrow> False
        | (incomingOldest, existingOldest) \<Rightarrow>
            if incomingOldest \<noteq> None \<and> incomingOldest \<noteq> existingOldest
            then the incomingOldest < the existingOldest
            else (case fq_observedAt incoming of
                    None \<Rightarrow> fq_observedAt existing = None
                  | Some i \<Rightarrow> (case fq_observedAt existing of None \<Rightarrow> True | Some e \<Rightarrow> i \<ge> e)))"

definition shouldProcessMatchingContributorFingerprint ::
    "bool \<Rightarrow> ms option \<Rightarrow> bool option \<Rightarrow> ms option \<Rightarrow> bool" where
  "shouldProcessMatchingContributorFingerprint incomingComplete incomingOldest existingComplete existingOldest =
     (if existingComplete \<noteq> Some True \<and> incomingComplete then True
      else (case incomingOldest of
              None \<Rightarrow> False
            | Some i \<Rightarrow> (case existingOldest of None \<Rightarrow> True | Some e \<Rightarrow> i < e)))"

section \<open>Helpers\<close>

definition parseNullableDate :: "(string \<Rightarrow> ms option) \<Rightarrow> string option \<Rightarrow> ms option" where
  "parseNullableDate parse_date v = (if present v then parse_date (the v) else None)"

definition normalizeManifestVersions ::
    "(string \<Rightarrow> ms option) \<Rightarrow> manifest_version list \<Rightarrow> (manifest_version \<times> ms) list" where
  "normalizeManifestVersions parse_date versions =
     sort_key snd (List.map_filter (\<lambda>v. map_option (Pair v) (parse_date (mv_publishedAt v))) versions)"

definition normalizeMaintainers :: "string list \<Rightarrow> string list" where
  "normalizeMaintainers maintainers = sort (rev (remdups (rev (filter (\<lambda>m. m \<noteq> []) (map js_trim maintainers)))))"

definition sameMembers :: "string list \<Rightarrow> string list \<Rightarrow> bool" where
  "sameMembers left right = (length left = length right \<and> list_all (\<lambda>(l, r). l = r) (zip left right))"

definition difference :: "string list \<Rightarrow> string list \<Rightarrow> string list" where
  "difference source other = filter (\<lambda>v. v \<notin> set other) source"

definition countVersionsInWindow :: "upserted_version list \<Rightarrow> ms \<Rightarrow> int \<Rightarrow> nat" where
  "countVersionsInWindow versions pivot days =
     (let cutoff = pivot - days * 86400000
      in length (filter (\<lambda>v. uv_publishedAt v \<ge> cutoff \<and> uv_publishedAt v \<le> pivot) versions))"

definition parseRawPayload :: "(string \<Rightarrow> jsval option) \<Rightarrow> string option \<Rightarrow> jsval \<Rightarrow> jsval" where
  "parseRawPayload json_parse raw fallback =
     (if \<not> present raw then fallback
      else case json_parse (the raw) of
        Some (JObj ps) \<Rightarrow> JObj ps
      | Some (JArr vs) \<Rightarrow> JArr vs
      | _ \<Rightarrow> fallback)"

text \<open>\<open>GREATEST(COALESCE(column, '-infinity'), t)\<close>\<close>

definition seen_at_least :: "ms option \<Rightarrow> ms \<Rightarrow> ms option" where
  "seen_at_least column t = Some (case column of None \<Rightarrow> t | Some u \<Rightarrow> max u t)"

section \<open>The catalog part\<close>

definition upsertPackageIdentity :: "string \<Rightarrow> string \<Rightarrow> ms \<Rightarrow> catalog_db \<Rightarrow> js_error + (string \<times> catalog_db)" where
  "upsertPackageIdentity eco name observedAt db =
     (let ecosystem = canonicalizeEcosystem eco; packageName = canonicalizePackageName ecosystem name
      in if list_ex (\<lambda>r. pk_ecosystem r = ecosystem \<and> pk_package r = packageName) (cg_packages db)
         then (case first_row (\<lambda>r. pk_ecosystem r = ecosystem \<and> pk_package r = packageName) (cg_packages db) of
                 None \<Rightarrow> Inl (AppError ''package_identity_resolution_failed'')
               | Some r \<Rightarrow> Inr (pk_id r, db))
         else let (pid, uuids) = draw (cg_uuids db)
              in Inr (pid, db\<lparr> cg_packages := cg_packages db @
                     [\<lparr> pk_id = pid, pk_ecosystem = ecosystem, pk_package = packageName,
                        pk_latest_package_version_id = None, pk_last_metadata_seen_at = Some observedAt \<rparr>],
                   cg_uuids := uuids \<rparr>))"

text \<open>The insert takes the column defaults for the kind, the artifact kind and the role.\<close>

definition upsertPackageVersion :: "string \<Rightarrow> string \<Rightarrow> ms \<Rightarrow> ms \<Rightarrow> catalog_db \<Rightarrow> string \<times> catalog_db" where
  "upsertPackageVersion packageId v publishedAt observedAt db =
     (let version = canonicalizePackageVersion v
      in case first_row (\<lambda>r. pv_package_id r = packageId \<and> pv_version r = version) (cg_versions db) of
           Some row \<Rightarrow>
             (pv_id row, db\<lparr> cg_versions := update_where (\<lambda>r. pv_package_id r = packageId \<and> pv_version r = version)
                (\<lambda>r. r\<lparr> pv_published_at := Some publishedAt, pv_last_metadata_seen_at := Some observedAt \<rparr>)
                (cg_versions db) \<rparr>)
         | None \<Rightarrow>
             let (vid, uuids) = draw (cg_uuids db)
             in (vid, db\<lparr> cg_versions := cg_versions db @
                     [\<lparr> pv_id = vid, pv_package_id = packageId, pv_version = version, pv_version_kind = Version,
                        pv_artifact_kind = Package_release, pv_display_role = Primary,
                        pv_published_at = Some publishedAt, pv_last_metadata_seen_at = Some observedAt,
                        pv_last_used_at = None \<rparr>],
                   cg_uuids := uuids \<rparr>))"

definition latest_published_at :: "catalog_db \<Rightarrow> string \<Rightarrow> ms option" where
  "latest_published_at db packageId =
     Option.bind (first_row (\<lambda>p. pk_id p = packageId) (cg_packages db)) (\<lambda>p.
       Option.bind (pk_latest_package_version_id p) (\<lambda>vid.
         Option.bind (first_row (\<lambda>v. pv_id v = vid) (cg_versions db)) pv_published_at))"

definition updatePackageMetadata :: "string \<Rightarrow> string option \<Rightarrow> ms option \<Rightarrow> ms \<Rightarrow> catalog_db \<Rightarrow> catalog_db" where
  "updatePackageMetadata packageId latestPackageVersionId latestPublishedAt observedAt db =
     (let shouldUpdateLatest =
            latestPackageVersionId \<noteq> None \<and>
            (case latest_published_at db packageId of
               None \<Rightarrow> True
             | Some current \<Rightarrow> (case latestPublishedAt of None \<Rightarrow> True | Some t \<Rightarrow> t \<ge> current))
      in db\<lparr> cg_packages := update_where (\<lambda>p. pk_id p = packageId)
           (\<lambda>p. p\<lparr> pk_latest_package_version_id :=
                     (if shouldUpdateLatest then latestPackageVersionId else pk_latest_package_version_id p),
                   pk_last_metadata_seen_at := seen_at_least (pk_last_metadata_seen_at p) observedAt \<rparr>)
           (cg_packages db) \<rparr>)"

fun upsert_versions ::
    "string \<Rightarrow> ms \<Rightarrow> (manifest_version \<times> ms) list \<Rightarrow> catalog_db \<Rightarrow> upserted_version list \<times> catalog_db" where
  "upsert_versions packageId observedAt [] db = ([], db)"
| "upsert_versions packageId observedAt ((v, publishedAt) # vs) db =
     (let canonicalVersion = canonicalizePackageVersion (mv_version v);
          (vid, db1) = upsertPackageVersion packageId canonicalVersion publishedAt observedAt db;
          (rest, db2) = upsert_versions packageId observedAt vs db1
      in (\<lparr> uv_packageVersionId = vid, uv_version = canonicalVersion, uv_publishedAt = publishedAt,
            uv_publisher = opt_or_null (map_option js_trim (mv_publisher v)),
            uv_maintainers = normalizeMaintainers (mv_maintainers v),
            uv_hasInstallScripts = mv_hasInstallScripts v, uv_hasAttestation = mv_hasAttestation v,
            uv_rawPayloadJson = mv_rawPayloadJson v \<rparr> # rest, db2))"

section \<open>Package facts\<close>

definition package_fact_key :: "package_fact_row \<Rightarrow> string option" where
  "package_fact_key r = Some (kf_package_id r)"

definition package_fact_merge :: "package_fact_row \<Rightarrow> package_fact_row \<Rightarrow> package_fact_row" where
  "package_fact_merge new r =
     r\<lparr> kf_fingerprint := kf_fingerprint new, kf_history_complete := kf_history_complete new,
        kf_oldest_included_published_at := kf_oldest_included_published_at new,
        kf_observed_at := kf_observed_at new \<rparr>"

definition package_quality :: "package_fact_row \<Rightarrow> fact_quality" where
  "package_quality r =
     \<lparr> fq_historyComplete = Some (kf_history_complete r),
       fq_oldestIncludedPublishedAt = kf_oldest_included_published_at r, fq_observedAt = kf_observed_at r \<rparr>"

definition upsertContributorPackageFacts ::
    "string \<Rightarrow> string option \<Rightarrow> bool \<Rightarrow> ms option \<Rightarrow> ms \<Rightarrow> package_fact_row list \<Rightarrow> package_fact_row list" where
  "upsertContributorPackageFacts packageId fingerprint historyComplete oldest observedAt rows =
     (let new = \<lparr> kf_package_id = packageId, kf_fingerprint = fingerprint, kf_history_complete = historyComplete,
                  kf_oldest_included_published_at = oldest, kf_observed_at = Some observedAt \<rparr>
      in case first_row (\<lambda>r. kf_package_id r = packageId) rows of
           Some existing \<Rightarrow>
             if \<not> shouldReplaceContributorFacts (package_quality new) (package_quality existing) then rows
             else upsert_row package_fact_key (package_fact_merge new) new rows
         | None \<Rightarrow> upsert_row package_fact_key (package_fact_merge new) new rows)"

text \<open>
  A manifest whose fingerprint is stored already only moves the observation times forward, unless
  it has more history. The result tells whether the manifest was recognised.
\<close>

definition touchUnchangedContributorManifest ::
    "string \<Rightarrow> string \<Rightarrow> string option \<Rightarrow> bool \<Rightarrow> ms option \<Rightarrow> ms \<Rightarrow> ingest_db \<Rightarrow> bool \<times> ingest_db" where
  "touchUnchangedContributorManifest ecosystem packageName fingerprint historyComplete oldest observedAt db =
     (if \<not> present fingerprint then (False, db)
      else
        case find (\<lambda>(p, f). pk_ecosystem p = ecosystem \<and> pk_package p = packageName \<and> kf_fingerprint f = fingerprint)
               (concat (map (\<lambda>p. map (Pair p) (filter (\<lambda>f. kf_package_id f = pk_id p) (ig_package_facts db)))
                 (cg_packages (ig_catalog db)))) of
          None \<Rightarrow> (False, db)
        | Some (p, f) \<Rightarrow>
            if shouldProcessMatchingContributorFingerprint historyComplete oldest
                 (Some (kf_history_complete f)) (kf_oldest_included_published_at f)
            then (False, db)
            else
              let stale = (\<lambda>t. case t of None \<Rightarrow> True | Some u \<Rightarrow> u < observedAt);
                  catalog = (if stale (pk_last_metadata_seen_at p)
                    then (ig_catalog db)\<lparr> cg_packages := update_where (\<lambda>x. pk_id x = pk_id p)
                           (\<lambda>x. x\<lparr> pk_last_metadata_seen_at := seen_at_least (pk_last_metadata_seen_at x) observedAt \<rparr>)
                           (cg_packages (ig_catalog db)) \<rparr>
                    else ig_catalog db);
                  facts = (if stale (kf_observed_at f)
                    then update_where (\<lambda>x. kf_package_id x = pk_id p)
                           (\<lambda>x. x\<lparr> kf_observed_at := seen_at_least (kf_observed_at x) observedAt \<rparr>) (ig_package_facts db)
                    else ig_package_facts db)
              in (True, db\<lparr> ig_catalog := catalog, ig_package_facts := facts \<rparr>))"

section \<open>Release facts\<close>

text \<open>The variables of the loop over the releases, oldest first.\<close>

record release_loop =
  lp_seenPublishers :: "(string \<times> int) list"
  lp_priorVersionPublisher :: "string option"
  lp_priorMaintainers :: "string list"

definition seen_publisher :: "release_loop \<Rightarrow> string \<Rightarrow> int" where
  "seen_publisher st p = default 0 (map_of (lp_seenPublishers st) p)"

definition stored_signals ::
    "bool \<Rightarrow> upserted_version list \<Rightarrow> release_loop \<Rightarrow> nat \<Rightarrow> upserted_version \<Rightarrow> contributor_signals" where
  "stored_signals historyComplete versions st index v =
     \<lparr> sg_version = uv_version v,
       sg_publishedAt = uv_publishedAt v,
       sg_publisher = uv_publisher v,
       sg_publisherSeenBeforePackage = map_option (\<lambda>p. seen_publisher st p > 0) (opt_or_null (uv_publisher v)),
       sg_publisherSeenCountBefore = map_option (seen_publisher st) (opt_or_null (uv_publisher v)),
       sg_publisherMatchesPriorVersion =
         (case (lp_priorVersionPublisher st, uv_publisher v) of
            (Some q, Some p) \<Rightarrow> Some (q = p) | _ \<Rightarrow> None),
       sg_priorVersionPublisher = lp_priorVersionPublisher st,
       sg_maintainerSetChanged =
         (if index = 0 then None else Some (\<not> sameMembers (uv_maintainers v) (lp_priorMaintainers st))),
       sg_newMaintainerCount = Some (int (length (difference (uv_maintainers v) (lp_priorMaintainers st)))),
       sg_removedMaintainerCount = Some (int (length (difference (lp_priorMaintainers st) (uv_maintainers v)))),
       sg_maintainerCount = Some (int (length (uv_maintainers v))),
       sg_hasInstallScripts = Some (uv_hasInstallScripts v),
       sg_hasProvenance = Some (uv_hasAttestation v),
       sg_hasTrustedPublisher = None,
       sg_releaseVelocity7d = Some (int (countVersionsInWindow versions (uv_publishedAt v) 7)),
       sg_releaseVelocity30d = Some (int (countVersionsInWindow versions (uv_publishedAt v) 30)),
       sg_historyComplete = Some historyComplete \<rparr>"

text \<open>\<open>releaseValues\<close>: the signals, where they come from, and the source payload.\<close>

definition manifest_payload :: "string \<Rightarrow> string \<Rightarrow> upserted_version \<Rightarrow> jsval" where
  "manifest_payload ecosystem packageName v =
     JObj [(''ecosystem'', JStr ecosystem), (''package'', JStr packageName), (''version'', JStr (uv_version v)),
           (''published_at'', JStr (to_iso (uv_publishedAt v))), (''publisher'', jstr_opt (uv_publisher v)),
           (''maintainers'', JArr (map JStr (uv_maintainers v))),
           (''scripts'', JObj [(''has_install_scripts'', JBool (uv_hasInstallScripts v))]),
           (''provenance'', JObj [(''has_attestation'', JBool (uv_hasAttestation v))])]"

record release_context =
  rc_event :: manifest_event
  rc_ecosystem :: string
  rc_packageName :: string
  rc_packageId :: string
  rc_observedAt :: ms
  rc_requestedVersion :: "string option"
  rc_upsertedVersions :: "upserted_version list"
  rc_config :: contributor_config

definition first_published_at :: "release_context \<Rightarrow> ms" where
  "first_published_at input =
     (case rc_upsertedVersions input of [] \<Rightarrow> rc_observedAt input | v # _ \<Rightarrow> uv_publishedAt v)"

definition release_values ::
    "(string \<Rightarrow> jsval option) \<Rightarrow> release_context \<Rightarrow> release_loop \<Rightarrow> nat \<Rightarrow> upserted_version \<Rightarrow> release_fact_row" where
  "release_values json_parse input st index v =
     (let s = stored_signals (me_historyComplete (rc_event input)) (rc_upsertedVersions input) st index v;
          isRequestedVersion = (rc_requestedVersion input = Some (uv_version v));
          slice = (if isRequestedVersion then me_sliceFingerprint (rc_event input) else None)
      in \<lparr> xf_package_version_id = uv_packageVersionId v,
           xf_published_at = Some (uv_publishedAt v),
           xf_source_kind = Some ''npm_manifest'',
           xf_source_payload_version = Some ''1'',
           xf_source_payload = parseRawPayload json_parse (uv_rawPayloadJson v)
             (manifest_payload (rc_ecosystem input) (rc_packageName input) v),
           xf_source_observed_at = Some (rc_observedAt input),
           xf_publish_actor = uv_publisher v,
           xf_publish_actor_kind = (if present (uv_publisher v) then Some ''publisher'' else None),
           xf_publisher_username = uv_publisher v,
           xf_publisher_source = (if present (uv_publisher v) then Some ''npm__npmUser.name'' else None),
           xf_has_trusted_publisher = None,
           xf_maintainer_count = sg_maintainerCount s,
           xf_maintainers = uv_maintainers v,
           xf_maintainer_source = Some ''npm_maintainers'',
           xf_has_install_scripts = sg_hasInstallScripts s,
           xf_has_provenance = sg_hasProvenance s,
           xf_publisher_seen_before_package = sg_publisherSeenBeforePackage s,
           xf_publisher_seen_count_before = sg_publisherSeenCountBefore s,
           xf_publisher_matches_prior_version = sg_publisherMatchesPriorVersion s,
           xf_prior_package_version_id =
             (if index > 0 then Some (uv_packageVersionId (rc_upsertedVersions input ! (index - 1))) else None),
           xf_prior_version_publish_actor = sg_priorVersionPublisher s,
           xf_maintainer_set_changed = sg_maintainerSetChanged s,
           xf_maintainers_added = difference (uv_maintainers v) (lp_priorMaintainers st),
           xf_maintainers_removed = difference (lp_priorMaintainers st) (uv_maintainers v),
           xf_new_maintainer_count = sg_newMaintainerCount s,
           xf_removed_maintainer_count = sg_removedMaintainerCount s,
           xf_release_velocity_7d_at_publish = sg_releaseVelocity7d s,
           xf_release_velocity_30d_at_publish = sg_releaseVelocity30d s,
           xf_first_published_at_for_package = Some (first_published_at input),
           xf_package_release_index = Some index,
           xf_history_complete = sg_historyComplete s,
           xf_contributor_slice_fingerprint = slice,
           xf_contributor_slice_observed_at =
             (if isRequestedVersion \<and> present (me_sliceFingerprint (rc_event input)) then Some (rc_observedAt input) else None),
           xf_observed_at = Some (rc_observedAt input) \<rparr>)"

definition release_fact_key :: "release_fact_row \<Rightarrow> string option" where
  "release_fact_key r = Some (xf_package_version_id r)"

text \<open>An update keeps the trusted publisher, and the slice unless there is a new one.\<close>

definition release_fact_merge :: "release_fact_row \<Rightarrow> release_fact_row \<Rightarrow> release_fact_row" where
  "release_fact_merge new r =
     new\<lparr> xf_package_version_id := xf_package_version_id r,
          xf_has_trusted_publisher := xf_has_trusted_publisher r,
          xf_contributor_slice_fingerprint :=
            orelse (xf_contributor_slice_fingerprint new) (xf_contributor_slice_fingerprint r),
          xf_contributor_slice_observed_at :=
            orelse (xf_contributor_slice_observed_at new) (xf_contributor_slice_observed_at r) \<rparr>"

definition release_quality :: "release_fact_row \<Rightarrow> fact_quality" where
  "release_quality r =
     \<lparr> fq_historyComplete = xf_history_complete r,
       fq_oldestIncludedPublishedAt = xf_first_published_at_for_package r, fq_observedAt = xf_observed_at r \<rparr>"

definition contributorCacheConnector :: "contributor_config \<Rightarrow> connector" where
  "contributorCacheConnector config =
     \<lparr> cn_id = ''contributor'',
       cn_config = \<lparr> cc_cacheTtlSeconds = co_cacheTtlSeconds config, cc_responseTimeoutMs = 0,
                     cc_backgroundTimeoutMs = 0, cc_baseUrl = '''' \<rparr>,
       cn_supportedEcosystems = None, cn_subscribedEvents = [], cn_readSnapshots = None,
       cn_supportsEvent = (\<lambda>_. False), cn_handleEvent = (\<lambda>_. Inr None),
       cn_normalizeToSnapshot = (\<lambda>_ c st e. entity_snapshot ''contributor'' 0 c [] (snapshot_meta_of c st e)) \<rparr>"

definition next_release :: "upserted_version \<Rightarrow> release_loop \<Rightarrow> release_loop" where
  "next_release v st =
     \<lparr> lp_seenPublishers =
         (case uv_publisher v of
            Some (c # p) \<Rightarrow> map_set (c # p) (seen_publisher st (c # p) + 1) (lp_seenPublishers st)
          | _ \<Rightarrow> lp_seenPublishers st),
       lp_priorVersionPublisher = uv_publisher v,
       lp_priorMaintainers = uv_maintainers v \<rparr>"

text \<open>Store the facts of one release, and cache its score.\<close>

definition store_release ::
    "ms \<Rightarrow> release_context \<Rightarrow> contributor_signals \<Rightarrow> upserted_version \<Rightarrow> release_fact_row \<Rightarrow> ingest_db \<Rightarrow> ingest_db" where
  "store_release now input signals v row db =
     (let scored = score_signals now signals;
          event = \<lparr> ev_id = ''contributor:'' @ uv_packageVersionId v, ev_kind = Artifact_request,
                    ev_packageId = rc_packageId input, ev_packageVersionId = Some (uv_packageVersionId v),
                    ev_ecosystem = rc_ecosystem input, ev_packageName = rc_packageName input,
                    ev_version = Some (uv_version v), ev_source = Proxy, ev_observedAt = rc_observedAt input \<rparr>;
          r = scoreToConnectorResult (rc_ecosystem input) (rc_packageName input) (uv_version v) scored
                (scoreToTier (ss_score scored))
                (Some (versionAgeTtlSeconds now (uv_publishedAt v) (co_cacheTtlOverrideSeconds (rc_config input))))
      in db\<lparr> ig_release_facts := upsert_row release_fact_key (release_fact_merge row) row (ig_release_facts db),
             ig_cache := snd (upsertCachedResult (ig_cache db) now (contributorCacheConnector (rc_config input)) event r None) \<rparr>)"

fun upsert_releases ::
    "ms \<Rightarrow> (string \<Rightarrow> jsval option) \<Rightarrow> release_context \<Rightarrow> nat \<Rightarrow> upserted_version list \<Rightarrow> release_loop \<Rightarrow> ingest_db \<Rightarrow> ingest_db" where
  "upsert_releases now json_parse input index [] st db = db"
| "upsert_releases now json_parse input index (v # vs) st db =
     (let signals = stored_signals (me_historyComplete (rc_event input)) (rc_upsertedVersions input) st index v;
          row = release_values json_parse input st index v;
          keep = (case first_row (\<lambda>r. xf_package_version_id r = uv_packageVersionId v) (ig_release_facts db) of
                    Some existing \<Rightarrow> \<not> shouldReplaceContributorFacts (release_quality row) (release_quality existing)
                  | None \<Rightarrow> False)
      in upsert_releases now json_parse input (Suc index) vs (next_release v st)
           (if keep then db else store_release now input signals v row db))"

definition start_loop :: release_loop where
  "start_loop = \<lparr> lp_seenPublishers = [], lp_priorVersionPublisher = None, lp_priorMaintainers = [] \<rparr>"

definition upsertContributorReleaseFacts ::
    "ms \<Rightarrow> (string \<Rightarrow> jsval option) \<Rightarrow> release_context \<Rightarrow> ingest_db \<Rightarrow> ingest_db" where
  "upsertContributorReleaseFacts now json_parse input db =
     upsert_releases now json_parse input 0 (rc_upsertedVersions input) start_loop db"

section \<open>Ingestion\<close>

definition latest_of :: "(manifest_version \<times> ms) list \<Rightarrow> manifest_version \<times> ms" where
  "latest_of versions = hd (sort_key (\<lambda>(_, t). - t) versions)"

definition ingest_transaction ::
    "ms \<Rightarrow> (string \<Rightarrow> jsval option) \<Rightarrow> contributor_config \<Rightarrow> manifest_event \<Rightarrow> string \<Rightarrow> string \<Rightarrow> ms \<Rightarrow>
     ms option \<Rightarrow> ms option \<Rightarrow> (manifest_version \<times> ms) list \<Rightarrow> ingest_db \<Rightarrow> js_error + ingest_db" where
  "ingest_transaction now json_parse config event ecosystem packageName observedAt latestPublishedAt oldestFromEvent inputVersions db =
     sum_bind (upsertPackageIdentity ecosystem packageName observedAt (ig_catalog db)) (\<lambda>(packageId, catalog1).
       let (upsertedVersions, catalog2) = upsert_versions packageId observedAt inputVersions catalog1;
           (latestVersion, latestDate) = latest_of inputVersions;
           oldestIncludedPublishedAt = (case upsertedVersions of [] \<Rightarrow> None | v # _ \<Rightarrow> Some (uv_publishedAt v));
           latestPackageVersionId =
             map_option uv_packageVersionId (find (\<lambda>v. uv_version v = mv_version latestVersion) upsertedVersions);
           catalog3 = updatePackageMetadata packageId latestPackageVersionId (Some latestDate) observedAt catalog2;
           facts = upsertContributorPackageFacts packageId
             (orelse (me_packageMetadataFingerprint event) (me_fingerprint event)) (me_historyComplete event)
             (orelse oldestFromEvent oldestIncludedPublishedAt) observedAt (ig_package_facts db);
           db1 = upsertContributorReleaseFacts now json_parse
             \<lparr> rc_event = event, rc_ecosystem = ecosystem, rc_packageName = packageName, rc_packageId = packageId,
               rc_observedAt = observedAt,
               rc_requestedVersion = (if present (me_requestedVersion event)
                 then map_option canonicalizePackageVersion (me_requestedVersion event) else None),
               rc_upsertedVersions = upsertedVersions, rc_config = config \<rparr>
             (db\<lparr> ig_catalog := catalog3, ig_package_facts := facts \<rparr>);
           latestFromEvent = (if present (me_latestVersion event)
             then map_option canonicalizePackageVersion (me_latestVersion event) else None)
       in Inr (if present latestFromEvent \<and> latestPublishedAt \<noteq> None \<and>
                  find (\<lambda>v. uv_version v = the latestFromEvent) upsertedVersions = None
               then let (vid, catalog4) = upsertPackageVersion packageId (the latestFromEvent) (the latestPublishedAt)
                          observedAt (ig_catalog db1)
                    in db1\<lparr> ig_catalog := updatePackageMetadata packageId (Some vid) latestPublishedAt observedAt catalog4 \<rparr>
               else db1))"

definition ingestContributorMetadata ::
    "ms \<Rightarrow> (string \<Rightarrow> ms option) \<Rightarrow> (string \<Rightarrow> jsval option) \<Rightarrow> contributor_config \<Rightarrow> manifest_event \<Rightarrow>
     ingest_db \<Rightarrow> js_error + ingest_db" where
  "ingestContributorMetadata now parse_date json_parse config event db =
     (let ecosystem = canonicalizeEcosystem (me_ecosystem event);
          packageName = canonicalizePackageName ecosystem (me_package event);
          oldestFromEvent = parseNullableDate parse_date (me_oldestIncludedPublishedAt event);
          inputVersions = normalizeManifestVersions parse_date (me_versions event)
      in if \<not> co_enabled config then Inr db
         else if ecosystem \<noteq> ''npm'' then Inr db
         else case parse_date (me_extractedAt event) of
           None \<Rightarrow> Inr db
         | Some observedAt \<Rightarrow>
             if inputVersions = [] then Inr db
             else
               let (touched, db1) = touchUnchangedContributorManifest ecosystem packageName
                     (orelse (me_packageMetadataFingerprint event) (me_fingerprint event))
                     (me_historyComplete event) oldestFromEvent observedAt db
               in if touched then Inr db1
                  else ingest_transaction now json_parse config event ecosystem packageName observedAt
                         (parseNullableDate parse_date (me_latestPublishedAt event)) oldestFromEvent inputVersions db1)"

definition loadStoredSignals :: "ingest_db \<Rightarrow> string \<Rightarrow> string \<Rightarrow> string \<Rightarrow> contributor_signals option" where
  "loadStoredSignals db ecosystem pkg version =
     (let identity = canonicalizePackageIdentity \<lparr> pi_ecosystem = ecosystem, pi_package = pkg, pi_version = Some version \<rparr>
      in if \<not> present (pi_version identity) then None
         else
           Option.bind (find (\<lambda>(f, v, p). pk_ecosystem p = pi_ecosystem identity \<and> pk_package p = pi_package identity \<and>
                                Some (pv_version v) = pi_version identity)
             (concat (map (\<lambda>f. concat (map (\<lambda>v. map (\<lambda>p. (f, v, p))
                  (filter (\<lambda>p. pk_id p = pv_package_id v) (cg_packages (ig_catalog db))))
                (filter (\<lambda>v. pv_id v = xf_package_version_id f) (cg_versions (ig_catalog db)))))
              (ig_release_facts db)))) (\<lambda>(f, _, _).
             map_option (\<lambda>publishedAt.
               \<lparr> sg_version = version, sg_publishedAt = publishedAt, sg_publisher = xf_publish_actor f,
                 sg_publisherSeenBeforePackage = xf_publisher_seen_before_package f,
                 sg_publisherSeenCountBefore = xf_publisher_seen_count_before f,
                 sg_publisherMatchesPriorVersion = xf_publisher_matches_prior_version f,
                 sg_priorVersionPublisher = xf_prior_version_publish_actor f,
                 sg_maintainerSetChanged = xf_maintainer_set_changed f,
                 sg_newMaintainerCount = xf_new_maintainer_count f,
                 sg_removedMaintainerCount = xf_removed_maintainer_count f,
                 sg_maintainerCount = xf_maintainer_count f,
                 sg_hasInstallScripts = xf_has_install_scripts f,
                 sg_hasProvenance = xf_has_provenance f,
                 sg_hasTrustedPublisher = xf_has_trusted_publisher f,
                 sg_releaseVelocity7d = xf_release_velocity_7d_at_publish f,
                 sg_releaseVelocity30d = xf_release_velocity_30d_at_publish f,
                 sg_historyComplete = xf_history_complete f \<rparr>) (xf_published_at f)))"

interpretation package_facts: upserting package_fact_key package_fact_merge
  by unfold_locales (simp add: package_fact_key_def package_fact_merge_def)

interpretation release_facts: upserting release_fact_key release_fact_merge
  by unfold_locales (simp add: release_fact_key_def release_fact_merge_def)

section \<open>Better facts are kept\<close>

text \<open>
  Complete history first, then the older start of the history (any start before none), then the
  later observation (any before none).
\<close>

definition quality_rank :: "fact_quality \<Rightarrow> bool \<times> int option \<times> int option" where
  "quality_rank q =
     (fq_historyComplete q = Some True, map_option uminus (fq_oldestIncludedPublishedAt q), fq_observedAt q)"

lemma shouldReplace_rank:
  "shouldReplaceContributorFacts incoming existing \<longleftrightarrow> quality_rank existing \<le> quality_rank incoming"
  by (cases "fq_oldestIncludedPublishedAt incoming"; cases "fq_oldestIncludedPublishedAt existing";
      cases "fq_observedAt incoming"; cases "fq_observedAt existing")
    (auto simp: shouldReplaceContributorFacts_def quality_rank_def less_eq_prod_def less_prod_def le_bool_def)

lemma first_row_unique:
  assumes "unique_key (\<lambda>r. Some (f r)) rows" and "first_row (\<lambda>r. f r = k) rows = Some e"
  shows "filter (\<lambda>r. f r = k) rows = [e]"
proof -
  have "e \<in> set rows" "f e = k" using find_SomeD assms(2) unfolding first_row_def by fastforce+
  then show ?thesis
    using unique_key_filter_single [OF assms(1), of e k] by simp
qed

text \<open>
  Contributor facts never get worse. Whether incoming facts replace stored ones is the order
  that compares completeness of the history, then how far back it goes, then the observation time;
  and after facts about a package are stored its one row has the better of the two qualities, while
  the rows of other packages are as they were.
\<close>

theorem contributor_facts_never_degrade:
  assumes "unique_key package_fact_key rows"
    and "rows' = upsertContributorPackageFacts packageId fingerprint wholeHistory oldest observedAt rows"
    and "incoming = \<lparr> fq_historyComplete = Some wholeHistory, fq_oldestIncludedPublishedAt = oldest, fq_observedAt = Some observedAt \<rparr>"
  shows "(\<exists>r. filter (\<lambda>r. kf_package_id r = packageId) rows' = [r] \<and>
            quality_rank (package_quality r) =
              (case first_row (\<lambda>r. kf_package_id r = packageId) rows of
                 None \<Rightarrow> quality_rank incoming
               | Some e \<Rightarrow> max (quality_rank (package_quality e)) (quality_rank incoming))) \<and>
         filter (\<lambda>r. kf_package_id r \<noteq> packageId) rows' = filter (\<lambda>r. kf_package_id r \<noteq> packageId) rows"
proof -
  define new where "new = \<lparr> kf_package_id = packageId, kf_fingerprint = fingerprint, kf_history_complete = wholeHistory,
       kf_oldest_included_published_at = oldest, kf_observed_at = Some observedAt \<rparr>"
  have q: "package_quality new = incoming" "kf_package_id new = packageId"
    by (simp_all add: new_def package_quality_def assms(3))
  have u: "unique_key (\<lambda>r. Some (kf_package_id r)) rows"
    using assms(1) by (simp add: package_fact_key_def [abs_def])
  show ?thesis
  proof (cases "first_row (\<lambda>r. kf_package_id r = packageId) rows")
    case None
    then have no: "\<forall>r \<in> set rows. kf_package_id r \<noteq> packageId"
      using find_NoneD unfolding first_row_def by fastforce
    then have "rows' = rows @ [new]"
      using None q(2) by (auto simp: assms(2) upsertContributorPackageFacts_def new_def [symmetric] upsert_row_def
          package_fact_key_def list_ex_iff Let_def)
    then show ?thesis
      using None no q by (simp add: filter_empty_conv)
  next
    case (Some e)
    note only = first_row_unique [OF u Some]
    have e: "e \<in> set rows" "kf_package_id e = packageId" using only by (auto dest: filter_eq_ConsD)
    show ?thesis
    proof (cases "shouldReplaceContributorFacts incoming (package_quality e)")
      case False
      then have "rows' = rows"
        using Some by (simp add: assms(2) upsertContributorPackageFacts_def new_def [symmetric] q Let_def)
      then show ?thesis
        using False only Some by (simp add: shouldReplace_rank max_def)
    next
      case True
      let ?f = "\<lambda>r. if kf_package_id r = packageId then package_fact_merge new r else r"
      have "list_ex (\<lambda>r. package_fact_key r = package_fact_key new) rows"
        using e q(2) by (auto simp: list_ex_iff package_fact_key_def)
      then have rows': "rows' = map ?f rows"
        using Some True q by (simp add: assms(2) upsertContributorPackageFacts_def new_def [symmetric] upsert_row_def
            package_fact_key_def Let_def)
      have id: "kf_package_id (?f r) = kf_package_id r" for r by (simp add: package_fact_merge_def)
      have "filter (\<lambda>r. kf_package_id r = packageId) rows' = [package_fact_merge new e]"
        unfolding rows' filter_map comp_def id only using e by simp
      moreover have "filter (\<lambda>r. kf_package_id r \<noteq> packageId) rows' = filter (\<lambda>r. kf_package_id r \<noteq> packageId) rows"
        unfolding rows' filter_map comp_def id by (rule map_idI) simp
      moreover have "package_quality (package_fact_merge new e) = incoming"
        using q(1) by (simp add: package_quality_def package_fact_merge_def)
      ultimately show ?thesis
        using True Some by (simp add: shouldReplace_rank max_def antisym)
    qed
  qed
qed

theorem contributor_facts_never_degrade_witness:
  "\<exists>r. filter (\<lambda>r. kf_package_id r = ''pkg'')
         (upsertContributorPackageFacts ''pkg'' None False (Some 10) 99
            [\<lparr> kf_package_id = ''pkg'', kf_fingerprint = None, kf_history_complete = True,
               kf_oldest_included_published_at = Some 20, kf_observed_at = Some 5 \<rparr>]) = [r] \<and>
       kf_history_complete r"
proof -
  let ?old = "\<lparr> kf_package_id = ''pkg'', kf_fingerprint = None, kf_history_complete = True,
               kf_oldest_included_published_at = Some 20, kf_observed_at = Some 5 \<rparr>"
  have "unique_key package_fact_key [?old]" by (simp add: unique_key_Cons)
  from contributor_facts_never_degrade [OF this refl refl, of "''pkg''" None False "Some 10" 99]
  obtain r where "filter (\<lambda>r. kf_package_id r = ''pkg'') (upsertContributorPackageFacts ''pkg'' None False (Some 10) 99 [?old]) = [r]"
    "quality_rank (package_quality ?old) \<le> quality_rank (package_quality r)"
    by (auto simp: first_row_def)
  moreover from this(2) have "kf_history_complete r"
    by (auto simp: quality_rank_def package_quality_def less_eq_prod_def less_prod_def le_bool_def less_bool_def)
  ultimately show ?thesis by blast
qed

section \<open>The facts of a release, declaratively\<close>

definition preceding :: "upserted_version list \<Rightarrow> nat \<Rightarrow> upserted_version option" where
  "preceding versions i = (if i = 0 then None else Some (versions ! (i - 1)))"

text \<open>
  How often the publisher of release \<open>i\<close> published before, who published the release before it, and
  how the maintainers differ from that release.
\<close>

definition release_spec :: "bool \<Rightarrow> upserted_version list \<Rightarrow> nat \<Rightarrow> contributor_signals" where
  "release_spec historyComplete versions i =
     (let v = versions ! i;
          seen = (\<lambda>p. length (filter (\<lambda>w. uv_publisher w = Some p) (take i versions)));
          before = (case preceding versions i of None \<Rightarrow> [] | Some w \<Rightarrow> uv_maintainers w);
          prior = Option.bind (preceding versions i) uv_publisher
      in \<lparr> sg_version = uv_version v, sg_publishedAt = uv_publishedAt v, sg_publisher = uv_publisher v,
           sg_publisherSeenBeforePackage =
             map_option (\<lambda>p. \<exists>w \<in> set (take i versions). uv_publisher w = Some p) (uv_publisher v),
           sg_publisherSeenCountBefore = map_option (\<lambda>p. int (seen p)) (uv_publisher v),
           sg_publisherMatchesPriorVersion =
             (if prior \<noteq> None \<and> uv_publisher v \<noteq> None then Some (prior = uv_publisher v) else None),
           sg_priorVersionPublisher = prior,
           sg_maintainerSetChanged = (if i = 0 then None else Some (uv_maintainers v \<noteq> before)),
           sg_newMaintainerCount = Some (int (length (filter (\<lambda>m. m \<notin> set before) (uv_maintainers v)))),
           sg_removedMaintainerCount = Some (int (length (filter (\<lambda>m. m \<notin> set (uv_maintainers v)) before))),
           sg_maintainerCount = Some (int (length (uv_maintainers v))),
           sg_hasInstallScripts = Some (uv_hasInstallScripts v),
           sg_hasProvenance = Some (uv_hasAttestation v),
           sg_hasTrustedPublisher = None,
           sg_releaseVelocity7d = Some (int (card {j. j < length versions \<and>
             uv_publishedAt v - 7 * 86400000 \<le> uv_publishedAt (versions ! j) \<and> uv_publishedAt (versions ! j) \<le> uv_publishedAt v})),
           sg_releaseVelocity30d = Some (int (card {j. j < length versions \<and>
             uv_publishedAt v - 30 * 86400000 \<le> uv_publishedAt (versions ! j) \<and> uv_publishedAt (versions ! j) \<le> uv_publishedAt v})),
           sg_historyComplete = Some historyComplete \<rparr>)"

definition loop_after :: "upserted_version list \<Rightarrow> release_loop" where
  "loop_after vs = foldl (\<lambda>st v. next_release v st) start_loop vs"

lemma map_of_map_set: "map_of (map_set k v m) x = (if x = k then Some v else map_of m x)"
  by (induction m) auto

lemma loop_after_snoc: "loop_after (vs @ [v]) = next_release v (loop_after vs)"
  by (simp add: loop_after_def)

lemma loop_after_seen:
  "p \<noteq> [] \<Longrightarrow> seen_publisher (loop_after vs) p = int (length (filter (\<lambda>w. uv_publisher w = Some p) vs))"
proof (induction vs rule: rev_induct)
  case Nil
  then show ?case by (simp add: loop_after_def start_loop_def seen_publisher_def default_def)
next
  case (snoc v vs)
  then show ?case
    by (auto simp: loop_after_snoc next_release_def seen_publisher_def map_of_map_set default_def
        split: option.splits list.splits)
qed

lemma loop_after_prior:
  "vs \<noteq> [] \<Longrightarrow> lp_priorVersionPublisher (loop_after vs) = uv_publisher (last vs) \<and>
                lp_priorMaintainers (loop_after vs) = uv_maintainers (last vs)"
  by (cases vs rule: rev_cases) (simp_all add: loop_after_snoc next_release_def)

lemma sameMembers_eq: "sameMembers l r \<longleftrightarrow> l = r"
proof
  assume "sameMembers l r"
  then have len: "length l = length r" and eq: "list_all (\<lambda>(x, y). x = y) (zip l r)"
    by (simp_all add: sameMembers_def)
  from len eq show "l = r" by (induction l r rule: list_induct2) auto
next
  show "l = r \<Longrightarrow> sameMembers l r"
    by (simp add: sameMembers_def list_all_iff) (auto simp: zip_same)
qed

lemma countVersionsInWindow_card:
  "countVersionsInWindow versions pivot days =
     card {j. j < length versions \<and> pivot - days * 86400000 \<le> uv_publishedAt (versions ! j) \<and>
              uv_publishedAt (versions ! j) \<le> pivot}"
  by (simp add: countVersionsInWindow_def Let_def length_filter_conv_card)

lemma stored_signals_spec:
  assumes "i < length versions" and "uv_publisher (versions ! i) \<noteq> Some []"
  shows "stored_signals hc versions (loop_after (take i versions)) i (versions ! i) = release_spec hc versions i"
proof -
  let ?st = "loop_after (take i versions)" and ?v = "versions ! i"
  have o: "opt_or_null (uv_publisher ?v) = uv_publisher ?v"
    using assms(2) by (cases "uv_publisher ?v") (auto simp: opt_or_null_def present_def)
  have seen: "map_option (seen_publisher ?st) (uv_publisher ?v) =
      map_option (\<lambda>p. int (length (filter (\<lambda>w. uv_publisher w = Some p) (take i versions)))) (uv_publisher ?v)"
    "map_option (\<lambda>p. seen_publisher ?st p > 0) (uv_publisher ?v) =
      map_option (\<lambda>p. \<exists>w \<in> set (take i versions). uv_publisher w = Some p) (uv_publisher ?v)"
    using assms(2) by (cases "uv_publisher ?v"; auto simp: loop_after_seen filter_empty_conv)+
  have prior: "lp_priorVersionPublisher ?st = Option.bind (preceding versions i) uv_publisher"
    "lp_priorMaintainers ?st = (case preceding versions i of None \<Rightarrow> [] | Some w \<Rightarrow> uv_maintainers w)"
  proof -
    have "lp_priorVersionPublisher ?st = Option.bind (preceding versions i) uv_publisher \<and>
          lp_priorMaintainers ?st = (case preceding versions i of None \<Rightarrow> [] | Some w \<Rightarrow> uv_maintainers w)"
    proof (cases "i = 0")
      case True
      then show ?thesis by (simp add: preceding_def loop_after_def start_loop_def)
    next
      case False
      then have ne: "take i versions \<noteq> []" using assms(1) by auto
      have "last (take i versions) = versions ! (i - 1)"
        unfolding last_conv_nth [OF ne] using assms(1) False by (simp add: min_def)
      then show ?thesis using ne False by (simp add: preceding_def loop_after_prior)
    qed
    then show "lp_priorVersionPublisher ?st = Option.bind (preceding versions i) uv_publisher"
      "lp_priorMaintainers ?st = (case preceding versions i of None \<Rightarrow> [] | Some w \<Rightarrow> uv_maintainers w)" by simp_all
  qed
  show ?thesis
    by (simp add: stored_signals_def release_spec_def Let_def o seen prior sameMembers_eq difference_def
        countVersionsInWindow_card split: option.split)
qed

text \<open>The rows of release \<open>x\<close> in a table of facts.\<close>

definition facts_of :: "string \<Rightarrow> release_fact_row list \<Rightarrow> release_fact_row list" where
  "facts_of x rows = filter (\<lambda>f. xf_package_version_id f = x) rows"

lemma store_release_facts:
  assumes "facts_of (xf_package_version_id row) (ig_release_facts db) = []"
  shows "ig_release_facts (store_release now input signals v row db) = ig_release_facts db @ [row]"
  using assms by (auto simp: store_release_def Let_def upsert_row_def release_fact_key_def list_ex_iff facts_of_def
      filter_empty_conv)

lemma store_release_rest [simp]:
  "ig_catalog (store_release now input signals v row db) = ig_catalog db"
  "ig_package_facts (store_release now input signals v row db) = ig_package_facts db"
  by (simp_all add: store_release_def Let_def)

lemma release_values_id [simp]: "xf_package_version_id (release_values jp input st i v) = uv_packageVersionId v"
  by (simp add: release_values_def Let_def)

lemma upsert_releases_rest:
  "ig_catalog (upsert_releases now jp input i vs st db) = ig_catalog db \<and>
   ig_package_facts (upsert_releases now jp input i vs st db) = ig_package_facts db"
  by (induction vs arbitrary: i st db) (simp_all add: Let_def)

lemma upsert_releases_spec:
  assumes "rc_upsertedVersions input = pre @ vs"
    and "distinct (map uv_packageVersionId vs)"
    and "\<forall>v \<in> set vs. facts_of (uv_packageVersionId v) (ig_release_facts db) = []"
  shows "(\<forall>j < length vs. facts_of (uv_packageVersionId (vs ! j))
            (ig_release_facts (upsert_releases now jp input (length pre) vs (loop_after pre) db)) =
            [release_values jp input (loop_after (take (length pre + j) (pre @ vs))) (length pre + j) (vs ! j)]) \<and>
         (\<forall>x. x \<notin> uv_packageVersionId ` set vs \<longrightarrow>
            facts_of x (ig_release_facts (upsert_releases now jp input (length pre) vs (loop_after pre) db)) =
            facts_of x (ig_release_facts db))"
  using assms
proof (induction vs arbitrary: pre db)
  case (Cons v vs)
  let ?row = "release_values jp input (loop_after pre) (length pre) v"
  let ?s = "stored_signals (me_historyComplete (rc_event input)) (rc_upsertedVersions input) (loop_after pre) (length pre) v"
  let ?db = "store_release now input ?s v ?row db"
  have empty: "facts_of (uv_packageVersionId v) (ig_release_facts db) = []" using Cons.prems(3) by simp
  then have none: "first_row (\<lambda>r. xf_package_version_id r = uv_packageVersionId v) (ig_release_facts db) = None"
    by (simp add: first_row_def find_filter facts_of_def)
  have facts: "ig_release_facts ?db = ig_release_facts db @ [?row]"
    using empty by (intro store_release_facts) simp
  have step: "upsert_releases now jp input (length pre) (v # vs) (loop_after pre) db =
      upsert_releases now jp input (length (pre @ [v])) vs (loop_after (pre @ [v])) ?db"
    by (simp add: none Let_def loop_after_snoc)
  have pr: "rc_upsertedVersions input = (pre @ [v]) @ vs" "distinct (map uv_packageVersionId vs)"
    using Cons.prems by simp_all
  have pr3: "\<forall>w \<in> set vs. facts_of (uv_packageVersionId w) (ig_release_facts ?db) = []"
  proof
    fix w assume w: "w \<in> set vs"
    then have "uv_packageVersionId v \<noteq> uv_packageVersionId w"
      using Cons.prems(2) by (metis distinct.simps(2) imageI list.simps(9) set_map)
    with w Cons.prems(3) show "facts_of (uv_packageVersionId w) (ig_release_facts ?db) = []"
      unfolding facts by (simp add: facts_of_def)
  qed
  let ?res = "ig_release_facts (upsert_releases now jp input (length (pre @ [v])) vs (loop_after (pre @ [v])) ?db)"
  from Cons.IH [OF pr pr3] have IH1: "\<And>j. j < length vs \<Longrightarrow> facts_of (uv_packageVersionId (vs ! j)) ?res =
        [release_values jp input (loop_after (take (length (pre @ [v]) + j) ((pre @ [v]) @ vs))) (length (pre @ [v]) + j) (vs ! j)]"
    and IH2: "\<And>x. x \<notin> uv_packageVersionId ` set vs \<Longrightarrow> facts_of x ?res = facts_of x (ig_release_facts ?db)"
    by blast+
  show ?case
    unfolding step
  proof (intro conjI allI impI)
    fix j assume j: "j < length (v # vs)"
    show "facts_of (uv_packageVersionId ((v # vs) ! j)) ?res =
        [release_values jp input (loop_after (take (length pre + j) (pre @ v # vs))) (length pre + j) ((v # vs) ! j)]"
    proof (cases j)
      case 0
      have "uv_packageVersionId v \<notin> uv_packageVersionId ` set vs" using Cons.prems(2) by simp
      from IH2 [OF this] empty facts 0 show ?thesis by (simp add: facts_of_def)
    next
      case (Suc k)
      with j IH1 [of k] show ?thesis by simp
    qed
  next
    fix x assume x: "x \<notin> uv_packageVersionId ` set (v # vs)"
    then have "uv_packageVersionId v \<noteq> x" "x \<notin> uv_packageVersionId ` set vs" by auto
    with IH2 [of x] show "facts_of x ?res = facts_of x (ig_release_facts db)"
      by (simp add: facts facts_of_def)
  qed
qed simp

text \<open>The signals a row of facts stands for, as \<open>loadStoredSignals\<close> reads them.\<close>

definition row_signals :: "string \<Rightarrow> release_fact_row \<Rightarrow> contributor_signals option" where
  "row_signals version f = map_option (\<lambda>publishedAt.
     \<lparr> sg_version = version, sg_publishedAt = publishedAt, sg_publisher = xf_publish_actor f,
       sg_publisherSeenBeforePackage = xf_publisher_seen_before_package f,
       sg_publisherSeenCountBefore = xf_publisher_seen_count_before f,
       sg_publisherMatchesPriorVersion = xf_publisher_matches_prior_version f,
       sg_priorVersionPublisher = xf_prior_version_publish_actor f,
       sg_maintainerSetChanged = xf_maintainer_set_changed f,
       sg_newMaintainerCount = xf_new_maintainer_count f,
       sg_removedMaintainerCount = xf_removed_maintainer_count f,
       sg_maintainerCount = xf_maintainer_count f,
       sg_hasInstallScripts = xf_has_install_scripts f,
       sg_hasProvenance = xf_has_provenance f,
       sg_hasTrustedPublisher = xf_has_trusted_publisher f,
       sg_releaseVelocity7d = xf_release_velocity_7d_at_publish f,
       sg_releaseVelocity30d = xf_release_velocity_30d_at_publish f,
       sg_historyComplete = xf_history_complete f \<rparr>) (xf_published_at f)"

lemma row_signals_release:
  "row_signals (uv_version v) (release_values jp input st i v) =
     Some (stored_signals (me_historyComplete (rc_event input)) (rc_upsertedVersions input) st i v)"
  by (simp add: row_signals_def release_values_def Let_def stored_signals_def)

lemma find_exists: "x \<in> set xs \<Longrightarrow> P x \<Longrightarrow> \<exists>y. find P xs = Some y"
  by (induction xs) auto

lemma join3_iff:
  "(x, y, z) \<in> set (concat (map (\<lambda>a. concat (map (\<lambda>b. map (\<lambda>c. (a, b, c)) (C b)) (B a))) xs)) \<longleftrightarrow>
     x \<in> set xs \<and> y \<in> set (B x) \<and> z \<in> set (C y)"
  by auto

lemma loadStoredSignals_row:
  assumes inv: "catalog_inv (ig_catalog db)" and v: "v \<in> set (cg_versions (ig_catalog db))" "pv_version v = version"
    and p: "p \<in> set (cg_packages (ig_catalog db))" "pk_id p = pv_package_id v" "pk_ecosystem p = ecosystem" "pk_package p = pkg"
    and canon: "canonicalizePackageIdentity \<lparr> pi_ecosystem = ecosystem, pi_package = pkg, pi_version = Some version \<rparr> =
      \<lparr> pi_ecosystem = ecosystem, pi_package = pkg, pi_version = Some version \<rparr>" "version \<noteq> []"
    and f: "facts_of (pv_id v) (ig_release_facts db) = [f]"
  shows "loadStoredSignals db ecosystem pkg version = row_signals version f"
proof -
  let ?join = "concat (map (\<lambda>f. concat (map (\<lambda>v. map (\<lambda>p. (f, v, p))
        (filter (\<lambda>p. pk_id p = pv_package_id v) (cg_packages (ig_catalog db))))
      (filter (\<lambda>v. pv_id v = xf_package_version_id f) (cg_versions (ig_catalog db))))) (ig_release_facts db))"
  let ?P = "\<lambda>(f :: release_fact_row, v, p). pk_ecosystem p = ecosystem \<and> pk_package p = pkg \<and> Some (pv_version v) = Some version"
  have fin: "f \<in> set (ig_release_facts db)" "xf_package_version_id f = pv_id v"
    using f by (auto simp: facts_of_def dest: filter_eq_ConsD)
  have "(f, v, p) \<in> set ?join"
    unfolding join3_iff using fin v p by simp
  moreover have "?P (f, v, p)" using v p by simp
  ultimately have "\<exists>y. find ?P ?join = Some y" by (rule find_exists)
  then obtain y where y: "find ?P ?join = Some y" ..
  obtain g w q where "y = (g, w, q)" by (rule prod_cases3)
  with y have found: "find ?P ?join = Some (g, w, q)" by (simp only:)
  have "g = f"
  proof -
    have g: "g \<in> set (ig_release_facts db)" "w \<in> set (cg_versions (ig_catalog db))"
      "q \<in> set (cg_packages (ig_catalog db))" "pv_id w = xf_package_version_id g" "pk_id q = pv_package_id w"
      and gp: "pk_ecosystem q = ecosystem" "pk_package q = pkg" "pv_version w = version"
      using find_SomeD [OF found] unfolding join3_iff by simp_all
    have "q = p"
      using unique_key_inj [of package_key "cg_packages (ig_catalog db)" q p] inv g gp p
      by (simp add: catalog_inv_def package_key_def)
    then have "w = v"
      using unique_key_inj [of version_key "cg_versions (ig_catalog db)" w v] inv g gp v p
      by (simp add: catalog_inv_def version_key_def)
    with g have "g \<in> set (facts_of (pv_id v) (ig_release_facts db))" by (simp add: facts_of_def)
    with f show ?thesis by simp
  qed
  then show ?thesis
    using found canon by (simp add: loadStoredSignals_def Let_def present_def row_signals_def)
qed

text \<open>
  What the contributor connector reads back about a release is the declarative account of its
  history. After the facts of a list of releases, oldest first, are stored for a package that had
  none for them, loading the signals of release \<open>i\<close> gives: how often its publisher occurs among
  the earlier releases, whether it is the publisher of the preceding one, which maintainers were
  added and removed since then, and how many releases fall in the 7 and 30 days up to it.
\<close>

theorem release_facts_roundtrip:
  assumes "catalog_inv (ig_catalog db)" and "i < length versions" and "rc_upsertedVersions input = versions"
    and "distinct (map uv_packageVersionId versions)"
    and "\<forall>v \<in> set versions. facts_of (uv_packageVersionId v) (ig_release_facts db) = [] \<and> uv_publisher v \<noteq> Some []"
    and "r \<in> set (cg_versions (ig_catalog db))" and "pv_id r = uv_packageVersionId (versions ! i)"
    and "pv_version r = uv_version (versions ! i)"
    and "p \<in> set (cg_packages (ig_catalog db))" and "pk_id p = pv_package_id r"
    and "canonicalizePackageIdentity \<lparr> pi_ecosystem = pk_ecosystem p, pi_package = pk_package p, pi_version = Some (pv_version r) \<rparr> =
           \<lparr> pi_ecosystem = pk_ecosystem p, pi_package = pk_package p, pi_version = Some (pv_version r) \<rparr>"
    and "pv_version r \<noteq> []"
  shows "loadStoredSignals (upsertContributorReleaseFacts now json_parse input db) (pk_ecosystem p) (pk_package p) (pv_version r) =
         Some (release_spec (me_historyComplete (rc_event input)) versions i)"
proof -
  let ?db = "upsertContributorReleaseFacts now json_parse input db"
  have eq: "?db = upsert_releases now json_parse input 0 versions (loop_after []) db"
    by (simp add: upsertContributorReleaseFacts_def assms(3) loop_after_def)
  have cat: "ig_catalog ?db = ig_catalog db"
    unfolding eq by (simp add: upsert_releases_rest)
  have "facts_of (uv_packageVersionId (versions ! i)) (ig_release_facts ?db) =
      [release_values json_parse input (loop_after (take i versions)) i (versions ! i)]"
    unfolding eq using upsert_releases_spec [of input "[]" versions db now json_parse] assms(2-5) by simp
  then have "loadStoredSignals ?db (pk_ecosystem p) (pk_package p) (pv_version r) =
      row_signals (pv_version r) (release_values json_parse input (loop_after (take i versions)) i (versions ! i))"
    using loadStoredSignals_row [of ?db r "pv_version r" p] assms by (simp add: cat)
  also have "\<dots> = Some (stored_signals (me_historyComplete (rc_event input)) versions (loop_after (take i versions)) i (versions ! i))"
    using row_signals_release [of "versions ! i"] assms(3,8) by simp
  also have "\<dots> = Some (release_spec (me_historyComplete (rc_event input)) versions i)"
    using assms(2,5) by (simp add: stored_signals_spec)
  finally show ?thesis .
qed

definition sample_versions :: "upserted_version list" where
  "sample_versions =
     [\<lparr> uv_packageVersionId = ''uu'', uv_version = ''1.0.0'', uv_publishedAt = 0, uv_publisher = Some ''ann'',
        uv_maintainers = [''ann''], uv_hasInstallScripts = False, uv_hasAttestation = True, uv_rawPayloadJson = None \<rparr>,
      \<lparr> uv_packageVersionId = ''uuu'', uv_version = ''1.1.0'', uv_publishedAt = 1000, uv_publisher = Some ''bob'',
        uv_maintainers = [''ann'', ''bob''], uv_hasInstallScripts = True, uv_hasAttestation = False, uv_rawPayloadJson = None \<rparr>]"

definition sample_package :: package_row where
  "sample_package = \<lparr> pk_id = ''u'', pk_ecosystem = ''npm'', pk_package = ''left-pad'',
     pk_latest_package_version_id = None, pk_last_metadata_seen_at = None \<rparr>"

definition sample_release :: "upserted_version \<Rightarrow> package_version_row" where
  "sample_release v = \<lparr> pv_id = uv_packageVersionId v, pv_package_id = ''u'', pv_version = uv_version v,
     pv_version_kind = Version, pv_artifact_kind = Package_release, pv_display_role = Primary,
     pv_published_at = Some (uv_publishedAt v), pv_last_metadata_seen_at = None, pv_last_used_at = None \<rparr>"

definition sample_ingest :: ingest_db where
  "sample_ingest =
     \<lparr> ig_catalog = sample_catalog\<lparr> cg_packages := [sample_package], cg_versions := map sample_release sample_versions,
         cg_uuids := (cg_uuids sample_catalog)\<lparr> us_drawn := 3 \<rparr> \<rparr>,
       ig_package_facts = [], ig_release_facts = [],
       ig_cache = \<lparr> cb_rows = [], cb_uuids = cg_uuids sample_catalog \<rparr> \<rparr>"

definition sample_context :: release_context where
  "sample_context =
     \<lparr> rc_event = \<lparr> me_ecosystem = ''npm'', me_package = ''left-pad'', me_extractedAt = '''', me_fingerprint = None,
         me_packageMetadataFingerprint = None, me_sliceFingerprint = None, me_requestedVersion = None,
         me_latestVersion = None, me_latestPublishedAt = None, me_historyComplete = True,
         me_oldestIncludedPublishedAt = None, me_versions = [] \<rparr>,
       rc_ecosystem = ''npm'', rc_packageName = ''left-pad'', rc_packageId = ''u'', rc_observedAt = 2000,
       rc_requestedVersion = None, rc_upsertedVersions = sample_versions,
       rc_config = \<lparr> co_enabled = True, co_cacheTtlSeconds = 60, co_cacheTtlOverrideSeconds = None \<rparr> \<rparr>"

lemma sample_ingest_inv: "catalog_inv (ig_catalog sample_ingest)"
  using sample_catalog_inv
  by (simp add: catalog_inv_def sample_ingest_def sample_package_def sample_release_def sample_versions_def
      sample_catalog_def source_ok_def ids_ok_def drawn_id_def unique_key_Cons version_key_def numeral_3_eq_3 less_Suc_eq)
    (simp add: conj_disj_distribR ex_disj_distrib)

theorem release_facts_roundtrip_witness:
  "\<exists>s. loadStoredSignals (upsertContributorReleaseFacts 3000 (\<lambda>_. None) sample_context sample_ingest)
         ''npm'' ''left-pad'' ''1.1.0'' = Some s \<and>
       sg_publisherSeenBeforePackage s = Some False \<and> sg_maintainerSetChanged s = Some True \<and>
       sg_newMaintainerCount s = Some 1"
proof -
  let ?r = "sample_release (sample_versions ! 1)"
  have c: "canonicalizePackageIdentity \<lparr> pi_ecosystem = ''npm'', pi_package = ''left-pad'', pi_version = Some ''1.1.0'' \<rparr> =
      \<lparr> pi_ecosystem = ''npm'', pi_package = ''left-pad'', pi_version = Some ''1.1.0'' \<rparr>"
    by code_simp
  have "loadStoredSignals (upsertContributorReleaseFacts 3000 (\<lambda>_. None) sample_context sample_ingest)
         (pk_ecosystem sample_package) (pk_package sample_package) (pv_version ?r) =
       Some (release_spec (me_historyComplete (rc_event sample_context)) sample_versions 1)"
    by (rule release_facts_roundtrip [OF sample_ingest_inv])
      (use c in \<open>simp_all add: sample_versions_def sample_context_def sample_ingest_def sample_package_def
        sample_release_def facts_of_def\<close>)
  then show ?thesis
    by (simp add: release_spec_def Let_def sample_versions_def sample_package_def sample_release_def preceding_def)
qed

section \<open>Ingestion keeps the invariants\<close>

lemma append_package_inv:
  assumes "catalog_inv db" and "draw (cg_uuids db) = (pid, uuids)" and "pk_id row = pid"
    and "\<forall>s \<in> set (cg_packages db). package_key s \<noteq> package_key row"
  shows "catalog_inv (db\<lparr> cg_packages := cg_packages db @ [row], cg_uuids := uuids \<rparr>)"
  using assms by (simp add: catalog_inv_def unique_key_append draw_source ids_ok_append [OF _ assms(2)] ids_ok_draw [OF assms(2)])

lemma append_version_inv:
  assumes "catalog_inv db" and "draw (cg_uuids db) = (vid, uuids)" and "pv_id row = vid"
    and "\<forall>s \<in> set (cg_versions db). version_key s \<noteq> version_key row"
  shows "catalog_inv (db\<lparr> cg_versions := cg_versions db @ [row], cg_uuids := uuids \<rparr>)"
  using assms by (simp add: catalog_inv_def unique_key_append draw_source ids_ok_append [OF _ assms(2)] ids_ok_draw [OF assms(2)])

lemma update_packages_inv:
  assumes "catalog_inv db" and "\<And>p. pk_id (f p) = pk_id p \<and> package_key (f p) = package_key p"
  shows "catalog_inv (db\<lparr> cg_packages := update_where P f (cg_packages db) \<rparr>)"
  using assms by (simp add: catalog_inv_def update_where_def ids_ok_map_same unique_key_map_same)

lemma update_versions_inv:
  assumes "catalog_inv db" and "\<And>p. pv_id (f p) = pv_id p \<and> version_key (f p) = version_key p"
  shows "catalog_inv (db\<lparr> cg_versions := update_where P f (cg_versions db) \<rparr>)"
  using assms by (simp add: catalog_inv_def update_where_def ids_ok_map_same unique_key_map_same)

lemma upsertPackageIdentity_inv:
  assumes "catalog_inv db" and "upsertPackageIdentity eco name t db = Inr (pid, db')"
  shows "catalog_inv db'"
proof -
  obtain i uuids where d: "draw (cg_uuids db) = (i, uuids)" by fastforce
  show ?thesis
    using assms d
    by (auto simp: upsertPackageIdentity_def Let_def package_key_def list_ex_iff split: if_splits option.splits
        intro!: append_package_inv)
qed

lemma upsertPackageVersion_inv:
  assumes "catalog_inv db"
  shows "catalog_inv (snd (upsertPackageVersion packageId v t u db))"
proof (cases "first_row (\<lambda>r. pv_package_id r = packageId \<and> pv_version r = canonicalizePackageVersion v) (cg_versions db)")
  case None
  obtain i uuids where d: "draw (cg_uuids db) = (i, uuids)" by fastforce
  have "\<forall>s \<in> set (cg_versions db). \<not> (pv_package_id s = packageId \<and> pv_version s = canonicalizePackageVersion v)"
    using None by (simp add: first_row_def find_None_iff')
  with None d show ?thesis
    by (auto simp: upsertPackageVersion_def Let_def version_key_def intro!: append_version_inv [OF assms d])
qed (simp add: upsertPackageVersion_def Let_def update_versions_inv [OF assms] version_key_def)

lemma updatePackageMetadata_inv: "catalog_inv db \<Longrightarrow> catalog_inv (updatePackageMetadata packageId vid t u db)"
  by (simp add: updatePackageMetadata_def Let_def update_packages_inv package_key_def)

lemma upsert_versions_inv: "catalog_inv db \<Longrightarrow> catalog_inv (snd (upsert_versions packageId t vs db))"
proof (induction vs arbitrary: db)
  case (Cons a vs)
  obtain v published where a: "a = (v, published)" by (cases a)
  show ?case
    using Cons.IH [OF upsertPackageVersion_inv [OF Cons.prems]]
    by (simp add: a Let_def case_prod_beta)
qed simp

lemma store_release_cache_ok: "cache_ok (ig_cache db) \<Longrightarrow> cache_ok (ig_cache (store_release now input s v row db))"
  by (simp add: store_release_def Let_def upsertCachedResult_ok)

lemma upsert_releases_cache_ok:
  "cache_ok (ig_cache db) \<Longrightarrow> cache_ok (ig_cache (upsert_releases now jp input i vs st db))"
  by (induction vs arbitrary: i st db) (simp_all add: Let_def store_release_cache_ok)

lemma touch_inv:
  assumes "catalog_inv (ig_catalog db)"
  shows "catalog_inv (ig_catalog (snd (touchUnchangedContributorManifest e p f h o' t db))) \<and>
         ig_cache (snd (touchUnchangedContributorManifest e p f h o' t db)) = ig_cache db"
  using assms
  by (simp add: touchUnchangedContributorManifest_def Let_def update_packages_inv package_key_def split: option.split prod.split)

lemma ingest_transaction_inv:
  assumes "catalog_inv (ig_catalog db)" and "cache_ok (ig_cache db)"
    and "ingest_transaction now jp config event eco name observedAt latest oldest versions db = Inr db'"
  shows "catalog_inv (ig_catalog db') \<and> cache_ok (ig_cache db')"
proof -
  from assms(3) obtain pid c1 where c1: "upsertPackageIdentity eco name observedAt (ig_catalog db) = Inr (pid, c1)"
    by (auto simp: ingest_transaction_def sum_bind_Inr_iff)
  have inv1: "catalog_inv c1" by (rule upsertPackageIdentity_inv [OF assms(1) c1])
  note inv2 = upsert_versions_inv [OF inv1, of pid observedAt versions]
  note inv3 = updatePackageMetadata_inv [OF inv2]
  note inv4 = updatePackageMetadata_inv [OF upsertPackageVersion_inv [OF inv3]]
  from assms(3) inv3 inv4 show ?thesis
    by (auto simp: ingest_transaction_def c1 Let_def case_prod_beta upsertContributorReleaseFacts_def upsert_releases_rest
        upsert_releases_cache_ok assms(2) split: if_splits)
qed

lemma ingest_inv:
  assumes "catalog_inv (ig_catalog db)" and "cache_ok (ig_cache db)"
    and "ingestContributorMetadata now parse_date jp config event db = Inr db'"
  shows "catalog_inv (ig_catalog db') \<and> cache_ok (ig_cache db')"
proof -
  have touched: "catalog_inv (ig_catalog (snd (touchUnchangedContributorManifest e p f h old t db)))"
    "cache_ok (ig_cache (snd (touchUnchangedContributorManifest e p f h old t db)))" for e p f h old t
    using touch_inv [OF assms(1), of e p f h old t] assms(2) by simp_all
  from assms show ?thesis
    by (simp add: ingestContributorMetadata_def Let_def case_prod_beta split: if_splits option.splits)
      (use touched ingest_transaction_inv [OF touched] in auto)
qed

end
