(* ===== verification/Connector_Evaluation.thy ===== *)
theory Connector_Evaluation
  imports Contributor_Facts Findings Effective_Policy OSV Intelligence
begin

text \<open>
  How a check collects the fields of its connectors, \<open>connect/check-service.ts\<close> and
  \<open>connectors/events.ts\<close>: serving a snapshot from the cache, fetching under a response deadline,
  finishing a late fetch in the background, warming the package-scoped cache, prefetching the
  contributor slice, and merging the stored snapshots into the field map. The synchronization of a
  project with a connector, \<open>features/security/connector-sync-service.ts\<close>, shares these stores.

  \<open>fetch_ms\<close> is a parameter: how long \<open>handleEvent\<close> of a connector takes for an event. The connectors
  of a request run concurrently in the code; they write rows of their own connector only, and the
  model runs them one after the other.
\<close>

section \<open>Events\<close>

record event_subject =
  es_package_id :: "string option"
  es_package_version_id :: "string option"
  es_ecosystem :: string
  es_package :: string
  es_version :: "string option"

definition subject_of :: "artifact_identity \<Rightarrow> event_subject" where
  "subject_of ai =
     \<lparr> es_package_id = ai_package_id ai, es_package_version_id = ai_package_version_id ai,
       es_ecosystem = ai_ecosystem ai, es_package = ai_package ai, es_version = ai_version ai \<rparr>"

text \<open>The random identifier of an event is the argument \<open>eventId\<close>; no code reads it.\<close>

definition buildArtifactRequestEvent ::
    "string \<Rightarrow> ms \<Rightarrow> event_subject \<Rightarrow> event_source \<Rightarrow> js_error + artifact_event" where
  "buildArtifactRequestEvent eventId now subject source =
     (if \<not> present (es_package_id subject) \<or> \<not> present (es_package_version_id subject)
      then Inl (AppError ''artifact_identity_missing_catalog_ids'')
      else if \<not> present (es_version subject)
      then Inl (AppError ''artifact_identity_missing_version'')
      else Inr \<lparr> ev_id = eventId, ev_kind = Artifact_request,
                 ev_packageId = the (es_package_id subject),
                 ev_packageVersionId = es_package_version_id subject,
                 ev_ecosystem = es_ecosystem subject, ev_packageName = es_package subject,
                 ev_version = es_version subject, ev_source = source, ev_observedAt = now \<rparr>)"

definition buildPackageMetadataEvent ::
    "string \<Rightarrow> ms \<Rightarrow> event_subject \<Rightarrow> event_source \<Rightarrow> js_error + artifact_event" where
  "buildPackageMetadataEvent eventId now subject source =
     (if \<not> present (es_package_id subject)
      then Inl (AppError ''artifact_identity_missing_package_id'')
      else Inr \<lparr> ev_id = eventId, ev_kind = Package_metadata,
                 ev_packageId = the (es_package_id subject), ev_packageVersionId = None,
                 ev_ecosystem = es_ecosystem subject, ev_packageName = es_package subject,
                 ev_version = None, ev_source = source, ev_observedAt = now \<rparr>)"

section \<open>The stores a connector writes\<close>

record background_fetch =
  bf_connector :: connector
  bf_tenantId :: string
  bf_projectId :: string
  bf_event :: artifact_event
  bf_displayName :: string
  bf_startedAt :: ms

record connector_db =
  kd_ingest :: ingest_db
  kd_snapshots :: "snapshot_row list"
  kd_findings :: findings_db
  kd_pending :: "background_fetch list"

definition kd_cache :: "connector_db \<Rightarrow> cache_db" where
  "kd_cache db = ig_cache (kd_ingest db)"

definition set_cache :: "cache_db \<Rightarrow> connector_db \<Rightarrow> connector_db" where
  "set_cache cache db = db\<lparr> kd_ingest := (kd_ingest db)\<lparr> ig_cache := cache \<rparr> \<rparr>"

lemma kd_cache_simps [simp]:
  "kd_cache (set_cache c db) = c" "kd_snapshots (set_cache c db) = kd_snapshots db"
  "kd_findings (set_cache c db) = kd_findings db" "kd_pending (set_cache c db) = kd_pending db"
  "kd_cache (db\<lparr> kd_snapshots := s \<rparr>) = kd_cache db" "kd_cache (db\<lparr> kd_findings := f \<rparr>) = kd_cache db"
  "kd_cache (db\<lparr> kd_pending := p \<rparr>) = kd_cache db"
  by (simp_all add: kd_cache_def set_cache_def)

text \<open>Storing a snapshot with the findings it came with, the tail both evaluations share.\<close>

definition store_snapshot ::
    "ms \<Rightarrow> connector \<Rightarrow> string \<Rightarrow> string \<Rightarrow> connector_snapshot \<Rightarrow> string option \<Rightarrow> connector_finding list \<Rightarrow>
     connector_db \<Rightarrow> connector_db" where
  "store_snapshot now connector tenantId projectId snapshot connectorCacheId findings db =
     db\<lparr> kd_snapshots := upsertConnectorSnapshot tenantId projectId snapshot (kd_snapshots db),
         kd_findings := snd (upsertProjectFindingsForEntity now
           \<lparr> in_tenantId = tenantId, in_projectId = projectId, in_connectorKey = cn_id connector,
             in_connectorCacheId = connectorCacheId, in_packageId = sn_packageId snapshot,
             in_packageVersionId = sn_packageVersionId snapshot, in_findings = findings \<rparr> (kd_findings db)) \<rparr>"

definition persistConnectorResult ::
    "ms \<Rightarrow> connector \<Rightarrow> string \<Rightarrow> string \<Rightarrow> artifact_event \<Rightarrow> string \<Rightarrow> connector_result \<Rightarrow> int \<Rightarrow>
     connector_db \<Rightarrow> connector_snapshot \<times> connector_db" where
  "persistConnectorResult now connector tenantId projectId event displayName result responseTimeMs db =
     (let (cacheRow, cache) = upsertCachedResult (kd_cache db) now connector event result None;
          snapshot = cn_normalizeToSnapshot connector (Some result)
            (eventEntityContext event displayName False responseTimeMs None) None None
      in (snapshot, store_snapshot now connector tenantId projectId snapshot (map_option ca_id cacheRow)
            (cr_findings result) (set_cache cache db)))"

section \<open>Serving from the cache\<close>

text \<open>
  The part \<open>evaluateConnectorForRequest\<close> and \<open>evaluateCachedConnectorForRequest\<close> have in common: a
  fresh row of the version, or else a fresh row of the package, which is stored for the version.
\<close>

definition evaluateFromCache ::
    "string \<Rightarrow> ms \<Rightarrow> connector \<Rightarrow> artifact_identity \<Rightarrow> string \<Rightarrow> string \<Rightarrow> artifact_event \<Rightarrow> connector_db \<Rightarrow>
     js_error + (connector_snapshot option \<times> connector_db)" where
  "evaluateFromCache eventId now connector ai tenantId projectId event db =
     (case buildCachedSnapshot (kd_cache db) now connector event (ai_display_name ai) of
        Some cached \<Rightarrow>
          Inr (Some (cs_snapshot cached),
               store_snapshot now connector tenantId projectId (cs_snapshot cached)
                 (Some (cs_connectorCacheId cached)) (cs_findings cached) db)
      | None \<Rightarrow>
          sum_bind (buildPackageMetadataEvent eventId now (subject_of ai) Proxy) (\<lambda>packageMetadataEvent.
            let packageScopedResult =
                  (if connectorSupportsEvent connector packageMetadataEvent
                   then getPackageScopedCachedResult (kd_cache db) now connector packageMetadataEvent else None)
            in case packageScopedResult of
                 None \<Rightarrow> Inr (None, db)
               | Some result \<Rightarrow>
                   let (snapshot, db') = persistConnectorResult now connector tenantId projectId event
                         (ai_display_name ai) result 0 db
                   in Inr (Some snapshot, db')))"

section \<open>Evaluation of a connector\<close>

text \<open>
  \<open>err.message\<close>. The text of an engine's \<open>TypeError\<close> is not modelled; it stands as the name of the
  error.
\<close>

fun error_message :: "js_error \<Rightarrow> string" where
  "error_message (AppError m) = m"
| "error_message TypeError = ''TypeError''"

definition isConnectorUnavailableError :: "js_error \<Rightarrow> bool" where
  "isConnectorUnavailableError err =
     (error_message err \<in> {''contributor_facts_unavailable'', ''intelligence_http_429'', ''intelligence_http_503''})"

text \<open>
  The catch branch. \<open>fetching\<close> says that \<open>handleEvent\<close> was called; a deadline that passes then leaves
  the fetch running.
\<close>

definition failureStatus :: "bool \<Rightarrow> js_error \<Rightarrow> snapshot_status" where
  "failureStatus fetching err =
     (if error_message err = ''response_timeout'' \<and> fetching then Background_pending
      else if isConnectorUnavailableError err then Unavailable else Error)"

definition evaluationFailed ::
    "ms \<Rightarrow> ms \<Rightarrow> connector \<Rightarrow> artifact_identity \<Rightarrow> string \<Rightarrow> string \<Rightarrow> artifact_event \<Rightarrow> bool \<Rightarrow> js_error \<Rightarrow>
     connector_db \<Rightarrow> connector_snapshot \<times> connector_db" where
  "evaluationFailed now fetchStartMs connector ai tenantId projectId event fetching err db =
     (let isTimeout = (error_message err = ''response_timeout'');
          snapshot = cn_normalizeToSnapshot connector None
            (eventEntityContext event (ai_display_name ai) False (now - fetchStartMs) None)
            (Some (failureStatus fetching err)) (Some (error_message err));
          pending = (if isTimeout \<and> fetching
            then [\<lparr> bf_connector = connector, bf_tenantId = tenantId, bf_projectId = projectId, bf_event = event,
                    bf_displayName = ai_display_name ai, bf_startedAt = fetchStartMs \<rparr>] else [])
      in (snapshot,
          db\<lparr> kd_snapshots := upsertConnectorSnapshot tenantId projectId snapshot (kd_snapshots db),
              kd_pending := kd_pending db @ pending \<rparr>))"

definition evaluateConnectorForRequest ::
    "(connector \<Rightarrow> artifact_event \<Rightarrow> int) \<Rightarrow> string \<Rightarrow> ms \<Rightarrow> connector \<Rightarrow> artifact_identity \<Rightarrow> string \<Rightarrow> string \<Rightarrow>
     connector_db \<Rightarrow> js_error + (connector_snapshot \<times> connector_db)" where
  "evaluateConnectorForRequest fetch_ms eventId now connector ai tenantId projectId db =
     sum_bind (buildArtifactRequestEvent eventId now (subject_of ai) Proxy) (\<lambda>event.
       if \<not> connectorSupportsEvent connector event then Inr (unavailableSnapshot now (cn_id connector), db)
       else case evaluateFromCache eventId now connector ai tenantId projectId event db of
         Inl err \<Rightarrow> Inr (evaluationFailed now now connector ai tenantId projectId event False err db)
       | Inr (Some snapshot, db') \<Rightarrow> Inr (snapshot, db')
       | Inr (None, db') \<Rightarrow>
           let deadline = cc_responseTimeoutMs (cn_config connector);
               t = fetch_ms connector event
           in if t < deadline
              then (case cn_handleEvent connector event of
                      Inl err \<Rightarrow>
                        Inr (evaluationFailed (now + t) now connector ai tenantId projectId event True err db')
                    | Inr None \<Rightarrow> Inr (unavailableSnapshot (now + t) (cn_id connector), db')
                    | Inr (Some outcome) \<Rightarrow>
                        Inr (persistConnectorResult (now + t) connector tenantId projectId event
                               (ai_display_name ai) outcome t db'))
              else Inr (evaluationFailed (now + deadline) now connector ai tenantId projectId event True
                     (AppError ''response_timeout'') db'))"

text \<open>A late answer: \<open>fetchPromise.then\<close> of the catch branch. A failed fetch is only logged.\<close>

definition settle_background :: "ms \<Rightarrow> nat \<Rightarrow> connector_db \<Rightarrow> connector_db" where
  "settle_background now i db =
     (let bf = kd_pending db ! i;
          db' = db\<lparr> kd_pending := take i (kd_pending db) @ drop (Suc i) (kd_pending db) \<rparr>
      in case cn_handleEvent (bf_connector bf) (bf_event bf) of
           Inr (Some bgOutcome) \<Rightarrow>
             snd (persistConnectorResult now (bf_connector bf) (bf_tenantId bf) (bf_projectId bf) (bf_event bf)
               (bf_displayName bf) bgOutcome (now - bf_startedAt bf) db')
         | _ \<Rightarrow> db')"

definition evaluateCachedConnectorForRequest ::
    "string \<Rightarrow> ms \<Rightarrow> connector \<Rightarrow> artifact_identity \<Rightarrow> string \<Rightarrow> string \<Rightarrow> connector_db \<Rightarrow>
     js_error + (connector_snapshot option \<times> connector_db)" where
  "evaluateCachedConnectorForRequest eventId now connector ai tenantId projectId db =
     sum_bind (buildArtifactRequestEvent eventId now (subject_of ai) Proxy) (\<lambda>event.
       if \<not> connectorSupportsEvent connector event then Inr (None, db)
       else case evaluateFromCache eventId now connector ai tenantId projectId event db of
              Inl err \<Rightarrow> Inr (None, db)
            | Inr (snapshot, db') \<Rightarrow> Inr (snapshot, db'))"

section \<open>Warming and prefetching\<close>

fun warm_connectors :: "ms \<Rightarrow> artifact_event \<Rightarrow> connector list \<Rightarrow> connector_db \<Rightarrow> connector_db" where
  "warm_connectors now event [] db = db"
| "warm_connectors now event (connector # connectors) db =
     warm_connectors now event connectors
       (if \<not> connectorSupportsEvent connector event then db
        else if getPackageScopedCachedResult (kd_cache db) now connector event \<noteq> None then db
        else case cn_handleEvent connector event of
               Inr (Some result) \<Rightarrow>
                 set_cache (snd (upsertPackageScopedCachedResult (kd_cache db) now connector event result None)) db
             | _ \<Rightarrow> db)"

definition warmPackageScopedConnectors ::
    "string \<Rightarrow> ms \<Rightarrow> artifact_identity \<Rightarrow> connector list \<Rightarrow> connector_db \<Rightarrow> connector_db" where
  "warmPackageScopedConnectors eventId now ai connectors db =
     (if \<not> present (ai_package_id ai) then db
      else case buildPackageMetadataEvent eventId now (subject_of ai) Proxy of
             Inl _ \<Rightarrow> db
           | Inr event \<Rightarrow> warm_connectors now event connectors db)"

record slice_version =
  cx_version :: string
  cx_published_at :: string
  cx_publisher :: "string option"
  cx_maintainers :: "string list"
  cx_has_install_scripts :: bool
  cx_has_attestation :: bool
  cx_raw_payload_json :: "string option"

record contributor_context =
  cx_requested_version :: string
  cx_slice_extracted_at :: string
  cx_slice_window_days :: int
  cx_slice_history_complete :: bool
  cx_slice_oldest_included_published_at :: "string option"
  cx_package_metadata_fingerprint :: "string option"
  cx_slice_fingerprint :: "string option"
  cx_versions :: "slice_version list"

record check_request =
  cq_project_token :: string
  cq_ecosystem :: string
  cq_package :: string
  cq_version :: string
  cq_trace_id :: string
  cq_request_id :: string
  cq_span_id :: string
  cq_client_ip :: "string option"
  cq_proxy_ip :: "string option"
  cq_requested_ref :: "string option"
  cq_resolved_ref :: "string option"
  cq_ref_resolution_source :: "string option"
  cq_related_versions :: "related_version list"
  cq_contributor_context :: "contributor_context option"

definition request_identity :: "check_request \<Rightarrow> package_identity" where
  "request_identity req = canonicalizePackageIdentity
     \<lparr> pi_ecosystem = cq_ecosystem req, pi_package = cq_package req, pi_version = Some (cq_version req) \<rparr>"

text \<open>The join of versions and packages both lookups of a request start from.\<close>

definition version_of_identity ::
    "package_identity \<Rightarrow> catalog_db \<Rightarrow> (package_version_row \<times> package_row) option" where
  "version_of_identity identity db =
     find (\<lambda>(v, p). pk_ecosystem p = pi_ecosystem identity \<and> pk_package p = pi_package identity \<and>
                     Some (pv_version v) = pi_version identity)
       (concat (map (\<lambda>v. map (\<lambda>p. (v, p)) (filter (\<lambda>p. pk_id p = pv_package_id v) (cg_packages db))) (cg_versions db)))"

text \<open>The configuration of the contributor connector, when one is registered.\<close>

definition contributorIngestionConfigFromConnectors ::
    "contributor_config \<Rightarrow> connector list \<Rightarrow> contributor_config option" where
  "contributorIngestionConfigFromConnectors config connectors =
     (if list_ex (\<lambda>c. cn_id c = ''contributor'') connectors then Some config else None)"

definition slice_event :: "package_identity \<Rightarrow> contributor_context \<Rightarrow> manifest_event" where
  "slice_event identity cx =
     \<lparr> me_ecosystem = pi_ecosystem identity, me_package = pi_package identity,
       me_extractedAt = cx_slice_extracted_at cx,
       me_fingerprint = cx_package_metadata_fingerprint cx,
       me_packageMetadataFingerprint = cx_package_metadata_fingerprint cx,
       me_sliceFingerprint = cx_slice_fingerprint cx,
       me_requestedVersion = pi_version identity, me_latestVersion = None, me_latestPublishedAt = None,
       me_historyComplete = cx_slice_history_complete cx,
       me_oldestIncludedPublishedAt = cx_slice_oldest_included_published_at cx,
       me_versions = map (\<lambda>v. \<lparr> mv_version = cx_version v, mv_publishedAt = cx_published_at v,
         mv_publisher = cx_publisher v, mv_maintainers = cx_maintainers v,
         mv_hasInstallScripts = cx_has_install_scripts v, mv_hasAttestation = cx_has_attestation v,
         mv_rawPayloadJson = cx_raw_payload_json v \<rparr>) (cx_versions cx) \<rparr>"

definition stored_slice_fingerprint :: "package_identity \<Rightarrow> ingest_db \<Rightarrow> string option" where
  "stored_slice_fingerprint identity db =
     Option.bind (version_of_identity identity (ig_catalog db)) (\<lambda>(v, p).
       Option.bind (first_row (\<lambda>f. xf_package_version_id f = pv_id v) (ig_release_facts db))
         xf_contributor_slice_fingerprint)"

definition maybePrefetchContributorSlice ::
    "ms \<Rightarrow> (string \<Rightarrow> ms option) \<Rightarrow> (string \<Rightarrow> jsval option) \<Rightarrow> contributor_config \<Rightarrow> check_request \<Rightarrow> connector list \<Rightarrow>
     connector_db \<Rightarrow> connector_db" where
  "maybePrefetchContributorSlice now parse_date json_parse config req connectors db =
     (case (cq_contributor_context req, contributorIngestionConfigFromConnectors config connectors) of
        (Some cx, Some contributorConfig) \<Rightarrow>
          let identity = request_identity req
          in if \<not> present (pi_version identity) then db
             else if present (cx_slice_fingerprint cx) \<and>
                     stored_slice_fingerprint identity (kd_ingest db) = cx_slice_fingerprint cx then db
             else (case ingestContributorMetadata now parse_date json_parse contributorConfig
                          (slice_event identity cx) (kd_ingest db) of
                     Inl err \<Rightarrow> db
                   | Inr ingest \<Rightarrow> db\<lparr> kd_ingest := ingest \<rparr>)
      | _ \<Rightarrow> db)"

section \<open>Release context\<close>

definition toIsoTimestamp :: "ms option \<Rightarrow> string option" where
  "toIsoTimestamp t = map_option to_iso t"

definition ageDays :: "ms \<Rightarrow> ms option \<Rightarrow> rat option" where
  "ageDays now t = map_option (\<lambda>publishedAt. max 0 (of_int (now - publishedAt) / 86400000)) t"

definition loadPackageReleaseContext :: "ms \<Rightarrow> check_request \<Rightarrow> catalog_db \<Rightarrow> asset_context" where
  "loadPackageReleaseContext now req db =
     (let identity = request_identity req;
          row = (if \<not> present (pi_version identity) then None else version_of_identity identity db);
          published = Option.bind row (pv_published_at \<circ> fst);
          latest = Option.bind row (\<lambda>(v, p). Option.bind (pk_latest_package_version_id p) (\<lambda>vid.
                     Option.bind (first_row (\<lambda>w. pv_id w = vid) (cg_versions db)) pv_published_at))
      in \<lparr> ac_ecosystem = cq_ecosystem req, ac_pkg = cq_package req, ac_version = cq_version req,
           ac_versionPublishedAt = toIsoTimestamp published, ac_versionAgeDays = ageDays now published,
           ac_latestVersionPublishedAt = toIsoTimestamp latest \<rparr>)"

section \<open>The fields of a request\<close>

definition connectorRequiresSynchronousArtifactEvaluation :: "connector \<Rightarrow> bool" where
  "connectorRequiresSynchronousArtifactEvaluation connector =
     (map_option snd (getConnectorSubscription connector Artifact_request) = Some Sync_required)"

definition connectorSupportsArtifactRequest :: "string \<Rightarrow> ms \<Rightarrow> connector \<Rightarrow> artifact_identity \<Rightarrow> bool" where
  "connectorSupportsArtifactRequest eventId now connector ai =
     (case buildArtifactRequestEvent eventId now (subject_of ai) Proxy of
        Inl _ \<Rightarrow> False
      | Inr event \<Rightarrow> connectorSupportsEvent connector event)"

fun evaluate_all ::
    "(connector \<Rightarrow> connector_db \<Rightarrow> js_error + ('s \<times> connector_db)) \<Rightarrow> connector list \<Rightarrow> connector_db \<Rightarrow>
     js_error + ('s list \<times> connector_db)" where
  "evaluate_all f [] db = Inr ([], db)"
| "evaluate_all f (connector # connectors) db =
     sum_bind (f connector db) (\<lambda>(snapshot, db1).
     sum_bind (evaluate_all f connectors db1) (\<lambda>(snapshots, db2). Inr (snapshot # snapshots, db2)))"

text \<open>A supported connector with no stored snapshot counts as unavailable.\<close>

fun complete_snapshots :: "ms \<Rightarrow> connector list \<Rightarrow> connector_snapshot list \<Rightarrow> connector_snapshot list" where
  "complete_snapshots now [] snapshots = snapshots"
| "complete_snapshots now (connector # connectors) snapshots =
     complete_snapshots now connectors
       (if list_ex (\<lambda>candidate. sn_connectorKey candidate = cn_id connector) snapshots then snapshots
        else snapshots @ [unavailableSnapshot now (cn_id connector)])"

definition connector_meta :: "connector list \<Rightarrow> connector_snapshot list \<Rightarrow> (string \<times> snapshot_meta) list" where
  "connector_meta connectors snapshots =
     foldl (\<lambda>m c. case find (\<lambda>s. sn_connectorKey s = cn_id c) snapshots of
                     None \<Rightarrow> m | Some s \<Rightarrow> map_set (cn_id c) (sn_meta s) m) [] connectors"

text \<open>
  \<open>prefetch_first\<close> is the schedule: the prefetch runs beside the synchronous connectors and may end
  before or after them; it has ended when the cached connectors are read.
\<close>

definition collectConnectorEvaluationFields ::
    "(connector \<Rightarrow> artifact_event \<Rightarrow> int) \<Rightarrow> bool \<Rightarrow> string \<Rightarrow> ms \<Rightarrow> (string \<Rightarrow> ms option) \<Rightarrow> (string \<Rightarrow> jsval option) \<Rightarrow>
     contributor_config \<Rightarrow> check_request \<Rightarrow> connector list \<Rightarrow> string \<Rightarrow> string \<Rightarrow> artifact_identity \<Rightarrow> connector_db \<Rightarrow>
     js_error + ((string \<times> snapshot_meta) list \<times> field_map \<times> connector_db)" where
  "collectConnectorEvaluationFields fetch_ms prefetch_first eventId now parse_date json_parse config req connectors
      tenantId projectId ai db =
     (let supported = filter (\<lambda>c. connectorSupportsArtifactRequest eventId now c ai) connectors;
          prefetch = maybePrefetchContributorSlice now parse_date json_parse config req connectors
      in sum_bind (evaluate_all (\<lambda>c. evaluateConnectorForRequest fetch_ms eventId now c ai tenantId projectId)
           (filter connectorRequiresSynchronousArtifactEvaluation supported)
           (if prefetch_first then prefetch db else db)) (\<lambda>(_, db1).
         let db2 = (if prefetch_first then db1 else prefetch db1)
         in sum_bind (evaluate_all (\<lambda>c. evaluateCachedConnectorForRequest eventId now c ai tenantId projectId)
              (filter (\<lambda>c. \<not> connectorRequiresSynchronousArtifactEvaluation c) supported) db2) (\<lambda>(_, db3).
            let snapshots = complete_snapshots now supported
                  (if supported \<noteq> [] then loadSnapshots (kd_snapshots db3) projectId ai ''artifact'' else [])
            in Inr (connector_meta supported snapshots,
                    resolveFields now snapshots (loadPackageReleaseContext now req (ig_catalog (kd_ingest db3))),
                    db3))))"

section \<open>The connectors\<close>

definition osvConnector ::
    "ms \<Rightarrow> connector_config \<Rightarrow> (artifact_event \<Rightarrow> js_error + connector_result option) \<Rightarrow> connector" where
  "osvConnector now config handle =
     \<lparr> cn_id = ''osv'', cn_config = config, cn_supportedEcosystems = Some [''npm'', ''pypi''],
       cn_subscribedEvents = [(Artifact_request, Sync_required)], cn_readSnapshots = None,
       cn_supportsEvent = osvSupportsEvent, cn_handleEvent = handle,
       cn_normalizeToSnapshot = osvNormalizeToSnapshot now \<rparr>"

definition contributorConnector ::
    "ms \<Rightarrow> connector_config \<Rightarrow> int option \<Rightarrow> ingest_db \<Rightarrow> connector" where
  "contributorConnector now config ttlOverride db =
     \<lparr> cn_id = ''contributor'', cn_config = config, cn_supportedEcosystems = Some [''npm''],
       cn_subscribedEvents = [(Artifact_request, Async_preferred)], cn_readSnapshots = Some False,
       cn_supportsEvent = contributorSupportsEvent,
       cn_handleEvent = contributorHandleEvent now ttlOverride (loadStoredSignals db),
       cn_normalizeToSnapshot = contributorNormalizeToSnapshot now \<rparr>"

definition intelligenceConnector ::
    "ms \<Rightarrow> connector_config \<Rightarrow> (string \<Rightarrow> string \<Rightarrow> nat + intelligence_response) \<Rightarrow> connector" where
  "intelligenceConnector now config service =
     \<lparr> cn_id = ''intelligence'', cn_config = config, cn_supportedEcosystems = Some [''npm''],
       cn_subscribedEvents = [(Package_metadata, Async_preferred), (Artifact_request, Async_preferred)],
       cn_readSnapshots = None, cn_supportsEvent = intelligenceSupportsEvent,
       cn_handleEvent = intelligenceHandleEvent service,
       cn_normalizeToSnapshot = intelligenceNormalizeToSnapshot now \<rparr>"

section \<open>Requests for a catalogued version\<close>

definition catalogued :: "artifact_identity \<Rightarrow> bool" where
  "catalogued ai = (present (ai_package_id ai) \<and> present (ai_package_version_id ai) \<and> present (ai_version ai))"

definition request_event :: "string \<Rightarrow> ms \<Rightarrow> artifact_identity \<Rightarrow> artifact_event" where
  "request_event eventId now ai =
     \<lparr> ev_id = eventId, ev_kind = Artifact_request, ev_packageId = the (ai_package_id ai),
       ev_packageVersionId = ai_package_version_id ai, ev_ecosystem = ai_ecosystem ai,
       ev_packageName = ai_package ai, ev_version = ai_version ai, ev_source = Proxy, ev_observedAt = now \<rparr>"

lemma build_event:
  "buildArtifactRequestEvent eventId now (subject_of ai) Proxy =
     (if catalogued ai then Inr (request_event eventId now ai)
      else Inl (AppError (if present (ai_package_id ai) \<and> present (ai_package_version_id ai)
        then ''artifact_identity_missing_version'' else ''artifact_identity_missing_catalog_ids'')))"
  by (simp add: buildArtifactRequestEvent_def catalogued_def subject_of_def request_event_def)

lemma request_event_ok: "catalogued ai \<Longrightarrow> event_ok (request_event eventId now ai)"
  by (auto simp: catalogued_def request_event_def event_ok_def present_def split: option.splits)

text \<open>The cache row of a version does not depend on when the request came.\<close>

lemma findFreshCacheRow_request:
  "findFreshCacheRow cache t connector (request_event e1 t1 ai) =
   findFreshCacheRow cache t connector (request_event e0 t0 ai)"
  by (simp add: findFreshCacheRow_def cache_row_matches_def request_event_def)

definition kd_ok :: "connector_db \<Rightarrow> bool" where
  "kd_ok db = (cache_ok (kd_cache db) \<and> unique_key snapshot_key (kd_snapshots db) \<and> findings_ok (kd_findings db))"

text \<open>The stored snapshots of a version carry the package it belongs to.\<close>

definition owned_snapshots :: "artifact_identity \<Rightarrow> snapshot_row list \<Rightarrow> bool" where
  "owned_snapshots ai rows =
     (\<forall>r \<in> set rows. sr_package_version_id r = ai_package_version_id ai \<longrightarrow> sr_package_id r = ai_package_id ai)"

text \<open>What the store returns for a connector on a version: the fields and status of its one snapshot.\<close>

definition loaded :: "connector_db \<Rightarrow> string \<Rightarrow> artifact_identity \<Rightarrow> string \<Rightarrow> (jsobj \<times> snapshot_meta) list" where
  "loaded db projectId ai key =
     map (\<lambda>x. (sn_fields x, sn_meta x))
       (filter (\<lambda>x. sn_connectorKey x = key) (loadSnapshots (kd_snapshots db) projectId ai ''artifact''))"

lemma upsertConnectorSnapshot_unique:
  "unique_key snapshot_key rows \<Longrightarrow> unique_key snapshot_key (upsertConnectorSnapshot tenantId projectId s rows)"
  by (simp add: upsertConnectorSnapshot_def Let_def snapshots.upsert_unique)

lemma store_snapshot_ok:
  "kd_ok db \<Longrightarrow> sn_packageVersionId s \<noteq> Some [] \<Longrightarrow>
     kd_ok (store_snapshot now connector tenantId projectId s cacheId findings db)"
  by (simp add: kd_ok_def store_snapshot_def upsertConnectorSnapshot_unique upsertProjectFindings_ok)

lemma set_cache_ok: "kd_ok db \<Longrightarrow> cache_ok c \<Longrightarrow> kd_ok (set_cache c db)"
  by (simp add: kd_ok_def)

locale evaluated_connector = snapshot_provider "cn_id connector" "cn_normalizeToSnapshot connector"
  for connector :: connector
begin

lemma persist_ok:
  assumes "kd_ok db" and "ev_packageVersionId event \<noteq> Some []"
  shows "kd_ok (snd (persistConnectorResult now connector tenantId projectId event name result ms db))"
proof -
  have "cache_ok (snd (upsertCachedResult (kd_cache db) now connector event result None))"
    using assms(1) by (simp add: kd_ok_def upsertCachedResult_ok)
  from set_cache_ok [OF assms(1) this] assms(2) show ?thesis
    by (simp add: persistConnectorResult_def Let_def case_prod_beta store_snapshot_ok norm_entity eventEntityContext_def)
qed

lemma request_version: "catalogued ai \<Longrightarrow> ev_packageVersionId (request_event e t ai) \<noteq> Some []"
  by (auto simp: catalogued_def request_event_def present_def split: option.splits)

lemma from_cache_ok:
  assumes "kd_ok db" and "catalogued ai"
    and "evaluateFromCache eventId now connector ai tenantId projectId (request_event e t ai) db = Inr (s, db')"
  shows "kd_ok db' \<and> (s = None \<longrightarrow> db' = db)"
proof (cases "buildCachedSnapshot (kd_cache db) now connector (request_event e t ai) (ai_display_name ai)")
  case None
  then show ?thesis
    using assms persist_ok [OF assms(1) request_version [OF assms(2)]]
    by (auto simp: evaluateFromCache_def sum_bind_Inr_iff Let_def case_prod_beta
        split: option.splits if_splits)
next
  case (Some c)
  then have "sn_packageVersionId (cs_snapshot c) = ai_package_version_id ai"
    by (auto simp: buildCachedSnapshot_def norm_entity eventEntityContext_def request_event_def
        split: if_splits option.splits)
  with Some assms request_version [OF assms(2)] show ?thesis
    by (auto simp: evaluateFromCache_def store_snapshot_ok request_event_def)
qed

lemma failed_ok:
  "kd_ok db \<Longrightarrow> kd_ok (snd (evaluationFailed now t connector ai tenantId projectId event fetching err db))"
  by (simp add: evaluationFailed_def Let_def kd_ok_def upsertConnectorSnapshot_unique)

lemma evaluate_ok:
  assumes "kd_ok db" and "evaluateConnectorForRequest fetch_ms eventId now connector ai tenantId projectId db = Inr (s, db')"
  shows "kd_ok db'"
proof (cases "catalogued ai \<and> connectorSupportsEvent connector (request_event eventId now ai)")
  case True
  let ?e = "request_event eventId now ai"
  show ?thesis
  proof (cases "evaluateFromCache eventId now connector ai tenantId projectId ?e db")
    case (Inl err)
    with True assms(2) have "(s, db') = evaluationFailed now now connector ai tenantId projectId ?e False err db"
      by (simp add: evaluateConnectorForRequest_def build_event)
    with failed_ok [OF assms(1)] show ?thesis by (metis snd_conv)
  next
    case (Inr x)
    obtain snap db1 where x: "x = (snap, db1)" by (cases x)
    note ok = from_cache_ok [OF assms(1) conjunct1 [OF True] Inr [unfolded x]]
    show ?thesis
    proof (cases snap)
      case None
      with ok have db1: "db1 = db" by simp
      have "kd_ok (snd (persistConnectorResult (now + fetch_ms connector ?e) connector tenantId projectId ?e
               (ai_display_name ai) r (fetch_ms connector ?e) db))" for r
        by (rule persist_ok [OF assms(1) request_version]) (use True in simp)
      moreover have "kd_ok (snd (evaluationFailed n now connector ai tenantId projectId ?e True err db))" for n err
        by (rule failed_ok [OF assms(1)])
      ultimately show ?thesis
        using assms(2) True Inr x None db1 assms(1)
        by (auto simp: evaluateConnectorForRequest_def build_event Let_def split: if_splits sum.splits option.splits)
          (metis snd_conv)+
    next
      case (Some s')
      with assms(2) True Inr x ok show ?thesis by (simp add: evaluateConnectorForRequest_def build_event)
    qed
  qed
next
  case False
  with assms show ?thesis by (auto simp: evaluateConnectorForRequest_def build_event split: if_splits)
qed

text \<open>A stored snapshot of the connector is the one the store returns for it.\<close>

lemma loaded_upsert:
  assumes "catalogued ai" and "unique_key snapshot_key rows" and "owned_snapshots ai rows"
    and "ec_packageId c = ai_package_id ai" and "ec_packageVersionId c = ai_package_version_id ai"
    and "kd_snapshots db = upsertConnectorSnapshot tenantId projectId (cn_normalizeToSnapshot connector r c st e) rows"
  shows "loaded db projectId ai (cn_id connector) =
     [(sn_fields (cn_normalizeToSnapshot connector r c st e), snapshot_meta_of c st e)]"
proof -
  let ?s = "cn_normalizeToSnapshot connector r c st e"
  obtain pid vid where id: "ai_package_id ai = Some pid" "ai_package_version_id ai = Some vid" "pid \<noteq> []" "vid \<noteq> []"
    using assms(1) by (auto simp: catalogued_def present_def split: option.splits)
  have "map (\<lambda>x. (sn_fields x, sn_meta x, sn_observedAt x))
           (filter (\<lambda>x. sn_connectorKey x = sn_connectorKey ?s)
             (loadSnapshots (upsertConnectorSnapshot tenantId projectId ?s rows) projectId ai (sn_entityType ?s))) =
         [(sn_fields ?s, sn_meta ?s, sn_observedAt ?s)]"
    using loadSnapshots_upsert [OF assms(2), of ?s pid vid ai tenantId projectId] id assms(3-5)
    by (simp add: norm_entity owned_snapshots_def)
  then have "map (\<lambda>(f, m, _). (f, m)) (map (\<lambda>x. (sn_fields x, sn_meta x, sn_observedAt x))
           (filter (\<lambda>x. sn_connectorKey x = cn_id connector) (loadSnapshots (kd_snapshots db) projectId ai ''artifact''))) =
         [(sn_fields ?s, sn_meta ?s)]"
    by (simp add: norm_key norm_entity assms(6))
  then show ?thesis by (simp add: loaded_def comp_def norm_meta)
qed

lemma loaded_failed:
  assumes "kd_ok db" and "catalogued ai" and "owned_snapshots ai (kd_snapshots db)"
    and "evaluationFailed now t0 connector ai tenantId projectId (request_event e t ai) fetching err db = (s, db')"
  shows "sn_fields s = [] \<and> sm_status (sn_meta s) = failureStatus fetching err \<and>
         sm_errorCode (sn_meta s) = opt_or_null (Some (error_message err)) \<and>
         loaded db' projectId ai (cn_id connector) = [([], sn_meta s)] \<and>
         kd_cache db' = kd_cache db \<and> kd_findings db' = kd_findings db"
proof -
  let ?c = "eventEntityContext (request_event e t ai) (ai_display_name ai) False (now - t0) None"
  have s: "s = cn_normalizeToSnapshot connector None ?c (Some (failureStatus fetching err)) (Some (error_message err))"
    and rest: "kd_snapshots db' = upsertConnectorSnapshot tenantId projectId s (kd_snapshots db)"
      "kd_cache db' = kd_cache db" "kd_findings db' = kd_findings db"
    using assms(4) by (auto simp: evaluationFailed_def Let_def kd_cache_def)
  have "ec_packageId ?c = ai_package_id ai" "ec_packageVersionId ?c = ai_package_version_id ai"
    using assms(2) by (auto simp: eventEntityContext_def request_event_def catalogued_def present_def split: option.splits)
  then have "loaded db' projectId ai (cn_id connector) = [(sn_fields s, sn_meta s)]"
    using loaded_upsert [OF assms(2) _ assms(3), of ?c db' tenantId projectId None] assms(1) rest
    by (simp add: kd_ok_def s norm_meta)
  then show ?thesis
    using rest by (simp add: s norm_failure norm_meta snapshot_meta_of_def)
qed

text \<open>After a result was persisted, the next request while it is fresh is a cache hit.\<close>

lemma persisted_hit:
  assumes "kd_ok db" and "catalogued ai"
    and "cn_readSnapshots connector \<noteq> Some False"
    and "findingsSummaryFromResult r > 0 \<longrightarrow> cr_findings r \<noteq> []"
    and "t2 < t1 + effective_ttl connector r None * 1000"
    and db1_def: "db1 = snd (persistConnectorResult t1 connector tenantId projectId (request_event e t ai) name r ms db)"
  shows "\<exists>c. buildCachedSnapshot (kd_cache db1) t2 connector (request_event e2 t3 ai) (ai_display_name ai) = Some c \<and>
     cs_snapshot c = cn_normalizeToSnapshot connector (Some (cached_form r))
       (eventEntityContext (request_event e2 t3 ai) (ai_display_name ai) True 0 (Some (of_int (t2 - t1) / 3600000))) None None"
proof -
  have cache: "kd_cache db1 = snd (upsertCachedResult (kd_cache db) t1 connector (request_event e t ai) r None)"
    by (simp add: db1_def persistConnectorResult_def Let_def case_prod_beta store_snapshot_def)
  have "cache_ok (kd_cache db)" using assms(1) by (simp add: kd_ok_def)
  then have "\<exists>rid. findFreshCacheRow (kd_cache db1) t2 connector (request_event e t ai) =
     (if t2 < t1 + effective_ttl connector r None * 1000
      then Some (result_row rid t1 connector (request_event e t ai) r None) else None)"
    unfolding cache by (rule findFreshCacheRow_upsert [OF _ request_event_ok [OF assms(2)]])
  with assms(5) obtain rid where "findFreshCacheRow (kd_cache db1) t2 connector (request_event e2 t3 ai) =
      Some (result_row rid t1 connector (request_event e t ai) r None)"
    unfolding findFreshCacheRow_request [of _ _ _ e2 t3 ai e t] by auto
  moreover have "interpretCacheRow t2 (result_row rid t1 connector (request_event e t ai) r None) True True =
      Some (cached_form r, of_int (t2 - t1) / 3600000, cr_findings r)"
    using assms(4) by (subst interpret_result_row) auto
  ultimately show ?thesis
    using assms(3) by (simp add: buildCachedSnapshot_def)
qed

lemma hit_served:
  assumes "catalogued ai" and "connectorSupportsEvent connector (request_event e2 t2 ai)"
    and "buildCachedSnapshot (kd_cache db) t2 connector (request_event e2 t2 ai) (ai_display_name ai) = Some c"
  shows "\<exists>db2. evaluateConnectorForRequest fetch_ms e2 t2 connector ai tenantId projectId db = Inr (cs_snapshot c, db2)"
  using assms by (simp add: evaluateConnectorForRequest_def build_event evaluateFromCache_def)

text \<open>What an evaluation may do to the stored snapshots: nothing, or one upsert of its own.\<close>

definition own_upsert :: "artifact_identity \<Rightarrow> string \<Rightarrow> string \<Rightarrow> snapshot_row list \<Rightarrow> snapshot_row list \<Rightarrow> bool" where
  "own_upsert ai tenantId projectId rows rows' =
     (rows' = rows \<or>
      (\<exists>r c st e. ec_packageId c = ai_package_id ai \<and> ec_packageVersionId c = ai_package_version_id ai \<and>
         rows' = upsertConnectorSnapshot tenantId projectId (cn_normalizeToSnapshot connector r c st e) rows))"

lemma own_upsert_refl [simp]: "own_upsert ai tenantId projectId rows rows"
  by (simp add: own_upsert_def)

lemma own_upsertI:
  "catalogued ai \<Longrightarrow>
   own_upsert ai tenantId projectId rows
     (upsertConnectorSnapshot tenantId projectId
       (cn_normalizeToSnapshot connector r (eventEntityContext (request_event e t ai) name b n h) st err) rows)"
  unfolding own_upsert_def
  by (rule disjI2, rule exI [of _ r], rule exI [of _ "eventEntityContext (request_event e t ai) name b n h"],
      rule exI [of _ st], rule exI [of _ err])
    (auto simp: eventEntityContext_def request_event_def catalogued_def present_def split: option.splits)

lemma persist_snapshots:
  "kd_snapshots (snd (persistConnectorResult now connector tenantId projectId event name r ms db)) =
   upsertConnectorSnapshot tenantId projectId (cn_normalizeToSnapshot connector (Some r)
     (eventEntityContext event name False ms None) None None) (kd_snapshots db)"
  by (simp add: persistConnectorResult_def Let_def case_prod_beta store_snapshot_def)

lemma failed_snapshots:
  "kd_snapshots (snd (evaluationFailed now t connector ai tenantId projectId event fetching err db)) =
   upsertConnectorSnapshot tenantId projectId (cn_normalizeToSnapshot connector None
     (eventEntityContext event (ai_display_name ai) False (now - t) None) (Some (failureStatus fetching err))
     (Some (error_message err))) (kd_snapshots db)"
  by (simp add: evaluationFailed_def Let_def)

lemma from_cache_snapshots:
  assumes "catalogued ai"
    and "evaluateFromCache eventId now connector ai tenantId projectId (request_event e t ai) db = Inr (s, db')"
  shows "own_upsert ai tenantId projectId (kd_snapshots db) (kd_snapshots db')"
proof (cases "buildCachedSnapshot (kd_cache db) now connector (request_event e t ai) (ai_display_name ai)")
  case None
  have "own_upsert ai tenantId projectId (kd_snapshots db) (kd_snapshots (snd (persistConnectorResult now connector tenantId projectId
      (request_event e t ai) (ai_display_name ai) r 0 db)))" for r
    unfolding persist_snapshots by (rule own_upsertI [OF assms(1)])
  with None assms(2) show ?thesis
    by (auto simp: evaluateFromCache_def sum_bind_Inr_iff Let_def case_prod_beta
        split: option.splits if_splits)
next
  case (Some c)
  then obtain r h where "cs_snapshot c = cn_normalizeToSnapshot connector (Some r)
      (eventEntityContext (request_event e t ai) (ai_display_name ai) True 0 h) None None"
    by (auto simp: buildCachedSnapshot_def split: if_splits option.splits)
  with Some assms(2) own_upsertI [OF assms(1)] show ?thesis
    by (auto simp: evaluateFromCache_def store_snapshot_def)
qed

lemma evaluate_snapshots:
  assumes "evaluateConnectorForRequest fetch_ms eventId now connector ai tenantId projectId db = Inr (s, db')"
  shows "own_upsert ai tenantId projectId (kd_snapshots db) (kd_snapshots db')"
proof (cases "catalogued ai \<and> connectorSupportsEvent connector (request_event eventId now ai)")
  case True
  let ?e = "request_event eventId now ai"
  have failed: "own_upsert ai tenantId projectId (kd_snapshots db)
      (kd_snapshots (snd (evaluationFailed n m connector ai tenantId projectId ?e b err db)))" for n m b err
    unfolding failed_snapshots by (rule own_upsertI) (use True in simp)
  have persisted: "own_upsert ai tenantId projectId (kd_snapshots db)
      (kd_snapshots (snd (persistConnectorResult n connector tenantId projectId ?e name r m db)))" for n name r m
    unfolding persist_snapshots by (rule own_upsertI) (use True in simp)
  show ?thesis
  proof (cases "evaluateFromCache eventId now connector ai tenantId projectId ?e db")
    case (Inl err)
    with True assms failed show ?thesis
      by (auto simp: evaluateConnectorForRequest_def build_event) (metis snd_conv)
  next
    case (Inr x)
    obtain snap db1 where x: "x = (snap, db1)" by (cases x)
    note own = from_cache_snapshots [OF conjunct1 [OF True] Inr [unfolded x]]
    show ?thesis
    proof (cases snap)
      case None
      with Inr x have "db1 = db"
        by (auto simp: evaluateFromCache_def sum_bind_Inr_iff Let_def case_prod_beta split: option.splits if_splits)
      with assms True Inr x None own show ?thesis
        by (auto simp: evaluateConnectorForRequest_def build_event Let_def split: if_splits sum.splits option.splits)
          (metis failed persisted snd_conv)+
    next
      case (Some s')
      with assms True Inr x own show ?thesis by (simp add: evaluateConnectorForRequest_def build_event)
    qed
  qed
next
  case False
  with assms show ?thesis by (auto simp: evaluateConnectorForRequest_def build_event split: if_splits)
qed

lemma evaluate_cached_snapshots:
  assumes "evaluateCachedConnectorForRequest eventId now connector ai tenantId projectId db = Inr (s, db')"
  shows "own_upsert ai tenantId projectId (kd_snapshots db) (kd_snapshots db')"
  using assms from_cache_snapshots
  by (auto simp: evaluateCachedConnectorForRequest_def build_event split: if_splits sum.splits)

end

interpretation osv_connector: evaluated_connector "osvConnector now config handle"
  by (simp add: evaluated_connector_def osvConnector_def osv.snapshot_provider_axioms)

interpretation contributor_connector: evaluated_connector "contributorConnector now config ttlOverride db"
  by (simp add: evaluated_connector_def contributorConnector_def contributor.snapshot_provider_axioms)

interpretation intelligence_connector: evaluated_connector "intelligenceConnector now config service"
  by (simp add: evaluated_connector_def intelligenceConnector_def intelligence.snapshot_provider_axioms)

section \<open>Properties\<close>

text \<open>
  C16: no failure of a connector fails the check. When the cache has nothing for the version and the
  fetch throws or misses the deadline, the evaluation still returns a snapshot: it has no data, its
  status is \<open>background_pending\<close> for a missed deadline, \<open>unavailable\<close> for the known
  service-unavailable errors and \<open>error\<close> otherwise, with the message as error code. That snapshot is
  what is stored for the connector on the version; the cache and the findings are untouched, and
  only a missed deadline leaves a fetch running in the background.
\<close>

theorem connector_failure_recorded:
  fixes connector :: connector and event :: artifact_event
  assumes "evaluated_connector connector" and "kd_ok db" and "catalogued ai" and "owned_snapshots ai (kd_snapshots db)"
    and event: "event = request_event eventId now ai" and supported: "connectorSupportsEvent connector event"
    and miss: "evaluateFromCache eventId now connector ai tenantId projectId event db = Inr (None, db)"
    and fails: "(cc_responseTimeoutMs (cn_config connector) \<le> fetch_ms connector event \<and> err = AppError ''response_timeout'') \<or>
                (fetch_ms connector event < cc_responseTimeoutMs (cn_config connector) \<and> cn_handleEvent connector event = Inl err)"
  shows "\<exists>s db'. evaluateConnectorForRequest fetch_ms eventId now connector ai tenantId projectId db = Inr (s, db') \<and>
     sn_fields s = [] \<and>
     sm_status (sn_meta s) = (if error_message err = ''response_timeout'' then Background_pending
                              else if isConnectorUnavailableError err then Unavailable else Error) \<and>
     sm_errorCode (sn_meta s) = opt_or_null (Some (error_message err)) \<and>
     loaded db' projectId ai (cn_id connector) = [([], sn_meta s)] \<and>
     kd_cache db' = kd_cache db \<and> kd_findings db' = kd_findings db \<and>
     (error_message err \<noteq> ''response_timeout'' \<longrightarrow> kd_pending db' = kd_pending db)"
proof -
  obtain n where run: "evaluateConnectorForRequest fetch_ms eventId now connector ai tenantId projectId db =
      Inr (evaluationFailed n now connector ai tenantId projectId event True err db)"
    using fails assms(3) supported miss event
    by (auto simp: evaluateConnectorForRequest_def build_event Let_def)
  obtain s db' where f: "evaluationFailed n now connector ai tenantId projectId event True err db = (s, db')"
    by (cases "evaluationFailed n now connector ai tenantId projectId event True err db")
  have "error_message err \<noteq> ''response_timeout'' \<longrightarrow> kd_pending db' = kd_pending db"
    using f by (auto simp: evaluationFailed_def Let_def)
  with evaluated_connector.loaded_failed [OF assms(1-4) f [unfolded event]] run f show ?thesis
    by (auto simp: failureStatus_def)
qed

definition down_connector :: "js_error \<Rightarrow> connector" where
  "down_connector err = osvConnector 0
     \<lparr> cc_cacheTtlSeconds = 60, cc_responseTimeoutMs = 3000, cc_backgroundTimeoutMs = 30000, cc_baseUrl = [] \<rparr> (\<lambda>_. Inl err)"

definition empty_connector_db :: connector_db where
  "empty_connector_db = \<lparr> kd_ingest = sample_ingest, kd_snapshots = [], kd_findings = empty_findings, kd_pending = [] \<rparr>"

definition left_pad :: artifact_identity where
  "left_pad = sample_identity\<lparr> ai_ecosystem := ''npm'', ai_package_id := Some ''u'', ai_package_version_id := Some ''uu'',
     ai_version := Some ''1.0.0'' \<rparr>"

lemma empty_connector_db_ok: "kd_ok empty_connector_db"
  using sample_uuids_ok
  by (simp add: kd_ok_def empty_connector_db_def kd_cache_def sample_ingest_def cache_ok_def findings_ok_def empty_findings_def)

lemma left_pad_catalogued: "catalogued left_pad"
  by (simp add: catalogued_def left_pad_def present_def)

lemma left_pad_miss:
  "evaluateFromCache e t (osvConnector n config handle) left_pad tenantId projectId (request_event e t left_pad) empty_connector_db =
     Inr (None, empty_connector_db)"
  by (simp add: evaluateFromCache_def buildCachedSnapshot_def findFreshCacheRow_def empty_connector_db_def kd_cache_def
      sample_ingest_def first_row_def osvConnector_def buildPackageMetadataEvent_def subject_of_def left_pad_def present_def
      connectorSupportsEvent_def getConnectorSubscription_def)

lemma left_pad_supported: "connectorSupportsEvent (osvConnector n config handle) (request_event e t left_pad)"
  by (simp add: osvConnector_def connectorSupportsEvent_def getConnectorSubscription_def connectorSupportsEcosystem_def
      request_event_def left_pad_def osvSupportsEvent_def) code_simp

theorem connector_failure_recorded_witness:
  "\<exists>s db'. evaluateConnectorForRequest (\<lambda>_ _. 10) ''e'' 5 (down_connector (AppError ''osv_http_500'')) left_pad ''t'' ''p''
      empty_connector_db = Inr (s, db') \<and> sm_status (sn_meta s) = Error \<and> loaded db' ''p'' left_pad ''osv'' = [([], sn_meta s)]"
proof -
  let ?c = "down_connector (AppError ''osv_http_500'')"
  have "evaluated_connector ?c" by (simp add: down_connector_def osv_connector.evaluated_connector_axioms)
  moreover have "owned_snapshots left_pad (kd_snapshots empty_connector_db)"
    by (simp add: owned_snapshots_def empty_connector_db_def)
  moreover have "connectorSupportsEvent ?c (request_event ''e'' 5 left_pad)"
    unfolding down_connector_def by (rule left_pad_supported)
  moreover have "evaluateFromCache ''e'' 5 ?c left_pad ''t'' ''p'' (request_event ''e'' 5 left_pad) empty_connector_db =
      Inr (None, empty_connector_db)"
    unfolding down_connector_def by (rule left_pad_miss)
  moreover have "cn_handleEvent ?c (request_event ''e'' 5 left_pad) = Inl (AppError ''osv_http_500'')"
    "cc_responseTimeoutMs (cn_config ?c) = 3000" "cn_id ?c = ''osv''"
    by (simp_all add: down_connector_def osvConnector_def)
  ultimately show ?thesis
    using connector_failure_recorded [OF _ empty_connector_db_ok left_pad_catalogued _ refl, of ?c "''e''" 5 "''t''" "''p''" "\<lambda>_ _. 10"
        "AppError ''osv_http_500''"]
    by (auto simp: isConnectorUnavailableError_def)
qed

text \<open>
  A late answer is not lost. When a fetch misses the response deadline, the request gets the
  status \<open>background_pending\<close> and one fetch keeps running. Once it delivers a result, the next
  request for the version, for as long as the result's time to live, is served from the cache: the
  snapshot is the connector's normalization of that result, marked as a cache hit, however long a
  new fetch would take.
\<close>

theorem late_answer_is_served:
  fixes connector :: connector
  assumes "evaluated_connector connector" and "kd_ok db" and "catalogued ai" and "owned_snapshots ai (kd_snapshots db)"
    and supported: "\<forall>e t. connectorSupportsEvent connector (request_event e t ai)"
    and miss: "evaluateFromCache e0 t0 connector ai tenantId projectId (request_event e0 t0 ai) db = Inr (None, db)"
    and slow: "cc_responseTimeoutMs (cn_config connector) \<le> fetch_ms connector (request_event e0 t0 ai)"
    and answer: "cn_handleEvent connector (request_event e0 t0 ai) = Inr (Some r)"
    and reads: "cn_readSnapshots connector \<noteq> Some False" and sound: "findingsSummaryFromResult r > 0 \<longrightarrow> cr_findings r \<noteq> []"
    and fresh: "t2 < t1 + effective_ttl connector r None * 1000"
  shows "\<exists>s1 db1 s2 db2.
     evaluateConnectorForRequest fetch_ms e0 t0 connector ai tenantId projectId db = Inr (s1, db1) \<and>
     sm_status (sn_meta s1) = Background_pending \<and> sn_fields s1 = [] \<and>
     length (kd_pending db1) = Suc (length (kd_pending db)) \<and>
     evaluateConnectorForRequest fetch_ms' e2 t2 connector ai tenantId projectId
       (settle_background t1 (length (kd_pending db)) db1) = Inr (s2, db2) \<and>
     sm_status (sn_meta s2) = Cache_hit \<and>
     sn_fields s2 = sn_fields (cn_normalizeToSnapshot connector (Some (cached_form r))
       (eventEntityContext (request_event e2 t2 ai) (ai_display_name ai) True 0 (Some (of_int (t2 - t1) / 3600000))) None None)"
proof -
  let ?e = "request_event e0 t0 ai" and ?d = "cc_responseTimeoutMs (cn_config connector)"
  obtain s1 db1 where f: "evaluationFailed (t0 + ?d) t0 connector ai tenantId projectId ?e True (AppError ''response_timeout'') db = (s1, db1)"
    by (cases "evaluationFailed (t0 + ?d) t0 connector ai tenantId projectId ?e True (AppError ''response_timeout'') db")
  have run: "evaluateConnectorForRequest fetch_ms e0 t0 connector ai tenantId projectId db = Inr (s1, db1)"
    using assms(3) supported miss slow f by (simp add: evaluateConnectorForRequest_def build_event Let_def)
  note s1 = evaluated_connector.loaded_failed [OF assms(1-4) f]
  have pending: "kd_pending db1 = kd_pending db @ [\<lparr> bf_connector = connector, bf_tenantId = tenantId,
      bf_projectId = projectId, bf_event = ?e, bf_displayName = ai_display_name ai, bf_startedAt = t0 \<rparr>]"
    using f by (auto simp: evaluationFailed_def Let_def)
  let ?db = "db1\<lparr> kd_pending := kd_pending db \<rparr>"
  have settled: "settle_background t1 (length (kd_pending db)) db1 =
      snd (persistConnectorResult t1 connector tenantId projectId ?e (ai_display_name ai) r (t1 - t0) ?db)"
    by (simp add: settle_background_def Let_def pending answer nth_append)
  have "kd_ok db1" using evaluated_connector.evaluate_ok [OF assms(1,2) run] .
  then have "kd_ok ?db" by (simp add: kd_ok_def)
  from evaluated_connector.persisted_hit [OF assms(1) this assms(3) reads sound fresh settled, of e2 t2]
  obtain c where c: "buildCachedSnapshot (kd_cache (settle_background t1 (length (kd_pending db)) db1)) t2 connector
        (request_event e2 t2 ai) (ai_display_name ai) = Some c"
     and snap: "cs_snapshot c = cn_normalizeToSnapshot connector (Some (cached_form r))
       (eventEntityContext (request_event e2 t2 ai) (ai_display_name ai) True 0 (Some (of_int (t2 - t1) / 3600000))) None None"
    by blast
  from evaluated_connector.hit_served [OF assms(1,3) supported [rule_format] c] obtain db2 where
    "evaluateConnectorForRequest fetch_ms' e2 t2 connector ai tenantId projectId
       (settle_background t1 (length (kd_pending db)) db1) = Inr (cs_snapshot c, db2)" by blast
  moreover have "sm_status (sn_meta (cs_snapshot c)) = Cache_hit"
    using assms(1) unfolding snap evaluated_connector_def
    by (simp add: snapshot_provider.norm_meta snapshot_meta_of_def eventEntityContext_def)
  ultimately show ?thesis
    using run s1 pending snap by (auto simp: failureStatus_def)
qed

definition slow_connector :: connector where
  "slow_connector = osvConnector 0
     \<lparr> cc_cacheTtlSeconds = 60, cc_responseTimeoutMs = 3000, cc_backgroundTimeoutMs = 30000, cc_baseUrl = [] \<rparr>
     (\<lambda>_. Inr (Some sample_result))"

theorem late_answer_is_served_witness:
  "\<exists>s1 db1 s2 db2.
     evaluateConnectorForRequest (\<lambda>_ _. 5000) ''e'' 5 slow_connector left_pad ''t'' ''p'' empty_connector_db = Inr (s1, db1) \<and>
     sm_status (sn_meta s1) = Background_pending \<and>
     evaluateConnectorForRequest (\<lambda>_ _. 5000) ''f'' 9000 slow_connector left_pad ''t'' ''p'' (settle_background 5005 0 db1) =
       Inr (s2, db2) \<and> sm_status (sn_meta s2) = Cache_hit"
proof -
  have "evaluated_connector slow_connector"
    by (simp add: slow_connector_def osv_connector.evaluated_connector_axioms)
  moreover have "owned_snapshots left_pad (kd_snapshots empty_connector_db)" "kd_pending empty_connector_db = []"
    by (simp_all add: owned_snapshots_def empty_connector_db_def)
  moreover have "\<forall>e t. connectorSupportsEvent slow_connector (request_event e t left_pad)"
    unfolding slow_connector_def using left_pad_supported by blast
  moreover have "evaluateFromCache ''e'' 5 slow_connector left_pad ''t'' ''p'' (request_event ''e'' 5 left_pad) empty_connector_db =
      Inr (None, empty_connector_db)"
    unfolding slow_connector_def by (rule left_pad_miss)
  moreover have "cn_handleEvent slow_connector (request_event ''e'' 5 left_pad) = Inr (Some sample_result)"
    "cc_responseTimeoutMs (cn_config slow_connector) = 3000" "cn_readSnapshots slow_connector \<noteq> Some False"
    "9000 < 5005 + effective_ttl slow_connector sample_result None * 1000"
    by (simp_all add: slow_connector_def osvConnector_def effective_ttl_def sample_result_def default_def orelse_def)
  moreover have "findingsSummaryFromResult sample_result > 0 \<longrightarrow> cr_findings sample_result \<noteq> []"
    by (simp add: findingsSummaryFromResult_def sample_result_def)
  ultimately show ?thesis
    using late_answer_is_served [OF _ empty_connector_db_ok left_pad_catalogued, of slow_connector "''e''" 5 "''t''" "''p''"
        "\<lambda>_ _. 5000" sample_result 9000 5005 "\<lambda>_ _. 5000" "''f''"] by auto
qed

text \<open>
  The contributor connector never contributes to a check. It is subscribed to artifact requests
  only, not as a synchronous connector, and its cache policy forbids reading snapshots; so a check
  evaluates it from the cache, finds nothing there whatever was ingested, and stores nothing. Its
  \<open>handleEvent\<close> is not called by a check at all.
\<close>

theorem contributor_never_evaluated:
  "let connector = contributorConnector t config ttlOverride (kd_ingest db)
   in \<not> connectorRequiresSynchronousArtifactEvaluation connector \<and>
      getConnectorSubscription connector Package_metadata = None \<and>
      (case evaluateCachedConnectorForRequest eventId now connector ai tenantId projectId db of
         Inl err \<Rightarrow> \<not> catalogued ai
       | Inr (s, db') \<Rightarrow> s = None \<and> db' = db)"
proof -
  define connector where "connector = contributorConnector t config ttlOverride (kd_ingest db)"
  have sub: "getConnectorSubscription connector Package_metadata = None"
    by (simp add: connector_def contributorConnector_def getConnectorSubscription_def)
  have "evaluateFromCache eventId now connector ai tenantId projectId event db = Inr (None, db)" if "catalogued ai" for event
  proof -
    have "buildCachedSnapshot (kd_cache db) now connector event name = None" for name
      by (simp add: buildCachedSnapshot_def connector_def contributorConnector_def)
    with that sub show ?thesis
      by (simp add: evaluateFromCache_def buildPackageMetadataEvent_def subject_of_def catalogued_def connectorSupportsEvent_def)
  qed
  with sub have "\<not> connectorRequiresSynchronousArtifactEvaluation connector \<and>
      getConnectorSubscription connector Package_metadata = None \<and>
      (case evaluateCachedConnectorForRequest eventId now connector ai tenantId projectId db of
         Inl err \<Rightarrow> \<not> catalogued ai
       | Inr (s, db') \<Rightarrow> s = None \<and> db' = db)"
    by (simp add: evaluateCachedConnectorForRequest_def build_event)
      (simp add: connector_def contributorConnector_def connectorRequiresSynchronousArtifactEvaluation_def
        getConnectorSubscription_def)
  then show ?thesis by (simp add: connector_def Let_def)
qed

end
