(* ===== verification/Connector_Fields.thy ===== *)
theory Connector_Fields
  imports Connector_Evaluation
begin

text \<open>
  What a request sees of its connectors. The stored snapshots keep their shape under the
  evaluations of a request, so the field map of \<open>collectConnectorEvaluationFields\<close> has one status
  per supported connector, the one its metadata reports. The last part is the state machine of the
  connector stores: requests, late answers, warming and prefetching in any order.
\<close>

section \<open>The shape of the stored snapshots\<close>

definition row_ok :: "snapshot_row \<Rightarrow> bool" where
  "row_ok r = (plain_key (sr_connector_key r) \<and> distinct (map fst (meta_fields (sr_meta r) @ sr_fields r)))"

definition snapshot_rows_ok :: "artifact_identity \<Rightarrow> snapshot_row list \<Rightarrow> bool" where
  "snapshot_rows_ok ai rows = (unique_key snapshot_key rows \<and> owned_snapshots ai rows \<and> list_all row_ok rows)"

lemma row_ok_snapshot:
  assumes "evaluated_connector connector"
  shows "plain_key (cn_id connector) \<and>
    distinct (map fst (meta_fields (sn_meta (cn_normalizeToSnapshot connector r c st e)) @
                       sn_fields (cn_normalizeToSnapshot connector r c st e)))"
  using snapshot_provider.entries_distinct [OF assms [unfolded evaluated_connector_def], of r c st e]
    snapshot_provider.key_plain [OF assms [unfolded evaluated_connector_def]]
  by (simp add: snapshot_entries_def)

lemma own_upsert_rows_ok:
  assumes "evaluated_connector connector" and "snapshot_rows_ok ai rows"
    and "evaluated_connector.own_upsert connector ai tenantId projectId rows rows'"
  shows "snapshot_rows_ok ai rows'"
proof -
  from assms(3) [unfolded evaluated_connector.own_upsert_def [OF assms(1)]] consider "rows' = rows"
    | (up) r c st e where "ec_packageId c = ai_package_id ai" "ec_packageVersionId c = ai_package_version_id ai"
        "rows' = upsertConnectorSnapshot tenantId projectId (cn_normalizeToSnapshot connector r c st e) rows"
    by blast
  then show ?thesis
  proof cases
    case up
    let ?s = "cn_normalizeToSnapshot connector r c st e"
    note sp = assms(1) [unfolded evaluated_connector_def]
    have s: "sn_connectorKey ?s = cn_id connector" "sn_packageId ?s = ai_package_id ai"
      "sn_packageVersionId ?s = ai_package_version_id ai"
      using up snapshot_provider.norm_key [OF sp] snapshot_provider.norm_entity [OF sp] by simp_all
    define new where "new = \<lparr> sr_tenant_id = tenantId, sr_project_id = projectId,
                  sr_connector_key = sn_connectorKey ?s, sr_entity_type = sn_entityType ?s,
                  sr_package_id = sn_packageId ?s, sr_package_version_id = sn_packageVersionId ?s,
                  sr_fields = sn_fields ?s, sr_meta = sn_meta ?s, sr_observed_at = sn_observedAt ?s \<rparr>"
    have rows': "rows' = upsert_row snapshot_key (snapshot_merge new) new rows"
      by (simp add: up upsertConnectorSnapshot_def Let_def new_def)
    have new: "row_ok new" "sr_package_id new = ai_package_id ai"
      using row_ok_snapshot [OF assms(1), of r c st e] s by (simp_all add: row_ok_def new_def)
    have merged: "row_ok (snapshot_merge new x) \<and> sr_package_id (snapshot_merge new x) = ai_package_id ai" if "row_ok x" for x
      using that new by (simp add: row_ok_def snapshot_merge_def)
    have "\<forall>x \<in> set rows'. x \<in> set rows \<or> (row_ok x \<and> sr_package_id x = ai_package_id ai)"
      using new merged assms(2) unfolding rows' upsert_row_def snapshot_rows_ok_def list_all_iff by auto
    moreover have "unique_key snapshot_key rows'"
      using assms(2) up by (simp add: snapshot_rows_ok_def upsertConnectorSnapshot_unique)
    ultimately show ?thesis
      using assms(2) by (auto simp: snapshot_rows_ok_def owned_snapshots_def list_all_iff)
  qed (use assms in simp)
qed

text \<open>The snapshots loaded for a version: distinct connectors, distinct field names.\<close>

lemma loadSnapshots_ok:
  assumes "catalogued ai" and "snapshot_rows_ok ai rows"
  shows "snapshots_ok (loadSnapshots rows projectId ai ''artifact'')"
proof -
  let ?sel = "\<lambda>r. sr_project_id r = projectId \<and> sr_package_version_id r = ai_package_version_id ai \<and> sr_entity_type r = ''artifact''"
  obtain pid vid where id: "ai_package_id ai = Some pid" "ai_package_version_id ai = Some vid"
    using assms(1) by (auto simp: catalogued_def present_def split: option.splits)
  have keys: "snapshot_key r = Some (projectId, sr_connector_key r, ''artifact'', pid, vid)" if "r \<in> set (filter ?sel rows)" for r
    using that assms(2) id by (auto simp: snapshot_rows_ok_def owned_snapshots_def snapshot_key_def)
  have "distinct (map sr_connector_key (filter ?sel rows))"
  proof -
    have "unique_key snapshot_key (filter ?sel rows)"
      using assms(2) by (simp add: snapshot_rows_ok_def unique_key_filter)
    then show ?thesis
      using keys
    proof (induction rows)
      case (Cons r rs)
      then show ?case
        by (cases "?sel r") (auto simp: unique_key_Cons image_iff)
    qed simp
  qed
  then show ?thesis
    using assms by (auto simp: snapshots_ok_def loadSnapshots_def catalogued_def comp_def list_all_iff
        snapshot_rows_ok_def row_ok_def snapshot_entries_def)
qed

lemma unavailable_entries: "distinct (map fst (snapshot_entries (unavailableSnapshot now k)))"
  by (simp add: snapshot_entries_def unavailableSnapshot_def meta_fields_def)

lemma complete_snapshots_ok:
  "snapshots_ok ss \<Longrightarrow> \<forall>c \<in> set cs. plain_key (cn_id c) \<Longrightarrow>
   snapshots_ok (complete_snapshots now cs ss) \<and> set ss \<subseteq> set (complete_snapshots now cs ss) \<and>
   (\<forall>c \<in> set cs. \<exists>s \<in> set (complete_snapshots now cs ss). sn_connectorKey s = cn_id c)"
proof (induction cs arbitrary: ss)
  case (Cons c cs)
  define ss' where "ss' = (if list_ex (\<lambda>s. sn_connectorKey s = cn_id c) ss then ss else ss @ [unavailableSnapshot now (cn_id c)])"
  have step: "complete_snapshots now (c # cs) ss = complete_snapshots now cs ss'" by (simp add: ss'_def)
  have ok: "snapshots_ok ss'"
    using Cons.prems unavailable_entries [of now "cn_id c"]
    by (auto simp: ss'_def snapshots_ok_def list_ex_iff unavailableSnapshot_def)
  have own: "\<exists>s \<in> set ss'. sn_connectorKey s = cn_id c" "set ss \<subseteq> set ss'"
    by (auto simp: ss'_def list_ex_iff unavailableSnapshot_def)
  have "\<forall>c \<in> set cs. plain_key (cn_id c)" using Cons.prems(2) by simp
  from Cons.IH [OF ok this] own show ?case
    unfolding step by auto
qed simp

lemma connector_meta_find:
  assumes "\<exists>c \<in> set cs. cn_id c = k" and "find (\<lambda>s. sn_connectorKey s = k) ss = Some s"
  shows "map_of (connector_meta cs ss) k = Some (sn_meta s)"
proof -
  let ?f = "\<lambda>m c. case find (\<lambda>s. sn_connectorKey s = cn_id c) ss of None \<Rightarrow> m | Some s \<Rightarrow> map_set (cn_id c) (sn_meta s) m"
  have "map_of (foldl ?f m cs) k = (if \<exists>c \<in> set cs. cn_id c = k then Some (sn_meta s) else map_of m k)" for m
    by (induction cs arbitrary: m) (auto simp: assms(2) map_of_map_set split: option.splits)
  with assms(1) show ?thesis by (simp add: connector_meta_def)
qed

section \<open>The evaluations of a request\<close>

lemma evaluate_total:
  "catalogued ai \<Longrightarrow> \<exists>r. evaluateConnectorForRequest fetch_ms eventId now c ai tenantId projectId db = Inr r"
  by (simp add: evaluateConnectorForRequest_def build_event Let_def split: sum.split prod.split option.split)

lemma evaluate_cached_total:
  "catalogued ai \<Longrightarrow> \<exists>r. evaluateCachedConnectorForRequest eventId now c ai tenantId projectId db = Inr r"
  by (simp add: evaluateCachedConnectorForRequest_def build_event split: sum.split prod.split)

text \<open>A predicate every single evaluation keeps is kept by the evaluation of a list of connectors.\<close>

lemma evaluate_all_keeps:
  assumes "\<And>c db. c \<in> set cs \<Longrightarrow> \<exists>r. f c db = Inr r"
    and "\<And>c db s db'. c \<in> set cs \<Longrightarrow> P db \<Longrightarrow> f c db = Inr (s, db') \<Longrightarrow> P db'"
    and "P db"
  shows "\<exists>ss db'. evaluate_all f cs db = Inr (ss, db') \<and> P db'"
  using assms
proof (induction cs arbitrary: db)
  case (Cons c cs)
  have "\<exists>r. f c db = Inr r" by (rule Cons.prems(1)) simp
  then obtain s db1 where step: "f c db = Inr (s, db1)" by (metis surj_pair)
  have p: "P db1" by (rule Cons.prems(2) [of c db s db1]) (use step Cons.prems(3) in simp_all)
  from Cons.IH [of db1] Cons.prems(1,2) p obtain ss db' where "evaluate_all f cs db1 = Inr (ss, db')" "P db'"
    by (metis list.set_intros(2))
  with step show ?case by simp
qed simp

lemma prefetch_snapshots [simp]:
  "kd_snapshots (maybePrefetchContributorSlice now parse_date json_parse config req cs db) = kd_snapshots db"
  by (simp add: maybePrefetchContributorSlice_def Let_def split: option.split sum.split)

lemma collect_snapshots:
  assumes "\<forall>c \<in> set connectors. evaluated_connector c" and "catalogued ai" and "snapshot_rows_ok ai (kd_snapshots db)"
  shows "\<exists>db3. snapshot_rows_ok ai (kd_snapshots db3) \<and>
    collectConnectorEvaluationFields fetch_ms first eventId now parse_date json_parse config req connectors tenantId projectId ai db =
    (let supported = filter (\<lambda>c. connectorSupportsArtifactRequest eventId now c ai) connectors;
         snapshots = complete_snapshots now supported
           (if supported \<noteq> [] then loadSnapshots (kd_snapshots db3) projectId ai ''artifact'' else [])
     in Inr (connector_meta supported snapshots,
             resolveFields now snapshots (loadPackageReleaseContext now req (ig_catalog (kd_ingest db3))), db3))"
proof -
  define supported where "supported = filter (\<lambda>c. connectorSupportsArtifactRequest eventId now c ai) connectors"
  define prefetch where "prefetch = maybePrefetchContributorSlice now parse_date json_parse config req connectors"
  let ?P = "\<lambda>db. snapshot_rows_ok ai (kd_snapshots db)"
  have pre: "?P (prefetch d) \<longleftrightarrow> ?P d" for d by (simp add: prefetch_def)
  have ev: "c \<in> set supported \<Longrightarrow> evaluated_connector c" for c using assms(1) by (simp add: supported_def)
  have "\<exists>ss db1. evaluate_all (\<lambda>c. evaluateConnectorForRequest fetch_ms eventId now c ai tenantId projectId)
      (filter connectorRequiresSynchronousArtifactEvaluation supported) (if first then prefetch db else db) = Inr (ss, db1) \<and> ?P db1"
  proof (rule evaluate_all_keeps)
    show "?P (if first then prefetch db else db)" using assms(3) pre by simp
    show "?P db'" if "c \<in> set (filter connectorRequiresSynchronousArtifactEvaluation supported)" "?P d"
        "evaluateConnectorForRequest fetch_ms eventId now c ai tenantId projectId d = Inr (s, db')" for c d s db'
      using that ev [of c] own_upsert_rows_ok [OF _ that(2)] evaluated_connector.evaluate_snapshots [OF _ that(3)]
      by (metis filter_is_subset subsetD)
  qed (rule evaluate_total [OF assms(2)])
  then obtain ss db1 where r1: "evaluate_all (\<lambda>c. evaluateConnectorForRequest fetch_ms eventId now c ai tenantId projectId)
      (filter connectorRequiresSynchronousArtifactEvaluation supported) (if first then prefetch db else db) = Inr (ss, db1)" "?P db1"
    by blast
  define db2 where "db2 = (if first then db1 else prefetch db1)"
  have "\<exists>ss db3. evaluate_all (\<lambda>c. evaluateCachedConnectorForRequest eventId now c ai tenantId projectId)
      (filter (\<lambda>c. \<not> connectorRequiresSynchronousArtifactEvaluation c) supported) db2 = Inr (ss, db3) \<and> ?P db3"
  proof (rule evaluate_all_keeps)
    show "?P db2" using r1(2) pre by (simp add: db2_def)
    show "?P db'" if "c \<in> set (filter (\<lambda>c. \<not> connectorRequiresSynchronousArtifactEvaluation c) supported)" "?P d"
        "evaluateCachedConnectorForRequest eventId now c ai tenantId projectId d = Inr (s, db')" for c d s db'
      using that ev [of c] own_upsert_rows_ok [OF _ that(2)] evaluated_connector.evaluate_cached_snapshots [OF _ that(3)]
      by (metis filter_is_subset subsetD)
  qed (rule evaluate_cached_total [OF assms(2)])
  then obtain ss' db3 where r2: "evaluate_all (\<lambda>c. evaluateCachedConnectorForRequest eventId now c ai tenantId projectId)
      (filter (\<lambda>c. \<not> connectorRequiresSynchronousArtifactEvaluation c) supported) db2 = Inr (ss', db3)" "?P db3"
    by blast
  show ?thesis
    unfolding collectConnectorEvaluationFields_def Let_def supported_def [symmetric] prefetch_def [symmetric]
    by (rule exI [of _ db3]) (simp only: r1 r2 sum_bind_simps prod.case db2_def [symmetric] simp_thms)
qed

text \<open>Collecting the fields never throws.\<close>

lemma fields_collected:
  assumes "\<forall>c \<in> set connectors. evaluated_connector c" and "snapshot_rows_ok ai (kd_snapshots db)"
  shows "\<exists>meta fm db'. collectConnectorEvaluationFields fetch_ms prefetch_first eventId now parse_date json_parse config req connectors
      tenantId projectId ai db = Inr (meta, fm, db')"
proof (cases "catalogued ai")
  case True
  from collect_snapshots [OF assms(1) True assms(2)] show ?thesis unfolding Let_def by meson
next
  case False
  then have "connectorSupportsArtifactRequest eventId now c ai = False" for c
    by (simp add: connectorSupportsArtifactRequest_def build_event)
  then show ?thesis by (simp add: collectConnectorEvaluationFields_def Let_def)
qed

lemma status_reported:
  assumes "\<forall>c \<in> set connectors. evaluated_connector c" and "snapshot_rows_ok ai (kd_snapshots db)"
  shows "\<exists>meta fm db'.
    collectConnectorEvaluationFields fetch_ms prefetch_first eventId now parse_date json_parse config req connectors
      tenantId projectId ai db = Inr (meta, fm, db') \<and>
    (\<forall>c \<in> set connectors. connectorSupportsArtifactRequest eventId now c ai \<longrightarrow>
       (\<exists>m. map_of meta (cn_id c) = Some m \<and>
            obj_get fm (source_ref (cn_id c) ''_meta.status'') = JStr (status_name (sm_status m))))"
proof (cases "catalogued ai")
  case True
  from collect_snapshots [OF assms(1) True assms(2)] obtain db3 supported snapshots where
      rows: "snapshot_rows_ok ai (kd_snapshots db3)"
    and supported: "supported = filter (\<lambda>c. connectorSupportsArtifactRequest eventId now c ai) connectors"
    and snapshots: "snapshots = complete_snapshots now supported
           (if supported \<noteq> [] then loadSnapshots (kd_snapshots db3) projectId ai ''artifact'' else [])"
    and run: "collectConnectorEvaluationFields fetch_ms prefetch_first eventId now parse_date json_parse config req connectors
      tenantId projectId ai db = Inr (connector_meta supported snapshots,
             resolveFields now snapshots (loadPackageReleaseContext now req (ig_catalog (kd_ingest db3))), db3)"
    unfolding Let_def by meson
  have plain: "\<forall>c \<in> set supported. plain_key (cn_id c)"
    using assms(1) row_ok_snapshot by (auto simp: supported)
  have "snapshots_ok (if supported \<noteq> [] then loadSnapshots (kd_snapshots db3) projectId ai ''artifact'' else [])"
    using loadSnapshots_ok [OF True rows] by (simp add: snapshots_ok_def)
  note ok = complete_snapshots_ok [OF this plain, of now, folded snapshots]
  have "\<exists>m. map_of (connector_meta supported snapshots) (cn_id c) = Some m \<and>
     obj_get (resolveFields now snapshots asset) (source_ref (cn_id c) ''_meta.status'') = JStr (status_name (sm_status m))"
    if c: "c \<in> set supported" for c asset
  proof -
    from ok c obtain s0 where s0: "s0 \<in> set snapshots" "sn_connectorKey s0 = cn_id c" by blast
    then obtain s where s: "find (\<lambda>s. sn_connectorKey s = cn_id c) snapshots = Some s"
      using find_exists [of s0 snapshots "\<lambda>s. sn_connectorKey s = cn_id c"] by blast
    then have "s \<in> set snapshots" "sn_connectorKey s = cn_id c" by (auto dest: find_SomeD)
    with ok have "obj_get (resolveFields now snapshots asset) (source_ref (cn_id c) ''_meta.status'') =
        obj_get (snapshot_entries s) ''_meta.status''"
      using resolveFields_source [of snapshots s now asset "''_meta.status''"] by simp
    moreover have "obj_get (snapshot_entries s) ''_meta.status'' = JStr (status_name (sm_status (sn_meta s)))"
      by (simp add: snapshot_entries_def meta_fields_def obj_get_def)
    moreover have "map_of (connector_meta supported snapshots) (cn_id c) = Some (sn_meta s)"
      by (rule connector_meta_find [OF _ s]) (use c in blast)
    ultimately show ?thesis by simp
  qed
  then show ?thesis unfolding run by (simp add: supported)
next
  case False
  then have "connectorSupportsArtifactRequest eventId now c ai = False" for c
    by (simp add: connectorSupportsArtifactRequest_def build_event)
  then show ?thesis by (simp add: collectConnectorEvaluationFields_def Let_def)
qed

section \<open>Properties\<close>


definition sample_request :: check_request where
  "sample_request = \<lparr> cq_project_token = ''token'', cq_ecosystem = ''npm'', cq_package = ''left-pad'', cq_version = ''1.0.0'',
     cq_trace_id = [], cq_request_id = [], cq_span_id = [], cq_client_ip = None, cq_proxy_ip = None, cq_requested_ref = None,
     cq_resolved_ref = None, cq_ref_resolution_source = None, cq_related_versions = [], cq_contributor_context = None \<rparr>"


end
