(* ===== verification/Connector_Sync.thy ===== *)
theory Connector_Sync
  imports Connector_Fields
begin

text \<open>
  Synchronization of a project with a connector, \<open>features/security/connector-sync-service.ts\<close> and
  \<open>connector-sync-selection.ts\<close>: the packages a project uses are fetched again one by one, at most
  once per cooldown. The second part is the state machine of the connector stores: evaluations of
  requests, late answers, warming, prefetching and synchronizations in any order.
\<close>

section \<open>Tables\<close>

record sync_row =
  sy_project_id :: string
  sy_connector_key :: string
  sy_last_synced_at :: ms
  sy_synced_count :: nat
  sy_new_findings :: nat
  sy_reopened_count :: nat
  sy_duration_ms :: int

record usage_row =
  us_tenant_id :: string
  us_project_id :: string
  us_package_version_id :: string
  us_request_count :: int
  us_allow_count :: int
  us_block_count :: int
  us_created_at :: ms
  us_updated_at :: ms

definition sync_key :: "sync_row \<Rightarrow> (string \<times> string) option" where
  "sync_key r = Some (sy_project_id r, sy_connector_key r)"

definition sync_merge :: "sync_row \<Rightarrow> sync_row \<Rightarrow> sync_row" where
  "sync_merge new r =
     r\<lparr> sy_last_synced_at := sy_last_synced_at new, sy_synced_count := sy_synced_count new,
        sy_new_findings := sy_new_findings new, sy_reopened_count := sy_reopened_count new,
        sy_duration_ms := sy_duration_ms new \<rparr>"

interpretation syncs: upserting sync_key sync_merge
  by unfold_locales (simp add: sync_key_def sync_merge_def)

section \<open>Selection\<close>

record sync_package =
  sk_packageId :: string
  sk_packageVersionId :: string
  sk_ecosystem :: string
  sk_name :: string
  sk_version :: string

definition used_packages :: "string \<Rightarrow> string \<Rightarrow> usage_row list \<Rightarrow> catalog_db \<Rightarrow> sync_package list" where
  "used_packages projectId tenantId usage db =
     concat (map (\<lambda>u. concat (map (\<lambda>v. map (\<lambda>p.
         \<lparr> sk_packageId = pk_id p, sk_packageVersionId = pv_id v, sk_ecosystem = pk_ecosystem p,
           sk_name = pk_package p, sk_version = pv_version v \<rparr>)
       (filter (\<lambda>p. pk_id p = pv_package_id v) (cg_packages db)))
       (filter (\<lambda>v. pv_id v = us_package_version_id u) (cg_versions db))))
     (filter (\<lambda>u. us_project_id u = projectId \<and> us_tenant_id u = tenantId) usage))"

definition package_label :: "sync_package \<Rightarrow> string" where
  "package_label k = sk_ecosystem k @ '':'' @ sk_name k @ '':'' @ sk_version k"

definition selectProjectPackagesForSync ::
    "string \<Rightarrow> string \<Rightarrow> string \<Rightarrow> string \<Rightarrow> usage_row list \<Rightarrow> ingest_db \<Rightarrow> sync_package list" where
  "selectProjectPackagesForSync projectId tenantId connectorKey scope usage db =
     (let packageRows = used_packages projectId tenantId usage (ig_catalog db)
      in if scope \<noteq> ''vulnerable'' then packageRows
         else
           let vulnerableKeys = map package_label (filter (\<lambda>k. list_ex (\<lambda>r.
                 ca_package_version_id r = Some (sk_packageVersionId k) \<and> ca_connector_id r = connectorKey \<and>
                 ca_risk_tier r \<noteq> NONE) (cb_rows (ig_cache db))) packageRows)
           in filter (\<lambda>k. package_label k \<in> set vulnerableKeys) packageRows)"

section \<open>Cooldown\<close>

definition SYNC_COOLDOWN_MS :: int where
  "SYNC_COOLDOWN_MS = 15 * 60 * 1000"

definition loadConnectorSyncCooldown :: "ms \<Rightarrow> string \<Rightarrow> string \<Rightarrow> sync_row list \<Rightarrow> int option" where
  "loadConnectorSyncCooldown now projectId connectorKey rows =
     (case first_row (\<lambda>r. sy_project_id r = projectId \<and> sy_connector_key r = connectorKey) rows of
        None \<Rightarrow> None
      | Some syncRecord \<Rightarrow>
          let elapsed = now - sy_last_synced_at syncRecord
          in if elapsed \<ge> SYNC_COOLDOWN_MS then None
             else Some \<lceil>(of_int (SYNC_COOLDOWN_MS - elapsed) / 1000 :: rat)\<rceil>)"

section \<open>Synchronization\<close>

definition sync_event :: "string \<Rightarrow> ms \<Rightarrow> sync_package \<Rightarrow> js_error + artifact_event" where
  "sync_event eventId now k = buildArtifactRequestEvent eventId now
     \<lparr> es_package_id = Some (sk_packageId k), es_package_version_id = Some (sk_packageVersionId k),
       es_ecosystem = sk_ecosystem k, es_package = sk_name k, es_version = Some (sk_version k) \<rparr> Sync"

definition sync_package_once ::
    "string \<Rightarrow> ms \<Rightarrow> string \<Rightarrow> string \<Rightarrow> string \<Rightarrow> connector \<Rightarrow> sync_package \<Rightarrow> connector_db \<Rightarrow> nat \<times> connector_db" where
  "sync_package_once eventId now tenantId projectId connectorKey connector k db =
     (case sync_event eventId now k of
        Inl _ \<Rightarrow> (0, db)
      | Inr event \<Rightarrow>
          if \<not> connectorSupportsEvent connector event then (0, db)
          else (case cn_handleEvent connector event of
                  Inr (Some result) \<Rightarrow>
                    let (cacheRow, cache) = upsertCachedResult (kd_cache db) now connector event result None;
                        db1 = set_cache cache db
                    in if cr_findings result = [] then (0, db1)
                       else
                         let (n, fd) = upsertProjectFindingsForEntity now
                               \<lparr> in_tenantId = tenantId, in_projectId = projectId, in_connectorKey = connectorKey,
                                 in_connectorCacheId = map_option ca_id cacheRow, in_packageId = Some (sk_packageId k),
                                 in_packageVersionId = Some (sk_packageVersionId k),
                                 in_findings = cr_findings result \<rparr> (kd_findings db1)
                         in (n, db1\<lparr> kd_findings := fd \<rparr>)
                | _ \<Rightarrow> (0, db)))"

fun sync_packages ::
    "string \<Rightarrow> ms \<Rightarrow> string \<Rightarrow> string \<Rightarrow> string \<Rightarrow> connector \<Rightarrow> sync_package list \<Rightarrow> connector_db \<Rightarrow> nat \<times> connector_db" where
  "sync_packages eventId now tenantId projectId connectorKey connector [] db = (0, db)"
| "sync_packages eventId now tenantId projectId connectorKey connector (k # ks) db =
     (let (n, db1) = sync_package_once eventId now tenantId projectId connectorKey connector k db;
          (m, db2) = sync_packages eventId now tenantId projectId connectorKey connector ks db1
      in (n + m, db2))"

record sync_outcome =
  so_synced :: nat
  so_newFindings :: nat
  so_reopened :: nat
  so_durationMs :: int

definition runProjectConnectorSync ::
    "string \<Rightarrow> ms \<Rightarrow> int \<Rightarrow> string \<Rightarrow> string \<Rightarrow> string \<Rightarrow> connector \<Rightarrow> sync_package list \<Rightarrow> sync_row list \<Rightarrow> connector_db \<Rightarrow>
     sync_outcome \<times> sync_row list \<times> connector_db" where
  "runProjectConnectorSync eventId now durationMs tenantId projectId connectorKey connector packagesToSync rows db =
     (if packagesToSync = []
      then (\<lparr> so_synced = 0, so_newFindings = 0, so_reopened = 0, so_durationMs = 0 \<rparr>, rows, db)
      else
        let (newFindings, db') = sync_packages eventId now tenantId projectId connectorKey connector packagesToSync db;
            new = \<lparr> sy_project_id = projectId, sy_connector_key = connectorKey, sy_last_synced_at = now + durationMs,
                    sy_synced_count = length packagesToSync, sy_new_findings = newFindings, sy_reopened_count = 0,
                    sy_duration_ms = durationMs \<rparr>
        in (\<lparr> so_synced = length packagesToSync, so_newFindings = newFindings, so_reopened = 0, so_durationMs = durationMs \<rparr>,
            upsert_row sync_key (sync_merge new) new rows, db'))"

section \<open>The state machine of the stores\<close>

text \<open>
  One step of the system on the connector stores: a request evaluates a connector, with a fetch or
  from the cache only; a late fetch answers; a metadata request warms the cache; a request brings a
  contributor slice; a synchronization of one package.
\<close>

inductive connector_step :: "connector set \<Rightarrow> connector_db \<Rightarrow> connector_db \<Rightarrow> bool" for C where
  evaluate: "\<lbrakk>c \<in> C; evaluateConnectorForRequest fetch_ms eventId now c ai tenantId projectId db = Inr (s, db')\<rbrakk> \<Longrightarrow>
    connector_step C db db'"
| evaluate_cached: "\<lbrakk>c \<in> C; evaluateCachedConnectorForRequest eventId now c ai tenantId projectId db = Inr (s, db')\<rbrakk> \<Longrightarrow>
    connector_step C db db'"
| settle: "i < length (kd_pending db) \<Longrightarrow> connector_step C db (settle_background now i db)"
| warm: "set cs \<subseteq> C \<Longrightarrow> connector_step C db (warmPackageScopedConnectors eventId now ai cs db)"
| prefetch: "connector_step C db (maybePrefetchContributorSlice now parse_date json_parse config req cs db)"
| sync: "\<lbrakk>c \<in> C; sync_package_once eventId now tenantId projectId connectorKey c k db = (n, db')\<rbrakk> \<Longrightarrow>
    connector_step C db db'"

definition connectors_inv :: "connector set \<Rightarrow> connector_db \<Rightarrow> bool" where
  "connectors_inv C db =
     (kd_ok db \<and> catalog_inv (ig_catalog (kd_ingest db)) \<and>
      (\<forall>bf \<in> set (kd_pending db). bf_connector bf \<in> C \<and> ev_packageVersionId (bf_event bf) \<noteq> Some []))"

lemma persist_rest [simp]:
  "ig_catalog (kd_ingest (snd (persistConnectorResult now c tenantId projectId event name r ms db))) = ig_catalog (kd_ingest db)"
  "kd_pending (snd (persistConnectorResult now c tenantId projectId event name r ms db)) = kd_pending db"
  by (simp_all add: persistConnectorResult_def Let_def case_prod_beta store_snapshot_def set_cache_def)

lemma from_cache_rest:
  "evaluateFromCache eventId now c ai tenantId projectId event db = Inr (s, db') \<Longrightarrow>
   ig_catalog (kd_ingest db') = ig_catalog (kd_ingest db) \<and> kd_pending db' = kd_pending db"
  by (auto simp: evaluateFromCache_def sum_bind_Inr_iff Let_def case_prod_beta store_snapshot_def
      split: option.splits if_splits)

lemma failed_rest:
  assumes "evaluationFailed n m c ai tenantId projectId event b err db = (s, db')"
  shows "ig_catalog (kd_ingest db') = ig_catalog (kd_ingest db) \<and>
    (\<forall>bf \<in> set (kd_pending db'). bf \<in> set (kd_pending db) \<or> (bf_connector bf = c \<and> bf_event bf = event))"
  using assms by (auto simp: evaluationFailed_def Let_def split: if_splits)

lemma evaluate_rest:
  assumes "evaluateConnectorForRequest fetch_ms eventId now c ai tenantId projectId db = Inr (s, db')"
  shows "ig_catalog (kd_ingest db') = ig_catalog (kd_ingest db) \<and>
    (\<forall>bf \<in> set (kd_pending db'). bf \<in> set (kd_pending db) \<or>
       (bf_connector bf = c \<and> ev_packageVersionId (bf_event bf) \<noteq> Some []))"
proof (cases "catalogued ai \<and> connectorSupportsEvent c (request_event eventId now ai)")
  case True
  let ?e = "request_event eventId now ai"
  have version: "ev_packageVersionId ?e \<noteq> Some []"
    using True by (auto simp: catalogued_def request_event_def present_def split: option.splits)
  have p: "kd_pending d = kd_pending db \<and> ig_catalog (kd_ingest d) = ig_catalog (kd_ingest db)"
    if "persistConnectorResult n c tenantId projectId ?e name r m db = (s, d)" for n name r m d
    using persist_rest [of n c tenantId projectId ?e name r m db] that by simp
  show ?thesis
  proof (cases "evaluateFromCache eventId now c ai tenantId projectId ?e db")
    case (Inl err)
    with True assms have "evaluationFailed now now c ai tenantId projectId ?e False err db = (s, db')"
      by (simp add: evaluateConnectorForRequest_def build_event)
    from failed_rest [OF this] version show ?thesis by auto
  next
    case (Inr x)
    obtain snap db1 where x: "x = (snap, db1)" by (cases x)
    note rest = from_cache_rest [OF Inr [unfolded x]]
    show ?thesis
    proof (cases snap)
      case None
      with Inr x have "db1 = db"
        by (auto simp: evaluateFromCache_def sum_bind_Inr_iff Let_def case_prod_beta split: option.splits if_splits)
      with assms True Inr x None consider "db' = db"
        | n name r m where "persistConnectorResult n c tenantId projectId ?e name r m db = (s, db')"
        | n err where "evaluationFailed n now c ai tenantId projectId ?e True err db = (s, db')"
        by (auto simp: evaluateConnectorForRequest_def build_event Let_def split: if_splits sum.splits option.splits)
      then show ?thesis
        by cases (use p failed_rest version in fastforce)+
    next
      case (Some s')
      with assms True Inr x rest show ?thesis by (simp add: evaluateConnectorForRequest_def build_event)
    qed
  qed
qed (use assms in \<open>auto simp: evaluateConnectorForRequest_def build_event split: if_splits\<close>)

lemma warm_ok:
  "kd_ok db \<Longrightarrow> kd_ok (warm_connectors now event cs db) \<and>
     ig_catalog (kd_ingest (warm_connectors now event cs db)) = ig_catalog (kd_ingest db) \<and>
     kd_pending (warm_connectors now event cs db) = kd_pending db"
proof (induction cs arbitrary: db)
  case (Cons c cs)
  define db1 where "db1 = (if \<not> connectorSupportsEvent c event then db
        else if getPackageScopedCachedResult (kd_cache db) now c event \<noteq> None then db
        else case cn_handleEvent c event of
               Inr (Some result) \<Rightarrow>
                 set_cache (snd (upsertPackageScopedCachedResult (kd_cache db) now c event result None)) db
             | _ \<Rightarrow> db)"
  have "kd_ok db1 \<and> ig_catalog (kd_ingest db1) = ig_catalog (kd_ingest db) \<and> kd_pending db1 = kd_pending db"
    using Cons.prems upsertCachedResult_ok
    by (auto simp: db1_def upsertPackageScopedCachedResult_def set_cache_def [of _ db] kd_ok_def kd_cache_def
        split: sum.split option.split)
  with Cons.IH [of db1] show ?case by (simp add: db1_def [symmetric])
qed simp

lemma prefetch_inv:
  assumes "connectors_inv C db"
  shows "connectors_inv C (maybePrefetchContributorSlice now parse_date json_parse config req cs db)"
proof -
  have "catalog_inv (ig_catalog i) \<and> cache_ok (ig_cache i)"
    if "ingestContributorMetadata now parse_date json_parse x y (kd_ingest db) = Inr i" for i x y
    using ingest_inv [OF _ _ that] assms by (simp add: connectors_inv_def kd_ok_def kd_cache_def)
  with assms show ?thesis
    by (auto simp: maybePrefetchContributorSlice_def Let_def connectors_inv_def kd_ok_def kd_cache_def
        split: option.split sum.split)
qed

lemma sync_ok:
  assumes "kd_ok db" and "sync_package_once eventId now tenantId projectId connectorKey c k db = (n, db')"
  shows "kd_ok db' \<and> ig_catalog (kd_ingest db') = ig_catalog (kd_ingest db) \<and> kd_pending db' = kd_pending db"
proof (cases "sync_event eventId now k")
  case (Inr event)
  then have version: "sk_packageVersionId k \<noteq> []"
    by (auto simp: sync_event_def buildArtifactRequestEvent_def present_def split: if_splits)
  have "cache_ok (snd (upsertCachedResult (kd_cache db) now c event r None))" for r
    using assms(1) by (simp add: kd_ok_def upsertCachedResult_ok)
  then have ok: "kd_ok (set_cache (snd (upsertCachedResult (kd_cache db) now c event r None)) db)" for r
    by (rule set_cache_ok [OF assms(1)])
  have fd: "findings_ok (snd (upsertProjectFindingsForEntity now i (kd_findings db)))"
    if "in_packageVersionId i = Some (sk_packageVersionId k)" for i
    using assms(1) version that by (simp add: kd_ok_def upsertProjectFindings_ok)
  show ?thesis
    using assms Inr ok fd
    by (auto simp: sync_package_once_def Let_def case_prod_beta kd_ok_def set_cache_def kd_cache_def
        split: if_splits sum.splits option.splits)
qed (use assms in \<open>simp add: sync_package_once_def\<close>)

lemma settle_inv:
  assumes "connectors_inv C db" and "\<forall>c \<in> C. evaluated_connector c" and "i < length (kd_pending db)"
  shows "connectors_inv C (settle_background now i db)"
proof -
  let ?bf = "kd_pending db ! i" and ?rest = "take i (kd_pending db) @ drop (Suc i) (kd_pending db)"
  have bf: "bf_connector ?bf \<in> C" "ev_packageVersionId (bf_event ?bf) \<noteq> Some []"
    using assms(1,3) by (simp_all add: connectors_inv_def)
  have ok: "kd_ok (db\<lparr> kd_pending := ?rest \<rparr>)" using assms(1) by (simp add: connectors_inv_def kd_ok_def)
  have "set ?rest \<subseteq> set (kd_pending db)" by (auto dest: in_set_takeD in_set_dropD)
  moreover have "kd_ok (snd (persistConnectorResult now (bf_connector ?bf) t p (bf_event ?bf) n r m (db\<lparr> kd_pending := ?rest \<rparr>)))" for t p n r m
    by (rule evaluated_connector.persist_ok [OF _ ok bf(2)]) (use assms(2) bf in blast)
  ultimately show ?thesis
    using assms(1) ok
    by (auto simp: settle_background_def Let_def connectors_inv_def split: sum.split option.split)
qed

lemma connector_step_inv:
  assumes "connector_step C db db'" and "connectors_inv C db" and "\<forall>c \<in> C. evaluated_connector c"
  shows "connectors_inv C db'"
  using assms
proof (induction rule: connector_step.induct)
  case (evaluate c fetch_ms eventId now ai tenantId projectId db s db')
  then have "kd_ok db'" using evaluated_connector.evaluate_ok by (auto simp: connectors_inv_def)
  with evaluate evaluate_rest [OF evaluate.hyps(2)] show ?case by (auto simp: connectors_inv_def)
next
  case (evaluate_cached c eventId now ai tenantId projectId db s db')
  show ?case
  proof (cases "catalogued ai")
    case True
    then have "db' = db \<or> (\<exists>s'. evaluateFromCache eventId now c ai tenantId projectId (request_event eventId now ai) db = Inr (s', db'))"
      using evaluate_cached.hyps(2)
      by (auto simp: evaluateCachedConnectorForRequest_def build_event split: if_splits sum.splits)
    then show ?thesis
      using evaluate_cached True evaluated_connector.from_cache_ok [of c db ai] from_cache_rest
      by (fastforce simp: connectors_inv_def)
  qed (use evaluate_cached in \<open>simp add: evaluateCachedConnectorForRequest_def build_event\<close>)
next
  case (settle i db now)
  then show ?case by (blast intro: settle_inv)
next
  case (warm cs db eventId now ai)
  then show ?case
    using warm_ok by (auto simp: warmPackageScopedConnectors_def connectors_inv_def split: sum.split)
next
  case (prefetch db now parse_date json_parse config req cs)
  then show ?case by (blast intro: prefetch_inv)
next
  case (sync c eventId now tenantId projectId connectorKey k db n db')
  then show ?case using sync_ok [OF _ sync.hyps(2)] by (simp add: connectors_inv_def)
qed

section \<open>Properties\<close>

text \<open>
  C17: the connector stores stay consistent under every interleaving. Requests that fetch or read the
  cache, answers that come after the deadline, warming, prefetched contributor slices and
  synchronizations, in any order and for any projects, keep one cache row per connector and version
  or package, one snapshot per project, connector and version, the invariant of the findings tables,
  the invariant of the catalog, and only fetches of registered connectors pending.
\<close>

theorem connector_stores_invariant:
  assumes "(connector_step C)\<^sup>*\<^sup>* db db'" and "connectors_inv C db" and "\<forall>c \<in> C. evaluated_connector c"
  shows "connectors_inv C db'"
  using assms(1,2) by (induction rule: rtranclp_induct) (use connector_step_inv assms(3) in blast)+

theorem connector_stores_invariant_witness:
  "\<exists>db'. (connector_step {slow_connector})\<^sup>*\<^sup>* empty_connector_db db' \<and> kd_pending db' \<noteq> [] \<and> connectors_inv {slow_connector} db'"
proof -
  let ?fail = "evaluationFailed 3005 5 slow_connector left_pad ''t'' ''p'' (request_event ''e'' 5 left_pad) True
      (AppError ''response_timeout'') empty_connector_db"
  obtain s db' where r: "?fail = (s, db')" by (cases ?fail)
  have "evaluateConnectorForRequest (\<lambda>_ _. 5000) ''e'' 5 slow_connector left_pad ''t'' ''p'' empty_connector_db = Inr (s, db')"
    using left_pad_supported left_pad_miss left_pad_catalogued r
    by (simp add: evaluateConnectorForRequest_def build_event slow_connector_def Let_def) (simp add: osvConnector_def)
  then have step: "connector_step {slow_connector} empty_connector_db db'" by (rule connector_step.evaluate [rotated]) simp
  have "connectors_inv {slow_connector} empty_connector_db"
    using empty_connector_db_ok sample_ingest_inv by (simp add: connectors_inv_def empty_connector_db_def)
  moreover have "\<forall>c \<in> {slow_connector}. evaluated_connector c"
    by (simp add: slow_connector_def osv_connector.evaluated_connector_axioms)
  moreover have run: "(connector_step {slow_connector})\<^sup>*\<^sup>* empty_connector_db db'"
    using step by (rule r_into_rtranclp)
  ultimately have "connectors_inv {slow_connector} db'"
    using connector_stores_invariant [of "{slow_connector}" empty_connector_db db'] by blast
  moreover have "kd_pending db' \<noteq> []" using r by (auto simp: evaluationFailed_def Let_def)
  ultimately show ?thesis using run by blast
qed

text \<open>
  A synchronization does not close findings that have gone. When the connector now reports a
  package version as clean, synchronizing it stores the clean result in the cache but leaves every
  open finding of the project as it was, although a check that gets the same answer leaves the
  connector no open finding on the version.
\<close>

theorem clean_sync_keeps_findings:
  assumes "evaluated_connector connector" and "kd_ok db" and "sync_event eventId now k = Inr event"
    and "connectorSupportsEvent connector event" and "cn_handleEvent connector event = Inr (Some r)" and "cr_findings r = []"
  shows "kd_findings (snd (sync_packages eventId now tenantId projectId (cn_id connector) connector [k] db)) = kd_findings db \<and>
    open_external_ids (kd_findings (snd (persistConnectorResult now connector tenantId projectId event name r ms db)))
      projectId (sk_packageId k) (Some (sk_packageVersionId k)) (cn_id connector) = {}"
proof -
  have ids: "sk_packageVersionId k \<noteq> []" "sk_packageId k \<noteq> []"
      "ev_packageId event = sk_packageId k" "ev_packageVersionId event = Some (sk_packageVersionId k)"
    using assms(3) by (auto simp: sync_event_def buildArtifactRequestEvent_def present_def split: if_splits)
  have "kd_findings (snd (sync_packages eventId now tenantId projectId (cn_id connector) connector [k] db)) = kd_findings db"
    using assms(3-6) by (simp add: sync_package_once_def Let_def case_prod_beta)
  moreover have "open_external_ids (kd_findings (snd (persistConnectorResult now connector tenantId projectId event name r ms db)))
      projectId (sk_packageId k) (Some (sk_packageVersionId k)) (cn_id connector) = {}"
  proof -
    define input where "input = \<lparr> in_tenantId = tenantId, in_projectId = projectId, in_connectorKey = cn_id connector,
      in_connectorCacheId = map_option ca_id (fst (upsertCachedResult (kd_cache db) now connector event r None)),
      in_packageId = Some (sk_packageId k), in_packageVersionId = Some (sk_packageVersionId k), in_findings = [] \<rparr>"
    have fd: "kd_findings (snd (persistConnectorResult now connector tenantId projectId event name r ms db)) =
        close_unseen now input (sk_packageId k) [] (kd_findings db)"
      using assms(6) ids snapshot_provider.norm_entity [OF assms(1) [unfolded evaluated_connector_def]]
      by (simp add: persistConnectorResult_def Let_def case_prod_beta store_snapshot_def eventEntityContext_def
          upsertProjectFindingsForEntity_def present_def input_def)
    have ok: "findings_ok (kd_findings db)" using assms(2) by (simp add: kd_ok_def)
    note c = close_unseen_spec [OF ok, of input now "sk_packageId k" "[]"]
    have "\<not> (has_identity (close_unseen now input (sk_packageId k) [] (kd_findings db)) key (cn_id connector) ext \<and>
        (projectId, sk_packageId k, Some (sk_packageVersionId k), key) \<in>
          open_entities (close_unseen now input (sk_packageId k) [] (kd_findings db)))" for key ext
    proof
      assume a: "has_identity (close_unseen now input (sk_packageId k) [] (kd_findings db)) key (cn_id connector) ext \<and>
        (projectId, sk_packageId k, Some (sk_packageVersionId k), key) \<in>
          open_entities (close_unseen now input (sk_packageId k) [] (kd_findings db))"
      then have "has_identity (kd_findings db) key (cn_id connector) ext"
        using c ids by (simp add: has_identity_def input_def)
      from connector_of_key_identity [OF ok this] a c ids show False
        by (simp add: input_def)
    qed
    then show ?thesis unfolding fd open_external_ids_def by blast
  qed
  ultimately show ?thesis by simp
qed

definition clean_connector :: connector where
  "clean_connector = osvConnector 0
     \<lparr> cc_cacheTtlSeconds = 60, cc_responseTimeoutMs = 3000, cc_backgroundTimeoutMs = 30000, cc_baseUrl = [] \<rparr>
     (\<lambda>_. Inr (Some (sample_result\<lparr> cr_findings := [] \<rparr>)))"

theorem clean_sync_keeps_findings_witness:
  "let k = \<lparr> sk_packageId = ''u'', sk_packageVersionId = ''uu'', sk_ecosystem = ''npm'', sk_name = ''left-pad'', sk_version = ''1.0.0'' \<rparr>;
       (_, db) = persistConnectorResult 5 slow_connector ''t'' ''p'' (request_event ''e'' 5 left_pad) ''left-pad'' sample_result 1 empty_connector_db
   in kd_findings (snd (sync_packages ''e'' 10 ''t'' ''p'' ''osv'' clean_connector [k] db)) = kd_findings db \<and>
      map pf_observed_to (fd_project (kd_findings db)) = [None]"
proof -
  let ?k = "\<lparr> sk_packageId = ''u'', sk_packageVersionId = ''uu'', sk_ecosystem = ''npm'', sk_name = ''left-pad'', sk_version = ''1.0.0'' \<rparr>"
  define db where "db = snd (persistConnectorResult 5 slow_connector ''t'' ''p'' (request_event ''e'' 5 left_pad) ''left-pad'' sample_result 1 empty_connector_db)"
  have "kd_ok db"
    unfolding db_def slow_connector_def
    by (rule osv_connector.persist_ok [OF empty_connector_db_ok]) (simp add: request_event_def left_pad_def)
  moreover have "evaluated_connector clean_connector"
    by (simp add: clean_connector_def osv_connector.evaluated_connector_axioms)
  moreover have npm: "js_toLowerCase ''npm'' = ''npm''" by code_simp
  moreover obtain event where "sync_event ''e'' 10 ?k = Inr event"
    by (simp add: sync_event_def buildArtifactRequestEvent_def present_def)
  moreover from this have "connectorSupportsEvent clean_connector event" "cn_id clean_connector = ''osv''"
      "cn_handleEvent clean_connector event = Inr (Some (sample_result\<lparr> cr_findings := [] \<rparr>))"
    by (auto simp: sync_event_def buildArtifactRequestEvent_def present_def clean_connector_def osvConnector_def
        connectorSupportsEvent_def getConnectorSubscription_def connectorSupportsEcosystem_def osvSupportsEvent_def
        npm)
  ultimately have "kd_findings (snd (sync_packages ''e'' 10 ''t'' ''p'' ''osv'' clean_connector [?k] db)) = kd_findings db"
    using clean_sync_keeps_findings [of clean_connector db "''e''" 10 ?k event "sample_result\<lparr> cr_findings := [] \<rparr>" "''t''" "''p''"]
    by simp
  moreover have "map pf_observed_to (fd_project (kd_findings db)) = [None]"
    unfolding db_def by code_simp
  ultimately show ?thesis by (simp add: db_def case_prod_beta)
qed

text \<open>
  The cooldown of a synchronization is exact. From the end of a synchronization of a non-empty
  package list, a further one is refused for fifteen minutes and allowed from then on, whatever the
  table held before; the number of seconds to wait that is reported lies between 1 and 900, and that
  many seconds later the synchronization is allowed.
\<close>

theorem sync_cooldown_exact:
  assumes "packages \<noteq> []"
    and "runProjectConnectorSync eventId now durationMs tenantId projectId connectorKey connector packages rows db = (outcome, rows', db')"
    and "now + durationMs \<le> t"
  shows "(loadConnectorSyncCooldown t projectId connectorKey rows' = None) = (now + durationMs + 900000 \<le> t) \<and>
    (\<forall>s. loadConnectorSyncCooldown t projectId connectorKey rows' = Some s \<longrightarrow>
       1 \<le> s \<and> s \<le> 900 \<and> loadConnectorSyncCooldown (t + s * 1000) projectId connectorKey rows' = None)"
proof -
  obtain n where rows': "rows' = upsert_row sync_key (sync_merge n) n rows"
    and n: "sy_last_synced_at n = now + durationMs" "sync_key n = Some (projectId, connectorKey)"
    using assms(1,2) by (auto simp: runProjectConnectorSync_def Let_def case_prod_beta sync_key_def)
  have "\<exists>r. first_row (\<lambda>r. sy_project_id r = projectId \<and> sy_connector_key r = connectorKey) rows' = Some r \<and>
      sy_last_synced_at r = now + durationMs"
  proof (cases "list_ex (\<lambda>r. sync_key r = Some (projectId, connectorKey)) rows")
    case True
    have "find (\<lambda>r. sync_key r = Some (projectId, connectorKey))
        (map (\<lambda>r. if sync_key r = Some (projectId, connectorKey) then sync_merge n r else r) rows) =
        map_option (sync_merge n) (find (\<lambda>r. sync_key r = Some (projectId, connectorKey)) rows)" for rows
      by (induction rows) (auto simp: sync_key_def sync_merge_def)
    moreover obtain r where "find (\<lambda>r. sync_key r = Some (projectId, connectorKey)) rows = Some r"
      using True by (metis find_exists list_ex_iff)
    ultimately show ?thesis
      using True n by (simp add: rows' upsert_row_def first_row_def sync_key_def) (simp add: sync_merge_def)
  next
    case False
    then have "find (\<lambda>r. sy_project_id r = projectId \<and> sy_connector_key r = connectorKey) rows = None"
      by (simp add: find_None_iff' list_ex_iff sync_key_def)
    then have "find (\<lambda>r. sy_project_id r = projectId \<and> sy_connector_key r = connectorKey) (rows @ [n]) = Some n"
      using n by (induction rows) (auto simp: sync_key_def split: if_splits)
    with False n show ?thesis by (simp add: rows' upsert_row_def first_row_def)
  qed
  then have eq: "loadConnectorSyncCooldown u projectId connectorKey rows' =
      (if u - (now + durationMs) \<ge> 900000 then None
       else Some \<lceil>(of_int (900000 - (u - (now + durationMs))) / 1000 :: rat)\<rceil>)" for u
    by (auto simp: loadConnectorSyncCooldown_def SYNC_COOLDOWN_MS_def Let_def)
  define w where "w = 900000 - (t - (now + durationMs))"
  have w: "w \<le> 900000" using assms(3) by (simp add: w_def)
  define s where "s = \<lceil>(of_int w / 1000 :: rat)\<rceil>"
  have s: "of_int w / 1000 \<le> (of_int s :: rat)" "(of_int s :: rat) < of_int w / 1000 + 1"
    unfolding s_def by linarith+
  then have "(of_int w :: rat) \<le> of_int (s * 1000)" by simp
  then have late: "w \<le> s * 1000" by (simp only: of_int_le_iff)
  have "s \<le> 900"
  proof -
    have "(of_int s :: rat) < of_int 901" using s(2) w by simp
    then show ?thesis by (simp only: of_int_less_iff)
  qed
  moreover have "1 \<le> s" if "0 < w" using late that by linarith
  ultimately show ?thesis
    unfolding eq using late by (auto simp: s_def w_def)
qed

theorem sync_cooldown_exact_witness:
  "let (outcome, rows, db) = runProjectConnectorSync ''e'' 100 5 ''t'' ''p'' ''osv'' clean_connector
         [\<lparr> sk_packageId = ''u'', sk_packageVersionId = ''uu'', sk_ecosystem = ''npm'', sk_name = ''left-pad'', sk_version = ''1.0.0'' \<rparr>]
         [] empty_connector_db
   in loadConnectorSyncCooldown 200 ''p'' ''osv'' rows \<noteq> None \<and> loadConnectorSyncCooldown 900105 ''p'' ''osv'' rows = None"
proof -
  let ?k = "[\<lparr> sk_packageId = ''u'', sk_packageVersionId = ''uu'', sk_ecosystem = ''npm'', sk_name = ''left-pad'', sk_version = ''1.0.0'' \<rparr>]"
  obtain outcome rows db where
    run: "runProjectConnectorSync ''e'' 100 5 ''t'' ''p'' ''osv'' clean_connector ?k [] empty_connector_db = (outcome, rows, db)"
    by (rule prod_cases3)
  show ?thesis
    using sync_cooldown_exact [OF _ run, of 200] sync_cooldown_exact [OF _ run, of 900105] by (simp add: run)
qed

end
