(* ===== verification/Violations.thy ===== *)
theory Violations
  imports Decision Findings Identity
begin

text \<open>
  The audit trail of a check, \<open>recordPolicyEvaluation\<close> and \<open>recordPolicyEvaluationWithViolations\<close> of
  \<open>connect/check-service.ts\<close>, with the tables of \<open>db/schema/events.ts\<close>: the evaluation, its policies
  and rules, the violations with their occurrences, and the findings that are their evidence.

  The two unique indexes the transaction has to respect are modelled as such: an insert that breaks
  one makes the transaction fail, and a failed transaction leaves the database as it was.
\<close>

section \<open>Tables\<close>

record violation_row =
  vi_id :: string
  vi_tenant_id :: string
  vi_project_id :: string
  vi_rule_id :: "string option"
  vi_policy_id :: "string option"
  vi_policy_rule_binding_id :: "string option"
  vi_policy_project_binding_id :: "string option"
  vi_recommended_remediation :: jsval
  vi_entity_type :: string
  vi_package_id :: "string option"
  vi_package_version_id :: "string option"
  vi_severity :: jsval
  vi_code :: jsval
  vi_message :: string
  vi_enforcement_mode :: jsval
  vi_blocked :: bool
  vi_status :: string
  vi_status_note :: "string option"
  vi_first_seen_at :: ms
  vi_last_seen_at :: ms

record evaluation_row =
  pe_id :: string
  pe_tenant_id :: string
  pe_project_id :: string
  pe_entity_type :: string
  pe_package_id :: "string option"
  pe_package_version_id :: "string option"
  pe_decision :: string
  pe_policies_evaluated :: nat
  pe_rules_evaluated :: nat
  pe_rules_matched :: nat
  pe_connector_snapshot_meta :: "(string \<times> snapshot_meta) list"
  pe_field_values_at_evaluation :: field_map
  pe_duration_ms :: int
  pe_event_id :: "string option"
  pe_evaluated_at :: ms

record evaluation_policy_row =
  pp_tenant_id :: string
  pp_project_id :: string
  pp_evaluation_id :: string
  pp_policy_id :: string
  pp_policy_project_binding_id :: "string option"
  pp_effective_enforcement_mode :: jsval
  pp_result :: string
  pp_order_index :: nat

record evaluation_rule_row =
  pr_tenant_id :: string
  pr_project_id :: string
  pr_evaluation_id :: string
  pr_policy_id :: string
  pr_policy_rule_binding_id :: string
  pr_rule_id :: string
  pr_policy_project_binding_id :: "string option"
  pr_matched :: bool
  pr_result :: string

record occurrence_row =
  vo_id :: string
  vo_tenant_id :: string
  vo_project_id :: string
  vo_violation_id :: string
  vo_evaluation_id :: string
  vo_project_token_id :: "string option"
  vo_source_event_id :: "string option"
  vo_status_at_occurrence :: string
  vo_suppression_id :: "string option"
  vo_occurred_at :: ms

record violation_finding_row =
  vf_tenant_id :: string
  vf_project_id :: string
  vf_violation_id :: string
  vf_project_finding_id :: string
  vf_finding_version_id :: string
  vf_connector_cache_id :: "string option"
  vf_relationship_type :: string

record suppression_row =
  sp_id :: string
  sp_tenant_id :: string
  sp_project_id :: "string option"
  sp_package_id :: "string option"
  sp_package_version_id :: "string option"
  sp_rule_key :: "string option"
  sp_expires_at :: "ms option"
  sp_suppressed_at :: ms
  sp_suppressed_by_user_id :: "string option"
  sp_created_by_user_id :: "string option"
  sp_reason :: "string option"

record evaluation_db =
  ve_evaluations :: "evaluation_row list"
  ve_policies :: "evaluation_policy_row list"
  ve_rules :: "evaluation_rule_row list"
  ve_violations :: "violation_row list"
  ve_occurrences :: "occurrence_row list"
  ve_links :: "violation_finding_row list"
  ve_suppressions :: "suppression_row list"
  ve_uuids :: uuid_source

text \<open>The unique index \<open>violations_active_package_idx\<close>, over the open and suppressed rows.\<close>

type_synonym violation_key =
  "string \<times> string \<times> string \<times> string option \<times> string option \<times> string option \<times> string option \<times>
   string option \<times> string option \<times> jsval \<times> jsval"

definition active_status :: "string \<Rightarrow> bool" where
  "active_status s = (s = ''open'' \<or> s = ''suppressed'')"

definition violation_index :: "violation_row \<Rightarrow> violation_key" where
  "violation_index v =
     (vi_tenant_id v, vi_project_id v, vi_entity_type v, vi_package_id v, vi_package_version_id v,
      vi_policy_id v, vi_rule_id v, vi_policy_rule_binding_id v, vi_policy_project_binding_id v,
      vi_enforcement_mode v, vi_code v)"

definition active_key :: "violation_row \<Rightarrow> violation_key option" where
  "active_key v = (if active_status (vi_status v) then Some (violation_index v) else None)"

definition occurrence_key :: "occurrence_row \<Rightarrow> (string \<times> string) option" where
  "occurrence_key r = Some (vo_violation_id r, vo_evaluation_id r)"

definition link_key :: "violation_finding_row \<Rightarrow> (string \<times> string \<times> string) option" where
  "link_key r = Some (vf_violation_id r, vf_project_finding_id r, vf_finding_version_id r)"

section \<open>The evaluation\<close>

record violation_for_write = collected_violation +
  vw_project_token_id :: "string option"
  vw_tenant_id :: string
  vw_project_id :: string
  vw_entity_type :: string
  vw_evaluation_id :: string
  vw_evaluated_at :: ms

record evaluation_opts =
  eo_evaluationId :: string
  eo_tenant_id :: string
  eo_project_id :: string
  eo_artifactIdentity :: artifact_identity
  eo_decision :: string
  eo_policiesEvaluated :: nat
  eo_rulesEvaluated :: nat
  eo_rulesMatched :: nat
  eo_connectorSnapshotMeta :: "(string \<times> snapshot_meta) list"
  eo_durationMs :: int
  eo_eventId :: "string option"
  eo_fieldValuesAtEvaluation :: field_map

definition evaluation_of :: "ms \<Rightarrow> evaluation_opts \<Rightarrow> evaluation_row" where
  "evaluation_of evaluatedAt opts =
     \<lparr> pe_id = eo_evaluationId opts, pe_tenant_id = eo_tenant_id opts, pe_project_id = eo_project_id opts,
       pe_entity_type = ''artifact'', pe_package_id = ai_package_id (eo_artifactIdentity opts),
       pe_package_version_id = ai_package_version_id (eo_artifactIdentity opts),
       pe_decision = eo_decision opts, pe_policies_evaluated = eo_policiesEvaluated opts,
       pe_rules_evaluated = eo_rulesEvaluated opts, pe_rules_matched = eo_rulesMatched opts,
       pe_connector_snapshot_meta = eo_connectorSnapshotMeta opts,
       pe_field_values_at_evaluation = eo_fieldValuesAtEvaluation opts, pe_duration_ms = eo_durationMs opts,
       pe_event_id = eo_eventId opts, pe_evaluated_at = evaluatedAt \<rparr>"

definition recordPolicyEvaluation :: "ms \<Rightarrow> evaluation_opts \<Rightarrow> evaluation_db \<Rightarrow> evaluation_db" where
  "recordPolicyEvaluation now opts db =
     db\<lparr> ve_evaluations := ve_evaluations db @ [evaluation_of now opts] \<rparr>"

definition policy_rows :: "evaluation_opts \<Rightarrow> policy_snapshot \<Rightarrow> violation_for_write list \<Rightarrow> evaluation_policy_row list" where
  "policy_rows opts snapshot collected =
     (let blocking = map cv_policy_id (filter (\<lambda>v. cv_blocked v \<and> cv_policy_id v \<noteq> []) collected)
      in map (\<lambda>(index, policy).
           \<lparr> pp_tenant_id = eo_tenant_id opts, pp_project_id = eo_project_id opts,
             pp_evaluation_id = eo_evaluationId opts, pp_policy_id = rp_id policy,
             pp_policy_project_binding_id = rp_policyProjectBindingId policy,
             pp_effective_enforcement_mode = rp_enforcementMode policy,
             pp_result = (if rp_id policy \<in> set blocking then ''block'' else ''allow''),
             pp_order_index = index \<rparr>)
         (zip [0..<length (ps_policies snapshot)] (ps_policies snapshot)))"

text \<open>The last collected violation of a binding, as \<open>Map.set\<close> keeps it.\<close>

definition matched_violation :: "violation_for_write list \<Rightarrow> string \<Rightarrow> violation_for_write option" where
  "matched_violation collected bindingId =
     find (\<lambda>v. cv_policy_rule_binding_id v \<noteq> [] \<and> cv_policy_rule_binding_id v = bindingId) (rev collected)"

definition rule_rows :: "evaluation_opts \<Rightarrow> policy_snapshot \<Rightarrow> violation_for_write list \<Rightarrow> evaluation_rule_row list" where
  "rule_rows opts snapshot collected =
     map (\<lambda>rule. let matched = matched_violation collected (rr_policyRuleBindingId rule)
        in \<lparr> pr_tenant_id = eo_tenant_id opts, pr_project_id = eo_project_id opts,
             pr_evaluation_id = eo_evaluationId opts, pr_policy_id = rr_policyId rule,
             pr_policy_rule_binding_id = rr_policyRuleBindingId rule, pr_rule_id = rr_id rule,
             pr_policy_project_binding_id = rr_policyProjectBindingId rule,
             pr_matched = (matched \<noteq> None),
             pr_result = (case matched of None \<Rightarrow> ''pass''
                          | Some v \<Rightarrow> if cv_blocked v then ''block'' else ''advisory'') \<rparr>)
       (ps_allRules snapshot)"

section \<open>Violations\<close>

definition current_evidence ::
    "findings_db \<Rightarrow> evaluation_opts \<Rightarrow> ms \<Rightarrow> (string \<times> string \<times> string option) list" where
  "current_evidence fdb opts evaluatedAt =
     (case ai_package_version_id (eo_artifactIdentity opts) of
        None \<Rightarrow> []
      | Some vid \<Rightarrow>
          concat (map (\<lambda>p. map (\<lambda>v. (pf_id p, pf_current_finding_version_id p, fv_connector_cache_id v))
              (filter (\<lambda>v. pf_current_finding_version_id p = fv_id v) (fd_versions fdb)))
            (filter (\<lambda>p. pf_project_id p = eo_project_id opts \<and> pf_tenant_id p = eo_tenant_id opts \<and>
                pf_package_version_id p = Some vid \<and>
                (case pf_observed_to p of None \<Rightarrow> True | Some t \<Rightarrow> evaluatedAt < t)) (fd_project fdb))))"

definition active_suppressions :: "evaluation_db \<Rightarrow> evaluation_opts \<Rightarrow> ms \<Rightarrow> suppression_row list" where
  "active_suppressions db opts evaluatedAt =
     filter (\<lambda>s. sp_tenant_id s = eo_tenant_id opts \<and>
        sp_package_id s = ai_package_id (eo_artifactIdentity opts) \<and>
        sp_package_version_id s = ai_package_version_id (eo_artifactIdentity opts) \<and>
        (case sp_expires_at s of None \<Rightarrow> True | Some t \<Rightarrow> evaluatedAt < t)) (ve_suppressions db)"

definition matchingSuppression :: "suppression_row list \<Rightarrow> violation_for_write \<Rightarrow> suppression_row option" where
  "matchingSuppression suppressed violation =
     find (\<lambda>row. \<not> (sp_project_id row \<noteq> None \<and> sp_project_id row \<noteq> Some (vw_project_id violation)) \<and>
                 \<not> (sp_rule_key row \<noteq> None \<and> sp_rule_key row \<noteq> Some (cv_rule_key violation))) suppressed"

definition write_status :: "suppression_row list \<Rightarrow> violation_for_write \<Rightarrow> string" where
  "write_status suppressed violation =
     (if matchingSuppression suppressed violation \<noteq> None then ''suppressed'' else ''open'')"

definition write_index :: "artifact_identity \<Rightarrow> violation_for_write \<Rightarrow> violation_key" where
  "write_index identity v =
     (vw_tenant_id v, vw_project_id v, vw_entity_type v, ai_package_id identity, ai_package_version_id identity,
      Some (cv_policy_id v), Some (cv_rule_id v), Some (cv_policy_rule_binding_id v),
      cv_policy_project_binding_id v, cv_enforcement_mode v, cv_code v)"

text \<open>Suppressed rows before open ones, the latest first.\<close>

definition active_order :: "violation_row \<Rightarrow> nat \<times> int" where
  "active_order r = (if vi_status r = ''suppressed'' then 0 else 1, - vi_last_seen_at r)"

definition activeViolation :: "artifact_identity \<Rightarrow> violation_for_write \<Rightarrow> violation_row list \<Rightarrow> violation_row option" where
  "activeViolation identity v rows =
     first_by active_order
       (\<lambda>r. violation_index r = write_index identity v \<and> active_status (vi_status r)) rows"

definition new_violation :: "string \<Rightarrow> artifact_identity \<Rightarrow> string \<Rightarrow> violation_for_write \<Rightarrow> violation_row" where
  "new_violation rowId identity status v =
     \<lparr> vi_id = rowId, vi_tenant_id = vw_tenant_id v, vi_project_id = vw_project_id v,
       vi_rule_id = Some (cv_rule_id v), vi_policy_id = Some (cv_policy_id v),
       vi_policy_rule_binding_id = Some (cv_policy_rule_binding_id v),
       vi_policy_project_binding_id = cv_policy_project_binding_id v,
       vi_recommended_remediation = cv_recommended_remediation v, vi_entity_type = vw_entity_type v,
       vi_package_id = ai_package_id identity, vi_package_version_id = ai_package_version_id identity,
       vi_severity = cv_severity v, vi_code = cv_code v, vi_message = cv_message v,
       vi_enforcement_mode = cv_enforcement_mode v, vi_blocked = cv_blocked v, vi_status = status,
       vi_status_note = None, vi_first_seen_at = vw_evaluated_at v, vi_last_seen_at = vw_evaluated_at v \<rparr>"

definition refresh_violation :: "artifact_identity \<Rightarrow> string \<Rightarrow> violation_for_write \<Rightarrow> violation_row \<Rightarrow> violation_row" where
  "refresh_violation identity status v r =
     r\<lparr> vi_rule_id := Some (cv_rule_id v), vi_policy_id := Some (cv_policy_id v),
        vi_policy_rule_binding_id := Some (cv_policy_rule_binding_id v),
        vi_policy_project_binding_id := cv_policy_project_binding_id v,
        vi_recommended_remediation := cv_recommended_remediation v,
        vi_package_id := ai_package_id identity, vi_package_version_id := ai_package_version_id identity,
        vi_severity := cv_severity v, vi_message := cv_message v, vi_blocked := cv_blocked v,
        vi_status := status, vi_last_seen_at := vw_evaluated_at v \<rparr>"

definition save_violation ::
    "artifact_identity \<Rightarrow> string \<Rightarrow> violation_for_write \<Rightarrow> evaluation_db \<Rightarrow> js_error + (string \<times> evaluation_db)" where
  "save_violation identity status v db =
     (case activeViolation identity v (ve_violations db) of
        Some r \<Rightarrow> Inr (vi_id r, db\<lparr> ve_violations := update_where (\<lambda>x. vi_id x = vi_id r)
                        (refresh_violation identity status v) (ve_violations db) \<rparr>)
      | None \<Rightarrow>
          let (rowId, uuids) = draw (ve_uuids db);
              new = new_violation rowId identity status v
          in if list_ex (\<lambda>r. active_key r = active_key new) (ve_violations db)
             then Inl (AppError ''violations_active_package_idx'')
             else Inr (rowId, db\<lparr> ve_violations := ve_violations db @ [new], ve_uuids := uuids \<rparr>))"

definition insert_occurrence :: "occurrence_row \<Rightarrow> evaluation_db \<Rightarrow> js_error + evaluation_db" where
  "insert_occurrence row db =
     (if list_ex (\<lambda>r. occurrence_key r = occurrence_key row) (ve_occurrences db)
      then Inl (AppError ''violation_occurrences_violation_evaluation_idx'')
      else Inr (db\<lparr> ve_occurrences := ve_occurrences db @ [row] \<rparr>))"

definition link_finding :: "violation_for_write \<Rightarrow> string \<Rightarrow> violation_finding_row list \<Rightarrow>
    string \<times> string \<times> string option \<Rightarrow> violation_finding_row list" where
  "link_finding v violationId rows evidence =
     (let (pfid, fvid, cacheId) = evidence;
          row = \<lparr> vf_tenant_id = vw_tenant_id v, vf_project_id = vw_project_id v, vf_violation_id = violationId,
                  vf_project_finding_id = pfid, vf_finding_version_id = fvid, vf_connector_cache_id = cacheId,
                  vf_relationship_type = ''evidence'' \<rparr>
      in if list_ex (\<lambda>r. link_key r = link_key row) rows then rows else rows @ [row])"

definition write_violation ::
    "evaluation_opts \<Rightarrow> suppression_row list \<Rightarrow> (string \<times> string \<times> string option) list \<Rightarrow>
     violation_for_write \<Rightarrow> evaluation_db \<Rightarrow> js_error + evaluation_db" where
  "write_violation opts suppressed evidence v db =
     (let status = write_status suppressed v
      in sum_bind (save_violation (eo_artifactIdentity opts) status v db) (\<lambda>(violationId, db1).
           let (occurrenceId, uuids) = draw (ve_uuids db1);
               row = \<lparr> vo_id = occurrenceId, vo_tenant_id = vw_tenant_id v, vo_project_id = vw_project_id v,
                       vo_violation_id = violationId, vo_evaluation_id = vw_evaluation_id v,
                       vo_project_token_id = vw_project_token_id v, vo_source_event_id = eo_eventId opts,
                       vo_status_at_occurrence = status,
                       vo_suppression_id = map_option sp_id (matchingSuppression suppressed v),
                       vo_occurred_at = vw_evaluated_at v \<rparr>
           in sum_bind (insert_occurrence row (db1\<lparr> ve_uuids := uuids \<rparr>)) (\<lambda>db2.
                Inr (db2\<lparr> ve_links := foldl (link_finding v violationId) (ve_links db2) evidence \<rparr>))))"

fun write_violations ::
    "evaluation_opts \<Rightarrow> suppression_row list \<Rightarrow> (string \<times> string \<times> string option) list \<Rightarrow>
     violation_for_write list \<Rightarrow> evaluation_db \<Rightarrow> js_error + evaluation_db" where
  "write_violations opts suppressed evidence [] db = Inr db"
| "write_violations opts suppressed evidence (v # vs) db =
     sum_bind (write_violation opts suppressed evidence v db) (write_violations opts suppressed evidence vs)"

definition evaluation_transaction ::
    "ms \<Rightarrow> evaluation_opts \<Rightarrow> policy_snapshot \<Rightarrow> violation_for_write list \<Rightarrow> findings_db \<Rightarrow> evaluation_db \<Rightarrow>
     js_error + evaluation_db" where
  "evaluation_transaction evaluatedAt opts snapshot collected fdb db =
     (let db1 = db\<lparr> ve_evaluations := ve_evaluations db @ [evaluation_of evaluatedAt opts],
                    ve_policies := ve_policies db @ policy_rows opts snapshot collected,
                    ve_rules := ve_rules db @ rule_rows opts snapshot collected \<rparr>
      in if collected = [] then Inr db1
         else write_violations opts (active_suppressions db1 opts evaluatedAt)
                (current_evidence fdb opts evaluatedAt) collected db1)"

definition recordPolicyEvaluationWithViolations ::
    "ms \<Rightarrow> evaluation_opts \<Rightarrow> policy_snapshot \<Rightarrow> violation_for_write list \<Rightarrow> findings_db \<Rightarrow> evaluation_db \<Rightarrow> evaluation_db" where
  "recordPolicyEvaluationWithViolations now opts snapshot collected fdb db =
     (case evaluation_transaction now opts snapshot collected fdb db of Inl _ \<Rightarrow> db | Inr db' \<Rightarrow> db')"

section \<open>The violation table as an upsert\<close>

definition violation_merge :: "violation_row \<Rightarrow> violation_row \<Rightarrow> violation_row" where
  "violation_merge new r =
     r\<lparr> vi_rule_id := vi_rule_id new, vi_policy_id := vi_policy_id new,
        vi_policy_rule_binding_id := vi_policy_rule_binding_id new,
        vi_policy_project_binding_id := vi_policy_project_binding_id new,
        vi_recommended_remediation := vi_recommended_remediation new,
        vi_package_id := vi_package_id new, vi_package_version_id := vi_package_version_id new,
        vi_severity := vi_severity new, vi_message := vi_message new, vi_blocked := vi_blocked new,
        vi_status := vi_status new, vi_last_seen_at := vi_last_seen_at new \<rparr>"

interpretation active_violations: upserting active_key violation_merge
  by unfold_locales
    (simp add: active_key_def violation_index_def violation_merge_def split: if_splits)

definition evaluation_ok :: "evaluation_db \<Rightarrow> bool" where
  "evaluation_ok db =
     (source_ok (ve_uuids db) \<and> ids_ok vi_id (ve_uuids db) (ve_violations db) \<and>
      unique_key active_key (ve_violations db) \<and> unique_key occurrence_key (ve_occurrences db) \<and>
      unique_key link_key (ve_links db))"

lemma refresh_merge: "refresh_violation identity status v = violation_merge (new_violation x identity status v)"
  by (rule ext) (simp add: refresh_violation_def violation_merge_def new_violation_def)

lemma new_violation_key:
  "active_status status \<Longrightarrow> active_key (new_violation x identity status v) = Some (write_index identity v)"
  by (simp add: active_key_def violation_index_def new_violation_def write_index_def)

lemma activeViolation_None:
  "activeViolation identity v rows = None \<longleftrightarrow> (\<forall>r \<in> set rows. active_key r \<noteq> Some (write_index identity v))"
  by (auto simp: activeViolation_def first_by_None active_key_def)

lemma activeViolation_Some:
  "activeViolation identity v rows = Some r \<Longrightarrow> r \<in> set rows \<and> active_key r = Some (write_index identity v)"
  unfolding activeViolation_def by (drule first_by_SomeD) (simp add: active_key_def)

text \<open>Under the invariant saving a violation never fails and is the upsert under the active key.\<close>

lemma save_violation_spec:
  assumes ok: "evaluation_ok db" and st: "active_status status"
  obtains x vid db' where "save_violation identity status v db = Inr (vid, db')"
    and "ve_violations db' = upsert_row active_key (violation_merge (new_violation x identity status v))
           (new_violation x identity status v) (ve_violations db)"
    and "evaluation_ok db'" and "\<exists>r \<in> set (ve_violations db'). vi_id r = vid \<and> active_key r = Some (write_index identity v)"
    and "ve_occurrences db' = ve_occurrences db" and "ve_links db' = ve_links db"
proof (cases "activeViolation identity v (ve_violations db)")
  case (Some r)
  note r = activeViolation_Some [OF Some]
  let ?new = "new_violation [] identity status v" and ?rows = "ve_violations db"
  have same: "vi_id x = vi_id r \<longleftrightarrow> active_key x = active_key ?new" if "x \<in> set ?rows" for x
    using ids_ok_inj [of vi_id "ve_uuids db" ?rows x r] unique_key_inj [of active_key ?rows x r] r that ok
    by (auto simp: evaluation_ok_def new_violation_key [OF st])
  have "list_ex (\<lambda>x. active_key x = active_key ?new) ?rows"
    using r by (auto simp: list_ex_iff new_violation_key [OF st])
  then have up: "update_where (\<lambda>x. vi_id x = vi_id r) (refresh_violation identity status v) ?rows =
      upsert_row active_key (violation_merge ?new) ?new ?rows"
    using same by (simp add: upsert_row_def update_where_def new_violation_key [OF st] refresh_merge [of identity status v "[]"])
  let ?db = "db\<lparr> ve_violations := upsert_row active_key (violation_merge ?new) ?new ?rows \<rparr>"
  have ids: "ids_ok vi_id (ve_uuids db) (upsert_row active_key (violation_merge ?new) ?new ?rows)"
    using ok unfolding up [symmetric] update_where_def
    by (subst ids_ok_map_same) (simp_all add: evaluation_ok_def refresh_violation_def)
  show thesis
  proof (rule that [of "vi_id r" ?db "[]"])
    show "save_violation identity status v db = Inr (vi_id r, ?db)"
      by (simp add: save_violation_def Some up)
    show "evaluation_ok ?db"
      using ok ids by (simp add: evaluation_ok_def active_violations.upsert_unique)
    have "violation_merge ?new r \<in> set (ve_violations ?db)"
      using r by (auto simp: up [symmetric] update_where_def refresh_merge [of identity status v "[]"])
    moreover have "active_key (violation_merge ?new r) = Some (write_index identity v)"
      using active_violations.merge_key [of r ?new] r by (simp add: new_violation_key [OF st])
    ultimately show "\<exists>x \<in> set (ve_violations ?db). vi_id x = vi_id r \<and> active_key x = Some (write_index identity v)"
      by (intro bexI [of _ "violation_merge ?new r"]) (simp_all add: violation_merge_def)
  qed simp_all
next
  case None
  obtain x u where d: "draw (ve_uuids db) = (x, u)" by fastforce
  let ?new = "new_violation x identity status v"
  have free: "\<forall>r \<in> set (ve_violations db). active_key r \<noteq> active_key ?new"
    using None by (simp add: activeViolation_None new_violation_key [OF st])
  then have nex: "\<not> list_ex (\<lambda>r. active_key r = active_key ?new) (ve_violations db)"
    by (simp add: list_ex_iff)
  let ?db = "db\<lparr> ve_violations := ve_violations db @ [?new], ve_uuids := u \<rparr>"
  show thesis
  proof (rule that [of x ?db x])
    show "save_violation identity status v db = Inr (x, ?db)"
      using nex by (simp add: save_violation_def None d)
    show "ve_violations ?db = upsert_row active_key (violation_merge ?new) ?new (ve_violations db)"
      using nex by (simp add: upsert_row_def)
    have "vi_id ?new = x" by (simp add: new_violation_def)
    then show "evaluation_ok ?db"
      using ok d free by (simp add: evaluation_ok_def unique_key_append draw_source ids_ok_append [OF _ d])
    show "\<exists>r \<in> set (ve_violations ?db). vi_id r = x \<and> active_key r = Some (write_index identity v)"
      using new_violation_key [OF st, of x identity v] by (simp add: new_violation_def)
  qed simp_all
qed

section \<open>The loop over the violations\<close>

text \<open>A violation is on record: its one active row, and the occurrence of this evaluation.\<close>

definition on_record :: "artifact_identity \<Rightarrow> suppression_row list \<Rightarrow> evaluation_db \<Rightarrow> violation_for_write \<Rightarrow> bool" where
  "on_record identity suppressed db v \<longleftrightarrow>
     (\<exists>r \<in> set (ve_violations db). active_key r = Some (write_index identity v) \<and>
        vi_status r = write_status suppressed v \<and> vi_blocked r = cv_blocked v \<and>
        vi_severity r = cv_severity v \<and> vi_message r = cv_message v \<and>
        (\<exists>c \<in> set (ve_occurrences db). vo_violation_id c = vi_id r \<and>
           vo_evaluation_id c = vw_evaluation_id v \<and> vo_status_at_occurrence c = write_status suppressed v))"

text \<open>The occurrences of evaluation \<open>eid\<close> so far belong to violations with the keys \<open>done\<close>.\<close>

definition seen_only :: "string \<Rightarrow> violation_key set \<Rightarrow> evaluation_db \<Rightarrow> bool" where
  "seen_only eid done db \<longleftrightarrow>
     (\<forall>c \<in> set (ve_occurrences db). vo_evaluation_id c = eid \<longrightarrow>
        (\<exists>r \<in> set (ve_violations db). vi_id r = vo_violation_id c \<and> active_key r \<in> Some ` done))"

lemma write_status_active: "active_status (write_status suppressed v)"
  by (simp add: write_status_def active_status_def)

lemma upserted_row:
  assumes "r \<in> set (upsert_row active_key (violation_merge (new_violation x identity status v))
             (new_violation x identity status v) rows)"
    and "active_key r = Some (write_index identity v)" and "active_status status"
  shows "vi_status r = status \<and> vi_blocked r = cv_blocked v \<and> vi_severity r = cv_severity v \<and> vi_message r = cv_message v"
proof -
  let ?new = "new_violation x identity status v"
  have "r = ?new \<or> (\<exists>s. r = violation_merge ?new s)"
    using active_violations.upsert_same_cases [OF assms(1)] assms(2) new_violation_key [OF assms(3), of x identity v]
    by (metis option.distinct(1))
  then show ?thesis
    by (elim disjE exE) (simp_all add: violation_merge_def new_violation_def)
qed

lemma link_findings_unique:
  "unique_key link_key rows \<Longrightarrow> unique_key link_key (foldl (link_finding v vid) rows evidence)"
  by (induction evidence arbitrary: rows)
    (auto simp: link_finding_def Let_def unique_key_append list_ex_iff split: prod.splits)

lemma write_violation_spec:
  assumes ok: "evaluation_ok db" and seen: "seen_only (vw_evaluation_id v) done db"
    and new: "write_index (eo_artifactIdentity opts) v \<notin> done"
  obtains db' where "write_violation opts suppressed evidence v db = Inr db'" and "evaluation_ok db'"
    and "seen_only (vw_evaluation_id v) (insert (write_index (eo_artifactIdentity opts) v) done) db'"
    and "on_record (eo_artifactIdentity opts) suppressed db' v"
    and "\<And>w. on_record (eo_artifactIdentity opts) suppressed db w \<Longrightarrow>
           write_index (eo_artifactIdentity opts) w \<noteq> write_index (eo_artifactIdentity opts) v \<Longrightarrow>
           on_record (eo_artifactIdentity opts) suppressed db' w"
proof -
  let ?id = "eo_artifactIdentity opts" and ?st = "write_status suppressed v"
  let ?k = "write_index ?id v"
  from save_violation_spec [OF ok write_status_active] obtain x vid db1 where
      save: "save_violation ?id ?st v db = Inr (vid, db1)"
    and rows: "ve_violations db1 = upsert_row active_key (violation_merge (new_violation x ?id ?st v))
           (new_violation x ?id ?st v) (ve_violations db)"
    and ok1: "evaluation_ok db1" and ex: "\<exists>r \<in> set (ve_violations db1). vi_id r = vid \<and> active_key r = Some ?k"
    and same: "ve_occurrences db1 = ve_occurrences db" "ve_links db1 = ve_links db" .
  from ex obtain r where r: "r \<in> set (ve_violations db1)" "vi_id r = vid" "active_key r = Some ?k" by blast
  have keep: "s \<in> set (ve_violations db1) \<longleftrightarrow> s \<in> set (ve_violations db)" if "active_key s \<noteq> Some ?k" for s
    unfolding rows using that by (intro active_violations.upsert_other) (simp add: new_violation_key [OF write_status_active])
  have apart: "active_key s \<noteq> Some ?k" if "active_key s \<in> Some ` done" for s
    using that new by (metis imageE option.inject)
  have fresh: "vo_violation_id c \<noteq> vid" if c: "c \<in> set (ve_occurrences db)" "vo_evaluation_id c = vw_evaluation_id v" for c
  proof
    assume "vo_violation_id c = vid"
    then obtain s where s: "s \<in> set (ve_violations db)" "vi_id s = vid" "active_key s \<in> Some ` done"
      using seen c by (auto simp: seen_only_def)
    then have "s \<in> set (ve_violations db1)" using keep apart by blast
    then have "s = r" using ids_ok_inj [of vi_id "ve_uuids db1"] ok1 r s(2) by (auto simp: evaluation_ok_def)
    with s(3) r(3) apart show False by blast
  qed
  obtain oid u where d: "draw (ve_uuids db1) = (oid, u)" by fastforce
  define row where "row = \<lparr> vo_id = oid, vo_tenant_id = vw_tenant_id v, vo_project_id = vw_project_id v,
       vo_violation_id = vid, vo_evaluation_id = vw_evaluation_id v,
       vo_project_token_id = vw_project_token_id v, vo_source_event_id = eo_eventId opts,
       vo_status_at_occurrence = ?st, vo_suppression_id = map_option sp_id (matchingSuppression suppressed v),
       vo_occurred_at = vw_evaluated_at v \<rparr>"
  define db' where "db' = db1\<lparr> ve_uuids := u, ve_occurrences := ve_occurrences db @ [row],
       ve_links := foldl (link_finding v vid) (ve_links db) evidence \<rparr>"
  have free: "\<forall>c \<in> set (ve_occurrences db). occurrence_key c \<noteq> occurrence_key row"
    using fresh by (auto simp: occurrence_key_def row_def)
  then have "\<not> list_ex (\<lambda>c. occurrence_key c = occurrence_key row) (ve_occurrences db)"
    by (simp add: list_ex_iff)
  then have run: "write_violation opts suppressed evidence v db = Inr db'"
    by (simp add: write_violation_def Let_def save d row_def [symmetric] insert_occurrence_def same db'_def)
  have rv: "ve_violations db' = ve_violations db1" "ve_occurrences db' = ve_occurrences db @ [row]"
    by (simp_all add: db'_def)
  show thesis
  proof (rule that [OF run])
    show "evaluation_ok db'"
      using ok ok1 d free by (simp add: db'_def evaluation_ok_def draw_source ids_ok_draw [OF d] unique_key_append
          same link_findings_unique)
    show "seen_only (vw_evaluation_id v) (insert ?k done) db'"
      unfolding seen_only_def rv
    proof (intro ballI impI)
      fix c assume c: "c \<in> set (ve_occurrences db @ [row])" "vo_evaluation_id c = vw_evaluation_id v"
      show "\<exists>s \<in> set (ve_violations db1). vi_id s = vo_violation_id c \<and> active_key s \<in> Some ` insert ?k done"
      proof (cases "c = row")
        case True
        with r show ?thesis by (auto simp: row_def)
      next
        case False
        with c seen obtain s where s: "s \<in> set (ve_violations db)" "vi_id s = vo_violation_id c" "active_key s \<in> Some ` done"
          by (auto simp: seen_only_def)
        with keep apart have "s \<in> set (ve_violations db1)" by blast
        with s show ?thesis by auto
      qed
    qed
    show "on_record ?id suppressed db' v"
      using r upserted_row [OF r(1) [unfolded rows] r(3) write_status_active]
      by (auto simp: on_record_def rv row_def)
    show "on_record ?id suppressed db' w" if w: "on_record ?id suppressed db w" "write_index ?id w \<noteq> ?k" for w
    proof -
      from w(1) obtain s c where s: "s \<in> set (ve_violations db)" "active_key s = Some (write_index ?id w)"
        and c: "c \<in> set (ve_occurrences db)"
        and rest: "vi_status s = write_status suppressed w \<and> vi_blocked s = cv_blocked w \<and>
          vi_severity s = cv_severity w \<and> vi_message s = cv_message w"
          "vo_violation_id c = vi_id s \<and> vo_evaluation_id c = vw_evaluation_id w \<and>
           vo_status_at_occurrence c = write_status suppressed w"
        unfolding on_record_def by blast
      have "active_key s \<noteq> Some ?k" using s(2) w(2) by (simp only: option.inject not_False_eq_True)
      then have "s \<in> set (ve_violations db1)" using keep s(1) by blast
      moreover have "c \<in> set (ve_occurrences db')" using c by (simp add: rv)
      ultimately show ?thesis
        unfolding on_record_def rv(1) using s(2) rest by blast
    qed
  qed
qed

lemma write_violations_spec:
  assumes "evaluation_ok db" and "\<forall>v \<in> set vs. vw_evaluation_id v = eid" and "seen_only eid done db"
    and "distinct (map (write_index (eo_artifactIdentity opts)) vs)"
    and "write_index (eo_artifactIdentity opts) ` set vs \<inter> done = {}"
  shows "\<exists>db'. write_violations opts suppressed evidence vs db = Inr db' \<and> evaluation_ok db' \<and>
     (\<forall>v \<in> set vs. on_record (eo_artifactIdentity opts) suppressed db' v) \<and>
     (\<forall>w. on_record (eo_artifactIdentity opts) suppressed db w \<and>
          write_index (eo_artifactIdentity opts) w \<notin> write_index (eo_artifactIdentity opts) ` set vs \<longrightarrow>
          on_record (eo_artifactIdentity opts) suppressed db' w)"
  using assms
proof (induction vs arbitrary: db "done")
  case (Cons v vs)
  let ?id = "eo_artifactIdentity opts"
  have "seen_only (vw_evaluation_id v) done db" "write_index ?id v \<notin> done" using Cons.prems by auto
  from write_violation_spec [OF Cons.prems(1) this] obtain db1 where
      run: "write_violation opts suppressed evidence v db = Inr db1" and ok1: "evaluation_ok db1"
    and seen1: "seen_only (vw_evaluation_id v) (insert (write_index ?id v) done) db1"
    and rec: "on_record ?id suppressed db1 v"
    and keep: "\<And>w. on_record ?id suppressed db w \<Longrightarrow> write_index ?id w \<noteq> write_index ?id v \<Longrightarrow> on_record ?id suppressed db1 w"
    by blast
  have "\<exists>db'. write_violations opts suppressed evidence vs db1 = Inr db' \<and> evaluation_ok db' \<and>
     (\<forall>v \<in> set vs. on_record ?id suppressed db' v) \<and>
     (\<forall>w. on_record ?id suppressed db1 w \<and> write_index ?id w \<notin> write_index ?id ` set vs \<longrightarrow> on_record ?id suppressed db' w)"
    using Cons.prems seen1 by (intro Cons.IH [OF ok1, of "insert (write_index ?id v) done"]) auto
  then obtain db' where db': "write_violations opts suppressed evidence vs db1 = Inr db'" "evaluation_ok db'"
    "\<forall>v \<in> set vs. on_record ?id suppressed db' v"
    "\<forall>w. on_record ?id suppressed db1 w \<and> write_index ?id w \<notin> write_index ?id ` set vs \<longrightarrow> on_record ?id suppressed db' w"
    by blast
  have "write_index ?id v \<notin> write_index ?id ` set vs" using Cons.prems(4) by simp
  with rec db'(4) have "on_record ?id suppressed db' v" by blast
  with db' run keep show ?case by auto
qed auto

section \<open>Properties\<close>

text \<open>The violations of a decision as \<open>handleCheck\<close> passes them on.\<close>

definition violations_for_write ::
    "string \<Rightarrow> string \<Rightarrow> string \<Rightarrow> string \<Rightarrow> ms \<Rightarrow> collected_violation list \<Rightarrow> violation_for_write list" where
  "violations_for_write tenantId projectId tokenId evaluationId evaluatedAt vs =
     map (\<lambda>v. collected_violation.extend v
       (violation_for_write.fields (Some tokenId) tenantId projectId ''artifact'' evaluationId evaluatedAt)) vs"

lemma for_write_simps [simp]:
  "cv_rule_id (collected_violation.extend v (violation_for_write.fields tok ten pr ent eid t)) = cv_rule_id v"
  "cv_policy_id (collected_violation.extend v (violation_for_write.fields tok ten pr ent eid t)) = cv_policy_id v"
  "cv_policy_rule_binding_id (collected_violation.extend v (violation_for_write.fields tok ten pr ent eid t)) =
     cv_policy_rule_binding_id v"
  "cv_blocked (collected_violation.extend v (violation_for_write.fields tok ten pr ent eid t)) = cv_blocked v"
  "vw_evaluation_id (collected_violation.extend v (violation_for_write.fields tok ten pr ent eid t)) = eid"
  by (simp_all add: collected_violation.defs violation_for_write.defs)

definition same_evaluations :: "evaluation_db \<Rightarrow> evaluation_db \<Rightarrow> bool" where
  "same_evaluations db db' =
     (ve_evaluations db' = ve_evaluations db \<and> ve_policies db' = ve_policies db \<and> ve_rules db' = ve_rules db)"

lemma save_violation_tables: "save_violation identity st v db = Inr (vid, db') \<Longrightarrow> same_evaluations db db'"
  by (auto simp: save_violation_def same_evaluations_def Let_def split: prod.splits option.splits if_splits)

lemma insert_occurrence_tables: "insert_occurrence row db = Inr db' \<Longrightarrow> same_evaluations db db'"
  by (auto simp: insert_occurrence_def same_evaluations_def split: if_splits)

lemma write_violation_tables:
  assumes "write_violation opts suppressed evidence v db = Inr db'"
  shows "same_evaluations db db'"
proof -
  from assms obtain vid db1 row u db2 where "save_violation (eo_artifactIdentity opts) (write_status suppressed v) v db = Inr (vid, db1)"
      and "insert_occurrence row (db1\<lparr> ve_uuids := u \<rparr>) = Inr db2"
      and "db' = db2\<lparr> ve_links := foldl (link_finding v vid) (ve_links db2) evidence \<rparr>"
    unfolding write_violation_def Let_def sum_bind_Inr_iff case_prod_beta by (metis Inr_inject prod.collapse)
  then show ?thesis
    by (auto simp: same_evaluations_def dest!: save_violation_tables insert_occurrence_tables)
qed

lemma violation_of_simps [simp]:
  "cv_policy_rule_binding_id (violation_of r m) = rr_policyRuleBindingId r"
  "cv_blocked (violation_of r m) = rule_blocks r" "cv_policy_id (violation_of r m) = rr_policyId r"
  by (simp_all add: violation_of_def)

lemma write_violations_tables:
  "write_violations opts suppressed evidence vs db = Inr db' \<Longrightarrow> same_evaluations db db'"
  by (induction vs arbitrary: db) (auto simp: sum_bind_Inr_iff same_evaluations_def dest!: write_violation_tables)

lemma distinct_write_index:
  "distinct (map cv_policy_rule_binding_id vs) \<Longrightarrow> distinct (map (write_index identity) vs)"
  unfolding distinct_map inj_on_def write_index_def by (simp only: prod.inject option.inject) metis

lemma evaluation_transaction_spec:
  assumes ok: "evaluation_ok db" and fresh: "\<forall>c \<in> set (ve_occurrences db). vo_evaluation_id c \<noteq> eid"
    and eid: "\<forall>v \<in> set vs. vw_evaluation_id v = eid" and dist: "distinct (map cv_policy_rule_binding_id vs)"
  shows "\<exists>db'. evaluation_transaction now opts snapshot vs fdb db = Inr db' \<and> evaluation_ok db' \<and>
     ve_evaluations db' = ve_evaluations db @ [evaluation_of now opts] \<and>
     ve_policies db' = ve_policies db @ policy_rows opts snapshot vs \<and>
     ve_rules db' = ve_rules db @ rule_rows opts snapshot vs \<and>
     (\<forall>v \<in> set vs. on_record (eo_artifactIdentity opts) (active_suppressions db opts now) db' v)"
proof (cases "vs = []")
  case True
  with ok show ?thesis by (simp add: evaluation_transaction_def evaluation_ok_def Let_def)
next
  case False
  define db1 where "db1 = db\<lparr> ve_evaluations := ve_evaluations db @ [evaluation_of now opts],
     ve_policies := ve_policies db @ policy_rows opts snapshot vs, ve_rules := ve_rules db @ rule_rows opts snapshot vs \<rparr>"
  have "evaluation_ok db1" "seen_only eid {} db1" "active_suppressions db1 opts now = active_suppressions db opts now"
    using ok fresh by (simp_all add: db1_def evaluation_ok_def seen_only_def active_suppressions_def)
  with write_violations_spec [OF this(1) eid this(2) distinct_write_index [OF dist]]
  obtain db' where "write_violations opts (active_suppressions db opts now) (current_evidence fdb opts now) vs db1 = Inr db'"
    "evaluation_ok db'" "\<forall>v \<in> set vs. on_record (eo_artifactIdentity opts) (active_suppressions db opts now) db' v"
    by blast
  with False \<open>active_suppressions db1 opts now = _\<close> write_violations_tables [OF this(1)] show ?thesis
    by (simp add: evaluation_transaction_def Let_def db1_def same_evaluations_def)
qed

text \<open>
  C18: the audit transaction of a check commits and keeps the unique indexes. For an evaluation
  identifier not used before and rules bound once each, the evaluation is stored, and every
  collected violation has afterwards exactly one active row (open, or suppressed when a suppression
  matches its project and rule) with the severity, message and blocked flag of this evaluation, and
  exactly one occurrence in this evaluation.
\<close>

theorem violations_on_record:
  assumes "evaluation_ok db" and "\<forall>c \<in> set (ve_occurrences db). vo_evaluation_id c \<noteq> eid"
    and "distinct (map cv_policy_rule_binding_id vs)"
    and "collected = violations_for_write tenantId projectId tokenId eid t vs"
    and "db' = recordPolicyEvaluationWithViolations now opts snapshot collected fdb db"
  shows "evaluation_ok db' \<and> ve_evaluations db' = ve_evaluations db @ [evaluation_of now opts] \<and>
    (\<forall>v \<in> set collected. \<exists>r c.
       filter (\<lambda>x. active_key x = Some (write_index (eo_artifactIdentity opts) v)) (ve_violations db') = [r] \<and>
       filter (\<lambda>x. occurrence_key x = Some (vi_id r, eid)) (ve_occurrences db') = [c] \<and>
       vi_status r = (if matchingSuppression (active_suppressions db opts now) v = None then ''open'' else ''suppressed'') \<and>
       vo_status_at_occurrence c = vi_status r \<and>
       vi_blocked r = cv_blocked v \<and> vi_severity r = cv_severity v \<and> vi_message r = cv_message v)"
proof -
  have eid: "\<forall>v \<in> set collected. vw_evaluation_id v = eid"
    by (simp add: assms(4) violations_for_write_def)
  have dist: "distinct (map cv_policy_rule_binding_id collected)"
    using assms(3) by (simp add: assms(4) violations_for_write_def comp_def)
  from evaluation_transaction_spec [OF assms(1,2) eid dist, of now opts snapshot fdb]
  have ok: "evaluation_ok db'" and ev: "ve_evaluations db' = ve_evaluations db @ [evaluation_of now opts]"
    and rec: "\<forall>v \<in> set collected. on_record (eo_artifactIdentity opts) (active_suppressions db opts now) db' v"
    using assms(5) by (auto simp: recordPolicyEvaluationWithViolations_def)
  have "\<exists>r c.
       filter (\<lambda>x. active_key x = Some (write_index (eo_artifactIdentity opts) v)) (ve_violations db') = [r] \<and>
       filter (\<lambda>x. occurrence_key x = Some (vi_id r, eid)) (ve_occurrences db') = [c] \<and>
       vi_status r = (if matchingSuppression (active_suppressions db opts now) v = None then ''open'' else ''suppressed'') \<and>
       vo_status_at_occurrence c = vi_status r \<and>
       vi_blocked r = cv_blocked v \<and> vi_severity r = cv_severity v \<and> vi_message r = cv_message v"
    if v: "v \<in> set collected" for v
  proof -
    from rec v obtain r c where r: "r \<in> set (ve_violations db')"
        "active_key r = Some (write_index (eo_artifactIdentity opts) v)"
        "vi_status r = write_status (active_suppressions db opts now) v"
      and c: "c \<in> set (ve_occurrences db')" "vo_violation_id c = vi_id r" "vo_evaluation_id c = vw_evaluation_id v"
        "vo_status_at_occurrence c = write_status (active_suppressions db opts now) v"
      and rest: "vi_blocked r = cv_blocked v \<and> vi_severity r = cv_severity v \<and> vi_message r = cv_message v"
      unfolding on_record_def by blast
    have "occurrence_key c = Some (vi_id r, eid)" using c eid v by (simp add: occurrence_key_def)
    with r c ok show ?thesis
      using unique_key_filter_single [of active_key "ve_violations db'" r]
        unique_key_filter_single [of occurrence_key "ve_occurrences db'" c] rest
      by (intro exI [of _ r] exI [of _ c]) (simp add: evaluation_ok_def write_status_def)
  qed
  with ok ev show ?thesis by blast
qed

definition empty_evaluations :: evaluation_db where
  "empty_evaluations =
     \<lparr> ve_evaluations = [], ve_policies = [], ve_rules = [], ve_violations = [], ve_occurrences = [],
       ve_links = [], ve_suppressions = [], ve_uuids = sample_uuids \<rparr>"

definition sample_opts :: evaluation_opts where
  "sample_opts =
     \<lparr> eo_evaluationId = ''e1'', eo_tenant_id = ''t1'', eo_project_id = ''p1'', eo_artifactIdentity = sample_identity,
       eo_decision = ''block'', eo_policiesEvaluated = 1, eo_rulesEvaluated = 1, eo_rulesMatched = 1,
       eo_connectorSnapshotMeta = [], eo_durationMs = 5, eo_eventId = None, eo_fieldValuesAtEvaluation = sample_fields \<rparr>"

definition sample_violations :: "collected_violation list" where
  "sample_violations = [violation_of (sample_resolved ''enforcing'') ''blocked'']"

lemma empty_evaluations_ok: "evaluation_ok empty_evaluations"
  by (simp add: evaluation_ok_def empty_evaluations_def sample_uuids_ok)

definition sample_policy_snapshot :: policy_snapshot where
  "sample_policy_snapshot =
     \<lparr> ps_resolvedAt = 0, ps_tenantId = ''t1'', ps_projectId = ''p1'', ps_policies = [],
       ps_allRules = [sample_resolved ''enforcing''] \<rparr>"

theorem violations_on_record_witness:
  "\<exists>r \<in> set (ve_violations (recordPolicyEvaluationWithViolations 7 sample_opts sample_policy_snapshot
        (violations_for_write ''t1'' ''p1'' ''k1'' ''e1'' 7 sample_violations) empty_findings empty_evaluations)).
      vi_status r = ''open'' \<and> vi_message r = ''blocked''"
proof -
  let ?c = "violations_for_write ''t1'' ''p1'' ''k1'' ''e1'' 7 sample_violations"
  let ?db = "recordPolicyEvaluationWithViolations 7 sample_opts sample_policy_snapshot ?c empty_findings empty_evaluations"
  have fresh: "\<forall>c \<in> set (ve_occurrences empty_evaluations). vo_evaluation_id c \<noteq> ''e1''"
    by (simp add: empty_evaluations_def)
  have dist: "distinct (map cv_policy_rule_binding_id sample_violations)"
    by (simp add: sample_violations_def)
  have none: "active_suppressions empty_evaluations sample_opts 7 = []"
    by (simp add: active_suppressions_def empty_evaluations_def)
  have v: "hd ?c \<in> set ?c" "cv_message (hd ?c) = ''blocked''"
    by (simp_all add: violations_for_write_def sample_violations_def violation_of_def
        collected_violation.defs violation_for_write.defs)
  from violations_on_record [OF empty_evaluations_ok fresh dist refl refl, of 7 sample_opts sample_policy_snapshot
      "''t1''" "''p1''" "''k1''" 7 empty_findings] v(1)
  obtain r where "filter (\<lambda>x. active_key x = Some (write_index (eo_artifactIdentity sample_opts) (hd ?c))) (ve_violations ?db) = [r]"
    "vi_status r = ''open''" "vi_message r = cv_message (hd ?c)"
    unfolding none matchingSuppression_def by auto
  moreover from this(1) have "r \<in> set (ve_violations ?db)"
    by (metis (no_types, lifting) filter_eq_ConsD in_set_conv_decomp)
  ultimately show ?thesis using v(2) by auto
qed

lemma list_all2_refl': "(\<And>x. x \<in> set xs \<Longrightarrow> P x x) \<Longrightarrow> list_all2 P xs xs"
  by (induction xs) auto

lemma find_rev_distinct:
  assumes "distinct (map f xs)"
  shows "find (\<lambda>x. f x = k) (rev xs) = find (\<lambda>x. f x = k) xs"
proof -
  have "length (filter (\<lambda>x. f x = k) xs) \<le> 1"
    using assms
  proof (induction xs)
    case (Cons a xs)
    then show ?case
      by (cases "f a = k") (auto simp: filter_empty_conv image_iff)
  qed simp
  then consider "filter (\<lambda>x. f x = k) xs = []" | x where "filter (\<lambda>x. f x = k) xs = [x]"
    by (cases "filter (\<lambda>x. f x = k) xs") (auto simp: le_Suc_eq)
  then show ?thesis by cases (simp_all add: find_filter rev_filter [symmetric])
qed

lemma find_key_distinct: "distinct (map f xs) \<Longrightarrow> x \<in> set xs \<Longrightarrow> find (\<lambda>y. f y = f x) xs = Some x"
  by (induction xs) auto

text \<open>
  The audit trail says what the decision was. For rules bound once each, the row stored for a
  rule is marked matched exactly when its condition held and its action is a violation, warning or
  info; its result is \<open>block\<close> exactly when the rule blocked, and \<open>advisory\<close> for the other matches. The
  row of a policy says \<open>block\<close> exactly when one of its rules blocked, and the check was blocked exactly
  when some rule row says so.
\<close>

theorem audit_trail_consistent:
  assumes ok: "list_all rule_ok rules" and dist: "distinct (map rr_policyRuleBindingId rules)"
    and ids: "\<forall>r \<in> set rules. rr_policyRuleBindingId r \<noteq> [] \<and> rr_policyId r \<noteq> []"
    and d: "evaluatePolicyDecision rules fm ttl mode = Inr d"
    and snap: "ps_allRules snapshot = rules"
    and col: "collected = violations_for_write tenantId projectId tokenId eid t (ed_collectedViolations d)"
  shows "list_all2 (\<lambda>rule row. pr_policy_rule_binding_id row = rr_policyRuleBindingId rule \<and>
             (pr_matched row \<longleftrightarrow> rule_matches fm rule \<and> rule_recorded rule) \<and>
             pr_result row = (if rule_matches fm rule \<and> rule_blocks rule then ''block''
                              else if rule_matches fm rule \<and> rule_recorded rule then ''advisory'' else ''pass''))
           rules (rule_rows opts snapshot collected) \<and>
         list_all2 (\<lambda>policy row. pp_policy_id row = rp_id policy \<and>
             pp_result row = (if \<exists>r \<in> set rules. rr_policyId r = rp_id policy \<and> rule_matches fm r \<and> rule_blocks r
                              then ''block'' else ''allow''))
           (ps_policies snapshot) (policy_rows opts snapshot collected) \<and>
         (ed_decision d = BLOCK \<longleftrightarrow> (\<exists>row \<in> set (rule_rows opts snapshot collected). pr_result row = ''block''))"
proof -
  let ?w = "\<lambda>v. collected_violation.extend v (violation_for_write.fields (Some tokenId) tenantId projectId ''artifact'' eid t)"
  let ?hit = "filter (\<lambda>r. rule_matches fm r \<and> rule_recorded r) rules"
  have deq: "d = decision_spec rules fm ttl mode" using evaluatePolicyDecision_spec [OF ok] d by simp
  have col': "collected = map (\<lambda>r. ?w (violation_of r (message_of fm r))) ?hit"
    by (simp add: col violations_for_write_def deq decision_spec_def Let_def conj_commute)
  have matched: "matched_violation collected (rr_policyRuleBindingId r) =
      (if rule_matches fm r \<and> rule_recorded r then Some (?w (violation_of r (message_of fm r))) else None)"
    if r: "r \<in> set rules" for r
  proof -
    have dh: "distinct (map rr_policyRuleBindingId ?hit)" using dist by (simp add: distinct_map_filter)
    have "matched_violation collected (rr_policyRuleBindingId r) =
        find (\<lambda>v. cv_policy_rule_binding_id v = rr_policyRuleBindingId r) (rev collected)"
      using ids r unfolding matched_violation_def by (intro arg_cong2 [where f = find] ext) auto
    also have "\<dots> = map_option (\<lambda>r. ?w (violation_of r (message_of fm r)))
        (find (\<lambda>y. rr_policyRuleBindingId y = rr_policyRuleBindingId r) ?hit)"
      using find_rev_distinct [OF dh] by (simp add: col' rev_map find_map_comp)
    also have "find (\<lambda>y. rr_policyRuleBindingId y = rr_policyRuleBindingId r) ?hit =
        (if rule_matches fm r \<and> rule_recorded r then Some r else None)"
    proof (cases "rule_matches fm r \<and> rule_recorded r")
      case True
      with r find_key_distinct [OF dh, of r] show ?thesis by simp
    next
      case False
      have "\<not> (\<exists>y \<in> set ?hit. rr_policyRuleBindingId y = rr_policyRuleBindingId r)"
        using False dist r by (auto simp: distinct_map inj_on_def)
      then have "find (\<lambda>y. rr_policyRuleBindingId y = rr_policyRuleBindingId r) ?hit = None"
        unfolding find_None_iff by blast
      with False show ?thesis by (simp only: if_False)
    qed
    finally show ?thesis by simp
  qed
  have rows: "list_all2 (\<lambda>rule row. pr_policy_rule_binding_id row = rr_policyRuleBindingId rule \<and>
             (pr_matched row \<longleftrightarrow> rule_matches fm rule \<and> rule_recorded rule) \<and>
             pr_result row = (if rule_matches fm rule \<and> rule_blocks rule then ''block''
                              else if rule_matches fm rule \<and> rule_recorded rule then ''advisory'' else ''pass''))
           rules (rule_rows opts snapshot collected)"
    unfolding rule_rows_def snap list_all2_map2
    by (rule list_all2_refl') (simp add: matched Let_def blocks_recorded)
  have blocking: "ed_decision d = BLOCK \<longleftrightarrow> (\<exists>r \<in> set rules. rule_matches fm r \<and> rule_blocks r)"
    by (auto simp: deq decision_spec_def Let_def filter_empty_conv)
  have last: "ed_decision d = BLOCK \<longleftrightarrow> (\<exists>row \<in> set (rule_rows opts snapshot collected). pr_result row = ''block'')"
    unfolding blocking
  proof
    assume "\<exists>r \<in> set rules. rule_matches fm r \<and> rule_blocks r"
    then obtain r where "r \<in> set rules" "rule_matches fm r" "rule_blocks r" by blast
    with list_all2_set1 [OF rows] show "\<exists>row \<in> set (rule_rows opts snapshot collected). pr_result row = ''block''" by force
  next
    assume "\<exists>row \<in> set (rule_rows opts snapshot collected). pr_result row = ''block''"
    then obtain row where "row \<in> set (rule_rows opts snapshot collected)" "pr_result row = ''block''" by blast
    with list_all2_set2 [OF rows] show "\<exists>r \<in> set rules. rule_matches fm r \<and> rule_blocks r"
      by (force split: if_splits)
  qed
  have "x \<in> set (map cv_policy_id (filter (\<lambda>v. cv_blocked v \<and> cv_policy_id v \<noteq> []) collected)) \<longleftrightarrow>
      (\<exists>r \<in> set rules. rr_policyId r = x \<and> rule_matches fm r \<and> rule_blocks r)" for x
    using ids blocks_recorded by (force simp: col' image_iff)
  then have "list_all2 (\<lambda>policy row. pp_policy_id row = rp_id policy \<and>
             pp_result row = (if \<exists>r \<in> set rules. rr_policyId r = rp_id policy \<and> rule_matches fm r \<and> rule_blocks r
                              then ''block'' else ''allow''))
           (ps_policies snapshot) (policy_rows opts snapshot collected)"
    unfolding policy_rows_def Let_def by (auto simp: list_all2_conv_all_nth)
  with rows last show ?thesis by blast
qed


theorem audit_trail_consistent_witness:
  "\<exists>d. evaluatePolicyDecision [sample_resolved ''enforcing''] sample_fields 300 REDIRECT = Inr d \<and>
     (ed_decision d = BLOCK \<longleftrightarrow> (\<exists>row \<in> set (rule_rows sample_opts sample_policy_snapshot
        (violations_for_write ''t1'' ''p1'' ''k1'' ''e1'' 7 (ed_collectedViolations d))). pr_result row = ''block''))"
proof -
  let ?r = "sample_resolved ''enforcing''"
  have ok: "list_all rule_ok [?r]" using sample_decision(1) by simp
  have ids: "rr_policyRuleBindingId ?r \<noteq> [] \<and> rr_policyId ?r \<noteq> []" by code_simp
  obtain d where d: "evaluatePolicyDecision [?r] sample_fields 300 REDIRECT = Inr d"
    using evaluatePolicyDecision_spec [OF ok] by simp
  with audit_trail_consistent [OF ok _ _ d, of sample_policy_snapshot _ "''t1''" "''p1''" "''k1''" "''e1''" 7 sample_opts] ids
  show ?thesis by (simp add: sample_policy_snapshot_def)
qed

end
