(* ===== verification/Check.thy ===== *)
theory Check
  imports Project_Tokens Connector_Sync Violations
begin

text \<open>
  The check of a package request, \<open>handleCheck\<close> of \<open>connect/check-service.ts\<close>, over all the stores it
  touches: authorization of the project token, resolution of the identity, entitlements, the
  effective policy, the fields of the connectors, the decision, and the records it leaves. What the
  source starts without waiting (\<open>void recordCheckEvent(...).then(...)\<close>) is run to its end; the
  notification of subscribers and the timing log are not modelled.

  The environment of a check is a record of parameters: the token hash, the clock, the date and
  JSON parsers, the duration of fetches, the schedule of the prefetch, the contributor
  configuration and the duration of the evaluation.
\<close>

section \<open>Tables and state\<close>

record entitlement_row =
  en_tenant_id :: string
  en_allowed_ecosystems :: "string list option"
  en_serve_mode :: string
  en_cache_ttl_seconds :: int
  en_mcp_enabled :: bool

record event_row =
  er_id :: string
  er_tenant_id :: string
  er_project_id :: "string option"
  er_proxy_id :: string
  er_package_id :: "string option"
  er_package_version_id :: "string option"
  er_decision :: string
  er_reason :: "string option"
  er_source :: string
  er_event_type :: string
  er_decision_cache :: "bool option"
  er_trace_id :: "string option"
  er_span_id :: "string option"
  er_request_id :: "string option"
  er_serve_mode :: "string option"
  er_bytes_transferred :: "int option"
  er_project_token_id :: "string option"
  er_client_ip :: "string option"
  er_proxy_ip :: "string option"
  er_duration_ms :: "int option"
  er_decision_path :: "string option"
  er_raw_identity :: "raw_artifact_identity option"
  er_requested_ref :: "string option"
  er_resolved_ref :: "string option"
  er_ref_resolution_source :: "string option"
  er_requested_at :: ms

record check_db =
  ck_tenancy :: tenancy_db
  ck_entitlements :: "entitlement_row list"
  ck_policies :: policy_db
  ck_connectors :: connector_db
  ck_evaluations :: evaluation_db
  ck_events :: "event_row list"
  ck_uuids :: uuid_source

record check_env =
  ce_hash :: "string \<Rightarrow> string"
  ce_now :: ms
  ce_parse_date :: "string \<Rightarrow> ms option"
  ce_json_parse :: "string \<Rightarrow> jsval option"
  ce_fetch_ms :: "connector \<Rightarrow> artifact_event \<Rightarrow> int"
  ce_prefetch_first :: bool
  ce_connectorEventId :: string
  ce_contributor :: contributor_config
  ce_evalMs :: int

definition set_catalog :: "catalog_db \<Rightarrow> check_db \<Rightarrow> check_db" where
  "set_catalog c db = db\<lparr> ck_connectors := (ck_connectors db)\<lparr> kd_ingest := (kd_ingest (ck_connectors db))\<lparr> ig_catalog := c \<rparr> \<rparr> \<rparr>"

section \<open>Outcome and context\<close>

record check_outcome =
  oc_decision :: decision
  oc_reason :: string
  oc_detail :: string
  oc_cache_ttl_seconds :: int
  oc_serve_mode :: serve_mode
  oc_tenant_id :: string
  oc_project_id :: string

definition buildCheckOutcome ::
    "decision \<Rightarrow> string \<Rightarrow> string \<Rightarrow> int \<Rightarrow> serve_mode \<Rightarrow> string option \<Rightarrow> string option \<Rightarrow> check_outcome" where
  "buildCheckOutcome d reason detail cacheTtlSeconds serveMode tenantId projectId =
     \<lparr> oc_decision = d, oc_reason = reason, oc_detail = detail, oc_cache_ttl_seconds = cacheTtlSeconds,
       oc_serve_mode = serveMode, oc_tenant_id = default [] tenantId, oc_project_id = default [] projectId \<rparr>"

fun serveModeToString :: "serve_mode \<Rightarrow> string option" where
  "serveModeToString REDIRECT = Some ''SERVE_MODE_REDIRECT''"
| "serveModeToString PULL = Some ''SERVE_MODE_PULL''"
| "serveModeToString UNSPECIFIED = None"

record check_context =
  cc_tokenRow :: token_row
  cc_tenantId :: string
  cc_projectId :: string
  cc_defaultCacheTtl :: int
  cc_serveMode :: serve_mode
  cc_entitledEcosystems :: "string list option"

definition loadCheckContext ::
    "check_env \<Rightarrow> proxy_context \<Rightarrow> check_request \<Rightarrow> check_db \<Rightarrow> check_context option \<times> check_db" where
  "loadCheckContext env proxy req db =
     (case loadAuthorizedProjectToken (ce_hash env) (ce_now env) proxy (cq_project_token req) (ck_tenancy db) of
        None \<Rightarrow> (None, db)
      | Some tokenRow \<Rightarrow>
          let tenantId = tk_tenant_id tokenRow;
              entitlementRow = first_row (\<lambda>e. en_tenant_id e = tenantId) (ck_entitlements db)
          in (Some \<lparr> cc_tokenRow = tokenRow, cc_tenantId = tenantId, cc_projectId = tk_project_id tokenRow,
                     cc_defaultCacheTtl = (case entitlementRow of None \<Rightarrow> 300 | Some e \<Rightarrow> en_cache_ttl_seconds e),
                     cc_serveMode = (if map_option en_serve_mode entitlementRow = Some ''SERVE_MODE_PULL'' then PULL else REDIRECT),
                     cc_entitledEcosystems = Option.bind entitlementRow en_allowed_ecosystems \<rparr>,
              db\<lparr> ck_tenancy := scheduleProjectTokenLastUsedUpdate (ce_now env) tokenRow (ck_tenancy db) \<rparr>))"

section \<open>Records\<close>

definition decision_name :: "decision \<Rightarrow> string" where
  "decision_name d = (if d = ALLOW then ''allow'' else ''block'')"

definition check_event ::
    "check_env \<Rightarrow> proxy_context \<Rightarrow> check_context \<Rightarrow> check_request \<Rightarrow> artifact_identity \<Rightarrow> decision \<Rightarrow> string \<Rightarrow> serve_mode \<Rightarrow>
     string \<Rightarrow> event_row" where
  "check_event env proxy ctx req ai d reason serveMode eventId =
     \<lparr> er_id = eventId, er_tenant_id = cc_tenantId ctx, er_project_id = Some (cc_projectId ctx),
       er_proxy_id = px_proxyId proxy, er_package_id = ai_package_id ai,
       er_package_version_id = ai_package_version_id ai, er_decision = decision_name d,
       er_reason = Some reason, er_source = ''policy_engine'', er_event_type = ''proxy_request'',
       er_decision_cache = None, er_trace_id = or_null (cq_trace_id req), er_span_id = or_null (cq_span_id req),
       er_request_id = or_null (cq_request_id req),
       er_serve_mode = (if d = ALLOW then serveModeToString serveMode else None),
       er_bytes_transferred = None, er_project_token_id = Some (tk_id (cc_tokenRow ctx)),
       er_client_ip = cq_client_ip req, er_proxy_ip = cq_proxy_ip req, er_duration_ms = None,
       er_decision_path = None, er_raw_identity = Some (ai_raw ai),
       er_requested_ref = opt_or_null (cq_requested_ref req), er_resolved_ref = opt_or_null (cq_resolved_ref req),
       er_ref_resolution_source = opt_or_null (cq_ref_resolution_source req), er_requested_at = ce_now env \<rparr>"

definition recordCheckEvent ::
    "check_env \<Rightarrow> proxy_context \<Rightarrow> check_context \<Rightarrow> check_request \<Rightarrow> artifact_identity \<Rightarrow> decision \<Rightarrow> string \<Rightarrow> serve_mode \<Rightarrow>
     string \<Rightarrow> check_db \<Rightarrow> string option \<times> check_db" where
  "recordCheckEvent env proxy ctx req ai d reason serveMode eventId db =
     (if list_ex (\<lambda>e. er_id e = eventId) (ck_events db) then (None, db)
      else (Some eventId, db\<lparr> ck_events := ck_events db @ [check_event env proxy ctx req ai d reason serveMode eventId] \<rparr>))"

definition draw_id :: "check_db \<Rightarrow> string \<times> check_db" where
  "draw_id db = (let (x, u) = draw (ck_uuids db) in (x, db\<lparr> ck_uuids := u \<rparr>))"

section \<open>The check\<close>

text \<open>Resolution of the identity, and what the request tells about references.\<close>

definition catalog_request ::
    "check_env \<Rightarrow> check_request \<Rightarrow> check_db \<Rightarrow> artifact_identity \<times> check_db" where
  "catalog_request env req db =
     (let (ai, c1) = resolveArtifactIdentity
            \<lparr> pi_ecosystem = cq_ecosystem req, pi_package = cq_package req, pi_version = Some (cq_version req),
              ii_source = Some ''check'', ii_parser_version = None \<rparr> (ig_catalog (kd_ingest (ck_connectors db)));
          c2 = (if present (cq_requested_ref req)
                then recordObservedPackageVersionRefs (ce_now env)
                       \<lparr> oi_ecosystem = ai_ecosystem ai, oi_package_id = ai_package_id ai,
                         oi_package_version_id = ai_package_version_id ai, oi_version = ai_version ai,
                         oi_requested_ref = cq_requested_ref req, oi_resolved_ref = cq_resolved_ref req,
                         oi_ref_resolution_source = cq_ref_resolution_source req \<rparr> c1
                else c1);
          c3 = recordPackageVersionRelatedVersions (ce_json_parse env) (ce_now env) (ai_ecosystem ai) (ai_package ai)
                 (ai_package_id ai) (ai_package_version_id ai) (cq_related_versions req) c2
      in (ai, set_catalog c3 db))"

definition normalized_request :: "artifact_identity \<Rightarrow> check_request \<Rightarrow> check_request" where
  "normalized_request ai req =
     req\<lparr> cq_ecosystem := ai_ecosystem ai, cq_package := ai_package ai, cq_version := default [] (ai_version ai) \<rparr>"

text \<open>The branch of a request with no version.\<close>

definition metadata_check ::
    "check_env \<Rightarrow> proxy_context \<Rightarrow> check_context \<Rightarrow> check_request \<Rightarrow> connector list \<Rightarrow> artifact_identity \<Rightarrow> check_db \<Rightarrow>
     check_outcome \<times> check_db" where
  "metadata_check env proxy ctx req connectors ai db =
     (let db1 = db\<lparr> ck_connectors := warmPackageScopedConnectors (ce_connectorEventId env) (ce_now env) ai connectors (ck_connectors db) \<rparr>;
          (eventId, db2) = draw_id db1;
          (_, db3) = recordCheckEvent env proxy ctx req ai ALLOW ''metadata_request'' (cc_serveMode ctx) eventId db2
      in (buildCheckOutcome ALLOW ''metadata_request'' ''Package metadata request - no version to evaluate''
            (cc_defaultCacheTtl ctx) (cc_serveMode ctx) (Some (cc_tenantId ctx)) (Some (cc_projectId ctx)), db3))"

text \<open>The options of \<open>recordPolicyEvaluation\<close>, as both branches below fill them.\<close>

definition evaluation_options ::
    "check_env \<Rightarrow> check_context \<Rightarrow> artifact_identity \<Rightarrow> string \<Rightarrow> string option \<Rightarrow> string \<Rightarrow> nat \<Rightarrow> nat \<Rightarrow> nat \<Rightarrow>
     (string \<times> snapshot_meta) list \<Rightarrow> field_map \<Rightarrow> evaluation_opts" where
  "evaluation_options env ctx ai evaluationId insertedEventId d policiesEvaluated rulesEvaluated rulesMatched connectorMeta fm =
     \<lparr> eo_evaluationId = evaluationId, eo_tenant_id = cc_tenantId ctx, eo_project_id = cc_projectId ctx,
       eo_artifactIdentity = ai, eo_decision = d, eo_policiesEvaluated = policiesEvaluated, eo_rulesEvaluated = rulesEvaluated,
       eo_rulesMatched = rulesMatched, eo_connectorSnapshotMeta = connectorMeta, eo_durationMs = ce_evalMs env,
       eo_eventId = insertedEventId, eo_fieldValuesAtEvaluation = fm \<rparr>"

lemma evaluation_options_simps [simp]:
  "eo_tenant_id (evaluation_options env ctx ai eid i d p n m meta fm) = cc_tenantId ctx"
  "eo_project_id (evaluation_options env ctx ai eid i d p n m meta fm) = cc_projectId ctx"
  "eo_decision (evaluation_options env ctx ai eid i d p n m meta fm) = d"
  "eo_eventId (evaluation_options env ctx ai eid i d p n m meta fm) = i"
  by (simp_all add: evaluation_options_def)

text \<open>The branch of a project with no rules.\<close>

definition no_policy_check ::
    "check_env \<Rightarrow> proxy_context \<Rightarrow> check_context \<Rightarrow> check_request \<Rightarrow> artifact_identity \<Rightarrow> check_db \<Rightarrow> check_outcome \<times> check_db" where
  "no_policy_check env proxy ctx req ai db =
     (let (evaluationId, db1) = draw_id db;
          (eventId, db2) = draw_id db1;
          (insertedEventId, db3) = recordCheckEvent env proxy ctx req ai BLOCK ''no_policy'' UNSPECIFIED eventId db2;
          opts = evaluation_options env ctx ai evaluationId insertedEventId ''block'' 0 0 0 [] []
      in (buildCheckOutcome BLOCK ''no_policy'' ''No active policy configured for this project or tenant'' 0 UNSPECIFIED
            (Some (cc_tenantId ctx)) (Some (cc_projectId ctx)),
          db3\<lparr> ck_evaluations := recordPolicyEvaluation (ce_now env) opts (ck_evaluations db3) \<rparr>))"

definition record_decision ::
    "check_env \<Rightarrow> proxy_context \<Rightarrow> check_context \<Rightarrow> check_request \<Rightarrow> artifact_identity \<Rightarrow> policy_snapshot \<Rightarrow>
     (string \<times> snapshot_meta) list \<Rightarrow> field_map \<Rightarrow> evaluated_decision \<Rightarrow> check_db \<Rightarrow> check_db" where
  "record_decision env proxy ctx req ai policySnapshot connectorMeta fm decided db =
     (let (evaluationId, db1) = draw_id db;
          (eventId, db2) = draw_id db1;
          (insertedEventId, db3) = recordCheckEvent env proxy ctx req ai (ed_decision decided) (ed_reason decided)
            (ed_serveMode decided) eventId db2;
          opts = evaluation_options env ctx ai evaluationId insertedEventId (decision_name (ed_decision decided))
            (length (ps_policies policySnapshot)) (ed_rulesEvaluated decided) (ed_rulesMatched decided) connectorMeta fm
      in db3\<lparr> ck_evaluations := recordPolicyEvaluationWithViolations (ce_now env) opts policySnapshot
           (violations_for_write (cc_tenantId ctx) (cc_projectId ctx) (tk_id (cc_tokenRow ctx)) evaluationId (ce_now env)
             (ed_collectedViolations decided)) (kd_findings (ck_connectors db3)) (ck_evaluations db3) \<rparr>)"

definition policy_check ::
    "check_env \<Rightarrow> proxy_context \<Rightarrow> check_context \<Rightarrow> check_request \<Rightarrow> connector list \<Rightarrow> artifact_identity \<Rightarrow> policy_snapshot \<Rightarrow>
     check_db \<Rightarrow> (js_error + check_outcome) \<times> check_db" where
  "policy_check env proxy ctx req connectors ai policySnapshot db =
     (case collectConnectorEvaluationFields (ce_fetch_ms env) (ce_prefetch_first env) (ce_connectorEventId env) (ce_now env)
             (ce_parse_date env) (ce_json_parse env) (ce_contributor env) req connectors (cc_tenantId ctx) (cc_projectId ctx) ai
             (ck_connectors db) of
        Inl err \<Rightarrow> (Inl err, db)
      | Inr (connectorMeta, fm, connectors') \<Rightarrow>
          let db1 = db\<lparr> ck_connectors := connectors' \<rparr>
          in case evaluatePolicyDecision (ps_allRules policySnapshot) fm (cc_defaultCacheTtl ctx) (cc_serveMode ctx) of
               Inl err \<Rightarrow> (Inl err, db1)
             | Inr decided \<Rightarrow>
                 (Inr (buildCheckOutcome (ed_decision decided) (ed_reason decided) (ed_detail decided) (ed_cacheTtl decided)
                         (ed_serveMode decided) (Some (cc_tenantId ctx)) (Some (cc_projectId ctx))),
                  record_decision env proxy ctx req ai policySnapshot connectorMeta fm decided db1))"

definition checkEntitled ::
    "check_env \<Rightarrow> proxy_context \<Rightarrow> check_context \<Rightarrow> check_request \<Rightarrow> connector list \<Rightarrow> artifact_identity \<Rightarrow> check_db \<Rightarrow>
     (js_error + check_outcome) \<times> check_db" where
  "checkEntitled env proxy ctx req connectors ai db =
     (if cq_version req = []
      then let (outcome, db') = metadata_check env proxy ctx req connectors ai db in (Inr outcome, db')
      else
        let policySnapshot = loadEffectivePolicy (ck_policies db) (ce_now env) (cc_tenantId ctx) (cc_projectId ctx)
        in if ps_allRules policySnapshot = []
           then let (outcome, db') = no_policy_check env proxy ctx req ai db in (Inr outcome, db')
           else policy_check env proxy ctx req connectors ai policySnapshot db)"

definition handleCheck ::
    "check_env \<Rightarrow> proxy_context \<Rightarrow> check_request \<Rightarrow> connector list \<Rightarrow> check_db \<Rightarrow> (js_error + check_outcome) \<times> check_db" where
  "handleCheck env proxy req connectors db =
     (case loadCheckContext env proxy req db of
        (None, db0) \<Rightarrow>
          (Inr (buildCheckOutcome BLOCK ''invalid_token'' ''Token not found, expired, or has been revoked'' 0 UNSPECIFIED None None), db0)
      | (Some ctx, db0) \<Rightarrow>
          let (ai, db1) = catalog_request env req db0;
              normalizedReq = normalized_request ai req
          in case cc_entitledEcosystems ctx of
               Some ecosystems \<Rightarrow>
                 if cq_ecosystem normalizedReq \<notin> set ecosystems
                 then (Inr (buildCheckOutcome BLOCK ''ecosystem_not_permitted''
                          (cq_ecosystem normalizedReq @ '' is not available on your current plan'') (cc_defaultCacheTtl ctx)
                          UNSPECIFIED (Some (cc_tenantId ctx)) (Some (cc_projectId ctx))), db1)
                 else checkEntitled env proxy ctx normalizedReq connectors ai db1
             | None \<Rightarrow> checkEntitled env proxy ctx normalizedReq connectors ai db1)"

section \<open>What a check reads and leaves\<close>

definition check_identity :: "check_env \<Rightarrow> proxy_context \<Rightarrow> check_request \<Rightarrow> check_db \<Rightarrow> artifact_identity" where
  "check_identity env proxy req db = fst (catalog_request env req (snd (loadCheckContext env proxy req db)))"

definition allowed_ecosystems_of :: "string \<Rightarrow> check_db \<Rightarrow> string list option" where
  "allowed_ecosystems_of tenantId db =
     Option.bind (first_row (\<lambda>e. en_tenant_id e = tenantId) (ck_entitlements db)) en_allowed_ecosystems"

definition check_rules :: "check_env \<Rightarrow> token_row \<Rightarrow> check_db \<Rightarrow> resolved_rule list" where
  "check_rules env t db = ps_allRules (loadEffectivePolicy (ck_policies db) (ce_now env) (tk_tenant_id t) (tk_project_id t))"

abbreviation "authorized env proxy req db \<equiv>
  loadAuthorizedProjectToken (ce_hash env) (ce_now env) proxy (cq_project_token req) (ck_tenancy db)"

lemma context_None: "authorized env proxy req db = None \<Longrightarrow> loadCheckContext env proxy req db = (None, db)"
  by (simp add: loadCheckContext_def)

lemma context_Some:
  assumes "authorized env proxy req db = Some t"
  obtains ctx db0 where "loadCheckContext env proxy req db = (Some ctx, db0)" "cc_tokenRow ctx = t" "cc_tenantId ctx = tk_tenant_id t"
    "cc_projectId ctx = tk_project_id t" "cc_entitledEcosystems ctx = allowed_ecosystems_of (tk_tenant_id t) db"
    "db0 = db\<lparr> ck_tenancy := scheduleProjectTokenLastUsedUpdate (ce_now env) t (ck_tenancy db) \<rparr>"
  using assms by (simp add: loadCheckContext_def allowed_ecosystems_of_def Let_def)

lemma catalog_request_rest:
  assumes "catalog_request env req db = (ai, db1)"
  shows "ck_policies db1 = ck_policies db \<and> ck_events db1 = ck_events db \<and> ck_uuids db1 = ck_uuids db \<and>
    ck_evaluations db1 = ck_evaluations db \<and> ck_entitlements db1 = ck_entitlements db \<and> ck_tenancy db1 = ck_tenancy db \<and>
    kd_snapshots (ck_connectors db1) = kd_snapshots (ck_connectors db)"
  using assms by (auto simp: catalog_request_def set_catalog_def Let_def split: prod.splits)

lemma normalized_simps [simp]:
  "cq_ecosystem (normalized_request ai req) = ai_ecosystem ai" "cq_version (normalized_request ai req) = default [] (ai_version ai)"
  by (simp_all add: normalized_request_def)

lemma outcome_simps [simp]:
  "oc_decision (buildCheckOutcome d r t c s x y) = d" "oc_reason (buildCheckOutcome d r t c s x y) = r"
  "oc_tenant_id (buildCheckOutcome d r t c s (Some z) y) = z" "oc_project_id (buildCheckOutcome d r t c s x (Some z)) = z"
  "oc_cache_ttl_seconds (buildCheckOutcome d r t c s x y) = c" "oc_serve_mode (buildCheckOutcome d r t c s x y) = s"
  by (simp_all add: buildCheckOutcome_def default_def)

text \<open>The course of a check by its token, its entitlement and the branches after it.\<close>

lemma handleCheck_refused:
  "authorized env proxy req db = None \<Longrightarrow> handleCheck env proxy req connectors db =
     (Inr (buildCheckOutcome BLOCK ''invalid_token'' ''Token not found, expired, or has been revoked'' 0 UNSPECIFIED None None), db)"
  by (simp add: handleCheck_def context_None)

lemma handleCheck_authorized:
  assumes "authorized env proxy req db = Some t"
  obtains ctx db0 ai db1 where "loadCheckContext env proxy req db = (Some ctx, db0)" "cc_tokenRow ctx = t"
    "cc_tenantId ctx = tk_tenant_id t" "cc_projectId ctx = tk_project_id t" "catalog_request env req db0 = (ai, db1)"
    "ai = check_identity env proxy req db" "ck_policies db1 = ck_policies db" "ck_events db1 = ck_events db"
    "ck_uuids db1 = ck_uuids db" "ck_evaluations db1 = ck_evaluations db"
    "kd_snapshots (ck_connectors db1) = kd_snapshots (ck_connectors db)"
    "handleCheck env proxy req connectors db =
       (if (case allowed_ecosystems_of (tk_tenant_id t) db of None \<Rightarrow> True | Some l \<Rightarrow> ai_ecosystem ai \<in> set l)
        then checkEntitled env proxy ctx (normalized_request ai req) connectors ai db1
        else (Inr (buildCheckOutcome BLOCK ''ecosystem_not_permitted'' (ai_ecosystem ai @ '' is not available on your current plan'')
                (cc_defaultCacheTtl ctx) UNSPECIFIED (Some (tk_tenant_id t)) (Some (tk_project_id t))), db1))"
proof -
  obtain ctx db0 where ctx: "loadCheckContext env proxy req db = (Some ctx, db0)" "cc_tokenRow ctx = t" "cc_tenantId ctx = tk_tenant_id t"
      "cc_projectId ctx = tk_project_id t" "cc_entitledEcosystems ctx = allowed_ecosystems_of (tk_tenant_id t) db"
      "db0 = db\<lparr> ck_tenancy := scheduleProjectTokenLastUsedUpdate (ce_now env) t (ck_tenancy db) \<rparr>"
    by (rule context_Some [OF assms])
  obtain ai db1 where ai: "catalog_request env req db0 = (ai, db1)" by (cases "catalog_request env req db0")
  have idn: "ai = check_identity env proxy req db" using ctx(1) ai by (simp add: check_identity_def)
  have run: "handleCheck env proxy req connectors db =
       (if (case allowed_ecosystems_of (tk_tenant_id t) db of None \<Rightarrow> True | Some l \<Rightarrow> ai_ecosystem ai \<in> set l)
        then checkEntitled env proxy ctx (normalized_request ai req) connectors ai db1
        else (Inr (buildCheckOutcome BLOCK ''ecosystem_not_permitted'' (ai_ecosystem ai @ '' is not available on your current plan'')
                (cc_defaultCacheTtl ctx) UNSPECIFIED (Some (tk_tenant_id t)) (Some (tk_project_id t))), db1))"
    by (simp add: handleCheck_def ctx(1,3-5) ai Let_def split: option.split)
  show thesis
    by (rule that [OF ctx(1-4) ai idn _ _ _ _ _ run]) (use catalog_request_rest [OF ai] ctx(6) in simp_all)
qed

lemma draw_id_rest:
  "draw_id db = (x, db') \<Longrightarrow> ck_events db' = ck_events db \<and> ck_evaluations db' = ck_evaluations db \<and>
     ck_connectors db' = ck_connectors db \<and> draw (ck_uuids db) = (x, ck_uuids db')"
  by (auto simp: draw_id_def split: prod.splits)

section \<open>Events and evaluations\<close>

text \<open>
  Identifiers of events are distinct and drawn; an evaluation that names an event names a recorded
  one of its tenant and project with the decision it evaluated.
\<close>

definition trail_ok :: "check_db \<Rightarrow> bool" where
  "trail_ok db =
     (source_ok (ck_uuids db) \<and> ids_ok er_id (ck_uuids db) (ck_events db) \<and>
      (\<forall>e \<in> set (ve_evaluations (ck_evaluations db)). \<forall>i. pe_event_id e = Some i \<longrightarrow>
         (\<exists>r \<in> set (ck_events db). er_id r = i \<and> er_decision r = pe_decision e \<and> er_tenant_id r = pe_tenant_id e \<and>
            er_project_id r = Some (pe_project_id e))))"

definition event_of_check :: "check_context \<Rightarrow> decision \<Rightarrow> string \<Rightarrow> event_row \<Rightarrow> bool" where
  "event_of_check ctx d reason r =
     (er_decision r = decision_name d \<and> er_reason r = Some reason \<and> er_tenant_id r = cc_tenantId ctx \<and>
      er_project_id r = Some (cc_projectId ctx) \<and> er_project_token_id r = Some (tk_id (cc_tokenRow ctx)))"

lemma record_event:
  assumes "trail_ok db" and "draw_id db = (i, db1)" and "recordCheckEvent env proxy ctx req ai d reason mode i db1 = (x, db2)"
  shows "\<exists>r. x = Some i \<and> er_id r = i \<and> event_of_check ctx d reason r \<and> ck_events db2 = ck_events db @ [r] \<and>
    ck_evaluations db2 = ck_evaluations db \<and> trail_ok db2"
proof -
  note d = draw_id_rest [OF assms(2)]
  have src: "source_ok (ck_uuids db)" and ids: "ids_ok er_id (ck_uuids db) (ck_events db)"
    using assms(1) by (simp_all add: trail_ok_def)
  have "\<not> drawn_id (ck_uuids db) i" using draw_fresh [OF src] d by blast
  with ids d have "\<not> list_ex (\<lambda>e. er_id e = i) (ck_events db1)"
    by (auto simp: ids_ok_def list_ex_iff)
  then obtain r where r: "x = Some i" "r = check_event env proxy ctx req ai d reason mode i" "db2 = db1\<lparr> ck_events := ck_events db1 @ [r] \<rparr>"
    using assms(3) by (auto simp: recordCheckEvent_def)
  have e: "er_id r = i" "event_of_check ctx d reason r"
    by (simp_all add: r(2) check_event_def event_of_check_def)
  have "trail_ok db2"
    using assms(1) d e ids_ok_append [OF src _ ids, of i "ck_uuids db1" r]
    by (auto simp: trail_ok_def r(3) draw_source [of _ i])
  with e r show ?thesis using d by auto
qed

lemma draw_trail: "trail_ok db \<Longrightarrow> draw_id db = (x, db') \<Longrightarrow> trail_ok db'"
  using draw_id_rest [of db x db'] by (auto simp: trail_ok_def intro: draw_source ids_ok_draw)

lemma evaluations_appended:
  assumes "recordPolicyEvaluationWithViolations now opts snapshot collected fdb db = db'"
  shows "ve_evaluations db' = ve_evaluations db \<or> ve_evaluations db' = ve_evaluations db @ [evaluation_of now opts]"
  using assms write_violations_tables
  by (fastforce simp: recordPolicyEvaluationWithViolations_def evaluation_transaction_def Let_def same_evaluations_def
      split: sum.splits if_splits)

lemma trail_evaluation:
  assumes "trail_ok db" and "ve_evaluations ev = ve_evaluations (ck_evaluations db) \<or>
      ve_evaluations ev = ve_evaluations (ck_evaluations db) @ [evaluation_of now opts]"
    and "r \<in> set (ck_events db)" and "eo_eventId opts = Some (er_id r)" and "er_decision r = eo_decision opts"
    and "er_tenant_id r = eo_tenant_id opts" and "er_project_id r = Some (eo_project_id opts)"
  shows "trail_ok (db\<lparr> ck_evaluations := ev \<rparr>)"
proof -
  let ?linked = "\<lambda>e. \<forall>i. pe_event_id e = Some i \<longrightarrow> (\<exists>r \<in> set (ck_events db). er_id r = i \<and> er_decision r = pe_decision e \<and>
      er_tenant_id r = pe_tenant_id e \<and> er_project_id r = Some (pe_project_id e))"
  have "?linked (evaluation_of now opts)"
    using assms(3-7) by (simp add: evaluation_of_def) metis
  with assms(1,2) show ?thesis by (auto simp: trail_ok_def)
qed

lemma metadata_check_trail:
  assumes "metadata_check env proxy ctx req connectors ai db = (oc, db')" and "trail_ok db"
  shows "trail_ok db' \<and> oc_decision oc = ALLOW \<and> oc_reason oc = ''metadata_request'' \<and>
    (\<exists>r. ck_events db' = ck_events db @ [r] \<and> event_of_check ctx ALLOW ''metadata_request'' r)"
proof -
  let ?w = "db\<lparr> ck_connectors := warmPackageScopedConnectors (ce_connectorEventId env) (ce_now env) ai connectors (ck_connectors db) \<rparr>"
  obtain i db1 where i: "draw_id ?w = (i, db1)" by (cases "draw_id ?w")
  obtain x db2 where e: "recordCheckEvent env proxy ctx req ai ALLOW ''metadata_request'' (cc_serveMode ctx) i db1 = (x, db2)"
    by (cases "recordCheckEvent env proxy ctx req ai ALLOW ''metadata_request'' (cc_serveMode ctx) i db1")
  have "trail_ok ?w" using assms(2) by (simp add: trail_ok_def)
  from record_event [OF this i e] assms(1) show ?thesis by (auto simp: metadata_check_def Let_def i e)
qed

lemma no_policy_trail:
  assumes "no_policy_check env proxy ctx req ai db = (oc, db')" and "trail_ok db"
  shows "trail_ok db' \<and> oc_decision oc = BLOCK \<and> oc_reason oc = ''no_policy'' \<and>
    (\<exists>r. ck_events db' = ck_events db @ [r] \<and> event_of_check ctx BLOCK ''no_policy'' r)"
proof -
  obtain eid db1 where d: "draw_id db = (eid, db1)" by (cases "draw_id db")
  obtain i db2 where i: "draw_id db1 = (i, db2)" by (cases "draw_id db1")
  obtain x db3 where e: "recordCheckEvent env proxy ctx req ai BLOCK ''no_policy'' UNSPECIFIED i db2 = (x, db3)"
    by (cases "recordCheckEvent env proxy ctx req ai BLOCK ''no_policy'' UNSPECIFIED i db2")
  from record_event [OF draw_trail [OF assms(2) d] i e] obtain r where r: "x = Some i" "er_id r = i"
      "event_of_check ctx BLOCK ''no_policy'' r" "ck_events db3 = ck_events db @ [r]" "trail_ok db3"
    using draw_id_rest [OF d] by auto
  from assms(1) obtain opts where "db' = db3\<lparr> ck_evaluations := recordPolicyEvaluation (ce_now env) opts (ck_evaluations db3) \<rparr>"
      "eo_eventId opts = Some i" "eo_decision opts = ''block''" "eo_tenant_id opts = cc_tenantId ctx" "eo_project_id opts = cc_projectId ctx"
    by (simp add: no_policy_check_def d i e r(1)) (metis evaluation_options_simps)
  moreover from this have "trail_ok db'"
    using trail_evaluation [OF r(5), of _ "ce_now env" opts r] r
    by (simp add: recordPolicyEvaluation_def event_of_check_def decision_name_def)
  ultimately show ?thesis using assms(1) r by (auto simp: no_policy_check_def d i e)
qed

lemma record_decision_trail:
  assumes "record_decision env proxy ctx req ai snapshot meta fm decided db = db'" and "trail_ok db"
  shows "trail_ok db' \<and> (\<exists>r. ck_events db' = ck_events db @ [r] \<and> event_of_check ctx (ed_decision decided) (ed_reason decided) r)"
proof -
  let ?e = "recordCheckEvent env proxy ctx req ai (ed_decision decided) (ed_reason decided) (ed_serveMode decided)"
  obtain eid db1 where d: "draw_id db = (eid, db1)" by (cases "draw_id db")
  obtain i db2 where i: "draw_id db1 = (i, db2)" by (cases "draw_id db1")
  obtain x db3 where e: "?e i db2 = (x, db3)" by (cases "?e i db2")
  from record_event [OF draw_trail [OF assms(2) d] i e] obtain r where r: "x = Some i" "er_id r = i"
      "event_of_check ctx (ed_decision decided) (ed_reason decided) r" "ck_events db3 = ck_events db @ [r]" "trail_ok db3"
    using draw_id_rest [OF d] by auto
  from assms(1) obtain opts vs where db': "db' = db3\<lparr> ck_evaluations := recordPolicyEvaluationWithViolations (ce_now env) opts snapshot vs
        (kd_findings (ck_connectors db3)) (ck_evaluations db3) \<rparr>"
      "eo_eventId opts = Some i" "eo_decision opts = decision_name (ed_decision decided)"
      "eo_tenant_id opts = cc_tenantId ctx" "eo_project_id opts = cc_projectId ctx"
    by (simp add: record_decision_def d i e r(1)) (metis evaluation_options_simps)
  from evaluations_appended [OF refl, of "ce_now env" opts snapshot vs "kd_findings (ck_connectors db3)" "ck_evaluations db3"]
  have "trail_ok db'"
    unfolding db'(1) by (rule trail_evaluation [OF r(5), of _ _ _ r]) (use r db' in \<open>simp_all add: event_of_check_def\<close>)
  with r db'(1) show ?thesis by auto
qed

lemma checkEntitled_trail:
  assumes "checkEntitled env proxy ctx req connectors ai db = (Inr oc, db')" and "trail_ok db"
  shows "trail_ok db' \<and> (\<exists>r. ck_events db' = ck_events db @ [r] \<and> event_of_check ctx (oc_decision oc) (oc_reason oc) r)"
proof -
  let ?snap = "loadEffectivePolicy (ck_policies db) (ce_now env) (cc_tenantId ctx) (cc_projectId ctx)"
  consider "metadata_check env proxy ctx req connectors ai db = (oc, db')" | "no_policy_check env proxy ctx req ai db = (oc, db')"
    | "policy_check env proxy ctx req connectors ai ?snap db = (Inr oc, db')"
    using assms(1) by (auto simp: checkEntitled_def Let_def split: if_splits prod.splits)
  then show ?thesis
  proof cases
    case 1 from metadata_check_trail [OF this assms(2)] show ?thesis by auto
  next
    case 2 from no_policy_trail [OF this assms(2)] show ?thesis by auto
  next
    case 3
    then obtain meta fm k d where "oc_decision oc = ed_decision d" "oc_reason oc = ed_reason d"
        "db' = record_decision env proxy ctx req ai ?snap meta fm d (db\<lparr> ck_connectors := k \<rparr>)"
      by (auto simp: policy_check_def Let_def split: sum.splits)
    moreover have "trail_ok (db\<lparr> ck_connectors := k \<rparr>)" using assms(2) by (simp add: trail_ok_def)
    ultimately show ?thesis using record_decision_trail [OF refl] by fastforce
  qed
qed

text \<open>What an answer ALLOW rests on; the connectors read the snapshots that there were before the check.\<close>

lemma check_allowed:
  assumes "handleCheck env proxy req connectors db = (Inr oc, db')" and "oc_decision oc = ALLOW"
  shows "\<exists>t. loadAuthorizedProjectToken (ce_hash env) (ce_now env) proxy (cq_project_token req) (ck_tenancy db) = Some t \<and>
    oc_tenant_id oc = tk_tenant_id t \<and> oc_project_id oc = tk_project_id t \<and>
    (case allowed_ecosystems_of (tk_tenant_id t) db of
       None \<Rightarrow> True | Some l \<Rightarrow> ai_ecosystem (check_identity env proxy req db) \<in> set l) \<and>
    (default [] (ai_version (check_identity env proxy req db)) = [] \<and> oc_reason oc = ''metadata_request'' \<or>
     check_rules env t db \<noteq> [] \<and>
     (\<exists>k meta fm k'. kd_snapshots k = kd_snapshots (ck_connectors db) \<and>
      collectConnectorEvaluationFields (ce_fetch_ms env) (ce_prefetch_first env) (ce_connectorEventId env)
        (ce_now env) (ce_parse_date env) (ce_json_parse env) (ce_contributor env)
        (normalized_request (check_identity env proxy req db) req) connectors (tk_tenant_id t) (tk_project_id t)
        (check_identity env proxy req db) k = Inr (meta, fm, k') \<and>
      (\<forall>r \<in> set (check_rules env t db). \<not> (evaluateCondition (rr_condition r) fm = Inr True \<and>
         action_type r = JStr ''violation'' \<and> rr_effectiveEnforcementMode r = JStr ''enforcing''))))"
proof (cases "authorized env proxy req db")
  case None
  with assms show ?thesis by (auto simp: handleCheck_refused)
next
  case (Some t)
  obtain ctx ai db1 where ctx: "cc_tenantId ctx = tk_tenant_id t" "cc_projectId ctx = tk_project_id t"
      and ai: "ai = check_identity env proxy req db" and pol: "ck_policies db1 = ck_policies db"
      and snaps: "kd_snapshots (ck_connectors db1) = kd_snapshots (ck_connectors db)"
      and ent: "case allowed_ecosystems_of (tk_tenant_id t) db of None \<Rightarrow> True | Some l \<Rightarrow> ai_ecosystem ai \<in> set l"
      and run: "checkEntitled env proxy ctx (normalized_request ai req) connectors ai db1 = (Inr oc, db')"
    by (rule handleCheck_authorized [OF Some, where connectors = connectors]) (use assms in \<open>auto split: if_splits\<close>)
  let ?snap = "loadEffectivePolicy (ck_policies db1) (ce_now env) (cc_tenantId ctx) (cc_projectId ctx)"
  have rules: "ps_allRules ?snap = check_rules env t db" by (simp add: check_rules_def pol ctx)
  consider (metadata) "default [] (ai_version ai) = []" "metadata_check env proxy ctx (normalized_request ai req) connectors ai db1 = (oc, db')"
    | (none) "no_policy_check env proxy ctx (normalized_request ai req) ai db1 = (oc, db')"
    | (policy) "ps_allRules ?snap \<noteq> []" "policy_check env proxy ctx (normalized_request ai req) connectors ai ?snap db1 = (Inr oc, db')"
    using run by (auto simp: checkEntitled_def Let_def split: if_splits prod.splits)
  then show ?thesis
  proof cases
    case metadata
    with Some ent ctx ai show ?thesis by (auto simp: metadata_check_def Let_def split: prod.splits)
  next
    case none
    with assms(2) show ?thesis by (auto simp: no_policy_check_def Let_def split: prod.splits)
  next
    case policy
    from policy(2) obtain meta fm k' d where
        c: "collectConnectorEvaluationFields (ce_fetch_ms env) (ce_prefetch_first env) (ce_connectorEventId env)
        (ce_now env) (ce_parse_date env) (ce_json_parse env) (ce_contributor env)
        (normalized_request ai req) connectors (cc_tenantId ctx) (cc_projectId ctx) ai (ck_connectors db1) = Inr (meta, fm, k')"
        and d: "evaluatePolicyDecision (ps_allRules ?snap) fm (cc_defaultCacheTtl ctx) (cc_serveMode ctx) = Inr d"
        and oc: "oc_decision oc = ed_decision d" "oc_tenant_id oc = cc_tenantId ctx" "oc_project_id oc = cc_projectId ctx"
      by (auto simp: policy_check_def Let_def split: sum.splits)
    have "ed_decision d \<noteq> BLOCK" using oc assms(2) by simp
    with decision_blocks [OF d] have "\<forall>r \<in> set (check_rules env t db). \<not> (evaluateCondition (rr_condition r) fm = Inr True \<and> rule_blocks r)"
      by (simp add: rules)
    note free = this [unfolded rule_blocks_def]
    have "check_rules env t db \<noteq> []" using policy(1) by (simp add: rules)
    with Some snaps c [unfolded ai ctx] oc [unfolded ctx] ent [unfolded ai] free show ?thesis by blast
  qed
qed

section \<open>Properties\<close>


text \<open>
  C9: every check is on the record, and the record is linked. A check that answers leaves at most one
  event; it leaves none only when it blocks before the policy, for the token or the plan, and
  otherwise exactly one, with the answer's decision and reason, for the tenant, the project and the
  token of the request. Every evaluation that names an event names a recorded one that agrees with
  it on tenant, project and decision, and this stays so.
\<close>

theorem check_on_record:
  assumes "handleCheck env proxy req connectors db = (Inr oc, db')" and "trail_ok db"
  shows "trail_ok db' \<and>
    (ck_events db' = ck_events db \<and> oc_decision oc = BLOCK \<and>
       (oc_reason oc = ''invalid_token'' \<or> oc_reason oc = ''ecosystem_not_permitted'') \<or>
     (\<exists>t r. loadAuthorizedProjectToken (ce_hash env) (ce_now env) proxy (cq_project_token req) (ck_tenancy db) = Some t \<and>
        ck_events db' = ck_events db @ [r] \<and> er_decision r = decision_name (oc_decision oc) \<and> er_reason r = Some (oc_reason oc) \<and>
        er_tenant_id r = tk_tenant_id t \<and> er_project_id r = Some (tk_project_id t) \<and> er_project_token_id r = Some (tk_id t)))"
proof (cases "authorized env proxy req db")
  case None
  with assms show ?thesis by (auto simp: handleCheck_refused)
next
  case (Some t)
  obtain ctx db0 ai db1 where ctx: "cc_tokenRow ctx = t" "cc_tenantId ctx = tk_tenant_id t" "cc_projectId ctx = tk_project_id t"
      and same: "ck_events db1 = ck_events db" "ck_uuids db1 = ck_uuids db" "ck_evaluations db1 = ck_evaluations db"
      and run: "handleCheck env proxy req connectors db =
       (if (case allowed_ecosystems_of (tk_tenant_id t) db of None \<Rightarrow> True | Some l \<Rightarrow> ai_ecosystem ai \<in> set l)
        then checkEntitled env proxy ctx (normalized_request ai req) connectors ai db1
        else (Inr (buildCheckOutcome BLOCK ''ecosystem_not_permitted'' (ai_ecosystem ai @ '' is not available on your current plan'')
                (cc_defaultCacheTtl ctx) UNSPECIFIED (Some (tk_tenant_id t)) (Some (tk_project_id t))), db1))"
    by (rule handleCheck_authorized [OF Some, where connectors = connectors]) blast
  have ok: "trail_ok db1" using assms(2) by (simp add: trail_ok_def same)
  show ?thesis
  proof (cases "case allowed_ecosystems_of (tk_tenant_id t) db of None \<Rightarrow> True | Some l \<Rightarrow> ai_ecosystem ai \<in> set l")
    case True
    with assms(1) run have "checkEntitled env proxy ctx (normalized_request ai req) connectors ai db1 = (Inr oc, db')" by simp
    from checkEntitled_trail [OF this ok] Some show ?thesis by (simp add: event_of_check_def same ctx)
  next
    case False
    with assms(1) run have "db' = db1" "oc_decision oc = BLOCK" "oc_reason oc = ''ecosystem_not_permitted''" by auto
    with ok same show ?thesis by simp
  qed
qed


section \<open>A concrete check\<close>

definition sample_env :: check_env where
  "sample_env =
     \<lparr> ce_hash = (\<lambda>s. s), ce_now = 5, ce_parse_date = (\<lambda>_. None), ce_json_parse = (\<lambda>_. None), ce_fetch_ms = (\<lambda>_ _. 10),
       ce_prefetch_first = False, ce_connectorEventId = ''e'', ce_contributor = rc_config sample_context, ce_evalMs = 3 \<rparr>"

definition sample_check_request :: check_request where
  "sample_check_request = sample_request\<lparr> cq_project_token := ''secret'' \<rparr>"

definition sample_policies :: "string \<Rightarrow> policy_db" where
  "sample_policies mode =
     \<lparr> pd_policies = [sample_policy\<lparr> po_tenant_id := ''t1'', po_enforcement_mode := mode \<rparr>], pd_project_bindings = [],
       pd_rules = [sample_rule\<lparr> ru_tenant_id := ''t1'' \<rparr>], pd_rule_bindings = [sample_rule_binding\<lparr> rb_tenant_id := ''t1'' \<rparr>],
       pd_uuids = sample_uuids \<rparr>"

definition sample_check_db :: "string \<Rightarrow> check_db" where
  "sample_check_db mode =
     \<lparr> ck_tenancy = sample_tenancy, ck_entitlements = [], ck_policies = sample_policies mode, ck_connectors = empty_connector_db,
       ck_evaluations = empty_evaluations, ck_events = [], ck_uuids = sample_uuids \<rparr>"

lemma sample_check_allowed:
  "case handleCheck sample_env sample_proxy sample_check_request [] (sample_check_db ''advisory'') of
     (Inr oc, db') \<Rightarrow> oc_decision oc = ALLOW \<and> oc_reason oc = ''allowed'' | (Inl _, _) \<Rightarrow> False"
  by code_simp

lemma sample_check_run:
  obtains oc db' where "handleCheck sample_env sample_proxy sample_check_request [] (sample_check_db ''advisory'') = (Inr oc, db')"
    "oc_decision oc = ALLOW" "oc_reason oc = ''allowed''"
proof -
  obtain r db' where r: "handleCheck sample_env sample_proxy sample_check_request [] (sample_check_db ''advisory'') = (r, db')"
    by (cases "handleCheck sample_env sample_proxy sample_check_request [] (sample_check_db ''advisory'')")
  from sample_check_allowed show thesis unfolding r by (cases r) (simp_all add: that r)
qed

lemma sample_trail_ok: "trail_ok (sample_check_db mode)"
  by (simp add: trail_ok_def sample_check_db_def empty_evaluations_def sample_uuids_ok)


theorem check_on_record_witness:
  "\<exists>oc db' r. handleCheck sample_env sample_proxy sample_check_request [] (sample_check_db ''advisory'') = (Inr oc, db') \<and>
     ck_events db' = [r] \<and> er_decision r = ''allow'' \<and> trail_ok db'"
proof -
  obtain oc db' where r: "handleCheck sample_env sample_proxy sample_check_request [] (sample_check_db ''advisory'') = (Inr oc, db')"
    "oc_decision oc = ALLOW" by (rule sample_check_run)
  from check_on_record [OF r(1) sample_trail_ok] r(2) obtain e where "trail_ok db'"
      "ck_events db' = ck_events (sample_check_db ''advisory'') @ [e]" "er_decision e = decision_name ALLOW"
    by auto
  with r(1) show ?thesis by (auto simp: sample_check_db_def decision_name_def)
qed

lemma sample_rules_ok:
  "case loadAuthorizedProjectToken (ce_hash sample_env) (ce_now sample_env) sample_proxy (cq_project_token sample_check_request)
     (ck_tenancy (sample_check_db ''enforcing'')) of
     None \<Rightarrow> False | Some t \<Rightarrow> list_all rule_ok (check_rules sample_env t (sample_check_db ''enforcing''))"
  by code_simp


end
