(* ===== verification/Usage.thy ===== *)
theory Usage
  imports Check
begin

text \<open>
  What the proxies report about the packages they served. \<open>connect/record-usage-service.ts\<close> attributes
  each reported event to a tenant and a project, stores it and adds it to the usage counters of the
  project; \<open>features/packages/usage-aggregation.ts\<close> turns events into counters and
  \<open>features/packages/shared.ts\<close> rebuilds the counters of a project from its stored events. The entry
  point is the stream handler \<open>recordUsage\<close> of \<open>connect/gateway-routes.ts\<close>.

  A timestamp that does not parse is the value \<open>None\<close> of the parser: comparisons with such a date are
  false and storing it throws.
\<close>

section \<open>Aggregation of events\<close>

record usage_delta =
  ud_tenant_id :: string
  ud_project_id :: string
  ud_package_version_id :: string
  ud_request_count :: int
  ud_allow_count :: int
  ud_block_count :: int
  ud_first_seen_at :: ms
  ud_last_seen_at :: ms

definition trimRef :: "string option \<Rightarrow> string" where
  "trimRef x = (case x of None \<Rightarrow> [] | Some s \<Rightarrow> js_trim s)"

definition usage_relevant :: "event_row \<Rightarrow> bool" where
  "usage_relevant row =
     (present (er_project_id row) \<and> er_source row = ''proxy'' \<and>
      (er_event_type row = ''artifact'' \<or> er_event_type row = ''upstream_error''))"

definition displayRoleByVersionId :: "catalog_db \<Rightarrow> string \<Rightarrow> display_role option" where
  "displayRoleByVersionId c vid = map_option pv_display_role (first_row (\<lambda>v. pv_id v = vid) (cg_versions c))"

text \<open>The events that neither loop skips with \<open>continue\<close> at its start.\<close>

definition displayed :: "catalog_db \<Rightarrow> event_row \<Rightarrow> bool" where
  "displayed c row =
     (present (er_package_version_id row) \<and> present (er_project_id row) \<and>
      displayRoleByVersionId c (the (er_package_version_id row)) = Some Primary)"

definition delta_key :: "event_row \<Rightarrow> string" where
  "delta_key row = the (er_project_id row) @ ''|'' @ the (er_package_version_id row)"

definition human_ref :: "event_row \<Rightarrow> bool" where
  "human_ref row =
     (trimRef (er_requested_ref row) \<noteq> [] \<and> trimRef (er_resolved_ref row) \<noteq> [] \<and>
      trimRef (er_requested_ref row) \<noteq> trimRef (er_resolved_ref row))"

definition plain_ref :: "event_row \<Rightarrow> bool" where
  "plain_ref row =
     (trimRef (er_requested_ref row) \<noteq> [] \<and> trimRef (er_resolved_ref row) \<noteq> [] \<and>
      trimRef (er_requested_ref row) = trimRef (er_resolved_ref row))"

definition humanRefKeys :: "catalog_db \<Rightarrow> event_row list \<Rightarrow> string list" where
  "humanRefKeys c rows = map delta_key (filter (\<lambda>r. displayed c r \<and> human_ref r) rows)"

definition new_delta :: "event_row \<Rightarrow> usage_delta" where
  "new_delta row =
     \<lparr> ud_tenant_id = er_tenant_id row, ud_project_id = the (er_project_id row),
       ud_package_version_id = the (er_package_version_id row), ud_request_count = 1,
       ud_allow_count = (if er_decision row = ''allow'' then 1 else 0),
       ud_block_count = (if er_decision row = ''allow'' then 0 else 1),
       ud_first_seen_at = er_requested_at row, ud_last_seen_at = er_requested_at row \<rparr>"

definition bump_delta :: "event_row \<Rightarrow> usage_delta \<Rightarrow> usage_delta" where
  "bump_delta row d =
     d\<lparr> ud_request_count := ud_request_count d + 1,
        ud_allow_count := ud_allow_count d + (if er_decision row = ''allow'' then 1 else 0),
        ud_block_count := ud_block_count d + (if er_decision row = ''allow'' then 0 else 1),
        ud_first_seen_at := (if er_requested_at row < ud_first_seen_at d then er_requested_at row else ud_first_seen_at d),
        ud_last_seen_at := (if er_requested_at row > ud_last_seen_at d then er_requested_at row else ud_last_seen_at d) \<rparr>"

definition add_event :: "(string \<times> usage_delta) list \<Rightarrow> event_row \<Rightarrow> (string \<times> usage_delta) list" where
  "add_event m row =
     (case map_of m (delta_key row) of
        Some existing \<Rightarrow> map_set (delta_key row) (bump_delta row existing) m
      | None \<Rightarrow> map_set (delta_key row) (new_delta row) m)"

definition counted :: "catalog_db \<Rightarrow> string list \<Rightarrow> event_row \<Rightarrow> bool" where
  "counted c humanKeys row = (displayed c row \<and> \<not> (plain_ref row \<and> delta_key row \<in> set humanKeys))"

definition buildPackageUsageDeltas :: "catalog_db \<Rightarrow> event_row list \<Rightarrow> usage_delta list" where
  "buildPackageUsageDeltas c rows =
     (let usageRows = filter usage_relevant rows
      in if usageRows = [] then []
         else if \<not> list_ex (\<lambda>r. present (er_package_version_id r)) usageRows then []
         else map snd (foldl add_event [] (filter (counted c (humanRefKeys c usageRows)) usageRows)))"

section \<open>Usage counters\<close>

definition usage_key :: "usage_row \<Rightarrow> (string \<times> string) option" where
  "usage_key r = Some (us_project_id r, us_package_version_id r)"

definition usage_of :: "usage_delta \<Rightarrow> usage_row" where
  "usage_of d =
     \<lparr> us_tenant_id = ud_tenant_id d, us_project_id = ud_project_id d, us_package_version_id = ud_package_version_id d,
       us_request_count = ud_request_count d, us_allow_count = ud_allow_count d, us_block_count = ud_block_count d,
       us_created_at = ud_first_seen_at d, us_updated_at = ud_last_seen_at d \<rparr>"

definition usage_merge :: "usage_row \<Rightarrow> usage_row \<Rightarrow> usage_row" where
  "usage_merge new r =
     r\<lparr> us_request_count := us_request_count r + us_request_count new, us_allow_count := us_allow_count r + us_allow_count new,
        us_block_count := us_block_count r + us_block_count new, us_updated_at := max (us_updated_at r) (us_updated_at new) \<rparr>"

definition upsert_delta :: "usage_row list \<Rightarrow> usage_delta \<Rightarrow> usage_row list" where
  "upsert_delta usage d = upsert_row usage_key (usage_merge (usage_of d)) (usage_of d) usage"

definition updatePackageUsage :: "catalog_db \<Rightarrow> event_row list \<Rightarrow> usage_row list \<Rightarrow> usage_row list" where
  "updatePackageUsage c rows usage = foldl upsert_delta usage (buildPackageUsageDeltas c rows)"

text \<open>
  The rebuild runs in one transaction: the insertion fails when another tenant has a row for the same
  project and version, and then nothing changes.
\<close>

definition rebuildProjectPackages ::
    "string \<Rightarrow> string \<Rightarrow> catalog_db \<Rightarrow> event_row list \<Rightarrow> usage_row list \<Rightarrow> js_error + (nat \<times> usage_row list)" where
  "rebuildProjectPackages projectId tenantId c events usage =
     (let eventRows = filter (\<lambda>e. er_tenant_id e = tenantId \<and> er_project_id e = Some projectId \<and> er_source e = ''proxy'' \<and>
            (er_event_type e = ''artifact'' \<or> er_event_type e = ''upstream_error'') \<and> er_package_version_id e \<noteq> None) events;
          kept = filter (\<lambda>u. \<not> (us_project_id u = projectId \<and> us_tenant_id u = tenantId)) usage;
          usageRows = map usage_of (buildPackageUsageDeltas c eventRows)
      in if eventRows = [] \<or> usageRows = [] then Inr (0, kept)
         else if list_ex (\<lambda>u. list_ex (\<lambda>k. usage_key k = usage_key u) kept) usageRows
         then Inl (AppError ''ppu_project_package_version_idx'')
         else Inr (length usageRows, kept @ usageRows))"

definition deleteProjectPackages :: "string \<Rightarrow> string \<Rightarrow> usage_row list \<Rightarrow> nat \<times> usage_row list" where
  "deleteProjectPackages projectId tenantId usage =
     (let mine = (\<lambda>u. us_project_id u = projectId \<and> us_tenant_id u = tenantId)
      in (length (filter mine usage), filter (\<lambda>u. \<not> mine u) usage))"

definition rebuildPackagesRoute ::
    "(string \<Rightarrow> bool) \<Rightarrow> auth_context \<Rightarrow> string \<Rightarrow> project_row list \<Rightarrow> project_member_row list \<Rightarrow> catalog_db \<Rightarrow>
     event_row list \<Rightarrow> usage_row list \<Rightarrow> (nat \<times> usage_row list) http_result" where
  "rebuildPackagesRoute is_uuid auth param projects members c events usage =
     sum_bind (requireProjectAccess is_uuid auth True param projects members) (\<lambda>(projectId, _).
     sum_bind (requireTenantCapability auth ''packages.rebuild'' ''Access denied'') (\<lambda>_.
       service_call (rebuildProjectPackages projectId (au_tenantId auth) c events usage)))"

definition deletePackagesRoute ::
    "(string \<Rightarrow> bool) \<Rightarrow> auth_context \<Rightarrow> string \<Rightarrow> project_row list \<Rightarrow> project_member_row list \<Rightarrow> usage_row list \<Rightarrow>
     (nat \<times> usage_row list) http_result" where
  "deletePackagesRoute is_uuid auth param projects members usage =
     sum_bind (requireProjectAccess is_uuid auth True param projects members) (\<lambda>(projectId, _).
     sum_bind (requireTenantCapability auth ''packages.rebuild'' ''Access denied'') (\<lambda>_.
       Inr (deleteProjectPackages projectId (au_tenantId auth) usage)))"

section \<open>Attribution of events\<close>

record usage_event =
  ue_ecosystem :: string
  ue_package :: string
  ue_version :: string
  ue_decision :: int
  ue_event_type :: string
  ue_decision_cache :: bool
  ue_requested_at :: string
  ue_project_token_hash :: string
  ue_trace_id :: string
  ue_request_id :: string
  ue_tenant_id :: string
  ue_project_id :: string
  ue_serve_mode :: "string option"
  ue_bytes_transferred :: int
  ue_client_ip :: "string option"
  ue_duration_ms :: "int option"
  ue_decision_path :: "string option"
  ue_requested_ref :: "string option"
  ue_resolved_ref :: "string option"
  ue_ref_resolution_source :: "string option"
  ue_related_versions :: "related_version list"

definition dateIsUnsetOrAtOrAfter :: "ms option \<Rightarrow> ms option \<Rightarrow> bool" where
  "dateIsUnsetOrAtOrAfter value atDate =
     (case value of None \<Rightarrow> True | Some u \<Rightarrow> (case atDate of None \<Rightarrow> False | Some t \<Rightarrow> t \<le> u))"

text \<open>The token of a hash with its project, as the left join returns them.\<close>

definition token_resolution :: "tenancy_db \<Rightarrow> string \<Rightarrow> (token_row \<times> project_row option) option" where
  "token_resolution db hash =
     (if hash = [] then None
      else map_option (\<lambda>t. (t, first_row (\<lambda>p. pj_id p = tk_project_id t) (tn_projects db)))
             (first_row (\<lambda>t. tk_token_hash t = hash) (tn_tokens db)))"

text \<open>
  The end of a current project is a date far in the future, not null: a date that does not parse
  fails the comparison with it.
\<close>

definition tokenWasValidAtRequest :: "token_row \<Rightarrow> project_row option \<Rightarrow> ms option \<Rightarrow> bool" where
  "tokenWasValidAtRequest t project atDate =
     (dateIsUnsetOrAtOrAfter (tk_revoked_at t) atDate \<and> dateIsUnsetOrAtOrAfter (tk_expires_at t) atDate \<and>
      (case project of None \<Rightarrow> True | Some p \<Rightarrow> atDate \<noteq> None \<and> dateIsUnsetOrAtOrAfter (pj_effective_to p) atDate))"

record attribution =
  ab_tenant_id :: string
  ab_project_id :: "string option"
  ab_project_token_id :: "string option"

definition attribute_event ::
    "(string \<Rightarrow> ms option) \<Rightarrow> proxy_context \<Rightarrow> tenancy_db \<Rightarrow> usage_event \<Rightarrow> attribution option" where
  "attribute_event parse_date proxy db event =
     (let attributed =
        (case token_resolution db (ue_project_token_hash event) of
           Some (t, project) \<Rightarrow>
             if tokenWasValidAtRequest t project (parse_date (ue_requested_at event))
             then Some \<lparr> ab_tenant_id = tk_tenant_id t, ab_project_id = or_null (tk_project_id t), ab_project_token_id = Some (tk_id t) \<rparr>
             else None
         | None \<Rightarrow>
             if ue_tenant_id event = [] \<or> \<not> proxyAllowsTenant proxy (ue_tenant_id event) then None
             else if ue_project_id event = [] \<or>
                     map_option pj_tenant_id (first_row (\<lambda>p. pj_id p = ue_project_id event) (tn_projects db)) \<noteq> Some (ue_tenant_id event)
             then None
             else Some \<lparr> ab_tenant_id = ue_tenant_id event, ab_project_id = Some (ue_project_id event), ab_project_token_id = None \<rparr>)
      in case attributed of
           None \<Rightarrow> None
         | Some a \<Rightarrow> if proxyAllowsTenant proxy (ab_tenant_id a) then Some a else None)"

definition DECISION_PATHS :: "string list" where
  "DECISION_PATHS = [''cache_hit'', ''check'', ''control_plane_unavailable'', ''bypass'']"

definition normalizeDecisionPath :: "string option \<Rightarrow> js_error + string option" where
  "normalizeDecisionPath path =
     (if \<not> present path then Inr None
      else if the path \<in> set DECISION_PATHS then Inr path
      else Inl (AppError (''unknown decision path: '' @ the path)))"

record normalized_event =
  nv_id :: string
  nv_attribution :: attribution
  nv_event :: usage_event
  nv_decision_path :: "string option"
  nv_requested_at :: "ms option"

text \<open>The callback of \<open>usageEvents.map\<close> and the filter after it.\<close>

fun normalize_events ::
    "(string \<Rightarrow> ms option) \<Rightarrow> proxy_context \<Rightarrow> tenancy_db \<Rightarrow> usage_event list \<Rightarrow> uuid_source \<Rightarrow>
     js_error + (normalized_event list \<times> uuid_source)" where
  "normalize_events parse_date proxy db [] u = Inr ([], u)"
| "normalize_events parse_date proxy db (e # es) u =
     (case attribute_event parse_date proxy db e of
        None \<Rightarrow> normalize_events parse_date proxy db es u
      | Some a \<Rightarrow>
          let (rowId, u1) = draw u
          in sum_bind (normalizeDecisionPath (ue_decision_path e)) (\<lambda>path.
             sum_bind (normalize_events parse_date proxy db es u1) (\<lambda>(rows, u2).
               if ab_tenant_id a = [] then Inr (rows, u2)
               else Inr (\<lparr> nv_id = rowId, nv_attribution = a, nv_event = e, nv_decision_path = path,
                           nv_requested_at = parse_date (ue_requested_at e) \<rparr> # rows, u2))))"

section \<open>Recording of events\<close>

definition normalizedRef :: "string option \<Rightarrow> string" where
  "normalizedRef x = (case x of None \<Rightarrow> [] | Some s \<Rightarrow> js_trim s)"

definition shouldRecordObservedPackageVersionRef :: "string option \<Rightarrow> string option \<Rightarrow> string \<Rightarrow> bool" where
  "shouldRecordObservedPackageVersionRef requested_ref resolved_ref canonical_version =
     (let requestedRef = normalizedRef requested_ref;
          canonicalVersion = js_trim canonical_version;
          resolvedRef = normalizedRef resolved_ref
      in if requestedRef = [] then False
         else if canonicalVersion = [] then True
         else \<not> (requestedRef = canonicalVersion \<and>
                 (resolvedRef = [] \<or> resolvedRef = requestedRef \<or> resolvedRef = canonicalVersion)))"

definition invalid_time :: js_error where
  "invalid_time = AppError ''Invalid time value''"

text \<open>
  Recording related versions with a date that does not parse throws at the first version that gets a
  catalog row, after that row has been written.
\<close>

fun related_versions_undated :: "string \<Rightarrow> string \<Rightarrow> related_version list \<Rightarrow> catalog_db \<Rightarrow> js_error option \<times> catalog_db" where
  "related_versions_undated ecosystem package [] c = (None, c)"
| "related_versions_undated ecosystem package (related # rs) c =
     (let version = js_trim (rv_version related)
      in if version = [] \<or> rv_relationship_type related = [] then related_versions_undated ecosystem package rs c
         else
           let (refs, c1) = resolvePackageCatalogReferences
                 [\<lparr> pi_ecosystem = ecosystem, pi_package = package, pi_version = Some version,
                    ci_version_kind = Some (rv_version_kind related), ci_artifact_kind = Some (rv_artifact_kind related),
                    ci_display_role = Some (rv_display_role related) \<rparr>] c;
               child = (case refs of r # _ \<Rightarrow> r | [] \<Rightarrow> no_reference)
           in if \<not> present (rf_package_id child) \<or> \<not> present (rf_package_version_id child)
              then related_versions_undated ecosystem package rs c1
              else (Some invalid_time, c1))"

definition catalogued_ids :: "artifact_identity \<Rightarrow> bool" where
  "catalogued_ids ai = (present (ai_package_id ai) \<and> present (ai_package_version_id ai))"

definition record_event_refs ::
    "(string \<Rightarrow> jsval option) \<Rightarrow> normalized_event \<Rightarrow> artifact_identity \<Rightarrow> catalog_db \<Rightarrow> js_error option \<times> catalog_db" where
  "record_event_refs json_parse row ai c =
     (let e = nv_event row;
          requested_ref = opt_or_null (ue_requested_ref e);
          resolved_ref = opt_or_null (ue_resolved_ref e);
          canonicalVersion = default (ue_version e) (ai_version ai);
          refs = shouldRecordObservedPackageVersionRef requested_ref resolved_ref canonicalVersion
      in case nv_requested_at row of
           Some t \<Rightarrow>
             let c1 = (if refs
                       then recordObservedPackageVersionRefs t
                              \<lparr> oi_ecosystem = ai_ecosystem ai, oi_package_id = ai_package_id ai,
                                oi_package_version_id = ai_package_version_id ai, oi_version = Some canonicalVersion,
                                oi_requested_ref = requested_ref, oi_resolved_ref = resolved_ref,
                                oi_ref_resolution_source = opt_or_null (ue_ref_resolution_source e) \<rparr> c
                       else c)
             in (None, if ue_related_versions e = [] then c1
                       else recordPackageVersionRelatedVersions json_parse t (ai_ecosystem ai) (ai_package ai)
                              (ai_package_id ai) (ai_package_version_id ai) (ue_related_versions e) c1)
         | None \<Rightarrow>
             if \<not> catalogued_ids ai then (None, c)
             else if refs then (Some invalid_time, c)
             else related_versions_undated (ai_ecosystem ai) (ai_package ai) (ue_related_versions e) c)"

fun record_refs_loop ::
    "(string \<Rightarrow> jsval option) \<Rightarrow> (normalized_event \<times> artifact_identity) list \<Rightarrow> catalog_db \<Rightarrow> js_error option \<times> catalog_db" where
  "record_refs_loop json_parse [] c = (None, c)"
| "record_refs_loop json_parse ((row, ai) # rows) c =
     (case record_event_refs json_parse row ai c of
        (Some err, c1) \<Rightarrow> (Some err, c1)
      | (None, c1) \<Rightarrow> record_refs_loop json_parse rows c1)"

definition usage_event_row :: "proxy_context \<Rightarrow> normalized_event \<Rightarrow> artifact_identity \<Rightarrow> ms \<Rightarrow> event_row" where
  "usage_event_row proxy row ai requestedAt =
     (let e = nv_event row; a = nv_attribution row
      in \<lparr> er_id = nv_id row, er_tenant_id = ab_tenant_id a, er_project_id = ab_project_id a, er_proxy_id = px_proxyId proxy,
           er_package_id = ai_package_id ai, er_package_version_id = ai_package_version_id ai,
           er_decision = (if ue_decision e = 1 then ''allow'' else ''block''), er_reason = None, er_source = ''proxy'',
           er_event_type = ue_event_type e, er_decision_cache = Some (ue_decision_cache e), er_trace_id = or_null (ue_trace_id e),
           er_span_id = None, er_request_id = or_null (ue_request_id e), er_serve_mode = opt_or_null (ue_serve_mode e),
           er_bytes_transferred = Some (ue_bytes_transferred e), er_project_token_id = ab_project_token_id a,
           er_client_ip = ue_client_ip e, er_proxy_ip = px_proxyIp proxy, er_duration_ms = ue_duration_ms e,
           er_decision_path = nv_decision_path row, er_raw_identity = Some (ai_raw ai),
           er_requested_ref = opt_or_null (ue_requested_ref e), er_resolved_ref = opt_or_null (ue_resolved_ref e),
           er_ref_resolution_source = opt_or_null (ue_ref_resolution_source e), er_requested_at = requestedAt \<rparr>)"

fun usage_event_rows :: "proxy_context \<Rightarrow> (normalized_event \<times> artifact_identity) list \<Rightarrow> event_row list option" where
  "usage_event_rows proxy [] = Some []"
| "usage_event_rows proxy ((row, ai) # rows) =
     (case nv_requested_at row of
        None \<Rightarrow> None
      | Some t \<Rightarrow> map_option ((#) (usage_event_row proxy row ai t)) (usage_event_rows proxy rows))"

record gateway_db =
  gw_check :: check_db
  gw_usage :: "usage_row list"

abbreviation "check_catalog db \<equiv> ig_catalog (kd_ingest (ck_connectors db))"

definition usage_input :: "normalized_event \<Rightarrow> artifact_identity_input" where
  "usage_input row =
     \<lparr> pi_ecosystem = ue_ecosystem (nv_event row), pi_package = ue_package (nv_event row),
       pi_version = Some (ue_version (nv_event row)), ii_source = Some ''record_usage'', ii_parser_version = None \<rparr>"

text \<open>
  The lookup of hinted projects compares a uuid column: a hint that is no uuid makes the query fail,
  and with it the batch.
\<close>

definition malformed_hint :: "(string \<Rightarrow> bool) \<Rightarrow> tenancy_db \<Rightarrow> usage_event \<Rightarrow> bool" where
  "malformed_hint is_uuid db e =
     (token_resolution db (ue_project_token_hash e) = None \<and> ue_project_id e \<noteq> [] \<and> \<not> is_uuid (ue_project_id e))"

definition store_usage ::
    "(string \<Rightarrow> jsval option) \<Rightarrow> proxy_context \<Rightarrow> nat \<Rightarrow> normalized_event list \<Rightarrow> gateway_db \<Rightarrow> (js_error + nat) \<times> gateway_db" where
  "store_usage json_parse proxy n validRows db =
     (let ck = gw_check db;
          (ids, c1) = resolveArtifactIdentities (map usage_input validRows) (check_catalog ck);
          (failed, c2) = record_refs_loop json_parse (zip validRows ids) c1;
          db1 = db\<lparr> gw_check := set_catalog c2 ck \<rparr>
      in case failed of
           Some err \<Rightarrow> (Inl err, db1)
         | None \<Rightarrow>
             (case usage_event_rows proxy (zip validRows ids) of
                None \<Rightarrow> (Inl invalid_time, db1)
              | Some eventRows \<Rightarrow>
                  (Inr n, db1\<lparr> gw_check := (gw_check db1)\<lparr> ck_events := ck_events ck @ eventRows \<rparr>,
                               gw_usage := updatePackageUsage c2 eventRows (gw_usage db) \<rparr>)))"

definition handleRecordUsage ::
    "(string \<Rightarrow> ms option) \<Rightarrow> (string \<Rightarrow> jsval option) \<Rightarrow> (string \<Rightarrow> bool) \<Rightarrow> proxy_context \<Rightarrow> usage_event list \<Rightarrow> gateway_db \<Rightarrow>
     (js_error + nat) \<times> gateway_db" where
  "handleRecordUsage parse_date json_parse is_uuid proxy usageEvents db =
     (let ck = gw_check db
      in if usageEvents = [] then (Inr 0, db)
         else if list_ex (malformed_hint is_uuid (ck_tenancy ck)) usageEvents
         then (Inl (AppError ''invalid input syntax for type uuid''), db)
         else
           (case normalize_events parse_date proxy (ck_tenancy ck) usageEvents (ck_uuids ck) of
              Inl err \<Rightarrow> (Inl err, db)
            | Inr (validRows, u) \<Rightarrow>
                let db0 = db\<lparr> gw_check := ck\<lparr> ck_uuids := u \<rparr> \<rparr>
                in if validRows = [] then (Inr (length usageEvents), db0)
                   else store_usage json_parse proxy (length usageEvents) validRows db0))"

section \<open>The stream handler\<close>

text \<open>A message of the stream: protobuf strings are never null, an absent one is empty.\<close>

record usage_message =
  um_ecosystem :: string
  um_package :: string
  um_version :: string
  um_decision :: int
  um_eventType :: int
  um_decisionCache :: bool
  um_requestedAt :: string
  um_projectTokenHash :: string
  um_traceId :: string
  um_requestId :: string
  um_tenantId :: string
  um_projectId :: string
  um_serveMode :: serve_mode
  um_bytesTransferred :: int
  um_clientIp :: string
  um_durationMs :: int
  um_decisionPath :: string
  um_requestedRef :: string
  um_resolvedRef :: string
  um_refResolutionSource :: string
  um_relatedVersions :: "related_version list"

definition eventTypeToString :: "int \<Rightarrow> js_error + string" where
  "eventTypeToString t =
     (if t = 1 then Inr ''metadata'' else if t = 2 then Inr ''artifact'' else if t = 3 then Inr ''upstream_error''
      else Inl (AppError ''unknown request event type''))"

definition usage_event_of :: "usage_message \<Rightarrow> string \<Rightarrow> usage_event" where
  "usage_event_of m eventType =
     \<lparr> ue_ecosystem = um_ecosystem m, ue_package = um_package m, ue_version = um_version m, ue_decision = um_decision m,
       ue_event_type = eventType, ue_decision_cache = um_decisionCache m, ue_requested_at = um_requestedAt m,
       ue_project_token_hash = um_projectTokenHash m, ue_trace_id = um_traceId m, ue_request_id = um_requestId m,
       ue_tenant_id = um_tenantId m, ue_project_id = um_projectId m, ue_serve_mode = serveModeToString (um_serveMode m),
       ue_bytes_transferred = um_bytesTransferred m, ue_client_ip = or_null (um_clientIp m),
       ue_duration_ms = (if um_durationMs m = 0 then None else Some (um_durationMs m)),
       ue_decision_path = or_null (um_decisionPath m), ue_requested_ref = or_null (um_requestedRef m),
       ue_resolved_ref = or_null (um_resolvedRef m), ue_ref_resolution_source = or_null (um_refResolutionSource m),
       ue_related_versions = um_relatedVersions m \<rparr>"

definition assertRecordUsageBatchWithinLimit :: "nat \<Rightarrow> nat \<Rightarrow> js_error + unit" where
  "assertRecordUsageBatchWithinLimit maxEvents eventCount =
     (if eventCount > maxEvents then Inl (AppError (''recordUsage batch exceeds max size of '' @ show_nat maxEvents @ '' events''))
      else Inr ())"

fun collect_usage :: "nat \<Rightarrow> nat \<Rightarrow> usage_message list \<Rightarrow> js_error + usage_event list" where
  "collect_usage maxEvents n [] = Inr []"
| "collect_usage maxEvents n (m # ms) =
     sum_bind (assertRecordUsageBatchWithinLimit maxEvents (n + 1)) (\<lambda>_.
     sum_bind (eventTypeToString (um_eventType m)) (\<lambda>t.
     sum_bind (collect_usage maxEvents (n + 1) ms) (\<lambda>es. Inr (usage_event_of m t # es))))"

definition recordUsage ::
    "nat \<Rightarrow> (string \<Rightarrow> ms option) \<Rightarrow> (string \<Rightarrow> jsval option) \<Rightarrow> (string \<Rightarrow> bool) \<Rightarrow> proxy_context \<Rightarrow> usage_message list \<Rightarrow>
     gateway_db \<Rightarrow> (js_error + nat) \<times> gateway_db" where
  "recordUsage maxEvents parse_date json_parse is_uuid proxy stream db =
     (case collect_usage maxEvents 0 stream of
        Inl err \<Rightarrow> (Inl err, db)
      | Inr usageEvents \<Rightarrow> handleRecordUsage parse_date json_parse is_uuid proxy usageEvents db)"

section \<open>What the counters count\<close>

text \<open>
  The reference: the counters of a list of events are how many there are, how many were allowed and
  blocked, and the times of the earliest and the latest.
\<close>

definition tally :: "event_row list \<Rightarrow> int \<times> int \<times> int" where
  "tally es = (int (length es), int (length (filter (\<lambda>e. er_decision e = ''allow'') es)),
     int (length (filter (\<lambda>e. er_decision e \<noteq> ''allow'') es)))"

definition delta_of :: "event_row list \<Rightarrow> usage_delta" where
  "delta_of es =
     \<lparr> ud_tenant_id = er_tenant_id (hd es), ud_project_id = the (er_project_id (hd es)),
       ud_package_version_id = the (er_package_version_id (hd es)), ud_request_count = fst (tally es),
       ud_allow_count = fst (snd (tally es)), ud_block_count = snd (snd (tally es)),
       ud_first_seen_at = Min (er_requested_at ` set es), ud_last_seen_at = Max (er_requested_at ` set es) \<rparr>"

definition step_delta :: "usage_delta option \<Rightarrow> event_row \<Rightarrow> usage_delta option" where
  "step_delta d e = Some (case d of None \<Rightarrow> new_delta e | Some d \<Rightarrow> bump_delta e d)"

lemma step_snoc:
  assumes "es \<noteq> []"
  shows "bump_delta e (delta_of es) = delta_of (es @ [e])"
proof -
  let ?ts = "er_requested_at ` set es"
  have "Min (insert (er_requested_at e) ?ts) = min (er_requested_at e) (Min ?ts)"
    and "Max (insert (er_requested_at e) ?ts) = max (er_requested_at e) (Max ?ts)"
    using assms by (simp_all add: Min_insert Max_insert)
  moreover have "(if er_requested_at e < Min ?ts then er_requested_at e else Min ?ts) = min (er_requested_at e) (Min ?ts)"
    and "(if er_requested_at e > Max ?ts then er_requested_at e else Max ?ts) = max (er_requested_at e) (Max ?ts)"
    by (auto simp: min_def max_def)
  moreover have "er_requested_at ` set (es @ [e]) = insert (er_requested_at e) ?ts" by auto
  ultimately show ?thesis
    using assms by (simp only: bump_delta_def delta_of_def tally_def usage_delta.simps usage_delta.update_convs set_append list.set image_Un
        image_insert image_empty Un_insert_right Un_empty_right hd_append2) (simp add: min.commute max.commute)
qed

lemma step_deltas: "foldl step_delta None es = (if es = [] then None else Some (delta_of es))"
proof (induction es rule: rev_induct)
  case (snoc e es)
  show ?case
  proof (cases "es = []")
    case True
    then show ?thesis by (simp add: step_delta_def new_delta_def delta_of_def tally_def)
  next
    case False
    with snoc show ?thesis by (simp add: step_delta_def step_snoc)
  qed
qed simp

lemma add_event_map: "map_of (add_event m e) k = (if k = delta_key e then step_delta (map_of m k) e else map_of m k)"
  by (simp add: add_event_def map_of_map_set step_delta_def split: option.splits)

lemma add_events_map: "map_of (foldl add_event m es) k = foldl step_delta (map_of m k) (filter (\<lambda>e. delta_key e = k) es)"
  by (induction es arbitrary: m) (auto simp: add_event_map)

lemma map_set_fst: "fst ` set (map_set k v m) = insert k (fst ` set m)"
proof (induction m)
  case (Cons p m)
  then show ?case by (cases p) (simp add: insert_commute)
qed simp

lemma map_set_keys: "distinct (map fst m) \<Longrightarrow> distinct (map fst (map_set k v m))"
proof (induction m)
  case (Cons p m)
  then show ?case by (cases p) (simp add: map_set_fst)
qed simp

lemma add_events_keys: "distinct (map fst m) \<Longrightarrow> distinct (map fst (foldl add_event m es))"
  by (induction es arbitrary: m) (auto simp: add_event_def map_set_keys split: option.splits)

lemma in_set_image_snd: "d \<in> snd ` set m \<longleftrightarrow> (\<exists>k. (k, d) \<in> set m)"
  by (induction m) auto

lemma deltas_for_key:
  "d \<in> set (map snd (foldl add_event [] es)) \<longleftrightarrow>
     (\<exists>k. filter (\<lambda>e. delta_key e = k) es \<noteq> [] \<and> d = delta_of (filter (\<lambda>e. delta_key e = k) es))"
proof -
  let ?m = "foldl add_event [] es"
  have "distinct (map fst ?m)" by (rule add_events_keys) simp
  then have "(k, d) \<in> set ?m \<longleftrightarrow> map_of ?m k = Some d" for k by (simp add: map_of_eq_Some_iff)
  moreover have "d \<in> set (map snd ?m) \<longleftrightarrow> (\<exists>k. (k, d) \<in> set ?m)" by (simp add: in_set_image_snd)
  ultimately have "d \<in> set (map snd ?m) \<longleftrightarrow> (\<exists>k. map_of ?m k = Some d)" by simp
  moreover have "map_of ?m k = Some d \<longleftrightarrow> filter (\<lambda>e. delta_key e = k) es \<noteq> [] \<and> d = delta_of (filter (\<lambda>e. delta_key e = k) es)" for k
    by (simp only: add_events_map map_of.simps step_deltas) (simp add: eq_commute [of d])
  ultimately show ?thesis by (simp only:)
qed

text \<open>What a call counts: relevant events of displayed versions, less the ones that repeat a reference.\<close>

definition counted_events :: "catalog_db \<Rightarrow> event_row list \<Rightarrow> event_row list" where
  "counted_events c rows =
     (let usageRows = filter usage_relevant rows in filter (counted c (humanRefKeys c usageRows)) usageRows)"

lemma buildPackageUsageDeltas_counted: "buildPackageUsageDeltas c rows = map snd (foldl add_event [] (counted_events c rows))"
proof -
  have "counted_events c rows = []" if "\<not> list_ex (\<lambda>r. present (er_package_version_id r)) (filter usage_relevant rows)"
    using that by (auto simp: counted_events_def Let_def counted_def displayed_def list_ex_iff filter_empty_conv)
  then show ?thesis by (auto simp: buildPackageUsageDeltas_def counted_events_def Let_def)
qed

definition events_of :: "string \<Rightarrow> string \<Rightarrow> event_row list \<Rightarrow> event_row list" where
  "events_of projectId versionId es = filter (\<lambda>e. er_project_id e = Some projectId \<and> er_package_version_id e = Some versionId) es"

text \<open>Identifiers are uuids: they do not contain the separator of the keys.\<close>

definition plain_ids :: "event_row \<Rightarrow> bool" where
  "plain_ids e = (\<forall>x. er_project_id e = Some x \<longrightarrow> CHR ''|'' \<notin> set x)"

lemma delta_key_inject:
  assumes "plain_ids e" and "plain_ids f" and "er_project_id e \<noteq> None" and "er_package_version_id e \<noteq> None"
    and "er_project_id f \<noteq> None" and "er_package_version_id f \<noteq> None"
  shows "delta_key e = delta_key f \<longleftrightarrow> er_project_id e = er_project_id f \<and> er_package_version_id e = er_package_version_id f"
  using assms by (auto simp: delta_key_def plain_ids_def dest: append_sep_inject)

lemma counted_ids: "e \<in> set (counted_events c es) \<Longrightarrow> er_project_id e \<noteq> None \<and> er_package_version_id e \<noteq> None"
  by (auto simp: counted_events_def Let_def counted_def displayed_def present_def split: option.splits)

lemma same_key_events:
  assumes "\<forall>e \<in> set es. plain_ids e" and "f \<in> set (counted_events c es)"
    and "er_project_id f = Some projectId" and "er_package_version_id f = Some versionId"
  shows "filter (\<lambda>e. delta_key e = delta_key f) (counted_events c es) = events_of projectId versionId (counted_events c es)"
proof -
  have sub: "set (counted_events c es) \<subseteq> set es" by (auto simp: counted_events_def Let_def)
  have "delta_key e = delta_key f \<longleftrightarrow> er_project_id e = Some projectId \<and> er_package_version_id e = Some versionId"
    if "e \<in> set (counted_events c es)" for e
    using delta_key_inject [of e f] counted_ids [OF that] counted_ids [OF assms(2)] assms that sub by (auto simp: subset_iff)
  then show ?thesis by (auto simp: events_of_def intro: filter_cong)
qed

lemma deltas_exact:
  assumes "\<forall>e \<in> set es. plain_ids e"
  shows "d \<in> set (buildPackageUsageDeltas c es) \<longleftrightarrow>
    (\<exists>p v. events_of p v (counted_events c es) \<noteq> [] \<and> d = delta_of (events_of p v (counted_events c es)))"
  (is "_ \<longleftrightarrow> ?R")
proof
  let ?cs = "counted_events c es"
  assume "d \<in> set (buildPackageUsageDeltas c es)"
  then obtain k where k: "filter (\<lambda>e. delta_key e = k) ?cs \<noteq> []" "d = delta_of (filter (\<lambda>e. delta_key e = k) ?cs)"
    unfolding buildPackageUsageDeltas_counted deltas_for_key by blast
  then obtain f where f: "f \<in> set ?cs" "delta_key f = k" by (auto simp: filter_empty_conv)
  obtain p v where pv: "er_project_id f = Some p" "er_package_version_id f = Some v" using counted_ids [OF f(1)] by auto
  show ?R using k f(2) same_key_events [OF assms f(1) pv] by auto
next
  let ?cs = "counted_events c es"
  assume ?R
  then obtain p v where pv: "events_of p v ?cs \<noteq> []" "d = delta_of (events_of p v ?cs)" by blast
  then obtain f where f: "f \<in> set ?cs" "er_project_id f = Some p" "er_package_version_id f = Some v"
    by (auto simp: events_of_def filter_empty_conv)
  show "d \<in> set (buildPackageUsageDeltas c es)"
    unfolding buildPackageUsageDeltas_counted deltas_for_key using pv same_key_events [OF assms f] by metis
qed

section \<open>How a batch moves the counters\<close>

interpretation usage: upserting usage_key usage_merge
  by unfold_locales (simp add: usage_key_def usage_merge_def)

definition delta_pair :: "usage_delta \<Rightarrow> string \<times> string" where
  "delta_pair d = (ud_project_id d, ud_package_version_id d)"

definition usage_at :: "string \<Rightarrow> string \<Rightarrow> usage_row list \<Rightarrow> usage_row option" where
  "usage_at p v rows = find (\<lambda>r. usage_key r = Some (p, v)) rows"

lemma usage_key_of [simp]: "usage_key (usage_of d) = Some (delta_pair d)"
  by (simp add: usage_key_def usage_of_def delta_pair_def)

lemma upsert_delta_at:
  "usage_at p v (upsert_delta rows d) =
    (if delta_pair d = (p, v) then Some (case usage_at p v rows of None \<Rightarrow> usage_of d | Some r \<Rightarrow> usage_merge (usage_of d) r)
     else usage_at p v rows)"
  using usage.upsert_find [of "usage_of d" "(p, v)" rows] by (simp add: usage_at_def upsert_delta_def)

lemma upsert_deltas_at:
  assumes "distinct (map delta_pair ds)"
  shows "usage_at p v (foldl upsert_delta rows ds) =
    (case find (\<lambda>d. delta_pair d = (p, v)) ds of
       None \<Rightarrow> usage_at p v rows
     | Some d \<Rightarrow> Some (case usage_at p v rows of None \<Rightarrow> usage_of d | Some r \<Rightarrow> usage_merge (usage_of d) r))"
  using assms
proof (induction ds arbitrary: rows)
  case (Cons d ds)
  show ?case
  proof (cases "delta_pair d = (p, v)")
    case True
    with Cons.prems have "find (\<lambda>d. delta_pair d = (p, v)) ds = None" by (force simp: find_None_iff)
    with True Cons show ?thesis by (simp add: upsert_delta_at)
  next
    case False
    with Cons show ?thesis by (simp add: upsert_delta_at split: option.split)
  qed
qed simp

text \<open>Each counter has one delta, as the keys of the map are the pairs of project and version.\<close>

lemma delta_of_pair:
  assumes "filter (\<lambda>e. delta_key e = k) es \<noteq> []"
  shows "fst (delta_pair (delta_of (filter (\<lambda>e. delta_key e = k) es))) @ ''|'' @
      snd (delta_pair (delta_of (filter (\<lambda>e. delta_key e = k) es))) = k"
proof -
  let ?h = "hd (filter (\<lambda>e. delta_key e = k) es)"
  have "?h \<in> set (filter (\<lambda>e. delta_key e = k) es)" using assms by (rule hd_in_set)
  then have "delta_key ?h = k" by simp
  then show ?thesis by (simp add: delta_pair_def delta_of_def delta_key_def)
qed

lemma deltas_distinct: "distinct (map delta_pair (buildPackageUsageDeltas c es))"
proof -
  let ?m = "foldl add_event [] (counted_events c es)"
  let ?key = "\<lambda>d. fst (delta_pair d) @ ''|'' @ snd (delta_pair d)"
  have d: "distinct (map fst ?m)" by (rule add_events_keys) simp
  have "?key x = k" if "(k, x) \<in> set ?m" for k x
  proof -
    from that d have "map_of ?m k = Some x" by (simp add: map_of_eq_Some_iff)
    then have "filter (\<lambda>e. delta_key e = k) (counted_events c es) \<noteq> [] \<and> x = delta_of (filter (\<lambda>e. delta_key e = k) (counted_events c es))"
      by (simp only: add_events_map map_of.simps step_deltas) (simp split: if_splits)
    then show ?thesis using delta_of_pair [of k "counted_events c es"] by simp
  qed
  then have "map (\<lambda>x. ?key (snd x)) ?m = map fst ?m" by (intro map_cong) auto
  then have "map (\<lambda>pv. fst pv @ ''|'' @ snd pv) (map delta_pair (map snd ?m)) = map fst ?m" by (simp only: map_map comp_def)
  then have "distinct (map (\<lambda>pv. fst pv @ ''|'' @ snd pv) (map delta_pair (map snd ?m)))" using d by (simp only:)
  then show ?thesis unfolding buildPackageUsageDeltas_counted by (rule conjunct1 [OF distinct_map [THEN iffD1]])
qed

lemma events_of_pair: "events_of p v es \<noteq> [] \<Longrightarrow> delta_pair (delta_of (events_of p v es)) = (p, v)"
proof -
  assume "events_of p v es \<noteq> []"
  then have "hd (events_of p v es) \<in> set (events_of p v es)" by (rule hd_in_set)
  then show ?thesis by (simp add: events_of_def delta_pair_def delta_of_def)
qed

lemma find_delta:
  assumes "\<forall>e \<in> set es. plain_ids e"
  shows "find (\<lambda>d. delta_pair d = (p, v)) (buildPackageUsageDeltas c es) =
    (if events_of p v (counted_events c es) = [] then None else Some (delta_of (events_of p v (counted_events c es))))"
proof (cases "events_of p v (counted_events c es) = []")
  case True
  have "delta_pair d \<noteq> (p, v)" if "d \<in> set (buildPackageUsageDeltas c es)" for d
    using that True events_of_pair by (auto simp: deltas_exact [OF assms])
  with True show ?thesis by (auto simp: find_None_iff)
next
  case False
  let ?d = "delta_of (events_of p v (counted_events c es))"
  have i: "?d \<in> set (buildPackageUsageDeltas c es)" "delta_pair ?d = (p, v)"
    using False by (auto simp: deltas_exact [OF assms] events_of_pair)
  then obtain d where d: "find (\<lambda>d. delta_pair d = (p, v)) (buildPackageUsageDeltas c es) = Some d"
    by (cases "find (\<lambda>d. delta_pair d = (p, v)) (buildPackageUsageDeltas c es)") (auto simp: find_None_iff)
  then have "d \<in> set (buildPackageUsageDeltas c es)" "delta_pair d = (p, v)" by (auto dest: find_SomeD)
  with i have "d = ?d" using deltas_distinct [of c es] by (simp add: distinct_map inj_on_def)
  with d False show ?thesis by simp
qed

section \<open>Counting in batches and counting at once\<close>

type_synonym counts = "int \<times> int \<times> int \<times> ms"

definition row_counts :: "usage_row \<Rightarrow> counts" where
  "row_counts r = (us_request_count r, us_allow_count r, us_block_count r, us_updated_at r)"

definition counts_at :: "string \<Rightarrow> string \<Rightarrow> usage_row list \<Rightarrow> counts option" where
  "counts_at p v rows = map_option row_counts (usage_at p v rows)"

definition counts_of :: "event_row list \<Rightarrow> counts option" where
  "counts_of es = (if es = [] then None
     else Some (fst (tally es), fst (snd (tally es)), snd (snd (tally es)), Max (er_requested_at ` set es)))"

fun plus_counts :: "counts option \<Rightarrow> counts option \<Rightarrow> counts option" where
  "plus_counts None y = y"
| "plus_counts x None = x"
| "plus_counts (Some (a, b, c, t)) (Some (a', b', c', t')) = Some (a + a', b + b', c + c', max t t')"

lemma plus_counts_None [simp]: "plus_counts x None = x"
  by (cases x) auto

lemma counts_append: "counts_of (es @ fs) = plus_counts (counts_of es) (counts_of fs)"
proof (cases "es = [] \<or> fs = []")
  case False
  then have "Max (er_requested_at ` (set es \<union> set fs)) = max (Max (er_requested_at ` set es)) (Max (er_requested_at ` set fs))"
    by (simp add: image_Un Max_Un)
  with False show ?thesis by (simp add: counts_of_def tally_def)
qed (auto simp: counts_of_def)

lemma counts_of_delta: "es \<noteq> [] \<Longrightarrow> Some (row_counts (usage_of (delta_of es))) = counts_of es"
  by (simp add: counts_of_def row_counts_def usage_of_def delta_of_def)

lemma counts_merge: "Some (row_counts (usage_merge new r)) = plus_counts (Some (row_counts r)) (Some (row_counts new))"
  by (simp add: row_counts_def usage_merge_def)

lemma update_counts:
  assumes "\<forall>e \<in> set es. plain_ids e"
  shows "counts_at p v (updatePackageUsage c es usage) =
    plus_counts (counts_at p v usage) (counts_of (events_of p v (counted_events c es)))"
proof (cases "events_of p v (counted_events c es) = []")
  case True
  with find_delta [OF assms, of p v c] show ?thesis
    by (simp add: counts_at_def updatePackageUsage_def upsert_deltas_at [OF deltas_distinct] counts_of_def)
next
  case False
  let ?d = "delta_of (events_of p v (counted_events c es))"
  have "usage_at p v (updatePackageUsage c es usage) =
      Some (case usage_at p v usage of None \<Rightarrow> usage_of ?d | Some r \<Rightarrow> usage_merge (usage_of ?d) r)"
    using find_delta [OF assms, of p v c] False by (simp add: updatePackageUsage_def upsert_deltas_at [OF deltas_distinct])
  then show ?thesis
    using counts_of_delta [OF False] counts_merge by (cases "usage_at p v usage") (simp_all add: counts_at_def)
qed

text \<open>
  The events of a project are unmixed when no version of it was requested both by a reference that
  resolved to another one and by one that resolved to itself: then no event is left out.
\<close>

definition unmixed :: "string \<Rightarrow> event_row list \<Rightarrow> bool" where
  "unmixed p es = (\<forall>e \<in> set es. \<forall>f \<in> set es. er_project_id e = Some p \<and> er_project_id f = Some p \<and>
     er_package_version_id e = er_package_version_id f \<longrightarrow> \<not> (human_ref e \<and> plain_ref f))"

definition used_events :: "catalog_db \<Rightarrow> event_row list \<Rightarrow> event_row list" where
  "used_events c es = filter (\<lambda>e. usage_relevant e \<and> displayed c e) es"

lemma unmixed_counted:
  assumes "\<forall>e \<in> set es. plain_ids e" and "unmixed p es"
  shows "events_of p v (counted_events c es) = events_of p v (used_events c es)"
proof -
  have "delta_key f \<notin> set (humanRefKeys c (filter usage_relevant es))"
    if f: "f \<in> set es" "displayed c f" "plain_ref f" "er_project_id f = Some p" for f
  proof
    assume "delta_key f \<in> set (humanRefKeys c (filter usage_relevant es))"
    then obtain e where e: "e \<in> set es" "displayed c e" "human_ref e" "delta_key e = delta_key f"
      by (auto simp: humanRefKeys_def)
    have "er_project_id e = er_project_id f \<and> er_package_version_id e = er_package_version_id f"
      using e f assms(1) by (intro delta_key_inject [THEN iffD1]) (auto simp: displayed_def present_def split: option.splits)
    with assms(2) e f show False by (auto simp: unmixed_def)
  qed
  then show ?thesis
    unfolding events_of_def counted_events_def used_events_def Let_def filter_filter
    by (intro filter_cong) (auto simp: counted_def)
qed

definition count_batches :: "catalog_db \<Rightarrow> event_row list list \<Rightarrow> usage_row list \<Rightarrow> usage_row list" where
  "count_batches c batches usage = foldl (\<lambda>u es. updatePackageUsage c es u) usage batches"

lemma batches_counts:
  assumes "\<forall>e \<in> set (concat batches). plain_ids e" and "unmixed p (concat batches)"
  shows "counts_at p v (count_batches c batches usage) =
    plus_counts (counts_at p v usage) (counts_of (events_of p v (used_events c (concat batches))))"
  using assms
proof (induction batches rule: rev_induct)
  case Nil
  then show ?case by (simp add: count_batches_def used_events_def events_of_def counts_of_def)
next
  case (snoc es batches)
  then have ok: "\<forall>e \<in> set es. plain_ids e" "unmixed p es" "\<forall>e \<in> set (concat batches). plain_ids e" "unmixed p (concat batches)"
    by (auto simp: unmixed_def)
  have assoc: "plus_counts (plus_counts x y) z = plus_counts x (plus_counts y z)" for x y z
    by (cases x; cases y; cases z) auto
  have "counts_at p v (count_batches c (batches @ [es]) usage) =
      plus_counts (counts_at p v (count_batches c batches usage)) (counts_of (events_of p v (used_events c es)))"
    using update_counts [OF ok(1)] unmixed_counted [OF ok(1,2)] by (simp add: count_batches_def)
  then show ?case
    using snoc.IH [OF ok(3,4)] by (simp add: assoc used_events_def events_of_def counts_append)
qed

lemma delta_event:
  assumes "d \<in> set (buildPackageUsageDeltas c es)"
  shows "\<exists>e \<in> set es. er_project_id e = Some (ud_project_id d) \<and> er_tenant_id e = ud_tenant_id d"
proof -
  from assms obtain k where k: "filter (\<lambda>e. delta_key e = k) (counted_events c es) \<noteq> []"
      "d = delta_of (filter (\<lambda>e. delta_key e = k) (counted_events c es))"
    unfolding buildPackageUsageDeltas_counted deltas_for_key by blast
  let ?h = "hd (filter (\<lambda>e. delta_key e = k) (counted_events c es))"
  have "?h \<in> set (filter (\<lambda>e. delta_key e = k) (counted_events c es))" using k(1) by (rule hd_in_set)
  then have "?h \<in> set (counted_events c es)" by simp
  moreover then have "?h \<in> set es" by (auto simp: counted_events_def Let_def)
  ultimately show ?thesis using k(2) counted_ids [of ?h c es] by (intro bexI [of _ ?h]) (auto simp: delta_of_def)
qed

definition owner :: "usage_row \<Rightarrow> string \<times> string" where
  "owner u = (us_project_id u, us_tenant_id u)"

definition event_owner :: "event_row \<Rightarrow> (string \<times> string) option" where
  "event_owner e = map_option (\<lambda>p. (p, er_tenant_id e)) (er_project_id e)"

lemma upsert_delta_owner: "owner ` set (upsert_delta rows d) \<subseteq> insert (ud_project_id d, ud_tenant_id d) (owner ` set rows)"
  by (auto simp: upsert_delta_def upsert_row_def owner_def usage_merge_def usage_of_def)

lemma upsert_deltas_owner:
  "owner ` set (foldl upsert_delta rows ds) \<subseteq> (\<lambda>d. (ud_project_id d, ud_tenant_id d)) ` set ds \<union> owner ` set rows"
proof (induction ds arbitrary: rows)
  case (Cons d ds)
  have "owner ` set (foldl upsert_delta (upsert_delta rows d) ds) \<subseteq>
      (\<lambda>d. (ud_project_id d, ud_tenant_id d)) ` set ds \<union> owner ` set (upsert_delta rows d)" by (rule Cons.IH)
  then show ?case using upsert_delta_owner [of rows d] by auto
qed simp

lemma batches_owner:
  "u \<in> set (count_batches c batches usage) \<Longrightarrow>
     owner u \<in> owner ` set usage \<or> (\<exists>e \<in> set (concat batches). event_owner e = Some (owner u))"
proof (induction batches arbitrary: u rule: rev_induct)
  case (snoc es batches)
  then have "owner u \<in> owner ` set (updatePackageUsage c es (count_batches c batches usage))"
    by (simp add: count_batches_def)
  then consider d where "d \<in> set (buildPackageUsageDeltas c es)" "owner u = (ud_project_id d, ud_tenant_id d)"
    | u' where "u' \<in> set (count_batches c batches usage)" "owner u = owner u'"
    using upsert_deltas_owner unfolding updatePackageUsage_def by blast
  then show ?case
  proof cases
    case 1
    then show ?thesis using delta_event [OF 1(1)] by (auto simp: event_owner_def)
  next
    case 2
    then show ?thesis using snoc.IH [OF 2(1)] by auto
  qed
qed (simp add: count_batches_def)

definition project_events :: "string \<Rightarrow> string \<Rightarrow> event_row list \<Rightarrow> event_row list" where
  "project_events projectId tenantId events =
     filter (\<lambda>e. er_tenant_id e = tenantId \<and> er_project_id e = Some projectId \<and> er_source e = ''proxy'' \<and>
       (er_event_type e = ''artifact'' \<or> er_event_type e = ''upstream_error'') \<and> er_package_version_id e \<noteq> None) events"

lemma rebuild_spec:
  assumes "\<forall>u \<in> set usage. us_project_id u = projectId \<longrightarrow> us_tenant_id u = tenantId"
  shows "\<exists>n. rebuildProjectPackages projectId tenantId c events usage =
    Inr (n, filter (\<lambda>u. us_project_id u \<noteq> projectId) usage @
            map usage_of (buildPackageUsageDeltas c (project_events projectId tenantId events)))"
proof -
  let ?kept = "filter (\<lambda>u. \<not> (us_project_id u = projectId \<and> us_tenant_id u = tenantId)) usage"
  let ?rows = "map usage_of (buildPackageUsageDeltas c (project_events projectId tenantId events))"
  have kept: "?kept = filter (\<lambda>u. us_project_id u \<noteq> projectId) usage" using assms by (intro filter_cong) auto
  have "us_project_id u = projectId" if "u \<in> set ?rows" for u
    using that delta_event by (fastforce simp: project_events_def usage_of_def)
  then have "\<not> list_ex (\<lambda>u. list_ex (\<lambda>k. usage_key k = usage_key u) ?kept) ?rows"
    unfolding kept by (auto simp: list_ex_iff usage_key_def)
  moreover have "?rows = []" if "project_events projectId tenantId events = []"
    using that by (simp add: buildPackageUsageDeltas_def)
  ultimately show ?thesis
    unfolding rebuildProjectPackages_def project_events_def [symmetric] Let_def kept by auto
qed

lemma rebuild_counts:
  assumes "\<forall>e \<in> set events. plain_ids e" and "unmixed projectId events"
    and "\<forall>e \<in> set events. er_project_id e = Some projectId \<longrightarrow> er_tenant_id e = tenantId"
  shows "counts_at projectId v (filter (\<lambda>u. us_project_id u \<noteq> projectId) usage @
      map usage_of (buildPackageUsageDeltas c (project_events projectId tenantId events))) =
    counts_of (events_of projectId v (used_events c events))"
proof -
  let ?es = "project_events projectId tenantId events"
  have ok: "\<forall>e \<in> set ?es. plain_ids e" "unmixed projectId ?es" using assms(1,2) by (auto simp: project_events_def unmixed_def)
  have same: "events_of projectId v (used_events c ?es) = events_of projectId v (used_events c events)"
    unfolding events_of_def used_events_def project_events_def filter_filter using assms(3)
    by (intro filter_cong) (auto simp: usage_relevant_def displayed_def present_def)
  have "usage_at projectId v (filter (\<lambda>u. us_project_id u \<noteq> projectId) usage @ rows) = usage_at projectId v rows" for rows
    by (induction usage) (auto simp: usage_at_def usage_key_def)
  moreover have "usage_at projectId v (map usage_of ds) = map_option usage_of (find (\<lambda>d. delta_pair d = (projectId, v)) ds)" for ds
    by (simp add: usage_at_def find_map_comp)
  ultimately show ?thesis
    using counts_of_delta [of "events_of projectId v (used_events c events)"]
    by (simp add: counts_at_def find_delta [OF ok(1)] unmixed_counted [OF ok] same counts_of_def)
qed


definition sample_event :: "string \<Rightarrow> string option \<Rightarrow> ms \<Rightarrow> event_row" where
  "sample_event decision requested t =
     \<lparr> er_id = ''e'', er_tenant_id = ''t1'', er_project_id = Some ''p1'', er_proxy_id = ''x'', er_package_id = Some ''k1'',
       er_package_version_id = Some ''v1'', er_decision = decision, er_reason = None, er_source = ''proxy'',
       er_event_type = ''artifact'', er_decision_cache = None, er_trace_id = None, er_span_id = None, er_request_id = None,
       er_serve_mode = None, er_bytes_transferred = None, er_project_token_id = None, er_client_ip = None, er_proxy_ip = None,
       er_duration_ms = None, er_decision_path = None, er_raw_identity = None, er_requested_ref = requested,
       er_resolved_ref = Some ''sha256:1'', er_ref_resolution_source = None, er_requested_at = t \<rparr>"

definition sample_versions :: catalog_db where
  "sample_versions = sample_catalog\<lparr> cg_versions :=
     [\<lparr> pv_id = ''v1'', pv_package_id = ''k1'', pv_version = ''sha256:1'', pv_version_kind = Digest, pv_artifact_kind = Docker_index,
        pv_display_role = Primary, pv_published_at = None, pv_last_metadata_seen_at = None, pv_last_used_at = None \<rparr>] \<rparr>"

lemma sample_batches:
  "counts_at ''p1'' ''v1'' (count_batches sample_versions
     [[sample_event ''allow'' (Some ''latest'') 5, sample_event ''block'' None 9], [sample_event ''allow'' (Some ''latest'') 7]] []) =
   Some (3, 2, 1, 9)"
  by code_simp


text \<open>
  The condition is needed: a request by tag and one by digest count once when they arrive in one
  batch, and twice when they arrive in two.
\<close>

lemma rebuild_differs_for_mixed_references:
  "let batches = [[sample_event ''allow'' (Some ''latest'') 5], [sample_event ''allow'' (Some ''sha256:1'') 7]];
       counted = count_batches sample_versions batches []
   in counts_at ''p1'' ''v1'' counted = Some (2, 2, 0, 7) \<and>
      map_option (\<lambda>(_, rebuilt). counts_at ''p1'' ''v1'' rebuilt)
        (case rebuildProjectPackages ''p1'' ''t1'' sample_versions (concat batches) counted of Inl _ \<Rightarrow> None | Inr r \<Rightarrow> Some r) =
      Some (Some (1, 1, 0, 5))"
  by code_simp

section \<open>Attribution\<close>

text \<open>On whose behalf an event is stored: a token that was valid at the time, or the hint of the proxy.\<close>

definition attributed :: "(string \<Rightarrow> ms option) \<Rightarrow> tenancy_db \<Rightarrow> usage_event list \<Rightarrow> event_row \<Rightarrow> bool" where
  "attributed parse_date db events e =
     (\<exists>ue \<in> set events. parse_date (ue_requested_at ue) = Some (er_requested_at e) \<and>
       (case er_project_token_id e of
          Some i \<Rightarrow> \<exists>t \<in> set (tn_tokens db). tk_id t = i \<and> tk_token_hash t = ue_project_token_hash ue \<and>
            er_tenant_id e = tk_tenant_id t \<and> er_project_id e = or_null (tk_project_id t) \<and>
            (\<forall>r. tk_revoked_at t = Some r \<longrightarrow> er_requested_at e \<le> r) \<and> (\<forall>x. tk_expires_at t = Some x \<longrightarrow> er_requested_at e \<le> x)
        | None \<Rightarrow> \<exists>p \<in> set (tn_projects db). er_project_id e = Some (pj_id p) \<and> pj_tenant_id p = er_tenant_id e))"

lemma token_resolution_Some:
  "token_resolution db h = Some (t, p) \<Longrightarrow> t \<in> set (tn_tokens db) \<and> tk_token_hash t = h"
  by (auto simp: token_resolution_def first_row_def dest: find_SomeD split: if_splits)

definition attribution_ok :: "(string \<Rightarrow> ms option) \<Rightarrow> proxy_context \<Rightarrow> tenancy_db \<Rightarrow> usage_event \<Rightarrow> attribution \<Rightarrow> bool" where
  "attribution_ok parse_date proxy db e a =
     (proxyAllowsTenant proxy (ab_tenant_id a) \<and>
      (case ab_project_token_id a of
         Some i \<Rightarrow> \<exists>t \<in> set (tn_tokens db). tk_id t = i \<and> tk_token_hash t = ue_project_token_hash e \<and>
           ab_tenant_id a = tk_tenant_id t \<and> ab_project_id a = or_null (tk_project_id t) \<and>
           dateIsUnsetOrAtOrAfter (tk_revoked_at t) (parse_date (ue_requested_at e)) \<and>
           dateIsUnsetOrAtOrAfter (tk_expires_at t) (parse_date (ue_requested_at e))
       | None \<Rightarrow> \<exists>p \<in> set (tn_projects db). ab_project_id a = Some (pj_id p) \<and> pj_tenant_id p = ab_tenant_id a))"

lemma attribute_event_ok:
  assumes "attribute_event parse_date proxy db e = Some a"
  shows "attribution_ok parse_date proxy db e a"
proof (cases "token_resolution db (ue_project_token_hash e)")
  case None
  with assms have a: "a = \<lparr> ab_tenant_id = ue_tenant_id e, ab_project_id = Some (ue_project_id e), ab_project_token_id = None \<rparr>"
    and p: "proxyAllowsTenant proxy (ue_tenant_id e)"
    and f: "map_option pj_tenant_id (first_row (\<lambda>p. pj_id p = ue_project_id e) (tn_projects db)) = Some (ue_tenant_id e)"
    by (auto simp: attribute_event_def Let_def split: if_splits)
  from f obtain q where "first_row (\<lambda>p. pj_id p = ue_project_id e) (tn_projects db) = Some q" "pj_tenant_id q = ue_tenant_id e" by auto
  then have "q \<in> set (tn_projects db)" "pj_id q = ue_project_id e" "pj_tenant_id q = ue_tenant_id e"
    by (auto simp: first_row_def dest: find_SomeD)
  with a p show ?thesis by (simp add: attribution_ok_def) (intro bexI [of _ q], simp_all)
next
  case (Some tp)
  obtain t p where tp: "tp = (t, p)" by (cases tp)
  with assms Some have a: "a = \<lparr> ab_tenant_id = tk_tenant_id t, ab_project_id = or_null (tk_project_id t), ab_project_token_id = Some (tk_id t) \<rparr>"
    and v: "tokenWasValidAtRequest t p (parse_date (ue_requested_at e))" and x: "proxyAllowsTenant proxy (tk_tenant_id t)"
    by (auto simp: attribute_event_def Let_def split: if_splits)
  from token_resolution_Some [OF Some [unfolded tp]] v have "t \<in> set (tn_tokens db)" "tk_token_hash t = ue_project_token_hash e"
    "dateIsUnsetOrAtOrAfter (tk_revoked_at t) (parse_date (ue_requested_at e))"
    "dateIsUnsetOrAtOrAfter (tk_expires_at t) (parse_date (ue_requested_at e))"
    by (auto simp: tokenWasValidAtRequest_def)
  with a x show ?thesis by (auto simp: attribution_ok_def)
qed

lemma normalize_events_ok:
  assumes "normalize_events parse_date proxy db es u = Inr (rows, u')"
  shows "length rows \<le> length es \<and> (\<forall>r \<in> set rows. nv_event r \<in> set es \<and>
    nv_requested_at r = parse_date (ue_requested_at (nv_event r)) \<and>
    attribution_ok parse_date proxy db (nv_event r) (nv_attribution r))"
  using assms
proof (induction es arbitrary: u rows)
  case (Cons e es)
  show ?case
  proof (cases "attribute_event parse_date proxy db e")
    case None
    with Cons.prems have "normalize_events parse_date proxy db es u = Inr (rows, u')" by simp
    from Cons.IH [OF this] show ?thesis by auto
  next
    case (Some a)
    obtain x u1 where d: "draw u = (x, u1)" by (cases "draw u")
    with Some Cons.prems obtain path rows1 where
      n: "normalize_events parse_date proxy db es u1 = Inr (rows1, u')" and
      r: "rows = rows1 \<or> rows = \<lparr> nv_id = x, nv_attribution = a, nv_event = e, nv_decision_path = path,
           nv_requested_at = parse_date (ue_requested_at e) \<rparr> # rows1"
      by (auto simp: sum_bind_Inr_iff split: if_splits)
    from r Cons.IH [OF n] attribute_event_ok [OF Some] show ?thesis by auto
  qed
qed simp

lemma event_rows_ok:
  assumes "usage_event_rows proxy rows = Some es"
  shows "length es = length rows \<and>
    (\<forall>e \<in> set es. \<exists>(r, ai) \<in> set rows. \<exists>t. nv_requested_at r = Some t \<and> e = usage_event_row proxy r ai t)"
  using assms by (induction proxy rows arbitrary: es rule: usage_event_rows.induct) (fastforce split: option.splits)+

lemma date_bound: "dateIsUnsetOrAtOrAfter v (Some t) \<longleftrightarrow> (\<forall>u. v = Some u \<longrightarrow> t \<le> u)"
  by (cases v) (simp_all add: dateIsUnsetOrAtOrAfter_def)

lemma usage_row_attributed:
  assumes "nv_event r \<in> set events" and "nv_requested_at r = parse_date (ue_requested_at (nv_event r))"
    and "attribution_ok parse_date proxy db (nv_event r) (nv_attribution r)" and "nv_requested_at r = Some t"
  shows "proxyAllowsTenant proxy (er_tenant_id (usage_event_row proxy r ai t)) \<and>
    attributed parse_date db events (usage_event_row proxy r ai t)"
proof -
  let ?e = "usage_event_row proxy r ai t"
  have row: "er_project_token_id ?e = ab_project_token_id (nv_attribution r)" "er_tenant_id ?e = ab_tenant_id (nv_attribution r)"
    "er_project_id ?e = ab_project_id (nv_attribution r)" "er_requested_at ?e = t"
    by (simp_all add: usage_event_row_def Let_def)
  have date: "parse_date (ue_requested_at (nv_event r)) = Some t" using assms(2,4) by simp
  show ?thesis
    using assms(3) unfolding attribution_ok_def attributed_def row date date_bound
    by (intro conjI bexI [OF _ assms(1)]) (simp_all add: date split: option.splits)
qed

lemma set_catalog_simps [simp]:
  "ck_events (set_catalog c db) = ck_events db" "ck_tenancy (set_catalog c db) = ck_tenancy db"
  "ck_uuids (set_catalog c db) = ck_uuids db" "check_catalog (set_catalog c db) = c"
  by (simp_all add: set_catalog_def)

lemma resolve_length: "length (fst (resolvePackageCatalogReferences inputs c)) = length inputs"
  by (simp add: resolvePackageCatalogReferences_def Let_def case_prod_beta)

lemma identities_length: "length (fst (resolveArtifactIdentities inputs c)) = length inputs"
  by (simp add: resolveArtifactIdentities_def Let_def case_prod_beta resolve_length)


definition sample_usage_event :: usage_event where
  "sample_usage_event = \<lparr> ue_ecosystem = ''npm'', ue_package = ''left-pad'', ue_version = ''1.0.0'', ue_decision = 1,
     ue_event_type = ''artifact'', ue_decision_cache = False, ue_requested_at = ''now'', ue_project_token_hash = ''secret'',
     ue_trace_id = [], ue_request_id = [], ue_tenant_id = [], ue_project_id = [], ue_serve_mode = None, ue_bytes_transferred = 10,
     ue_client_ip = None, ue_duration_ms = None, ue_decision_path = Some ''check'', ue_requested_ref = None,
     ue_resolved_ref = None, ue_ref_resolution_source = None, ue_related_versions = [] \<rparr>"

definition sample_gateway :: gateway_db where
  "sample_gateway = \<lparr> gw_check = sample_check_db ''advisory'', gw_usage = [] \<rparr>"

definition sample_record :: "(js_error + nat) \<times> gateway_db" where
  "sample_record = handleRecordUsage (\<lambda>_. Some 7) (\<lambda>_. None) (\<lambda>_. True) sample_proxy
     [sample_usage_event, sample_usage_event\<lparr> ue_project_token_hash := ''unknown'' \<rparr>] sample_gateway"

lemma sample_record_run:
  "fst sample_record = Inr 2" "map er_project_token_id (ck_events (gw_check (snd sample_record))) = [Some ''u'']"
  "map row_counts (gw_usage (snd sample_record)) = [(1, 1, 0, 7)]"
  by code_simp+


text \<open>A hint that is no identifier makes the whole batch fail, also the events with a valid token.\<close>

lemma malformed_hint_fails_batch:
  assumes "e \<in> set events" and "malformed_hint is_uuid (ck_tenancy (gw_check db)) e"
  shows "\<exists>err. handleRecordUsage parse_date json_parse is_uuid proxy events db = (Inl err, db)"
proof -
  have "list_ex (malformed_hint is_uuid (ck_tenancy (gw_check db))) events" using assms by (auto simp: list_ex_iff)
  with assms(1) show ?thesis by (auto simp: handleRecordUsage_def Let_def)
qed

section \<open>The counters stay consistent\<close>

definition counter_ok :: "usage_row \<Rightarrow> bool" where
  "counter_ok u = (us_allow_count u \<ge> 0 \<and> us_block_count u \<ge> 0 \<and> us_request_count u > 0 \<and>
     us_request_count u = us_allow_count u + us_block_count u \<and> us_created_at u \<le> us_updated_at u)"

definition usage_ok :: "usage_row list \<Rightarrow> bool" where
  "usage_ok usage = (unique_key usage_key usage \<and> (\<forall>u \<in> set usage. counter_ok u))"

lemma delta_of_ok:
  assumes "es \<noteq> []"
  shows "counter_ok (usage_of (delta_of es))"
proof -
  obtain e where e: "e \<in> set es" using assms by (cases es) auto
  then have "Min (er_requested_at ` set es) \<le> er_requested_at e" "er_requested_at e \<le> Max (er_requested_at ` set es)" by auto
  moreover have "length (filter (\<lambda>e. er_decision e = ''allow'') es) + length (filter (\<lambda>e. er_decision e \<noteq> ''allow'') es) = length es"
    by (rule sum_length_filter_compl)
  ultimately show ?thesis using assms by (simp add: counter_ok_def usage_of_def delta_of_def tally_def)
qed

lemma deltas_ok: "d \<in> set (buildPackageUsageDeltas c es) \<Longrightarrow> counter_ok (usage_of d)"
  unfolding buildPackageUsageDeltas_counted deltas_for_key using delta_of_ok by blast

lemma merge_ok: "counter_ok new \<Longrightarrow> counter_ok r \<Longrightarrow> counter_ok (usage_merge new r)"
  by (auto simp: counter_ok_def usage_merge_def)

lemma upsert_delta_ok: "usage_ok usage \<Longrightarrow> counter_ok (usage_of d) \<Longrightarrow> usage_ok (upsert_delta usage d)"
  unfolding usage_ok_def upsert_delta_def
  by (intro conjI usage.upsert_unique) (auto simp: upsert_row_def merge_ok)

lemma upsert_deltas_ok: "usage_ok usage \<Longrightarrow> \<forall>d \<in> set ds. counter_ok (usage_of d) \<Longrightarrow> usage_ok (foldl upsert_delta usage ds)"
  by (induction ds arbitrary: usage) (auto intro: upsert_delta_ok)

lemma update_usage_ok: "usage_ok usage \<Longrightarrow> usage_ok (updatePackageUsage c es usage)"
  unfolding updatePackageUsage_def by (intro upsert_deltas_ok) (auto intro: deltas_ok)

lemma append_rows_unique:
  assumes "unique_key key xs" and "unique_key key ys" and "\<forall>x \<in> set xs. \<forall>y \<in> set ys. key x = None \<or> key x \<noteq> key y"
  shows "unique_key key (xs @ ys)"
  using assms by (induction xs) (auto simp: unique_key_Cons)

lemma guarded_append:
  "(if A then Inr (0, k) else if B then Inl e else Inr (n, k @ r)) = Inr (m, u) \<Longrightarrow> u = k \<or> \<not> B \<and> u = k @ r"
  by (simp split: if_splits)

lemma rebuild_ok:
  assumes "rebuildProjectPackages p t c events usage = Inr (n, usage')" and "usage_ok usage"
  shows "usage_ok usage'"
proof -
  let ?kept = "filter (\<lambda>u. \<not> (us_project_id u = p \<and> us_tenant_id u = t)) usage"
  let ?rows = "map usage_of (buildPackageUsageDeltas c (project_events p t events))"
  have kept: "usage_ok ?kept" using assms(2) by (auto simp: usage_ok_def unique_key_filter)
  have "List.map_filter usage_key ?rows = map delta_pair (buildPackageUsageDeltas c (project_events p t events))"
    by (simp add: map_filter_def comp_def)
  then have u: "unique_key usage_key ?rows" using deltas_distinct by (simp add: unique_key_def)
  have "usage' = ?kept \<or> \<not> list_ex (\<lambda>u. list_ex (\<lambda>k. usage_key k = usage_key u) ?kept) ?rows \<and> usage' = ?kept @ ?rows"
    by (rule guarded_append [OF assms(1) [unfolded rebuildProjectPackages_def Let_def, folded project_events_def]])
  then consider "usage' = ?kept"
    | "\<not> list_ex (\<lambda>u. list_ex (\<lambda>k. usage_key k = usage_key u) ?kept) ?rows" "usage' = ?kept @ ?rows" by blast
  then show ?thesis
  proof cases
    case 2
    then have "\<forall>x \<in> set ?kept. \<forall>y \<in> set ?rows. usage_key x = None \<or> usage_key x \<noteq> usage_key y" by (auto simp: list_ex_iff)
    then have "unique_key usage_key (?kept @ ?rows)" using kept u by (intro append_rows_unique) (auto simp: usage_ok_def)
    then show ?thesis using kept 2(2) deltas_ok by (auto simp: usage_ok_def)
  qed (use kept in simp)
qed

inductive usage_step :: "gateway_db \<Rightarrow> gateway_db \<Rightarrow> bool" where
  recorded: "handleRecordUsage parse_date json_parse is_uuid proxy events db = (r, db') \<Longrightarrow> usage_step db db'"
| rebuilt: "rebuildPackagesRoute is_uuid auth param projects members c events (gw_usage db) = Inr (n, usage') \<Longrightarrow>
    usage_step db (db\<lparr> gw_usage := usage' \<rparr>)"
| cleared: "deletePackagesRoute is_uuid auth param projects members (gw_usage db) = Inr (n, usage') \<Longrightarrow>
    usage_step db (db\<lparr> gw_usage := usage' \<rparr>)"

lemma usage_step_ok: "usage_step db db' \<Longrightarrow> usage_ok (gw_usage db) \<Longrightarrow> usage_ok (gw_usage db')"
proof (induction rule: usage_step.induct)
  case (recorded parse_date json_parse is_uuid proxy events db r db')
  then show ?case
    by (auto simp: handleRecordUsage_def store_usage_def Let_def case_prod_beta intro: update_usage_ok
        split: if_splits sum.splits option.splits)
next
  case (rebuilt is_uuid auth param projects members c events db n usage')
  then obtain p where "rebuildProjectPackages p (au_tenantId auth) c events (gw_usage db) = Inr (n, usage')"
    by (auto simp: rebuildPackagesRoute_def sum_bind_Inr_iff case_prod_beta)
  from rebuild_ok [OF this rebuilt.prems] show ?case by simp
next
  case (cleared is_uuid auth param projects members db n usage')
  then show ?case
    by (auto simp: deletePackagesRoute_def sum_bind_Inr_iff case_prod_beta deleteProjectPackages_def Let_def usage_ok_def unique_key_filter)
qed

text \<open>
  C23: the usage counters stay consistent. Whatever batches are recorded and whatever projects are
  rebuilt or cleared, in any order, there is at most one counter for a version in a project, its
  requests are the sum of the allowed and the blocked ones, there is at least one, and it was not last
  used before it was first used.
\<close>

theorem usage_counters_consistent:
  assumes "usage_step\<^sup>*\<^sup>* db db'" and "usage_ok (gw_usage db)"
  shows "usage_ok (gw_usage db')"
  using assms by (induction rule: rtranclp_induct) (auto intro: usage_step_ok)

theorem usage_counters_consistent_witness:
  "usage_ok (gw_usage (snd sample_record)) \<and> gw_usage (snd sample_record) \<noteq> []"
proof -
  have "usage_step sample_gateway (snd sample_record)"
    unfolding sample_record_def by (rule usage_step.recorded) (rule surjective_pairing)
  moreover have "usage_ok (gw_usage sample_gateway)" by (simp add: usage_ok_def sample_gateway_def)
  ultimately show ?thesis
    using usage_counters_consistent [of sample_gateway "snd sample_record"] sample_record_run(3) by (auto simp: r_into_rtranclp)
qed

end
