(* ===== verification/Event_Stream.thy ===== *)
theory Event_Stream
  imports Usage
begin

text \<open>
  The live event streams of the dashboard. \<open>routes/sse.ts\<close> guards them, \<open>features/sse/stream-service.ts\<close>
  opens a stream, \<open>features/sse/stream-replay.ts\<close> sends what the client has missed,
  \<open>features/sse/stream-format.ts\<close> forms the messages, and \<open>sse/subscription-manager.ts\<close> fans a published
  event out to the clients of its tenant. The events come from the checks and from the recorded usage.

  A process runs one piece of code at a time, so the system is a sequence of steps: a stream opens, its
  query for missed events returns, it subscribes; an event is stored, an event is published; a client
  goes away, a connection fails, a token expires, members and projects change. Proved for every sequence:
  a stream carries only events that its user was allowed to read when it was opened. The gap between the
  query and the subscription, and the subscription of a client that has gone by then, are shown as what
  they are.
\<close>

section \<open>Messages\<close>

record event_payload =
  ep_id :: string
  ep_tenant_id :: string
  ep_project_id :: "string option"
  ep_source :: string
  ep_event_type :: string
  ep_decision_cache :: "bool option"
  ep_proxy_id :: string
  ep_ecosystem :: string
  ep_package :: string
  ep_version :: string
  ep_decision :: string
  ep_reason :: "string option"
  ep_serve_mode :: "string option"
  ep_bytes_transferred :: "int option"
  ep_trace_id :: "string option"
  ep_span_id :: "string option"
  ep_request_id :: "string option"
  ep_requested_ref :: "string option"
  ep_resolved_ref :: "string option"
  ep_ref_resolution_source :: "string option"
  ep_project_token_id :: "string option"
  ep_client_ip :: "string option"
  ep_proxy_ip :: "string option"
  ep_requested_at :: string
  ep_created_at :: string
  ep_cve_severity :: "string option"
  ep_fix_version :: "string option"

text \<open>
  A row of the table with the time at which it was stored, its package and its version, and the two
  fields of the enrichment.
\<close>

record selected_event =
  se_row :: event_row
  se_created_at :: ms
  se_ecosystem :: string
  se_package :: string
  se_version :: string
  se_cve_severity :: "string option"
  se_fix_version :: "string option"

definition rowToPayload :: "selected_event \<Rightarrow> event_payload" where
  "rowToPayload s =
     (let row = se_row s
      in \<lparr> ep_id = er_id row, ep_tenant_id = er_tenant_id row, ep_project_id = er_project_id row, ep_source = er_source row,
           ep_event_type = er_event_type row, ep_decision_cache = er_decision_cache row, ep_proxy_id = er_proxy_id row,
           ep_ecosystem = se_ecosystem s, ep_package = se_package s, ep_version = se_version s,
           ep_decision = er_decision row, ep_reason = er_reason row, ep_serve_mode = er_serve_mode row,
           ep_bytes_transferred = er_bytes_transferred row, ep_trace_id = er_trace_id row, ep_span_id = er_span_id row,
           ep_request_id = er_request_id row, ep_requested_ref = er_requested_ref row, ep_resolved_ref = er_resolved_ref row,
           ep_ref_resolution_source = er_ref_resolution_source row, ep_project_token_id = er_project_token_id row,
           ep_client_ip = er_client_ip row, ep_proxy_ip = er_proxy_ip row, ep_requested_at = to_iso (er_requested_at row),
           ep_created_at = to_iso (se_created_at s), ep_cve_severity = se_cve_severity s, ep_fix_version = se_fix_version s \<rparr>)"

text \<open>
  The payload that a check or the recording of usage publishes for the row it has stored: the fields of
  the row, the canonical identity, and the time of the publication.
\<close>

definition published_payload :: "event_row \<Rightarrow> artifact_identity \<Rightarrow> ms \<Rightarrow> event_payload" where
  "published_payload row ai createdAt =
     rowToPayload \<lparr> se_row = row, se_created_at = createdAt, se_ecosystem = ai_ecosystem ai, se_package = ai_package ai,
                    se_version = default [] (ai_version ai), se_cve_severity = None, se_fix_version = None \<rparr>"

definition jint_opt :: "int option \<Rightarrow> jsval" where
  "jint_opt x = (case x of None \<Rightarrow> JNull | Some i \<Rightarrow> JNum (of_int i))"

definition payload_json :: "event_payload \<Rightarrow> jsval" where
  "payload_json e = JObj
     [(''id'', JStr (ep_id e)), (''tenant_id'', JStr (ep_tenant_id e)), (''project_id'', jstr_opt (ep_project_id e)),
      (''source'', JStr (ep_source e)), (''event_type'', JStr (ep_event_type e)), (''decision_cache'', jbool_opt (ep_decision_cache e)),
      (''proxy_id'', JStr (ep_proxy_id e)), (''ecosystem'', JStr (ep_ecosystem e)), (''package'', JStr (ep_package e)),
      (''version'', JStr (ep_version e)), (''decision'', JStr (ep_decision e)), (''reason'', jstr_opt (ep_reason e)),
      (''serve_mode'', jstr_opt (ep_serve_mode e)), (''bytes_transferred'', jint_opt (ep_bytes_transferred e)),
      (''trace_id'', jstr_opt (ep_trace_id e)), (''span_id'', jstr_opt (ep_span_id e)), (''request_id'', jstr_opt (ep_request_id e)),
      (''requested_ref'', jstr_opt (ep_requested_ref e)), (''resolved_ref'', jstr_opt (ep_resolved_ref e)),
      (''ref_resolution_source'', jstr_opt (ep_ref_resolution_source e)), (''project_token_id'', jstr_opt (ep_project_token_id e)),
      (''client_ip'', jstr_opt (ep_client_ip e)), (''proxy_ip'', jstr_opt (ep_proxy_ip e)),
      (''requested_at'', JStr (ep_requested_at e)), (''created_at'', JStr (ep_created_at e)),
      (''cve_severity'', jstr_opt (ep_cve_severity e)), (''fix_version'', jstr_opt (ep_fix_version e))]"

datatype chunk = Connected | Message event_payload | Ping | Auth_expired

definition newline :: string where
  "newline = [char_of (10 :: nat)]"

definition formatSSEEvent :: "event_payload \<Rightarrow> string" where
  "formatSSEEvent e =
     ''event: message'' @ newline @ ''id: '' @ ep_created_at e @ newline @ ''data: '' @ json_stringify (payload_json e) @ newline @ newline"

fun chunk_text :: "chunk \<Rightarrow> string" where
  "chunk_text Connected = ''event: connected'' @ newline @ ''data: {}'' @ newline @ newline"
| "chunk_text (Message e) = formatSSEEvent e"
| "chunk_text Ping = '': ping'' @ newline @ newline"
| "chunk_text Auth_expired = ''event: auth_expired'' @ newline @ ''data: {}'' @ newline @ newline"

section \<open>The fan-out\<close>

record sse_client =
  sc_id :: string
  sc_tenantId :: string
  sc_role :: string
  sc_hasTenantEventAccess :: bool
  sc_allowedProjects :: "string list option"
  sc_projectFilter :: "string option"

type_synonym client_map = "(string \<times> string list) list"

definition clients_of :: "string \<Rightarrow> client_map \<Rightarrow> string list" where
  "clients_of tenantId clients = default [] (map_of clients tenantId)"

definition set_clients :: "string \<Rightarrow> string list \<Rightarrow> client_map \<Rightarrow> client_map" where
  "set_clients tenantId ids clients =
     (let rest = filter (\<lambda>e. fst e \<noteq> tenantId) clients in if ids = [] then rest else rest @ [(tenantId, ids)])"

definition subscribe :: "sse_client \<Rightarrow> client_map \<Rightarrow> client_map" where
  "subscribe client clients =
     (let ids = clients_of (sc_tenantId client) clients
      in set_clients (sc_tenantId client) (if sc_id client \<in> set ids then ids else ids @ [sc_id client]) clients)"

definition unsubscribe :: "sse_client \<Rightarrow> client_map \<Rightarrow> client_map" where
  "unsubscribe client clients =
     set_clients (sc_tenantId client) (filter (\<lambda>i. i \<noteq> sc_id client) (clients_of (sc_tenantId client) clients)) clients"

definition clientShouldReceive :: "sse_client \<Rightarrow> event_payload \<Rightarrow> bool" where
  "clientShouldReceive client event =
     (case sc_projectFilter client of
        Some p \<Rightarrow> ep_project_id event = Some p
      | None \<Rightarrow>
          if sc_hasTenantEventAccess client \<or> sc_allowedProjects client = None then True
          else (case ep_project_id event of None \<Rightarrow> False | Some p \<Rightarrow> p \<in> set (the (sc_allowedProjects client))))"

definition clientCount :: "string \<Rightarrow> client_map \<Rightarrow> nat" where
  "clientCount tenantId clients = length (clients_of tenantId clients)"

section \<open>Streams\<close>

text \<open>How far a stream has come: opened with the last event the client saw, the missed events read, subscribed.\<close>

datatype stream_phase = Opened "string option" | Queried "event_payload list" | Subscribed

record stream =
  st_client :: sse_client
  st_phase :: stream_phase
  st_chunks :: "chunk list"
  st_closed :: bool
  st_failing :: bool
  st_expiry :: "ms option"

record hub =
  hb_streams :: "stream list"
  hb_clients :: client_map

abbreviation stream_id :: "stream \<Rightarrow> string" where
  "stream_id s \<equiv> sc_id (st_client s)"

definition the_stream :: "string \<Rightarrow> hub \<Rightarrow> stream option" where
  "the_stream i h = find (\<lambda>s. stream_id s = i) (hb_streams h)"

definition change_stream :: "string \<Rightarrow> (stream \<Rightarrow> stream) \<Rightarrow> hub \<Rightarrow> hub" where
  "change_stream i f h = h\<lparr> hb_streams := map (\<lambda>s. if stream_id s = i then f s else s) (hb_streams h) \<rparr>"

text \<open>The function that ends the subscription is set once the stream has subscribed.\<close>

definition doCleanup :: "string \<Rightarrow> hub \<Rightarrow> hub" where
  "doCleanup i h =
     (case the_stream i h of
        None \<Rightarrow> h
      | Some s \<Rightarrow>
          if st_closed s then h
          else (let h' = change_stream i (\<lambda>s. s\<lparr> st_closed := True \<rparr>) h
                in if st_phase s = Subscribed then h'\<lparr> hb_clients := unsubscribe (st_client s) (hb_clients h') \<rparr> else h'))"

definition write_chunk :: "string \<Rightarrow> chunk \<Rightarrow> hub \<Rightarrow> hub" where
  "write_chunk i c h =
     (case the_stream i h of
        None \<Rightarrow> h
      | Some s \<Rightarrow>
          if st_closed s then h
          else if st_failing s then doCleanup i h
          else change_stream i (\<lambda>s. s\<lparr> st_chunks := st_chunks s @ [c] \<rparr>) h)"

definition publish :: "string \<Rightarrow> event_payload \<Rightarrow> hub \<Rightarrow> hub" where
  "publish tenantId event h =
     fold (\<lambda>i h'. case the_stream i h' of
                   None \<Rightarrow> h'
                 | Some s \<Rightarrow> if clientShouldReceive (st_client s) event then write_chunk i (Message event) h' else h')
       (clients_of tenantId (hb_clients h)) h"

section \<open>Missed events\<close>

definition role_can :: "string \<Rightarrow> string \<Rightarrow> bool" where
  "role_can role capability = (case tenant_role_of role of None \<Rightarrow> False | Some r \<Rightarrow> canPerform r capability no_context)"

definition resolveAllowedProjects :: "auth_context \<Rightarrow> project_member_row list \<Rightarrow> bool \<times> string list option" where
  "resolveAllowedProjects auth members =
     (if role_can (au_role auth) ''events.read_tenant'' then (True, None)
      else (False, Some (map mb_project_id
              (filter (\<lambda>m. mb_user_id m = au_userId auth \<and> mb_tenant_id m = au_tenantId auth) members))))"

definition enrichEventCveFields :: "cache_row list \<Rightarrow> selected_event list \<Rightarrow> selected_event list" where
  "enrichEventCveFields cache rows =
     (let none = map (\<lambda>s. s\<lparr> se_cve_severity := None, se_fix_version := None \<rparr>) rows;
          cveRows = filter (\<lambda>s. er_reason (se_row s) = Some ''cve_threshold'') rows;
          ids = List.map_filter (\<lambda>s. opt_or_null (er_package_version_id (se_row s))) cveRows;
          cached = (\<lambda>i. find (\<lambda>c. ca_connector_id c = ''osv'' \<and> ca_package_version_id c = Some i) (rev cache))
      in if cveRows = [] \<or> ids = [] then none
         else map (\<lambda>s. if er_reason (se_row s) \<noteq> Some ''cve_threshold'' then s\<lparr> se_cve_severity := None, se_fix_version := None \<rparr>
                       else (let c = Option.bind (opt_or_null (er_package_version_id (se_row s))) cached
                             in s\<lparr> se_cve_severity := map_option (severity_name \<circ> ca_risk_tier) c,
                                  se_fix_version := Option.bind c ca_best_remediation \<rparr>)) rows)"

text \<open>The columns of the query, with the canonical identity where the package is catalogued and the reported one where not.\<close>

definition select_event :: "catalog_db \<Rightarrow> event_row \<times> ms \<Rightarrow> selected_event" where
  "select_event db e =
     (let row = fst e; raw = er_raw_identity row;
          pkg = Option.bind (er_package_id row) (\<lambda>i. first_row (\<lambda>p. pk_id p = i) (cg_packages db));
          ver = Option.bind (er_package_version_id row) (\<lambda>i. first_row (\<lambda>v. pv_id v = i) (cg_versions db))
      in \<lparr> se_row = row, se_created_at = snd e,
           se_ecosystem = default [] (orelse (map_option pk_ecosystem pkg) (map_option ra_ecosystem raw)),
           se_package = default [] (orelse (map_option pk_package pkg) (map_option ra_package raw)),
           se_version = default [] (orelse (map_option pv_version ver) (Option.bind raw ra_version)),
           se_cve_severity = None, se_fix_version = None \<rparr>)"

record stream_tables =
  sw_events :: "(event_row \<times> ms) list"
  sw_catalog :: catalog_db
  sw_cache :: "cache_row list"

definition missed_event :: "sse_client \<Rightarrow> ms \<Rightarrow> event_row \<times> ms \<Rightarrow> bool" where
  "missed_event client cursor e =
     (er_tenant_id (fst e) = sc_tenantId client \<and> cursor < snd e \<and>
      (if JS_Core.present (sc_projectFilter client) then er_project_id (fst e) = sc_projectFilter client
       else case sc_allowedProjects client of
              None \<Rightarrow> True
            | Some allowed \<Rightarrow> sc_hasTenantEventAccess client \<or> (\<exists>q \<in> set allowed. er_project_id (fst e) = Some q)))"

definition replayMissedEvents :: "(string \<Rightarrow> ms option) \<Rightarrow> sse_client \<Rightarrow> string option \<Rightarrow> stream_tables \<Rightarrow> event_payload list" where
  "replayMissedEvents parse_date client lastEventId w =
     (if \<not> JS_Core.present lastEventId \<or> \<not> sc_hasTenantEventAccess client \<and> sc_allowedProjects client = Some [] then []
      else case parse_date (the lastEventId) of
        None \<Rightarrow> []
      | Some cursor \<Rightarrow>
          (let missed = take 100 (sort_key snd (filter (missed_event client cursor) (sw_events w)))
           in map rowToPayload (enrichEventCveFields (sw_cache w) (map (select_event (sw_catalog w)) missed))))"

section \<open>Opening a stream\<close>

definition new_stream :: "string \<Rightarrow> auth_context \<Rightarrow> string option \<Rightarrow> string option \<Rightarrow> ms option \<Rightarrow> project_member_row list \<Rightarrow> stream" where
  "new_stream i auth projectFilter lastEventId expiry members =
     (let (hasTenantEventAccess, allowedProjects) = resolveAllowedProjects auth members
      in \<lparr> st_client = \<lparr> sc_id = i, sc_tenantId = au_tenantId auth, sc_role = au_role auth,
                         sc_hasTenantEventAccess = hasTenantEventAccess, sc_allowedProjects = allowedProjects,
                         sc_projectFilter = projectFilter \<rparr>,
           st_phase = Opened lastEventId, st_chunks = [Connected], st_closed = False, st_failing = False, st_expiry = expiry \<rparr>)"

definition openEventStream ::
    "string \<Rightarrow> auth_context \<Rightarrow> string option \<Rightarrow> string option \<Rightarrow> ms option \<Rightarrow> project_member_row list \<Rightarrow> hub \<Rightarrow> hub" where
  "openEventStream i auth projectFilter lastEventId expiry members h =
     h\<lparr> hb_streams := hb_streams h @ [new_stream i auth projectFilter lastEventId expiry members] \<rparr>"

definition tenantStreamRoute ::
    "string \<Rightarrow> auth_context \<Rightarrow> string option \<Rightarrow> ms option \<Rightarrow> project_member_row list \<Rightarrow> hub \<Rightarrow> hub http_result" where
  "tenantStreamRoute i auth lastEventId expiry members h =
     (if \<not> role_can (au_role auth) ''events.read_tenant'' \<and> \<not> role_can (au_role auth) ''events.read_project''
      then errorResult 403 ''FORBIDDEN'' ''You do not have access to open the event stream'' None
      else Inr (openEventStream i auth None lastEventId expiry members h))"

definition projectStreamRoute ::
    "(string \<Rightarrow> bool) \<Rightarrow> string \<Rightarrow> auth_context \<Rightarrow> string \<Rightarrow> string option \<Rightarrow> ms option \<Rightarrow> project_row list \<Rightarrow> project_member_row list \<Rightarrow> hub \<Rightarrow> hub http_result" where
  "projectStreamRoute is_uuid i auth param lastEventId expiry projects members h =
     (if \<not> role_can (au_role auth) ''events.read_project''
      then errorResult 403 ''FORBIDDEN'' ''You do not have access to open the project event stream'' None
      else sum_bind (requireProjectAccess is_uuid auth True param projects members) (\<lambda>(projectId, project).
        Inr (openEventStream i auth (Some projectId) lastEventId expiry members h)))"

text \<open>The two continuations of the opening: the query has returned; its rows are written and the client subscribes.\<close>

definition read_missed :: "(string \<Rightarrow> ms option) \<Rightarrow> string \<Rightarrow> stream_tables \<Rightarrow> hub \<Rightarrow> hub" where
  "read_missed parse_date i w h =
     change_stream i (\<lambda>s. case st_phase s of
         Opened lastEventId \<Rightarrow> s\<lparr> st_phase := Queried (replayMissedEvents parse_date (st_client s) lastEventId w) \<rparr>
       | _ \<Rightarrow> s) h"

definition armed :: "ms \<Rightarrow> ms option \<Rightarrow> ms option" where
  "armed now expiry = (case expiry of None \<Rightarrow> None | Some t \<Rightarrow> if t - now > 0 then Some t else None)"

text \<open>The timer for the end of the token is set if the token has not ended by then.\<close>

definition go_live :: "ms \<Rightarrow> string \<Rightarrow> hub \<Rightarrow> hub" where
  "go_live now i h =
     (case the_stream i h of
        None \<Rightarrow> h
      | Some s \<Rightarrow>
          (case st_phase s of
             Queried missed \<Rightarrow>
               (let h1 = fold (\<lambda>e. write_chunk i (Message e)) missed h
                in (change_stream i (\<lambda>s. s\<lparr> st_phase := Subscribed, st_expiry := armed now (st_expiry s) \<rparr>) h1)\<lparr> hb_clients := subscribe (st_client s) (hb_clients h1) \<rparr>)
           | _ \<Rightarrow> h))"

definition expire_token :: "ms \<Rightarrow> string \<Rightarrow> hub \<Rightarrow> hub" where
  "expire_token now i h =
     (case the_stream i h of
        Some s \<Rightarrow>
          if st_phase s = Subscribed \<and> (case st_expiry s of None \<Rightarrow> False | Some t \<Rightarrow> t \<le> now)
          then doCleanup i (write_chunk i Auth_expired h) else h
      | None \<Rightarrow> h)"

text \<open>The end of the token, as its payload says; \<open>decode\<close> reads the payload of a token.\<close>

definition parseJwtExpiry :: "(string \<Rightarrow> jsobj option) \<Rightarrow> string option \<Rightarrow> string option \<Rightarrow> ms option" where
  "parseJwtExpiry decode authorization queryToken =
     (let h = default [] authorization;
          token = (if js_startsWith h ''Bearer '' then drop 7 h else default [] queryToken)
      in if token = [] then None
         else case decode token of
                Some payload \<Rightarrow> (case obj_get payload ''exp'' of JNum n \<Rightarrow> if n \<noteq> 0 then Some \<lfloor>n * 1000\<rfloor> else None | _ \<Rightarrow> None)
              | None \<Rightarrow> None)"

section \<open>The system\<close>

text \<open>Besides the state of the program, who opened which stream, with the members there were then.\<close>

record world =
  wd_tables :: stream_tables
  wd_projects :: "project_row list"
  wd_members :: "project_member_row list"
  wd_hub :: hub
  wd_opened :: "(string \<times> auth_context \<times> project_member_row list) list"

definition fresh_id :: "string \<Rightarrow> world \<Rightarrow> bool" where
  "fresh_id i w = (i \<notin> set (map fst (wd_opened w)))"

definition record_opening :: "string \<Rightarrow> auth_context \<Rightarrow> hub \<Rightarrow> world \<Rightarrow> world" where
  "record_opening i auth h w = w\<lparr> wd_hub := h, wd_opened := wd_opened w @ [(i, auth, wd_members w)] \<rparr>"

inductive stream_step :: "(string \<Rightarrow> bool) \<Rightarrow> (string \<Rightarrow> ms option) \<Rightarrow> world \<Rightarrow> world \<Rightarrow> bool" for is_uuid parse_date where
  open_tenant: "fresh_id i w \<Longrightarrow> tenantStreamRoute i auth lastEventId expiry (wd_members w) (wd_hub w) = Inr h \<Longrightarrow>
    stream_step is_uuid parse_date w (record_opening i auth h w)"
| open_project: "fresh_id i w \<Longrightarrow>
    projectStreamRoute is_uuid i auth param lastEventId expiry (wd_projects w) (wd_members w) (wd_hub w) = Inr h \<Longrightarrow>
    stream_step is_uuid parse_date w (record_opening i auth h w)"
| missed: "stream_step is_uuid parse_date w (w\<lparr> wd_hub := read_missed parse_date i (wd_tables w) (wd_hub w) \<rparr>)"
| live: "stream_step is_uuid parse_date w (w\<lparr> wd_hub := go_live now i (wd_hub w) \<rparr>)"
| stored: "stream_step is_uuid parse_date w (w\<lparr> wd_tables := (wd_tables w)\<lparr> sw_events := sw_events (wd_tables w) @ [(row, t)] \<rparr> \<rparr>)"
| published: "(row, t) \<in> set (sw_events (wd_tables w)) \<Longrightarrow>
    stream_step is_uuid parse_date w (w\<lparr> wd_hub := publish (er_tenant_id row) (published_payload row ai now) (wd_hub w) \<rparr>)"
| pinged: "stream_step is_uuid parse_date w (w\<lparr> wd_hub := write_chunk i Ping (wd_hub w) \<rparr>)"
| expired: "stream_step is_uuid parse_date w (w\<lparr> wd_hub := expire_token now i (wd_hub w) \<rparr>)"
| cancelled: "stream_step is_uuid parse_date w (w\<lparr> wd_hub := doCleanup i (wd_hub w) \<rparr>)"
| failed: "stream_step is_uuid parse_date w (w\<lparr> wd_hub := change_stream i (\<lambda>s. s\<lparr> st_failing := True \<rparr>) (wd_hub w) \<rparr>)"
| administered: "stream_step is_uuid parse_date w
    (w\<lparr> wd_projects := projects, wd_members := members, wd_tables := (wd_tables w)\<lparr> sw_catalog := catalog, sw_cache := cache \<rparr> \<rparr>)"

inductive_cases stream_stepE: "stream_step is_uuid parse_date w w'"

inductive stream_reach :: "(string \<Rightarrow> bool) \<Rightarrow> (string \<Rightarrow> ms option) \<Rightarrow> world \<Rightarrow> bool" for is_uuid parse_date where
  start: "hb_streams (wd_hub w) = [] \<Longrightarrow> hb_clients (wd_hub w) = [] \<Longrightarrow> wd_opened w = [] \<Longrightarrow> stream_reach is_uuid parse_date w"
| step: "stream_reach is_uuid parse_date w \<Longrightarrow> stream_step is_uuid parse_date w w' \<Longrightarrow> stream_reach is_uuid parse_date w'"

section \<open>What the operations keep\<close>

definition hub_streams :: "hub \<Rightarrow> sse_client list" where
  "hub_streams h = map st_client (hb_streams h)"

definition hub_ids :: "hub \<Rightarrow> string list" where
  "hub_ids h = map sc_id (hub_streams h)"

text \<open>A stream after some writes: the same client in the same phase, with none but the given messages more.\<close>

definition wrote :: "(sse_client \<Rightarrow> event_payload set) \<Rightarrow> hub \<Rightarrow> hub \<Rightarrow> bool" where
  "wrote new h h' =
     (hub_streams h' = hub_streams h \<and>
      (\<forall>s' \<in> set (hb_streams h'). \<exists>s \<in> set (hb_streams h). st_client s' = st_client s \<and> st_phase s' = st_phase s \<and>
         (\<forall>p. Message p \<in> set (st_chunks s') \<longrightarrow> Message p \<in> set (st_chunks s) \<or> p \<in> new (st_client s))))"

lemma wrote_refl [simp]: "wrote new h h"
  by (auto simp: wrote_def)

lemma wrote_trans: "wrote new h h1 \<Longrightarrow> wrote new h1 h2 \<Longrightarrow> wrote new h h2"
  unfolding wrote_def by (metis (no_types, lifting))

lemma wrote_mono: "wrote new h h' \<Longrightarrow> (\<And>c. new c \<subseteq> new' c) \<Longrightarrow> wrote new' h h'"
  unfolding wrote_def by (metis (no_types, lifting) subsetD)

lemma wrote_change:
  assumes "\<And>s. st_client (f s) = st_client s \<and> st_phase (f s) = st_phase s"
    and "\<And>s p. stream_id s = i \<Longrightarrow> Message p \<in> set (st_chunks (f s)) \<Longrightarrow> Message p \<in> set (st_chunks s) \<or> p \<in> new (st_client s)"
  shows "wrote new h (change_stream i f h)"
  using assms by (auto simp: wrote_def change_stream_def hub_streams_def)

lemma wrote_clients: "wrote new h h' \<Longrightarrow> wrote new h (h'\<lparr> hb_clients := cs \<rparr>)"
  by (simp add: wrote_def hub_streams_def)

lemma the_stream_Some: "the_stream i h = Some s \<Longrightarrow> s \<in> set (hb_streams h) \<and> stream_id s = i"
  unfolding the_stream_def by (drule find_SomeD) simp

lemma same_client:
  assumes "hub_streams h' = hub_streams h" and "the_stream i h = Some s"
  shows "\<exists>s'. the_stream i h' = Some s' \<and> st_client s' = st_client s"
proof -
  have find: "map_option st_client (the_stream i g) = find (\<lambda>c. sc_id c = i) (hub_streams g)" for g
    by (simp add: the_stream_def hub_streams_def find_map_comp)
  have "map_option st_client (the_stream i h') = Some (st_client s)" using find [of h] unfolding find [of h'] assms by simp
  then show ?thesis by auto
qed

lemma cleanup_wrote: "wrote new h (doCleanup i h)"
proof (cases "the_stream i h")
  case (Some s)
  have "wrote new h (change_stream i (\<lambda>s. s\<lparr> st_closed := True \<rparr>) h)" by (rule wrote_change) simp_all
  with Some show ?thesis by (simp add: doCleanup_def Let_def wrote_clients)
qed (simp add: doCleanup_def)

lemma write_wrote:
  assumes "\<And>p s. c = Message p \<Longrightarrow> the_stream i h = Some s \<Longrightarrow> p \<in> new (st_client s)" and "distinct (hub_ids h)"
  shows "wrote new h (write_chunk i c h)"
proof (cases "the_stream i h")
  case (Some s)
  have same: "s' = s" if "s' \<in> set (hb_streams h)" "stream_id s' = i" for s'
    using that the_stream_Some [OF Some] assms(2) by (auto simp: hub_ids_def hub_streams_def distinct_map inj_on_def)
  have "wrote new h (change_stream i (\<lambda>s. s\<lparr> st_chunks := st_chunks s @ [c] \<rparr>) h)"
    using same assms(1) Some by (fastforce simp: wrote_def change_stream_def hub_streams_def)
  with Some show ?thesis by (simp add: write_chunk_def cleanup_wrote)
qed (simp add: write_chunk_def)

lemma publish_wrote:
  assumes "distinct (hub_ids h)"
  shows "wrote (\<lambda>c. if sc_id c \<in> set (clients_of tenantId (hb_clients h)) \<and> clientShouldReceive c event then {event} else {}) h (publish tenantId event h)"
proof -
  let ?f = "\<lambda>i h'. case the_stream i h' of None \<Rightarrow> h'
     | Some s \<Rightarrow> if clientShouldReceive (st_client s) event then write_chunk i (Message event) h' else h'"
  have "wrote (\<lambda>c. if sc_id c \<in> set ids \<and> clientShouldReceive c event then {event} else {}) h (fold ?f ids h)"
    if "distinct (hub_ids h)" for ids h
    using that
  proof (induction ids arbitrary: h)
    case (Cons i ids)
    let ?new = "\<lambda>c. if sc_id c \<in> set (i # ids) \<and> clientShouldReceive c event then {event} else {}"
    have one: "wrote ?new h (?f i h)"
    proof (cases "the_stream i h")
      case (Some s)
      then show ?thesis using the_stream_Some [OF Some] by (auto intro!: write_wrote [OF _ Cons.prems])
    qed simp
    then have "distinct (hub_ids (?f i h))" using Cons.prems by (simp add: wrote_def hub_ids_def)
    from wrote_mono [OF Cons.IH [OF this], of ?new] have "wrote ?new (?f i h) (fold ?f ids (?f i h))" by auto
    from wrote_trans [OF one this] show ?case by simp
  qed simp
  from this [OF assms] show ?thesis unfolding publish_def .
qed

subsection \<open>Subscriptions\<close>

lemma clients_of_set [simp]: "clients_of t (set_clients t' ids clients) = (if t = t' then ids else clients_of t clients)"
proof -
  have own: "map_of (filter (\<lambda>e. fst e \<noteq> t') clients) t' = None" by (auto simp: map_of_eq_None_iff)
  have other: "map_of (filter (\<lambda>e. fst e \<noteq> t') clients) t = map_of clients t" if "t \<noteq> t'" using that by (induction clients) auto
  show ?thesis
    using own other by (auto simp: set_clients_def clients_of_def Let_def default_def map_add_def split: option.split)
qed

text \<open>Nobody is subscribed who was not.\<close>

definition fewer :: "hub \<Rightarrow> hub \<Rightarrow> bool" where
  "fewer h h' = (\<forall>t. set (clients_of t (hb_clients h')) \<subseteq> set (clients_of t (hb_clients h)))"

lemma fewer_refl [simp]: "fewer h h"
  by (simp add: fewer_def)

lemma fewer_trans: "fewer h h1 \<Longrightarrow> fewer h1 h2 \<Longrightarrow> fewer h h2"
  unfolding fewer_def by blast

lemma fewer_change [simp]: "fewer h (change_stream i f h)"
  by (simp add: fewer_def change_stream_def)

lemma cleanup_fewer [simp]: "fewer h (doCleanup i h)"
  by (auto simp: doCleanup_def Let_def fewer_def change_stream_def unsubscribe_def split: option.split)

lemma write_fewer [simp]: "fewer h (write_chunk i c h)"
  by (auto simp: write_chunk_def split: option.split)

lemma fold_fewer: "(\<And>x h. fewer h (f x h)) \<Longrightarrow> fewer h (fold f xs h)"
  by (induction xs arbitrary: h) (auto intro: fewer_trans)

lemma publish_fewer [simp]: "fewer h (publish t e h)"
  unfolding publish_def by (rule fold_fewer) (simp split: option.split)

text \<open>A subscription is of a stream of the tenant.\<close>

definition registered :: "hub \<Rightarrow> bool" where
  "registered h = (\<forall>t. \<forall>i \<in> set (clients_of t (hb_clients h)). \<exists>c \<in> set (hub_streams h). sc_id c = i \<and> sc_tenantId c = t)"

lemma registered_fewer: "registered h \<Longrightarrow> fewer h h' \<Longrightarrow> set (hub_streams h) \<subseteq> set (hub_streams h') \<Longrightarrow> registered h'"
  unfolding registered_def fewer_def by blast

lemma registered_same: "registered h \<Longrightarrow> hb_clients h' = hb_clients h \<Longrightarrow> set (hub_streams h) \<subseteq> set (hub_streams h') \<Longrightarrow> registered h'"
  by (rule registered_fewer) (simp_all add: fewer_def)

lemma registered_tenant:
  assumes "registered h" and "distinct (hub_ids h)" and "c \<in> set (hub_streams h)" and "sc_id c \<in> set (clients_of t (hb_clients h))"
  shows "sc_tenantId c = t"
proof -
  from assms(1,4) obtain d where d: "d \<in> set (hub_streams h)" "sc_id d = sc_id c" "sc_tenantId d = t" unfolding registered_def by blast
  with assms(2,3) have "d = c" by (auto simp: hub_ids_def distinct_map inj_on_def)
  with d(3) show ?thesis by simp
qed

section \<open>A stream carries what its user may read\<close>

text \<open>What a user may read, by the role and the memberships of the moment.\<close>

definition may_read :: "auth_context \<Rightarrow> project_member_row list \<Rightarrow> event_payload \<Rightarrow> bool" where
  "may_read auth members p =
     (ep_tenant_id p = au_tenantId auth \<and>
      (role_can (au_role auth) ''events.read_tenant'' \<or>
       role_can (au_role auth) ''events.read_project'' \<and>
       (\<exists>q. ep_project_id p = Some q \<and> checkProjectAccess (au_userId auth) q (au_tenantId auth) (au_role auth) members)))"

definition stream_ok :: "auth_context \<Rightarrow> project_member_row list \<Rightarrow> stream \<Rightarrow> bool" where
  "stream_ok auth members s =
     (sc_tenantId (st_client s) = au_tenantId auth \<and> sc_projectFilter (st_client s) \<noteq> Some [] \<and>
      (\<forall>p. ep_tenant_id p = au_tenantId auth \<and> clientShouldReceive (st_client s) p \<longrightarrow> may_read auth members p) \<and>
      (\<forall>p. Message p \<in> set (st_chunks s) \<longrightarrow> may_read auth members p) \<and>
      (\<forall>rows p. st_phase s = Queried rows \<and> p \<in> set rows \<longrightarrow> may_read auth members p))"

definition world_ok :: "world \<Rightarrow> bool" where
  "world_ok w =
     (distinct (hub_ids (wd_hub w)) \<and> registered (wd_hub w) \<and>
      (\<forall>s \<in> set (hb_streams (wd_hub w)). \<exists>auth members. (stream_id s, auth, members) \<in> set (wd_opened w) \<and> stream_ok auth members s))"

lemma world_ok_wrote:
  assumes "world_ok w" and "wrote new (wd_hub w) h" and "fewer (wd_hub w) h"
    and "\<And>s auth members p. s \<in> set (hb_streams (wd_hub w)) \<Longrightarrow> stream_ok auth members s \<Longrightarrow> p \<in> new (st_client s) \<Longrightarrow> may_read auth members p"
  shows "world_ok (w\<lparr> wd_hub := h \<rparr>)"
proof -
  from assms(2) have same: "hub_streams h = hub_streams (wd_hub w)" by (simp add: wrote_def)
  with assms(1,3) have "distinct (hub_ids h)" "registered h"
    using registered_fewer by (auto simp: world_ok_def hub_ids_def)
  moreover have "\<exists>auth members. (stream_id s', auth, members) \<in> set (wd_opened w) \<and> stream_ok auth members s'"
    if s': "s' \<in> set (hb_streams h)" for s'
  proof -
    from assms(2) s' obtain s where s: "s \<in> set (hb_streams (wd_hub w))" "st_client s' = st_client s" "st_phase s' = st_phase s"
        "\<forall>p. Message p \<in> set (st_chunks s') \<longrightarrow> Message p \<in> set (st_chunks s) \<or> p \<in> new (st_client s)"
      unfolding wrote_def by blast
    from assms(1) s(1) obtain auth members where o': "(stream_id s, auth, members) \<in> set (wd_opened w)" "stream_ok auth members s"
      unfolding world_ok_def by blast
    have "stream_ok auth members s'" using o'(2) s(2-4) assms(4) [OF s(1) o'(2)] by (auto simp: stream_ok_def)
    with o'(1) s(2) show ?thesis by auto
  qed
  ultimately show ?thesis by (simp add: world_ok_def)
qed

lemma missed_receives:
  assumes "p \<in> set (replayMissedEvents parse_date c lastEventId tables)" and "sc_projectFilter c \<noteq> Some []"
  shows "ep_tenant_id p = sc_tenantId c \<and> clientShouldReceive c p"
proof -
  have rows: "map se_row (enrichEventCveFields cache sel) = map se_row sel" for cache sel
    by (simp add: enrichEventCveFields_def Let_def comp_def)
  from assms(1) obtain cursor where cursor: "p \<in> set (map rowToPayload (enrichEventCveFields (sw_cache tables) (map (select_event (sw_catalog tables))
      (take 100 (sort_key snd (filter (missed_event c cursor) (sw_events tables)))))))"
    by (auto simp: replayMissedEvents_def Let_def split: if_splits option.splits)
  then obtain s where s: "p = rowToPayload s" "s \<in> set (enrichEventCveFields (sw_cache tables) (map (select_event (sw_catalog tables))
      (take 100 (sort_key snd (filter (missed_event c cursor) (sw_events tables))))))" by auto
  from s(2) have "se_row s \<in> set (map se_row (enrichEventCveFields (sw_cache tables) (map (select_event (sw_catalog tables))
      (take 100 (sort_key snd (filter (missed_event c cursor) (sw_events tables)))))))" by simp
  then have "se_row s \<in> set (map se_row (map (select_event (sw_catalog tables))
      (take 100 (sort_key snd (filter (missed_event c cursor) (sw_events tables))))))" unfolding rows .
  then obtain e where "e \<in> set (sort_key snd (filter (missed_event c cursor) (sw_events tables)))" "se_row s = fst e"
    by (auto simp: select_event_def Let_def dest: in_set_takeD)
  then have "missed_event c cursor e" "ep_tenant_id p = er_tenant_id (fst e)" "ep_project_id p = er_project_id (fst e)"
    by (simp_all add: s(1) rowToPayload_def Let_def)
  with assms(2) show ?thesis
    by (auto simp: missed_event_def clientShouldReceive_def JS_Core.present_def split: option.splits if_splits)
qed

lemma opened_ok:
  assumes "role_can (au_role auth) ''events.read_tenant'' \<or> role_can (au_role auth) ''events.read_project''"
    and "\<And>q. projectFilter = Some q \<Longrightarrow> q \<noteq> [] \<and> role_can (au_role auth) ''events.read_project'' \<and>
           checkProjectAccess (au_userId auth) q (au_tenantId auth) (au_role auth) members"
  shows "stream_ok auth members (new_stream i auth projectFilter lastEventId expiry members)"
proof -
  let ?s = "new_stream i auth projectFilter lastEventId expiry members"
  have s: "st_chunks ?s = [Connected]" "st_phase ?s = Opened lastEventId" "sc_tenantId (st_client ?s) = au_tenantId auth"
      "sc_projectFilter (st_client ?s) = projectFilter" "sc_hasTenantEventAccess (st_client ?s) = fst (resolveAllowedProjects auth members)"
      "sc_allowedProjects (st_client ?s) = snd (resolveAllowedProjects auth members)"
    by (simp_all add: new_stream_def Let_def split: prod.split)
  have "may_read auth members p" if p: "ep_tenant_id p = au_tenantId auth" "clientShouldReceive (st_client ?s) p" for p
  proof (cases "role_can (au_role auth) ''events.read_tenant''")
    case True
    with p(1) show ?thesis by (simp add: may_read_def)
  next
    case False
    have read: "role_can (au_role auth) ''events.read_project''" using False assms(1) by simp
    show ?thesis
    proof (cases projectFilter)
      case (Some q)
      have "ep_project_id p = Some q" using p(2) by (simp add: clientShouldReceive_def trans [OF s(4) Some])
      with p(1) assms(2) [OF Some] read show ?thesis by (simp add: may_read_def)
    next
      case None
      from p(2) False obtain m where "m \<in> set members" "mb_user_id m = au_userId auth" "mb_tenant_id m = au_tenantId auth"
          "ep_project_id p = Some (mb_project_id m)"
        by (auto simp: clientShouldReceive_def trans [OF s(4) None] s(5,6) resolveAllowedProjects_def split: option.splits)
      then show ?thesis using p(1) read by (auto simp: may_read_def checkProjectAccess_def list_ex_iff)
    qed
  qed
  moreover have "projectFilter \<noteq> Some []" using assms(2) by blast
  ultimately show ?thesis by (simp add: stream_ok_def s)
qed

lemma world_ok_open:
  assumes "world_ok w" and "fresh_id i w" and "stream_ok auth (wd_members w) (new_stream i auth projectFilter lastEventId expiry (wd_members w))"
  shows "world_ok (record_opening i auth (openEventStream i auth projectFilter lastEventId expiry (wd_members w) (wd_hub w)) w)"
proof -
  let ?s = "new_stream i auth projectFilter lastEventId expiry (wd_members w)"
  let ?h = "openEventStream i auth projectFilter lastEventId expiry (wd_members w) (wd_hub w)"
  have i: "stream_id ?s = i" by (simp add: new_stream_def Let_def split: prod.split)
  have streams: "hub_streams ?h = hub_streams (wd_hub w) @ [st_client ?s]" "hb_clients ?h = hb_clients (wd_hub w)"
    by (simp_all add: openEventStream_def hub_streams_def)
  have "i \<notin> set (hub_ids (wd_hub w))"
  proof
    assume "i \<in> set (hub_ids (wd_hub w))"
    then obtain s where "s \<in> set (hb_streams (wd_hub w))" "stream_id s = i" by (auto simp: hub_ids_def hub_streams_def)
    with assms(1) obtain auth' members where "(i, auth', members) \<in> set (wd_opened w)" unfolding world_ok_def by blast
    with assms(2) show False by (force simp: fresh_id_def)
  qed
  then have "distinct (hub_ids ?h)" using assms(1) i streams by (simp add: hub_ids_def world_ok_def)
  moreover have "registered (wd_hub w)" using assms(1) by (simp add: world_ok_def)
  then have "registered ?h" by (rule registered_same [OF _ streams(2)]) (simp add: streams(1) subset_insertI)
  moreover have "\<exists>auth' members. (stream_id s, auth', members) \<in> set (wd_opened w @ [(i, auth, wd_members w)]) \<and> stream_ok auth' members s"
    if "s \<in> set (hb_streams ?h)" for s
  proof (cases "s = ?s")
    case True
    then show ?thesis using assms(3) i by (intro exI [of _ auth] exI [of _ "wd_members w"]) simp
  next
    case False
    with that have "s \<in> set (hb_streams (wd_hub w))" by (simp add: openEventStream_def)
    with assms(1) obtain auth' members where "(stream_id s, auth', members) \<in> set (wd_opened w)" "stream_ok auth' members s"
      unfolding world_ok_def by blast
    then show ?thesis by (intro exI [of _ auth'] exI [of _ members]) simp
  qed
  ultimately show ?thesis by (simp add: world_ok_def record_opening_def)
qed

text \<open>A change of phase: what the query has read is for the client; what is written then was read.\<close>

lemma world_ok_missed:
  assumes "world_ok w"
  shows "world_ok (w\<lparr> wd_hub := read_missed parse_date i (wd_tables w) (wd_hub w) \<rparr>)"
proof -
  let ?h = "read_missed parse_date i (wd_tables w) (wd_hub w)"
  have same: "hub_streams ?h = hub_streams (wd_hub w)" "hb_clients ?h = hb_clients (wd_hub w)"
    by (auto simp: read_missed_def change_stream_def hub_streams_def split: stream_phase.split)
  have "registered (wd_hub w)" using assms by (simp add: world_ok_def)
  then have "registered ?h" by (rule registered_same [OF _ same(2)]) (simp add: same(1))
  moreover have "\<exists>auth members. (stream_id s', auth, members) \<in> set (wd_opened w) \<and> stream_ok auth members s'"
    if "s' \<in> set (hb_streams ?h)" for s'
  proof -
    let ?f = "\<lambda>s. case st_phase s of
         Opened lastEventId \<Rightarrow> s\<lparr> st_phase := Queried (replayMissedEvents parse_date (st_client s) lastEventId (wd_tables w)) \<rparr>
       | _ \<Rightarrow> s"
    from that obtain s where s: "s \<in> set (hb_streams (wd_hub w))" "s' = s \<or> s' = ?f s"
      by (auto simp: read_missed_def change_stream_def split: if_splits)
    from assms s(1) obtain auth members where o': "(stream_id s, auth, members) \<in> set (wd_opened w)" "stream_ok auth members s"
      unfolding world_ok_def by blast
    have "stream_ok auth members (?f s)"
      using o'(2) missed_receives [of _ parse_date "st_client s" _ "wd_tables w"] by (cases "st_phase s") (auto simp: stream_ok_def)
    moreover have "st_client (?f s) = st_client s" by (cases "st_phase s") simp_all
    ultimately show ?thesis using o' s(2) by metis
  qed
  ultimately show ?thesis using assms same by (simp add: world_ok_def hub_ids_def)
qed

lemma write_all_wrote:
  assumes "distinct (hub_ids h)" and "the_stream i h = Some s" and "set rows \<subseteq> new (st_client s)"
  shows "wrote new h (fold (\<lambda>e. write_chunk i (Message e)) rows h)"
  using assms
proof (induction rows arbitrary: h s)
  case (Cons e rows)
  let ?h = "write_chunk i (Message e) h"
  have one: "wrote new h ?h" using Cons.prems by (intro write_wrote) auto
  then have "distinct (hub_ids ?h)" using Cons.prems(1) by (simp add: wrote_def hub_ids_def)
  moreover from one have "hub_streams ?h = hub_streams h" by (simp add: wrote_def)
  from same_client [OF this Cons.prems(2)] obtain s' where "the_stream i ?h = Some s'" "st_client s' = st_client s" by blast
  ultimately have "wrote new ?h (fold (\<lambda>e. write_chunk i (Message e)) rows ?h)" using Cons.prems(3) by (intro Cons.IH) auto
  from wrote_trans [OF one this] show ?case by simp
qed simp

lemma world_ok_live:
  assumes "world_ok w"
  shows "world_ok (w\<lparr> wd_hub := go_live now i (wd_hub w) \<rparr>)"
proof (cases "the_stream i (wd_hub w)")
  case (Some s)
  show ?thesis
  proof (cases "st_phase s")
    case (Queried rows)
    let ?h1 = "fold (\<lambda>e. write_chunk i (Message e)) rows (wd_hub w)"
    let ?f = "\<lambda>s. s\<lparr> st_phase := Subscribed, st_expiry := armed now (st_expiry s) \<rparr>"
    have s: "s \<in> set (hb_streams (wd_hub w))" "stream_id s = i" using the_stream_Some [OF Some] by simp_all
    have dist: "distinct (hub_ids (wd_hub w))" using assms by (simp add: world_ok_def)
    have same: "s2 = s" if "s2 \<in> set (hb_streams (wd_hub w))" "st_client s2 = st_client s" for s2
      using that s dist by (auto simp: hub_ids_def hub_streams_def distinct_map inj_on_def)
    have "world_ok (w\<lparr> wd_hub := ?h1 \<rparr>)"
    proof (rule world_ok_wrote [OF assms write_all_wrote [OF dist Some, where new = "\<lambda>c. if c = st_client s then set rows else {}"]])
      show "fewer (wd_hub w) ?h1" by (rule fold_fewer) simp
      show "may_read auth members p" if "s2 \<in> set (hb_streams (wd_hub w))" "stream_ok auth members s2"
        "p \<in> (if st_client s2 = st_client s then set rows else {})" for s2 auth members p
        using that same [OF that(1)] Queried by (auto simp: stream_ok_def split: if_splits)
    qed simp
    then have ok: "distinct (hub_ids ?h1)" "registered ?h1"
        "\<forall>s \<in> set (hb_streams ?h1). \<exists>auth members. (stream_id s, auth, members) \<in> set (wd_opened w) \<and> stream_ok auth members s"
      by (simp_all add: world_ok_def)
    let ?h2 = "(change_stream i ?f ?h1)\<lparr> hb_clients := subscribe (st_client s) (hb_clients ?h1) \<rparr>"
    have streams: "hub_streams ?h2 = hub_streams ?h1" by (auto simp: hub_streams_def change_stream_def)
    have "hub_streams ?h1 = hub_streams (wd_hub w)"
      using write_all_wrote [OF dist Some, of rows "\<lambda>_. set rows"] by (simp add: wrote_def)
    then have own: "st_client s \<in> set (hub_streams ?h1)" using s(1) by (simp add: hub_streams_def)
    have "registered ?h2"
      using ok(2) own unfolding registered_def streams by (auto simp: subscribe_def Let_def)
    moreover have "\<exists>auth members. (stream_id s', auth, members) \<in> set (wd_opened w) \<and> stream_ok auth members s'"
      if "s' \<in> set (hb_streams ?h2)" for s'
    proof -
      from that obtain s1 where s1: "s1 \<in> set (hb_streams ?h1)" "s' = s1 \<or> s' = ?f s1"
        by (auto simp: change_stream_def split: if_splits)
      have "stream_ok auth members (?f s1) \<and> stream_id (?f s1) = stream_id s1" if "stream_ok auth members s1" for auth members
        using that by (auto simp: stream_ok_def)
      with ok(3) s1 show ?thesis by metis
    qed
    ultimately have "world_ok (w\<lparr> wd_hub := ?h2 \<rparr>)" using ok(1) streams by (simp add: world_ok_def hub_ids_def)
    then show ?thesis using Some Queried by (simp add: go_live_def Let_def)
  qed (use Some assms in \<open>simp_all add: go_live_def\<close>)
qed (use assms in \<open>simp add: go_live_def\<close>)

lemma world_ok_published:
  assumes "world_ok w"
  shows "world_ok (w\<lparr> wd_hub := publish (er_tenant_id row) (published_payload row ai now) (wd_hub w) \<rparr>)"
proof (rule world_ok_wrote [OF assms publish_wrote publish_fewer])
  show dist: "distinct (hub_ids (wd_hub w))" using assms by (simp add: world_ok_def)
  have reg: "registered (wd_hub w)" using assms by (simp add: world_ok_def)
  show "may_read auth members p" if s: "s \<in> set (hb_streams (wd_hub w))" "stream_ok auth members s"
      and p: "p \<in> (if sc_id (st_client s) \<in> set (clients_of (er_tenant_id row) (hb_clients (wd_hub w))) \<and>
          clientShouldReceive (st_client s) (published_payload row ai now) then {published_payload row ai now} else {})" for s auth members p
  proof -
    from p have receive: "sc_id (st_client s) \<in> set (clients_of (er_tenant_id row) (hb_clients (wd_hub w)))" "p = published_payload row ai now"
        "clientShouldReceive (st_client s) p"
      by (auto split: if_splits)
    have "st_client s \<in> set (hub_streams (wd_hub w))" using s(1) by (simp add: hub_streams_def)
    from registered_tenant [OF reg dist this receive(1)] have "sc_tenantId (st_client s) = er_tenant_id row" .
    moreover have "ep_tenant_id p = er_tenant_id row" by (simp add: receive(2) published_payload_def rowToPayload_def Let_def)
    ultimately show ?thesis using s(2) receive(3) by (simp add: stream_ok_def)
  qed
qed

lemma world_ok_quiet:
  assumes "world_ok w" and "wrote (\<lambda>_. {}) (wd_hub w) h" and "fewer (wd_hub w) h"
  shows "world_ok (w\<lparr> wd_hub := h \<rparr>)"
  using world_ok_wrote [OF assms(1,2,3)] by simp

lemma quiet_write: "distinct (hub_ids h) \<Longrightarrow> (\<And>p. c \<noteq> Message p) \<Longrightarrow> wrote (\<lambda>_. {}) h (write_chunk i c h)"
  by (rule write_wrote) auto

lemma expire_wrote:
  assumes "distinct (hub_ids h)"
  shows "wrote (\<lambda>_. {}) h (expire_token now i h) \<and> fewer h (expire_token now i h)"
proof -
  have "wrote (\<lambda>_. {}) h (doCleanup i (write_chunk i Auth_expired h))"
    by (rule wrote_trans [OF quiet_write [OF assms] cleanup_wrote]) simp
  moreover have "fewer h (doCleanup i (write_chunk i Auth_expired h))" by (rule fewer_trans [OF write_fewer cleanup_fewer])
  ultimately show ?thesis by (simp add: expire_token_def split: option.split)
qed

lemma stream_step_ok:
  assumes "stream_step is_uuid parse_date w w'" and "world_ok w" and "\<not> is_uuid []"
  shows "world_ok w'"
  using assms(1)
proof cases
  case (open_tenant i auth lastEventId expiry h)
  then have h: "h = openEventStream i auth None lastEventId expiry (wd_members w) (wd_hub w)"
      and can: "role_can (au_role auth) ''events.read_tenant'' \<or> role_can (au_role auth) ''events.read_project''"
    by (auto simp: tenantStreamRoute_def errorResult_def split: if_splits)
  from world_ok_open [OF assms(2) open_tenant(2) opened_ok [OF can, of None]] show ?thesis unfolding open_tenant(1) h by simp
next
  case (open_project i auth param lastEventId expiry h)
  then obtain q project where q: "requireProjectAccess is_uuid auth True param (wd_projects w) (wd_members w) = Inr (q, project)"
      "role_can (au_role auth) ''events.read_project''" "h = openEventStream i auth (Some q) lastEventId expiry (wd_members w) (wd_hub w)"
    by (auto simp: projectStreamRoute_def sum_bind_Inr_iff errorResult_def split: if_splits)
  then have "is_uuid q" "checkProjectAccess (au_userId auth) q (au_tenantId auth) (au_role auth) (wd_members w)"
    by (auto simp: requireProjectAccess_def sum_bind_Inr_iff validateUuidParam_def resolveProjectWithAccess_def errorResult_def
        split: option.splits if_splits)
  moreover have "q \<noteq> []" using \<open>is_uuid q\<close> assms(3) by auto
  ultimately have "stream_ok auth (wd_members w) (new_stream i auth (Some q) lastEventId expiry (wd_members w))"
    using q(2) by (intro opened_ok) auto
  from world_ok_open [OF assms(2) open_project(2) this] show ?thesis unfolding open_project(1) q(3) .
next
  case (missed i)
  then show ?thesis using world_ok_missed [OF assms(2)] by simp
next
  case (live now i)
  then show ?thesis using world_ok_live [OF assms(2)] by simp
next
  case (published row t ai now)
  then show ?thesis using world_ok_published [OF assms(2)] by simp
next
  case (pinged i)
  have "distinct (hub_ids (wd_hub w))" using assms(2) by (simp add: world_ok_def)
  from world_ok_quiet [OF assms(2) quiet_write [OF this] write_fewer] pinged show ?thesis by simp
next
  case (expired now i)
  have "distinct (hub_ids (wd_hub w))" using assms(2) by (simp add: world_ok_def)
  from expire_wrote [OF this] world_ok_quiet [OF assms(2)] expired show ?thesis by simp
next
  case (cancelled i)
  then show ?thesis using world_ok_quiet [OF assms(2) cleanup_wrote] by simp
next
  case (failed i)
  have "wrote (\<lambda>_. {}) (wd_hub w) (change_stream i (\<lambda>s. s\<lparr> st_failing := True \<rparr>) (wd_hub w))" by (rule wrote_change) simp_all
  with failed show ?thesis using world_ok_quiet [OF assms(2)] by simp
qed (use assms(2) in \<open>simp_all add: world_ok_def\<close>)

text \<open>
  C36: a stream carries only what its user may read. In every state the system reaches, by any sequence of
  openings, queries, subscriptions, publications, disconnections and changes of members, every event in a
  stream is of the tenant of the session that opened it, and that session could read it: by a role that
  reads the events of the tenant, or as one of a project the user had access to when the stream was opened.
\<close>

theorem stream_isolation:
  assumes "stream_reach is_uuid parse_date w" and "\<not> is_uuid []"
    and "s \<in> set (hb_streams (wd_hub w))" and "Message p \<in> set (st_chunks s)"
  shows "\<exists>auth members. (stream_id s, auth, members) \<in> set (wd_opened w) \<and> may_read auth members p"
proof -
  from assms(1) have "world_ok w"
  proof induction
    case (start w)
    then show ?case by (simp add: world_ok_def hub_ids_def hub_streams_def registered_def clients_of_def default_def)
  next
    case (step w w')
    from stream_step_ok [OF step.hyps(2) step.IH assms(2)] show ?case .
  qed
  with assms(3) obtain auth members where "(stream_id s, auth, members) \<in> set (wd_opened w)" "stream_ok auth members s"
    unfolding world_ok_def by blast
  with assms(4) show ?thesis by (auto simp: stream_ok_def)
qed

section \<open>Delivery\<close>

text \<open>Two hubs agree on a stream and on whether it is subscribed.\<close>

definition agrees :: "string \<Rightarrow> hub \<Rightarrow> hub \<Rightarrow> bool" where
  "agrees i h h' =
     (the_stream i h' = the_stream i h \<and> (\<forall>t. i \<in> set (clients_of t (hb_clients h')) \<longleftrightarrow> i \<in> set (clients_of t (hb_clients h))))"

lemma agrees_refl [simp]: "agrees i h h"
  by (simp add: agrees_def)

lemma agrees_trans: "agrees i h h1 \<Longrightarrow> agrees i h1 h2 \<Longrightarrow> agrees i h h2"
  by (simp add: agrees_def)

lemma find_changed:
  assumes "\<And>s. stream_id (f s) = stream_id s"
  shows "the_stream j (change_stream i f h) = (if i = j then map_option f (the_stream j h) else the_stream j h)"
proof -
  have "find (\<lambda>s. stream_id s = j) (map (\<lambda>s. if stream_id s = i then f s else s) ss) =
      (if i = j then map_option f (find (\<lambda>s. stream_id s = j) ss) else find (\<lambda>s. stream_id s = j) ss)" for ss
    by (induction ss) (auto simp: assms)
  then show ?thesis by (simp add: the_stream_def change_stream_def)
qed

lemma change_other: "i \<noteq> j \<Longrightarrow> (\<And>s. stream_id (f s) = stream_id s) \<Longrightarrow> agrees j h (change_stream i f h)"
  by (simp add: agrees_def find_changed) (simp add: change_stream_def)

lemma the_stream_clients [simp]: "the_stream i (h\<lparr> hb_clients := cs \<rparr>) = the_stream i h"
  by (simp add: the_stream_def)

lemma cleanup_other: "i \<noteq> j \<Longrightarrow> agrees j h (doCleanup i h)"
proof (cases "the_stream i h")
  case (Some s)
  assume "i \<noteq> j"
  moreover from this have "agrees j h (change_stream i (\<lambda>s. s\<lparr> st_closed := True \<rparr>) h)" by (rule change_other) simp
  moreover have "stream_id s = i" using the_stream_Some [OF Some] by simp
  ultimately show ?thesis using Some by (auto simp: doCleanup_def Let_def agrees_def unsubscribe_def change_stream_def)
qed (simp add: doCleanup_def)

lemma write_other: "i \<noteq> j \<Longrightarrow> agrees j h (write_chunk i c h)"
  by (simp add: write_chunk_def cleanup_other change_other split: option.split)

text \<open>A stream that is open and whose connection holds.\<close>

definition open_stream :: "stream \<Rightarrow> bool" where
  "open_stream s = (\<not> st_closed s \<and> \<not> st_failing s)"

lemma write_own:
  assumes "the_stream i h = Some s" and "open_stream s"
  shows "the_stream i (write_chunk i c h) = Some (s\<lparr> st_chunks := st_chunks s @ [c] \<rparr>)" and "hb_clients (write_chunk i c h) = hb_clients h"
  using assms by (simp_all add: write_chunk_def open_stream_def find_changed) (simp add: change_stream_def)

lemma write_all_own:
  assumes "the_stream i h = Some s" and "open_stream s"
  shows "the_stream i (fold (\<lambda>e. write_chunk i (Message e)) es h) = Some (s\<lparr> st_chunks := st_chunks s @ map Message es \<rparr>) \<and>
    hb_clients (fold (\<lambda>e. write_chunk i (Message e)) es h) = hb_clients h"
  using assms
proof (induction es arbitrary: h s)
  case (Cons e es)
  from write_own [OF Cons.prems] Cons.IH [of "write_chunk i (Message e) h" "s\<lparr> st_chunks := st_chunks s @ [Message e] \<rparr>"] Cons.prems(2)
  show ?case by (simp add: open_stream_def)
qed simp

text \<open>The clients of a tenant are a set.\<close>

definition sets :: "hub \<Rightarrow> bool" where
  "sets h = (\<forall>t. distinct (clients_of t (hb_clients h)))"

lemma cleanup_sets: "sets h \<Longrightarrow> sets (doCleanup i h)"
  by (auto simp: sets_def doCleanup_def Let_def change_stream_def unsubscribe_def split: option.split)

lemma write_sets: "sets h \<Longrightarrow> sets (write_chunk i c h)"
  by (auto simp: write_chunk_def cleanup_sets split: option.split) (simp_all add: sets_def change_stream_def)

definition deliver :: "event_payload \<Rightarrow> string \<Rightarrow> hub \<Rightarrow> hub" where
  "deliver e i h = (case the_stream i h of None \<Rightarrow> h | Some s \<Rightarrow> if clientShouldReceive (st_client s) e then write_chunk i (Message e) h else h)"

lemma publish_deliver: "publish t e h = fold (deliver e) (clients_of t (hb_clients h)) h"
  by (simp add: publish_def deliver_def [abs_def])

lemma publish_sets: "sets h \<Longrightarrow> sets (publish t e h)"
proof -
  have "sets h \<Longrightarrow> sets (fold (deliver e) ids h)" for ids h
    by (induction ids arbitrary: h) (simp_all add: deliver_def write_sets split: option.split)
  then show "sets h \<Longrightarrow> ?thesis" by (simp add: publish_deliver)
qed

lemma deliver_others: "i \<notin> set ids \<Longrightarrow> agrees i h (fold (deliver e) ids h)"
proof (induction ids arbitrary: h)
  case (Cons j ids)
  then have "agrees i h (deliver e j h)" by (auto simp: deliver_def write_other split: option.split)
  from agrees_trans [OF this] Cons show ?case by simp
qed simp

text \<open>One publication reaches an open stream once, if it is subscribed and the event is for the client.\<close>

lemma deliver_own:
  assumes "the_stream i h = Some s" and "open_stream s" and "distinct ids"
  shows "the_stream i (fold (deliver e) ids h) =
      Some (s\<lparr> st_chunks := st_chunks s @ (if i \<in> set ids \<and> clientShouldReceive (st_client s) e then [Message e] else []) \<rparr>) \<and>
    (\<forall>t. i \<in> set (clients_of t (hb_clients (fold (deliver e) ids h))) \<longleftrightarrow> i \<in> set (clients_of t (hb_clients h)))"
proof (cases "i \<in> set ids")
  case False
  with deliver_others [OF False, of h e] assms(1) show ?thesis by (simp add: agrees_def)
next
  case True
  then obtain xs ys where ids: "ids = xs @ i # ys" by (meson split_list)
  with assms(3) have apart: "i \<notin> set xs" "i \<notin> set ys" by auto
  let ?h1 = "fold (deliver e) xs h"
  have h1: "agrees i h ?h1" by (rule deliver_others [OF apart(1)])
  with assms(1) have s: "the_stream i ?h1 = Some s" by (simp add: agrees_def)
  have own: "the_stream i (deliver e i ?h1) = Some (s\<lparr> st_chunks := st_chunks s @ (if clientShouldReceive (st_client s) e then [Message e] else []) \<rparr>)"
      "hb_clients (deliver e i ?h1) = hb_clients ?h1"
    using write_own [OF s assms(2), of "Message e"] s by (simp_all add: deliver_def)
  have "agrees i (deliver e i ?h1) (fold (deliver e) ys (deliver e i ?h1))" by (rule deliver_others [OF apart(2)])
  with own h1 True show ?thesis by (simp add: ids agrees_def)
qed

lemma publications_own:
  assumes "the_stream i h = Some s" and "open_stream s" and "sets h"
    and "\<forall>t. i \<in> set (clients_of t (hb_clients h)) \<longleftrightarrow> t = sc_tenantId (st_client s)"
  shows "\<exists>s'. the_stream i (fold (\<lambda>e. publish (ep_tenant_id e) e) events h) = Some s' \<and>
    st_chunks s' = st_chunks s @ map Message (filter (\<lambda>e. ep_tenant_id e = sc_tenantId (st_client s) \<and> clientShouldReceive (st_client s) e) events)"
  using assms
proof (induction events arbitrary: h s)
  case (Cons e events)
  let ?s = "s\<lparr> st_chunks := st_chunks s @ (if ep_tenant_id e = sc_tenantId (st_client s) \<and> clientShouldReceive (st_client s) e then [Message e] else []) \<rparr>"
  have "distinct (clients_of (ep_tenant_id e) (hb_clients h))" using Cons.prems(3) by (simp add: sets_def)
  from deliver_own [OF Cons.prems(1,2) this, of e] Cons.prems(4)
  have "the_stream i (publish (ep_tenant_id e) e h) = Some ?s"
      "\<forall>t. i \<in> set (clients_of t (hb_clients (publish (ep_tenant_id e) e h))) \<longleftrightarrow> t = sc_tenantId (st_client ?s)"
    by (simp_all add: publish_deliver)
  from Cons.IH [OF this(1) _ publish_sets [OF Cons.prems(3)] this(2)] Cons.prems(2) show ?case by (fastforce simp: open_stream_def)
qed simp


subsection \<open>A concrete stream\<close>

definition stream_auth :: auth_context where
  "stream_auth = \<lparr> au_tenantId = ''t1'', au_tenantKind = ''customer'', au_userId = ''ann'', au_role = ''owner'' \<rparr>"

definition stream_event :: event_row where
  "stream_event = \<lparr> er_id = ''e1'', er_tenant_id = ''t1'', er_project_id = Some ''p1'', er_proxy_id = ''x'', er_package_id = None,
     er_package_version_id = None, er_decision = ''allow'', er_reason = Some ''allowed'', er_source = ''policy_engine'',
     er_event_type = ''proxy_request'', er_decision_cache = None, er_trace_id = None, er_span_id = None, er_request_id = None,
     er_serve_mode = None, er_bytes_transferred = None, er_project_token_id = None, er_client_ip = None, er_proxy_ip = None,
     er_duration_ms = None, er_decision_path = None, er_raw_identity = None, er_requested_ref = None, er_resolved_ref = None,
     er_ref_resolution_source = None, er_requested_at = 5 \<rparr>"

definition quiet_world :: world where
  "quiet_world = \<lparr> wd_tables = \<lparr> sw_events = [], sw_catalog = ig_catalog sample_ingest, sw_cache = [] \<rparr>, wd_projects = [], wd_members = [],
     wd_hub = \<lparr> hb_streams = [], hb_clients = [] \<rparr>, wd_opened = [] \<rparr>"

definition opened_world :: world where
  "opened_world = record_opening ''c'' stream_auth (openEventStream ''c'' stream_auth None None None [] (wd_hub quiet_world)) quiet_world"

definition live_world :: world where
  "live_world =
     (let w1 = opened_world\<lparr> wd_hub := read_missed (\<lambda>_. None) ''c'' (wd_tables opened_world) (wd_hub opened_world) \<rparr>;
          w2 = w1\<lparr> wd_hub := go_live 5 ''c'' (wd_hub w1) \<rparr>
      in w2\<lparr> wd_tables := (wd_tables w2)\<lparr> sw_events := sw_events (wd_tables w2) @ [(stream_event, 6)] \<rparr> \<rparr>)"

definition told_world :: world where
  "told_world = live_world\<lparr> wd_hub := publish (er_tenant_id stream_event) (published_payload stream_event left_pad 7) (wd_hub live_world) \<rparr>"

lemma opened_reached: "stream_reach some_uuid parse_date opened_world"
proof -
  have "stream_reach some_uuid parse_date quiet_world" by (rule stream_reach.start) (simp_all add: quiet_world_def)
  moreover have "tenantStreamRoute ''c'' stream_auth None None (wd_members quiet_world) (wd_hub quiet_world) =
      Inr (openEventStream ''c'' stream_auth None None None [] (wd_hub quiet_world))"
    by code_simp
  from stream_step.open_tenant [OF _ this] have "stream_step some_uuid parse_date quiet_world opened_world"
    unfolding opened_world_def by (simp add: fresh_id_def quiet_world_def)
  ultimately show ?thesis by (rule stream_reach.step)
qed

lemma told_reached: "stream_reach some_uuid (\<lambda>_. None) told_world"
proof -
  have live: "stream_reach some_uuid (\<lambda>_. None) live_world"
    unfolding live_world_def Let_def
    by (rule stream_reach.step [OF stream_reach.step [OF stream_reach.step [OF opened_reached stream_step.missed] stream_step.live] stream_step.stored])
  have "(stream_event, 6) \<in> set (sw_events (wd_tables live_world))" by (simp add: live_world_def Let_def)
  from stream_reach.step [OF live stream_step.published [OF this]] show ?thesis unfolding told_world_def .
qed

lemma told_chunks:
  "map st_chunks (hb_streams (wd_hub told_world)) = [[Connected, Message (published_payload stream_event left_pad 7)]]"
  by code_simp

theorem stream_isolation_witness:
  "\<exists>s \<in> set (hb_streams (wd_hub told_world)). Message (published_payload stream_event left_pad 7) \<in> set (st_chunks s) \<and>
     (\<exists>auth members. (stream_id s, auth, members) \<in> set (wd_opened told_world) \<and>
        may_read auth members (published_payload stream_event left_pad 7))"
proof -
  obtain s where s: "s \<in> set (hb_streams (wd_hub told_world))" "Message (published_payload stream_event left_pad 7) \<in> set (st_chunks s)"
    using told_chunks by (cases "hb_streams (wd_hub told_world)") auto
  from stream_isolation [OF told_reached [of "\<lambda>s. s \<noteq> []"] _ s] s show ?thesis by auto
qed

definition opened_hub :: hub where
  "opened_hub = wd_hub opened_world"


section \<open>Two defects\<close>

text \<open>
  An event that is published after the missed events were read, and before the client is subscribed, is in
  neither: the stream never carries it.
\<close>

theorem event_in_between_is_lost:
  assumes "the_stream i h = Some s" and "open_stream s" and "st_phase s = Queried rows" and "\<forall>t. i \<notin> set (clients_of t (hb_clients h))"
  shows "\<exists>s'. the_stream i (go_live now i (publish t e h)) = Some s' \<and> st_chunks s' = st_chunks s @ map Message rows"
proof -
  have "agrees i h (publish t e h)" using assms(4) by (simp add: publish_deliver deliver_others)
  with assms(1) have "the_stream i (publish t e h) = Some s" by (simp add: agrees_def)
  with write_all_own [OF this assms(2), of rows] assms(3) show ?thesis by (simp add: go_live_def Let_def find_changed)
qed

text \<open>
  A client that goes away while the missed events are read is subscribed all the same, and since its
  cleanup has been, nothing ends the subscription: neither the cleanup of its own stream nor that of another.
\<close>

theorem gone_client_stays_subscribed:
  assumes "the_stream i h = Some s" and "st_phase s = Queried rows" and "st_closed s"
  shows "i \<in> set (clients_of (sc_tenantId (st_client s)) (hb_clients (doCleanup j (go_live now i h))))"
proof -
  have i: "stream_id s = i" using the_stream_Some [OF assms(1)] by simp
  have "fold (\<lambda>e. write_chunk i (Message e)) es h = h" for es
    using assms(1,3) by (induction es) (simp_all add: write_chunk_def)
  then have live: "go_live now i h = (change_stream i (\<lambda>s. s\<lparr> st_phase := Subscribed, st_expiry := armed now (st_expiry s) \<rparr>) h)
      \<lparr> hb_clients := subscribe (st_client s) (hb_clients h) \<rparr>"
    using assms(1,2) by (simp add: go_live_def Let_def)
  have member: "i \<in> set (clients_of (sc_tenantId (st_client s)) (hb_clients (go_live now i h)))"
    using i by (simp add: live subscribe_def Let_def)
  show ?thesis
  proof (cases "j = i")
    case True
    have "doCleanup i (go_live now i h) = go_live now i h" using assms(1,3) by (simp add: doCleanup_def live find_changed)
    with member True show ?thesis by simp
  next
    case False
    from cleanup_other [OF False, of "go_live now i h"] member show ?thesis by (simp add: agrees_def)
  qed
qed

end
