(* ===== verification/Policy_Authoring.thy ===== *)
theory Policy_Authoring
  imports Project_Tokens Decision
begin

text \<open>
  The administration of policies, rules and project bindings: the handlers under
  \<open>features/policies\<close>, \<open>features/rules\<close> and \<open>features/policy-assignments\<close> with their request schemas,
  and the versioning they share, \<open>features/policies/versioning.ts\<close>. Policies, rules and bindings are
  versioned: a change closes the row in force and inserts its successor.

  The unique indexes and check constraints of \<open>db/schema/policies.ts\<close> are part of the model: a
  statement that breaks one throws, the transaction rolls back and the answer is 500. A request
  body arrives with its simple fields typed; the schemas of conditions and actions, which nest, are
  modelled on raw JSON. \<open>pick\<close> is the row a query with \<open>limit 1\<close> and no order returns when several match.
\<close>

section \<open>Request schemas\<close>

definition POLICY_STATUSES :: "string list" where
  "POLICY_STATUSES = [''active'', ''draft'', ''archived'']"

definition ENFORCEMENT_MODES :: "string list" where
  "ENFORCEMENT_MODES = [''enforcing'', ''advisory'', ''disabled'']"

definition optional :: "('a \<Rightarrow> bool) \<Rightarrow> 'a option \<Rightarrow> bool" where
  "optional P x = (case x of None \<Rightarrow> True | Some v \<Rightarrow> P v)"

definition name_schema :: "string \<Rightarrow> bool" where
  "name_schema s = (1 \<le> length s \<and> length s \<le> 255)"

record policy_body =
  bd_name :: string
  bd_description :: "string option"
  bd_category :: "string option"
  bd_scope :: string
  bd_enforcement_mode :: "string option"
  bd_priority :: "int option"
  bd_status :: "string option"

definition createPolicySchema :: "policy_body \<Rightarrow> bool" where
  "createPolicySchema b =
     (name_schema (bd_name b) \<and> bd_scope b \<in> {''global'', ''project''} \<and>
      optional (\<lambda>m. m \<in> set ENFORCEMENT_MODES) (bd_enforcement_mode b) \<and> optional (\<lambda>n. 1 \<le> n) (bd_priority b) \<and>
      optional (\<lambda>s. s = ''active'' \<or> s = ''draft'') (bd_status b))"

text \<open>A patch tells a field left out (\<open>None\<close>) from one set to null (\<open>Some None\<close>).\<close>

record policy_patch =
  pa_name :: "string option"
  pa_description :: "string option option"
  pa_category :: "string option option"
  pa_status :: "string option"
  pa_enforcement_mode :: "string option"
  pa_priority :: "int option"

definition no_patch :: policy_patch where
  "no_patch = \<lparr> pa_name = None, pa_description = None, pa_category = None, pa_status = None, pa_enforcement_mode = None,
     pa_priority = None \<rparr>"

definition patchPolicySchema :: "policy_patch \<Rightarrow> bool" where
  "patchPolicySchema b =
     (optional name_schema (pa_name b) \<and> optional (\<lambda>m. m \<in> set ENFORCEMENT_MODES) (pa_enforcement_mode b) \<and>
      optional (\<lambda>n. 1 \<le> n) (pa_priority b) \<and> optional (\<lambda>s. s \<in> set POLICY_STATUSES) (pa_status b))"

text \<open>
  The union of \<open>conditionSchema\<close>: the first alternative that accepts the value gives the parsed
  object, which keeps the keys of that alternative only.
\<close>

fun parse_all :: "('a \<Rightarrow> 'b option) \<Rightarrow> 'a list \<Rightarrow> 'b list option" where
  "parse_all f [] = Some []"
| "parse_all f (x # xs) =
     (case f x of None \<Rightarrow> None | Some y \<Rightarrow> map_option (Cons y) (parse_all f xs))"

lemma parse_all_cong [fundef_cong]:
  "xs = ys \<Longrightarrow> (\<And>x. x \<in> set ys \<Longrightarrow> f x = g x) \<Longrightarrow> parse_all f xs = parse_all g ys"
  by (induction xs arbitrary: ys) (auto split: option.split)

lemma parse_all_Some: "parse_all f xs = Some ys \<Longrightarrow> list_all2 (\<lambda>x y. f x = Some y) xs ys"
  by (induction xs arbitrary: ys) (auto split: option.splits)

definition string_field :: "jsobj \<Rightarrow> string \<Rightarrow> bool" where
  "string_field ps k = (case obj_get ps k of JStr s \<Rightarrow> s \<noteq> [] | _ \<Rightarrow> False)"

definition leaf_schema :: "jsobj \<Rightarrow> jsval option" where
  "leaf_schema ps =
     (if string_field ps ''field'' \<and> string_field ps ''operator''
      then Some (JObj ([(''field'', obj_get ps ''field''), (''operator'', obj_get ps ''operator'')] @
                       (if has_key ''value'' ps then [(''value'', obj_get ps ''value'')] else [])))
      else None)"

definition or_else :: "'a option \<Rightarrow> 'a option \<Rightarrow> 'a option" where
  "or_else x y = (case x of None \<Rightarrow> y | Some _ \<Rightarrow> x)"

function conditionSchema :: "jsval \<Rightarrow> jsval option" where
  "conditionSchema v =
     (case v of
        JObj ps \<Rightarrow>
          or_else (if is_all ps
                   then map_option (\<lambda>cs. JObj [(''all'', JArr cs)]) (parse_all conditionSchema (the (elems (obj_get ps ''all''))))
                   else None)
          (or_else (if is_any ps
                    then map_option (\<lambda>cs. JObj [(''any'', JArr cs)]) (parse_all conditionSchema (the (elems (obj_get ps ''any''))))
                    else None)
          (or_else (if is_not ps then map_option (\<lambda>c. JObj [(''not'', c)]) (conditionSchema (obj_get ps ''not'')) else None)
            (leaf_schema ps)))
      | _ \<Rightarrow> None)"
  by pat_completeness auto

termination conditionSchema
proof (relation "measure size")
  show "wf (measure (size :: jsval \<Rightarrow> nat))" by simp
  have elem: "(c, JObj ps) \<in> measure size"
    if "has_key k ps" and "elems (obj_get ps k) \<noteq> None" and "c \<in> set (the (elems (obj_get ps k)))" for k ps c
    using that size_obj_get [of k ps] size_elems [of "obj_get ps k" _ c] by fastforce
  show "(c, v) \<in> measure size"
    if "v = JObj ps" and "is_all ps" and "c \<in> set (the (elems (obj_get ps ''all'')))" for v ps c
    using that elem [of "''all''" ps c] by (simp add: is_all_def)
  show "(c, v) \<in> measure size"
    if "v = JObj ps" and "is_any ps" and "c \<in> set (the (elems (obj_get ps ''any'')))" for v ps c
    using that elem [of "''any''" ps c] by (simp add: is_any_def)
  show "(obj_get ps ''not'', v) \<in> measure size" if "v = JObj ps" and "is_not ps" for v ps
    using that size_obj_get [of "''not''" ps] by (simp add: is_not_def)
qed

declare conditionSchema.simps [simp del]

definition optional_field :: "(jsval \<Rightarrow> bool) \<Rightarrow> jsobj \<Rightarrow> string \<Rightarrow> bool" where
  "optional_field P ps k = (obj_get ps k = JUndef \<or> P (obj_get ps k))"

definition is_string :: "jsval \<Rightarrow> bool" where
  "is_string v = (case v of JStr _ \<Rightarrow> True | _ \<Rightarrow> False)"

definition action_keys :: "string list" where
  "action_keys = [''type'', ''severity'', ''code'', ''message_template'', ''recommended_remediation'', ''enforcement_mode'']"

definition actionSchema :: "jsval \<Rightarrow> jsobj option" where
  "actionSchema v =
     (case v of
        JObj ps \<Rightarrow>
          if obj_get ps ''type'' \<in> {JStr ''violation'', JStr ''warning'', JStr ''info''} \<and>
             optional_field (\<lambda>x. x \<in> {JStr ''critical'', JStr ''high'', JStr ''medium'', JStr ''low''}) ps ''severity'' \<and>
             optional_field (\<lambda>x. is_string x \<and> x \<noteq> JStr []) ps ''code'' \<and>
             optional_field is_string ps ''message_template'' \<and> optional_field is_string ps ''recommended_remediation'' \<and>
             optional_field (\<lambda>x. x \<in> {JStr ''enforcing'', JStr ''advisory''}) ps ''enforcement_mode''
          then Some (map (\<lambda>k. (k, obj_get ps k)) (filter (\<lambda>k. obj_get ps k \<noteq> JUndef) action_keys))
          else None
      | _ \<Rightarrow> None)"

section \<open>Constraints of the tables\<close>

definition fresh :: "policy_db \<Rightarrow> string \<times> policy_db" where
  "fresh db = (let (x, u) = draw (pd_uuids db) in (x, db\<lparr> pd_uuids := u \<rparr>))"

definition insert_policy :: "policy_row \<Rightarrow> policy_db \<Rightarrow> js_error + policy_db" where
  "insert_policy p db =
     (if list_ex (\<lambda>q. po_policy_key q = po_policy_key p \<and> po_effective_to q = None) (pd_policies db)
      then Inl (AppError ''policies_current_policy_key_idx'')
      else if list_ex (\<lambda>q. po_policy_key q = po_policy_key p \<and> po_version q = po_version p) (pd_policies db)
      then Inl (AppError ''policies_policy_key_version_idx'')
      else if \<not> (po_scope p = ''global'' \<and> po_project_id p = None \<or> po_scope p = ''project'' \<and> po_project_id p \<noteq> None)
      then Inl (AppError ''scope_project_consistency'')
      else Inr (db\<lparr> pd_policies := pd_policies db @ [p] \<rparr>))"

definition close_policies :: "ms \<Rightarrow> (policy_row \<Rightarrow> bool) \<Rightarrow> policy_db \<Rightarrow> js_error + policy_db" where
  "close_policies now P db =
     (if list_ex (\<lambda>p. P p \<and> \<not> po_effective_from p < now) (pd_policies db) then Inl (AppError ''policies_valid_window'')
      else Inr (db\<lparr> pd_policies := update_where P (\<lambda>p. p\<lparr> po_effective_to := Some now \<rparr>) (pd_policies db) \<rparr>))"

definition insert_rule :: "rule_row \<Rightarrow> policy_db \<Rightarrow> js_error + policy_db" where
  "insert_rule r db =
     (if list_ex (\<lambda>q. ru_rule_key q = ru_rule_key r \<and> ru_effective_to q = None) (pd_rules db)
      then Inl (AppError ''rules_current_rule_key_idx'')
      else if list_ex (\<lambda>q. ru_rule_key q = ru_rule_key r \<and> ru_version q = ru_version r) (pd_rules db)
      then Inl (AppError ''rules_rule_key_version_idx'')
      else Inr (db\<lparr> pd_rules := pd_rules db @ [r] \<rparr>))"

definition close_rules :: "ms \<Rightarrow> (rule_row \<Rightarrow> bool) \<Rightarrow> policy_db \<Rightarrow> js_error + policy_db" where
  "close_rules now P db =
     (if list_ex (\<lambda>r. P r \<and> \<not> ru_effective_from r < now) (pd_rules db) then Inl (AppError ''rules_valid_window'')
      else Inr (db\<lparr> pd_rules := update_where P (\<lambda>r. r\<lparr> ru_effective_to := Some now \<rparr>) (pd_rules db) \<rparr>))"

definition insert_project_binding :: "project_binding_row \<Rightarrow> policy_db \<Rightarrow> js_error + policy_db" where
  "insert_project_binding b db =
     (if list_ex (\<lambda>q. pb_binding_key q = pb_binding_key b \<and> pb_version q = pb_version b) (pd_project_bindings db)
      then Inl (AppError ''policy_project_bindings_key_version_idx'')
      else if list_ex (\<lambda>q. pb_binding_key q = pb_binding_key b \<and> pb_effective_to q = None) (pd_project_bindings db)
      then Inl (AppError ''policy_project_bindings_current_key_idx'')
      else if list_ex (\<lambda>q. pb_tenant_id q = pb_tenant_id b \<and> pb_project_id q = pb_project_id b \<and>
                 pb_policy_key q = pb_policy_key b \<and> pb_effective_to q = None) (pd_project_bindings db)
      then Inl (AppError ''policy_project_bindings_current_policy_project_idx'')
      else Inr (db\<lparr> pd_project_bindings := pd_project_bindings db @ [b] \<rparr>))"

definition close_project_bindings :: "ms \<Rightarrow> (project_binding_row \<Rightarrow> bool) \<Rightarrow> policy_db \<Rightarrow> js_error + policy_db" where
  "close_project_bindings now P db =
     (if list_ex (\<lambda>b. P b \<and> \<not> pb_effective_from b < now) (pd_project_bindings db)
      then Inl (AppError ''policy_project_bindings_valid_window'')
      else Inr (db\<lparr> pd_project_bindings := update_where P (\<lambda>b. b\<lparr> pb_effective_to := Some now \<rparr>) (pd_project_bindings db) \<rparr>))"

text \<open>A rule as a policy binds it, without the row identity.\<close>

record binding_clone =
  bc_rule_id :: string
  bc_enabled :: bool
  bc_required :: bool
  bc_order_index :: int

definition clone_of :: "rule_binding_row \<Rightarrow> binding_clone" where
  "clone_of b = \<lparr> bc_rule_id = rb_rule_id b, bc_enabled = rb_enabled b, bc_required = rb_required b, bc_order_index = rb_order_index b \<rparr>"

definition binding_row_of :: "string \<Rightarrow> string \<Rightarrow> string \<Rightarrow> binding_clone \<Rightarrow> rule_binding_row" where
  "binding_row_of rowId tenantId policyId c =
     \<lparr> rb_id = rowId, rb_tenant_id = tenantId, rb_policy_id = policyId, rb_rule_id = bc_rule_id c, rb_enabled = bc_enabled c,
       rb_required = bc_required c, rb_order_index = bc_order_index c \<rparr>"

fun insert_rule_bindings :: "string \<Rightarrow> string \<Rightarrow> binding_clone list \<Rightarrow> policy_db \<Rightarrow> js_error + policy_db" where
  "insert_rule_bindings tenantId policyId [] db = Inr db"
| "insert_rule_bindings tenantId policyId (c # cs) db =
     (let (rowId, db1) = fresh db
      in if list_ex (\<lambda>b. rb_policy_id b = policyId \<and> rb_rule_id b = bc_rule_id c) (pd_rule_bindings db)
         then Inl (AppError ''policy_rule_bindings_policy_rule_idx'')
         else if list_ex (\<lambda>b. rb_policy_id b = policyId \<and> rb_order_index b = bc_order_index c) (pd_rule_bindings db)
         then Inl (AppError ''policy_rule_bindings_policy_order_idx'')
         else insert_rule_bindings tenantId policyId cs
                (db1\<lparr> pd_rule_bindings := pd_rule_bindings db1 @ [binding_row_of rowId tenantId policyId c] \<rparr>))"

section \<open>Versioning\<close>

definition loadPolicyForTenant :: "string \<Rightarrow> string \<Rightarrow> policy_db \<Rightarrow> policy_row option" where
  "loadPolicyForTenant policyId tenantId db =
     first_row (\<lambda>p. po_id p = policyId \<and> po_tenant_id p = tenantId) (pd_policies db)"

definition loadPolicyRuleBindingsForClone :: "string \<Rightarrow> string \<Rightarrow> policy_db \<Rightarrow> rule_binding_row list" where
  "loadPolicyRuleBindingsForClone policyId tenantId db =
     sort_key rb_order_index (filter (\<lambda>b. rb_policy_id b = policyId \<and> rb_tenant_id b = tenantId) (pd_rule_bindings db))"

definition next_policy :: "ms \<Rightarrow> string \<Rightarrow> policy_patch \<Rightarrow> policy_row \<Rightarrow> policy_row" where
  "next_policy now rowId patch existing =
     \<lparr> po_id = rowId, po_policy_key = po_policy_key existing, po_tenant_id = po_tenant_id existing,
       po_project_id = po_project_id existing, po_name = default (po_name existing) (pa_name patch),
       po_description = default (po_description existing) (pa_description patch),
       po_category = default (po_category existing) (pa_category patch), po_scope = po_scope existing,
       po_status = default (po_status existing) (pa_status patch),
       po_enforcement_mode = default (po_enforcement_mode existing) (pa_enforcement_mode patch),
       po_priority = default (po_priority existing) (pa_priority patch), po_version = po_version existing + 1,
       po_effective_from = now, po_effective_to = None, po_superseded_by_id = None \<rparr>"

definition createNextPolicyVersion ::
    "ms \<Rightarrow> policy_row \<Rightarrow> string \<Rightarrow> binding_clone list \<Rightarrow> policy_patch \<Rightarrow> policy_db \<Rightarrow> js_error + (policy_row \<times> policy_db)" where
  "createNextPolicyVersion now existing tenantId bindings patch db =
     (let this = (\<lambda>p. po_id p = po_id existing \<and> po_tenant_id p = tenantId)
      in sum_bind (close_policies now this db) (\<lambda>db1.
         let (rowId, db2) = fresh db1;
             newPolicy = next_policy now rowId patch existing
         in sum_bind (insert_policy newPolicy db2) (\<lambda>db3.
            sum_bind (insert_rule_bindings tenantId rowId bindings db3) (\<lambda>db4.
              Inr (newPolicy, db4\<lparr> pd_policies :=
                update_where this (\<lambda>p. p\<lparr> po_superseded_by_id := Some rowId \<rparr>) (pd_policies db4) \<rparr>)))))"

section \<open>Handlers of policies\<close>

definition invalid_body :: "'a http_result" where
  "invalid_body = errorResult 400 '''' ''invalid request body'' None"

definition policy_param :: "(string \<Rightarrow> bool) \<Rightarrow> auth_context \<Rightarrow> string \<Rightarrow> policy_db \<Rightarrow> policy_row http_result" where
  "policy_param is_uuid auth param db =
     sum_bind (validateUuidParam is_uuid ''Policy ID'' param) (\<lambda>policyId.
       case loadPolicyForTenant policyId (au_tenantId auth) db of
         None \<Rightarrow> errorResult 404 ''NOT_FOUND'' ''Policy not found'' (Some policyId)
       | Some policy \<Rightarrow> Inr policy)"

definition new_policy :: "ms \<Rightarrow> string \<Rightarrow> string \<Rightarrow> string \<Rightarrow> string option \<Rightarrow> policy_body \<Rightarrow> policy_row" where
  "new_policy now rowId key tenantId projectId body =
     \<lparr> po_id = rowId, po_policy_key = key, po_tenant_id = tenantId, po_project_id = projectId, po_name = bd_name body,
       po_description = bd_description body, po_category = bd_category body, po_scope = bd_scope body,
       po_status = default ''active'' (bd_status body), po_enforcement_mode = default ''enforcing'' (bd_enforcement_mode body),
       po_priority = default 100 (bd_priority body), po_version = 1, po_effective_from = now, po_effective_to = None,
       po_superseded_by_id = None \<rparr>"

definition create_policy :: "ms \<Rightarrow> string \<Rightarrow> string option \<Rightarrow> policy_body \<Rightarrow> policy_db \<Rightarrow> js_error + (policy_row \<times> policy_db)" where
  "create_policy now tenantId projectId body db =
     (let (rowId, db1) = fresh db; (key, db2) = fresh db1; row = new_policy now rowId key tenantId projectId body
      in sum_bind (insert_policy row db2) (\<lambda>db3. Inr (row, db3)))"

definition createTenantPolicyRoute ::
    "(string \<Rightarrow> bool) \<Rightarrow> auth_context \<Rightarrow> ms \<Rightarrow> string \<Rightarrow> policy_body \<Rightarrow> policy_db \<Rightarrow> (policy_row \<times> policy_db) http_result" where
  "createTenantPolicyRoute is_uuid auth now param body db =
     (if \<not> createPolicySchema body then invalid_body
      else sum_bind (requireTenantCapabilityAccess is_uuid auth ''policy.write_tenant''
             ''You do not have access to create tenant policies'' param) (\<lambda>tenantId.
        if bd_scope body \<noteq> ''global''
        then errorResult 400 ''INVALID_REQUEST'' ''Use POST /v1/projects/:id/policies for project-scoped policies'' None
        else service_call (create_policy now tenantId None body db)))"

text \<open>The body of a project policy has neither category nor scope nor status.\<close>

definition createProjectPolicyRoute ::
    "(string \<Rightarrow> bool) \<Rightarrow> auth_context \<Rightarrow> ms \<Rightarrow> string \<Rightarrow> string \<Rightarrow> string option \<Rightarrow> string option \<Rightarrow> int option \<Rightarrow>
     project_row list \<Rightarrow> project_member_row list \<Rightarrow> policy_db \<Rightarrow> (policy_row \<times> policy_db) http_result" where
  "createProjectPolicyRoute is_uuid auth now param name description mode priority projects members db =
     (let body = \<lparr> bd_name = name, bd_description = description, bd_category = None, bd_scope = ''project'',
                   bd_enforcement_mode = mode, bd_priority = priority, bd_status = None \<rparr>
      in if \<not> createPolicySchema body then invalid_body
         else sum_bind (requireTenantCapability auth ''policy.write_project'' ''You do not have access to create project policies'') (\<lambda>_.
              sum_bind (requireProjectAccess is_uuid auth True param projects members) (\<lambda>(projectId, _).
                service_call (create_policy now (au_tenantId auth) (Some projectId) body db))))"

definition write_capability :: "policy_row \<Rightarrow> string" where
  "write_capability policy = (if po_scope policy = ''project'' then ''policy.write_project'' else ''policy.write_tenant'')"

definition read_capability :: "policy_row \<Rightarrow> string" where
  "read_capability policy = (if po_scope policy = ''project'' then ''policy.read_project'' else ''policy.read_tenant'')"

definition patchPolicyRoute ::
    "(string \<Rightarrow> bool) \<Rightarrow> auth_context \<Rightarrow> ms \<Rightarrow> string \<Rightarrow> policy_patch \<Rightarrow> policy_db \<Rightarrow> (policy_row \<times> policy_db) http_result" where
  "patchPolicyRoute is_uuid auth now param body db =
     (if \<not> patchPolicySchema body then invalid_body
      else sum_bind (policy_param is_uuid auth param db) (\<lambda>existing.
           sum_bind (requireTenantCapability auth (write_capability existing) ''You do not have access to modify this policy'') (\<lambda>_.
             if po_status existing = ''archived'' then errorResult 409 ''INVALID_STATE'' ''Archived policies cannot be modified'' None
             else service_call (createNextPolicyVersion now existing (au_tenantId auth)
                    (map clone_of (loadPolicyRuleBindingsForClone (po_id existing) (au_tenantId auth) db)) body db))))"

text \<open>Closes the bindings of the policy in every project, those already closed included.\<close>

definition deletePolicyRoute ::
    "(string \<Rightarrow> bool) \<Rightarrow> auth_context \<Rightarrow> ms \<Rightarrow> string \<Rightarrow> policy_db \<Rightarrow> policy_db http_result" where
  "deletePolicyRoute is_uuid auth now param db =
     sum_bind (policy_param is_uuid auth param db) (\<lambda>existing.
     sum_bind (requireTenantCapability auth (write_capability existing) ''You do not have access to delete this policy'') (\<lambda>_.
       service_call (
         sum_bind (close_policies now (\<lambda>p. po_id p = po_id existing \<and> po_tenant_id p = au_tenantId auth) db)
           (close_project_bindings now (\<lambda>b. pb_policy_key b = po_policy_key existing \<and> pb_tenant_id b = au_tenantId auth)))))"

definition listTenantPoliciesRoute ::
    "(string \<Rightarrow> bool) \<Rightarrow> auth_context \<Rightarrow> ms \<Rightarrow> string \<Rightarrow> string option \<Rightarrow> string option \<Rightarrow> policy_db \<Rightarrow> policy_row list http_result" where
  "listTenantPoliciesRoute is_uuid auth now param scope status db =
     sum_bind (requireTenantCapabilityAccess is_uuid auth ''policy.read_tenant'' ''You do not have access to view tenant policies'' param)
       (\<lambda>tenantId. Inr (sort_key po_priority (filter (\<lambda>p. po_tenant_id p = tenantId \<and>
          in_force now (po_effective_from p) (po_effective_to p) \<and>
          (present scope \<longrightarrow> (if scope = Some ''global'' then po_project_id p = None else Some (po_scope p) = scope)) \<and>
          (present status \<longrightarrow> Some (po_status p) = status)) (pd_policies db))))"

definition listProjectPoliciesRoute ::
    "(string \<Rightarrow> bool) \<Rightarrow> auth_context \<Rightarrow> ms \<Rightarrow> string \<Rightarrow> project_row list \<Rightarrow> project_member_row list \<Rightarrow> policy_db \<Rightarrow>
     policy_row list http_result" where
  "listProjectPoliciesRoute is_uuid auth now param projects members db =
     sum_bind (requireTenantCapability auth ''policy.read_project'' ''You do not have access to view project policies'') (\<lambda>_.
     sum_bind (requireProjectAccess is_uuid auth True param projects members) (\<lambda>(projectId, _).
       Inr (sort_key po_priority (filter (\<lambda>p. po_tenant_id p = au_tenantId auth \<and> po_scope p = ''project'' \<and>
              po_project_id p = Some projectId \<and> in_force now (po_effective_from p) (po_effective_to p)) (pd_policies db)))))"

definition effectivePoliciesRoute ::
    "(string \<Rightarrow> bool) \<Rightarrow> auth_context \<Rightarrow> ms \<Rightarrow> string \<Rightarrow> project_row list \<Rightarrow> project_member_row list \<Rightarrow> policy_db \<Rightarrow>
     policy_snapshot http_result" where
  "effectivePoliciesRoute is_uuid auth now param projects members db =
     sum_bind (requireTenantCapability auth ''policy.read_project'' ''You do not have access to view project policies'') (\<lambda>_.
     sum_bind (requireProjectAccess is_uuid auth True param projects members) (\<lambda>(projectId, _).
       Inr (loadEffectivePolicy db now (au_tenantId auth) projectId)))"

text \<open>The rules a policy version binds, in order.\<close>

definition policy_rule_list :: "string \<Rightarrow> string \<Rightarrow> policy_db \<Rightarrow> (rule_binding_row \<times> rule_row) list" where
  "policy_rule_list policyId tenantId db =
     sort_key (\<lambda>(b, _). rb_order_index b)
       (concat (map (\<lambda>b. map (Pair b) (filter (\<lambda>r. ru_id r = rb_rule_id b \<and> ru_tenant_id r = tenantId) (pd_rules db)))
         (filter (\<lambda>b. rb_policy_id b = policyId \<and> rb_tenant_id b = tenantId) (pd_rule_bindings db))))"

definition listPolicyRulesRoute ::
    "(string \<Rightarrow> bool) \<Rightarrow> auth_context \<Rightarrow> string \<Rightarrow> policy_db \<Rightarrow> (rule_binding_row \<times> rule_row) list http_result" where
  "listPolicyRulesRoute is_uuid auth param db =
     sum_bind (policy_param is_uuid auth param db) (\<lambda>policy.
     sum_bind (requireTenantCapability auth (read_capability policy) ''You do not have access to view rules for this policy'') (\<lambda>_.
       Inr (policy_rule_list (po_id policy) (au_tenantId auth) db)))"

definition getPolicyRoute ::
    "(string \<Rightarrow> bool) \<Rightarrow> auth_context \<Rightarrow> string \<Rightarrow> policy_db \<Rightarrow> (policy_row \<times> (rule_binding_row \<times> rule_row) list) http_result" where
  "getPolicyRoute is_uuid auth param db =
     sum_bind (policy_param is_uuid auth param db) (\<lambda>policy.
     sum_bind (requireTenantCapability auth (read_capability policy) ''You do not have access to view this policy'') (\<lambda>_.
       Inr (policy, policy_rule_list (po_id policy) (au_tenantId auth) db)))"

section \<open>Handlers of rules\<close>

record rule_body =
  bo_name :: string
  bo_description :: "string option"
  bo_target_entity :: string
  bo_condition :: jsval
  bo_action :: jsval
  bo_enabled :: "bool option"
  bo_order_index :: "int option"

definition RULE_TARGET_ENTITIES :: "string list" where
  "RULE_TARGET_ENTITIES = [''artifact'', ''dependency'', ''finding'', ''repository'']"

definition createRuleSchema :: "rule_body \<Rightarrow> (jsval \<times> jsobj) option" where
  "createRuleSchema b =
     (if name_schema (bo_name b) \<and> bo_target_entity b \<in> set RULE_TARGET_ENTITIES \<and> optional (\<lambda>n. 0 \<le> n) (bo_order_index b)
      then (case (conditionSchema (bo_condition b), actionSchema (bo_action b)) of
              (Some c, Some a) \<Rightarrow> Some (c, a) | _ \<Rightarrow> None)
      else None)"

definition new_rule :: "ms \<Rightarrow> string \<Rightarrow> string \<Rightarrow> string \<Rightarrow> rule_body \<Rightarrow> jsval \<Rightarrow> jsobj \<Rightarrow> rule_row" where
  "new_rule now rowId key tenantId b condition action =
     \<lparr> ru_id = rowId, ru_rule_key = key, ru_tenant_id = tenantId, ru_name = bo_name b, ru_description = bo_description b,
       ru_target_entity = bo_target_entity b, ru_condition = condition, ru_action = action, ru_version = 1,
       ru_effective_from = now, ru_effective_to = None, ru_superseded_by_id = None \<rparr>"

definition add_rule ::
    "ms \<Rightarrow> policy_row \<Rightarrow> string \<Rightarrow> rule_body \<Rightarrow> jsval \<Rightarrow> jsobj \<Rightarrow> policy_db \<Rightarrow>
     js_error + (rule_row \<times> rule_binding_row \<times> policy_db)" where
  "add_rule now policy tenantId b condition action db =
     (let (rowId, db1) = fresh db; (key, db2) = fresh db1; rule = new_rule now rowId key tenantId b condition action
      in sum_bind (insert_rule rule db2) (\<lambda>db3.
         let existingBindings = loadPolicyRuleBindingsForClone (po_id policy) tenantId db3;
             nextBindings = map clone_of existingBindings @
               [\<lparr> bc_rule_id = rowId, bc_enabled = default True (bo_enabled b), bc_required = False,
                  bc_order_index = default (int (length existingBindings)) (bo_order_index b) \<rparr>]
         in sum_bind (createNextPolicyVersion now policy tenantId nextBindings no_patch db3) (\<lambda>(nextPolicy, db4).
            case first_row (\<lambda>x. rb_policy_id x = po_id nextPolicy \<and> rb_rule_id x = rowId \<and> rb_tenant_id x = tenantId)
                   (pd_rule_bindings db4) of
              None \<Rightarrow> Inl (AppError ''rule_binding_create_failed'')
            | Some binding \<Rightarrow> Inr (rule, binding, db4))))"

definition createRuleRoute ::
    "(string \<Rightarrow> bool) \<Rightarrow> auth_context \<Rightarrow> ms \<Rightarrow> string \<Rightarrow> rule_body \<Rightarrow> policy_db \<Rightarrow>
     (rule_row \<times> rule_binding_row \<times> policy_db) http_result" where
  "createRuleRoute is_uuid auth now param body db =
     (case createRuleSchema body of
        None \<Rightarrow> invalid_body
      | Some (condition, action) \<Rightarrow>
          sum_bind (policy_param is_uuid auth param db) (\<lambda>policy.
          sum_bind (requireTenantCapability auth ''rules.write'' ''You do not have access to create rules'') (\<lambda>_.
            if po_status policy = ''archived'' then errorResult 409 ''INVALID_STATE'' ''Cannot add rules to an archived policy'' None
            else service_call (add_rule now policy (au_tenantId auth) body condition action db))))"

definition reorder_clone :: "(string \<times> int) list \<Rightarrow> rule_binding_row \<Rightarrow> binding_clone" where
  "reorder_clone order b = (clone_of b)\<lparr> bc_order_index := default (rb_order_index b) (map_of (rev order) (rb_rule_id b)) \<rparr>"

text \<open>\<open>JSON.stringify\<close> of a list of identifiers.\<close>

definition json_ids :: "string list \<Rightarrow> string" where
  "json_ids ids =
     ''['' @ js_join '','' (map (\<lambda>i. [char_of (34::nat)] @ i @ [char_of (34::nat)]) ids) @ '']''"

definition reorderRulesRoute ::
    "(string \<Rightarrow> bool) \<Rightarrow> auth_context \<Rightarrow> ms \<Rightarrow> string \<Rightarrow> (string \<times> int) list \<Rightarrow> policy_db \<Rightarrow>
     ((rule_binding_row \<times> rule_row) list \<times> policy_db) http_result" where
  "reorderRulesRoute is_uuid auth now param order db =
     (if order = [] \<or> list_ex (\<lambda>(i, n). \<not> is_uuid i \<or> n < 0) order then invalid_body
      else sum_bind (policy_param is_uuid auth param db) (\<lambda>policy.
           sum_bind (requireTenantCapability auth ''rules.write'' ''You do not have access to reorder rules'') (\<lambda>_.
             let existingIds = map (\<lambda>(_, r). ru_id r) (policy_rule_list (po_id policy) (au_tenantId auth) db);
                 unknown = filter (\<lambda>i. i \<notin> set existingIds) (map fst order)
             in if unknown \<noteq> [] then errorResult 404 ''NOT_FOUND'' ''Some rule IDs do not belong to this policy'' (Some (json_ids unknown))
                else sum_bind (service_call (createNextPolicyVersion now policy (au_tenantId auth)
                       (map (reorder_clone order) (loadPolicyRuleBindingsForClone (po_id policy) (au_tenantId auth) db)) no_patch db))
                     (\<lambda>(nextPolicy, db'). Inr (policy_rule_list (po_id nextPolicy) (au_tenantId auth) db', db')))))"

text \<open>
  The rule and, when it is bound anywhere, one of its bindings: the query joins the bindings of all
  policy versions and takes one row, in no order. The order index a patch may carry is not used.
\<close>

definition getRuleForTenant ::
    "(rule_binding_row list \<Rightarrow> rule_binding_row) \<Rightarrow> string \<Rightarrow> string \<Rightarrow> policy_db \<Rightarrow> (rule_row \<times> rule_binding_row option) option" where
  "getRuleForTenant pick ruleId tenantId db =
     (case first_row (\<lambda>r. ru_id r = ruleId \<and> ru_tenant_id r = tenantId) (pd_rules db) of
        None \<Rightarrow> None
      | Some r \<Rightarrow>
          let bs = filter (\<lambda>b. rb_rule_id b = ruleId \<and> rb_tenant_id b = tenantId) (pd_rule_bindings db)
          in Some (r, if bs = [] then None else Some (pick bs)))"

record rule_patch =
  rq_name :: "string option"
  rq_description :: "string option option"
  rq_target_entity :: "string option"
  rq_condition :: "jsval option"
  rq_action :: "jsval option"
  rq_enabled :: "bool option"

definition parsed :: "('a \<Rightarrow> 'b option) \<Rightarrow> 'a option \<Rightarrow> 'b option option" where
  "parsed schema x = (case x of None \<Rightarrow> Some None | Some v \<Rightarrow> map_option Some (schema v))"

definition patchRuleSchema :: "rule_patch \<Rightarrow> (jsval option \<times> jsobj option) option" where
  "patchRuleSchema b =
     (if optional name_schema (rq_name b) \<and> optional (\<lambda>t. t \<in> set RULE_TARGET_ENTITIES) (rq_target_entity b)
      then (case (parsed conditionSchema (rq_condition b), parsed actionSchema (rq_action b)) of
              (Some c, Some a) \<Rightarrow> Some (c, a) | _ \<Rightarrow> None)
      else None)"

definition next_rule :: "ms \<Rightarrow> string \<Rightarrow> rule_patch \<Rightarrow> jsval option \<Rightarrow> jsobj option \<Rightarrow> rule_row \<Rightarrow> rule_row" where
  "next_rule now rowId b condition action existing =
     \<lparr> ru_id = rowId, ru_rule_key = ru_rule_key existing, ru_tenant_id = ru_tenant_id existing,
       ru_name = default (ru_name existing) (rq_name b), ru_description = default (ru_description existing) (rq_description b),
       ru_target_entity = default (ru_target_entity existing) (rq_target_entity b),
       ru_condition = default (ru_condition existing) condition, ru_action = default (ru_action existing) action,
       ru_version = ru_version existing + 1, ru_effective_from = now, ru_effective_to = None, ru_superseded_by_id = None \<rparr>"

definition changed_clone :: "rule_patch \<Rightarrow> string \<Rightarrow> string \<Rightarrow> rule_binding_row \<Rightarrow> binding_clone" where
  "changed_clone b oldId newId x =
     (if rb_rule_id x = oldId then (clone_of x)\<lparr> bc_rule_id := newId, bc_enabled := default (rb_enabled x) (rq_enabled b) \<rparr>
      else clone_of x)"

definition change_rule ::
    "ms \<Rightarrow> string \<Rightarrow> rule_row \<Rightarrow> rule_binding_row option \<Rightarrow> rule_patch \<Rightarrow> jsval option \<Rightarrow> jsobj option \<Rightarrow> policy_db \<Rightarrow>
     js_error + (rule_row \<times> string option \<times> policy_db)" where
  "change_rule now tenantId existing binding b condition action db =
     (let this = (\<lambda>r. ru_id r = ru_id existing \<and> ru_tenant_id r = tenantId)
      in sum_bind (close_rules now this db) (\<lambda>db1.
         let (rowId, db2) = fresh db1; newRule = next_rule now rowId b condition action existing
         in sum_bind (insert_rule newRule db2) (\<lambda>db3.
            let db4 = db3\<lparr> pd_rules := update_where this (\<lambda>r. r\<lparr> ru_superseded_by_id := Some rowId \<rparr>) (pd_rules db3) \<rparr>
            in case binding of
                 None \<Rightarrow> Inr (newRule, None, db4)
               | Some x \<Rightarrow>
                   (case loadPolicyForTenant (rb_policy_id x) tenantId db4 of
                      None \<Rightarrow> Inl (AppError ''policy_not_found_for_rule'')
                    | Some oldPolicy \<Rightarrow>
                        sum_bind (createNextPolicyVersion now oldPolicy tenantId
                            (map (changed_clone b (ru_id existing) rowId) (loadPolicyRuleBindingsForClone (po_id oldPolicy) tenantId db4))
                            no_patch db4) (\<lambda>(newPolicy, db5). Inr (newRule, Some (po_id newPolicy), db5))))))"

definition rule_param ::
    "(rule_binding_row list \<Rightarrow> rule_binding_row) \<Rightarrow> auth_context \<Rightarrow> string \<Rightarrow> policy_db \<Rightarrow>
     (rule_row \<times> rule_binding_row option) http_result" where
  "rule_param pick auth ruleId db =
     (case getRuleForTenant pick ruleId (au_tenantId auth) db of
        None \<Rightarrow> errorResult 404 ''NOT_FOUND'' ''Rule not found'' (Some ruleId)
      | Some x \<Rightarrow> Inr x)"

definition patchRuleRoute ::
    "(rule_binding_row list \<Rightarrow> rule_binding_row) \<Rightarrow> (string \<Rightarrow> bool) \<Rightarrow> auth_context \<Rightarrow> ms \<Rightarrow> string \<Rightarrow> rule_patch \<Rightarrow> policy_db \<Rightarrow>
     (rule_row \<times> string option \<times> policy_db) http_result" where
  "patchRuleRoute pick is_uuid auth now param body db =
     (case patchRuleSchema body of
        None \<Rightarrow> invalid_body
      | Some (condition, action) \<Rightarrow>
          sum_bind (validateUuidParam is_uuid ''Rule ID'' param) (\<lambda>ruleId.
          sum_bind (requireTenantCapability auth ''rules.write'' ''You do not have access to modify rules'') (\<lambda>_.
          sum_bind (rule_param pick auth ruleId db) (\<lambda>(existing, binding).
            let policy = Option.bind binding (\<lambda>x. loadPolicyForTenant (rb_policy_id x) (au_tenantId auth) db)
            in if map_option po_status policy = Some ''archived''
               then errorResult 409 ''INVALID_STATE'' ''Cannot modify rules of an archived policy'' None
               else service_call (change_rule now (au_tenantId auth) existing binding body condition action db)))))"

definition getRuleRoute ::
    "(rule_binding_row list \<Rightarrow> rule_binding_row) \<Rightarrow> (string \<Rightarrow> bool) \<Rightarrow> auth_context \<Rightarrow> string \<Rightarrow> policy_db \<Rightarrow>
     (rule_row \<times> rule_binding_row option) http_result" where
  "getRuleRoute pick is_uuid auth param db =
     sum_bind (validateUuidParam is_uuid ''Rule ID'' param) (\<lambda>ruleId.
     sum_bind (rule_param pick auth ruleId db) (\<lambda>x.
     sum_bind (requireTenantCapability auth ''rules.read'' ''You do not have access to view this rule'') (\<lambda>_. Inr x)))"

definition delete_rule ::
    "ms \<Rightarrow> string \<Rightarrow> rule_row \<Rightarrow> rule_binding_row option \<Rightarrow> policy_db \<Rightarrow> js_error + (string option \<times> policy_db)" where
  "delete_rule now tenantId existing binding db =
     sum_bind (close_rules now (\<lambda>r. ru_id r = ru_id existing \<and> ru_tenant_id r = tenantId) db) (\<lambda>db1.
       case Option.bind binding (\<lambda>x. loadPolicyForTenant (rb_policy_id x) tenantId db1) of
         None \<Rightarrow> Inr (None, db1)
       | Some oldPolicy \<Rightarrow>
           sum_bind (createNextPolicyVersion now oldPolicy tenantId
               (map clone_of (filter (\<lambda>x. rb_rule_id x \<noteq> ru_id existing) (loadPolicyRuleBindingsForClone (po_id oldPolicy) tenantId db1)))
               no_patch db1) (\<lambda>(newPolicy, db2). Inr (Some (po_id newPolicy), db2)))"

definition deleteRuleRoute ::
    "(rule_binding_row list \<Rightarrow> rule_binding_row) \<Rightarrow> (string \<Rightarrow> bool) \<Rightarrow> auth_context \<Rightarrow> ms \<Rightarrow> string \<Rightarrow> policy_db \<Rightarrow>
     (string option \<times> policy_db) http_result" where
  "deleteRuleRoute pick is_uuid auth now param db =
     sum_bind (validateUuidParam is_uuid ''Rule ID'' param) (\<lambda>ruleId.
     sum_bind (requireTenantCapability auth ''rules.write'' ''You do not have access to delete rules'') (\<lambda>_.
     sum_bind (rule_param pick auth ruleId db) (\<lambda>(existing, binding).
       service_call (delete_rule now (au_tenantId auth) existing binding db))))"

section \<open>Handlers of project bindings\<close>

text \<open>Overrides of thresholds and rules are arbitrary objects: the schema checks nothing below them.\<close>

record binding_body =
  bb_enabled :: "bool option"
  bb_inheritance_mode :: "string option"
  bb_severity_override :: "string option option"
  bb_threshold_overrides :: "jsval option"
  bb_rule_overrides :: "jsval option"
  bb_enforcement_mode_override :: "string option option"

definition record_or_null :: "jsval \<Rightarrow> bool" where
  "record_or_null v = (case v of JObj _ \<Rightarrow> True | JNull \<Rightarrow> True | _ \<Rightarrow> False)"

definition bindingMutationSchema :: "binding_body \<Rightarrow> bool" where
  "bindingMutationSchema b =
     (optional (\<lambda>m. m \<in> {''inherited'', ''override'', ''disabled''}) (bb_inheritance_mode b) \<and>
      optional record_or_null (bb_threshold_overrides b) \<and> optional record_or_null (bb_rule_overrides b) \<and>
      optional (optional (\<lambda>m. m = ''advisory'' \<or> m = ''disabled'')) (bb_enforcement_mode_override b))"

definition new_project_binding :: "ms \<Rightarrow> string \<Rightarrow> string \<Rightarrow> string \<Rightarrow> string \<Rightarrow> string \<Rightarrow> binding_body \<Rightarrow> project_binding_row" where
  "new_project_binding now rowId key policyKey projectId tenantId b =
     \<lparr> pb_id = rowId, pb_binding_key = key, pb_policy_key = policyKey, pb_project_id = projectId, pb_tenant_id = tenantId,
       pb_enabled = default True (bb_enabled b), pb_inheritance_mode = default ''inherited'' (bb_inheritance_mode b),
       pb_severity_override = default None (bb_severity_override b),
       pb_threshold_overrides = default JNull (bb_threshold_overrides b), pb_rule_overrides = default JNull (bb_rule_overrides b),
       pb_enforcement_mode_override = default None (bb_enforcement_mode_override b), pb_version = 1,
       pb_effective_from = now, pb_effective_to = None, pb_superseded_by_id = None \<rparr>"

definition createBindingRoute ::
    "(string \<Rightarrow> bool) \<Rightarrow> auth_context \<Rightarrow> ms \<Rightarrow> string \<Rightarrow> string \<Rightarrow> binding_body \<Rightarrow> project_row list \<Rightarrow> policy_db \<Rightarrow>
     (project_binding_row \<times> policy_db) http_result" where
  "createBindingRoute is_uuid auth now param projectId body projects db =
     (if \<not> (bindingMutationSchema body \<and> is_uuid projectId) then invalid_body
      else sum_bind (policy_param is_uuid auth param db) (\<lambda>policy.
        if po_scope policy \<noteq> ''global'' then errorResult 400 ''INVALID_REQUEST'' ''Only global policies can have bindings'' None
        else sum_bind (requireTenantCapability auth ''policy_assignments.write'' ''You do not have access to create policy bindings'') (\<lambda>_.
          case current_project projectId (au_tenantId auth) projects of
            None \<Rightarrow> errorResult 404 ''NOT_FOUND'' ''Project not found'' (Some projectId)
          | Some _ \<Rightarrow>
              let (rowId, db1) = fresh db; (key, db2) = fresh db1;
                  row = new_project_binding now rowId key (po_policy_key policy) projectId (au_tenantId auth) body
              in service_call (sum_bind (insert_project_binding row db2) (\<lambda>db3. Inr (row, db3))))))"

definition binding_param :: "auth_context \<Rightarrow> string \<Rightarrow> policy_db \<Rightarrow> project_binding_row http_result" where
  "binding_param auth bindingId db =
     (case first_row (\<lambda>b. pb_id b = bindingId \<and> pb_tenant_id b = au_tenantId auth) (pd_project_bindings db) of
        None \<Rightarrow> errorResult 404 ''NOT_FOUND'' ''Binding not found'' (Some bindingId)
      | Some b \<Rightarrow> Inr b)"

definition getBindingRoute ::
    "(string \<Rightarrow> bool) \<Rightarrow> auth_context \<Rightarrow> string \<Rightarrow> policy_db \<Rightarrow> project_binding_row http_result" where
  "getBindingRoute is_uuid auth param db =
     sum_bind (validateUuidParam is_uuid ''Binding ID'' param) (\<lambda>bindingId.
     sum_bind (binding_param auth bindingId db) (\<lambda>b.
     sum_bind (requireTenantCapability auth ''policy_assignments.read'' ''You do not have access to view this binding'') (\<lambda>_. Inr b)))"

definition next_binding :: "ms \<Rightarrow> string \<Rightarrow> binding_body \<Rightarrow> project_binding_row \<Rightarrow> project_binding_row" where
  "next_binding now rowId b existing =
     existing\<lparr> pb_id := rowId, pb_enabled := default (pb_enabled existing) (bb_enabled b),
       pb_inheritance_mode := default (pb_inheritance_mode existing) (bb_inheritance_mode b),
       pb_severity_override := default (pb_severity_override existing) (bb_severity_override b),
       pb_threshold_overrides := default (pb_threshold_overrides existing) (bb_threshold_overrides b),
       pb_rule_overrides := default (pb_rule_overrides existing) (bb_rule_overrides b),
       pb_enforcement_mode_override := default (pb_enforcement_mode_override existing) (bb_enforcement_mode_override b),
       pb_version := pb_version existing + 1, pb_effective_from := now, pb_effective_to := None, pb_superseded_by_id := None \<rparr>"

definition patchBindingRoute ::
    "(string \<Rightarrow> bool) \<Rightarrow> auth_context \<Rightarrow> ms \<Rightarrow> string \<Rightarrow> binding_body \<Rightarrow> policy_db \<Rightarrow> (project_binding_row \<times> policy_db) http_result" where
  "patchBindingRoute is_uuid auth now param body db =
     (if \<not> bindingMutationSchema body then invalid_body
      else sum_bind (validateUuidParam is_uuid ''Binding ID'' param) (\<lambda>bindingId.
           sum_bind (requireTenantCapability auth ''policy_assignments.write'' ''You do not have access to modify policy bindings'') (\<lambda>_.
           sum_bind (binding_param auth bindingId db) (\<lambda>existing.
             let (rowId, db1) = fresh db; nextBinding = next_binding now rowId body existing
             in service_call (sum_bind (insert_project_binding nextBinding db1) (\<lambda>db2.
                  sum_bind (close_project_bindings now (\<lambda>b. pb_id b = bindingId \<and> pb_tenant_id b = au_tenantId auth) db2) (\<lambda>db3.
                    Inr (nextBinding, db3\<lparr> pd_project_bindings :=
                      update_where (\<lambda>b. pb_id b = bindingId \<and> pb_tenant_id b = au_tenantId auth)
                        (\<lambda>b. b\<lparr> pb_superseded_by_id := Some rowId \<rparr>) (pd_project_bindings db3) \<rparr>))))))))"

definition deleteBindingRoute ::
    "(string \<Rightarrow> bool) \<Rightarrow> auth_context \<Rightarrow> ms \<Rightarrow> string \<Rightarrow> policy_db \<Rightarrow> policy_db http_result" where
  "deleteBindingRoute is_uuid auth now param db =
     sum_bind (validateUuidParam is_uuid ''Binding ID'' param) (\<lambda>bindingId.
     sum_bind (requireTenantCapability auth ''policy_assignments.write'' ''You do not have access to delete policy bindings'') (\<lambda>_.
     sum_bind (binding_param auth bindingId db) (\<lambda>_.
       service_call (close_project_bindings now (\<lambda>b. pb_id b = bindingId \<and> pb_tenant_id b = au_tenantId auth) db))))"

definition listPolicyBindingsRoute ::
    "(string \<Rightarrow> bool) \<Rightarrow> auth_context \<Rightarrow> ms \<Rightarrow> string \<Rightarrow> policy_db \<Rightarrow> project_binding_row list http_result" where
  "listPolicyBindingsRoute is_uuid auth now param db =
     sum_bind (policy_param is_uuid auth param db) (\<lambda>policy.
       if po_scope policy \<noteq> ''global'' then errorResult 400 ''INVALID_REQUEST'' ''Only global policies can have bindings'' None
       else sum_bind (requireTenantCapability auth ''policy_assignments.read'' ''You do not have access to view policy bindings'') (\<lambda>_.
         Inr (filter (\<lambda>b. pb_policy_key b = po_policy_key policy \<and> pb_tenant_id b = au_tenantId auth \<and>
                in_force now (pb_effective_from b) (pb_effective_to b)) (pd_project_bindings db))))"

definition listProjectBindingsRoute ::
    "(string \<Rightarrow> bool) \<Rightarrow> auth_context \<Rightarrow> ms \<Rightarrow> string \<Rightarrow> project_row list \<Rightarrow> project_member_row list \<Rightarrow> policy_db \<Rightarrow>
     project_binding_row list http_result" where
  "listProjectBindingsRoute is_uuid auth now param projects members db =
     sum_bind (requireTenantCapability auth ''policy_assignments.read'' ''You do not have access to view project bindings'') (\<lambda>_.
     sum_bind (requireProjectAccess is_uuid auth True param projects members) (\<lambda>(projectId, _).
       Inr (filter (\<lambda>b. pb_project_id b = projectId \<and> in_force now (pb_effective_from b) (pb_effective_to b))
              (pd_project_bindings db))))"

section \<open>What the schemas guarantee\<close>

lemma or_else_Some: "or_else x y = Some z \<longleftrightarrow> x = Some z \<or> x = None \<and> y = Some z"
  by (auto simp: or_else_def split: option.splits)

text \<open>A parsed condition is well formed: every node of it is an object of a known form.\<close>

lemma conditionSchema_well_formed: "conditionSchema v = Some c \<Longrightarrow> well_formed (decode_condition c)"
proof (induction v arbitrary: c rule: conditionSchema.induct)
  case (1 v)
  then obtain ps where v: "v = JObj ps" by (cases v) (simp_all add: conditionSchema.simps)
  have list: "\<forall>y \<in> set cs. well_formed (decode_condition y)"
    if "parse_all conditionSchema xs = Some cs" and "\<And>x y. x \<in> set xs \<Longrightarrow> conditionSchema x = Some y \<Longrightarrow> well_formed (decode_condition y)"
    for xs cs
    using parse_all_Some [OF that(1)] that(2) by (induction rule: list_all2_induct) auto
  consider (all) cs where "is_all ps" "c = JObj [(''all'', JArr cs)]" "parse_all conditionSchema (the (elems (obj_get ps ''all''))) = Some cs"
    | (any) cs where "is_any ps" "c = JObj [(''any'', JArr cs)]" "parse_all conditionSchema (the (elems (obj_get ps ''any''))) = Some cs"
    | (neg) d where "is_not ps" "c = JObj [(''not'', d)]" "conditionSchema (obj_get ps ''not'') = Some d"
    | (leaf) "leaf_schema ps = Some c"
    using 1(4) unfolding v conditionSchema.simps [of "JObj ps"]
    by (simp add: or_else_Some split: if_splits) blast+
  then show ?case
  proof cases
    case all
    with list [OF all(3)] 1(1) [OF v] show ?thesis
      by (simp add: decode_condition.simps [of "JObj [(''all'', JArr cs)]"] is_all_def has_key_def obj_get_def list_all_iff)
  next
    case any
    with list [OF any(3)] 1(2) [OF v] show ?thesis
      by (simp add: decode_condition.simps [of "JObj [(''any'', JArr cs)]"] is_all_def is_any_def has_key_def obj_get_def list_all_iff)
  next
    case neg
    with 1(3) [OF v] show ?thesis
      by (simp add: decode_condition.simps [of "JObj [(''not'', d)]"] is_all_def is_any_def is_not_def has_key_def obj_get_def list_all_iff)
  next
    case leaf
    then show ?thesis
      by (auto simp: leaf_schema_def decode_condition.simps [of "JObj _"] is_all_def is_any_def is_not_def is_leaf_def has_key_def
          obj_get_def split: if_splits)
  qed
qed

definition template_ok :: "jsobj \<Rightarrow> bool" where
  "template_ok action = (case obj_get action ''message_template'' of JStr _ \<Rightarrow> True | t \<Rightarrow> \<not> js_truthy t)"

lemma kept_field:
  "obj_get (map (\<lambda>k. (k, obj_get ps k)) (filter (\<lambda>k. obj_get ps k \<noteq> JUndef) ks)) k =
     (if k \<in> set ks then obj_get ps k else JUndef)"
  unfolding obj_get_def [of "map _ _"] map_of_map_restrict by (auto simp: restrict_map_def)

lemma actionSchema_template:
  assumes "actionSchema v = Some a"
  shows "template_ok a"
proof -
  obtain ps where a: "a = map (\<lambda>k. (k, obj_get ps k)) (filter (\<lambda>k. obj_get ps k \<noteq> JUndef) action_keys)"
    and t: "optional_field is_string ps ''message_template''"
    using assms by (simp add: actionSchema_def split: jsval.splits if_splits) blast
  have "''message_template'' \<in> set action_keys" by (simp add: action_keys_def)
  then have "obj_get a ''message_template'' = obj_get ps ''message_template''" unfolding a kept_field by simp
  with t show ?thesis by (auto simp: template_ok_def optional_field_def is_string_def split: jsval.splits)
qed

section \<open>Effects of the operations\<close>

definition later_source :: "uuid_source \<Rightarrow> uuid_source \<Rightarrow> bool" where
  "later_source u u' = (us_supply u' = us_supply u \<and> us_drawn u \<le> us_drawn u')"

lemma later_refl [simp]: "later_source u u"
  by (simp add: later_source_def)

lemma later_trans [trans]: "later_source u v \<Longrightarrow> later_source v w \<Longrightarrow> later_source u w"
  by (simp add: later_source_def)

lemma draw_later: "draw u = (x, u') \<Longrightarrow> later_source u u'"
  by (auto simp: draw_def later_source_def)

lemma source_ok_later: "later_source u u' \<Longrightarrow> source_ok u \<Longrightarrow> source_ok u'"
  by (simp add: later_source_def source_ok_def)

lemma drawn_later: "later_source u u' \<Longrightarrow> drawn_id u x \<Longrightarrow> drawn_id u' x"
  unfolding later_source_def drawn_id_def by (metis order_less_le_trans)

lemma ids_ok_later: "later_source u u' \<Longrightarrow> ids_ok rid u rows \<Longrightarrow> ids_ok rid u' rows"
  by (auto simp: ids_ok_def intro: drawn_later)

lemma fresh_spec:
  "fresh db = (x, db') \<Longrightarrow> draw (pd_uuids db) = (x, pd_uuids db') \<and> pd_policies db' = pd_policies db \<and> pd_rules db' = pd_rules db \<and>
     pd_rule_bindings db' = pd_rule_bindings db \<and> pd_project_bindings db' = pd_project_bindings db"
  by (auto simp: fresh_def split: prod.splits)

lemma close_policies_Inr:
  "close_policies now P db = Inr db' \<longleftrightarrow> (\<forall>p \<in> set (pd_policies db). P p \<longrightarrow> po_effective_from p < now) \<and>
     db' = db\<lparr> pd_policies := update_where P (\<lambda>p. p\<lparr> po_effective_to := Some now \<rparr>) (pd_policies db) \<rparr>"
  by (auto simp: close_policies_def list_ex_iff)

lemma close_rules_Inr:
  "close_rules now P db = Inr db' \<longleftrightarrow> (\<forall>r \<in> set (pd_rules db). P r \<longrightarrow> ru_effective_from r < now) \<and>
     db' = db\<lparr> pd_rules := update_where P (\<lambda>r. r\<lparr> ru_effective_to := Some now \<rparr>) (pd_rules db) \<rparr>"
  by (auto simp: close_rules_def list_ex_iff)

lemma close_bindings_Inr:
  "close_project_bindings now P db = Inr db' \<longleftrightarrow> (\<forall>b \<in> set (pd_project_bindings db). P b \<longrightarrow> pb_effective_from b < now) \<and>
     db' = db\<lparr> pd_project_bindings := update_where P (\<lambda>b. b\<lparr> pb_effective_to := Some now \<rparr>) (pd_project_bindings db) \<rparr>"
  by (auto simp: close_project_bindings_def list_ex_iff)

lemma insert_policy_Inr:
  "insert_policy p db = Inr db' \<Longrightarrow> db' = db\<lparr> pd_policies := pd_policies db @ [p] \<rparr> \<and>
     (\<forall>q \<in> set (pd_policies db). \<not> (po_policy_key q = po_policy_key p \<and> po_effective_to q = None))"
  by (auto simp: insert_policy_def list_ex_iff split: if_splits)

lemma insert_rule_Inr:
  "insert_rule r db = Inr db' \<Longrightarrow> db' = db\<lparr> pd_rules := pd_rules db @ [r] \<rparr>"
  by (auto simp: insert_rule_def split: if_splits)

lemma insert_binding_Inr:
  "insert_project_binding b db = Inr db' \<Longrightarrow> db' = db\<lparr> pd_project_bindings := pd_project_bindings db @ [b] \<rparr>"
  by (auto simp: insert_project_binding_def split: if_splits)

lemma insert_rule_bindings_spec:
  "insert_rule_bindings tenantId policyId cs db = Inr db' \<Longrightarrow>
   \<exists>new. pd_rule_bindings db' = pd_rule_bindings db @ new \<and> map clone_of new = cs \<and>
     (\<forall>b \<in> set new. rb_policy_id b = policyId \<and> rb_tenant_id b = tenantId) \<and> pd_policies db' = pd_policies db \<and>
     pd_rules db' = pd_rules db \<and> pd_project_bindings db' = pd_project_bindings db \<and> later_source (pd_uuids db) (pd_uuids db')"
proof (induction cs arbitrary: db)
  case (Cons c cs)
  obtain x db1 where f: "fresh db = (x, db1)" by (cases "fresh db")
  let ?b = "binding_row_of x tenantId policyId c"
  from Cons.prems f have "insert_rule_bindings tenantId policyId cs (db1\<lparr> pd_rule_bindings := pd_rule_bindings db1 @ [?b] \<rparr>) = Inr db'"
    by (simp split: if_splits)
  from Cons.IH [OF this] fresh_spec [OF f] obtain new where
      "pd_rule_bindings db' = pd_rule_bindings db @ ?b # new" "map clone_of new = cs"
      "\<forall>b \<in> set new. rb_policy_id b = policyId \<and> rb_tenant_id b = tenantId" "pd_policies db' = pd_policies db"
      "pd_rules db' = pd_rules db" "pd_project_bindings db' = pd_project_bindings db" "later_source (pd_uuids db) (pd_uuids db')"
    by (auto dest: draw_later intro: later_trans)
  moreover have "clone_of ?b = c" "rb_policy_id ?b = policyId" "rb_tenant_id ?b = tenantId"
    by (simp_all add: clone_of_def binding_row_of_def)
  ultimately show ?case by (intro exI [of _ "?b # new"]) simp
qed simp

text \<open>The bindings of one policy version have distinct positions.\<close>

lemma inserted_positions:
  "insert_rule_bindings tenantId policyId cs db = Inr db' \<Longrightarrow> c \<in> set cs \<Longrightarrow> b \<in> set (pd_rule_bindings db) \<Longrightarrow>
   rb_policy_id b = policyId \<Longrightarrow> rb_order_index b \<noteq> bc_order_index c"
proof (induction cs arbitrary: db)
  case (Cons d cs)
  obtain x db1 where f: "fresh db = (x, db1)" by (cases "fresh db")
  from Cons.prems(1) f have "insert_rule_bindings tenantId policyId cs
      (db1\<lparr> pd_rule_bindings := pd_rule_bindings db1 @ [binding_row_of x tenantId policyId d] \<rparr>) = Inr db'"
      and "\<not> list_ex (\<lambda>b. rb_policy_id b = policyId \<and> rb_order_index b = bc_order_index d) (pd_rule_bindings db)"
    by (simp_all split: if_splits)
  with Cons.IH [OF this(1)] Cons.prems(2-4) fresh_spec [OF f] show ?case by (auto simp: list_ex_iff)
qed simp

lemma distinct_positions:
  "insert_rule_bindings tenantId policyId cs db = Inr db' \<Longrightarrow> distinct (map bc_order_index cs)"
proof (induction cs arbitrary: db)
  case (Cons d cs)
  obtain x db1 where f: "fresh db = (x, db1)" by (cases "fresh db")
  let ?b = "binding_row_of x tenantId policyId d"
  from Cons.prems f have r: "insert_rule_bindings tenantId policyId cs (db1\<lparr> pd_rule_bindings := pd_rule_bindings db1 @ [?b] \<rparr>) = Inr db'"
    by (simp split: if_splits)
  have b: "?b \<in> set (pd_rule_bindings (db1\<lparr> pd_rule_bindings := pd_rule_bindings db1 @ [?b] \<rparr>))" "rb_policy_id ?b = policyId"
      "rb_order_index ?b = bc_order_index d"
    by (simp_all add: binding_row_of_def)
  have "bc_order_index d \<notin> bc_order_index ` set cs"
    using inserted_positions [OF r _ b(1,2)] b(3) by auto
  with Cons.IH [OF r] show ?case by simp
qed simp

lemma next_positions:
  "createNextPolicyVersion now p tenantId cs patch db = Inr r \<Longrightarrow> distinct (map bc_order_index cs)"
  by (auto simp: createNextPolicyVersion_def Let_def sum_bind_Inr_iff case_prod_beta dest: distinct_positions)

text \<open>The successor of a policy version, its bindings, and the closed predecessor.\<close>

definition superseded :: "ms \<Rightarrow> string \<Rightarrow> policy_row \<Rightarrow> policy_row" where
  "superseded now newId p = p\<lparr> po_effective_to := Some now, po_superseded_by_id := Some newId \<rparr>"

lemma createNext_spec:
  assumes "createNextPolicyVersion now existing tenantId cs patch db = Inr (np, db')"
    and "source_ok (pd_uuids db)" and "ids_ok po_id (pd_uuids db) (pd_policies db)" and "existing \<in> set (pd_policies db)"
    and "po_tenant_id existing = tenantId"
  shows "\<exists>new. np = next_policy now (po_id np) patch existing \<and> \<not> drawn_id (pd_uuids db) (po_id np) \<and>
    pd_policies db' = map (\<lambda>p. if p = existing then superseded now (po_id np) p else p) (pd_policies db) @ [np] \<and>
    pd_rule_bindings db' = pd_rule_bindings db @ new \<and> map clone_of new = cs \<and>
    (\<forall>b \<in> set new. rb_policy_id b = po_id np \<and> rb_tenant_id b = tenantId) \<and> pd_rules db' = pd_rules db \<and>
    pd_project_bindings db' = pd_project_bindings db \<and> later_source (pd_uuids db) (pd_uuids db') \<and>
    ids_ok po_id (pd_uuids db') (pd_policies db') \<and> po_effective_from existing < now \<and>
    (\<forall>q \<in> set (pd_policies db). q \<noteq> existing \<longrightarrow> \<not> (po_policy_key q = po_policy_key existing \<and> po_effective_to q = None))"
proof -
  let ?old = "\<lambda>p. po_id p = po_id existing \<and> po_tenant_id p = tenantId"
  let ?closed = "update_where ?old (\<lambda>p. p\<lparr> po_effective_to := Some now \<rparr>) (pd_policies db)"
  let ?db1 = "db\<lparr> pd_policies := ?closed \<rparr>"
  obtain x db2 where f: "fresh ?db1 = (x, db2)" by (cases "fresh ?db1")
  let ?np = "next_policy now x patch existing"
  from assms(1) f obtain db4 where old: "\<forall>p \<in> set (pd_policies db). ?old p \<longrightarrow> po_effective_from p < now"
      and unique: "\<forall>q \<in> set ?closed. \<not> (po_policy_key q = po_policy_key ?np \<and> po_effective_to q = None)"
      and b: "insert_rule_bindings tenantId x cs (db2\<lparr> pd_policies := pd_policies db2 @ [?np] \<rparr>) = Inr db4" and np: "np = ?np"
      and db': "db' = db4\<lparr> pd_policies := update_where ?old (\<lambda>p. p\<lparr> po_superseded_by_id := Some x \<rparr>) (pd_policies db4) \<rparr>"
    using fresh_spec [OF f]
    by (auto simp: createNextPolicyVersion_def Let_def sum_bind_Inr_iff close_policies_Inr dest!: insert_policy_Inr)
  note fs = fresh_spec [OF f]
  from insert_rule_bindings_spec [OF b] fs obtain new where
      n: "pd_rule_bindings db4 = pd_rule_bindings db @ new" "map clone_of new = cs"
      "\<forall>b \<in> set new. rb_policy_id b = x \<and> rb_tenant_id b = tenantId" "pd_policies db4 = ?closed @ [?np]"
      "pd_rules db4 = pd_rules db" "pd_project_bindings db4 = pd_project_bindings db" "later_source (pd_uuids db2) (pd_uuids db4)"
    by auto
  have d: "draw (pd_uuids db) = (x, pd_uuids db2)" using fs by simp
  have x: "po_id np = x" by (simp add: np next_policy_def)
  have nx: "\<not> drawn_id (pd_uuids db) x" using draw_fresh [OF assms(2) d] .
  have mark: "?old p \<longleftrightarrow> p = existing" if "p \<in> set (pd_policies db)" for p
    using assms(5) ids_ok_inj [OF assms(3) that assms(4)] by auto
  have xe: "x \<noteq> po_id existing" using nx assms(3,4) by (auto simp: ids_ok_def)
  have pols: "pd_policies db' = map (\<lambda>p. if p = existing then superseded now (po_id np) p else p) (pd_policies db) @ [np]"
    using mark xe assms(5) unfolding db' np x
    by (simp add: n(4) update_where_def superseded_def next_policy_def)
  have ids: "ids_ok po_id (pd_uuids db') (pd_policies db')"
  proof -
    have "ids_ok po_id (pd_uuids db) (map (\<lambda>p. if p = existing then superseded now (po_id np) p else p) (pd_policies db))"
      using assms(3) by (subst ids_ok_map_same) (auto simp: superseded_def)
    from ids_ok_append [OF assms(2) d this x] have "ids_ok po_id (pd_uuids db4) (pd_policies db')"
      unfolding pols by (rule ids_ok_later [OF n(7)])
    then show ?thesis by (simp add: db')
  qed
  have "\<not> (po_policy_key q = po_policy_key existing \<and> po_effective_to q = None)" if "q \<in> set (pd_policies db)" "q \<noteq> existing" for q
    using unique that mark by (auto simp: update_where_def next_policy_def)
  moreover have "later_source (pd_uuids db) (pd_uuids db')"
    using draw_later [OF d] n(7) by (auto simp: db' intro: later_trans)
  ultimately show ?thesis
    using n pols ids nx x old assms(4,5) by (intro exI [of _ new]) (simp add: db' np)
qed

section \<open>The stored rules\<close>

definition rule_row_ok :: "rule_row \<Rightarrow> bool" where
  "rule_row_ok r = (well_formed (decode_condition (ru_condition r)) \<and> template_ok (ru_action r))"

definition authoring_ok :: "policy_db \<Rightarrow> bool" where
  "authoring_ok db =
     (source_ok (pd_uuids db) \<and> ids_ok po_id (pd_uuids db) (pd_policies db) \<and> ids_ok ru_id (pd_uuids db) (pd_rules db) \<and>
      (\<forall>b \<in> set (pd_rule_bindings db). \<exists>p \<in> set (pd_policies db). rb_policy_id b = po_id p \<and> rb_tenant_id b = po_tenant_id p) \<and>
      (\<forall>r \<in> set (pd_rules db). rule_row_ok r))"

lemma authoring_ok_same:
  assumes "authoring_ok db" and "later_source (pd_uuids db) (pd_uuids db')" and "pd_policies db' = pd_policies db"
    and "pd_rules db' = pd_rules db" and "pd_rule_bindings db' = pd_rule_bindings db"
  shows "authoring_ok db'"
  using assms by (auto simp: authoring_ok_def intro: source_ok_later ids_ok_later)

lemma fresh_ok: "fresh db = (x, db') \<Longrightarrow> authoring_ok db \<Longrightarrow> authoring_ok db'"
  using fresh_spec [of db x db'] by (auto intro: authoring_ok_same draw_later)

lemma loadPolicy_Some: "loadPolicyForTenant i t db = Some p \<Longrightarrow> p \<in> set (pd_policies db) \<and> po_id p = i \<and> po_tenant_id p = t"
  by (auto simp: loadPolicyForTenant_def first_row_def dest: find_SomeD)

lemma policy_param_Inr:
  "policy_param is_uuid auth param db = Inr p \<Longrightarrow> p \<in> set (pd_policies db) \<and> po_id p = param \<and> po_tenant_id p = au_tenantId auth"
  using loadPolicy_Some [of param "au_tenantId auth" db p]
  by (auto simp: policy_param_def sum_bind_Inr_iff validateUuidParam_def errorResult_def split: option.splits if_splits)

lemma next_ok:
  assumes "createNextPolicyVersion now p tenantId cs patch db = Inr (np, db')" and "authoring_ok db"
    and "p \<in> set (pd_policies db)" and "po_tenant_id p = tenantId"
  shows "authoring_ok db'"
proof -
  from createNext_spec [OF assms(1) _ _ assms(3,4)] assms(2) obtain new where
      np: "np = next_policy now (po_id np) patch p"
      and pols: "pd_policies db' = map (\<lambda>q. if q = p then superseded now (po_id np) q else q) (pd_policies db) @ [np]"
      and b: "pd_rule_bindings db' = pd_rule_bindings db @ new" "\<forall>b \<in> set new. rb_policy_id b = po_id np \<and> rb_tenant_id b = tenantId"
      and rest: "pd_rules db' = pd_rules db" "later_source (pd_uuids db) (pd_uuids db')" "ids_ok po_id (pd_uuids db') (pd_policies db')"
    by (auto simp: authoring_ok_def)
  have t: "po_tenant_id np = tenantId" using arg_cong [OF np, of po_tenant_id] assms(4) by (simp add: next_policy_def)
  have "\<exists>q \<in> set (pd_policies db'). rb_policy_id c = po_id q \<and> rb_tenant_id c = po_tenant_id q"
    if "c \<in> set (pd_rule_bindings db')" for c
  proof (cases "c \<in> set new")
    case True
    with b(2) t show ?thesis by (intro bexI [of _ np]) (simp_all add: pols)
  next
    case False
    with that b(1) assms(2) obtain q where q: "q \<in> set (pd_policies db)" "rb_policy_id c = po_id q" "rb_tenant_id c = po_tenant_id q"
      by (auto simp: authoring_ok_def)
    then show ?thesis
      by (intro bexI [of _ "if q = p then superseded now (po_id np) q else q"]) (auto simp: pols superseded_def)
  qed
  with rest assms(2) show ?thesis by (auto simp: authoring_ok_def intro: source_ok_later ids_ok_later)
qed

lemma insert_rule_ok:
  assumes "authoring_ok db" and "fresh db = (x, db1)" and "insert_rule r db2 = Inr db3" and "ru_id r = x" and "rule_row_ok r"
    and "later_source (pd_uuids db1) (pd_uuids db2)" and "pd_policies db2 = pd_policies db" and "pd_rules db2 = pd_rules db"
    and "pd_rule_bindings db2 = pd_rule_bindings db"
  shows "authoring_ok db3"
proof -
  have db3: "db3 = db2\<lparr> pd_rules := pd_rules db @ [r] \<rparr>" using insert_rule_Inr [OF assms(3)] assms(8) by simp
  have d: "draw (pd_uuids db) = (x, pd_uuids db1)" using fresh_spec [OF assms(2)] by simp
  have "ids_ok ru_id (pd_uuids db1) (pd_rules db @ [r])"
    using ids_ok_append [of "pd_uuids db" x "pd_uuids db1" ru_id "pd_rules db" r] d assms(1,4) by (simp add: authoring_ok_def)
  with assms(1,5,7,9) draw_later [OF d] later_trans [OF draw_later [OF d] assms(6)] show ?thesis
    by (auto simp: authoring_ok_def db3 intro: source_ok_later ids_ok_later assms(6))
qed

lemma add_rule_ok:
  assumes "add_rule now p tenantId b c a db = Inr (rule, binding, db')" and "authoring_ok db" and "p \<in> set (pd_policies db)"
    and "po_tenant_id p = tenantId" and "well_formed (decode_condition c)" and "template_ok a"
  shows "authoring_ok db'"
proof -
  obtain x db1 where f: "fresh db = (x, db1)" by (cases "fresh db")
  obtain k db2 where g: "fresh db1 = (k, db2)" by (cases "fresh db1")
  let ?r = "new_rule now x k tenantId b c a"
  from assms(1) f g obtain db3 np cs where i: "insert_rule ?r db2 = Inr db3"
      and n: "createNextPolicyVersion now p tenantId cs no_patch db3 = Inr (np, db')"
    by (auto simp: add_rule_def Let_def sum_bind_Inr_iff split: option.splits)
  note fs = fresh_spec [OF f] and gs = fresh_spec [OF g]
  have "authoring_ok db3"
    by (rule insert_rule_ok [OF assms(2) f i])
      (use fs gs assms(5,6) in \<open>simp_all add: new_rule_def rule_row_ok_def draw_later\<close>)
  moreover have "p \<in> set (pd_policies db3)" using insert_rule_Inr [OF i] fs gs assms(3) by simp
  ultimately show ?thesis using next_ok [OF n] assms(4) by blast
qed

lemma update_rules_ok:
  assumes "authoring_ok db" and "\<And>r. ru_id (f r) = ru_id r \<and> ru_condition (f r) = ru_condition r \<and> ru_action (f r) = ru_action r"
  shows "authoring_ok (db\<lparr> pd_rules := update_where P f (pd_rules db) \<rparr>)"
proof -
  have "ids_ok ru_id (pd_uuids db) (update_where P f (pd_rules db)) = ids_ok ru_id (pd_uuids db) (pd_rules db)"
    unfolding update_where_def using assms(2) by (intro ids_ok_map_same) simp
  with assms show ?thesis by (auto simp: authoring_ok_def update_where_def rule_row_ok_def)
qed

lemma close_rules_ok: "close_rules now P db = Inr db' \<Longrightarrow> authoring_ok db \<Longrightarrow> authoring_ok db'"
  by (auto simp: close_rules_Inr intro: update_rules_ok)

lemma change_rule_ok:
  assumes "change_rule now tenantId e x b c a db = Inr (rule, pid, db')" and "authoring_ok db" and "e \<in> set (pd_rules db)"
    and "\<And>v. c = Some v \<Longrightarrow> well_formed (decode_condition v)" and "\<And>v. a = Some v \<Longrightarrow> template_ok v"
  shows "authoring_ok db'"
proof -
  let ?old = "\<lambda>r. ru_id r = ru_id e \<and> ru_tenant_id r = tenantId"
  from assms(1) obtain db1 where cl: "close_rules now ?old db = Inr db1"
    by (auto simp: change_rule_def Let_def sum_bind_Inr_iff case_prod_beta)
  obtain y db2 where f: "fresh db1 = (y, db2)" by (cases "fresh db1")
  let ?r = "next_rule now y b c a e"
  from assms(1) cl f obtain db3 where i: "insert_rule ?r db2 = Inr db3"
    by (auto simp: change_rule_def Let_def sum_bind_Inr_iff)
  let ?db4 = "db3\<lparr> pd_rules := update_where ?old (\<lambda>r. r\<lparr> ru_superseded_by_id := Some y \<rparr>) (pd_rules db3) \<rparr>"
  note fs = fresh_spec [OF f]
  have e: "rule_row_ok e" using assms(2,3) by (simp add: authoring_ok_def)
  have "authoring_ok db3"
    by (rule insert_rule_ok [OF close_rules_ok [OF cl assms(2)] f i])
      (use fs e assms(4,5) in \<open>simp_all add: next_rule_def rule_row_ok_def default_def split: option.split\<close>)
  then have ok: "authoring_ok ?db4" by (rule update_rules_ok) simp
  show ?thesis
  proof (cases x)
    case None
    with assms(1) cl f i ok show ?thesis by (simp add: change_rule_def Let_def)
  next
    case (Some z)
    with assms(1) cl f i obtain p np cs where l: "loadPolicyForTenant (rb_policy_id z) tenantId ?db4 = Some p"
        and n: "createNextPolicyVersion now p tenantId cs no_patch ?db4 = Inr (np, db')"
      by (auto simp: change_rule_def Let_def sum_bind_Inr_iff split: option.splits)
    show ?thesis by (rule next_ok [OF n ok]) (use loadPolicy_Some [OF l] in auto)
  qed
qed

lemma delete_rule_ok:
  assumes "delete_rule now tenantId e x db = Inr (pid, db')" and "authoring_ok db"
  shows "authoring_ok db'"
proof -
  from assms(1) obtain db1 where cl: "close_rules now (\<lambda>r. ru_id r = ru_id e \<and> ru_tenant_id r = tenantId) db = Inr db1"
    by (auto simp: delete_rule_def sum_bind_Inr_iff)
  note ok = close_rules_ok [OF cl assms(2)]
  show ?thesis
  proof (cases "Option.bind x (\<lambda>x. loadPolicyForTenant (rb_policy_id x) tenantId db1)")
    case None
    with assms(1) cl ok show ?thesis by (simp add: delete_rule_def)
  next
    case (Some p)
    with assms(1) cl obtain np cs where n: "createNextPolicyVersion now p tenantId cs no_patch db1 = Inr (np, db')"
      by (auto simp: delete_rule_def sum_bind_Inr_iff)
    show ?thesis by (rule next_ok [OF n ok]) (use Some loadPolicy_Some in \<open>auto simp: bind_eq_Some_conv\<close>)
  qed
qed

lemma create_policy_ok:
  assumes "create_policy now tenantId projectId body db = Inr (row, db')" and "authoring_ok db"
  shows "authoring_ok db'"
proof -
  obtain x db1 where f: "fresh db = (x, db1)" by (cases "fresh db")
  obtain k db2 where g: "fresh db1 = (k, db2)" by (cases "fresh db1")
  note fs = fresh_spec [OF f] and gs = fresh_spec [OF g]
  let ?p = "new_policy now x k tenantId projectId body"
  from assms(1) f g have db': "db' = db2\<lparr> pd_policies := pd_policies db @ [?p] \<rparr>"
    using fs gs by (auto simp: create_policy_def Let_def sum_bind_Inr_iff dest!: insert_policy_Inr)
  have "ids_ok po_id (pd_uuids db1) (pd_policies db @ [?p])"
    using ids_ok_append [of "pd_uuids db" x "pd_uuids db1" po_id "pd_policies db" ?p] fs assms(2)
    by (simp add: authoring_ok_def new_policy_def)
  then have "ids_ok po_id (pd_uuids db2) (pd_policies db @ [?p])" using gs by (auto intro: ids_ok_later draw_later)
  moreover have "authoring_ok db2" using fresh_ok [OF g fresh_ok [OF f assms(2)]] .
  ultimately show ?thesis using fs gs by (auto simp: authoring_ok_def db')
qed

text \<open>One request of the administration, of any caller at any time.\<close>

inductive authoring_step :: "policy_db \<Rightarrow> policy_db \<Rightarrow> bool" where
  create_tenant_policy: "createTenantPolicyRoute is_uuid auth now param body db = Inr (row, db') \<Longrightarrow> authoring_step db db'"
| create_project_policy:
    "createProjectPolicyRoute is_uuid auth now param name desc mode priority projects members db = Inr (row, db') \<Longrightarrow> authoring_step db db'"
| patch_policy: "patchPolicyRoute is_uuid auth now param patch db = Inr (row, db') \<Longrightarrow> authoring_step db db'"
| delete_policy: "deletePolicyRoute is_uuid auth now param db = Inr db' \<Longrightarrow> authoring_step db db'"
| create_rule: "createRuleRoute is_uuid auth now param rbody db = Inr (rule, binding, db') \<Longrightarrow> authoring_step db db'"
| reorder_rules: "reorderRulesRoute is_uuid auth now param order db = Inr (rows, db') \<Longrightarrow> authoring_step db db'"
| patch_rule: "patchRuleRoute pick is_uuid auth now param rpatch db = Inr (rule, pid, db') \<Longrightarrow> authoring_step db db'"
| delete_rule: "deleteRuleRoute pick is_uuid auth now param db = Inr (pid, db') \<Longrightarrow> authoring_step db db'"
| create_binding: "createBindingRoute is_uuid auth now param projectId bbody projects db = Inr (b, db') \<Longrightarrow> authoring_step db db'"
| patch_binding: "patchBindingRoute is_uuid auth now param bbody db = Inr (b, db') \<Longrightarrow> authoring_step db db'"
| delete_binding: "deleteBindingRoute is_uuid auth now param db = Inr db' \<Longrightarrow> authoring_step db db'"

lemma close_policies_ok:
  assumes "close_policies now P db = Inr db'" and "authoring_ok db"
  shows "authoring_ok db'"
proof -
  let ?f = "\<lambda>p. if P p then p\<lparr> po_effective_to := Some now \<rparr> else p"
  have db': "db' = db\<lparr> pd_policies := map ?f (pd_policies db) \<rparr>"
    using assms(1) by (simp add: close_policies_Inr update_where_def)
  have "ids_ok po_id (pd_uuids db) (map ?f (pd_policies db)) = ids_ok po_id (pd_uuids db) (pd_policies db)"
    by (intro ids_ok_map_same) simp
  moreover have "\<exists>p \<in> set (map ?f (pd_policies db)). rb_policy_id b = po_id p \<and> rb_tenant_id b = po_tenant_id p"
    if "b \<in> set (pd_rule_bindings db)" for b
  proof -
    from that assms(2) obtain p where "p \<in> set (pd_policies db)" "rb_policy_id b = po_id p" "rb_tenant_id b = po_tenant_id p"
      by (auto simp: authoring_ok_def)
    then show ?thesis by (intro bexI [of _ "?f p"]) simp_all
  qed
  ultimately show ?thesis using assms(2) by (auto simp: authoring_ok_def db')
qed

lemma close_bindings_ok: "close_project_bindings now P db = Inr db' \<Longrightarrow> authoring_ok db \<Longrightarrow> authoring_ok db'"
  by (auto simp: close_bindings_Inr intro: authoring_ok_same)

lemma insert_binding_ok: "insert_project_binding b db = Inr db' \<Longrightarrow> authoring_ok db \<Longrightarrow> authoring_ok db'"
  by (auto dest!: insert_binding_Inr intro: authoring_ok_same)

lemma rule_param_Inr: "rule_param pick auth i db = Inr (r, b) \<Longrightarrow> r \<in> set (pd_rules db) \<and> ru_id r = i \<and> ru_tenant_id r = au_tenantId auth"
  by (auto simp: rule_param_def getRuleForTenant_def first_row_def errorResult_def Let_def dest: find_SomeD split: option.splits)

lemma createRuleSchema_ok: "createRuleSchema b = Some (c, a) \<Longrightarrow> well_formed (decode_condition c) \<and> template_ok a"
  by (auto simp: createRuleSchema_def dest: conditionSchema_well_formed actionSchema_template split: if_splits option.splits)

lemma parsed_Some: "parsed schema x = Some (Some y) \<Longrightarrow> \<exists>v. schema v = Some y"
  by (auto simp: parsed_def split: option.splits)

lemma patchRuleSchema_ok:
  assumes "patchRuleSchema b = Some (c, a)"
  shows "(\<forall>v. c = Some v \<longrightarrow> well_formed (decode_condition v)) \<and> (\<forall>v. a = Some v \<longrightarrow> template_ok v)"
proof -
  have "parsed conditionSchema (rq_condition b) = Some c" "parsed actionSchema (rq_action b) = Some a"
    using assms by (auto simp: patchRuleSchema_def split: if_splits option.splits)
  then show ?thesis by (auto dest!: parsed_Some dest: conditionSchema_well_formed actionSchema_template)
qed

lemmas route_simps = sum_bind_Inr_iff service_call_Inr invalid_body_def errorResult_def

lemma patchPolicyRoute_Inr:
  "patchPolicyRoute is_uuid auth now param body db = Inr (np, db') \<Longrightarrow>
   \<exists>p cs. policy_param is_uuid auth param db = Inr p \<and> createNextPolicyVersion now p (au_tenantId auth) cs body db = Inr (np, db') \<and>
     cs = map clone_of (loadPolicyRuleBindingsForClone (po_id p) (au_tenantId auth) db)"
  by (auto simp: patchPolicyRoute_def route_simps split: if_splits)

lemma createRuleRoute_Inr:
  "createRuleRoute is_uuid auth now param body db = Inr (rule, binding, db') \<Longrightarrow>
   \<exists>p c a. policy_param is_uuid auth param db = Inr p \<and> createRuleSchema body = Some (c, a) \<and>
     add_rule now p (au_tenantId auth) body c a db = Inr (rule, binding, db')"
  by (auto simp: createRuleRoute_def route_simps split: if_splits option.splits)

lemma reorderRulesRoute_Inr:
  "reorderRulesRoute is_uuid auth now param order db = Inr (rows, db') \<Longrightarrow>
   \<exists>p np. policy_param is_uuid auth param db = Inr p \<and>
     createNextPolicyVersion now p (au_tenantId auth)
       (map (reorder_clone order) (loadPolicyRuleBindingsForClone (po_id p) (au_tenantId auth) db)) no_patch db = Inr (np, db')"
  by (auto simp: reorderRulesRoute_def route_simps Let_def split: if_splits)

lemma patchRuleRoute_Inr:
  "patchRuleRoute pick is_uuid auth now param body db = Inr (rule, pid, db') \<Longrightarrow>
   \<exists>e x c a. rule_param pick auth param db = Inr (e, x) \<and> patchRuleSchema body = Some (c, a) \<and>
     change_rule now (au_tenantId auth) e x body c a db = Inr (rule, pid, db')"
  by (auto simp: patchRuleRoute_def route_simps validateUuidParam_def Let_def split: if_splits option.splits)

lemma deleteRuleRoute_Inr:
  "deleteRuleRoute pick is_uuid auth now param db = Inr (pid, db') \<Longrightarrow>
   \<exists>e x. rule_param pick auth param db = Inr (e, x) \<and> delete_rule now (au_tenantId auth) e x db = Inr (pid, db')"
  by (auto simp: deleteRuleRoute_def route_simps validateUuidParam_def split: if_splits)

lemma authoring_step_ok: "authoring_step db db' \<Longrightarrow> authoring_ok db \<Longrightarrow> authoring_ok db'"
proof (induction rule: authoring_step.induct)
  case (create_tenant_policy is_uuid auth now param body db row db')
  then show ?case by (auto simp: createTenantPolicyRoute_def route_simps intro: create_policy_ok split: if_splits)
next
  case (create_project_policy is_uuid auth now param name desc mode priority projects members db row db')
  then show ?case by (auto simp: createProjectPolicyRoute_def route_simps Let_def intro: create_policy_ok split: if_splits)
next
  case (patch_policy is_uuid auth now param patch db row db')
  then show ?case by (auto dest!: patchPolicyRoute_Inr policy_param_Inr intro: next_ok)
next
  case (delete_policy is_uuid auth now param db db')
  then show ?case by (auto simp: deletePolicyRoute_def route_simps intro: close_bindings_ok close_policies_ok)
next
  case (create_rule is_uuid auth now param rbody db rule binding db')
  then show ?case by (auto dest!: createRuleRoute_Inr policy_param_Inr createRuleSchema_ok intro: add_rule_ok)
next
  case (reorder_rules is_uuid auth now param order db rows db')
  then show ?case by (auto dest!: reorderRulesRoute_Inr policy_param_Inr intro: next_ok)
next
  case (patch_rule pick is_uuid auth now param rpatch db rule pid db')
  then obtain e x c a where r: "rule_param pick auth param db = Inr (e, x)" "patchRuleSchema rpatch = Some (c, a)"
      "change_rule now (au_tenantId auth) e x rpatch c a db = Inr (rule, pid, db')"
    by (auto dest!: patchRuleRoute_Inr)
  show ?case
    by (rule change_rule_ok [OF r(3) patch_rule.prems]) (use rule_param_Inr [OF r(1)] patchRuleSchema_ok [OF r(2)] in auto)
next
  case (delete_rule pick is_uuid auth now param db pid db')
  then show ?case by (auto dest!: deleteRuleRoute_Inr intro: delete_rule_ok)
next
  case (create_binding is_uuid auth now param projectId bbody projects db b db')
  then obtain x db1 k db2 where "fresh db = (x, db1)" "fresh db1 = (k, db2)" "insert_project_binding b db2 = Inr db'"
    by (auto simp: createBindingRoute_def route_simps Let_def split: if_splits option.splits prod.splits)
  with create_binding.prems show ?case by (blast intro: insert_binding_ok fresh_ok)
next
  case (patch_binding is_uuid auth now param bbody db b db')
  obtain x db1 where f: "fresh db = (x, db1)" by (cases "fresh db")
  with patch_binding.hyps obtain n db2 P db3 Q f where "insert_project_binding n db1 = Inr db2"
      "close_project_bindings now P db2 = Inr db3" "db' = db3\<lparr> pd_project_bindings := update_where Q f (pd_project_bindings db3) \<rparr>"
    by (auto simp: patchBindingRoute_def route_simps Let_def split: if_splits)
  moreover from this f have "authoring_ok db3" using patch_binding.prems by (blast intro: fresh_ok insert_binding_ok close_bindings_ok)
  ultimately show ?case by (auto intro: authoring_ok_same)
next
  case (delete_binding is_uuid auth now param db db')
  then show ?case by (auto simp: deleteBindingRoute_def route_simps intro: close_bindings_ok)
qed

section \<open>The past\<close>

text \<open>
  What an amendment may do to the tables without touching what was in force at time \<open>t\<close>: rows change
  only their end and successor, and not whether they were in force at \<open>t\<close>; new rows come later, and
  new bindings of rules belong to new policy versions.
\<close>

definition same_past ::
    "ms \<Rightarrow> (policy_row \<Rightarrow> policy_row) \<Rightarrow> (rule_row \<Rightarrow> rule_row) \<Rightarrow> (project_binding_row \<Rightarrow> project_binding_row) \<Rightarrow>
     policy_db \<Rightarrow> policy_db \<Rightarrow> bool" where
  "same_past t f g h db db' =
     ((\<forall>p \<in> set (pd_policies db). (\<exists>x y. f p = p\<lparr> po_effective_to := x, po_superseded_by_id := y \<rparr>) \<and>
         in_force t (po_effective_from p) (po_effective_to (f p)) = in_force t (po_effective_from p) (po_effective_to p)) \<and>
      (\<forall>r \<in> set (pd_rules db). (\<exists>x y. g r = r\<lparr> ru_effective_to := x, ru_superseded_by_id := y \<rparr>) \<and>
         in_force t (ru_effective_from r) (ru_effective_to (g r)) = in_force t (ru_effective_from r) (ru_effective_to r)) \<and>
      (\<forall>b \<in> set (pd_project_bindings db). (\<exists>x y. h b = b\<lparr> pb_effective_to := x, pb_superseded_by_id := y \<rparr>) \<and>
         in_force t (pb_effective_from b) (pb_effective_to (h b)) = in_force t (pb_effective_from b) (pb_effective_to b)) \<and>
      (\<exists>ps. pd_policies db' = map f (pd_policies db) @ ps \<and> (\<forall>p \<in> set ps. \<not> in_force t (po_effective_from p) (po_effective_to p))) \<and>
      (\<exists>rs. pd_rules db' = map g (pd_rules db) @ rs \<and> (\<forall>r \<in> set rs. \<not> in_force t (ru_effective_from r) (ru_effective_to r))) \<and>
      (\<exists>qs. pd_project_bindings db' = map h (pd_project_bindings db) @ qs \<and>
         (\<forall>b \<in> set qs. \<not> in_force t (pb_effective_from b) (pb_effective_to b))) \<and>
      (\<exists>bs. pd_rule_bindings db' = pd_rule_bindings db @ bs \<and> (\<forall>b \<in> set bs. rb_policy_id b \<notin> po_id ` set (pd_policies db))))"

lemma past_row:
  assumes "same_past t f g h db db'"
  shows "p \<in> set (pd_policies db) \<Longrightarrow> \<exists>x y. f p = p\<lparr> po_effective_to := x, po_superseded_by_id := y \<rparr>"
    and "r \<in> set (pd_rules db) \<Longrightarrow> \<exists>x y. g r = r\<lparr> ru_effective_to := x, ru_superseded_by_id := y \<rparr>"
    and "b \<in> set (pd_project_bindings db) \<Longrightarrow> \<exists>x y. h b = b\<lparr> pb_effective_to := x, pb_superseded_by_id := y \<rparr>"
  using assms by (simp_all add: same_past_def)

lemma insort_key_map: "insort_key k (f x) (map f xs) = map f (insort_key (\<lambda>x. k (f x)) x xs)"
  by (induction xs) auto

lemma sort_key_map: "sort_key k (map f xs) = map f (sort_key (\<lambda>x. k (f x)) xs)"
  by (induction xs) (auto simp: insort_key_map)

lemma sort_key_cong': "(\<And>x. x \<in> set xs \<Longrightarrow> k x = l x) \<Longrightarrow> sort_key k xs = sort_key l xs"
proof (induction xs)
  case (Cons a xs)
  have "insort_key k a ys = insort_key l a ys" if "set ys \<subseteq> set xs" for ys
    using that Cons.prems by (induction ys) auto
  with Cons show ?case by simp
qed simp

lemma filter_map_append:
  assumes "\<And>x. x \<in> set xs \<Longrightarrow> P (f x) = Q x" and "\<And>y. y \<in> set ys \<Longrightarrow> \<not> P y"
  shows "filter P (map f xs @ ys) = map f (filter Q xs)"
  using assms by (induction xs) (auto simp: filter_empty_conv)

lemma find_rev_map: "find P (rev (map h xs)) = map_option h (find (\<lambda>x. P (h x)) (rev xs))"
  by (simp add: rev_map find_map_comp)

lemma past_policies:
  assumes "same_past t f g h db db'"
  shows "global_policy_rows db' t tenantId = map f (global_policy_rows db t tenantId)"
    and "project_policy_rows db' t tenantId projectId = map f (project_policy_rows db t tenantId projectId)"
proof -
  obtain ps where ps: "pd_policies db' = map f (pd_policies db) @ ps"
      "\<And>p. p \<in> set ps \<Longrightarrow> \<not> in_force t (po_effective_from p) (po_effective_to p)"
    using assms by (auto simp: same_past_def)
  have f: "po_tenant_id (f p) = po_tenant_id p \<and> po_status (f p) = po_status p \<and> po_scope (f p) = po_scope p \<and>
      po_project_id (f p) = po_project_id p \<and> po_priority (f p) = po_priority p \<and>
      in_force t (po_effective_from (f p)) (po_effective_to (f p)) = in_force t (po_effective_from p) (po_effective_to p)"
    if "p \<in> set (pd_policies db)" for p
  proof -
    from assms that obtain x y where q: "f p = p\<lparr> po_effective_to := x, po_superseded_by_id := y \<rparr>"
      and "in_force t (po_effective_from p) (po_effective_to (f p)) = in_force t (po_effective_from p) (po_effective_to p)"
      by (auto simp: same_past_def)
    then show ?thesis by simp
  qed
  have sort: "sort_key po_priority (map f xs) = map f (sort_key po_priority xs)" if "set xs \<subseteq> set (pd_policies db)" for xs
    unfolding sort_key_map using that f by (intro arg_cong [where f = "map f"] sort_key_cong') auto
  show "global_policy_rows db' t tenantId = map f (global_policy_rows db t tenantId)"
    unfolding global_policy_rows_def ps(1) using f ps(2)
    by (subst filter_map_append [where Q = "\<lambda>p. po_tenant_id p = tenantId \<and> po_status p = ''active'' \<and> po_scope p = ''global'' \<and>
        po_project_id p = None \<and> in_force t (po_effective_from p) (po_effective_to p)"]) (auto intro: sort)
  show "project_policy_rows db' t tenantId projectId = map f (project_policy_rows db t tenantId projectId)"
    unfolding project_policy_rows_def ps(1) using f ps(2)
    by (subst filter_map_append [where Q = "\<lambda>p. po_tenant_id p = tenantId \<and> po_status p = ''active'' \<and> po_scope p = ''project'' \<and>
        po_project_id p = Some projectId \<and> in_force t (po_effective_from p) (po_effective_to p)"]) (auto intro: sort)
qed

lemma binding_for_map:
  assumes "\<And>b. b \<in> set rows \<Longrightarrow> pb_policy_key (h b) = pb_policy_key b"
  shows "binding_for (map h rows) key = map_option h (binding_for rows key)"
proof -
  have "find (\<lambda>b. pb_policy_key (h b) = key) (rev rows) = find (\<lambda>b. pb_policy_key b = key) (rev rows)"
    using assms by (intro find_cong) auto
  then show ?thesis by (simp add: binding_for_def find_rev_map)
qed

lemma binding_for_in: "Some b = binding_for (binding_rows db t tenantId projectId) k \<Longrightarrow> b \<in> set (pd_project_bindings db)"
  by (drule sym) (auto simp: binding_for_def binding_rows_def dest: find_SomeD)

lemma past_bindings:
  assumes "same_past t f g h db db'"
  shows "binding_rows db' t tenantId projectId = map h (binding_rows db t tenantId projectId)"
proof -
  obtain qs where qs: "pd_project_bindings db' = map h (pd_project_bindings db) @ qs"
      "\<And>b. b \<in> set qs \<Longrightarrow> \<not> in_force t (pb_effective_from b) (pb_effective_to b)"
    using assms by (auto simp: same_past_def)
  have "pb_tenant_id (h b) = pb_tenant_id b \<and> pb_project_id (h b) = pb_project_id b \<and>
      in_force t (pb_effective_from (h b)) (pb_effective_to (h b)) = in_force t (pb_effective_from b) (pb_effective_to b)"
    if "b \<in> set (pd_project_bindings db)" for b
  proof -
    from assms that obtain x y where "h b = b\<lparr> pb_effective_to := x, pb_superseded_by_id := y \<rparr>"
      and "in_force t (pb_effective_from b) (pb_effective_to (h b)) = in_force t (pb_effective_from b) (pb_effective_to b)"
      by (auto simp: same_past_def)
    then show ?thesis by simp
  qed
  then show ?thesis
    unfolding binding_rows_def qs(1) using qs(2) by (intro filter_map_append) auto
qed

lemma past_entries:
  assumes "same_past t f g h db db'"
  shows "effective_policies db' t tenantId projectId =
    map (\<lambda>(p, s, b). (f p, s, map_option h b)) (effective_policies db t tenantId projectId)"
proof -
  have f: "po_policy_key (f p) = po_policy_key p \<and> po_priority (f p) = po_priority p" if "p \<in> set (pd_policies db)" for p
    using past_row(1) [OF assms that] by auto
  have h: "pb_policy_key (h b) = pb_policy_key b \<and> pb_enabled (h b) = pb_enabled b \<and> pb_inheritance_mode (h b) = pb_inheritance_mode b"
    if "b \<in> set (pd_project_bindings db)" for b
    using past_row(3) [OF assms that] by auto
  let ?rows = "binding_rows db t tenantId projectId"
  have rows: "set ?rows \<subseteq> set (pd_project_bindings db)" by (auto simp: binding_rows_def)
  have bf: "binding_for (map h ?rows) k = map_option h (binding_for ?rows k)" for k
    using h rows by (intro binding_for_map) auto
  have in_rows: "b \<in> set ?rows" if "binding_for ?rows k = Some b" for b k
    using that by (auto simp: binding_for_def dest: find_SomeD)
  have oo: "opted_out (map_option h (binding_for ?rows k)) = opted_out (binding_for ?rows k)" for k
  proof (cases "binding_for ?rows k")
    case (Some b)
    have "b \<in> set (pd_project_bindings db)" using in_rows [OF Some] rows by blast
    from h [OF this] show ?thesis by (simp add: opted_out_def Some)
  qed simp
  let ?entry = "\<lambda>rows p. let binding = binding_for rows (po_policy_key p)
      in if opted_out binding then [] else [(p, if binding = None then From_global else From_assigned, binding)]"
  have globals: "concat (map (?entry (map h ?rows)) (map f gs)) = map (\<lambda>(p, s, b). (f p, s, map_option h b)) (concat (map (?entry ?rows) gs))"
    if "set gs \<subseteq> set (pd_policies db)" for gs
    using that
  proof (induction gs)
    case (Cons p gs)
    then show ?case using f [of p] by (simp add: Let_def bf oo)
  qed simp
  have sort: "sort_key (\<lambda>(p, _). po_priority p) (map (\<lambda>(p, s, b). (f p, s, map_option h b)) es) =
      map (\<lambda>(p, s, b). (f p, s, map_option h b)) (sort_key (\<lambda>(p, _). po_priority p) es)"
    if "fst ` set es \<subseteq> set (pd_policies db)" for es :: "effective_entry list"
    unfolding sort_key_map using that f by (intro arg_cong [where f = "map _"] sort_key_cong') (auto split: prod.splits)
  have g: "set (global_policy_rows db t tenantId) \<subseteq> set (pd_policies db)" by (auto simp: global_policy_rows_def)
  have p: "set (project_policy_rows db t tenantId projectId) \<subseteq> set (pd_policies db)" by (auto simp: project_policy_rows_def)
  have "concat (map (?entry (map h ?rows)) (map f (global_policy_rows db t tenantId))) @
      map (\<lambda>p. (p, From_project, None)) (map f (project_policy_rows db t tenantId projectId)) =
    map (\<lambda>(p, s, b). (f p, s, map_option h b)) (concat (map (?entry ?rows) (global_policy_rows db t tenantId)) @
      map (\<lambda>p. (p, From_project, None)) (project_policy_rows db t tenantId projectId))"
    unfolding globals [OF g] by simp
  moreover have "fst ` set (concat (map (?entry ?rows) (global_policy_rows db t tenantId)) @
      map (\<lambda>p. (p, From_project, None)) (project_policy_rows db t tenantId projectId)) \<subseteq> set (pd_policies db)"
    using g p by (auto simp: Let_def split: if_splits)
  ultimately show ?thesis
    unfolding effective_policies_def past_policies [OF assms] past_bindings [OF assms] Let_def by (simp only: sort)
qed

lemma past_rule_rows:
  assumes "same_past t f g h db db'" and "set ids \<subseteq> po_id ` set (pd_policies db)"
  shows "binding_rule_rows db' t ids = map (\<lambda>(b, r). (b, g r)) (binding_rule_rows db t ids)"
proof -
  obtain rs where rs: "pd_rules db' = map g (pd_rules db) @ rs"
      "\<And>r. r \<in> set rs \<Longrightarrow> \<not> in_force t (ru_effective_from r) (ru_effective_to r)"
    using assms by (auto simp: same_past_def)
  obtain bs where bs: "pd_rule_bindings db' = pd_rule_bindings db @ bs" "\<And>b. b \<in> set bs \<Longrightarrow> rb_policy_id b \<notin> po_id ` set (pd_policies db)"
    using assms by (auto simp: same_past_def)
  have g: "ru_id (g r) = ru_id r \<and>
      in_force t (ru_effective_from (g r)) (ru_effective_to (g r)) = in_force t (ru_effective_from r) (ru_effective_to r)"
    if "r \<in> set (pd_rules db)" for r
  proof -
    from assms(1) that obtain x y where "g r = r\<lparr> ru_effective_to := x, ru_superseded_by_id := y \<rparr>"
      and "in_force t (ru_effective_from r) (ru_effective_to (g r)) = in_force t (ru_effective_from r) (ru_effective_to r)"
      by (auto simp: same_past_def)
    then show ?thesis by simp
  qed
  let ?join = "\<lambda>db b. map (Pair b) (filter (\<lambda>r. rb_rule_id b = ru_id r) (pd_rules db))"
  let ?P = "\<lambda>(b, r). rb_policy_id b \<in> set ids \<and> rb_enabled b \<and> in_force t (ru_effective_from r) (ru_effective_to r)"
  have one: "filter ?P (?join db' b) = map (\<lambda>(b, r). (b, g r)) (filter ?P (?join db b))" for b
  proof -
    have "filter (\<lambda>r. ?P (b, r)) (filter (\<lambda>r. rb_rule_id b = ru_id r) (map g (pd_rules db) @ rs)) =
        map g (filter (\<lambda>r. ?P (b, r)) (filter (\<lambda>r. rb_rule_id b = ru_id r) (pd_rules db)))"
      unfolding filter_filter using g rs(2) by (intro filter_map_append) auto
    from arg_cong [OF this, of "map (Pair b)"] show ?thesis by (simp add: rs(1) filter_map comp_def)
  qed
  have none: "filter ?P (?join db' b) = []" if "b \<in> set bs" for b
    using bs(2) [OF that] assms(2) by (auto simp: filter_empty_conv)
  have "filter ?P (concat (map (?join db') (xs @ bs))) = map (\<lambda>(b, r). (b, g r)) (filter ?P (concat (map (?join db) xs)))" for xs
  proof (induction xs)
    case Nil
    have "filter ?P (concat (map (?join db') ys)) = []" if "set ys \<subseteq> set bs" for ys
      using that none by (induction ys) auto
    then show ?case by simp
  next
    case (Cons x xs)
    then show ?case using one [of x] by simp
  qed
  then show ?thesis
    unfolding binding_rule_rows_def bs(1)
    by (simp only: sort_key_map) (intro arg_cong [where f = "map _"] sort_key_cong', auto)
qed

text \<open>The rules in force at a time in the past are the same after an amendment.\<close>

lemma past_rules:
  assumes "same_past t f g h db db'"
  shows "ps_allRules (loadEffectivePolicy db' t tenantId projectId) = ps_allRules (loadEffectivePolicy db t tenantId projectId)"
proof -
  let ?es = "effective_policies db t tenantId projectId"
  let ?ids = "map (\<lambda>(p, _). po_id p) ?es"
  let ?m = "\<lambda>(p, s, b). (f p, s, map_option h b)"
  have es: "p \<in> set (pd_policies db) \<and> (\<forall>x. b = Some x \<longrightarrow> x \<in> set (pd_project_bindings db))" if "(p, s, b) \<in> set ?es" for p s b
    using that binding_for_in by (auto simp: effective_policies_iff)
  have ids: "map (\<lambda>(p, _). po_id p) (effective_policies db' t tenantId projectId) = ?ids"
    unfolding past_entries [OF assms] using past_row(1) [OF assms] es by fastforce
  have rows: "binding_rule_rows db' t ?ids = map (\<lambda>(b, r). (b, g r)) (binding_rule_rows db t ?ids)"
    using es by (intro past_rule_rows [OF assms]) force
  have same: "rp_rules (resolve_policy (map (\<lambda>(b, r). (b, g r)) rs) (?m e)) = rp_rules (resolve_policy rs e)"
    if e: "e \<in> set ?es" and r: "\<And>b r. (b, r) \<in> set rs \<Longrightarrow> r \<in> set (pd_rules db)" for e rs
  proof -
    obtain p s b where [simp]: "e = (p, s, b)" by (cases e)
    obtain x y where fp: "f p = p\<lparr> po_effective_to := x, po_superseded_by_id := y \<rparr>"
      using past_row(1) [OF assms] es e by fastforce
    have hb: "map_option pb_rule_overrides (map_option h b) = map_option pb_rule_overrides b \<and>
        map_option pb_id (map_option h b) = map_option pb_id b \<and>
        Option.bind (map_option h b) pb_enforcement_mode_override = Option.bind b pb_enforcement_mode_override"
    proof (cases b)
      case (Some z)
      then have "z \<in> set (pd_project_bindings db)" using es e by auto
      then obtain u v where "h z = z\<lparr> pb_effective_to := u, pb_superseded_by_id := v \<rparr>"
        using past_row(3) [OF assms] by blast
      then show ?thesis by (simp add: Some)
    qed simp
    have over: "(case map_option h b of None \<Rightarrow> JUndef | Some b \<Rightarrow> pb_rule_overrides b) =
        (case b of None \<Rightarrow> JUndef | Some b \<Rightarrow> pb_rule_overrides b)"
      using hb by (cases b) auto
    have rule: "resolve_rule (f p) (map_option h b) (c, g q) = resolve_rule p b (c, q)" if q: "q \<in> set (pd_rules db)" for c q
    proof -
      obtain u v where "g q = q\<lparr> ru_effective_to := u, ru_superseded_by_id := v \<rparr>"
        using past_row(2) [OF assms q] by blast
      with hb show ?thesis unfolding resolve_rule_def over by (simp add: fp Let_def)
    qed
    have "concat (map (resolve_rule (f p) (map_option h b)) (filter (\<lambda>(b, _). rb_policy_id b = po_id p) (map (\<lambda>(b, r). (b, g r)) rs))) =
        concat (map (resolve_rule p b) (filter (\<lambda>(b, _). rb_policy_id b = po_id p) rs))"
      using r
    proof (induction rs)
      case (Cons y rs)
      obtain c q where y: "y = (c, q)" by (cases y)
      have "q \<in> set (pd_rules db)" using Cons.prems [of c q] by (simp add: y)
      from rule [OF this] Cons show ?case by (auto simp: y)
    qed simp
    then show ?thesis by (simp add: resolve_policy_def fp)
  qed
  let ?rs = "binding_rule_rows db t ?ids"
  have "r \<in> set (pd_rules db)" if "(b, r) \<in> set ?rs" for b r
    using that by (simp add: binding_rule_rows_iff)
  then have "map (\<lambda>e. rp_rules (resolve_policy (map (\<lambda>(b, r). (b, g r)) ?rs) (?m e))) ?es = map (\<lambda>e. rp_rules (resolve_policy ?rs e)) ?es"
    using same by (intro map_cong refl) blast
  then have "map rp_rules (ps_policies (loadEffectivePolicy db' t tenantId projectId)) =
      map rp_rules (ps_policies (loadEffectivePolicy db t tenantId projectId))"
    unfolding ps_policies_def' Let_def ids rows unfolding past_entries [OF assms] by (simp add: comp_def)
  then show ?thesis by (simp add: allRules_def')
qed

definition same_rules :: "ms \<Rightarrow> policy_db \<Rightarrow> policy_db \<Rightarrow> bool" where
  "same_rules t db db' =
     (\<forall>tenantId projectId. ps_allRules (loadEffectivePolicy db' t tenantId projectId) = ps_allRules (loadEffectivePolicy db t tenantId projectId))"

lemma same_rules_trans [trans]: "same_rules t a b \<Longrightarrow> same_rules t b c \<Longrightarrow> same_rules t a c"
  by (simp add: same_rules_def)

lemma same_past_rules: "same_past t f g h db db' \<Longrightarrow> same_rules t db db'"
  using past_rules by (simp add: same_rules_def)

lemma unchanged_policy [simp]: "\<exists>x y. (p :: policy_row) = p\<lparr> po_effective_to := x, po_superseded_by_id := y \<rparr>"
  by (rule exI [of _ "po_effective_to p"], rule exI [of _ "po_superseded_by_id p"]) simp

lemma unchanged_rule [simp]: "\<exists>x y. (r :: rule_row) = r\<lparr> ru_effective_to := x, ru_superseded_by_id := y \<rparr>"
  by (rule exI [of _ "ru_effective_to r"], rule exI [of _ "ru_superseded_by_id r"]) simp

lemma unchanged_binding [simp]: "\<exists>x y. (b :: project_binding_row) = b\<lparr> pb_effective_to := x, pb_superseded_by_id := y \<rparr>"
  by (rule exI [of _ "pb_effective_to b"], rule exI [of _ "pb_superseded_by_id b"]) simp

lemma in_force_closed: "t < now \<Longrightarrow> in_force t from (Some now) = in_force t from None"
  by (simp add: in_force_def)

lemma not_yet: "t < now \<Longrightarrow> \<not> in_force t now u"
  by (simp add: in_force_def)

lemma tables_same_rules:
  "pd_policies db' = pd_policies db \<Longrightarrow> pd_rules db' = pd_rules db \<Longrightarrow> pd_rule_bindings db' = pd_rule_bindings db \<Longrightarrow>
   pd_project_bindings db' = pd_project_bindings db \<Longrightarrow> same_rules t db db'"
  by (rule same_past_rules [where f = id and g = id and h = id]) (simp add: same_past_def)

lemma fresh_same_rules: "fresh db = (x, db') \<Longrightarrow> same_rules t db db'"
  using fresh_spec [of db x db'] by (simp add: tables_same_rules)

lemma insert_rule_same_rules:
  "insert_rule r db = Inr db' \<Longrightarrow> t < ru_effective_from r \<Longrightarrow> same_rules t db db'"
  by (rule same_past_rules [where f = id and g = id and h = id]) (auto simp: same_past_def not_yet dest!: insert_rule_Inr)

lemma insert_policy_same_rules:
  "insert_policy p db = Inr db' \<Longrightarrow> t < po_effective_from p \<Longrightarrow> same_rules t db db'"
  by (rule same_past_rules [where f = id and g = id and h = id]) (auto simp: same_past_def not_yet dest!: insert_policy_Inr)

lemma insert_binding_same_rules:
  "insert_project_binding b db = Inr db' \<Longrightarrow> t < pb_effective_from b \<Longrightarrow> same_rules t db db'"
  by (rule same_past_rules [where f = id and g = id and h = id]) (auto simp: same_past_def not_yet dest!: insert_binding_Inr)

lemma close_rules_same_rules:
  assumes "close_rules now P db = Inr db'" and "t < now" and "\<And>r. r \<in> set (pd_rules db) \<Longrightarrow> P r \<Longrightarrow> ru_effective_to r = None"
  shows "same_rules t db db'"
proof (rule same_past_rules)
  have "\<exists>x y. (r :: rule_row)\<lparr> ru_effective_to := Some now \<rparr> = r\<lparr> ru_effective_to := x, ru_superseded_by_id := y \<rparr>" for r
    by (rule exI [of _ "Some now"], rule exI [of _ "ru_superseded_by_id r"]) simp
  with assms show "same_past t id (\<lambda>r. if P r then r\<lparr> ru_effective_to := Some now \<rparr> else r) id db db'"
    by (auto simp: same_past_def close_rules_Inr update_where_def in_force_closed)
qed

lemma close_policies_same_rules:
  assumes "close_policies now P db = Inr db'" and "t < now" and "\<And>p. p \<in> set (pd_policies db) \<Longrightarrow> P p \<Longrightarrow> po_effective_to p = None"
  shows "same_rules t db db'"
proof (rule same_past_rules)
  have "\<exists>x y. (r :: policy_row)\<lparr> po_effective_to := Some now \<rparr> = r\<lparr> po_effective_to := x, po_superseded_by_id := y \<rparr>" for r
    by (rule exI [of _ "Some now"], rule exI [of _ "po_superseded_by_id r"]) simp
  with assms show "same_past t (\<lambda>r. if P r then r\<lparr> po_effective_to := Some now \<rparr> else r) id id db db'"
    by (auto simp: same_past_def close_policies_Inr update_where_def in_force_closed)
qed

lemma close_bindings_same_rules:
  assumes "close_project_bindings now P db = Inr db'" and "t < now"
    and "\<And>b. b \<in> set (pd_project_bindings db) \<Longrightarrow> P b \<Longrightarrow> pb_effective_to b = None"
  shows "same_rules t db db'"
proof (rule same_past_rules)
  have "\<exists>x y. (r :: project_binding_row)\<lparr> pb_effective_to := Some now \<rparr> = r\<lparr> pb_effective_to := x, pb_superseded_by_id := y \<rparr>" for r
    by (rule exI [of _ "Some now"], rule exI [of _ "pb_superseded_by_id r"]) simp
  with assms show "same_past t id id (\<lambda>r. if P r then r\<lparr> pb_effective_to := Some now \<rparr> else r) db db'"
    by (auto simp: same_past_def close_bindings_Inr update_where_def in_force_closed)
qed

lemma supersede_rules_same_rules:
  "same_rules t db (db\<lparr> pd_rules := update_where P (\<lambda>r. r\<lparr> ru_superseded_by_id := y \<rparr>) (pd_rules db) \<rparr>)"
proof (rule same_past_rules)
  have "\<exists>x z. (r :: rule_row)\<lparr> ru_superseded_by_id := y \<rparr> = r\<lparr> ru_effective_to := x, ru_superseded_by_id := z \<rparr>" for r
    by (rule exI [of _ "ru_effective_to r"], rule exI [of _ y]) simp
  then show "same_past t id (\<lambda>r. if P r then r\<lparr> ru_superseded_by_id := y \<rparr> else r) id db
      (db\<lparr> pd_rules := update_where P (\<lambda>r. r\<lparr> ru_superseded_by_id := y \<rparr>) (pd_rules db) \<rparr>)"
    by (auto simp: same_past_def update_where_def)
qed

lemma next_same_rules:
  assumes "createNextPolicyVersion now p tenantId cs patch db = Inr (np, db')" and "authoring_ok db"
    and "p \<in> set (pd_policies db)" and "po_tenant_id p = tenantId" and "po_effective_to p = None" and "t < now"
  shows "same_rules t db db'"
proof -
  from createNext_spec [OF assms(1) _ _ assms(3,4)] assms(2) obtain new where
      np: "np = next_policy now (po_id np) patch p" and nd: "\<not> drawn_id (pd_uuids db) (po_id np)"
      and pols: "pd_policies db' = map (\<lambda>q. if q = p then superseded now (po_id np) q else q) (pd_policies db) @ [np]"
      and b: "pd_rule_bindings db' = pd_rule_bindings db @ new" "\<forall>b \<in> set new. rb_policy_id b = po_id np \<and> rb_tenant_id b = tenantId"
      and rest: "pd_rules db' = pd_rules db" "pd_project_bindings db' = pd_project_bindings db"
    by (auto simp: authoring_ok_def)
  have "po_effective_from np = now" using arg_cong [OF np, of po_effective_from] by (simp add: next_policy_def)
  moreover have "po_id np \<notin> po_id ` set (pd_policies db)" using nd assms(2) by (auto simp: authoring_ok_def ids_ok_def)
  moreover have "\<exists>x y. superseded now (po_id np) p = p\<lparr> po_effective_to := x, po_superseded_by_id := y \<rparr>"
    by (auto simp: superseded_def)
  moreover have "in_force t (po_effective_from p) (po_effective_to (superseded now (po_id np) p)) = in_force t (po_effective_from p) (po_effective_to p)"
    using assms(5,6) by (simp add: superseded_def in_force_closed)
  ultimately have "same_past t (\<lambda>q. if q = p then superseded now (po_id np) q else q) id id db db'"
    using assms(6) b by (auto simp: same_past_def pols rest not_yet)
  then show ?thesis by (rule same_past_rules)
qed

lemma add_rule_same_rules:
  assumes "add_rule now p tenantId b c a db = Inr (rule, binding, db')" and "authoring_ok db" and "p \<in> set (pd_policies db)"
    and "po_tenant_id p = tenantId" and "po_effective_to p = None" and "well_formed (decode_condition c)" and "template_ok a" and "t < now"
  shows "same_rules t db db'"
proof -
  obtain x db1 where f: "fresh db = (x, db1)" by (cases "fresh db")
  obtain k db2 where g: "fresh db1 = (k, db2)" by (cases "fresh db1")
  let ?r = "new_rule now x k tenantId b c a"
  from assms(1) f g obtain db3 np cs where i: "insert_rule ?r db2 = Inr db3"
      and n: "createNextPolicyVersion now p tenantId cs no_patch db3 = Inr (np, db')"
    by (auto simp: add_rule_def Let_def sum_bind_Inr_iff split: option.splits)
  note fs = fresh_spec [OF f] and gs = fresh_spec [OF g]
  have "same_rules t db db1" by (rule fresh_same_rules [OF f])
  also have "same_rules t db1 db2" by (rule fresh_same_rules [OF g])
  also have "same_rules t db2 db3" by (rule insert_rule_same_rules [OF i]) (simp add: new_rule_def assms(8))
  also have "same_rules t db3 db'"
  proof (rule next_same_rules [OF n _ _ assms(4,5,8)])
    show "p \<in> set (pd_policies db3)" using insert_rule_Inr [OF i] fs gs assms(3) by simp
    show "authoring_ok db3"
      by (rule insert_rule_ok [OF assms(2) f i]) (use fs gs assms(6,7) in \<open>simp_all add: new_rule_def rule_row_ok_def draw_later\<close>)
  qed
  finally show ?thesis .
qed

lemma rule_closed:
  assumes "close_rules now (\<lambda>r. ru_id r = ru_id e \<and> ru_tenant_id r = tenantId) db = Inr db1" and "authoring_ok db"
    and "e \<in> set (pd_rules db)" and "ru_effective_to e = None" and "t < now"
  shows "same_rules t db db1"
proof (rule close_rules_same_rules [OF assms(1,5)])
  fix r assume "r \<in> set (pd_rules db)" "ru_id r = ru_id e \<and> ru_tenant_id r = tenantId"
  with assms(2,3) have "r = e" using ids_ok_inj [of ru_id "pd_uuids db" "pd_rules db"] by (simp add: authoring_ok_def)
  with assms(4) show "ru_effective_to r = None" by simp
qed

definition binding_policy_current :: "string \<Rightarrow> rule_binding_row option \<Rightarrow> policy_db \<Rightarrow> bool" where
  "binding_policy_current tenantId x db =
     (\<forall>b p. x = Some b \<longrightarrow> loadPolicyForTenant (rb_policy_id b) tenantId db = Some p \<longrightarrow> po_effective_to p = None)"

lemma change_rule_same_rules:
  assumes "change_rule now tenantId e x b c a db = Inr (rule, pid, db')" and "authoring_ok db" and "e \<in> set (pd_rules db)"
    and "ru_effective_to e = None" and "binding_policy_current tenantId x db"
    and "\<And>v. c = Some v \<Longrightarrow> well_formed (decode_condition v)" and "\<And>v. a = Some v \<Longrightarrow> template_ok v" and "t < now"
  shows "same_rules t db db'"
proof -
  let ?old = "\<lambda>r. ru_id r = ru_id e \<and> ru_tenant_id r = tenantId"
  from assms(1) obtain db1 where cl: "close_rules now ?old db = Inr db1"
    by (auto simp: change_rule_def Let_def sum_bind_Inr_iff case_prod_beta)
  obtain y db2 where f: "fresh db1 = (y, db2)" by (cases "fresh db1")
  let ?r = "next_rule now y b c a e"
  from assms(1) cl f obtain db3 where i: "insert_rule ?r db2 = Inr db3"
    by (auto simp: change_rule_def Let_def sum_bind_Inr_iff)
  let ?db4 = "db3\<lparr> pd_rules := update_where ?old (\<lambda>r. r\<lparr> ru_superseded_by_id := Some y \<rparr>) (pd_rules db3) \<rparr>"
  note fs = fresh_spec [OF f]
  have ok: "authoring_ok db3"
    by (rule insert_rule_ok [OF close_rules_ok [OF cl assms(2)] f i])
      (use fs assms(2,3,6,7) in \<open>auto simp: authoring_ok_def next_rule_def rule_row_ok_def default_def split: option.split\<close>)
  have "same_rules t db db1" by (rule rule_closed [OF cl assms(2-4,8)])
  also have "same_rules t db1 db2" by (rule fresh_same_rules [OF f])
  also have "same_rules t db2 db3" by (rule insert_rule_same_rules [OF i]) (simp add: next_rule_def assms(8))
  also have "same_rules t db3 ?db4" by (rule supersede_rules_same_rules)
  also have "same_rules t ?db4 db'"
  proof (cases x)
    case None
    with assms(1) cl f i show ?thesis by (simp add: change_rule_def Let_def same_rules_def)
  next
    case (Some z)
    with assms(1) cl f i obtain p np cs where l: "loadPolicyForTenant (rb_policy_id z) tenantId ?db4 = Some p"
        and n: "createNextPolicyVersion now p tenantId cs no_patch ?db4 = Inr (np, db')"
      by (auto simp: change_rule_def Let_def sum_bind_Inr_iff split: option.splits)
    have pols: "pd_policies db3 = pd_policies db" using insert_rule_Inr [OF i] fs cl by (simp add: close_rules_Inr)
    have "loadPolicyForTenant (rb_policy_id z) tenantId db = Some p" using l by (simp add: loadPolicyForTenant_def pols)
    with assms(5) Some have "po_effective_to p = None" by (simp add: binding_policy_current_def)
    moreover have "authoring_ok ?db4" by (rule update_rules_ok [OF ok]) simp
    ultimately show ?thesis using next_same_rules [OF n] loadPolicy_Some [OF l] assms(8) by simp
  qed
  finally show ?thesis .
qed

lemma delete_rule_same_rules:
  assumes "delete_rule now tenantId e x db = Inr (pid, db')" and "authoring_ok db" and "e \<in> set (pd_rules db)"
    and "ru_effective_to e = None" and "binding_policy_current tenantId x db" and "t < now"
  shows "same_rules t db db'"
proof -
  from assms(1) obtain db1 where cl: "close_rules now (\<lambda>r. ru_id r = ru_id e \<and> ru_tenant_id r = tenantId) db = Inr db1"
    by (auto simp: delete_rule_def sum_bind_Inr_iff)
  have "same_rules t db db1" by (rule rule_closed [OF cl assms(2-4,6)])
  also have "same_rules t db1 db'"
  proof (cases "Option.bind x (\<lambda>x. loadPolicyForTenant (rb_policy_id x) tenantId db1)")
    case None
    with assms(1) cl show ?thesis by (simp add: delete_rule_def same_rules_def)
  next
    case (Some p)
    with assms(1) cl obtain np cs where n: "createNextPolicyVersion now p tenantId cs no_patch db1 = Inr (np, db')"
      by (auto simp: delete_rule_def sum_bind_Inr_iff)
    from Some obtain z where z: "x = Some z" "loadPolicyForTenant (rb_policy_id z) tenantId db1 = Some p" by (auto simp: bind_eq_Some_conv)
    have "loadPolicyForTenant (rb_policy_id z) tenantId db = Some p" using z(2) cl by (simp add: loadPolicyForTenant_def close_rules_Inr)
    with assms(5) z(1) have "po_effective_to p = None" by (simp add: binding_policy_current_def)
    then show ?thesis using next_same_rules [OF n close_rules_ok [OF cl assms(2)]] loadPolicy_Some [OF z(2)] assms(6) by simp
  qed
  finally show ?thesis .
qed

lemma create_policy_same_rules:
  assumes "create_policy now tenantId projectId body db = Inr (row, db')" and "t < now"
  shows "same_rules t db db'"
proof -
  obtain x db1 where f: "fresh db = (x, db1)" by (cases "fresh db")
  obtain k db2 where g: "fresh db1 = (k, db2)" by (cases "fresh db1")
  from assms(1) f g have i: "insert_policy (new_policy now x k tenantId projectId body) db2 = Inr db'"
    by (auto simp: create_policy_def Let_def sum_bind_Inr_iff)
  have "same_rules t db db1" by (rule fresh_same_rules [OF f])
  also have "same_rules t db1 db2" by (rule fresh_same_rules [OF g])
  also have "same_rules t db2 db'" by (rule insert_policy_same_rules [OF i]) (simp add: new_policy_def assms(2))
  finally show ?thesis .
qed

text \<open>
  A request of the administration at time \<open>now\<close> on rows that are current. For the deletion of a policy this
  includes all its project bindings, for a rule the policy version whose binding was read.
\<close>

inductive amendment :: "ms \<Rightarrow> policy_db \<Rightarrow> policy_db \<Rightarrow> bool" for now where
  create_tenant_policy: "createTenantPolicyRoute is_uuid auth now param body db = Inr (row, db') \<Longrightarrow> amendment now db db'"
| create_project_policy:
    "createProjectPolicyRoute is_uuid auth now param name desc mode priority projects members db = Inr (row, db') \<Longrightarrow> amendment now db db'"
| patch_policy: "\<lbrakk>patchPolicyRoute is_uuid auth now param patch db = Inr (row, db'); policy_param is_uuid auth param db = Inr p;
    po_effective_to p = None\<rbrakk> \<Longrightarrow> amendment now db db'"
| delete_policy: "\<lbrakk>deletePolicyRoute is_uuid auth now param db = Inr db'; policy_param is_uuid auth param db = Inr p;
    po_effective_to p = None;
    \<forall>b \<in> set (pd_project_bindings db). pb_policy_key b = po_policy_key p \<longrightarrow> pb_effective_to b = None\<rbrakk> \<Longrightarrow> amendment now db db'"
| create_rule: "\<lbrakk>createRuleRoute is_uuid auth now param rbody db = Inr (rule, binding, db'); policy_param is_uuid auth param db = Inr p;
    po_effective_to p = None\<rbrakk> \<Longrightarrow> amendment now db db'"
| reorder_rules: "\<lbrakk>reorderRulesRoute is_uuid auth now param order db = Inr (rows, db'); policy_param is_uuid auth param db = Inr p;
    po_effective_to p = None\<rbrakk> \<Longrightarrow> amendment now db db'"
| patch_rule: "\<lbrakk>patchRuleRoute pick is_uuid auth now param rpatch db = Inr (rule, pid, db'); rule_param pick auth param db = Inr (e, x);
    ru_effective_to e = None; binding_policy_current (au_tenantId auth) x db\<rbrakk> \<Longrightarrow> amendment now db db'"
| delete_rule: "\<lbrakk>deleteRuleRoute pick is_uuid auth now param db = Inr (pid, db'); rule_param pick auth param db = Inr (e, x);
    ru_effective_to e = None; binding_policy_current (au_tenantId auth) x db\<rbrakk> \<Longrightarrow> amendment now db db'"
| create_binding: "createBindingRoute is_uuid auth now param projectId bbody projects db = Inr (b, db') \<Longrightarrow> amendment now db db'"
| delete_binding: "\<lbrakk>deleteBindingRoute is_uuid auth now param db = Inr db';
    \<forall>b \<in> set (pd_project_bindings db). pb_id b = param \<longrightarrow> pb_effective_to b = None\<rbrakk> \<Longrightarrow> amendment now db db'"

lemma amendment_same_rules:
  assumes "amendment now db db'" and "authoring_ok db" and "t < now"
  shows "same_rules t db db'"
  using assms
proof (induction rule: amendment.induct)
  case (create_tenant_policy is_uuid auth param body db row db')
  then show ?case by (auto simp: createTenantPolicyRoute_def route_simps intro: create_policy_same_rules split: if_splits)
next
  case (create_project_policy is_uuid auth param name desc mode priority projects members db row db')
  then show ?case by (auto simp: createProjectPolicyRoute_def route_simps Let_def intro: create_policy_same_rules split: if_splits)
next
  case (patch_policy is_uuid auth param patch db row db' p)
  then obtain cs where "createNextPolicyVersion now p (au_tenantId auth) cs patch db = Inr (row, db')"
    by (auto dest!: patchPolicyRoute_Inr)
  with patch_policy policy_param_Inr show ?case by (blast intro: next_same_rules)
next
  case (delete_policy is_uuid auth param db db' p)
  then obtain db1 where c: "close_policies now (\<lambda>q. po_id q = po_id p \<and> po_tenant_id q = au_tenantId auth) db = Inr db1"
      "close_project_bindings now (\<lambda>b. pb_policy_key b = po_policy_key p \<and> pb_tenant_id b = au_tenantId auth) db1 = Inr db'"
    by (auto simp: deletePolicyRoute_def route_simps)
  have "po_effective_to q = None" if "q \<in> set (pd_policies db)" "po_id q = po_id p \<and> po_tenant_id q = au_tenantId auth" for q
    using that policy_param_Inr [OF delete_policy.hyps(2)] delete_policy ids_ok_inj [of po_id "pd_uuids db" "pd_policies db" q p]
    by (simp add: authoring_ok_def)
  then have "same_rules t db db1" using close_policies_same_rules [OF c(1)] delete_policy by blast
  also have "same_rules t db1 db'"
    using close_bindings_same_rules [OF c(2)] delete_policy c(1) by (simp add: close_policies_Inr)
  finally show ?case .
next
  case (create_rule is_uuid auth param rbody db rule binding db' p)
  then obtain c a where "createRuleSchema rbody = Some (c, a)" "add_rule now p (au_tenantId auth) rbody c a db = Inr (rule, binding, db')"
    by (auto dest!: createRuleRoute_Inr)
  with create_rule policy_param_Inr createRuleSchema_ok show ?case by (blast intro: add_rule_same_rules)
next
  case (reorder_rules is_uuid auth param order db rows db' p)
  then obtain cs np where "createNextPolicyVersion now p (au_tenantId auth) cs no_patch db = Inr (np, db')"
    by (auto dest!: reorderRulesRoute_Inr)
  with reorder_rules policy_param_Inr show ?case by (blast intro: next_same_rules)
next
  case (patch_rule pick is_uuid auth param rpatch db rule pid db' e x)
  then obtain c a where r: "patchRuleSchema rpatch = Some (c, a)"
      "change_rule now (au_tenantId auth) e x rpatch c a db = Inr (rule, pid, db')"
    by (auto dest!: patchRuleRoute_Inr)
  show ?case
    by (rule change_rule_same_rules [OF r(2)]) (use patch_rule rule_param_Inr patchRuleSchema_ok [OF r(1)] in auto)
next
  case (delete_rule pick is_uuid auth param db pid db' e x)
  then obtain "delete_rule now (au_tenantId auth) e x db = Inr (pid, db')" by (auto dest!: deleteRuleRoute_Inr)
  with delete_rule rule_param_Inr show ?case by (blast intro: delete_rule_same_rules)
next
  case (create_binding is_uuid auth param projectId bbody projects db b db')
  have "pb_effective_from (new_project_binding now x k key pid tid bbody) = now" for x k key pid tid
    by (simp add: new_project_binding_def)
  with create_binding obtain x db1 k db2 where f: "fresh db = (x, db1)" "fresh db1 = (k, db2)"
      "insert_project_binding b db2 = Inr db'" "pb_effective_from b = now"
    by (auto simp: createBindingRoute_def route_simps Let_def split: if_splits option.splits prod.splits)
  have "same_rules t db db1" by (rule fresh_same_rules [OF f(1)])
  also have "same_rules t db1 db2" by (rule fresh_same_rules [OF f(2)])
  also have "same_rules t db2 db'" using create_binding by (intro insert_binding_same_rules [OF f(3)]) (simp add: f(4))
  finally show ?case .
next
  case (delete_binding is_uuid auth param db db')
  then obtain c: "close_project_bindings now (\<lambda>b. pb_id b = param \<and> pb_tenant_id b = au_tenantId auth) db = Inr db'"
    by (auto simp: deleteBindingRoute_def route_simps validateUuidParam_def split: if_splits)
  show ?case using close_bindings_same_rules [OF c] delete_binding by blast
qed

section \<open>What is in force afterwards\<close>

text \<open>The rules a policy binds at a time, with how it binds them.\<close>

definition bound_rules :: "policy_db \<Rightarrow> ms \<Rightarrow> string \<Rightarrow> (binding_clone \<times> rule_row) set" where
  "bound_rules db t key =
     {(clone_of b, r) | p b r. p \<in> set (pd_policies db) \<and> po_policy_key p = key \<and> in_force t (po_effective_from p) (po_effective_to p) \<and>
        b \<in> set (pd_rule_bindings db) \<and> rb_policy_id b = po_id p \<and> r \<in> set (pd_rules db) \<and> ru_id r = rb_rule_id b \<and>
        in_force t (ru_effective_from r) (ru_effective_to r)}"

text \<open>No policy version is closed in the future.\<close>

definition closed_by :: "ms \<Rightarrow> policy_db \<Rightarrow> bool" where
  "closed_by now db = (\<forall>p \<in> set (pd_policies db). case po_effective_to p of None \<Rightarrow> True | Some u \<Rightarrow> u \<le> now)"

lemma clone_rule_id [simp]: "bc_rule_id (clone_of b) = rb_rule_id b"
  by (simp add: clone_of_def)

lemma bound_live:
  assumes live: "\<And>q. q \<in> set (pd_policies db) \<and> po_policy_key q = key \<and> in_force t (po_effective_from q) (po_effective_to q) \<longleftrightarrow> q = p"
  shows "bound_rules db t key = {(clone_of b, r) | b r. b \<in> set (pd_rule_bindings db) \<and> rb_policy_id b = po_id p \<and>
      r \<in> set (pd_rules db) \<and> ru_id r = rb_rule_id b \<and> in_force t (ru_effective_from r) (ru_effective_to r)}"
proof -
  have "q \<in> set (pd_policies db) \<and> po_policy_key q = key \<and> in_force t (po_effective_from q) (po_effective_to q) \<and> R \<longleftrightarrow> q = p \<and> R" for q R
    using live by blast
  then show ?thesis unfolding bound_rules_def by simp
qed

lemma next_bound:
  assumes n: "createNextPolicyVersion now p tenantId cs patch db = Inr (np, db')" and ok: "authoring_ok db"
    and p: "p \<in> set (pd_policies db)" "po_tenant_id p = tenantId" "po_effective_to p = None"
    and closed: "closed_by now db" and t: "now \<le> t"
  shows "bound_rules db' t (po_policy_key p) =
      {(c, r). c \<in> set cs \<and> r \<in> set (pd_rules db) \<and> ru_id r = bc_rule_id c \<and> in_force t (ru_effective_from r) (ru_effective_to r)}"
    and "bound_rules db t (po_policy_key p) =
      {(c, r). c \<in> set (map clone_of (loadPolicyRuleBindingsForClone (po_id p) tenantId db)) \<and> r \<in> set (pd_rules db) \<and>
         ru_id r = bc_rule_id c \<and> in_force t (ru_effective_from r) (ru_effective_to r)}"
    and "k \<noteq> po_policy_key p \<Longrightarrow> bound_rules db' t k = bound_rules db t k"
proof -
  from createNext_spec [OF n _ _ p(1,2)] ok obtain new where
      np: "np = next_policy now (po_id np) patch p" and nd: "\<not> drawn_id (pd_uuids db) (po_id np)"
      and pols: "pd_policies db' = map (\<lambda>q. if q = p then superseded now (po_id np) q else q) (pd_policies db) @ [np]"
      and b: "pd_rule_bindings db' = pd_rule_bindings db @ new" "map clone_of new = cs"
        "\<forall>b \<in> set new. rb_policy_id b = po_id np \<and> rb_tenant_id b = tenantId"
      and rest: "pd_rules db' = pd_rules db" and old: "po_effective_from p < now"
      and uniq: "\<forall>q \<in> set (pd_policies db). q \<noteq> p \<longrightarrow> \<not> (po_policy_key q = po_policy_key p \<and> po_effective_to q = None)"
    by (auto simp: authoring_ok_def)
  have np': "po_policy_key np = po_policy_key p" "po_effective_from np = now" "po_effective_to np = None"
    using np by (metis next_policy_def policy_row.select_convs)+
  have gone: "\<not> in_force t (po_effective_from q) (po_effective_to q)" if "q \<in> set (pd_policies db)" "q \<noteq> p" "po_policy_key q = po_policy_key p" for q
    using that uniq closed t by (cases "po_effective_to q") (auto simp: closed_by_def in_force_def)
  have ids: "ids_ok po_id (pd_uuids db) (pd_policies db)" using ok by (simp add: authoring_ok_def)
  have fresh_id: "po_id np \<noteq> po_id q" if "q \<in> set (pd_policies db)" for q
    using that nd ids by (auto simp: ids_ok_def)
  have owner: "\<exists>q \<in> set (pd_policies db). rb_policy_id b = po_id q \<and> rb_tenant_id b = po_tenant_id q" if "b \<in> set (pd_rule_bindings db)" for b
    using ok that by (simp add: authoring_ok_def)
  have pid: "b \<in> set (pd_rule_bindings db') \<and> rb_policy_id b = po_id np \<longleftrightarrow> b \<in> set new" for b
    using b(1,3) owner fresh_id by fastforce
  have live: "q \<in> set (pd_policies db') \<and> po_policy_key q = po_policy_key p \<and> in_force t (po_effective_from q) (po_effective_to q) \<longleftrightarrow> q = np" for q
    using gone np' t by (auto simp: pols superseded_def in_force_def split: if_splits)
  have "bound_rules db' t (po_policy_key p) = {(clone_of b, r) | b r. b \<in> set new \<and> r \<in> set (pd_rules db) \<and> ru_id r = rb_rule_id b \<and>
      in_force t (ru_effective_from r) (ru_effective_to r)}"
    unfolding bound_live [OF live] rest conj_assoc [symmetric] pid ..
  then show "bound_rules db' t (po_policy_key p) =
      {(c, r). c \<in> set cs \<and> r \<in> set (pd_rules db) \<and> ru_id r = bc_rule_id c \<and> in_force t (ru_effective_from r) (ru_effective_to r)}"
    unfolding b(2) [symmetric] by auto
  have mine: "rb_tenant_id b = tenantId" if "b \<in> set (pd_rule_bindings db)" "rb_policy_id b = po_id p" for b
    using owner [OF that(1)] that(2) p ids_ok_inj [OF ids] by fastforce
  have live0: "q \<in> set (pd_policies db) \<and> po_policy_key q = po_policy_key p \<and> in_force t (po_effective_from q) (po_effective_to q) \<longleftrightarrow> q = p" for q
    using gone p old t by (auto simp: in_force_def)
  have mine': "set (loadPolicyRuleBindingsForClone (po_id p) tenantId db) = {b \<in> set (pd_rule_bindings db). rb_policy_id b = po_id p}"
    using mine by (auto simp: loadPolicyRuleBindingsForClone_def)
  show "bound_rules db t (po_policy_key p) =
      {(c, r). c \<in> set (map clone_of (loadPolicyRuleBindingsForClone (po_id p) tenantId db)) \<and> r \<in> set (pd_rules db) \<and>
         ru_id r = bc_rule_id c \<and> in_force t (ru_effective_from r) (ru_effective_to r)}"
    unfolding bound_live [OF live0] set_map mine' by auto
  assume k: "k \<noteq> po_policy_key p"
  have other: "q \<in> set (pd_policies db') \<and> po_policy_key q = k \<longleftrightarrow> q \<in> set (pd_policies db) \<and> po_policy_key q = k" for q
    using k np'(1) p by (auto simp: pols superseded_def split: if_splits)
  have binds: "b \<in> set (pd_rule_bindings db') \<and> rb_policy_id b = po_id q \<longleftrightarrow> b \<in> set (pd_rule_bindings db) \<and> rb_policy_id b = po_id q"
    if "q \<in> set (pd_policies db)" for b q
    using b(1,3) fresh_id [OF that] by auto
  show "bound_rules db' t k = bound_rules db t k"
    unfolding bound_rules_def rest using other binds by (intro Collect_cong ex_cong1) blast
qed

section \<open>Properties\<close>


definition sample_authoring :: policy_db where
  "sample_authoring =
     \<lparr> pd_policies = [sample_policy\<lparr> po_id := ''u'', po_tenant_id := ''t1'' \<rparr>], pd_project_bindings = [],
       pd_rules = [sample_rule\<lparr> ru_id := ''uu'', ru_tenant_id := ''t1'' \<rparr>],
       pd_rule_bindings = [sample_rule_binding\<lparr> rb_tenant_id := ''t1'', rb_policy_id := ''u'', rb_rule_id := ''uu'' \<rparr>],
       pd_uuids = \<lparr> us_supply = (\<lambda>n. replicate (Suc n) CHR ''u''), us_drawn = 2 \<rparr> \<rparr>"

lemma sample_authoring_ok: "authoring_ok sample_authoring"
proof -
  have "inj (\<lambda>n. replicate (Suc n) CHR ''u'')" by (rule injI) (drule arg_cong [where f = length], simp)
  moreover have "template_ok (ru_action sample_rule)" by code_simp
  moreover have "drawn_id (pd_uuids sample_authoring) ''u''" "drawn_id (pd_uuids sample_authoring) ''uu''"
    unfolding drawn_id_def by (rule exI [of _ 0], simp add: sample_authoring_def) (rule exI [of _ 1], simp add: sample_authoring_def)
  ultimately show ?thesis
    using sample_condition_eval(1)
    by (simp add: authoring_ok_def sample_authoring_def source_ok_def ids_ok_def rule_row_ok_def sample_rule_def sample_policy_def
        sample_rule_binding_def)
qed

definition anything :: "string \<Rightarrow> bool" where
  "anything s = True"

definition sample_rule_body :: rule_body where
  "sample_rule_body =
     \<lparr> bo_name = ''fresh'', bo_description = None, bo_target_entity = ''artifact'',
       bo_condition = JObj [(''field'', JStr ''asset.ecosystem''), (''operator'', JStr ''eq''), (''value'', JStr ''npm'')],
       bo_action = JObj [(''type'', JStr ''warning'')], bo_enabled = None, bo_order_index = None \<rparr>"

lemma sample_create_rule:
  "case createRuleRoute anything sample_auth 5 ''u'' sample_rule_body sample_authoring of
     Inl _ \<Rightarrow> False
   | Inr (rule, binding, db') \<Rightarrow> rb_order_index binding = 1 \<and> pd_project_bindings db' = [] \<and> ru_name rule = ''fresh'' \<and>
       map rr_name (ps_allRules (loadEffectivePolicy db' 5 ''t1'' ''p1'')) = [''critical'', ''fresh'']"
  by code_simp

lemma sample_rule_created:
  obtains rule binding db' where "createRuleRoute anything sample_auth 5 ''u'' sample_rule_body sample_authoring = Inr (rule, binding, db')"
    "map rr_name (ps_allRules (loadEffectivePolicy db' 5 ''t1'' ''p1'')) = [''critical'', ''fresh'']" "ru_name rule = ''fresh''"
    "pd_project_bindings db' = []"
proof -
  obtain r where r: "createRuleRoute anything sample_auth 5 ''u'' sample_rule_body sample_authoring = r" by blast
  from sample_create_rule that show thesis unfolding r by (cases r) (auto split: prod.splits)
qed


text \<open>
  C12: the past of a policy is not rewritten. A request of the administration that succeeds on current
  rows leaves the rules that were in force at any earlier time, for every tenant and project,
  exactly as they were; so the rules an earlier check evaluated can be reconstructed.
\<close>

theorem policy_history_preserved:
  assumes "amendment now db db'" and "authoring_ok db" and "t < now"
  shows "ps_allRules (loadEffectivePolicy db' t tenantId projectId) = ps_allRules (loadEffectivePolicy db t tenantId projectId)"
  using amendment_same_rules [OF assms] by (simp add: same_rules_def)

lemma sample_policy_param: "policy_param anything sample_auth ''u'' sample_authoring = Inr (hd (pd_policies sample_authoring))"
  by (simp add: policy_param_def validateUuidParam_def anything_def loadPolicyForTenant_def first_row_def sample_authoring_def sample_auth_def)

theorem policy_history_preserved_witness:
  "\<exists>db'. amendment 5 sample_authoring db' \<and>
     map rr_name (ps_allRules (loadEffectivePolicy db' 4 ''t1'' ''p1'')) = [''critical''] \<and>
     map rr_name (ps_allRules (loadEffectivePolicy db' 5 ''t1'' ''p1'')) = [''critical'', ''fresh'']"
proof -
  obtain rule binding db' where c: "createRuleRoute anything sample_auth 5 ''u'' sample_rule_body sample_authoring = Inr (rule, binding, db')"
    "map rr_name (ps_allRules (loadEffectivePolicy db' 5 ''t1'' ''p1'')) = [''critical'', ''fresh'']"
    by (rule sample_rule_created)
  have a: "amendment 5 sample_authoring db'"
    by (rule amendment.create_rule [OF c(1) sample_policy_param]) (simp add: sample_authoring_def sample_policy_def)
  have "map rr_name (ps_allRules (loadEffectivePolicy sample_authoring 4 ''t1'' ''p1'')) = [''critical'']" by code_simp
  with policy_history_preserved [OF a sample_authoring_ok, of 4 "''t1''" "''p1''"] a c(2) show ?thesis by auto
qed

text \<open>
  C14: a new rule takes effect at once and alone. When a rule is added to the current version of a
  policy, from that time on the policy binds exactly the rules it bound before and the new one, with
  the attributes answered to the caller, and what every other policy binds is unchanged.
\<close>

theorem rule_added_in_force:
  assumes "createRuleRoute is_uuid auth now param body db = Inr (rule, binding, db')" and "policy_param is_uuid auth param db = Inr p"
    and "po_effective_to p = None" and "authoring_ok db" and "closed_by now db"
    and "\<forall>b \<in> set (pd_rule_bindings db). rb_rule_id b \<in> ru_id ` set (pd_rules db)" and "now \<le> t"
  shows "bound_rules db' t (po_policy_key p) = insert (clone_of binding, rule) (bound_rules db t (po_policy_key p)) \<and>
    (\<forall>k. k \<noteq> po_policy_key p \<longrightarrow> bound_rules db' t k = bound_rules db t k)"
proof -
  let ?tn = "au_tenantId auth"
  note p = policy_param_Inr [OF assms(2)]
  from assms(1,2) obtain c a where sch: "createRuleSchema body = Some (c, a)" and add: "add_rule now p ?tn body c a db = Inr (rule, binding, db')"
    by (auto dest!: createRuleRoute_Inr)
  obtain x db1 where f: "fresh db = (x, db1)" by (cases "fresh db")
  obtain k db2 where g: "fresh db1 = (k, db2)" by (cases "fresh db1")
  note fs = fresh_spec [OF f] and gs = fresh_spec [OF g]
  define olds where "olds = map clone_of (loadPolicyRuleBindingsForClone (po_id p) ?tn db)"
  define new where "new = \<lparr> bc_rule_id = x, bc_enabled = default True (bo_enabled body), bc_required = False,
      bc_order_index = default (int (length olds)) (bo_order_index body) \<rparr>"
  have rule: "rule = new_rule now x k ?tn body c a"
    using add f g by (auto simp: add_rule_def Let_def sum_bind_Inr_iff split: option.splits)
  from add f g obtain db3 np where i: "insert_rule rule db2 = Inr db3"
      and n: "createNextPolicyVersion now p ?tn (map clone_of (loadPolicyRuleBindingsForClone (po_id p) ?tn db3) @
        [\<lparr> bc_rule_id = x, bc_enabled = default True (bo_enabled body), bc_required = False,
           bc_order_index = default (int (length (loadPolicyRuleBindingsForClone (po_id p) ?tn db3))) (bo_order_index body) \<rparr>])
        no_patch db3 = Inr (np, db')"
      and bnd: "first_row (\<lambda>y. rb_policy_id y = po_id np \<and> rb_rule_id y = x \<and> rb_tenant_id y = ?tn) (pd_rule_bindings db') = Some binding"
    by (auto simp: add_rule_def Let_def sum_bind_Inr_iff rule split: option.splits)
  have db3: "pd_policies db3 = pd_policies db" "pd_rule_bindings db3 = pd_rule_bindings db" "pd_rules db3 = pd_rules db @ [rule]"
    using insert_rule_Inr [OF i] fs gs by simp_all
  have lb: "loadPolicyRuleBindingsForClone (po_id p) ?tn db3 = loadPolicyRuleBindingsForClone (po_id p) ?tn db"
    by (simp add: loadPolicyRuleBindingsForClone_def db3)
  have n': "createNextPolicyVersion now p ?tn (olds @ [new]) no_patch db3 = Inr (np, db')"
    using n by (simp add: lb olds_def new_def)
  have ok3: "authoring_ok db3"
    by (rule insert_rule_ok [OF assms(4) f i])
      (use fs gs createRuleSchema_ok [OF sch] in \<open>simp_all add: rule new_rule_def rule_row_ok_def draw_later\<close>)
  have nx: "x \<notin> ru_id ` set (pd_rules db)"
    using assms(4) draw_fresh [of "pd_uuids db" x "pd_uuids db1"] fs by (auto simp: authoring_ok_def ids_ok_def)
  have old_ids: "bc_rule_id y \<in> ru_id ` set (pd_rules db)" if "y \<in> set olds" for y
    using that assms(6) by (auto simp: olds_def loadPolicyRuleBindingsForClone_def)
  have cl: "closed_by now db3" using assms(5) by (simp add: closed_by_def db3)
  note nb = next_bound [OF n' ok3 _ _ assms(3) cl assms(7)]
  have p3: "p \<in> set (pd_policies db3)" "po_tenant_id p = ?tn" using p by (simp_all add: db3)
  have live: "in_force t (ru_effective_from rule) (ru_effective_to rule)" "ru_id rule = x"
    using assms(7) by (simp_all add: rule new_rule_def in_force_def)
  have "(y, r) \<in> bound_rules db3 t key \<longleftrightarrow> (y, r) \<in> bound_rules db t key" for y r key
  proof -
    have "\<forall>b \<in> set (pd_rule_bindings db). rb_rule_id b \<noteq> x" using assms(6) nx by auto
    then show ?thesis using live by (auto simp: bound_rules_def db3)
  qed
  then have same: "bound_rules db3 t key = bound_rules db t key" for key by auto
  have "(y, r) \<in> bound_rules db' t (po_policy_key p) \<longleftrightarrow> (y, r) = (new, rule) \<or> (y, r) \<in> bound_rules db t (po_policy_key p)" for y r
  proof -
    have "r = rule" if "r \<in> set (pd_rules db3)" "ru_id r = x" using that nx live by (auto simp: db3)
    then show ?thesis
      unfolding nb(1) [OF p3] same [symmetric] nb(2) [OF p3] lb olds_def [symmetric] using live old_ids nx
      by (auto simp: new_def db3)
  qed
  moreover have "clone_of binding = new"
  proof -
    have b: "binding \<in> set (pd_rule_bindings db')" "rb_policy_id binding = po_id np" "rb_rule_id binding = x"
      using bnd by (auto simp: first_row_def dest: find_SomeD)
    from createNext_spec [OF n' _ _ p3] ok3 obtain bs where bs: "pd_rule_bindings db' = pd_rule_bindings db3 @ bs" "map clone_of bs = olds @ [new]"
        "\<not> drawn_id (pd_uuids db3) (po_id np)"
      by (auto simp: authoring_ok_def)
    have "binding \<notin> set (pd_rule_bindings db3)" using ok3 b(2) bs(3) by (fastforce simp: authoring_ok_def ids_ok_def)
    then have "clone_of binding \<in> set (olds @ [new])" using b(1) bs(1) arg_cong [OF bs(2), of set] by auto
    then show ?thesis using b(3) old_ids [of "clone_of binding"] nx by auto
  qed
  moreover have "bound_rules db' t j = bound_rules db t j" if "j \<noteq> po_policy_key p" for j
    using nb(3) [OF p3 that] same by simp
  ultimately show ?thesis by auto
qed

theorem rule_added_in_force_witness:
  "\<exists>rule binding db'. createRuleRoute anything sample_auth 5 ''u'' sample_rule_body sample_authoring = Inr (rule, binding, db') \<and>
     (clone_of binding, rule) \<in> bound_rules db' 5 ''pk''"
proof -
  obtain rule binding db' where c: "createRuleRoute anything sample_auth 5 ''u'' sample_rule_body sample_authoring = Inr (rule, binding, db')"
    by (rule sample_rule_created)
  let ?p = "hd (pd_policies sample_authoring)"
  have k: "po_effective_to ?p = None" "closed_by 5 sample_authoring" "po_policy_key ?p = ''pk''"
      "\<forall>b \<in> set (pd_rule_bindings sample_authoring). rb_rule_id b \<in> ru_id ` set (pd_rules sample_authoring)"
    by (simp_all add: sample_authoring_def sample_policy_def closed_by_def)
  from rule_added_in_force [OF c sample_policy_param k(1) sample_authoring_ok k(2,4), of 5] k(3) c show ?thesis by auto
qed

text \<open>
  A binding cannot be changed. A request to patch the current binding of a project inserts the
  successor before it closes the binding, which the unique index of current bindings refuses: it is
  answered with an error, whatever it asks for, and 500 when it is well formed and permitted.
\<close>

theorem binding_patch_always_fails:
  assumes "binding_param auth param db = Inr b" and "pb_effective_to b = None"
  shows "\<exists>e. patchBindingRoute is_uuid auth now param body db = Inl e \<and>
    (bindingMutationSchema body \<and> is_uuid param \<and> requireTenantCapability auth ''policy_assignments.write''
       ''You do not have access to modify policy bindings'' = Inr () \<longrightarrow> he_status e = 500)"
proof -
  have b: "b \<in> set (pd_project_bindings db)"
    using assms(1) by (auto simp: binding_param_def first_row_def errorResult_def dest: find_SomeD split: option.splits)
  obtain x db1 where f: "fresh db = (x, db1)" by (cases "fresh db")
  have "b \<in> set (pd_project_bindings db1)" using b fresh_spec [OF f] by simp
  moreover have "pb_binding_key (next_binding now x body b) = pb_binding_key b" by (simp add: next_binding_def)
  ultimately have "insert_project_binding (next_binding now x body b) db1 \<noteq> Inr d" for d
    using assms(2) by (auto simp: insert_project_binding_def list_ex_iff split: if_splits)
  then obtain err where "insert_project_binding (next_binding now x body b) db1 = Inl err"
    by (cases "insert_project_binding (next_binding now x body b) db1") auto
  then show ?thesis
    using assms(1) f
    by (auto simp: patchBindingRoute_def invalid_body_def errorResult_def validateUuidParam_def service_call_def requireTenantCapability_def
        split: option.splits)
qed

definition sample_bound :: policy_db where
  "sample_bound = sample_authoring\<lparr> pd_project_bindings := [sample_binding JNull None] \<rparr>"

definition sample_auth_t :: auth_context where
  "sample_auth_t = sample_auth\<lparr> au_tenantId := ''t'' \<rparr>"

definition enable_body :: binding_body where
  "enable_body = \<lparr> bb_enabled = Some False, bb_inheritance_mode = None, bb_severity_override = None, bb_threshold_overrides = None,
     bb_rule_overrides = None, bb_enforcement_mode_override = None \<rparr>"

theorem binding_patch_always_fails_witness:
  "\<exists>e. patchBindingRoute anything sample_auth_t 5 ''b1'' enable_body sample_bound = Inl e \<and> he_status e = 500"
proof -
  have "binding_param sample_auth_t ''b1'' sample_bound = Inr (sample_binding JNull None)"
    by (simp add: binding_param_def first_row_def sample_bound_def sample_binding_def sample_auth_t_def)
  moreover have "pb_effective_to (sample_binding JNull None) = None" by (simp add: sample_binding_def)
  moreover have "bindingMutationSchema enable_body" "anything ''b1''"
    by (simp_all add: bindingMutationSchema_def enable_body_def optional_def anything_def)
  moreover have "requireTenantCapability sample_auth_t ''policy_assignments.write'' ''You do not have access to modify policy bindings'' = Inr ()"
    by code_simp
  ultimately show ?thesis using binding_patch_always_fails [of sample_auth_t "''b1''" sample_bound _ anything 5 enable_body] by blast
qed

text \<open>
  A rule cannot be added in the default position when that position is taken. Rules keep their
  order index when another one is deleted, and a new rule gets as index the number of rules; when a
  rule of the policy has that index, the unique index of the bindings refuses the new version and
  the request is answered with an error.
\<close>

theorem default_position_collides:
  assumes "policy_param is_uuid auth param db = Inr p" and "b \<in> set (loadPolicyRuleBindingsForClone (po_id p) (au_tenantId auth) db)"
    and "rb_order_index b = int (length (loadPolicyRuleBindingsForClone (po_id p) (au_tenantId auth) db))"
    and "bo_order_index body = None"
  shows "\<exists>e. createRuleRoute is_uuid auth now param body db = Inl e"
proof (rule ccontr)
  let ?tn = "au_tenantId auth"
  assume "\<not> ?thesis"
  then obtain r where "createRuleRoute is_uuid auth now param body db = Inr r" by (cases "createRuleRoute is_uuid auth now param body db") auto
  then obtain rule binding db' where "createRuleRoute is_uuid auth now param body db = Inr (rule, binding, db')" by (cases r) auto
  with assms(1) obtain c a where add: "add_rule now p ?tn body c a db = Inr (rule, binding, db')"
    by (auto dest!: createRuleRoute_Inr)
  obtain x db1 where f: "fresh db = (x, db1)" by (cases "fresh db")
  obtain k db2 where g: "fresh db1 = (k, db2)" by (cases "fresh db1")
  let ?bs = "loadPolicyRuleBindingsForClone (po_id p) ?tn"
  from add f g obtain db3 np where i: "insert_rule (new_rule now x k ?tn body c a) db2 = Inr db3"
      and n: "createNextPolicyVersion now p ?tn (map clone_of (?bs db3) @ [\<lparr> bc_rule_id = x, bc_enabled = default True (bo_enabled body),
        bc_required = False, bc_order_index = default (int (length (?bs db3))) (bo_order_index body) \<rparr>]) no_patch db3 = Inr (np, db')"
    by (auto simp: add_rule_def Let_def sum_bind_Inr_iff split: option.splits)
  have lb: "?bs db3 = ?bs db"
    using insert_rule_Inr [OF i] fresh_spec [OF f] fresh_spec [OF g] by (simp add: loadPolicyRuleBindingsForClone_def)
  have taken: "int (length (?bs db)) \<in> rb_order_index ` set (?bs db)"
    using imageI [OF assms(2), of rb_order_index] assms(3) by simp
  from next_positions [OF n] taken assms(4) show False by (simp add: lb default_def clone_of_def image_image)
qed

definition shifted_authoring :: policy_db where
  "shifted_authoring = sample_authoring\<lparr> pd_rule_bindings :=
     [sample_rule_binding\<lparr> rb_tenant_id := ''t1'', rb_policy_id := ''u'', rb_rule_id := ''uu'', rb_order_index := 1 \<rparr>] \<rparr>"

theorem default_position_collides_witness:
  "\<exists>e. createRuleRoute anything sample_auth 5 ''u'' sample_rule_body shifted_authoring = Inl e"
proof -
  let ?p = "hd (pd_policies sample_authoring)"
  let ?b = "sample_rule_binding\<lparr> rb_tenant_id := ''t1'', rb_policy_id := ''u'', rb_rule_id := ''uu'', rb_order_index := 1 \<rparr>"
  have "policy_param anything sample_auth ''u'' shifted_authoring = Inr ?p"
    using sample_policy_param by (simp add: policy_param_def loadPolicyForTenant_def shifted_authoring_def)
  moreover have "loadPolicyRuleBindingsForClone (po_id ?p) (au_tenantId sample_auth) shifted_authoring = [?b]"
    by (simp add: loadPolicyRuleBindingsForClone_def shifted_authoring_def sample_authoring_def sample_auth_def)
  moreover have "bo_order_index sample_rule_body = None" by (simp add: sample_rule_body_def)
  ultimately show ?thesis
    using default_position_collides [of anything sample_auth "''u''" shifted_authoring ?p ?b sample_rule_body 5] by simp
qed

text \<open>
  Deleting a policy moves the end of all its bindings, also of those closed long ago: a project that
  had stopped opting out is, for that past time, recorded as opted out again.
\<close>

lemma delete_policy_rewrites_history:
  "let past = (sample_binding JNull None)\<lparr> pb_tenant_id := ''t1'', pb_project_id := ''p1'', pb_enabled := False, pb_effective_to := Some 3 \<rparr>;
       db = sample_authoring\<lparr> pd_project_bindings := [past] \<rparr>
   in case deletePolicyRoute anything sample_auth 9 ''u'' db of
        Inl _ \<Rightarrow> False
      | Inr db' \<Rightarrow> map rr_name (ps_allRules (loadEffectivePolicy db 5 ''t1'' ''p1'')) = [''critical''] \<and>
                   ps_allRules (loadEffectivePolicy db' 5 ''t1'' ''p1'') = []"
  by code_simp

text \<open>
  When the row read for a rule is its binding to a superseded policy version, the change of the rule
  fails: the next version number is taken.
\<close>

lemma insert_policy_version:
  assumes "insert_policy p db = Inr db'" and "q \<in> set (pd_policies db)" and "po_policy_key q = po_policy_key p"
  shows "po_version q \<noteq> po_version p"
proof
  assume "po_version q = po_version p"
  with assms(2,3) have "list_ex (\<lambda>q. po_policy_key q = po_policy_key p \<and> po_version q = po_version p) (pd_policies db)"
    by (auto simp: list_ex_iff)
  with assms(1) show False by (simp add: insert_policy_def split: if_splits)
qed

lemma stale_binding_rejected:
  assumes "createNextPolicyVersion now p tenantId cs patch db = Inr r" and "q \<in> set (pd_policies db)"
    and "po_policy_key q = po_policy_key p"
  shows "po_version q \<noteq> po_version p + 1"
proof -
  from assms(1) obtain db1 db3 where c: "close_policies now (\<lambda>x. po_id x = po_id p \<and> po_tenant_id x = tenantId) db = Inr db1"
      and i: "insert_policy (next_policy now (fst (fresh db1)) patch p) (snd (fresh db1)) = Inr db3"
    by (simp add: createNextPolicyVersion_def Let_def sum_bind_Inr_iff case_prod_beta) blast
  let ?q = "if po_id q = po_id p \<and> po_tenant_id q = tenantId then q\<lparr> po_effective_to := Some now \<rparr> else q"
  have "?q \<in> set (pd_policies (snd (fresh db1)))"
    using c assms(2) by (auto simp: close_policies_Inr update_where_def fresh_def case_prod_beta image_iff)
  moreover have "po_policy_key ?q = po_policy_key (next_policy now (fst (fresh db1)) patch p)"
    using assms(3) by (simp add: next_policy_def)
  ultimately have "po_version ?q \<noteq> po_version (next_policy now (fst (fresh db1)) patch p)"
    by (rule insert_policy_version [OF i])
  then show ?thesis by (simp add: next_policy_def split: if_splits)
qed

end
