(* ===== verification/Tenant_Access.thy ===== *)
theory Tenant_Access
  imports Check Policy_Authoring
begin

text \<open>
  The administration of a tenant: its members and their roles (\<open>features/tenants/member-routes.ts\<close>),
  the grant of access to a user who may not exist yet (\<open>invite-routes.ts\<close>), its name and its
  entitlements (\<open>core-routes.ts\<close>), with the request schemas of \<open>shared.ts\<close> and the client of the
  identity service, \<open>auth/admin-service.ts\<close>.

  The identity service itself is a parameter, a record of its operations over a state of its own: a
  call answers or fails, and in either case the service may have changed. The loop that reads all its
  pages may run forever, so that a handler which waits for it gives \<open>None\<close> when it never answers.
  \<open>is_email\<close> and \<open>is_uuid\<close> are the string schemas of the validation library.
\<close>

section \<open>The client of the identity service\<close>

text \<open>What a call throws: an \<open>AuthAdminServiceError\<close> of either kind, or the failure of the connection.\<close>

datatype auth_error = Misconfigured | Upstream nat | Unreachable

record auth_user =
  ax_id :: string
  ax_email :: "string option"
  ax_email_confirmed_at :: "string option"
  ax_last_sign_in_at :: "string option"
  ax_provider :: "string option"

record user_page =
  pg_users :: "auth_user list option"
  pg_total :: "int option"

record 'g identity_service =
  go_configured :: bool
  go_page :: "'g \<Rightarrow> nat \<Rightarrow> nat \<Rightarrow> auth_error + user_page"
  go_invite :: "string \<Rightarrow> 'g \<Rightarrow> (auth_error + auth_user) \<times> 'g"
  go_create :: "string \<Rightarrow> string \<Rightarrow> 'g \<Rightarrow> (auth_error + auth_user) \<times> 'g"
  go_delete :: "string \<Rightarrow> 'g \<Rightarrow> (auth_error + unit) \<times> 'g"
  go_get :: "string \<Rightarrow> 'g \<Rightarrow> auth_error + auth_user"
  go_update :: "string \<Rightarrow> string \<Rightarrow> 'g \<Rightarrow> (auth_error + unit) \<times> 'g"

text \<open>Every request asks for the service key first, which throws without a configuration.\<close>

definition with_key :: "'g identity_service \<Rightarrow> 'g \<Rightarrow> (auth_error + 'a) \<times> 'g \<Rightarrow> (auth_error + 'a) \<times> 'g" where
  "with_key svc g answer = (if go_configured svc then answer else (Inl Misconfigured, g))"

text \<open>The loop of \<open>requestPaginated\<close>, from the page and with the items it has.\<close>

partial_function (option) requestPaginated ::
    "(nat \<Rightarrow> nat \<Rightarrow> auth_error + user_page) \<Rightarrow> nat \<Rightarrow> nat \<Rightarrow> auth_user list \<Rightarrow> (auth_error + auth_user list) option" where
  "requestPaginated fetch pageSize page items =
     (case fetch page pageSize of
        Inl e \<Rightarrow> Some (Inl e)
      | Inr body \<Rightarrow>
          let found = default [] (pg_users body); items' = items @ found
          in if (case pg_total body of None \<Rightarrow> False | Some t \<Rightarrow> t \<le> int (length items')) then Some (Inr items')
             else if length found < pageSize then Some (Inr items')
             else requestPaginated fetch pageSize (page + 1) items')"

definition listUsers :: "'g identity_service \<Rightarrow> nat \<Rightarrow> 'g \<Rightarrow> (auth_error + auth_user list) option" where
  "listUsers svc pageSize g =
     (if go_configured svc then requestPaginated (go_page svc g) pageSize 1 [] else Some (Inl Misconfigured))"

definition same_email :: "string \<Rightarrow> auth_user \<Rightarrow> bool" where
  "same_email normalizedEmail user =
     (map_option (\<lambda>e. js_toLowerCase (js_trim e)) (ax_email user) = Some normalizedEmail)"

definition findUserByEmail :: "'g identity_service \<Rightarrow> string \<Rightarrow> 'g \<Rightarrow> (auth_error + auth_user option) option" where
  "findUserByEmail svc email g =
     (let normalizedEmail = js_toLowerCase (js_trim email)
      in if normalizedEmail = [] then Some (Inr None)
         else map_option (map_sum id (find (same_email normalizedEmail))) (listUsers svc 1000 g))"

definition inviteUser :: "'g identity_service \<Rightarrow> string \<Rightarrow> 'g \<Rightarrow> (auth_error + auth_user) \<times> 'g" where
  "inviteUser svc email g = with_key svc g (go_invite svc email g)"

definition createUser :: "'g identity_service \<Rightarrow> string \<Rightarrow> string \<Rightarrow> 'g \<Rightarrow> (auth_error + auth_user) \<times> 'g" where
  "createUser svc email password g = with_key svc g (go_create svc email password g)"

definition deleteUser :: "'g identity_service \<Rightarrow> string \<Rightarrow> 'g \<Rightarrow> (auth_error + unit) \<times> 'g" where
  "deleteUser svc userId g = with_key svc g (go_delete svc userId g)"

definition updateUser :: "'g identity_service \<Rightarrow> string \<Rightarrow> string \<Rightarrow> 'g \<Rightarrow> (auth_error + unit) \<times> 'g" where
  "updateUser svc userId password g = with_key svc g (go_update svc userId password g)"

definition getUser :: "'g identity_service \<Rightarrow> string \<Rightarrow> 'g \<Rightarrow> auth_error + auth_user option" where
  "getUser svc userId g =
     (case (if go_configured svc then go_get svc userId g else Inl Misconfigured) of
        Inl e \<Rightarrow> if e = Upstream 404 then Inr None else Inl e
      | Inr user \<Rightarrow> Inr (Some user))"

section \<open>Tables\<close>

record membership_row =
  ms_tenant_id :: string
  ms_user_id :: string
  ms_role :: string
  ms_created_at :: ms

record 'g access_db =
  ac_memberships :: "membership_row list"
  ac_projects :: "project_row list"
  ac_members :: "project_member_row list"
  ac_auth :: 'g

definition the_membership :: "string \<Rightarrow> string \<Rightarrow> membership_row \<Rightarrow> bool" where
  "the_membership tenantId userId m = (ms_user_id m = userId \<and> ms_tenant_id m = tenantId)"

definition the_project_member :: "string \<Rightarrow> string \<Rightarrow> project_member_row \<Rightarrow> bool" where
  "the_project_member projectId userId m = (mb_project_id m = projectId \<and> mb_user_id m = userId)"

text \<open>The inserts break on the unique indexes of the two tables.\<close>

definition insert_membership :: "ms \<Rightarrow> string \<Rightarrow> string \<Rightarrow> string \<Rightarrow> 'g access_db \<Rightarrow> js_error + 'g access_db" where
  "insert_membership now tenantId userId role db =
     (if list_ex (the_membership tenantId userId) (ac_memberships db) then Inl (AppError ''memberships_tenant_user_idx'')
      else Inr (db\<lparr> ac_memberships := ac_memberships db @
             [\<lparr> ms_tenant_id = tenantId, ms_user_id = userId, ms_role = role, ms_created_at = now \<rparr>] \<rparr>))"

definition insert_project_member :: "string \<Rightarrow> string \<Rightarrow> string \<Rightarrow> 'g access_db \<Rightarrow> js_error + 'g access_db" where
  "insert_project_member projectId tenantId userId db =
     (if list_ex (the_project_member projectId userId) (ac_members db) then Inl (AppError ''project_members_project_user_idx'')
      else Inr (db\<lparr> ac_members := ac_members db @
             [\<lparr> mb_project_id = projectId, mb_tenant_id = tenantId, mb_user_id = userId \<rparr>] \<rparr>))"

text \<open>The transaction that records a new member of the tenant, and of a project when one is given.\<close>

definition record_member ::
    "ms \<Rightarrow> string \<Rightarrow> string option \<Rightarrow> string \<Rightarrow> string \<Rightarrow> 'g access_db \<Rightarrow> js_error + 'g access_db" where
  "record_member now tenantId scopedProjectId userId role db =
     sum_bind (insert_membership now tenantId userId role db) (\<lambda>db1.
       case scopedProjectId of None \<Rightarrow> Inr db1 | Some projectId \<Rightarrow> insert_project_member projectId tenantId userId db1)"

text \<open>A string that is absent or empty counts as false.\<close>

definition present :: "string option \<Rightarrow> string option" where
  "present s = (if s = Some [] then None else s)"

definition member_of :: "string \<Rightarrow> string \<Rightarrow> 'g access_db \<Rightarrow> membership_row option" where
  "member_of tenantId userId db = first_row (the_membership tenantId userId) (ac_memberships db)"

section \<open>Members\<close>

record member_view =
  mv_user_id :: string
  mv_email :: "string option"
  mv_role :: string
  mv_joined_at :: ms
  mv_provider :: "string option"
  mv_last_sign_in_at :: "string option"

text \<open>The value the last user of an id puts into one of the maps of the handler.\<close>

definition last_set :: "(auth_user \<Rightarrow> 'v option) \<Rightarrow> string \<Rightarrow> auth_user list \<Rightarrow> 'v option" where
  "last_set value userId users =
     Option.bind (find (\<lambda>u. ax_id u = userId \<and> value u \<noteq> None) (rev users)) value"

definition listMembersRoute ::
    "'g identity_service \<Rightarrow> (string \<Rightarrow> bool) \<Rightarrow> auth_context \<Rightarrow> string \<Rightarrow> 'g access_db \<Rightarrow> member_view list http_result option" where
  "listMembersRoute svc is_uuid auth param db =
     (case sum_bind (requireTenantParamAccess is_uuid auth param) (\<lambda>tenantId.
             sum_bind (requireTenantCapability auth ''members.read'' ''Access denied'') (\<lambda>_. Inr tenantId)) of
        Inl e \<Rightarrow> Some (Inl e)
      | Inr tenantId \<Rightarrow>
          (case listUsers svc 1000 (ac_auth db) of
             None \<Rightarrow> None
           | Some listed \<Rightarrow>
               let users = (case listed of Inl _ \<Rightarrow> [] | Inr users \<Rightarrow> users)
               in Some (Inr (map (\<lambda>m.
                    \<lparr> mv_user_id = ms_user_id m, mv_email = last_set (present \<circ> ax_email) (ms_user_id m) users,
                      mv_role = ms_role m, mv_joined_at = ms_created_at m,
                      mv_provider = last_set (present \<circ> ax_provider) (ms_user_id m) users,
                      mv_last_sign_in_at = Option.bind (last_set (Some \<circ> ax_last_sign_in_at) (ms_user_id m) users) id \<rparr>)
                    (filter (\<lambda>m. ms_tenant_id m = tenantId) (ac_memberships db))))))"

record create_member_body =
  cm_email :: string
  cm_password :: string
  cm_role :: string
  cm_project_id :: "string option"

definition createMemberSchema :: "(string \<Rightarrow> bool) \<Rightarrow> (string \<Rightarrow> bool) \<Rightarrow> create_member_body \<Rightarrow> bool" where
  "createMemberSchema is_email is_uuid b =
     (is_email (cm_email b) \<and> 8 \<le> length (cm_password b) \<and> isDirectCreatableTenantRole (cm_role b) \<and>
      optional is_uuid (cm_project_id b))"

text \<open>The role of the caller and the role of the body, when the first may do the second.\<close>

definition may_give :: "(tenant_role \<Rightarrow> tenant_role \<Rightarrow> bool) \<Rightarrow> auth_context \<Rightarrow> string \<Rightarrow> bool" where
  "may_give allowed auth role =
     (case (tenant_role_of (au_role auth), tenant_role_of role) of
        (Some actor, Some target) \<Rightarrow> allowed actor target
      | _ \<Rightarrow> False)"

definition scoped_project :: "string \<Rightarrow> string option \<Rightarrow> string option" where
  "scoped_project role project_id = (if hasImplicitProjectAccess role then None else present project_id)"

definition scope_guard :: "auth_context \<Rightarrow> string option \<Rightarrow> 'g access_db \<Rightarrow> unit http_result" where
  "scope_guard auth scopedProjectId db =
     (case scopedProjectId of
        None \<Rightarrow> Inr ()
      | Some projectId \<Rightarrow>
          sum_bind (resolveProjectWithAccess projectId auth False (ac_projects db) (ac_members db)) (\<lambda>_. Inr ()))"

definition create_guard ::
    "(string \<Rightarrow> bool) \<Rightarrow> (string \<Rightarrow> bool) \<Rightarrow> auth_context \<Rightarrow> string \<Rightarrow> create_member_body \<Rightarrow> 'g access_db \<Rightarrow> string http_result" where
  "create_guard is_email is_uuid auth param body db =
     (if \<not> createMemberSchema is_email is_uuid body then invalid_body
      else sum_bind (requireTenantParamAccess is_uuid auth param) (\<lambda>tenantId.
        sum_bind (requireTenantCapability auth ''members.create_password_user''
                    ''You do not have access to create tenant accounts'') (\<lambda>_.
        if \<not> may_give canDirectCreateTenantRole auth (cm_role body)
        then errorResult 403 ''FORBIDDEN'' (''You do not have access to create users with role \"'' @ cm_role body @ ''\"'') None
        else sum_bind (scope_guard auth (scoped_project (cm_role body) (cm_project_id body)) db) (\<lambda>_. Inr tenantId))))"

definition createMemberRoute ::
    "'g identity_service \<Rightarrow> (string \<Rightarrow> bool) \<Rightarrow> (string \<Rightarrow> bool) \<Rightarrow> ms \<Rightarrow> auth_context \<Rightarrow> string \<Rightarrow> create_member_body \<Rightarrow>
     'g access_db \<Rightarrow> (string \<times> string) http_result \<times> 'g access_db" where
  "createMemberRoute svc is_email is_uuid now auth param body db =
     (case create_guard is_email is_uuid auth param body db of
        Inl e \<Rightarrow> (Inl e, db)
      | Inr tenantId \<Rightarrow>
          (case createUser svc (cm_email body) (cm_password body) (ac_auth db) of
             (Inl e, g) \<Rightarrow>
               ((if e = Misconfigured then errorResult 500 ''SERVER_MISCONFIGURED'' ''Auth service is not configured'' None
                 else if e \<in> {Upstream 400, Upstream 409, Upstream 422}
                 then errorResult 409 ''USER_EXISTS'' ''A user with that email already exists'' None
                 else errorResult 500 ''CREATE_MEMBER_FAILED'' ''Failed to create user'' None), db\<lparr> ac_auth := g \<rparr>)
           | (Inr createdUser, g) \<Rightarrow>
               (case record_member now tenantId (scoped_project (cm_role body) (cm_project_id body)) (ax_id createdUser)
                       (cm_role body) (db\<lparr> ac_auth := g \<rparr>) of
                  Inl _ \<Rightarrow>
                    (errorResult 500 ''CREATE_MEMBER_FAILED'' ''Failed to record membership for the new user'' None,
                     db\<lparr> ac_auth := snd (deleteUser svc (ax_id createdUser) g) \<rparr>)
                | Inr db' \<Rightarrow> (Inr (cm_email body, cm_role body), db'))))"

text \<open>The body of \<open>patchMemberRoleSchema\<close> is the role alone.\<close>

definition patchMemberRoleRoute ::
    "(string \<Rightarrow> bool) \<Rightarrow> auth_context \<Rightarrow> string \<Rightarrow> string \<Rightarrow> string \<Rightarrow> 'g access_db \<Rightarrow> (membership_row \<times> 'g access_db) http_result" where
  "patchMemberRoleRoute is_uuid auth param userParam role db =
     (if \<not> isManageableTenantRole role then invalid_body
      else sum_bind (requireTenantParamAccess is_uuid auth param) (\<lambda>tenantId.
        sum_bind (validateUuidParam is_uuid ''User ID'' userParam) (\<lambda>targetUserId.
        sum_bind (requireTenantCapability auth ''members.write_roles'' ''Access denied'') (\<lambda>_.
          case member_of tenantId targetUserId db of
            None \<Rightarrow> errorResult 404 ''NOT_FOUND'' ''User not found in this tenant'' None
          | Some existing \<Rightarrow>
              if ms_role existing = ''owner''
              then errorResult 409 ''INVALID_STATE'' ''Owner role cannot be changed through member management'' None
              else Inr (existing\<lparr> ms_role := role \<rparr>,
                        db\<lparr> ac_memberships := update_where (the_membership tenantId targetUserId)
                              (\<lambda>m. m\<lparr> ms_role := role \<rparr>) (ac_memberships db) \<rparr>)))))"

definition resetPasswordRoute ::
    "'g identity_service \<Rightarrow> (string \<Rightarrow> bool) \<Rightarrow> auth_context \<Rightarrow> string \<Rightarrow> string \<Rightarrow> string \<Rightarrow> 'g access_db \<Rightarrow>
     unit http_result \<times> 'g access_db" where
  "resetPasswordRoute svc is_uuid auth param userParam password db =
     (case (if length password < 8 then invalid_body
            else sum_bind (requireTenantParamAccess is_uuid auth param) (\<lambda>tenantId.
              sum_bind (validateUuidParam is_uuid ''User ID'' userParam) (\<lambda>targetUserId.
              sum_bind (requireTenantCapability auth ''members.reset_password'' ''Access denied'') (\<lambda>_.
              if member_of tenantId targetUserId db = None
              then errorResult 404 ''NOT_FOUND'' ''User not found in this tenant'' None
              else (case getUser svc targetUserId (ac_auth db) of
                 Inl e \<Rightarrow>
                   if e = Misconfigured then errorResult 500 ''SERVER_MISCONFIGURED'' ''Auth service is not configured'' None
                   else errorResult 500 ''RESET_FAILED'' ''Failed to reset password'' None
               | Inr None \<Rightarrow> errorResult 404 ''USER_NOT_FOUND'' ''User not found in auth system'' None
               | Inr (Some gotrueUser) \<Rightarrow>
                   if ax_provider gotrueUser \<noteq> Some ''email''
                   then errorResult 400 ''SSO_ACCOUNT'' ''Cannot reset password for SSO-managed accounts'' None
                   else Inr targetUserId))))) of
        Inl e \<Rightarrow> (Inl e, db)
      | Inr targetUserId \<Rightarrow>
          (case updateUser svc targetUserId password (ac_auth db) of
             (Inl e, g) \<Rightarrow>
               ((if e = Misconfigured then errorResult 500 ''SERVER_MISCONFIGURED'' ''Auth service is not configured'' None
                 else errorResult 500 ''RESET_FAILED'' ''Failed to reset password'' None), db\<lparr> ac_auth := g \<rparr>)
           | (Inr _, g) \<Rightarrow> (Inr (), db\<lparr> ac_auth := g \<rparr>)))"

section \<open>Grants\<close>

record grant_body =
  gb_email :: string
  gb_role :: string
  gb_project_id :: "string option"

definition inviteMemberSchema :: "(string \<Rightarrow> bool) \<Rightarrow> (string \<Rightarrow> bool) \<Rightarrow> grant_body \<Rightarrow> bool" where
  "inviteMemberSchema is_email is_uuid b =
     (is_email (gb_email b) \<and> isAssignableTenantRole (gb_role b) \<and> optional is_uuid (gb_project_id b))"

record grant_outcome =
  gr_outcome :: string
  gr_email :: string
  gr_role :: string
  gr_role_changed :: bool

definition unscoped_refused :: "auth_context \<Rightarrow> string option \<Rightarrow> bool" where
  "unscoped_refused auth scopedProjectId =
     (case tenant_role_of (au_role auth) of
        None \<Rightarrow> False
      | Some actor \<Rightarrow> \<not> canInviteWithoutProjectScope actor \<and> scopedProjectId = None)"

definition grant_guard ::
    "(string \<Rightarrow> bool) \<Rightarrow> (string \<Rightarrow> bool) \<Rightarrow> auth_context \<Rightarrow> string \<Rightarrow> grant_body \<Rightarrow> 'g access_db \<Rightarrow> string http_result" where
  "grant_guard is_email is_uuid auth param body db =
     (if \<not> inviteMemberSchema is_email is_uuid body then invalid_body
      else sum_bind (requireTenantParamAccess is_uuid auth param) (\<lambda>tenantId.
        let scopedProjectId = scoped_project (gb_role body) (gb_project_id body)
        in sum_bind (requireTenantCapability auth ''members.invite''
                       ''You do not have access to manage tenant access'') (\<lambda>_.
           if \<not> may_give canInviteTenantRole auth (gb_role body)
           then errorResult 403 ''FORBIDDEN'' (''You do not have access to grant users the role \"'' @ gb_role body @ ''\"'') None
           else if unscoped_refused auth scopedProjectId
           then errorResult 400 ''BAD_REQUEST'' ''You must specify a project_id for your current access level'' None
           else sum_bind (scope_guard auth scopedProjectId db) (\<lambda>_. Inr tenantId))))"

text \<open>The insert of a project member with \<open>onConflictDoNothing\<close> says whether it added a row.\<close>

definition add_project_member :: "string \<Rightarrow> string \<Rightarrow> string \<Rightarrow> 'g access_db \<Rightarrow> bool \<times> 'g access_db" where
  "add_project_member projectId tenantId userId db =
     (case insert_project_member projectId tenantId userId db of Inl _ \<Rightarrow> (False, db) | Inr db' \<Rightarrow> (True, db'))"

text \<open>The three ways of a grant: to a member, to a user of the identity service, to nobody known yet.\<close>

definition grant_to_member ::
    "string \<Rightarrow> string option \<Rightarrow> grant_body \<Rightarrow> membership_row \<Rightarrow> 'g access_db \<Rightarrow> grant_outcome http_result \<times> 'g access_db" where
  "grant_to_member tenantId scopedProjectId body existingMembership db =
     (let (projectAdded, db') =
            (case scopedProjectId of
               None \<Rightarrow> (False, db)
             | Some projectId \<Rightarrow> add_project_member projectId tenantId (ms_user_id existingMembership) db)
      in (Inr \<lparr> gr_outcome = (if present (gb_project_id body) \<noteq> None
                             then (if projectAdded then ''project_access_added'' else ''already_had_project_access'')
                             else ''already_in_tenant''),
                gr_email = gb_email body, gr_role = ms_role existingMembership, gr_role_changed = False \<rparr>, db'))"

definition grant_to_user ::
    "ms \<Rightarrow> string \<Rightarrow> string option \<Rightarrow> grant_body \<Rightarrow> auth_user \<Rightarrow> 'g access_db \<Rightarrow> grant_outcome http_result \<times> 'g access_db" where
  "grant_to_user now tenantId scopedProjectId body resolvedUser db =
     (case record_member now tenantId scopedProjectId (ax_id resolvedUser) (gb_role body) db of
        Inl e \<Rightarrow> (service_call (Inl e), db)
      | Inr db' \<Rightarrow>
          (Inr \<lparr> gr_outcome = (if scopedProjectId \<noteq> None then ''tenant_and_project_access_added'' else ''tenant_access_added''),
                gr_email = gb_email body, gr_role = gb_role body, gr_role_changed = False \<rparr>, db'))"

definition grant_by_invite ::
    "'g identity_service \<Rightarrow> ms \<Rightarrow> string \<Rightarrow> string option \<Rightarrow> grant_body \<Rightarrow> 'g access_db \<Rightarrow>
     grant_outcome http_result \<times> 'g access_db" where
  "grant_by_invite svc now tenantId scopedProjectId body db =
     (case inviteUser svc (gb_email body) (ac_auth db) of
        (Inl e, g) \<Rightarrow>
          ((if e = Misconfigured then errorResult 500 ''SERVER_MISCONFIGURED'' ''Invite service is not configured'' None
            else errorResult 500 ''INVITE_FAILED'' ''Failed to send invite email'' None), db\<lparr> ac_auth := g \<rparr>)
      | (Inr invitedUser, g) \<Rightarrow>
          let userPreExisted = (present (ax_email_confirmed_at invitedUser) \<noteq> None)
          in (case record_member now tenantId scopedProjectId (ax_id invitedUser) (gb_role body) (db\<lparr> ac_auth := g \<rparr>) of
                Inl _ \<Rightarrow>
                  (errorResult 500 ''INVITE_FAILED'' ''Failed to record membership for invited user'' None,
                   db\<lparr> ac_auth := (if userPreExisted then g else snd (deleteUser svc (ax_id invitedUser) g)) \<rparr>)
              | Inr db' \<Rightarrow>
                  (Inr \<lparr> gr_outcome = ''invite_sent'', gr_email = gb_email body, gr_role = gb_role body,
                         gr_role_changed = False \<rparr>, db')))"

definition grant_resolved ::
    "'g identity_service \<Rightarrow> ms \<Rightarrow> string \<Rightarrow> string option \<Rightarrow> grant_body \<Rightarrow> auth_error + auth_user option \<Rightarrow> 'g access_db \<Rightarrow>
     grant_outcome http_result \<times> 'g access_db" where
  "grant_resolved svc now tenantId scopedProjectId body resolved db =
     (case resolved of
        Inl e \<Rightarrow>
          ((if e = Misconfigured then errorResult 500 ''SERVER_MISCONFIGURED'' ''Auth service is not configured'' None
            else errorResult 500 ''LOOKUP_FAILED'' ''Failed to resolve user by email'' None), db)
      | Inr None \<Rightarrow> grant_by_invite svc now tenantId scopedProjectId body db
      | Inr (Some resolvedUser) \<Rightarrow>
          (case member_of tenantId (ax_id resolvedUser) db of
             Some existingMembership \<Rightarrow> grant_to_member tenantId scopedProjectId body existingMembership db
           | None \<Rightarrow> grant_to_user now tenantId scopedProjectId body resolvedUser db))"

definition grantTenantAccess ::
    "'g identity_service \<Rightarrow> (string \<Rightarrow> bool) \<Rightarrow> (string \<Rightarrow> bool) \<Rightarrow> ms \<Rightarrow> auth_context \<Rightarrow> string \<Rightarrow> grant_body \<Rightarrow>
     'g access_db \<Rightarrow> (grant_outcome http_result \<times> 'g access_db) option" where
  "grantTenantAccess svc is_email is_uuid now auth param body db =
     (case grant_guard is_email is_uuid auth param body db of
        Inl e \<Rightarrow> Some (Inl e, db)
      | Inr tenantId \<Rightarrow>
          map_option (\<lambda>resolved. grant_resolved svc now tenantId (scoped_project (gb_role body) (gb_project_id body)) body resolved db)
            (findUserByEmail svc (gb_email body) (ac_auth db)))"

section \<open>Name and entitlements\<close>

record tenant_row =
  te_id :: string
  te_name :: string
  te_kind :: string
  te_created_at :: ms
  te_updated_at :: ms

definition getTenantRoute :: "(string \<Rightarrow> bool) \<Rightarrow> auth_context \<Rightarrow> string \<Rightarrow> tenant_row list \<Rightarrow> tenant_row http_result" where
  "getTenantRoute is_uuid auth param rows =
     sum_bind (requireTenantCapabilityAccess is_uuid auth ''overview.read'' ''Access denied'' param) (\<lambda>tenantId.
       case first_row (\<lambda>t. te_id t = tenantId) rows of
         None \<Rightarrow> errorResult 404 ''NOT_FOUND'' ''Tenant not found'' None
       | Some tenant \<Rightarrow> Inr tenant)"

text \<open>The schema trims the name before it measures it.\<close>

definition patchTenantSchema :: "string \<Rightarrow> string option" where
  "patchTenantSchema name =
     (let trimmed = js_trim name in if 1 \<le> length trimmed \<and> length trimmed \<le> 100 then Some trimmed else None)"

definition patchTenantRoute ::
    "(string \<Rightarrow> bool) \<Rightarrow> ms \<Rightarrow> auth_context \<Rightarrow> string \<Rightarrow> string \<Rightarrow> tenant_row list \<Rightarrow> (tenant_row \<times> tenant_row list) http_result" where
  "patchTenantRoute is_uuid now auth param body rows =
     (case patchTenantSchema body of
        None \<Rightarrow> invalid_body
      | Some name \<Rightarrow>
          sum_bind (requireTenantCapabilityAccess is_uuid auth ''tenant.name.write'' ''Access denied'' param) (\<lambda>tenantId.
            let rows' = update_where (\<lambda>t. te_id t = tenantId) (\<lambda>t. t\<lparr> te_name := name, te_updated_at := now \<rparr>) rows
            in case first_row (\<lambda>t. te_id t = tenantId) rows' of
                 None \<Rightarrow> errorResult 404 ''NOT_FOUND'' ''Tenant not found'' None
               | Some tenant \<Rightarrow> Inr (tenant, rows')))"

record entitlements_body =
  eb_allowed_ecosystems :: "string list option"
  eb_serve_mode :: "string option"
  eb_cache_ttl_seconds :: "int option"
  eb_mcp_enabled :: "bool option"

definition SERVE_MODES :: "string list" where
  "SERVE_MODES = [''SERVE_MODE_REDIRECT'', ''SERVE_MODE_PULL'']"

definition putEntitlementsSchema :: "entitlements_body \<Rightarrow> bool" where
  "putEntitlementsSchema b =
     (optional (\<lambda>m. m \<in> set SERVE_MODES) (eb_serve_mode b) \<and>
      optional (\<lambda>n. 30 \<le> n \<and> n \<le> 86400) (eb_cache_ttl_seconds b))"

definition default_entitlements :: "string \<Rightarrow> entitlement_row" where
  "default_entitlements tenantId =
     \<lparr> en_tenant_id = tenantId, en_allowed_ecosystems = None, en_serve_mode = ''SERVE_MODE_REDIRECT'',
       en_cache_ttl_seconds = 300, en_mcp_enabled = False \<rparr>"

definition getEntitlementsRoute ::
    "(string \<Rightarrow> bool) \<Rightarrow> auth_context \<Rightarrow> string \<Rightarrow> entitlement_row list \<Rightarrow> entitlement_row http_result" where
  "getEntitlementsRoute is_uuid auth param rows =
     sum_bind (requireTenantCapabilityAccess is_uuid auth ''settings.read'' ''Access denied'' param) (\<lambda>tenantId.
       Inr (default (default_entitlements tenantId) (first_row (\<lambda>e. en_tenant_id e = tenantId) rows)))"

definition set_entitlements :: "entitlements_body \<Rightarrow> entitlement_row \<Rightarrow> entitlement_row" where
  "set_entitlements body e =
     e\<lparr> en_allowed_ecosystems := eb_allowed_ecosystems body,
        en_serve_mode := default (en_serve_mode e) (eb_serve_mode body),
        en_cache_ttl_seconds := default (en_cache_ttl_seconds e) (eb_cache_ttl_seconds body),
        en_mcp_enabled := default (en_mcp_enabled e) (eb_mcp_enabled body) \<rparr>"

definition putEntitlementsRoute ::
    "(string \<Rightarrow> bool) \<Rightarrow> auth_context \<Rightarrow> string \<Rightarrow> entitlements_body \<Rightarrow> entitlement_row list \<Rightarrow>
     (entitlement_row \<times> entitlement_row list) http_result" where
  "putEntitlementsRoute is_uuid auth param body rows =
     (if \<not> putEntitlementsSchema body then invalid_body
      else sum_bind (requireTenantCapabilityAccess is_uuid auth ''settings.write'' ''Access denied'' param) (\<lambda>tenantId.
        case first_row (\<lambda>e. en_tenant_id e = tenantId) rows of
          Some existing \<Rightarrow>
            Inr (set_entitlements body existing,
                 update_where (\<lambda>e. en_tenant_id e = tenantId) (set_entitlements body) rows)
        | None \<Rightarrow>
            let row = set_entitlements body (default_entitlements tenantId) in Inr (row, rows @ [row])))"

section \<open>Reading all users\<close>

text \<open>
  What the documentation of the identity service promises of its pages: a page is its slice of the
  users, and the total, when there is one, their number.
\<close>

definition serves_pages :: "'g identity_service \<Rightarrow> 'g \<Rightarrow> auth_user list \<Rightarrow> bool" where
  "serves_pages svc g users =
     (\<forall>page size. 0 < page \<longrightarrow>
        (\<exists>t \<in> {None, Some (int (length users))}.
           go_page svc g page size = Inr \<lparr> pg_users = Some (take size (drop ((page - 1) * size) users)), pg_total = t \<rparr>))"

lemma paginated_from:
  assumes pages: "serves_pages svc g users" and size: "0 < n"
  shows "requestPaginated (go_page svc g) n (k + 1) (take (k * n) users) = Some (Inr users)"
proof (induction "length users - k * n" arbitrary: k rule: less_induct)
  case less
  obtain t where t: "t \<in> {None, Some (int (length users))}"
    and page: "go_page svc g (k + 1) n = Inr \<lparr> pg_users = Some (take n (drop (k * n) users)), pg_total = t \<rparr>"
    using pages unfolding serves_pages_def by (metis add_diff_cancel_right' less_add_one add_gr_0 zero_less_one)
  have joined: "take (k * n) users @ take n (drop (k * n) users) = take ((k + 1) * n) users"
    by (simp add: take_add [symmetric] add.commute)
  show ?case
  proof (cases "length users < (k + 1) * n")
    case True
    with size have "length (take n (drop (k * n) users)) < n" by auto
    with True page joined show ?thesis
      by (subst requestPaginated.simps) (simp add: default_def split: option.split)
  next
    case False
    then have more: "length users - (k + 1) * n < length users - k * n" using size by simp
    from less.hyps [OF more] have rest:
      "requestPaginated (go_page svc g) n (Suc (Suc k)) (take ((k + 1) * n) users) = Some (Inr users)" by simp
    from False t page joined rest show ?thesis
      by (subst requestPaginated.simps) (auto simp: default_def min_def split: option.split)
  qed
qed

text \<open>A service that repeats a full page and tells no total is asked for ever.\<close>

lemma repeated_page_never_ends:
  assumes "\<And>page. fetch page n = Inr \<lparr> pg_users = Some us, pg_total = None \<rparr>" and "n \<le> length us"
  shows "requestPaginated fetch n page items = None"
proof -
  have "\<not> (f = fetch \<and> m = n)" if returns: "requestPaginated f m page items = Some r" for f m page items r
    by (rule requestPaginated.raw_induct [where P = "\<lambda>f m page items r. \<not> (f = fetch \<and> m = n)", OF _ returns])
      (use assms in \<open>auto simp: default_def Let_def split: sum.splits if_splits\<close>)
  then show ?thesis by (cases "requestPaginated fetch n page items") blast+
qed

text \<open>
  C27: reading the users of the identity service ends and is complete. With pages served as documented,
  whatever the page size, the loop returns, with every user in order; a lookup by e-mail address then
  finds the first user with the address, up to case and outer blanks, exactly when there is one.
\<close>

theorem listing_users_terminates:
  assumes "go_configured svc" and "serves_pages svc g users" and "0 < pageSize"
  shows "listUsers svc pageSize g = Some (Inr users) \<and>
    (js_trim email \<noteq> [] \<longrightarrow>
       findUserByEmail svc email g = Some (Inr (find (same_email (js_toLowerCase (js_trim email))) users)))"
proof -
  have listed: "listUsers svc n g = Some (Inr users)" if "0 < n" for n
    using paginated_from [OF assms(2) that, of 0] assms(1) by (simp add: listUsers_def)
  moreover have "js_toLowerCase s = [] \<longleftrightarrow> s = []" for s by (simp add: js_toLowerCase_def)
  ultimately show ?thesis using assms(3) by (simp add: findUserByEmail_def Let_def)
qed

definition sample_user :: "string \<Rightarrow> auth_user" where
  "sample_user i = \<lparr> ax_id = i, ax_email = Some (i @ ''@X.org ''), ax_email_confirmed_at = None, ax_last_sign_in_at = None,
                     ax_provider = Some ''email'' \<rparr>"

text \<open>A service whose state is the list of its users.\<close>

definition sample_service :: "auth_user list identity_service" where
  "sample_service =
     \<lparr> go_configured = True,
       go_page = (\<lambda>g page n. Inr \<lparr> pg_users = Some (take n (drop ((page - 1) * n) g)), pg_total = None \<rparr>),
       go_invite = (\<lambda>email g. (Inr (sample_user email), g @ [sample_user email])),
       go_create = (\<lambda>email _ g. (Inr (sample_user email), g @ [sample_user email])),
       go_delete = (\<lambda>i g. (Inr (), filter (\<lambda>u. ax_id u \<noteq> i) g)),
       go_get = (\<lambda>i g. case find (\<lambda>u. ax_id u = i) g of None \<Rightarrow> Inl (Upstream 404) | Some u \<Rightarrow> Inr u),
       go_update = (\<lambda>_ _ g. (Inr (), g)) \<rparr>"

theorem listing_users_terminates_witness:
  "listUsers sample_service 2 (map sample_user [''a'', ''b'', ''c'']) = Some (Inr (map sample_user [''a'', ''b'', ''c''])) \<and>
   findUserByEmail sample_service '' B@x.org'' (map sample_user [''a'', ''b'', ''c'']) = Some (Inr (Some (sample_user ''b'')))"
proof -
  let ?users = "map sample_user [''a'', ''b'', ''c'']"
  have "go_configured sample_service" "serves_pages sample_service ?users ?users"
    by (simp_all add: sample_service_def serves_pages_def)
  from listing_users_terminates [OF this, of 2 "'' B@x.org''"]
  have "listUsers sample_service 2 ?users = Some (Inr ?users)"
    "js_trim '' B@x.org'' \<noteq> [] \<longrightarrow> findUserByEmail sample_service '' B@x.org'' ?users =
       Some (Inr (find (same_email (js_toLowerCase (js_trim '' B@x.org''))) ?users))" by simp_all
  moreover have "js_trim '' B@x.org'' \<noteq> []" by code_simp
  moreover have "find (same_email (js_toLowerCase (js_trim '' B@x.org''))) ?users = Some (sample_user ''b'')" by code_simp
  ultimately show ?thesis by simp
qed

section \<open>Who is a member\<close>

definition member_key :: "membership_row \<Rightarrow> (string \<times> string) option" where
  "member_key m = Some (ms_tenant_id m, ms_user_id m)"

text \<open>
  The unique index of the memberships, the key of the projects, and that the members of a project are recorded with its
  tenant.
\<close>

definition access_ok :: "'g access_db \<Rightarrow> bool" where
  "access_ok db =
     (unique_key member_key (ac_memberships db) \<and> unique_key (\<lambda>p. Some (pj_id p)) (ac_projects db) \<and>
      (\<forall>m \<in> set (ac_members db). \<forall>p \<in> set (ac_projects db). pj_id p = mb_project_id m \<longrightarrow> pj_tenant_id p = mb_tenant_id m))"

text \<open>The requests of a caller, successful or not.\<close>

inductive access_step :: "'g identity_service \<Rightarrow> auth_context \<Rightarrow> 'g access_db \<Rightarrow> 'g access_db \<Rightarrow> bool" for svc auth where
  create: "createMemberRoute svc is_email is_uuid now auth param body db = (result, db') \<Longrightarrow> access_step svc auth db db'"
| role: "patchMemberRoleRoute is_uuid auth param userParam role db = Inr (m, db') \<Longrightarrow> access_step svc auth db db'"
| reset: "resetPasswordRoute svc is_uuid auth param userParam password db = (result, db') \<Longrightarrow> access_step svc auth db db'"
| grant: "grantTenantAccess svc is_email is_uuid now auth param body db = Some (result, db') \<Longrightarrow> access_step svc auth db db'"

lemma record_member_Inr:
  assumes "record_member now tenantId scoped userId role db = Inr db'"
  shows "ac_memberships db' = ac_memberships db @
      [\<lparr> ms_tenant_id = tenantId, ms_user_id = userId, ms_role = role, ms_created_at = now \<rparr>] \<and>
    \<not> list_ex (the_membership tenantId userId) (ac_memberships db) \<and> ac_projects db' = ac_projects db \<and>
    ac_members db' = ac_members db @
      (case scoped of None \<Rightarrow> []
       | Some p \<Rightarrow> [\<lparr> mb_project_id = p, mb_tenant_id = tenantId, mb_user_id = userId \<rparr>])"
  using assms
  by (auto simp: record_member_def insert_membership_def insert_project_member_def sum_bind_Inr_iff split: if_splits option.splits)

lemma requireTenantParam_Inr:
  "requireTenantParamAccess is_uuid auth param = Inr t \<longleftrightarrow> is_uuid param \<and> t = param \<and> param = au_tenantId auth"
  by (auto simp: requireTenantParamAccess_def validateUuidParam_def errorResult_def)

lemma resolve_Inr:
  "resolveProjectWithAccess p auth hide projects members = Inr project \<Longrightarrow>
   project \<in> set projects \<and> pj_id project = p \<and> pj_tenant_id project = au_tenantId auth"
  by (auto simp: resolveProjectWithAccess_def current_project_def first_row_def errorResult_def dest!: find_SomeD
      split: option.splits if_splits)

lemma scope_guard_Inr:
  "scope_guard auth scoped db = Inr () \<Longrightarrow> scoped = Some p \<Longrightarrow>
   \<exists>project \<in> set (ac_projects db). pj_id project = p \<and> pj_tenant_id project = au_tenantId auth"
  by (auto simp: scope_guard_def sum_bind_Inr_iff dest!: resolve_Inr)

lemma create_guard_Inr:
  "create_guard is_email is_uuid auth param body db = Inr t \<Longrightarrow>
   t = au_tenantId auth \<and> may_give canDirectCreateTenantRole auth (cm_role body) \<and>
   scope_guard auth (scoped_project (cm_role body) (cm_project_id body)) db = Inr ()"
  by (auto simp: create_guard_def route_simps requireTenantParam_Inr split: if_splits)

lemma grant_guard_Inr:
  "grant_guard is_email is_uuid auth param body db = Inr t \<Longrightarrow>
   t = au_tenantId auth \<and> may_give canInviteTenantRole auth (gb_role body) \<and>
   scope_guard auth (scoped_project (gb_role body) (gb_project_id body)) db = Inr ()"
  by (auto simp: grant_guard_def route_simps requireTenantParam_Inr Let_def split: if_splits)

text \<open>
  What a request may do: add at most one member to a project, of the tenant of the project, and to
  the memberships nothing, a new row, or a new role of an old row.
\<close>

definition members_added :: "'g access_db \<Rightarrow> 'g access_db \<Rightarrow> bool" where
  "members_added db db' =
     (ac_projects db' = ac_projects db \<and>
      (ac_members db' = ac_members db \<or>
       (\<exists>m p. ac_members db' = ac_members db @ [m] \<and> p \<in> set (ac_projects db) \<and> pj_id p = mb_project_id m \<and>
              pj_tenant_id p = mb_tenant_id m)))"

definition appointed :: "auth_context \<Rightarrow> membership_row \<Rightarrow> 'g access_db \<Rightarrow> bool" where
  "appointed auth m db =
     (ms_tenant_id m = au_tenantId auth \<and>
      (may_give canInviteTenantRole auth (ms_role m) \<or> may_give canDirectCreateTenantRole auth (ms_role m)) \<and>
      \<not> list_ex (the_membership (ms_tenant_id m) (ms_user_id m)) (ac_memberships db))"

definition reassigned :: "auth_context \<Rightarrow> string \<Rightarrow> string \<Rightarrow> 'g access_db \<Rightarrow> bool" where
  "reassigned auth userId role db =
     (requireTenantCapability auth ''members.write_roles'' ''Access denied'' = Inr () \<and> isManageableTenantRole role \<and>
      (\<exists>m. member_of (au_tenantId auth) userId db = Some m \<and> ms_role m \<noteq> ''owner''))"

definition access_change :: "auth_context \<Rightarrow> 'g access_db \<Rightarrow> 'g access_db \<Rightarrow> bool" where
  "access_change auth db db' =
     (members_added db db' \<and>
      (ac_memberships db' = ac_memberships db \<or>
       (\<exists>m. ac_memberships db' = ac_memberships db @ [m] \<and> appointed auth m db) \<or>
       (\<exists>u role. reassigned auth u role db \<and>
          ac_memberships db' = update_where (the_membership (au_tenantId auth) u) (\<lambda>m. m\<lparr> ms_role := role \<rparr>) (ac_memberships db))))"

lemma access_change_auth [simp]:
  "access_change auth db (db\<lparr> ac_auth := g \<rparr>)" "access_change auth (db\<lparr> ac_auth := g \<rparr>) db' = access_change auth db db'"
  by (simp_all add: access_change_def members_added_def appointed_def reassigned_def member_of_def)

lemma access_change_refl [simp]: "access_change auth db db"
  by (simp add: access_change_def members_added_def)

lemma record_member_change:
  assumes "record_member now (au_tenantId auth) scoped userId role db = Inr db'"
    and "scope_guard auth scoped db = Inr ()"
    and "may_give canInviteTenantRole auth role \<or> may_give canDirectCreateTenantRole auth role"
  shows "access_change auth db db'"
  using record_member_Inr [OF assms(1)] scope_guard_Inr [OF assms(2)] assms(3)
  by (auto simp: access_change_def members_added_def appointed_def split: option.splits)

lemma scope_guard_auth [simp]: "scope_guard auth scoped (db\<lparr> ac_auth := g \<rparr>) = scope_guard auth scoped db"
  by (simp add: scope_guard_def split: option.split)

lemma create_change:
  "createMemberRoute svc is_email is_uuid now auth param body db = (result, db') \<Longrightarrow> access_change auth db db'"
  by (auto simp: createMemberRoute_def dest!: create_guard_Inr record_member_change split: sum.splits prod.splits)

lemma add_project_member_change:
  "add_project_member p (au_tenantId auth) u db = (added, db') \<Longrightarrow> scope_guard auth (Some p) db = Inr () \<Longrightarrow>
   access_change auth db db'"
  using scope_guard_Inr [of auth "Some p" db p]
  by (auto simp: add_project_member_def insert_project_member_def access_change_def members_added_def split: if_splits)

lemma grant_to_member_change:
  "grant_to_member (au_tenantId auth) scoped body m db = (result, db') \<Longrightarrow> scope_guard auth scoped db = Inr () \<Longrightarrow>
   access_change auth db db'"
  by (auto simp: grant_to_member_def Let_def case_prod_beta add_project_member_change [OF prod.collapse [symmetric]]
      split: option.splits)

lemma grant_change:
  assumes "grantTenantAccess svc is_email is_uuid now auth param body db = Some (result, db')"
  shows "access_change auth db db'"
proof (cases "grant_guard is_email is_uuid auth param body db")
  case (Inr t)
  let ?scoped = "scoped_project (gb_role body) (gb_project_id body)"
  from grant_guard_Inr [OF Inr] have t: "t = au_tenantId auth" and may: "may_give canInviteTenantRole auth (gb_role body)"
    and guard: "scope_guard auth ?scoped db = Inr ()" by simp_all
  have recorded: "access_change auth db db'" if "record_member now t ?scoped u (gb_role body) (db\<lparr> ac_auth := g \<rparr>) = Inr db'" for u g db'
    using record_member_change [OF that [unfolded t]] guard may by simp
  have user: "access_change auth db db'" if "grant_to_user now t ?scoped body u db = (result, db')" for u
    using that recorded [of "ax_id u" "ac_auth db"] by (auto simp: grant_to_user_def split: sum.splits)
  have invite: "access_change auth db db'" if "grant_by_invite svc now t ?scoped body db = (result, db')"
    using that by (auto simp: grant_by_invite_def Let_def dest!: recorded split: sum.splits prod.splits)
  from assms Inr obtain resolved where "grant_resolved svc now t ?scoped body resolved db = (result, db')"
    by (auto simp: grantTenantAccess_def)
  then show ?thesis
    using user invite grant_to_member_change [OF _ guard] t
    by (auto simp: grant_resolved_def split: sum.splits option.splits)
qed (use assms in \<open>simp add: grantTenantAccess_def\<close>)

lemma reassigned_change:
  "reassigned auth u role db \<Longrightarrow>
   access_change auth db (db\<lparr> ac_memberships := update_where (the_membership (au_tenantId auth) u) (\<lambda>m. m\<lparr> ms_role := role \<rparr>)
                               (ac_memberships db) \<rparr>)"
  unfolding access_change_def by (intro conjI disjI2 exI) (auto simp: members_added_def)

lemma role_change:
  "patchMemberRoleRoute is_uuid auth param userParam role db = Inr (m, db') \<Longrightarrow> access_change auth db db'"
  by (cases "member_of (au_tenantId auth) userParam db")
    (auto simp: patchMemberRoleRoute_def route_simps requireTenantParam_Inr validateUuidParam_def reassigned_def
      intro!: reassigned_change split: if_splits)

lemma reset_change:
  "resetPasswordRoute svc is_uuid auth param userParam password db = (result, db') \<Longrightarrow> access_change auth db db'"
  by (auto simp: resetPasswordRoute_def split: sum.splits prod.splits)

lemma access_step_change: "access_step svc auth db db' \<Longrightarrow> access_change auth db db'"
  by (induction rule: access_step.induct) (auto intro: create_change role_change reset_change grant_change)

lemma role_names:
  "tenant_role_of ''owner'' = Some Owner" "tenant_role_of ''admin'' = Some Admin"
  by code_simp+

lemma all_roles: "list_all P TENANT_ROLES \<Longrightarrow> P r"
  by (cases r) (simp_all add: TENANT_ROLES_def)

lemma never_given: "\<not> (canInviteTenantRole actor Owner \<or> canDirectCreateTenantRole actor Owner)"
  by (rule all_roles [of "\<lambda>actor. \<not> (canInviteTenantRole actor Owner \<or> canDirectCreateTenantRole actor Owner)"]) code_simp

lemma given_admin:
  "canInviteTenantRole actor Admin \<or> canDirectCreateTenantRole actor Admin \<longrightarrow> mt_ownerLevel (TENANT_ROLE_METADATA actor)"
  by (rule all_roles [of "\<lambda>actor. canInviteTenantRole actor Admin \<or> canDirectCreateTenantRole actor Admin \<longrightarrow>
        mt_ownerLevel (TENANT_ROLE_METADATA actor)"]) code_simp

lemma canPerform_listed: "canPerform r c cx \<Longrightarrow> c \<in> set (ROLE_CAPABILITIES r)"
  by (rule ccontr) (simp only: canPerform_def if_True if_cancel not_False_eq_True)

lemma writes_roles:
  assumes "requireTenantCapability auth ''members.write_roles'' ''Access denied'' = Inr ()"
  shows "isOwnerOrAdmin (au_role auth)"
proof -
  have level: "list_ex (\<lambda>c. c = ''members.write_roles'') (ROLE_CAPABILITIES r) \<longrightarrow> mt_ownerLevel (TENANT_ROLE_METADATA r)" for r
    by (rule all_roles [of "\<lambda>r. list_ex (\<lambda>c. c = ''members.write_roles'') (ROLE_CAPABILITIES r) \<longrightarrow>
          mt_ownerLevel (TENANT_ROLE_METADATA r)"]) code_simp
  obtain r where r: "tenant_role_of (au_role auth) = Some r"
    and can: "canPerform r ''members.write_roles'' (no_context\<lparr> cp_tenantKind := Some (au_tenantKind auth) \<rparr>)"
    using assms by (simp add: requireTenantCapability_def errorResult_def split: option.splits if_splits)
  from canPerform_listed [OF can] level [of r] have "mt_ownerLevel (TENANT_ROLE_METADATA r)" by (simp only: list_ex_iff) blast
  with r show ?thesis by (simp add: isOwnerOrAdmin_def role_flag_def)
qed

lemma appointed_role:
  assumes "appointed auth m db"
  shows "ms_role m \<noteq> ''owner''" and "ms_role m = ''admin'' \<Longrightarrow> isOwnerOrAdmin (au_role auth)"
proof -
  from assms obtain actor target where roles: "tenant_role_of (au_role auth) = Some actor" "tenant_role_of (ms_role m) = Some target"
    and gives: "canInviteTenantRole actor target \<or> canDirectCreateTenantRole actor target"
    by (auto simp: appointed_def may_give_def split: option.splits)
  have "target = Owner" if "ms_role m = ''owner''" using roles(2) unfolding that role_names by simp
  with gives never_given show "ms_role m \<noteq> ''owner''" by blast
  assume "ms_role m = ''admin''"
  with roles(2) have "target = Admin" by (simp only: role_names option.inject)
  with gives given_admin have "mt_ownerLevel (TENANT_ROLE_METADATA actor)" by blast
  with roles(1) show "isOwnerOrAdmin (au_role auth)" by (simp add: isOwnerOrAdmin_def role_flag_def)
qed

lemma the_member_unique:
  assumes "unique_key member_key rows" and "first_row (the_membership t u) rows = Some m" and "x \<in> set rows" and "the_membership t u x"
  shows "x = m"
proof -
  have "m \<in> set rows" "the_membership t u m" using find_SomeD assms(2) unfolding first_row_def by fast+
  with assms(1,3,4) show ?thesis
    by (intro unique_key_inj [of member_key rows]) (simp_all add: the_membership_def member_key_def)
qed

text \<open>One change, for the rows and for the invariant.\<close>

lemma access_change_ok:
  assumes "access_change auth db db'" and "access_ok db"
  shows "access_ok db'"
proof -
  have "unique_key member_key (ac_memberships db')"
    using assms
    by (auto simp: access_change_def access_ok_def appointed_def list_ex_iff the_membership_def member_key_def unique_key_append
        unique_key_map_same update_where_def)
  moreover have "pj_tenant_id p = mb_tenant_id m"
    if m: "m \<in> set (ac_members db')" and p: "p \<in> set (ac_projects db')" "pj_id p = mb_project_id m" for m p
  proof -
    have projects: "ac_projects db' = ac_projects db" using assms(1) by (simp add: access_change_def members_added_def)
    show ?thesis
    proof (cases "m \<in> set (ac_members db)")
      case False
      with m assms(1) obtain q where "q \<in> set (ac_projects db)" "pj_id q = mb_project_id m" "pj_tenant_id q = mb_tenant_id m"
        by (auto simp: access_change_def members_added_def)
      with p projects assms(2) unique_key_inj [of "\<lambda>p. Some (pj_id p)" "ac_projects db" p q] show ?thesis
        by (simp add: access_ok_def)
    qed (use p projects assms(2) in \<open>auto simp: access_ok_def\<close>)
  qed
  ultimately show ?thesis using assms by (auto simp: access_ok_def access_change_def members_added_def)
qed

lemma access_change_owners:
  assumes "access_change auth db db'" and "access_ok db"
  shows "{m \<in> set (ac_memberships db'). ms_role m = ''owner''} = {m \<in> set (ac_memberships db). ms_role m = ''owner''}"
proof -
  consider (same) "ac_memberships db' = ac_memberships db"
    | (new) m where "ac_memberships db' = ac_memberships db @ [m]" "appointed auth m db"
    | (changed) u role where "reassigned auth u role db" "ac_memberships db' =
        update_where (the_membership (au_tenantId auth) u) (\<lambda>m. m\<lparr> ms_role := role \<rparr>) (ac_memberships db)"
    using assms(1) unfolding access_change_def by blast
  then show ?thesis
  proof cases
    case changed
    then obtain m where m: "member_of (au_tenantId auth) u db = Some m" "ms_role m \<noteq> ''owner''" and role: "role \<noteq> ''owner''"
      by (auto simp: reassigned_def isManageableTenantRole_def)
    have "ms_role x \<noteq> ''owner''" if "x \<in> set (ac_memberships db)" "the_membership (au_tenantId auth) u x" for x
      using the_member_unique [OF _ _ that] m assms(2) by (auto simp: access_ok_def member_of_def)
    with role show ?thesis unfolding changed(2) update_where_def by auto
  qed (use appointed_role in auto)
qed

text \<open>
  C28: memberships change only as the caller's role allows. One request to the member administration,
  from whomever, keeps the members of every other tenant as they were and removes nobody; a row that
  is new or has a new role is of the caller's tenant and never an owner's, an admin is made only by an
  owner or an admin, and the owners are exactly who they were. The unique index of the memberships and
  the tenant of the project members are kept.
\<close>

theorem membership_changes_governed:
  assumes "access_step svc auth db db'" and "access_ok db"
  shows "access_ok db' \<and>
    {m \<in> set (ac_memberships db'). ms_role m = ''owner''} = {m \<in> set (ac_memberships db). ms_role m = ''owner''} \<and>
    (\<forall>m' \<in> set (ac_memberships db'). m' \<notin> set (ac_memberships db) \<longrightarrow>
       ms_tenant_id m' = au_tenantId auth \<and> ms_role m' \<noteq> ''owner'' \<and>
       (ms_role m' = ''admin'' \<longrightarrow> isOwnerOrAdmin (au_role auth))) \<and>
    (\<forall>m \<in> set (ac_memberships db). \<exists>m' \<in> set (ac_memberships db'). member_key m' = member_key m \<and>
       (ms_tenant_id m \<noteq> au_tenantId auth \<longrightarrow> m' = m))"
proof -
  note change = access_step_change [OF assms(1)]
  then consider (same) "ac_memberships db' = ac_memberships db"
    | (new) m where "ac_memberships db' = ac_memberships db @ [m]" "appointed auth m db"
    | (changed) u role where "reassigned auth u role db" "ac_memberships db' =
        update_where (the_membership (au_tenantId auth) u) (\<lambda>m. m\<lparr> ms_role := role \<rparr>) (ac_memberships db)"
    unfolding access_change_def by blast
  then have rows: "(\<forall>m' \<in> set (ac_memberships db'). m' \<notin> set (ac_memberships db) \<longrightarrow>
       ms_tenant_id m' = au_tenantId auth \<and> ms_role m' \<noteq> ''owner'' \<and> (ms_role m' = ''admin'' \<longrightarrow> isOwnerOrAdmin (au_role auth))) \<and>
    (\<forall>m \<in> set (ac_memberships db). \<exists>m' \<in> set (ac_memberships db'). member_key m' = member_key m \<and>
       (ms_tenant_id m \<noteq> au_tenantId auth \<longrightarrow> m' = m))"
  proof cases
    case new
    with appointed_role [OF new(2)] show ?thesis by (auto simp: appointed_def)
  next
    case changed
    then have "role \<noteq> ''owner''" "isOwnerOrAdmin (au_role auth)"
      by (auto simp: reassigned_def isManageableTenantRole_def intro: writes_roles)
    moreover have "\<exists>m' \<in> set (ac_memberships db'). member_key m' = member_key m \<and> (ms_tenant_id m \<noteq> au_tenantId auth \<longrightarrow> m' = m)"
      if "m \<in> set (ac_memberships db)" for m
      using that unfolding changed(2) update_where_def set_map
      by (rule image_eqI [OF refl, THEN rev_bexI]) (simp add: the_membership_def member_key_def)
    ultimately show ?thesis by (auto simp: changed(2) update_where_def the_membership_def)
  qed auto
  show ?thesis using access_change_ok [OF change assms(2)] access_change_owners [OF change assms(2)] rows by blast
qed

text \<open>
  Nobody becomes or ceases to be an owner through the member administration. Whatever requests
  whatever callers make, one after the other, the rows of the owners stay the same.
\<close>

theorem owners_fixed:
  assumes "(\<lambda>db db'. \<exists>auth. access_step svc auth db db')\<^sup>*\<^sup>* db db'" and "access_ok db"
  shows "access_ok db' \<and>
    {m \<in> set (ac_memberships db'). ms_role m = ''owner''} = {m \<in> set (ac_memberships db). ms_role m = ''owner''}"
  using assms
  by (induction rule: rtranclp_induct)
    (use access_step_change access_change_ok access_change_owners in \<open>blast+\<close>)

definition access_auth :: "string \<Rightarrow> auth_context" where
  "access_auth role = \<lparr> au_tenantId = ''t'', au_tenantKind = ''customer'', au_userId = ''a'', au_role = role \<rparr>"

definition sample_access :: "auth_user list access_db" where
  "sample_access =
     \<lparr> ac_memberships = [\<lparr> ms_tenant_id = ''t'', ms_user_id = ''o'', ms_role = ''owner'', ms_created_at = 0 \<rparr>,
                         \<lparr> ms_tenant_id = ''t'', ms_user_id = ''g'', ms_role = ''guest'', ms_created_at = 0 \<rparr>],
       ac_projects = [\<lparr> pj_id = ''p'', pj_tenant_id = ''t'', pj_name = ''p'', pj_effective_from = 0, pj_effective_to = None, pj_created_at = 0 \<rparr>],
       ac_members = [], ac_auth = map sample_user [''o'', ''g''] \<rparr>"

lemma sample_access_ok: "access_ok sample_access"
  by (simp add: access_ok_def sample_access_def unique_key_Cons member_key_def)

definition promoted_access :: "auth_user list access_db" where
  "promoted_access = sample_access\<lparr> ac_memberships :=
     [\<lparr> ms_tenant_id = ''t'', ms_user_id = ''o'', ms_role = ''owner'', ms_created_at = 0 \<rparr>,
      \<lparr> ms_tenant_id = ''t'', ms_user_id = ''g'', ms_role = ''admin'', ms_created_at = 0 \<rparr>] \<rparr>"

lemma sample_promotion:
  "patchMemberRoleRoute anything (access_auth ''admin'') ''t'' ''g'' ''admin'' sample_access =
     Inr (\<lparr> ms_tenant_id = ''t'', ms_user_id = ''g'', ms_role = ''admin'', ms_created_at = 0 \<rparr>, promoted_access)"
  by code_simp

theorem membership_changes_governed_witness:
  "access_ok promoted_access \<and> isOwnerOrAdmin (au_role (access_auth ''admin''))"
proof -
  from access_step.role [OF sample_promotion] have "access_step sample_service (access_auth ''admin'') sample_access promoted_access" .
  note governed = membership_changes_governed [OF this sample_access_ok]
  let ?m = "\<lparr> ms_tenant_id = ''t'', ms_user_id = ''g'', ms_role = ''admin'', ms_created_at = 0 \<rparr>"
  have "?m \<in> set (ac_memberships promoted_access)" "?m \<notin> set (ac_memberships sample_access)" "ms_role ?m = ''admin''"
    by (simp_all add: promoted_access_def sample_access_def)
  note governed [THEN conjunct2, THEN conjunct2, THEN conjunct1, THEN bspec, OF this(1), THEN mp, OF this(2),
      THEN conjunct2, THEN conjunct2, THEN mp, OF this(3)]
  with governed show ?thesis by (intro conjI) (elim conjE)
qed

theorem owners_fixed_witness:
  "{m \<in> set (ac_memberships promoted_access). ms_role m = ''owner''} =
   {m \<in> set (ac_memberships sample_access). ms_role m = ''owner''}"
proof -
  from access_step.role [OF sample_promotion] have "access_step sample_service (access_auth ''admin'') sample_access promoted_access" .
  then have "(\<lambda>db db'. \<exists>auth. access_step sample_service auth db db')\<^sup>*\<^sup>* sample_access promoted_access"
    by (intro r_into_rtranclp exI)
  from owners_fixed [OF this sample_access_ok] show ?thesis by blast
qed

section \<open>What a grant gives\<close>

lemma insert_conflict:
  "add_project_member p t u db = (added, db') \<Longrightarrow> access_ok db \<Longrightarrow>
   (\<exists>project \<in> set (ac_projects db). pj_id project = p \<and> pj_tenant_id project = t) \<Longrightarrow>
   list_ex (\<lambda>m. mb_project_id m = p \<and> mb_tenant_id m = t \<and> mb_user_id m = u) (ac_members db') \<and>
   ac_memberships db' = ac_memberships db"
  by (auto simp: add_project_member_def insert_project_member_def the_project_member_def access_ok_def list_ex_iff split: if_splits)

lemma member_of_recorded:
  "record_member now t scoped u role db = Inr db' \<Longrightarrow>
   (\<exists>m. member_of t u db' = Some m \<and> ms_role m = role) \<and>
   (\<forall>p. scoped = Some p \<longrightarrow> list_ex (\<lambda>m. mb_project_id m = p \<and> mb_tenant_id m = t \<and> mb_user_id m = u) (ac_members db'))"
  by (drule record_member_Inr)
    (auto simp: member_of_def first_row_def the_membership_def find_filter list_ex_iff filter_empty_conv split: list.split)

text \<open>The user a grant is for: the one of the address, or else the one the invitation makes.\<close>

definition granted_user :: "'g identity_service \<Rightarrow> string \<Rightarrow> auth_user option \<Rightarrow> 'g \<Rightarrow> auth_user" where
  "granted_user svc email found g = (case found of Some u \<Rightarrow> u | None \<Rightarrow> projr (fst (inviteUser svc email g)))"

definition has_access :: "string \<Rightarrow> string \<Rightarrow> string option \<Rightarrow> string \<Rightarrow> 'g access_db \<Rightarrow> bool" where
  "has_access tenantId userId scoped role db =
     (case member_of tenantId userId db of
        None \<Rightarrow> False
      | Some m \<Rightarrow> ms_role m = role \<and>
          (case scoped of None \<Rightarrow> True | Some p \<Rightarrow> checkProjectAccess userId p tenantId role (ac_members db)))"

lemma recorded_access: "record_member now t scoped u role db = Inr db' \<Longrightarrow> has_access t u scoped role db'"
  by (drule member_of_recorded) (auto simp: has_access_def checkProjectAccess_def split: option.split)

lemma invited_access:
  "grant_by_invite svc now t scoped body db = (Inr out, db') \<Longrightarrow>
   has_access t (ax_id (granted_user svc (gb_email body) None (ac_auth db))) scoped (gr_role out) db'"
  by (auto simp: grant_by_invite_def granted_user_def Let_def errorResult_def dest!: recorded_access
      split: sum.splits prod.splits if_splits)

lemma member_access:
  assumes "grant_to_member t scoped body m db = (Inr out, db')" and "member_of t u db = Some m" and "access_ok db"
    and "\<And>p. scoped = Some p \<Longrightarrow> \<exists>project \<in> set (ac_projects db). pj_id project = p \<and> pj_tenant_id project = t"
  shows "has_access t u scoped (gr_role out) db' \<and> member_of t u db' = Some m"
proof -
  have u: "ms_user_id m = u"
    using find_SomeD assms(2) unfolding member_of_def first_row_def the_membership_def by fast
  show ?thesis
  proof (cases scoped)
    case None
    with assms(1,2) show ?thesis by (auto simp: grant_to_member_def has_access_def)
  next
    case (Some p)
    obtain added where added: "add_project_member p t u db = (added, db')"
      using assms(1) Some u by (auto simp: grant_to_member_def Let_def split: prod.splits)
    from insert_conflict [OF added assms(3) assms(4) [OF Some]] assms(1,2) Some show ?thesis
      by (auto simp: has_access_def member_of_def checkProjectAccess_def grant_to_member_def Let_def split: prod.splits)
  qed
qed


definition project_grant :: "string \<Rightarrow> grant_body" where
  "project_grant role = \<lparr> gb_email = ''g@x.org'', gb_role = role, gb_project_id = Some ''p'' \<rparr>"


text \<open>
  A grant with a role that sees every project, to a user who is a member with less, reports access to
  the project that the user does not have.
\<close>

lemma grant_reports_access_not_held:
  "fst (grant_resolved sample_service 0 ''t'' (scoped_project ''admin'' (Some ''p'')) (project_grant ''admin'')
          (Inr (Some (sample_user ''g''))) sample_access) =
     Inr \<lparr> gr_outcome = ''already_had_project_access'', gr_email = ''g@x.org'', gr_role = ''guest'', gr_role_changed = False \<rparr> \<and>
   \<not> checkProjectAccess ''g'' ''p'' ''t'' ''guest''
       (ac_members (snd (grant_resolved sample_service 0 ''t'' (scoped_project ''admin'' (Some ''p'')) (project_grant ''admin'')
          (Inr (Some (sample_user ''g''))) sample_access)))"
  by code_simp

section \<open>Entitlements and checks\<close>

definition entitlement_key :: "entitlement_row \<Rightarrow> string option" where
  "entitlement_key e = Some (en_tenant_id e)"

definition entitlement_ok :: "entitlement_row \<Rightarrow> bool" where
  "entitlement_ok e = (30 \<le> en_cache_ttl_seconds e \<and> en_cache_ttl_seconds e \<le> 86400 \<and> en_serve_mode e \<in> set SERVE_MODES)"

definition entitlements_ok :: "entitlement_row list \<Rightarrow> bool" where
  "entitlements_ok rows = (unique_key entitlement_key rows \<and> list_all entitlement_ok rows)"

abbreviation entitlement_of :: "string \<Rightarrow> entitlement_row list \<Rightarrow> entitlement_row option" where
  "entitlement_of tenantId \<equiv> first_row (\<lambda>e. en_tenant_id e = tenantId)"

lemma set_entitlements_ok:
  "putEntitlementsSchema body \<Longrightarrow> entitlement_ok e \<Longrightarrow> entitlement_ok (set_entitlements body e)"
  by (auto simp: putEntitlementsSchema_def entitlement_ok_def set_entitlements_def optional_def default_def split: option.splits)

lemma set_entitlements_tenant [simp]: "en_tenant_id (set_entitlements body e) = en_tenant_id e"
  by (simp add: set_entitlements_def)

lemma putEntitlements_Inr:
  assumes "putEntitlementsRoute is_uuid auth param body rows = Inr (row, rows')"
  obtains "putEntitlementsSchema body" and "row = set_entitlements body (default (default_entitlements (au_tenantId auth)) (entitlement_of (au_tenantId auth) rows))"
    and "rows' = (if entitlement_of (au_tenantId auth) rows = None then rows @ [row]
                  else update_where (\<lambda>e. en_tenant_id e = au_tenantId auth) (set_entitlements body) rows)"
  using assms
  by (cases "entitlement_of (au_tenantId auth) rows")
    (auto simp: putEntitlementsRoute_def requireTenantCapabilityAccess_def route_simps requireTenantParam_Inr Let_def default_def
      split: if_splits)

lemma entitlement_of_put:
  assumes "putEntitlementsRoute is_uuid auth param body rows = Inr (row, rows')"
  shows "entitlement_of tenantId rows' = (if tenantId = au_tenantId auth then Some row else entitlement_of tenantId rows)"
proof -
  from assms obtain row: "row = set_entitlements body (default (default_entitlements (au_tenantId auth)) (entitlement_of (au_tenantId auth) rows))"
    and rows': "rows' = (if entitlement_of (au_tenantId auth) rows = None then rows @ [row]
                  else update_where (\<lambda>e. en_tenant_id e = au_tenantId auth) (set_entitlements body) rows)"
    by (rule putEntitlements_Inr)
  have updated: "entitlement_of t (update_where (\<lambda>e. en_tenant_id e = s) (set_entitlements body) rows) =
      (if t = s then map_option (set_entitlements body) (entitlement_of t rows) else entitlement_of t rows)" for s t
    by (induction rows) (auto simp: first_row_def update_where_def)
  show ?thesis
  proof (cases "entitlement_of (au_tenantId auth) rows")
    case None
    then have "entitlement_of tenantId (rows @ [r]) = (if tenantId = au_tenantId auth then Some r else entitlement_of tenantId rows)"
      if "en_tenant_id r = au_tenantId auth" for r
      using that by (induction rows) (auto simp: first_row_def split: if_splits)
    with None show ?thesis by (simp add: rows' row default_def default_entitlements_def)
  next
    case (Some e)
    then show ?thesis by (simp add: rows' row updated default_def)
  qed
qed

lemma entitlements_ok_put:
  assumes put: "putEntitlementsRoute is_uuid auth param body rows = Inr (row, rows')" and ok: "entitlements_ok rows"
  shows "entitlements_ok rows'" and "entitlement_ok row"
proof -
  from put obtain schema: "putEntitlementsSchema body"
    and row: "row = set_entitlements body (default (default_entitlements (au_tenantId auth)) (entitlement_of (au_tenantId auth) rows))"
    and rows': "rows' = (if entitlement_of (au_tenantId auth) rows = None then rows @ [row]
                  else update_where (\<lambda>e. en_tenant_id e = au_tenantId auth) (set_entitlements body) rows)"
    by (rule putEntitlements_Inr)
  have "entitlement_ok (default_entitlements t)" for t by (simp add: entitlement_ok_def default_entitlements_def SERVE_MODES_def)
  with ok have "entitlement_ok (default (default_entitlements t) (entitlement_of t rows))" for t
    by (auto simp: default_def entitlements_ok_def list_all_iff first_row_def dest: find_SomeD split: option.split)
  with set_entitlements_ok [OF schema] show entry: "entitlement_ok row" unfolding row by blast
  show "entitlements_ok rows'"
  proof (cases "entitlement_of (au_tenantId auth) rows")
    case None
    then have "\<forall>e \<in> set rows. en_tenant_id e \<noteq> au_tenantId auth" by (auto simp: first_row_def find_None_iff)
    with None entry ok show ?thesis
      by (auto simp: rows' entitlements_ok_def unique_key_append entitlement_key_def row default_def default_entitlements_def)
  next
    case (Some e)
    with set_entitlements_ok [OF schema] ok show ?thesis
      by (auto simp: rows' entitlements_ok_def unique_key_map_same entitlement_key_def update_where_def list_all_iff)
  qed
qed


definition sample_entitlements :: entitlements_body where
  "sample_entitlements = \<lparr> eb_allowed_ecosystems = Some [''npm''], eb_serve_mode = Some ''SERVE_MODE_PULL'', eb_cache_ttl_seconds = Some 60,
                           eb_mcp_enabled = None \<rparr>"

definition entitlement_auth :: auth_context where
  "entitlement_auth = \<lparr> au_tenantId = ''t1'', au_tenantKind = ''customer'', au_userId = ''a'', au_role = ''admin'' \<rparr>"

definition sample_entitled :: entitlement_row where
  "sample_entitled = \<lparr> en_tenant_id = ''t1'', en_allowed_ecosystems = Some [''npm''], en_serve_mode = ''SERVE_MODE_PULL'',
                       en_cache_ttl_seconds = 60, en_mcp_enabled = False \<rparr>"

lemma sample_put: "putEntitlementsRoute anything entitlement_auth ''t1'' sample_entitlements [] = Inr (sample_entitled, [sample_entitled])"
  by code_simp

lemma sample_entitled_context:
  "case loadCheckContext sample_env sample_proxy sample_check_request ((sample_check_db ''enforcing'')\<lparr> ck_entitlements := [sample_entitled] \<rparr>) of
     (None, _) \<Rightarrow> False | (Some ctx, db') \<Rightarrow> cc_tenantId ctx = ''t1''"
  by code_simp


end
