(* ===== verification/Proxies.thy ===== *)
theory Proxies
  imports Project_Tokens
begin

text \<open>
  Proxies and how they authenticate: registration, secrets and life cycle
  (\<open>features/proxies/\<close>), the exchange of a secret for a runtime token
  (\<open>features/internal-proxy-auth/\<close>, \<open>connect/proxy-auth.ts\<close>), the token itself
  (\<open>auth/proxy-jwt.ts\<close>, \<open>auth/internal-service-jwt.ts\<close>) and the interceptor that turns a token into
  the context every remote call works with.

  The library that signs and verifies tokens is a parameter: \<open>sign\<close> makes a token from its payload
  and \<open>jwtVerify\<close> returns the payload of a token for a time, an issuer and an audience, or nothing.
\<close>

section \<open>Tables\<close>

record proxy_row =
  xr_id :: string
  xr_tenant_id :: string
  xr_proxy_id :: string
  xr_name :: string
  xr_status :: string
  xr_tenant_scope :: tenant_scope
  xr_secret_hash :: string
  xr_secret_prev_hash :: "string option"
  xr_secret_prev_expires_at :: "ms option"
  xr_secret_prefix :: string
  xr_disabled_at :: "ms option"
  xr_secret_rotated_at :: "ms option"
  xr_last_seen_at :: "ms option"
  xr_created_at :: ms

record status_event_row =
  se_tenant_id :: string
  se_proxy_id :: string
  se_proxy_ip :: "string option"
  se_event_type :: string
  se_actor_user_id :: "string option"
  se_detail :: "string option"
  se_created_at :: ms

record proxy_db =
  xd_proxies :: "proxy_row list"
  xd_events :: "status_event_row list"
  xd_uuids :: uuid_source
  xd_secrets :: uuid_source

section \<open>Status events\<close>

definition PROXY_STATUS_EVENT_TYPES :: "string list" where
  "PROXY_STATUS_EVENT_TYPES =
     [''proxy_service_running'', ''proxy_service_stopped'', ''control_plane_unavailable'', ''control_plane_available'',
      ''token_exchange_attempt'', ''token_issued'', ''token_exchange_failed'', ''proxy_disabled'', ''proxy_enabled'',
      ''secret_rotated'', ''proxy_revoked'']"

definition assertProxyStatusEventType :: "string \<Rightarrow> js_error + unit" where
  "assertProxyStatusEventType eventType =
     (if eventType \<in> set PROXY_STATUS_EVENT_TYPES then Inr ()
      else Inl (AppError (''unknown proxy status event type: '' @ (if eventType = [] then ''<empty>'' else eventType))))"

definition insertProxyStatusEvent ::
    "ms \<Rightarrow> string \<Rightarrow> string \<Rightarrow> string option \<Rightarrow> string \<Rightarrow> string option \<Rightarrow> string option \<Rightarrow> proxy_db \<Rightarrow> js_error + proxy_db" where
  "insertProxyStatusEvent now tenantId proxyId proxyIp eventType actorUserId detail db =
     sum_bind (assertProxyStatusEventType eventType) (\<lambda>_.
       Inr (db\<lparr> xd_events := xd_events db @
         [\<lparr> se_tenant_id = tenantId, se_proxy_id = proxyId, se_proxy_ip = proxyIp, se_event_type = eventType,
            se_actor_user_id = actorUserId, se_detail = detail, se_created_at = now \<rparr>] \<rparr>))"

definition handleRecordProxyStatus :: "ms \<Rightarrow> proxy_context \<Rightarrow> string \<Rightarrow> proxy_db \<Rightarrow> js_error + proxy_db" where
  "handleRecordProxyStatus now proxy eventType db =
     sum_bind (assertProxyStatusEventType eventType) (\<lambda>_.
       insertProxyStatusEvent now (px_tenantId proxy) (px_proxyId proxy) (px_proxyIp proxy) eventType None None db)"

section \<open>Registration and life cycle\<close>

record proxy_secret =
  xs_rawSecret :: string
  xs_secretHash :: string
  xs_secretPrefix :: string

definition generateProxySecret :: "(string \<Rightarrow> string) \<Rightarrow> uuid_source \<Rightarrow> proxy_secret \<times> uuid_source" where
  "generateProxySecret hash secrets =
     (let (bytes, secrets') = draw secrets; rawSecret = ''cxp_'' @ bytes
      in (\<lparr> xs_rawSecret = rawSecret, xs_secretHash = hash rawSecret, xs_secretPrefix = take 12 rawSecret \<rparr>, secrets'))"

definition listTenantProxies :: "string \<Rightarrow> proxy_db \<Rightarrow> proxy_row list" where
  "listTenantProxies tenantId db = sort_key xr_created_at (filter (\<lambda>p. xr_tenant_id p = tenantId) (xd_proxies db))"

definition createProxy ::
    "(string \<Rightarrow> string) \<Rightarrow> ms \<Rightarrow> string \<Rightarrow> string \<Rightarrow> proxy_db \<Rightarrow> js_error + ((string \<times> proxy_secret) \<times> proxy_db)" where
  "createProxy hash now tenantId name db =
     (let (proxyId, u1) = draw (xd_uuids db);
          (secret, secrets) = generateProxySecret hash (xd_secrets db);
          (rowId, u2) = draw u1;
          row = \<lparr> xr_id = rowId, xr_tenant_id = tenantId, xr_proxy_id = proxyId, xr_name = name, xr_status = ''active'',
                  xr_tenant_scope = Owner_only, xr_secret_hash = xs_secretHash secret, xr_secret_prev_hash = None,
                  xr_secret_prev_expires_at = None, xr_secret_prefix = xs_secretPrefix secret, xr_disabled_at = None,
                  xr_secret_rotated_at = None, xr_last_seen_at = None, xr_created_at = now \<rparr>
      in if list_ex (\<lambda>p. xr_proxy_id p = proxyId) (xd_proxies db) then Inl (AppError ''proxies_proxy_id_idx'')
         else Inr ((proxyId, secret), db\<lparr> xd_proxies := xd_proxies db @ [row], xd_uuids := u2, xd_secrets := secrets \<rparr>))"

definition the_proxy :: "string \<Rightarrow> string \<Rightarrow> proxy_row \<Rightarrow> bool" where
  "the_proxy tenantId proxyId p = (xr_proxy_id p = proxyId \<and> xr_tenant_id p = tenantId)"

definition updateProxyTenantScope :: "string \<Rightarrow> string \<Rightarrow> tenant_scope \<Rightarrow> proxy_db \<Rightarrow> (string \<times> tenant_scope) option \<times> proxy_db" where
  "updateProxyTenantScope tenantId proxyId scope db =
     (map_option (\<lambda>p. (xr_proxy_id p, scope)) (first_row (the_proxy tenantId proxyId) (xd_proxies db)),
      db\<lparr> xd_proxies := update_where (the_proxy tenantId proxyId) (\<lambda>p. p\<lparr> xr_tenant_scope := scope \<rparr>) (xd_proxies db) \<rparr>)"

definition setProxyStatus :: "ms \<Rightarrow> string \<Rightarrow> string \<Rightarrow> string \<Rightarrow> proxy_db \<Rightarrow> string option \<times> proxy_db" where
  "setProxyStatus now tenantId proxyId nextStatus db =
     (map_option (\<lambda>_. nextStatus) (first_row (the_proxy tenantId proxyId) (xd_proxies db)),
      db\<lparr> xd_proxies := update_where (the_proxy tenantId proxyId)
            (\<lambda>p. p\<lparr> xr_status := nextStatus,
                    xr_disabled_at := (if nextStatus = ''disabled'' \<or> nextStatus = ''revoked'' then Some now else None) \<rparr>)
            (xd_proxies db) \<rparr>)"

text \<open>The three transitions differ in the status and in the event they record.\<close>

definition change_status ::
    "ms \<Rightarrow> string \<Rightarrow> string \<Rightarrow> string \<Rightarrow> string \<Rightarrow> string \<Rightarrow> proxy_db \<Rightarrow> js_error + (string option \<times> proxy_db)" where
  "change_status now tenantId proxyId actorUserId nextStatus eventType db =
     (case setProxyStatus now tenantId proxyId nextStatus db of
        (None, db1) \<Rightarrow> Inr (None, db1)
      | (Some row, db1) \<Rightarrow>
          sum_bind (insertProxyStatusEvent now tenantId proxyId None eventType (Some actorUserId) None db1) (\<lambda>db2. Inr (Some row, db2)))"

definition disableProxy :: "ms \<Rightarrow> string \<Rightarrow> string \<Rightarrow> string \<Rightarrow> proxy_db \<Rightarrow> js_error + (string option \<times> proxy_db)" where
  "disableProxy now tenantId proxyId actor = change_status now tenantId proxyId actor ''disabled'' ''proxy_disabled''"

definition enableProxy :: "ms \<Rightarrow> string \<Rightarrow> string \<Rightarrow> string \<Rightarrow> proxy_db \<Rightarrow> js_error + (string option \<times> proxy_db)" where
  "enableProxy now tenantId proxyId actor = change_status now tenantId proxyId actor ''active'' ''proxy_enabled''"

definition revokeProxy :: "ms \<Rightarrow> string \<Rightarrow> string \<Rightarrow> string \<Rightarrow> proxy_db \<Rightarrow> js_error + (string option \<times> proxy_db)" where
  "revokeProxy now tenantId proxyId actor = change_status now tenantId proxyId actor ''revoked'' ''proxy_revoked''"

record rotated_secret =
  rs_secret :: string
  rs_secret_prefix :: string
  rs_previous_secret_expires_at :: ms

definition rotateProxySecret ::
    "(string \<Rightarrow> string) \<Rightarrow> ms \<Rightarrow> string \<Rightarrow> string \<Rightarrow> string \<Rightarrow> proxy_db \<Rightarrow> js_error + (rotated_secret option \<times> proxy_db)" where
  "rotateProxySecret hash now tenantId proxyId actorUserId db =
     (let (secret, secrets) = generateProxySecret hash (xd_secrets db);
          previousSecretExpiresAt = now + 60 * 60 * 1000;
          db1 = db\<lparr> xd_secrets := secrets,
                    xd_proxies := update_where (the_proxy tenantId proxyId)
                      (\<lambda>p. p\<lparr> xr_secret_prev_hash := Some (xr_secret_hash p), xr_secret_prev_expires_at := Some previousSecretExpiresAt,
                              xr_secret_hash := xs_secretHash secret, xr_secret_prefix := xs_secretPrefix secret,
                              xr_secret_rotated_at := Some now \<rparr>) (xd_proxies db) \<rparr>
      in case first_row (the_proxy tenantId proxyId) (xd_proxies db) of
           None \<Rightarrow> Inr (None, db1)
         | Some _ \<Rightarrow>
             sum_bind (insertProxyStatusEvent now tenantId proxyId None ''secret_rotated'' (Some actorUserId) None db1) (\<lambda>db2.
               Inr (Some \<lparr> rs_secret = xs_rawSecret secret, rs_secret_prefix = xs_secretPrefix secret,
                           rs_previous_secret_expires_at = previousSecretExpiresAt \<rparr>, db2)))"

section \<open>Routes\<close>

definition manage_proxies :: "auth_context \<Rightarrow> unit http_result" where
  "manage_proxies auth = requireTenantCapability auth ''proxies.write'' ''You do not have access to manage proxies''"

definition listProxiesRoute :: "auth_context \<Rightarrow> proxy_db \<Rightarrow> proxy_row list http_result" where
  "listProxiesRoute auth db =
     sum_bind (requireTenantCapability auth ''proxies.read'' ''You do not have access to view proxies'') (\<lambda>_.
       Inr (listTenantProxies (au_tenantId auth) db))"

definition createProxyRoute ::
    "(string \<Rightarrow> string) \<Rightarrow> auth_context \<Rightarrow> ms \<Rightarrow> string \<Rightarrow> proxy_db \<Rightarrow> ((string \<times> proxy_secret) \<times> proxy_db) http_result" where
  "createProxyRoute hash auth now name db =
     (if \<not> (1 \<le> length name \<and> length name \<le> 100) then errorResult 400 '''' ''invalid request body'' None
      else sum_bind (manage_proxies auth) (\<lambda>_. service_call (createProxy hash now (au_tenantId auth) name db)))"

text \<open>The handlers that act on one proxy: parameter, capability, action, and not found.\<close>

definition proxy_route ::
    "(string \<Rightarrow> bool) \<Rightarrow> auth_context \<Rightarrow> string \<Rightarrow> (string \<Rightarrow> js_error + ('a option \<times> proxy_db)) \<Rightarrow> ('a \<times> proxy_db) http_result" where
  "proxy_route is_uuid auth param action =
     sum_bind (validateUuidParam is_uuid ''Proxy ID'' param) (\<lambda>proxyId.
     sum_bind (manage_proxies auth) (\<lambda>_.
     sum_bind (service_call (action proxyId)) (\<lambda>(row, db').
       case row of None \<Rightarrow> errorResult 404 ''NOT_FOUND'' ''Proxy not found'' None | Some r \<Rightarrow> Inr (r, db'))))"

definition disableProxyRoute :: "(string \<Rightarrow> bool) \<Rightarrow> auth_context \<Rightarrow> ms \<Rightarrow> string \<Rightarrow> proxy_db \<Rightarrow> (string \<times> proxy_db) http_result" where
  "disableProxyRoute is_uuid auth now param db =
     proxy_route is_uuid auth param (\<lambda>proxyId. disableProxy now (au_tenantId auth) proxyId (au_userId auth) db)"

definition enableProxyRoute :: "(string \<Rightarrow> bool) \<Rightarrow> auth_context \<Rightarrow> ms \<Rightarrow> string \<Rightarrow> proxy_db \<Rightarrow> (string \<times> proxy_db) http_result" where
  "enableProxyRoute is_uuid auth now param db =
     proxy_route is_uuid auth param (\<lambda>proxyId. enableProxy now (au_tenantId auth) proxyId (au_userId auth) db)"

definition revokeProxyRoute :: "(string \<Rightarrow> bool) \<Rightarrow> auth_context \<Rightarrow> ms \<Rightarrow> string \<Rightarrow> proxy_db \<Rightarrow> (string \<times> proxy_db) http_result" where
  "revokeProxyRoute is_uuid auth now param db =
     proxy_route is_uuid auth param (\<lambda>proxyId. revokeProxy now (au_tenantId auth) proxyId (au_userId auth) db)"

definition rotateProxySecretRoute ::
    "(string \<Rightarrow> string) \<Rightarrow> (string \<Rightarrow> bool) \<Rightarrow> auth_context \<Rightarrow> ms \<Rightarrow> string \<Rightarrow> proxy_db \<Rightarrow> (rotated_secret \<times> proxy_db) http_result" where
  "rotateProxySecretRoute hash is_uuid auth now param db =
     proxy_route is_uuid auth param (\<lambda>proxyId. rotateProxySecret hash now (au_tenantId auth) proxyId (au_userId auth) db)"

definition proxyScopeRoute ::
    "(string \<Rightarrow> bool) \<Rightarrow> auth_context \<Rightarrow> string \<Rightarrow> tenant_scope \<Rightarrow> proxy_db \<Rightarrow> ((string \<times> tenant_scope) \<times> proxy_db) http_result" where
  "proxyScopeRoute is_uuid auth param scope db =
     sum_bind (validateUuidParam is_uuid ''Proxy ID'' param) (\<lambda>proxyId.
     sum_bind (manage_proxies auth) (\<lambda>_.
     sum_bind (if scope = All_tenants
               then requireTenantCapability auth ''platform.proxies.set_all_tenants''
                      ''You do not have access to share proxies across tenants''
               else Inr ()) (\<lambda>_.
       case updateProxyTenantScope (au_tenantId auth) proxyId scope db of
         (None, _) \<Rightarrow> errorResult 404 ''NOT_FOUND'' ''Proxy not found'' None
       | (Some row, db') \<Rightarrow> Inr (row, db'))))"

section \<open>Runtime tokens\<close>

record runtime_token =
  rt_accessToken :: string
  rt_expiresAt :: ms
  rt_refreshAfter :: ms

record service_claims =
  sc_service :: string
  sc_tenantId :: "string option"
  sc_projectId :: "string option"
  sc_scope :: "string list"
  sc_subject :: string
  sc_audience :: string
  sc_claims :: jsobj

definition ISSUER :: string where
  "ISSUER = ''customs-control-plane''"

definition epoch :: "ms \<Rightarrow> int" where
  "epoch t = t div 1000"

definition token_payload :: "service_claims \<Rightarrow> jsobj" where
  "token_payload input =
     obj_spread ([(''service'', JStr (sc_service input))] @
       (if present (sc_tenantId input) then [(''tenant_id'', JStr (the (sc_tenantId input)))] else []) @
       (if present (sc_projectId input) then [(''project_id'', JStr (the (sc_projectId input)))] else []) @
       (if sc_scope input \<noteq> [] then [(''scope'', JArr (map JStr (sc_scope input)))] else [])) (sc_claims input)"

definition signed_payload :: "int \<Rightarrow> ms \<Rightarrow> string \<Rightarrow> service_claims \<Rightarrow> jsobj" where
  "signed_payload ttlSeconds now jti input =
     obj_set ''exp'' (JNum (of_int (epoch (now + ttlSeconds * 1000))))
      (obj_set ''jti'' (JStr jti) (obj_set ''sub'' (JStr (sc_subject input)) (obj_set ''aud'' (JStr (sc_audience input))
        (obj_set ''iss'' (JStr ISSUER) (obj_set ''iat'' (JNum (of_int (epoch now))) (token_payload input))))))"

definition issueInternalServiceRuntimeToken ::
    "(jsobj \<Rightarrow> string) \<Rightarrow> int \<Rightarrow> ms \<Rightarrow> string \<Rightarrow> service_claims \<Rightarrow> runtime_token" where
  "issueInternalServiceRuntimeToken sign ttlSeconds now jti input =
     \<lparr> rt_accessToken = sign (signed_payload ttlSeconds now jti input), rt_expiresAt = now + ttlSeconds * 1000,
       rt_refreshAfter = now + (ttlSeconds * 4 div 5) * 1000 \<rparr>"

record verified_claims =
  vc_subject :: string
  vc_service :: string
  vc_jti :: string
  vc_expiresAt :: rat
  vc_tenantId :: "string option"
  vc_projectId :: "string option"
  vc_claims :: jsobj

definition string_claim :: "jsobj \<Rightarrow> string \<Rightarrow> string option" where
  "string_claim payload k = (case obj_get payload k of JStr s \<Rightarrow> Some s | _ \<Rightarrow> None)"

definition number_claim :: "jsobj \<Rightarrow> string \<Rightarrow> rat option" where
  "number_claim payload k = (case obj_get payload k of JNum n \<Rightarrow> Some n | _ \<Rightarrow> None)"

definition verifyInternalServiceRuntimeToken ::
    "(ms \<Rightarrow> string \<Rightarrow> string \<Rightarrow> string \<Rightarrow> jsobj option) \<Rightarrow> ms \<Rightarrow> string \<Rightarrow> string \<Rightarrow> js_error + verified_claims" where
  "verifyInternalServiceRuntimeToken jwtVerify now token audience =
     (case jwtVerify now token ISSUER audience of
        None \<Rightarrow> Inl (AppError ''JWTInvalid'')
      | Some payload \<Rightarrow>
          (case (string_claim payload ''sub'', string_claim payload ''service'', string_claim payload ''jti'', number_claim payload ''exp'') of
             (Some sub, Some service, Some jti, Some expiry) \<Rightarrow>
               Inr \<lparr> vc_subject = sub, vc_service = service, vc_jti = jti, vc_expiresAt = expiry * 1000,
                     vc_tenantId = string_claim payload ''tenant_id'', vc_projectId = string_claim payload ''project_id'',
                     vc_claims = payload \<rparr>
           | _ \<Rightarrow> Inl (AppError ''internal_service_jwt_missing_claims'')))"

definition audience :: string where
  "audience = ''customs-proxy-rpc''"

fun scope_name :: "tenant_scope \<Rightarrow> string" where
  "scope_name Owner_only = ''owner_only''"
| "scope_name All_tenants = ''all_tenants''"

definition parseTenantScope :: "jsval \<Rightarrow> tenant_scope" where
  "parseTenantScope value = (if value = JStr ''all_tenants'' then All_tenants else Owner_only)"

definition proxy_claims :: "string \<Rightarrow> string \<Rightarrow> tenant_scope option \<Rightarrow> service_claims" where
  "proxy_claims proxyId tenantId scope =
     \<lparr> sc_service = ''proxy'', sc_tenantId = Some tenantId, sc_projectId = None, sc_scope = [], sc_subject = proxyId,
       sc_audience = audience,
       sc_claims = [(''proxy_id'', JStr proxyId), (''tenant_scope'', JStr (scope_name (default Owner_only scope)))] \<rparr>"

definition issueProxyRuntimeToken ::
    "(jsobj \<Rightarrow> string) \<Rightarrow> int \<Rightarrow> ms \<Rightarrow> string \<Rightarrow> string \<Rightarrow> string \<Rightarrow> tenant_scope option \<Rightarrow> runtime_token" where
  "issueProxyRuntimeToken sign ttlSeconds now jti proxyId tenantId scope =
     issueInternalServiceRuntimeToken sign ttlSeconds now jti (proxy_claims proxyId tenantId scope)"

record proxy_jwt_claims =
  xc_proxyId :: string
  xc_tenantId :: string
  xc_tenantScope :: tenant_scope
  xc_jti :: string
  xc_expiresAt :: rat

definition verifyProxyRuntimeToken ::
    "(ms \<Rightarrow> string \<Rightarrow> string \<Rightarrow> string \<Rightarrow> jsobj option) \<Rightarrow> ms \<Rightarrow> string \<Rightarrow> js_error + proxy_jwt_claims" where
  "verifyProxyRuntimeToken jwtVerify now token =
     sum_bind (verifyInternalServiceRuntimeToken jwtVerify now token audience) (\<lambda>claims.
       case (vc_service claims = ''proxy'', string_claim (vc_claims claims) ''proxy_id'', vc_tenantId claims) of
         (True, Some proxyId, Some tenantId) \<Rightarrow>
           Inr \<lparr> xc_proxyId = proxyId, xc_tenantId = tenantId,
                 xc_tenantScope = parseTenantScope (obj_get (vc_claims claims) ''tenant_scope''),
                 xc_jti = vc_jti claims, xc_expiresAt = vc_expiresAt claims \<rparr>
       | _ \<Rightarrow> Inl (AppError ''proxy_jwt_missing_claims''))"

section \<open>The interceptor\<close>

definition bearer_token :: "string option \<Rightarrow> string" where
  "bearer_token authorization =
     (let header = default [] authorization
      in if js_startsWith header ''Bearer '' then js_trim (drop (length ''Bearer '') header) else [])"

definition proxyJwtAuthInterceptor ::
    "(ms \<Rightarrow> string \<Rightarrow> string \<Rightarrow> string \<Rightarrow> jsobj option) \<Rightarrow> ms \<Rightarrow> string option \<Rightarrow> string option \<Rightarrow> js_error + proxy_context" where
  "proxyJwtAuthInterceptor jwtVerify now authorization remoteAddr =
     (let token = bearer_token authorization
      in if token = [] then Inl (AppError ''invalid_proxy_token'')
         else (case verifyProxyRuntimeToken jwtVerify now token of
                 Inl _ \<Rightarrow> Inl (AppError ''invalid_proxy_token'')
               | Inr claims \<Rightarrow>
                   Inr \<lparr> px_proxyId = xc_proxyId claims, px_tenantId = xc_tenantId claims,
                         px_tenantScope = Some (xc_tenantScope claims), px_proxyIp = opt_or_null remoteAddr \<rparr>))"

section \<open>Exchange of a secret for a token\<close>

definition hashesMatch :: "string option \<Rightarrow> string \<Rightarrow> bool" where
  "hashesMatch expectedHex providedHex = (present expectedHex \<and> the expectedHex = providedHex)"

text \<open>An identifier that is no uuid makes the lookup fail.\<close>

definition lookup_proxy :: "(string \<Rightarrow> bool) \<Rightarrow> string \<Rightarrow> proxy_db \<Rightarrow> js_error + proxy_row option" where
  "lookup_proxy is_uuid proxyId db =
     (if \<not> is_uuid proxyId then Inl (AppError ''invalid input syntax for type uuid'')
      else Inr (first_row (\<lambda>p. xr_proxy_id p = proxyId) (xd_proxies db)))"

definition previousSecretStillValid :: "ms \<Rightarrow> string \<Rightarrow> proxy_row \<Rightarrow> bool" where
  "previousSecretStillValid now secretHash p =
     (hashesMatch (xr_secret_prev_hash p) secretHash \<and> (case xr_secret_prev_expires_at p of None \<Rightarrow> False | Some t \<Rightarrow> t > now))"

definition requireBootstrapAuthenticatedProxy ::
    "(string \<Rightarrow> string) \<Rightarrow> (string \<Rightarrow> bool) \<Rightarrow> ms \<Rightarrow> string option \<Rightarrow> string option \<Rightarrow> proxy_db \<Rightarrow> js_error + proxy_row" where
  "requireBootstrapAuthenticatedProxy hash is_uuid now proxyId proxySecret db =
     (if \<not> present proxySecret \<or> \<not> present proxyId then Inl (AppError ''unregistered_proxy'')
      else sum_bind (lookup_proxy is_uuid (the proxyId) db) (\<lambda>row.
        case row of
          None \<Rightarrow> Inl (AppError ''unregistered_proxy'')
        | Some p \<Rightarrow>
            let secretHash = hash (the proxySecret)
            in if \<not> hashesMatch (Some (xr_secret_hash p)) secretHash \<and> \<not> previousSecretStillValid now secretHash p
               then Inl (AppError ''invalid_proxy_secret'') else Inr p))"

record auth_failure =
  af_status :: nat
  af_code :: string
  af_message :: string
  af_auditProxy :: "(string \<times> string) option"
  af_auditDetail :: string

definition status_failure :: "string \<Rightarrow> string \<Rightarrow> string \<Rightarrow> proxy_row \<Rightarrow> auth_failure" where
  "status_failure code message detail p =
     \<lparr> af_status = 403, af_code = code, af_message = message, af_auditProxy = Some (xr_tenant_id p, xr_proxy_id p),
       af_auditDetail = detail \<rparr>"

fun error_text :: "js_error \<Rightarrow> string" where
  "error_text (AppError m) = m"
| "error_text TypeError = ''TypeError''"

text \<open>The outer error is an exception that escapes, the inner one a refusal.\<close>

definition authenticateBootstrapProxy ::
    "(string \<Rightarrow> string) \<Rightarrow> (string \<Rightarrow> bool) \<Rightarrow> ms \<Rightarrow> string option \<Rightarrow> string option \<Rightarrow> proxy_db \<Rightarrow> js_error + (auth_failure + proxy_row)" where
  "authenticateBootstrapProxy hash is_uuid now proxyId proxySecret db =
     (case requireBootstrapAuthenticatedProxy hash is_uuid now proxyId proxySecret db of
        Inr p \<Rightarrow>
          Inr (if xr_status p = ''disabled'' then Inl (status_failure ''PROXY_DISABLED'' ''Proxy is disabled'' ''proxy_disabled'' p)
               else if xr_status p = ''revoked'' then Inl (status_failure ''PROXY_REVOKED'' ''Proxy is revoked'' ''proxy_revoked'' p)
               else Inr p)
      | Inl err \<Rightarrow>
          let code = (if err = AppError ''invalid_proxy_secret'' then ''INVALID_PROXY_SECRET'' else ''UNREGISTERED_PROXY'')
          in sum_bind (if present proxyId then lookup_proxy is_uuid (the proxyId) db else Inr None) (\<lambda>row.
               Inr (Inl \<lparr> af_status = 401, af_code = code,
                          af_message = (if code = ''INVALID_PROXY_SECRET'' then ''Proxy secret is incorrect'' else ''Proxy is not registered''),
                          af_auditProxy = map_option (\<lambda>p. (xr_tenant_id p, xr_proxy_id p)) row,
                          af_auditDetail = error_text err \<rparr>)))"

definition audit_failure :: "ms \<Rightarrow> string option \<Rightarrow> auth_failure \<Rightarrow> proxy_db \<Rightarrow> js_error + proxy_db" where
  "audit_failure now proxyIp failure db =
     (case af_auditProxy failure of
        None \<Rightarrow> Inr db
      | Some (tenantId, proxyId) \<Rightarrow>
          sum_bind (if af_code failure = ''PROXY_DISABLED'' \<or> af_code failure = ''PROXY_REVOKED''
                    then insertProxyStatusEvent now tenantId proxyId proxyIp ''token_exchange_attempt'' None None db
                    else Inr db) (\<lambda>db1.
            insertProxyStatusEvent now tenantId proxyId proxyIp ''token_exchange_failed'' None (Some (af_auditDetail failure)) db1))"

definition exchangeProxyRuntimeToken ::
    "(string \<Rightarrow> string) \<Rightarrow> (jsobj \<Rightarrow> string) \<Rightarrow> int \<Rightarrow> (string \<Rightarrow> bool) \<Rightarrow> ms \<Rightarrow> string option \<Rightarrow> string option \<Rightarrow> string option \<Rightarrow> proxy_db \<Rightarrow>
     js_error + ((auth_failure + runtime_token) \<times> proxy_db)" where
  "exchangeProxyRuntimeToken hash sign ttlSeconds is_uuid now proxyId proxySecret proxyIp db =
     sum_bind (authenticateBootstrapProxy hash is_uuid now proxyId proxySecret db) (\<lambda>authResult.
       case authResult of
         Inl failure \<Rightarrow> sum_bind (audit_failure now proxyIp failure db) (\<lambda>db1. Inr (Inl failure, db1))
       | Inr p \<Rightarrow>
           sum_bind (insertProxyStatusEvent now (xr_tenant_id p) (xr_proxy_id p) proxyIp ''token_exchange_attempt'' None None db) (\<lambda>db1.
           let (jti, u) = draw (xd_uuids db1);
               token = issueProxyRuntimeToken sign ttlSeconds now jti (xr_proxy_id p) (xr_tenant_id p) (Some (xr_tenant_scope p));
               db2 = db1\<lparr> xd_uuids := u,
                          xd_proxies := update_where (\<lambda>x. xr_id x = xr_id p) (\<lambda>x. x\<lparr> xr_last_seen_at := Some now \<rparr>) (xd_proxies db1) \<rparr>
           in sum_bind (insertProxyStatusEvent now (xr_tenant_id p) (xr_proxy_id p) proxyIp ''token_issued'' None None db2) (\<lambda>db3.
                Inr (Inr token, db3))))"

definition proxyTokenRoute ::
    "(string \<Rightarrow> string) \<Rightarrow> (jsobj \<Rightarrow> string) \<Rightarrow> int \<Rightarrow> (string \<Rightarrow> bool) \<Rightarrow> ms \<Rightarrow> string option \<Rightarrow> string option \<Rightarrow> string option \<Rightarrow> proxy_db \<Rightarrow>
     runtime_token http_result \<times> proxy_db" where
  "proxyTokenRoute hash sign ttlSeconds is_uuid now proxyId proxySecret remoteAddr db =
     (if \<not> (case proxyId of None \<Rightarrow> False | Some i \<Rightarrow> is_uuid i) \<or>
         \<not> (case proxySecret of None \<Rightarrow> False | Some s \<Rightarrow> 1 \<le> length s \<and> length s \<le> 512) \<or>
         \<not> (case remoteAddr of None \<Rightarrow> True | Some a \<Rightarrow> length a \<le> 255)
      then (errorResult 400 ''BAD_REQUEST'' ''Proxy authentication headers are invalid'' None, db)
      else (case exchangeProxyRuntimeToken hash sign ttlSeconds is_uuid now proxyId proxySecret remoteAddr db of
              Inl err \<Rightarrow> (service_call (Inl err), db)
            | Inr (Inl failure, db') \<Rightarrow> (errorResult (af_status failure) (af_code failure) (af_message failure) None, db')
            | Inr (Inr token, db') \<Rightarrow> (Inr token, db')))"

section \<open>From the secret to the context of a call\<close>

text \<open>
  What the code relies on of the token library, for one payload: a signed token verifies to its
  payload exactly for its issuer and audience and before its expiry, and a token has no surrounding
  blanks.
\<close>

definition jose_roundtrip :: "(jsobj \<Rightarrow> string) \<Rightarrow> (ms \<Rightarrow> string \<Rightarrow> string \<Rightarrow> string \<Rightarrow> jsobj option) \<Rightarrow> jsobj \<Rightarrow> bool" where
  "jose_roundtrip sign jwtVerify p =
     (sign p \<noteq> [] \<and> js_trim (sign p) = sign p \<and>
      (\<forall>now iss aud. jwtVerify now (sign p) iss aud =
        (if obj_get p ''iss'' = JStr iss \<and> obj_get p ''aud'' = JStr aud \<and>
            (case number_claim p ''exp'' of None \<Rightarrow> False | Some e \<Rightarrow> of_int (epoch now) < e)
         then Some p else None)))"

lemma proxy_payload:
  "obj_get (signed_payload ttl now jti (proxy_claims i tn (Some s))) ''iss'' = JStr ISSUER"
  "obj_get (signed_payload ttl now jti (proxy_claims i tn (Some s))) ''aud'' = JStr audience"
  "string_claim (signed_payload ttl now jti (proxy_claims i tn (Some s))) ''sub'' = Some i"
  "string_claim (signed_payload ttl now jti (proxy_claims i tn (Some s))) ''service'' = Some ''proxy''"
  "string_claim (signed_payload ttl now jti (proxy_claims i tn (Some s))) ''jti'' = Some jti"
  "string_claim (signed_payload ttl now jti (proxy_claims i tn (Some s))) ''proxy_id'' = Some i"
  "string_claim (signed_payload ttl now jti (proxy_claims i tn (Some s))) ''tenant_id'' = (if tn = [] then None else Some tn)"
  "number_claim (signed_payload ttl now jti (proxy_claims i tn (Some s))) ''exp'' = Some (of_int (epoch (now + ttl * 1000)))"
  "obj_get (signed_payload ttl now jti (proxy_claims i tn (Some s))) ''tenant_scope'' = JStr (scope_name s)"
  by (simp_all add: signed_payload_def proxy_claims_def token_payload_def present_def obj_spread_Cons obj_get_def string_claim_def
      number_claim_def default_def)

lemma parse_scope_name [simp]: "parseTenantScope (JStr (scope_name s)) = s"
  by (cases s) (simp_all add: parseTenantScope_def)

lemma token_authenticates:
  assumes "jose_roundtrip sign jwtVerify (signed_payload ttl t0 jti (proxy_claims i tn (Some s)))" and "tn \<noteq> []"
  shows "proxyJwtAuthInterceptor jwtVerify t (Some (''Bearer '' @ sign (signed_payload ttl t0 jti (proxy_claims i tn (Some s))))) ip =
    (if epoch t < epoch (t0 + ttl * 1000)
     then Inr \<lparr> px_proxyId = i, px_tenantId = tn, px_tenantScope = Some s, px_proxyIp = opt_or_null ip \<rparr>
     else Inl (AppError ''invalid_proxy_token''))"
proof -
  let ?p = "signed_payload ttl t0 jti (proxy_claims i tn (Some s))"
  have b: "bearer_token (Some (''Bearer '' @ sign ?p)) = sign ?p"
    using assms(1) by (simp add: bearer_token_def default_def js_startsWith_def jose_roundtrip_def)
  have v: "jwtVerify t (sign ?p) ISSUER audience = (if epoch t < epoch (t0 + ttl * 1000) then Some ?p else None)"
    using assms(1) by (simp add: jose_roundtrip_def proxy_payload)
  show ?thesis
    using assms
    by (simp add: proxyJwtAuthInterceptor_def Let_def b verifyProxyRuntimeToken_def verifyInternalServiceRuntimeToken_def v proxy_payload
        sum_bind_def jose_roundtrip_def del: append.simps)
qed

section \<open>Who gets a token\<close>

definition secret_accepted :: "(string \<Rightarrow> string) \<Rightarrow> ms \<Rightarrow> string \<Rightarrow> proxy_row \<Rightarrow> bool" where
  "secret_accepted hash now s p =
     (s \<noteq> [] \<and> hash s \<noteq> [] \<and> (xr_secret_hash p = hash s \<or>
       xr_secret_prev_hash p = Some (hash s) \<and> (\<exists>t. xr_secret_prev_expires_at p = Some t \<and> now < t)))"

abbreviation "proxy_named i db \<equiv> first_row (\<lambda>p. xr_proxy_id p = i) (xd_proxies db)"

lemma secret_check:
  assumes "hash s \<noteq> []" and "s \<noteq> []"
  shows "hashesMatch (Some (xr_secret_hash p)) (hash s) \<or> previousSecretStillValid now (hash s) p \<longleftrightarrow> secret_accepted hash now s p"
  using assms by (auto simp: hashesMatch_def previousSecretStillValid_def secret_accepted_def present_def split: option.splits)

lemma bootstrap_Inr:
  assumes "\<And>x. hash x \<noteq> []"
  shows "requireBootstrapAuthenticatedProxy hash is_uuid now (Some i) (Some s) db = Inr p \<longleftrightarrow>
    i \<noteq> [] \<and> is_uuid i \<and> proxy_named i db = Some p \<and> secret_accepted hash now s p"
proof (cases "s = [] \<or> i = [] \<or> \<not> is_uuid i")
  case True
  then show ?thesis
    by (auto simp: requireBootstrapAuthenticatedProxy_def present_def lookup_proxy_def sum_bind_def secret_accepted_def)
next
  case False
  have "hashesMatch (Some (xr_secret_hash q)) (hash s) \<or> previousSecretStillValid now (hash s) q \<longleftrightarrow> secret_accepted hash now s q" for q
    using False assms by (intro secret_check) auto
  with False show ?thesis
    by (cases "proxy_named i db") (auto simp: requireBootstrapAuthenticatedProxy_def present_def lookup_proxy_def sum_bind_def Let_def)
qed

definition inactive :: "proxy_row \<Rightarrow> bool" where
  "inactive p = (xr_status p = ''disabled'' \<or> xr_status p = ''revoked'')"

lemma authenticate_Inr:
  assumes "\<And>x. hash x \<noteq> []"
  shows "authenticateBootstrapProxy hash is_uuid now (Some i) (Some s) db = Inr (Inr p) \<longleftrightarrow>
    i \<noteq> [] \<and> is_uuid i \<and> proxy_named i db = Some p \<and> secret_accepted hash now s p \<and> \<not> inactive p"
proof -
  have "authenticateBootstrapProxy hash is_uuid now (Some i) (Some s) db = Inr (Inr p) \<longleftrightarrow>
      requireBootstrapAuthenticatedProxy hash is_uuid now (Some i) (Some s) db = Inr p \<and> \<not> inactive p"
    by (auto simp: authenticateBootstrapProxy_def inactive_def sum_bind_Inr_iff Let_def split: sum.splits if_splits)
  then show ?thesis by (auto simp: bootstrap_Inr [OF assms])
qed

lemma status_event_known: "t \<in> set PROXY_STATUS_EVENT_TYPES \<Longrightarrow>
    insertProxyStatusEvent now tn i ip t actor detail db = Inr (db\<lparr> xd_events := xd_events db @
      [\<lparr> se_tenant_id = tn, se_proxy_id = i, se_proxy_ip = ip, se_event_type = t, se_actor_user_id = actor, se_detail = detail,
         se_created_at = now \<rparr>] \<rparr>)"
  by (simp add: insertProxyStatusEvent_def assertProxyStatusEventType_def sum_bind_def)

lemma exchange_events_known [simp]:
  "''token_exchange_attempt'' \<in> set PROXY_STATUS_EVENT_TYPES" "''token_issued'' \<in> set PROXY_STATUS_EVENT_TYPES"
  "''token_exchange_failed'' \<in> set PROXY_STATUS_EVENT_TYPES" "''proxy_disabled'' \<in> set PROXY_STATUS_EVENT_TYPES"
  "''proxy_enabled'' \<in> set PROXY_STATUS_EVENT_TYPES" "''proxy_revoked'' \<in> set PROXY_STATUS_EVENT_TYPES"
  "''secret_rotated'' \<in> set PROXY_STATUS_EVENT_TYPES"
  by (simp_all add: PROXY_STATUS_EVENT_TYPES_def)

lemma exchange_token:
  assumes "authenticateBootstrapProxy hash is_uuid now (Some i) (Some s) db = Inr (Inr p)"
  shows "\<exists>db'. exchangeProxyRuntimeToken hash sign ttl is_uuid now (Some i) (Some s) ip db =
    Inr (Inr (issueProxyRuntimeToken sign ttl now (fst (draw (xd_uuids db))) (xr_proxy_id p) (xr_tenant_id p) (Some (xr_tenant_scope p))), db')"
  using assms by (simp add: exchangeProxyRuntimeToken_def status_event_known sum_bind_def Let_def case_prod_beta)

lemma exchange_Inr_Inr:
  assumes "exchangeProxyRuntimeToken hash sign ttl is_uuid now (Some i) (Some s) ip db = Inr (Inr token, db')"
  shows "\<exists>p. authenticateBootstrapProxy hash is_uuid now (Some i) (Some s) db = Inr (Inr p) \<and>
    token = issueProxyRuntimeToken sign ttl now (fst (draw (xd_uuids db))) (xr_proxy_id p) (xr_tenant_id p) (Some (xr_tenant_scope p))"
proof -
  from assms obtain r where r: "authenticateBootstrapProxy hash is_uuid now (Some i) (Some s) db = Inr r"
    by (auto simp: exchangeProxyRuntimeToken_def sum_bind_Inr_iff)
  show ?thesis
  proof (cases r)
    case (Inl f)
    with assms r show ?thesis by (auto simp: exchangeProxyRuntimeToken_def sum_bind_Inr_iff)
  next
    case (Inr p)
    with assms r exchange_token [OF r [unfolded Inr], of sign ttl ip] show ?thesis by auto
  qed
qed

text \<open>
  C24: a proxy acts as what it was registered as. When the exchange of a secret yields a token, the
  proxy with that identifier is neither disabled nor revoked and the secret is its current one, or its
  previous one within the grace period. Until it expires the token gives every call the identifier,
  the tenant and the scope of that registration, and afterwards it gives nothing; how the token library
  behaves on the payload is assumed.
\<close>

theorem exchanged_token_authenticates:
  assumes "exchangeProxyRuntimeToken hash sign ttl is_uuid t0 (Some i) (Some s) ip db = Inr (Inr token, db')"
    and "proxy_named i db = Some p" and "xr_tenant_id p \<noteq> []" and "\<And>x. hash x \<noteq> []"
    and "jose_roundtrip sign jwtVerify
      (signed_payload ttl t0 (fst (draw (xd_uuids db))) (proxy_claims i (xr_tenant_id p) (Some (xr_tenant_scope p))))"
  shows "\<not> inactive p \<and> secret_accepted hash t0 s p \<and> rt_expiresAt token = t0 + ttl * 1000 \<and>
    proxyJwtAuthInterceptor jwtVerify t (Some (''Bearer '' @ rt_accessToken token)) addr =
      (if epoch t < epoch (rt_expiresAt token)
       then Inr \<lparr> px_proxyId = i, px_tenantId = xr_tenant_id p, px_tenantScope = Some (xr_tenant_scope p), px_proxyIp = opt_or_null addr \<rparr>
       else Inl (AppError ''invalid_proxy_token''))"
proof -
  from exchange_Inr_Inr [OF assms(1)] assms(2,4) have a: "\<not> inactive p" "secret_accepted hash t0 s p"
    and token: "token = issueProxyRuntimeToken sign ttl t0 (fst (draw (xd_uuids db))) (xr_proxy_id p) (xr_tenant_id p) (Some (xr_tenant_scope p))"
    by (auto simp: authenticate_Inr)
  have "xr_proxy_id p = i" using assms(2) by (auto simp: first_row_def dest: find_SomeD)
  with a token token_authenticates [OF assms(5,3), of t addr] show ?thesis
    by (simp add: issueProxyRuntimeToken_def issueInternalServiceRuntimeToken_def)
qed

definition sample_proxy_row :: proxy_row where
  "sample_proxy_row = \<lparr> xr_id = ''r1'', xr_tenant_id = ''t1'', xr_proxy_id = ''x1'', xr_name = ''edge'', xr_status = ''active'',
     xr_tenant_scope = Owner_only, xr_secret_hash = ''#cxp_a'', xr_secret_prev_hash = None, xr_secret_prev_expires_at = None,
     xr_secret_prefix = ''cxp_a'', xr_disabled_at = None, xr_secret_rotated_at = None, xr_last_seen_at = None, xr_created_at = 0 \<rparr>"

definition sample_proxies :: proxy_db where
  "sample_proxies = \<lparr> xd_proxies = [sample_proxy_row], xd_events = [],
     xd_uuids = \<lparr> us_supply = (\<lambda>n. replicate (Suc n) CHR ''u''), us_drawn = 0 \<rparr>,
     xd_secrets = \<lparr> us_supply = (\<lambda>n. replicate (Suc n) CHR ''s''), us_drawn = 0 \<rparr> \<rparr>"

definition sample_hash :: "string \<Rightarrow> string" where
  "sample_hash s = ''#'' @ s"

definition sample_payload :: jsobj where
  "sample_payload = signed_payload 300 1000 ''u'' (proxy_claims ''x1'' ''t1'' (Some Owner_only))"

definition sample_verify :: "ms \<Rightarrow> string \<Rightarrow> string \<Rightarrow> string \<Rightarrow> jsobj option" where
  "sample_verify now token iss aud =
     (if token = ''tok'' \<and> iss = ISSUER \<and> aud = audience \<and> epoch now < 301 then Some sample_payload else None)"

lemma sample_jose: "jose_roundtrip (\<lambda>_. ''tok'') sample_verify sample_payload"
proof -
  have "js_trim ''tok'' = ''tok''" by code_simp
  moreover have "epoch (1000 + 300 * 1000) = 301" by (simp add: epoch_def)
  moreover have "(301 :: rat) = of_int 301" by simp
  ultimately show ?thesis
    by (auto simp: jose_roundtrip_def sample_verify_def sample_payload_def proxy_payload simp del: of_int_numeral)
qed

lemma sample_exchange:
  "case exchangeProxyRuntimeToken sample_hash (\<lambda>_. ''tok'') 300 (\<lambda>_. True) 1000 (Some ''x1'') (Some ''cxp_a'') None sample_proxies of
     Inr (Inr token, db') \<Rightarrow> rt_accessToken token = ''tok'' \<and> rt_expiresAt token = 301000 \<and> map se_event_type (xd_events db') = [''token_exchange_attempt'', ''token_issued'']
   | _ \<Rightarrow> False"
  by code_simp

lemma token_case: "(case x of Inr (Inr a, b) \<Rightarrow> P a b | _ \<Rightarrow> False) \<Longrightarrow> \<exists>a b. x = Inr (Inr a, b) \<and> P a b"
proof (cases x)
  case (Inr y)
  moreover assume "case x of Inr (Inr a, b) \<Rightarrow> P a b | _ \<Rightarrow> False"
  ultimately show ?thesis by (cases y; cases "fst y") auto
qed simp

theorem exchanged_token_authenticates_witness:
  "\<exists>token db'. exchangeProxyRuntimeToken sample_hash (\<lambda>_. ''tok'') 300 (\<lambda>_. True) 1000 (Some ''x1'') (Some ''cxp_a'') None sample_proxies =
       Inr (Inr token, db') \<and>
     proxyJwtAuthInterceptor sample_verify 5000 (Some (''Bearer '' @ rt_accessToken token)) None =
       Inr \<lparr> px_proxyId = ''x1'', px_tenantId = ''t1'', px_tenantScope = Some Owner_only, px_proxyIp = None \<rparr> \<and>
     proxyJwtAuthInterceptor sample_verify 301000 (Some (''Bearer '' @ rt_accessToken token)) None = Inl (AppError ''invalid_proxy_token'')"
proof -
  from sample_exchange obtain token db' where
    ex: "exchangeProxyRuntimeToken sample_hash (\<lambda>_. ''tok'') 300 (\<lambda>_. True) 1000 (Some ''x1'') (Some ''cxp_a'') None sample_proxies = Inr (Inr token, db')"
    and x: "rt_expiresAt token = 301000" by (auto dest: token_case)
  have n: "proxy_named ''x1'' sample_proxies = Some sample_proxy_row"
    by (simp add: first_row_def sample_proxies_def sample_proxy_row_def)
  have f: "xr_tenant_id sample_proxy_row = ''t1''" "xr_tenant_scope sample_proxy_row = Owner_only" by (simp_all add: sample_proxy_row_def)
  have j: "jose_roundtrip (\<lambda>_. ''tok'') sample_verify (signed_payload 300 1000 (fst (draw (xd_uuids sample_proxies)))
      (proxy_claims ''x1'' (xr_tenant_id sample_proxy_row) (Some (xr_tenant_scope sample_proxy_row))))"
    using sample_jose by (simp add: sample_payload_def f draw_def sample_proxies_def)
  have "proxyJwtAuthInterceptor sample_verify t (Some (''Bearer '' @ rt_accessToken token)) None =
      (if epoch t < epoch 301000
       then Inr \<lparr> px_proxyId = ''x1'', px_tenantId = ''t1'', px_tenantScope = Some Owner_only, px_proxyIp = opt_or_null None \<rparr>
       else Inl (AppError ''invalid_proxy_token''))" for t
    using exchanged_token_authenticates [OF ex n _ _ j, of t None] f x by (simp add: sample_hash_def)
  then show ?thesis using ex by (intro exI [of _ token] exI [of _ db']) (simp add: epoch_def opt_or_null_def present_def)
qed

section \<open>Rotation\<close>

lemma find_update_where:
  assumes "\<And>r. P (f r) = P r"
  shows "find P (update_where Q f rows) = map_option (\<lambda>r. if Q r then f r else r) (find P rows)"
  using assms by (induction rows) (auto simp: update_where_def)

text \<open>
  C26: rotation replaces a secret and leaves its predecessor one hour. After a rotation at time \<open>t0\<close> the
  proxy authenticates with the new secret at any time, with the one it had before the rotation until
  exactly one hour later, and with no other secret, in particular not with a predecessor of the old one.
\<close>

theorem rotation_grace_exact:
  assumes "rotateProxySecret hash t0 tenantId i actor db = Inr (Some r, db')" and "proxy_named i db = Some p"
    and "xr_tenant_id p = tenantId" and "i \<noteq> []" and "is_uuid i" and "\<And>x. hash x \<noteq> []" and "s \<noteq> []"
  shows "(\<exists>q. requireBootstrapAuthenticatedProxy hash is_uuid t (Some i) (Some s) db' = Inr q) \<longleftrightarrow>
    hash s = hash (rs_secret r) \<or> hash s = xr_secret_hash p \<and> t < t0 + 3600000"
proof -
  let ?sec = "fst (generateProxySecret hash (xd_secrets db))"
  let ?upd = "\<lambda>p. p\<lparr> xr_secret_prev_hash := Some (xr_secret_hash p), xr_secret_prev_expires_at := Some (t0 + 60 * 60 * 1000),
      xr_secret_hash := xs_secretHash ?sec, xr_secret_prefix := xs_secretPrefix ?sec, xr_secret_rotated_at := Some t0 \<rparr>"
  from assms(1) have r: "rs_secret r = xs_rawSecret ?sec"
      and db': "xd_proxies db' = update_where (the_proxy tenantId i) ?upd (xd_proxies db)"
    by (auto simp: rotateProxySecret_def Let_def case_prod_beta status_event_known sum_bind_def split: option.splits)
  have p: "xr_proxy_id p = i" "the_proxy tenantId i p"
    using assms(2,3) by (auto simp: first_row_def the_proxy_def dest: find_SomeD)
  have "proxy_named i db' = Some (?upd p)"
    using assms(2) p by (simp add: db' first_row_def find_update_where)
  moreover have "xs_secretHash ?sec = hash (rs_secret r)"
    by (simp add: r generateProxySecret_def Let_def case_prod_beta)
  ultimately show ?thesis
    using assms(4-7) by (auto simp: bootstrap_Inr [OF assms(6)] secret_accepted_def)
qed

definition sample_rotated :: "js_error + (rotated_secret option \<times> proxy_db)" where
  "sample_rotated = rotateProxySecret sample_hash 1000 ''t1'' ''x1'' ''ann'' sample_proxies"

lemma option_case_result:
  assumes "case x of Inr (Some a, b) \<Rightarrow> P a | _ \<Rightarrow> False"
  shows "\<exists>a b. x = Inr (Some a, b) \<and> P a"
proof (cases x)
  case (Inr y)
  with assms show ?thesis by (cases y; cases "fst y") auto
qed (use assms in simp)

lemma sample_rotation:
  "\<exists>r db'. sample_rotated = Inr (Some r, db') \<and> rs_secret r = ''cxp_s''"
proof -
  have "case sample_rotated of Inr (Some r, db') \<Rightarrow> rs_secret r = ''cxp_s'' | _ \<Rightarrow> False" by code_simp
  then show ?thesis by (rule option_case_result)
qed

theorem rotation_grace_exact_witness:
  "\<exists>r db'. sample_rotated = Inr (Some r, db') \<and>
     (\<exists>q. requireBootstrapAuthenticatedProxy sample_hash (\<lambda>_. True) 3600999 (Some ''x1'') (Some ''cxp_a'') db' = Inr q) \<and>
     \<not> (\<exists>q. requireBootstrapAuthenticatedProxy sample_hash (\<lambda>_. True) 3601000 (Some ''x1'') (Some ''cxp_a'') db' = Inr q)"
proof -
  from sample_rotation obtain r db' where rot: "sample_rotated = Inr (Some r, db')" and s: "rs_secret r = ''cxp_s''" by blast
  have n: "proxy_named ''x1'' sample_proxies = Some sample_proxy_row" "xr_tenant_id sample_proxy_row = ''t1''"
      "xr_secret_hash sample_proxy_row = ''#cxp_a''"
    by (simp_all add: first_row_def sample_proxies_def sample_proxy_row_def)
  have "(\<exists>q. requireBootstrapAuthenticatedProxy sample_hash (\<lambda>_. True) t (Some ''x1'') (Some ''cxp_a'') db' = Inr q) \<longleftrightarrow> t < 3601000" for t
    using rotation_grace_exact [OF rot [unfolded sample_rotated_def] n(1,2), of "\<lambda>_. True" "''cxp_a''" t] n(3) s
    by (simp add: sample_hash_def)
  then show ?thesis using rot by (intro exI [of _ r] exI [of _ db']) simp
qed

section \<open>What a tenant can do to proxies\<close>

inductive proxy_admin :: "auth_context \<Rightarrow> proxy_db \<Rightarrow> proxy_db \<Rightarrow> bool" for auth where
  created: "createProxyRoute hash auth now name db = Inr (x, db') \<Longrightarrow> proxy_admin auth db db'"
| disabled: "disableProxyRoute is_uuid auth now param db = Inr (x', db') \<Longrightarrow> proxy_admin auth db db'"
| enabled: "enableProxyRoute is_uuid auth now param db = Inr (x', db') \<Longrightarrow> proxy_admin auth db db'"
| revoked: "revokeProxyRoute is_uuid auth now param db = Inr (x', db') \<Longrightarrow> proxy_admin auth db db'"
| rotated: "rotateProxySecretRoute hash is_uuid auth now param db = Inr (x'', db') \<Longrightarrow> proxy_admin auth db db'"
| scoped: "proxyScopeRoute is_uuid auth param scope db = Inr (x''', db') \<Longrightarrow> proxy_admin auth db db'"

definition foreign :: "string \<Rightarrow> proxy_db \<Rightarrow> proxy_row list" where
  "foreign tenantId db = filter (\<lambda>p. xr_tenant_id p \<noteq> tenantId) (xd_proxies db)"

definition shared_proxies :: "proxy_db \<Rightarrow> string set" where
  "shared_proxies db = {xr_proxy_id p | p. p \<in> set (xd_proxies db) \<and> xr_tenant_scope p = All_tenants}"

definition may_share :: "auth_context \<Rightarrow> bool" where
  "may_share auth = (requireTenantCapability auth ''platform.proxies.set_all_tenants''
     ''You do not have access to share proxies across tenants'' = Inr ())"

text \<open>An update of the caller's own rows that keeps tenant and identifier.\<close>

lemma update_own:
  assumes "\<And>p. xr_tenant_id (f p) = xr_tenant_id p" and "\<And>p. xr_proxy_id (f p) = xr_proxy_id p"
    and "xd_proxies db' = update_where (the_proxy tn i) f (xd_proxies db)"
  shows "foreign tn db' = foreign tn db \<and> ((\<forall>p. xr_tenant_scope (f p) = All_tenants \<longrightarrow> xr_tenant_scope p = All_tenants) \<longrightarrow>
    shared_proxies db' \<subseteq> shared_proxies db)"
proof -
  have "filter (\<lambda>p. xr_tenant_id p \<noteq> tn) (update_where (the_proxy tn i) f rows) = filter (\<lambda>p. xr_tenant_id p \<noteq> tn) rows" for rows
    by (induction rows) (auto simp: update_where_def the_proxy_def assms(1))
  moreover have "shared_proxies db' \<subseteq> shared_proxies db" if "\<forall>p. xr_tenant_scope (f p) = All_tenants \<longrightarrow> xr_tenant_scope p = All_tenants"
    using that assms(2) by (auto simp: shared_proxies_def assms(3) update_where_def)
  ultimately show ?thesis by (simp add: foreign_def assms(3))
qed

lemma proxy_route_Inr:
  "proxy_route is_uuid auth param action = Inr (r, db') \<Longrightarrow> action param = Inr (Some r, db')"
  by (auto simp: proxy_route_def sum_bind_Inr_iff validateUuidParam_def errorResult_def split: if_splits option.splits)

lemma change_status_rows:
  "change_status now tn i actor st ev db = Inr (Some r, db') \<Longrightarrow>
     xd_proxies db' = update_where (the_proxy tn i)
       (\<lambda>p. p\<lparr> xr_status := st, xr_disabled_at := (if st = ''disabled'' \<or> st = ''revoked'' then Some now else None) \<rparr>) (xd_proxies db)"
  by (auto simp: change_status_def setProxyStatus_def insertProxyStatusEvent_def sum_bind_Inr_iff split: option.splits)

lemma change_status_own:
  "change_status now tn i actor st ev db = Inr (Some r, db') \<Longrightarrow>
     foreign tn db' = foreign tn db \<and> shared_proxies db' \<subseteq> shared_proxies db"
  using update_own [OF _ _ change_status_rows] by simp

lemma proxy_admin_own:
  assumes "proxy_admin auth db db'"
  shows "foreign (au_tenantId auth) db' = foreign (au_tenantId auth) db \<and>
    (\<not> may_share auth \<longrightarrow> shared_proxies db' \<subseteq> shared_proxies db)"
  using assms
proof cases
  case (created hash now name x)
  then have "createProxy hash now (au_tenantId auth) name db = Inr (x, db')"
    by (auto simp: createProxyRoute_def sum_bind_Inr_iff errorResult_def split: if_splits)
  then show ?thesis
    by (auto simp: createProxy_def Let_def case_prod_beta foreign_def shared_proxies_def split: if_splits)
next
  case (rotated hash is_uuid now param x'')
  then have "rotateProxySecret hash now (au_tenantId auth) param (au_userId auth) db = Inr (Some x'', db')"
    unfolding rotateProxySecretRoute_def by (rule proxy_route_Inr)
  then have "xd_proxies db' = update_where (the_proxy (au_tenantId auth) param)
      (\<lambda>p. p\<lparr> xr_secret_prev_hash := Some (xr_secret_hash p), xr_secret_prev_expires_at := Some (now + 60 * 60 * 1000),
              xr_secret_hash := xs_secretHash (fst (generateProxySecret hash (xd_secrets db))),
              xr_secret_prefix := xs_secretPrefix (fst (generateProxySecret hash (xd_secrets db))), xr_secret_rotated_at := Some now \<rparr>)
      (xd_proxies db)"
    by (auto simp: rotateProxySecret_def Let_def case_prod_beta status_event_known sum_bind_def split: option.splits)
  from update_own [OF _ _ this] show ?thesis by simp
next
  case (scoped is_uuid param scope x''')
  then have rows: "xd_proxies db' = update_where (the_proxy (au_tenantId auth) param) (\<lambda>p. p\<lparr> xr_tenant_scope := scope \<rparr>) (xd_proxies db)"
    and "scope = All_tenants \<Longrightarrow> may_share auth"
    by (auto simp: proxyScopeRoute_def sum_bind_Inr_iff updateProxyTenantScope_def validateUuidParam_def errorResult_def may_share_def
        split: if_splits option.splits)
  with update_own [OF _ _ rows] show ?thesis by (cases scope) auto
qed (auto simp: disableProxyRoute_def enableProxyRoute_def revokeProxyRoute_def disableProxy_def enableProxy_def revokeProxy_def
      dest!: proxy_route_Inr change_status_own)

text \<open>
  C25: a tenant administers its own proxies only. Whatever sequence of registrations, status changes,
  rotations and scope changes a user makes, the proxies of other tenants stay as they are, and as long
  as the user lacks the platform capability for it no proxy is opened to all tenants.
\<close>

theorem proxy_admin_isolated:
  assumes "(proxy_admin auth)\<^sup>*\<^sup>* db db'"
  shows "foreign (au_tenantId auth) db' = foreign (au_tenantId auth) db \<and>
    (\<not> may_share auth \<longrightarrow> shared_proxies db' \<subseteq> shared_proxies db)"
  using assms by (induction rule: rtranclp_induct) (auto dest: proxy_admin_own)

definition two_tenants :: proxy_db where
  "two_tenants = sample_proxies\<lparr> xd_proxies := [sample_proxy_row, sample_proxy_row\<lparr> xr_id := ''r2'', xr_proxy_id := ''x2'', xr_tenant_id := ''t2'' \<rparr>] \<rparr>"

theorem proxy_admin_isolated_witness:
  "\<exists>db'. proxy_admin sample_auth two_tenants db' \<and> xd_proxies db' \<noteq> xd_proxies two_tenants \<and>
     foreign ''t1'' db' = [sample_proxy_row\<lparr> xr_id := ''r2'', xr_proxy_id := ''x2'', xr_tenant_id := ''t2'' \<rparr>] \<and> shared_proxies db' = {}"
proof -
  have "case disableProxyRoute (\<lambda>_. True) sample_auth 5 ''x1'' two_tenants of
      Inl _ \<Rightarrow> False | Inr (_, db') \<Rightarrow> map xr_status (xd_proxies db') = [''disabled'', ''active'']" by code_simp
  then obtain x db' where d: "disableProxyRoute (\<lambda>_. True) sample_auth 5 ''x1'' two_tenants = Inr (x, db')"
    and st: "map xr_status (xd_proxies db') = [''disabled'', ''active'']" by (auto split: sum.splits)
  from d have step: "proxy_admin sample_auth two_tenants db'" by (rule proxy_admin.disabled)
  have "\<not> may_share sample_auth"
  proof -
    have "requireTenantCapability sample_auth ''platform.proxies.set_all_tenants''
        ''You do not have access to share proxies across tenants'' \<noteq> Inr ()" by code_simp
    then show ?thesis by (simp add: may_share_def)
  qed
  with step proxy_admin_isolated [of sample_auth two_tenants db']
  have "foreign ''t1'' db' = foreign ''t1'' two_tenants" "shared_proxies db' \<subseteq> shared_proxies two_tenants"
    by (auto simp: sample_auth_def)
  moreover have "shared_proxies two_tenants = {}" "foreign ''t1'' two_tenants = [sample_proxy_row\<lparr> xr_id := ''r2'', xr_proxy_id := ''x2'', xr_tenant_id := ''t2'' \<rparr>]"
    by (auto simp: shared_proxies_def foreign_def two_tenants_def sample_proxy_row_def)
  moreover have "xd_proxies db' \<noteq> xd_proxies two_tenants"
  proof
    assume "xd_proxies db' = xd_proxies two_tenants"
    with st show False by (simp add: two_tenants_def sample_proxy_row_def)
  qed
  ultimately show ?thesis using step by (intro exI [of _ db']) simp
qed

section \<open>Weak points\<close>

text \<open>A revoked proxy comes back when it is enabled: revocation is a status like the others.\<close>

lemma revoked_proxy_can_be_enabled:
  "case revokeProxyRoute (\<lambda>_. True) sample_auth 5 ''x1'' sample_proxies of
     Inl _ \<Rightarrow> False
   | Inr (_, db1) \<Rightarrow>
       (case enableProxyRoute (\<lambda>_. True) sample_auth 6 ''x1'' db1 of
          Inl _ \<Rightarrow> False
        | Inr (_, db2) \<Rightarrow>
            (case exchangeProxyRuntimeToken sample_hash (\<lambda>_. ''tok'') 300 (\<lambda>_. True) 7 (Some ''x1'') (Some ''cxp_a'') None db2 of
               Inr (Inr _, _) \<Rightarrow> True | _ \<Rightarrow> False))"
  by code_simp

text \<open>A proxy may report events that only the administration produces, such as its own enabling.\<close>

lemma proxy_reports_administrative_event:
  "\<exists>db'. handleRecordProxyStatus now proxy ''proxy_enabled'' db = Inr db' \<and>
     se_event_type (last (xd_events db')) = ''proxy_enabled'' \<and> se_actor_user_id (last (xd_events db')) = None"
  by (simp add: handleRecordProxyStatus_def status_event_known assertProxyStatusEventType_def sum_bind_def)

section \<open>The audit trail of exchanges\<close>

definition exchange_event :: "proxy_row \<Rightarrow> string option \<Rightarrow> ms \<Rightarrow> string \<Rightarrow> string option \<Rightarrow> status_event_row" where
  "exchange_event p ip now eventType detail =
     \<lparr> se_tenant_id = xr_tenant_id p, se_proxy_id = xr_proxy_id p, se_proxy_ip = ip, se_event_type = eventType,
       se_actor_user_id = None, se_detail = detail, se_created_at = now \<rparr>"

text \<open>
  Every exchange with the identifier of a registered proxy is answered and leaves its trace. The
  refusals are for a wrong secret, a disabled and a revoked proxy, in this order, and each is recorded
  with its reason under the proxy and its tenant; a granted exchange is recorded as attempted and
  issued.
\<close>

theorem exchange_audited:
  assumes "proxy_named i db = Some p" and "is_uuid i" and "i \<noteq> []" and "s \<noteq> []" and "\<And>x. hash x \<noteq> []"
  shows "\<exists>r db'. exchangeProxyRuntimeToken hash sign ttl is_uuid now (Some i) (Some s) ip db = Inr (r, db') \<and>
    (if \<not> secret_accepted hash now s p
     then (\<exists>f. r = Inl f \<and> af_status f = 401 \<and> af_code f = ''INVALID_PROXY_SECRET'') \<and>
       xd_events db' = xd_events db @ [exchange_event p ip now ''token_exchange_failed'' (Some ''invalid_proxy_secret'')]
     else if inactive p
     then (\<exists>f. r = Inl f \<and> af_status f = 403) \<and>
       xd_events db' = xd_events db @ [exchange_event p ip now ''token_exchange_attempt'' None,
         exchange_event p ip now ''token_exchange_failed'' (Some (if xr_status p = ''disabled'' then ''proxy_disabled'' else ''proxy_revoked''))]
     else (\<exists>token. r = Inr token) \<and>
       xd_events db' = xd_events db @ [exchange_event p ip now ''token_exchange_attempt'' None, exchange_event p ip now ''token_issued'' None])"
proof (cases "secret_accepted hash now s p")
  case True
  then have b: "requireBootstrapAuthenticatedProxy hash is_uuid now (Some i) (Some s) db = Inr p"
    using assms by (simp add: bootstrap_Inr)
  show ?thesis
    using True
    by (auto simp: exchangeProxyRuntimeToken_def authenticateBootstrapProxy_def b inactive_def status_failure_def audit_failure_def
        status_event_known sum_bind_def exchange_event_def Let_def case_prod_beta)
next
  case False
  have "\<not> (hashesMatch (Some (xr_secret_hash p)) (hash s) \<or> previousSecretStillValid now (hash s) p)"
    using False secret_check [of hash s p now] assms(4,5) by blast
  then have b: "requireBootstrapAuthenticatedProxy hash is_uuid now (Some i) (Some s) db = Inl (AppError ''invalid_proxy_secret'')"
    using assms by (simp add: requireBootstrapAuthenticatedProxy_def present_def lookup_proxy_def sum_bind_def Let_def)
  show ?thesis
    using False assms(1-3)
    by (simp add: exchangeProxyRuntimeToken_def authenticateBootstrapProxy_def b audit_failure_def lookup_proxy_def present_def
        status_event_known sum_bind_def exchange_event_def Let_def)
qed

theorem exchange_audited_witness:
  "\<exists>r db'. exchangeProxyRuntimeToken sample_hash (\<lambda>_. ''tok'') 300 (\<lambda>_. True) 9 (Some ''x1'') (Some ''wrong'') None sample_proxies = Inr (r, db') \<and>
     (\<exists>f. r = Inl f \<and> af_status f = 401) \<and>
     xd_events db' = [exchange_event sample_proxy_row None 9 ''token_exchange_failed'' (Some ''invalid_proxy_secret'')]"
proof -
  have "proxy_named ''x1'' sample_proxies = Some sample_proxy_row" by (simp add: first_row_def sample_proxies_def sample_proxy_row_def)
  moreover have "\<not> secret_accepted sample_hash 9 ''wrong'' sample_proxy_row"
    by (simp add: secret_accepted_def sample_hash_def sample_proxy_row_def)
  moreover have "xd_events sample_proxies = []" by (simp add: sample_proxies_def)
  ultimately show ?thesis
    using exchange_audited [of "''x1''" sample_proxies sample_proxy_row "\<lambda>_. True" "''wrong''" sample_hash "\<lambda>_. ''tok''" 300 9 None]
    by (auto simp: sample_hash_def)
qed

end
