(* ===== verification/Provisioning.thy ===== *)
theory Provisioning
  imports Tenant_Access Proxies
begin

text \<open>
  How a tenant comes to have policies: the starter policies, the copy of the platform's templates and
  the default entitlements of \<open>bootstrap/tenant-provisioning.ts\<close>, and the initialization of a bundled
  installation, \<open>bootstrap/bundled-bootstrap-init.ts\<close>, which creates the two tenants and registers the
  proxy. All of it runs in one transaction: an exception leaves nothing.
\<close>

section \<open>Starter policies\<close>

record rule_template =
  rt_name :: string
  rt_description :: "string option"
  rt_target_entity :: string
  rt_condition :: jsval
  rt_action :: jsobj
  rt_enabled :: bool
  rt_required :: bool
  rt_order_index :: int

record policy_template =
  pt_name :: string
  pt_description :: "string option"
  pt_category :: "string option"
  pt_status :: string
  pt_enforcement_mode :: string
  pt_priority :: int
  pt_rules :: "rule_template list"

definition leaf_condition :: "string \<Rightarrow> string \<Rightarrow> jsval \<Rightarrow> jsval" where
  "leaf_condition field operator value = JObj [(''field'', JStr field), (''operator'', JStr operator), (''value'', value)]"

definition starter_action :: "string \<Rightarrow> string \<Rightarrow> string \<Rightarrow> jsobj" where
  "starter_action severity code message_template =
     [(''type'', JStr ''violation''), (''severity'', JStr severity), (''code'', JStr code),
      (''enforcement_mode'', JStr ''enforcing''), (''message_template'', JStr message_template)]"

text \<open>A rule of the starter definitions: bound, enabled, not required, at its place.\<close>

definition starter_rule :: "nat \<Rightarrow> string \<Rightarrow> string \<Rightarrow> jsval \<Rightarrow> jsobj \<Rightarrow> rule_template" where
  "starter_rule index name description condition action =
     \<lparr> rt_name = name, rt_description = Some description, rt_target_entity = ''artifact'', rt_condition = condition,
       rt_action = action, rt_enabled = True, rt_required = False, rt_order_index = int index \<rparr>"

definition starter_policy :: "string \<Rightarrow> string \<Rightarrow> string \<Rightarrow> int \<Rightarrow> rule_template list \<Rightarrow> policy_template" where
  "starter_policy name description category priority rules =
     \<lparr> pt_name = name, pt_description = Some description, pt_category = Some category, pt_status = ''active'',
       pt_enforcement_mode = ''enforcing'', pt_priority = priority, pt_rules = rules \<rparr>"

definition cooling_rule :: rule_template where
  "cooling_rule = starter_rule 0 ''Block Newly Released Package Versions''
     ''Blocks package versions during the default release cooling period so freshly published packages have time to accumulate ecosystem signals''
     (leaf_condition ''asset.version_age_days'' ''lt'' (JNum 7))
     (starter_action ''high'' ''PACKAGE_VERSION_COOLING_PERIOD''
        ''Package version is {{asset.version_age_days}} day(s) old; required cooling period is 7 days'' @
      [(''recommended_remediation'',
        JStr ''Wait until this package version is at least 7 days old, or review and adjust the tenant policy if this release is trusted'')])"

definition osv_unavailable_rule :: rule_template where
  "osv_unavailable_rule = starter_rule 1 ''Block When OSV Data Unavailable''
     ''Blocks packages when the OSV connector times out or is otherwise unavailable so missing vulnerability data does not silently allow a package''
     (leaf_condition ''source.osv._meta.status'' ''in'' (JArr [JStr ''background_pending'', JStr ''unavailable'', JStr ''error'']))
     (starter_action ''high'' ''OSV_DATA_UNAVAILABLE'' ''OSV vulnerability data unavailable (status: {{source.osv._meta.status}})'')"

definition critical_rule :: rule_template where
  "critical_rule = starter_rule 2 ''Block Critical CVEs'' ''Blocks any package with one or more critical-severity CVEs''
     (leaf_condition ''source.osv.critical_count'' ''gt'' (JNum 0))
     (starter_action ''critical'' ''OSV_CRITICAL_CVE'' ''Package has {{source.osv.critical_count}} critical CVE(s)'')"

definition high_rule :: rule_template where
  "high_rule = starter_rule 3 ''Block High CVEs'' ''Blocks any package with one or more high-severity CVEs''
     (leaf_condition ''source.osv.high_count'' ''gt'' (JNum 0))
     (starter_action ''high'' ''OSV_HIGH_CVE'' ''Package has {{source.osv.high_count}} high CVE(s)'')"

definition contributor_rule :: rule_template where
  "contributor_rule = starter_rule 0 ''Block High Contributor Risk''
     ''Blocks packages with contributor risk score >= 80 (new actor, fresh account, or high release velocity)''
     (leaf_condition ''source.contributor.contributor_risk_score'' ''gte'' (JNum 80))
     (starter_action ''high'' ''CONTRIBUTOR_RISK_HIGH''
        ''Package has contributor risk score {{source.contributor.contributor_risk_score}} (threshold: 80)'' @
      [(''recommended_remediation'', JStr ''Review the package maintainer history and recent releases before upgrading'')])"

definition STARTER_POLICY_DEFINITIONS :: "policy_template list" where
  "STARTER_POLICY_DEFINITIONS =
     [starter_policy ''Default Security Policy''
        ''Blocks newly published package versions, packages with critical or high CVEs detected by OSV, and demonstrates fail-closed handling when OSV data is unavailable''
        ''vulnerability-management'' 100 [cooling_rule, osv_unavailable_rule, critical_rule, high_rule],
      starter_policy ''Contributor Risk Policy''
        ''Blocks packages with elevated contributor risk scores (new maintainer, fresh account, high velocity)''
        ''supply-chain'' 110 [contributor_rule]]"

section \<open>Installation of a policy\<close>

text \<open>
  The three inserts that both the starter policies and the copied templates make: the policy, its
  rules, and their bindings in the order of the rules.
\<close>

definition template_policy :: "ms \<Rightarrow> string \<Rightarrow> string \<Rightarrow> string \<Rightarrow> policy_template \<Rightarrow> policy_row" where
  "template_policy now rowId key tenantId tmpl =
     \<lparr> po_id = rowId, po_policy_key = key, po_tenant_id = tenantId, po_project_id = None, po_name = pt_name tmpl,
       po_description = pt_description tmpl, po_category = pt_category tmpl, po_scope = ''global'', po_status = pt_status tmpl,
       po_enforcement_mode = pt_enforcement_mode tmpl, po_priority = pt_priority tmpl, po_version = 1, po_effective_from = now,
       po_effective_to = None, po_superseded_by_id = None \<rparr>"

definition template_rule :: "ms \<Rightarrow> string \<Rightarrow> string \<Rightarrow> string \<Rightarrow> rule_template \<Rightarrow> rule_row" where
  "template_rule now rowId key tenantId r =
     \<lparr> ru_id = rowId, ru_rule_key = key, ru_tenant_id = tenantId, ru_name = rt_name r, ru_description = rt_description r,
       ru_target_entity = rt_target_entity r, ru_condition = rt_condition r, ru_action = rt_action r, ru_version = 1,
       ru_effective_from = now, ru_effective_to = None, ru_superseded_by_id = None \<rparr>"

definition template_binding :: "string \<Rightarrow> rule_template \<Rightarrow> binding_clone" where
  "template_binding ruleId r =
     \<lparr> bc_rule_id = ruleId, bc_enabled = rt_enabled r, bc_required = rt_required r, bc_order_index = rt_order_index r \<rparr>"

fun insert_rules :: "ms \<Rightarrow> string \<Rightarrow> rule_template list \<Rightarrow> policy_db \<Rightarrow> js_error + (string list \<times> policy_db)" where
  "insert_rules now tenantId [] db = Inr ([], db)"
| "insert_rules now tenantId (r # rs) db =
     (let (rowId, db1) = fresh db; (key, db2) = fresh db1
      in sum_bind (insert_rule (template_rule now rowId key tenantId r) db2) (\<lambda>db3.
         sum_bind (insert_rules now tenantId rs db3) (\<lambda>(ids, db4). Inr (rowId # ids, db4))))"

definition install_template :: "ms \<Rightarrow> string \<Rightarrow> policy_template \<Rightarrow> policy_db \<Rightarrow> js_error + policy_db" where
  "install_template now tenantId tmpl db =
     (let (rowId, db1) = fresh db; (key, db2) = fresh db1
      in sum_bind (insert_policy (template_policy now rowId key tenantId tmpl) db2) (\<lambda>db3.
         sum_bind (insert_rules now tenantId (pt_rules tmpl) db3) (\<lambda>(ids, db4).
           insert_rule_bindings tenantId rowId (map2 template_binding ids (pt_rules tmpl)) db4)))"

definition named_policy :: "string \<Rightarrow> string \<Rightarrow> policy_db \<Rightarrow> bool" where
  "named_policy tenantId name db =
     list_ex (\<lambda>p. po_tenant_id p = tenantId \<and> po_project_id p = None \<and> po_name p = name) (pd_policies db)"

text \<open>Both loops install what is not there by name yet, and count it.\<close>

definition ensureStarterPolicy :: "ms \<Rightarrow> string \<Rightarrow> policy_template \<Rightarrow> policy_db \<Rightarrow> js_error + (nat \<times> policy_db)" where
  "ensureStarterPolicy now tenantId tmpl db =
     (if named_policy tenantId (pt_name tmpl) db then Inr (0, db)
      else sum_bind (install_template now tenantId tmpl db) (\<lambda>db'. Inr (1, db')))"

fun ensure_each :: "(policy_db \<Rightarrow> 'a \<Rightarrow> policy_template) \<Rightarrow> ms \<Rightarrow> string \<Rightarrow> 'a list \<Rightarrow> policy_db \<Rightarrow> js_error + (nat \<times> policy_db)" where
  "ensure_each tmpl now tenantId [] db = Inr (0, db)"
| "ensure_each tmpl now tenantId (x # xs) db =
     sum_bind (ensureStarterPolicy now tenantId (tmpl db x) db) (\<lambda>(n, db1).
     sum_bind (ensure_each tmpl now tenantId xs db1) (\<lambda>(m, db2). Inr (n + m, db2)))"

definition ensureStarterPolicies :: "ms \<Rightarrow> string \<Rightarrow> policy_db \<Rightarrow> js_error + (nat \<times> policy_db)" where
  "ensureStarterPolicies now tenantId db = ensure_each (\<lambda>_ d. d) now tenantId STARTER_POLICY_DEFINITIONS db"

section \<open>Templates of the platform\<close>

definition template_policies :: "ms \<Rightarrow> string \<Rightarrow> policy_db \<Rightarrow> policy_row list" where
  "template_policies now platformTenantId db =
     sort_key po_priority
       (filter (\<lambda>p. po_tenant_id p = platformTenantId \<and> po_project_id p = None \<and> po_scope p = ''global'' \<and>
                    po_status p = ''active'' \<and> in_force now (po_effective_from p) (po_effective_to p)) (pd_policies db))"

text \<open>The bound rules of a template, in order; neither binding nor rule is asked whether it is in force.\<close>

definition template_rules :: "string \<Rightarrow> string \<Rightarrow> policy_db \<Rightarrow> (rule_binding_row \<times> rule_row) list" where
  "template_rules platformTenantId policyId db =
     sort_key (\<lambda>(b, _). rb_order_index b)
       (concat (map (\<lambda>b. map (Pair b) (filter (\<lambda>r. rb_rule_id b = ru_id r \<and> ru_tenant_id r = platformTenantId) (pd_rules db)))
          (filter (\<lambda>b. rb_tenant_id b = platformTenantId \<and> rb_policy_id b = policyId) (pd_rule_bindings db))))"

definition rule_template_of :: "rule_binding_row \<times> rule_row \<Rightarrow> rule_template" where
  "rule_template_of row =
     (let (b, r) = row
      in \<lparr> rt_name = ru_name r, rt_description = ru_description r, rt_target_entity = ru_target_entity r,
           rt_condition = ru_condition r, rt_action = ru_action r, rt_enabled = rb_enabled b, rt_required = rb_required b,
           rt_order_index = rb_order_index b \<rparr>)"

definition template_of :: "policy_db \<Rightarrow> policy_row \<Rightarrow> policy_template" where
  "template_of db p =
     \<lparr> pt_name = po_name p, pt_description = po_description p, pt_category = po_category p, pt_status = po_status p,
       pt_enforcement_mode = po_enforcement_mode p, pt_priority = po_priority p,
       pt_rules = map rule_template_of (template_rules (po_tenant_id p) (po_id p) db) \<rparr>"

definition copyPlatformPolicyTemplatesToTenant ::
    "ms \<Rightarrow> string \<Rightarrow> string \<Rightarrow> policy_db \<Rightarrow> js_error + (nat \<times> policy_db)" where
  "copyPlatformPolicyTemplatesToTenant now platformTenantId targetTenantId db =
     (if platformTenantId = targetTenantId then Inr (0, db)
      else ensure_each template_of now targetTenantId (template_policies now platformTenantId db) db)"

section \<open>Defaults of a tenant\<close>

record provision_db =
  pv_tenants :: "tenant_row list"
  pv_entitlements :: "entitlement_row list"
  pv_policies :: policy_db
  pv_proxies :: proxy_db
  pv_uuids :: uuid_source

definition findPlatformTenantId :: "tenant_row list \<Rightarrow> string option" where
  "findPlatformTenantId rows = map_option te_id (first_by te_created_at (\<lambda>t. te_kind t = ''platform'') rows)"

definition ensureTenantEntitlements :: "string \<Rightarrow> entitlement_row list \<Rightarrow> entitlement_row list" where
  "ensureTenantEntitlements tenantId rows =
     (if entitlement_of tenantId rows \<noteq> None then rows
      else rows @ [(default_entitlements tenantId)\<lparr> en_mcp_enabled := True \<rparr>])"

datatype provision_source = Platform_template | Builtin_starter

text \<open>The platform tenant given, or else found; its templates; the tenant with entitlements.\<close>

definition chosen_platform :: "string option \<Rightarrow> provision_db \<Rightarrow> string option" where
  "chosen_platform platformTenantId db =
     present (if platformTenantId \<noteq> None then platformTenantId else findPlatformTenantId (pv_tenants db))"

definition copied_templates :: "ms \<Rightarrow> string \<Rightarrow> string option \<Rightarrow> provision_db \<Rightarrow> js_error + (nat \<times> policy_db)" where
  "copied_templates now tenantId platformTenantId db =
     (case chosen_platform platformTenantId db of
        None \<Rightarrow> Inr (0, pv_policies db)
      | Some p \<Rightarrow> copyPlatformPolicyTemplatesToTenant now p tenantId (pv_policies db))"

definition entitled_db :: "string \<Rightarrow> policy_db \<Rightarrow> provision_db \<Rightarrow> provision_db" where
  "entitled_db tenantId pdb db =
     db\<lparr> pv_entitlements := ensureTenantEntitlements tenantId (pv_entitlements db), pv_policies := pdb \<rparr>"

definition provisionCustomerTenantDefaults ::
    "ms \<Rightarrow> string \<Rightarrow> string option \<Rightarrow> provision_db \<Rightarrow> js_error + ((provision_source \<times> nat) \<times> provision_db)" where
  "provisionCustomerTenantDefaults now tenantId platformTenantId db =
     sum_bind (copied_templates now tenantId platformTenantId db) (\<lambda>(copied, pdb).
       if copied > 0 then Inr ((Platform_template, copied), entitled_db tenantId pdb db)
       else sum_bind (ensureStarterPolicies now tenantId pdb) (\<lambda>(created, pdb').
         Inr ((Builtin_starter, created), entitled_db tenantId pdb' db)))"

section \<open>Initialization of a bundled installation\<close>

record bootstrap_env =
  bv_BOOTSTRAP_MODE :: "string option"
  bv_SETUP_FIRST_TENANT :: "string option"
  bv_SETUP_FIRST_PROXY :: "string option"
  bv_SETUP_DEFAULT_POLICIES :: "string option"
  bv_DEFAULT_PROXY_NAME :: "string option"
  bv_BOOTSTRAP_PROXY_ID :: "string option"
  bv_PROXY_ID :: "string option"
  bv_BOOTSTRAP_PROXY_KEY :: "string option"
  bv_PROXY_CONTROL_PLANE_SECRET :: "string option"

definition parseBoolean :: "string option \<Rightarrow> bool \<Rightarrow> bool" where
  "parseBoolean rawValue defaultValue = (case rawValue of None \<Rightarrow> defaultValue | Some v \<Rightarrow> v = ''true'')"

definition first_set :: "string option \<Rightarrow> string option \<Rightarrow> string" where
  "first_set a b = default (default [] (map_option js_trim b)) (map_option js_trim a)"

record init_result =
  in_platformTenantId :: "string option"
  in_customerTenantId :: "string option"
  in_tenantCreated :: bool
  in_proxyCreated :: bool
  in_policiesCreated :: nat

text \<open>The insert breaks on the index that allows one platform tenant.\<close>

definition insert_tenant :: "ms \<Rightarrow> string \<Rightarrow> string \<Rightarrow> provision_db \<Rightarrow> js_error + (string \<times> provision_db)" where
  "insert_tenant now name kind db =
     (let (tenantId, u) = draw (pv_uuids db)
      in if kind = ''platform'' \<and> list_ex (\<lambda>t. te_kind t = ''platform'') (pv_tenants db)
         then Inl (AppError ''tenants_single_platform_idx'')
         else Inr (tenantId, db\<lparr> pv_tenants := pv_tenants db @
                [\<lparr> te_id = tenantId, te_name = name, te_kind = kind, te_created_at = now, te_updated_at = now \<rparr>], pv_uuids := u \<rparr>))"

definition tenant_of_kind :: "string \<Rightarrow> tenant_row list \<Rightarrow> string option" where
  "tenant_of_kind kind rows = map_option te_id (find (\<lambda>t. te_kind t = kind) rows)"

text \<open>A tenant of the kind: the one there is, or a new one when that is asked for; and whether it is new.\<close>

definition tenant_or_new ::
    "ms \<Rightarrow> bool \<Rightarrow> string \<Rightarrow> string \<Rightarrow> string option \<Rightarrow> provision_db \<Rightarrow> js_error + ((string option \<times> bool) \<times> provision_db)" where
  "tenant_or_new now setupFirstTenant name kind existing db =
     (if existing = None \<and> setupFirstTenant
      then sum_bind (insert_tenant now name kind db) (\<lambda>(tenantId, db'). Inr ((Some tenantId, True), db'))
      else Inr ((existing, False), db))"

text \<open>With no tenant yet the source has a branch of its own, which does the same.\<close>

definition resolveBundledTenants ::
    "ms \<Rightarrow> bool \<Rightarrow> provision_db \<Rightarrow> js_error + ((string option \<times> string option \<times> bool) \<times> provision_db)" where
  "resolveBundledTenants now setupFirstTenant db =
     (let existingTenants = take 3 (sort_key te_created_at (pv_tenants db));
          platform = tenant_of_kind ''platform'' existingTenants;
          customer = tenant_of_kind ''customer'' existingTenants
      in if length existingTenants \<le> 2
         then sum_bind (tenant_or_new now setupFirstTenant ''Platform'' ''platform'' platform db) (\<lambda>((p, pNew), db1).
              sum_bind (tenant_or_new now setupFirstTenant ''default-first-tenant'' ''customer'' customer db1) (\<lambda>((c, cNew), db2).
                Inr ((p, c, pNew \<or> cNew), db2)))
         else Inr ((platform, customer, False), db))"

definition ensureBundledProxy ::
    "(string \<Rightarrow> string) \<Rightarrow> ms \<Rightarrow> string \<Rightarrow> string \<Rightarrow> string \<Rightarrow> string \<Rightarrow> proxy_db \<Rightarrow> js_error + (bool \<times> proxy_db)" where
  "ensureBundledProxy hash now tenantId proxyId proxySecret defaultProxyName db =
     (case first_row (\<lambda>p. xr_proxy_id p = proxyId) (xd_proxies db) of
        Some existing \<Rightarrow>
          if xr_tenant_id existing \<noteq> tenantId
          then Inl (AppError (''Bundled proxy '' @ proxyId @ '' is already registered to a different tenant''))
          else if xr_secret_hash existing \<noteq> hash proxySecret
          then Inl (AppError (''Bundled proxy '' @ proxyId @ '' already exists but the configured secret does not match''))
          else Inr (False, db)
      | None \<Rightarrow>
          let (rowId, u) = draw (xd_uuids db)
          in Inr (True, db\<lparr> xd_proxies := xd_proxies db @
               [\<lparr> xr_id = rowId, xr_tenant_id = tenantId, xr_proxy_id = proxyId, xr_name = defaultProxyName, xr_status = ''active'',
                  xr_tenant_scope = Owner_only, xr_secret_hash = hash proxySecret, xr_secret_prev_hash = None,
                  xr_secret_prev_expires_at = None, xr_secret_prefix = take 12 proxySecret, xr_disabled_at = None,
                  xr_secret_rotated_at = None, xr_last_seen_at = None, xr_created_at = now \<rparr>], xd_uuids := u \<rparr>))"

text \<open>The three parts of the transaction after the tenants: each does nothing without its tenant.\<close>

definition bootstrap_platform :: "ms \<Rightarrow> bool \<Rightarrow> string option \<Rightarrow> provision_db \<Rightarrow> js_error + (nat \<times> provision_db)" where
  "bootstrap_platform now setupDefaultPolicies platform db =
     (case platform of
        Some p \<Rightarrow>
          if setupDefaultPolicies
          then sum_bind (ensureStarterPolicies now p (pv_policies db)) (\<lambda>(n, pdb). Inr (n, db\<lparr> pv_policies := pdb \<rparr>))
          else Inr (0, db)
      | None \<Rightarrow> Inr (0, db))"

definition bootstrap_customer :: "ms \<Rightarrow> bool \<Rightarrow> string option \<Rightarrow> string option \<Rightarrow> provision_db \<Rightarrow> js_error + (nat \<times> provision_db)" where
  "bootstrap_customer now setupDefaultPolicies platform customer db =
     (case customer of
        Some c \<Rightarrow>
          let db1 = db\<lparr> pv_entitlements := ensureTenantEntitlements c (pv_entitlements db) \<rparr>
          in if setupDefaultPolicies
             then sum_bind (provisionCustomerTenantDefaults now c platform db1) (\<lambda>((_, n), db2). Inr (n, db2))
             else Inr (0, db1)
      | None \<Rightarrow> Inr (0, db))"

definition bootstrap_proxy ::
    "(string \<Rightarrow> string) \<Rightarrow> ms \<Rightarrow> bool \<Rightarrow> string \<Rightarrow> string \<Rightarrow> string \<Rightarrow> string option \<Rightarrow> provision_db \<Rightarrow> js_error + (bool \<times> provision_db)" where
  "bootstrap_proxy hash now setupFirstProxy proxyId proxySecret defaultProxyName platform db =
     (case platform of
        Some p \<Rightarrow>
          if setupFirstProxy
          then (if proxyId = [] \<or> proxySecret = []
                then Inl (AppError ''BOOTSTRAP_PROXY_ID and BOOTSTRAP_PROXY_KEY must be resolved before bundled proxy bootstrap'')
                else sum_bind (ensureBundledProxy hash now p proxyId proxySecret defaultProxyName (pv_proxies db)) (\<lambda>(new, xdb).
                  Inr (new, db\<lparr> pv_proxies := xdb \<rparr>)))
          else Inr (False, db)
      | None \<Rightarrow> Inr (False, db))"

definition runBundledBootstrapInitialization ::
    "(string \<Rightarrow> string) \<Rightarrow> ms \<Rightarrow> bootstrap_env \<Rightarrow> provision_db \<Rightarrow> js_error + (init_result \<times> provision_db)" where
  "runBundledBootstrapInitialization hash now env db =
     (if default ''bundled'' (bv_BOOTSTRAP_MODE env) \<noteq> ''bundled''
      then Inr (\<lparr> in_platformTenantId = None, in_customerTenantId = None, in_tenantCreated = False, in_proxyCreated = False,
                  in_policiesCreated = 0 \<rparr>, db)
      else let setupDefaultPolicies = parseBoolean (bv_SETUP_DEFAULT_POLICIES env) True
           in sum_bind (resolveBundledTenants now (parseBoolean (bv_SETUP_FIRST_TENANT env) True) db) (\<lambda>((p, c, created), db1).
              sum_bind (bootstrap_platform now setupDefaultPolicies p db1) (\<lambda>(n, db2).
              sum_bind (bootstrap_customer now setupDefaultPolicies p c db2) (\<lambda>(m, db3).
              sum_bind (bootstrap_proxy hash now (parseBoolean (bv_SETUP_FIRST_PROXY env) True)
                          (first_set (bv_BOOTSTRAP_PROXY_ID env) (bv_PROXY_ID env))
                          (first_set (bv_BOOTSTRAP_PROXY_KEY env) (bv_PROXY_CONTROL_PLANE_SECRET env))
                          (default ''bundled-proxy'' (bv_DEFAULT_PROXY_NAME env)) p db3) (\<lambda>(proxyCreated, db4).
                Inr (\<lparr> in_platformTenantId = p, in_customerTenantId = c, in_tenantCreated = created, in_proxyCreated = proxyCreated,
                       in_policiesCreated = n + m \<rparr>, db4))))))"

section \<open>What an installation adds\<close>

text \<open>Everything the tables refer to has been drawn.\<close>

definition drawn_rows :: "policy_db \<Rightarrow> bool" where
  "drawn_rows db =
     (source_ok (pd_uuids db) \<and>
      (\<forall>p \<in> set (pd_policies db). drawn_id (pd_uuids db) (po_id p) \<and> drawn_id (pd_uuids db) (po_policy_key p)) \<and>
      (\<forall>r \<in> set (pd_rules db). drawn_id (pd_uuids db) (ru_id r) \<and> drawn_id (pd_uuids db) (ru_rule_key r)) \<and>
      (\<forall>b \<in> set (pd_rule_bindings db). drawn_id (pd_uuids db) (rb_policy_id b) \<and> drawn_id (pd_uuids db) (rb_rule_id b)) \<and>
      (\<forall>b \<in> set (pd_project_bindings db). drawn_id (pd_uuids db) (pb_policy_key b)))"

lemma drawn_rows_fresh:
  assumes "drawn_rows db" and "fresh db = (x, db')"
  shows "drawn_rows db'" and "\<not> drawn_id (pd_uuids db) x" and "drawn_id (pd_uuids db') x"
proof -
  note f = fresh_spec [OF assms(2)]
  then have later: "later_source (pd_uuids db) (pd_uuids db')" by (blast intro: draw_later)
  show "drawn_rows db'"
    using assms(1) f source_ok_later [OF later] drawn_later [OF later] by (simp add: drawn_rows_def)
  show "\<not> drawn_id (pd_uuids db) x" "drawn_id (pd_uuids db') x"
    using assms(1) f draw_fresh [of "pd_uuids db"] draw_drawn [of "pd_uuids db"] by (auto simp: drawn_rows_def)
qed

text \<open>The rows a list of templates becomes.\<close>

definition rules_of :: "ms \<Rightarrow> string \<Rightarrow> rule_template list \<Rightarrow> rule_row list \<Rightarrow> bool" where
  "rules_of now tenantId = list_all2 (\<lambda>t r. r = template_rule now (ru_id r) (ru_rule_key r) tenantId t)"

lemma insert_rules_succeed:
  assumes "drawn_rows db"
  shows "\<exists>new db'. insert_rules now tenantId ts db = Inr (map ru_id new, db') \<and> rules_of now tenantId ts new \<and>
    pd_rules db' = pd_rules db @ new \<and> pd_policies db' = pd_policies db \<and> pd_rule_bindings db' = pd_rule_bindings db \<and>
    pd_project_bindings db' = pd_project_bindings db \<and> later_source (pd_uuids db) (pd_uuids db') \<and> drawn_rows db' \<and>
    distinct (map ru_id new) \<and> (\<forall>r \<in> set new. \<not> drawn_id (pd_uuids db) (ru_id r))"
  using assms
proof (induction ts arbitrary: db)
  case Nil
  then show ?case by (intro exI [of _ "[]"]) (simp add: rules_of_def)
next
  case (Cons t ts)
  obtain x db1 where f: "fresh db = (x, db1)" by (cases "fresh db")
  obtain k db2 where g: "fresh db1 = (k, db2)" by (cases "fresh db1")
  note fs = fresh_spec [OF f] and gs = fresh_spec [OF g]
  note d1 = drawn_rows_fresh [OF Cons.prems f] and d2 = drawn_rows_fresh [OF drawn_rows_fresh(1) [OF Cons.prems f] g]
  let ?r = "template_rule now x k tenantId t"
  let ?db3 = "db2\<lparr> pd_rules := pd_rules db2 @ [?r] \<rparr>"
  have later: "later_source (pd_uuids db) (pd_uuids db1)" "later_source (pd_uuids db1) (pd_uuids db2)"
    using fs gs by (blast intro: draw_later)+
  have "\<not> drawn_id (pd_uuids db1) k" by (rule d2(2))
  with d1(1) gs have "\<not> list_ex (\<lambda>q. ru_rule_key q = k) (pd_rules db2)" by (auto simp: drawn_rows_def list_ex_iff)
  then have ins: "insert_rule ?r db2 = Inr ?db3" by (auto simp: insert_rule_def template_rule_def list_ex_iff)
  have "drawn_rows ?db3"
    using d2 drawn_later [OF later(2) d1(3)] by (simp add: drawn_rows_def template_rule_def)
  from Cons.IH [OF this] obtain new db' where new: "insert_rules now tenantId ts ?db3 = Inr (map ru_id new, db')"
      "rules_of now tenantId ts new" "pd_rules db' = pd_rules db2 @ ?r # new" "pd_policies db' = pd_policies db2"
      "pd_rule_bindings db' = pd_rule_bindings db2" "pd_project_bindings db' = pd_project_bindings db2"
      "later_source (pd_uuids db2) (pd_uuids db')" "drawn_rows db'" "distinct (map ru_id new)"
      "\<forall>r \<in> set new. \<not> drawn_id (pd_uuids db2) (ru_id r)"
    by auto
  have "x \<notin> ru_id ` set new" using new(10) drawn_later [OF later(2) d1(3)] by auto
  moreover have "\<forall>r \<in> set new. \<not> drawn_id (pd_uuids db) (ru_id r)"
    using new(10) drawn_later [OF later_trans [OF later]] by blast
  ultimately show ?case
    using new f g fs gs ins d1(2) later_trans [OF later_trans [OF later] new(7)]
    by (intro exI [of _ "?r # new"] exI [of _ db']) (simp add: rules_of_def template_rule_def)
qed

lemma insert_bindings_succeed:
  assumes "\<forall>b \<in> set (pd_rule_bindings db). rb_policy_id b = policyId \<longrightarrow>
      rb_rule_id b \<notin> bc_rule_id ` set cs \<and> rb_order_index b \<notin> bc_order_index ` set cs"
    and "distinct (map bc_rule_id cs)" and "distinct (map bc_order_index cs)"
  shows "\<exists>db'. insert_rule_bindings tenantId policyId cs db = Inr db'"
  using assms
proof (induction cs arbitrary: db)
  case (Cons c cs)
  obtain x db1 where f: "fresh db = (x, db1)" by (cases "fresh db")
  let ?db = "db1\<lparr> pd_rule_bindings := pd_rule_bindings db1 @ [binding_row_of x tenantId policyId c] \<rparr>"
  have "\<exists>db'. insert_rule_bindings tenantId policyId cs ?db = Inr db'"
    by (rule Cons.IH) (use Cons.prems fresh_spec [OF f] in \<open>auto simp: binding_row_of_def\<close>)
  with Cons.prems(1) f show ?case by (auto simp: list_ex_iff)
qed simp

text \<open>The state after the installation of a template, and that there always is one.\<close>

definition installed :: "ms \<Rightarrow> string \<Rightarrow> policy_template \<Rightarrow> policy_db \<Rightarrow> policy_db \<Rightarrow> bool" where
  "installed now tenantId tmpl db db' =
     (\<exists>rowId key new bs.
        pd_policies db' = pd_policies db @ [template_policy now rowId key tenantId tmpl] \<and>
        pd_rules db' = pd_rules db @ new \<and> rules_of now tenantId (pt_rules tmpl) new \<and>
        pd_rule_bindings db' = pd_rule_bindings db @ bs \<and>
        map clone_of bs = map2 template_binding (map ru_id new) (pt_rules tmpl) \<and>
        (\<forall>b \<in> set bs. rb_policy_id b = rowId \<and> rb_tenant_id b = tenantId) \<and>
        pd_project_bindings db' = pd_project_bindings db \<and> later_source (pd_uuids db) (pd_uuids db') \<and> drawn_rows db' \<and>
        \<not> drawn_id (pd_uuids db) rowId \<and> \<not> drawn_id (pd_uuids db) key \<and> (\<forall>r \<in> set new. \<not> drawn_id (pd_uuids db) (ru_id r)) \<and>
        distinct (map ru_id new))"

lemma rules_of_length: "rules_of now tenantId ts new \<Longrightarrow> length new = length ts"
  by (simp add: rules_of_def list_all2_lengthD)

lemma template_bindings:
  assumes "length ids = length ts"
  shows "map bc_rule_id (map2 template_binding ids ts) = ids" and "map bc_order_index (map2 template_binding ids ts) = map rt_order_index ts"
proof -
  have "map bc_rule_id (map2 template_binding ids ts) = map fst (zip ids ts)"
    "map bc_order_index (map2 template_binding ids ts) = map rt_order_index (map snd (zip ids ts))"
    by (simp_all add: template_binding_def case_prod_beta comp_def)
  with assms show "map bc_rule_id (map2 template_binding ids ts) = ids"
    "map bc_order_index (map2 template_binding ids ts) = map rt_order_index ts" by simp_all
qed

lemma install_succeeds:
  assumes "drawn_rows db" and "distinct (map rt_order_index (pt_rules tmpl))"
  shows "\<exists>db'. install_template now tenantId tmpl db = Inr db' \<and> installed now tenantId tmpl db db'"
proof -
  obtain x db1 where f: "fresh db = (x, db1)" by (cases "fresh db")
  obtain k db2 where g: "fresh db1 = (k, db2)" by (cases "fresh db1")
  note fs = fresh_spec [OF f] and gs = fresh_spec [OF g]
  note d1 = drawn_rows_fresh [OF assms(1) f] and d2 = drawn_rows_fresh [OF drawn_rows_fresh(1) [OF assms(1) f] g]
  have later: "later_source (pd_uuids db) (pd_uuids db1)" "later_source (pd_uuids db1) (pd_uuids db2)"
    using fs gs by (blast intro: draw_later)+
  let ?p = "template_policy now x k tenantId tmpl"
  let ?db3 = "db2\<lparr> pd_policies := pd_policies db2 @ [?p] \<rparr>"
  from d1(1) d2(2) gs have "\<not> list_ex (\<lambda>q. po_policy_key q = k) (pd_policies db2)" by (auto simp: drawn_rows_def list_ex_iff)
  then have ins: "insert_policy ?p db2 = Inr ?db3" by (auto simp: insert_policy_def template_policy_def list_ex_iff)
  have x: "drawn_id (pd_uuids db2) x" using drawn_later [OF later(2) d1(3)] .
  have "drawn_rows ?db3" using d2 x by (simp add: drawn_rows_def template_policy_def)
  from insert_rules_succeed [OF this, of now tenantId "pt_rules tmpl"] obtain new db4 where
      rules: "insert_rules now tenantId (pt_rules tmpl) ?db3 = Inr (map ru_id new, db4)" "rules_of now tenantId (pt_rules tmpl) new"
      "pd_rules db4 = pd_rules db2 @ new" "pd_policies db4 = pd_policies db2 @ [?p]" "pd_rule_bindings db4 = pd_rule_bindings db2"
      "pd_project_bindings db4 = pd_project_bindings db2" "later_source (pd_uuids db2) (pd_uuids db4)" "drawn_rows db4"
      "distinct (map ru_id new)" "\<forall>r \<in> set new. \<not> drawn_id (pd_uuids db2) (ru_id r)"
    by auto
  let ?cs = "map2 template_binding (map ru_id new) (pt_rules tmpl)"
  note cs = template_bindings [of "map ru_id new" "pt_rules tmpl", unfolded length_map, OF rules_of_length [OF rules(2)]]
  have none: "\<forall>b \<in> set (pd_rule_bindings db4). rb_policy_id b \<noteq> x"
    using assms(1) d1(2) fs gs rules(5) by (auto simp: drawn_rows_def)
  obtain db5 where bound: "insert_rule_bindings tenantId x ?cs db4 = Inr db5"
    using insert_bindings_succeed [of db4 x ?cs tenantId] none cs rules(9) assms(2) by metis
  from insert_rule_bindings_spec [OF bound] obtain bs where bs: "pd_rule_bindings db5 = pd_rule_bindings db4 @ bs" "map clone_of bs = ?cs"
      "\<forall>b \<in> set bs. rb_policy_id b = x \<and> rb_tenant_id b = tenantId" "pd_policies db5 = pd_policies db4" "pd_rules db5 = pd_rules db4"
      "pd_project_bindings db5 = pd_project_bindings db4" "later_source (pd_uuids db4) (pd_uuids db5)" by blast
  have "rb_rule_id ` set bs = set (map ru_id new)"
    using arg_cong [OF bs(2), of "\<lambda>l. set (map bc_rule_id l)", unfolded cs(1)] by (simp add: image_image clone_of_def)
  then have "\<forall>b \<in> set bs. \<exists>r \<in> set new. rb_rule_id b = ru_id r" by (metis image_iff set_map)
  then have "\<forall>b \<in> set bs. drawn_id (pd_uuids db4) (rb_rule_id b)"
    using rules(3,8) by (metis Un_iff drawn_rows_def set_append)
  then have "drawn_rows db5"
    using rules(8) bs x drawn_later [OF rules(7)] drawn_later [OF bs(7)] source_ok_later [OF bs(7)] by (auto simp: drawn_rows_def)
  moreover have "install_template now tenantId tmpl db = Inr db5"
    using f g ins rules(1) bound by (simp add: install_template_def)
  moreover have "later_source (pd_uuids db) (pd_uuids db5)"
    using later rules(7) bs(7) by (blast intro: later_trans)
  moreover have "\<not> drawn_id (pd_uuids db) k" "\<forall>r \<in> set new. \<not> drawn_id (pd_uuids db) (ru_id r)"
    using d2(2) rules(10) drawn_later [OF later(1)] drawn_later [OF later(2)] by blast+
  ultimately show ?thesis
    using rules bs fs gs d1(2) unfolding installed_def by (intro exI [of _ db5] conjI exI [of _ x] exI [of _ k] exI [of _ new] exI [of _ bs]) simp_all
qed

text \<open>What any sequence of installations for a tenant does to the tables.\<close>

definition grown :: "string \<Rightarrow> policy_db \<Rightarrow> policy_db \<Rightarrow> bool" where
  "grown tenantId db db' =
     (\<exists>ps rs bs. pd_policies db' = pd_policies db @ ps \<and> pd_rules db' = pd_rules db @ rs \<and>
        pd_rule_bindings db' = pd_rule_bindings db @ bs \<and> pd_project_bindings db' = pd_project_bindings db \<and>
        (\<forall>p \<in> set ps. po_tenant_id p = tenantId \<and> po_project_id p = None) \<and>
        (\<forall>r \<in> set rs. ru_tenant_id r = tenantId \<and> \<not> drawn_id (pd_uuids db) (ru_id r)) \<and>
        (\<forall>b \<in> set bs. rb_tenant_id b = tenantId \<and> \<not> drawn_id (pd_uuids db) (rb_policy_id b)) \<and>
        later_source (pd_uuids db) (pd_uuids db') \<and> (drawn_rows db \<longrightarrow> drawn_rows db'))"

lemma grown_refl [simp]: "grown tenantId db db"
  unfolding grown_def by (intro exI [of _ "[]"]) simp

lemma grown_trans:
  assumes "grown tenantId db db1" and "grown tenantId db1 db2"
  shows "grown tenantId db db2"
proof -
  from assms(1) obtain ps rs bs where a: "pd_policies db1 = pd_policies db @ ps" "pd_rules db1 = pd_rules db @ rs"
      "pd_rule_bindings db1 = pd_rule_bindings db @ bs" "pd_project_bindings db1 = pd_project_bindings db"
      "\<forall>p \<in> set ps. po_tenant_id p = tenantId \<and> po_project_id p = None"
      "\<forall>r \<in> set rs. ru_tenant_id r = tenantId \<and> \<not> drawn_id (pd_uuids db) (ru_id r)"
      "\<forall>b \<in> set bs. rb_tenant_id b = tenantId \<and> \<not> drawn_id (pd_uuids db) (rb_policy_id b)"
      "later_source (pd_uuids db) (pd_uuids db1)" "drawn_rows db \<longrightarrow> drawn_rows db1" unfolding grown_def by blast
  from assms(2) obtain ps' rs' bs' where b: "pd_policies db2 = pd_policies db1 @ ps'" "pd_rules db2 = pd_rules db1 @ rs'"
      "pd_rule_bindings db2 = pd_rule_bindings db1 @ bs'" "pd_project_bindings db2 = pd_project_bindings db1"
      "\<forall>p \<in> set ps'. po_tenant_id p = tenantId \<and> po_project_id p = None"
      "\<forall>r \<in> set rs'. ru_tenant_id r = tenantId \<and> \<not> drawn_id (pd_uuids db1) (ru_id r)"
      "\<forall>b \<in> set bs'. rb_tenant_id b = tenantId \<and> \<not> drawn_id (pd_uuids db1) (rb_policy_id b)"
      "later_source (pd_uuids db1) (pd_uuids db2)" "drawn_rows db1 \<longrightarrow> drawn_rows db2" unfolding grown_def by blast
  show ?thesis
    unfolding grown_def
    by (rule exI [of _ "ps @ ps'"], rule exI [of _ "rs @ rs'"], rule exI [of _ "bs @ bs'"])
      (use a b drawn_later [OF a(8)] later_trans [OF a(8) b(8)] in \<open>auto simp: ball_Un\<close>)
qed

lemma installed_grown: "installed now tenantId tmpl db db' \<Longrightarrow> grown tenantId db db'"
proof -
  have tenant: "rules_of now tenantId ts new \<Longrightarrow> r \<in> set new \<Longrightarrow> ru_tenant_id r = tenantId" for ts new r
    unfolding rules_of_def by (drule (1) list_all2_set2) (auto simp: template_rule_def dest: arg_cong [of _ _ ru_tenant_id])
  assume "installed now tenantId tmpl db db'"
  then obtain rowId key new bs where "pd_policies db' = pd_policies db @ [template_policy now rowId key tenantId tmpl]"
      "pd_rules db' = pd_rules db @ new" "rules_of now tenantId (pt_rules tmpl) new" "pd_rule_bindings db' = pd_rule_bindings db @ bs"
      "\<forall>b \<in> set bs. rb_policy_id b = rowId \<and> rb_tenant_id b = tenantId" "pd_project_bindings db' = pd_project_bindings db"
      "later_source (pd_uuids db) (pd_uuids db')" "drawn_rows db'" "\<not> drawn_id (pd_uuids db) rowId"
      "\<forall>r \<in> set new. \<not> drawn_id (pd_uuids db) (ru_id r)" unfolding installed_def by blast
  then show "grown tenantId db db'"
    unfolding grown_def
    by (intro exI [of _ "[template_policy now rowId key tenantId tmpl]"] exI [of _ new] exI [of _ bs])
      (auto simp: template_policy_def intro: tenant)
qed

abbreviation rules_in_force :: "policy_db \<Rightarrow> ms \<Rightarrow> string \<Rightarrow> string \<Rightarrow> resolved_rule set" where
  "rules_in_force db t tenantId projectId \<equiv> set (ps_allRules (loadEffectivePolicy db t tenantId projectId))"

text \<open>Growth keeps what was in force, and for the other tenants adds nothing.\<close>

lemma grown_keeps:
  assumes "grown tenantId db db'"
  shows "rules_in_force db t u projectId \<subseteq> rules_in_force db' t u projectId"
proof
  fix rr assume "rr \<in> rules_in_force db t u projectId"
  moreover have "set (effective_policies db t u projectId) \<subseteq> set (effective_policies db' t u projectId)"
    using assms by (auto simp: grown_def effective_policies_iff binding_rows_def)
  moreover have "set (pd_rule_bindings db) \<subseteq> set (pd_rule_bindings db')" "set (pd_rules db) \<subseteq> set (pd_rules db')"
    using assms by (auto simp: grown_def)
  ultimately show "rr \<in> rules_in_force db' t u projectId" unfolding allRules_iff by blast
qed

lemma grown_isolated:
  assumes "grown tenantId db db'" and "drawn_rows db" and "u \<noteq> tenantId"
  shows "rules_in_force db' t u projectId = rules_in_force db t u projectId"
proof (rule antisym [OF _ grown_keeps [OF assms(1)]])
  show "rules_in_force db' t u projectId \<subseteq> rules_in_force db t u projectId"
  proof
    fix rr assume "rr \<in> rules_in_force db' t u projectId"
    then obtain p src binding b r where eff: "(p, src, binding) \<in> set (effective_policies db' t u projectId)"
        and b: "b \<in> set (pd_rule_bindings db')" and r: "r \<in> set (pd_rules db')"
        and rest: "rb_policy_id b = po_id p" "rb_rule_id b = ru_id r" "rb_enabled b" "in_force t (ru_effective_from r) (ru_effective_to r)"
          "rr \<in> set (resolve_rule p binding (b, r))" unfolding allRules_iff by blast
    have old: "(p, src, binding) \<in> set (effective_policies db t u projectId)"
      using eff assms(1,3) by (auto simp: grown_def effective_policies_iff binding_rows_def)
    then have "drawn_id (pd_uuids db) (rb_policy_id b)"
      using assms(2) rest(1) by (auto simp: effective_policies_iff drawn_rows_def)
    with b assms(1) have bo: "b \<in> set (pd_rule_bindings db)" by (auto simp: grown_def)
    then have "drawn_id (pd_uuids db) (ru_id r)" using assms(2) rest(2) by (auto simp: drawn_rows_def)
    with r assms(1) have "r \<in> set (pd_rules db)" by (auto simp: grown_def)
    with old bo rest show "rr \<in> rules_in_force db t u projectId" unfolding allRules_iff by blast
  qed
qed

text \<open>The unique index on positions, and the key of the rules.\<close>

definition position_key :: "rule_binding_row \<Rightarrow> (string \<times> int) option" where
  "position_key b = Some (rb_policy_id b, rb_order_index b)"

definition rule_id_key :: "rule_row \<Rightarrow> string option" where
  "rule_id_key r = Some (ru_id r)"

definition positions_ok :: "policy_db \<Rightarrow> bool" where
  "positions_ok db = (unique_key position_key (pd_rule_bindings db) \<and> unique_key rule_id_key (pd_rules db))"

lemma unique_key_appended:
  assumes "unique_key key rows" and "unique_key key new" and "\<forall>r \<in> set new. \<forall>s \<in> set rows. key s \<noteq> key r"
  shows "unique_key key (rows @ new)"
  using assms(1,3) by (induction rows) (use assms(2) in \<open>auto simp: unique_key_Cons\<close>)

lemma unique_key_distinct: "distinct (map f rows) \<Longrightarrow> unique_key (\<lambda>r. Some (f r)) rows"
proof (induction rows)
  case (Cons r rows)
  then have "f s \<noteq> f r" if "s \<in> set rows" for s using imageI [OF that, of f] by auto
  with Cons show ?case by (simp add: unique_key_Cons)
qed simp

lemma installed_positions:
  assumes "installed now tenantId tmpl db db'" and "drawn_rows db" and "positions_ok db" and "distinct (map rt_order_index (pt_rules tmpl))"
  shows "positions_ok db'"
proof -
  from assms(1) obtain rowId new bs where
      rules: "pd_rules db' = pd_rules db @ new" "rules_of now tenantId (pt_rules tmpl) new"
      "\<forall>r \<in> set new. \<not> drawn_id (pd_uuids db) (ru_id r)" "distinct (map ru_id new)"
    and bs: "pd_rule_bindings db' = pd_rule_bindings db @ bs" "map clone_of bs = map2 template_binding (map ru_id new) (pt_rules tmpl)"
      "\<forall>b \<in> set bs. rb_policy_id b = rowId" "\<not> drawn_id (pd_uuids db) rowId"
    unfolding installed_def by blast
  have "map rb_order_index bs = map bc_order_index (map clone_of bs)" by (simp add: clone_of_def)
  then have "distinct (map rb_order_index bs)"
    using assms(4) bs(2) template_bindings(2) [of "map ru_id new" "pt_rules tmpl"] rules_of_length [OF rules(2)] by simp
  then have "distinct (map (\<lambda>b. (rb_policy_id b, rb_order_index b)) bs)"
    by (auto simp: distinct_map inj_on_def)
  then have "unique_key position_key bs"
    using unique_key_distinct [of "\<lambda>b. (rb_policy_id b, rb_order_index b)" bs] by (simp add: position_key_def [abs_def])
  moreover have "\<forall>r \<in> set bs. \<forall>s \<in> set (pd_rule_bindings db). position_key s \<noteq> position_key r"
    using assms(2) bs(3,4) by (auto simp: position_key_def drawn_rows_def)
  moreover have "unique_key rule_id_key new"
    using unique_key_distinct [OF rules(4)] by (simp add: rule_id_key_def [abs_def])
  moreover have "\<forall>r \<in> set new. \<forall>s \<in> set (pd_rules db). rule_id_key s \<noteq> rule_id_key r"
    using assms(2) rules(3) by (auto simp: rule_id_key_def drawn_rows_def)
  ultimately show ?thesis
    using assms(3) by (simp add: positions_ok_def rules(1) bs(1) unique_key_appended)
qed

lemma named_grown: "grown tenantId db db' \<Longrightarrow> named_policy u name db \<Longrightarrow> named_policy u name db'"
  by (auto simp: grown_def named_policy_def)

lemma installed_named: "installed now tenantId tmpl db db' \<Longrightarrow> named_policy tenantId (pt_name tmpl) db'"
  by (auto simp: installed_def named_policy_def template_policy_def)

abbreviation tables_ok :: "policy_db \<Rightarrow> bool" where
  "tables_ok db \<equiv> drawn_rows db \<and> positions_ok db"

lemma ensure_one:
  assumes "tables_ok db" and "distinct (map rt_order_index (pt_rules tmpl))"
  shows "\<exists>n db'. ensureStarterPolicy now tenantId tmpl db = Inr (n, db') \<and> grown tenantId db db' \<and> tables_ok db' \<and>
    named_policy tenantId (pt_name tmpl) db' \<and>
    (if named_policy tenantId (pt_name tmpl) db then n = 0 \<and> db' = db else n = 1 \<and> installed now tenantId tmpl db db')"
proof (cases "named_policy tenantId (pt_name tmpl) db")
  case True
  with assms show ?thesis by (simp add: ensureStarterPolicy_def)
next
  case False
  from install_succeeds [OF _ assms(2)] assms(1) obtain db' where
    "install_template now tenantId tmpl db = Inr db'" and i: "installed now tenantId tmpl db db'" by blast
  with False assms show ?thesis
    using installed_grown [OF i] installed_named [OF i] installed_positions [OF i]
    by (auto simp: ensureStarterPolicy_def grown_def)
qed

lemma ensure_each_succeeds:
  assumes "tables_ok db" and "\<And>db' x. grown tenantId db db' \<Longrightarrow> x \<in> set xs \<Longrightarrow> tmpl db' x = T x"
    and "\<And>x. x \<in> set xs \<Longrightarrow> distinct (map rt_order_index (pt_rules (T x)))"
  shows "\<exists>n db'. ensure_each tmpl now tenantId xs db = Inr (n, db') \<and> grown tenantId db db' \<and> tables_ok db' \<and>
    (\<forall>x \<in> set xs. named_policy tenantId (pt_name (T x)) db') \<and>
    (n = 0 \<longleftrightarrow> (\<forall>x \<in> set xs. named_policy tenantId (pt_name (T x)) db))"
  using assms
proof (induction xs arbitrary: db)
  case (Cons x xs)
  have x: "tmpl db x = T x" "distinct (map rt_order_index (pt_rules (T x)))" using Cons.prems(2) [OF grown_refl] Cons.prems(3) by simp_all
  from ensure_one [OF Cons.prems(1) x(2)] obtain n db1 where one: "ensureStarterPolicy now tenantId (tmpl db x) db = Inr (n, db1)"
    "grown tenantId db db1" "tables_ok db1" "named_policy tenantId (pt_name (T x)) db1"
    "n = 0 \<longleftrightarrow> named_policy tenantId (pt_name (T x)) db" "n = 0 \<longrightarrow> db1 = db"
    unfolding x(1) by (metis zero_neq_one)
  have "\<exists>m db2. ensure_each tmpl now tenantId xs db1 = Inr (m, db2) \<and> grown tenantId db1 db2 \<and> tables_ok db2 \<and>
      (\<forall>x \<in> set xs. named_policy tenantId (pt_name (T x)) db2) \<and>
      (m = 0 \<longleftrightarrow> (\<forall>x \<in> set xs. named_policy tenantId (pt_name (T x)) db1))"
    by (rule Cons.IH [OF one(3)]) (use Cons.prems(2,3) grown_trans [OF one(2)] in simp_all)
  then obtain m db2 where rest: "ensure_each tmpl now tenantId xs db1 = Inr (m, db2)" "grown tenantId db1 db2" "tables_ok db2"
    "\<forall>x \<in> set xs. named_policy tenantId (pt_name (T x)) db2" "m = 0 \<longleftrightarrow> (\<forall>x \<in> set xs. named_policy tenantId (pt_name (T x)) db1)" by blast
  have "n + m = 0 \<longleftrightarrow> (\<forall>y \<in> set (x # xs). named_policy tenantId (pt_name (T y)) db)"
    using one(5,6) rest(5) by (cases "n = 0") simp_all
  then show ?case
    using one(1) rest(1,3,4) grown_trans [OF one(2) rest(2)] named_grown [OF rest(2) one(4)]
    by (intro exI [of _ "n + m"] exI [of _ db2] conjI) simp_all
qed simp

lemma ensure_each_done:
  "\<forall>x \<in> set xs. named_policy tenantId (pt_name (tmpl db x)) db \<Longrightarrow> ensure_each tmpl now tenantId xs db = Inr (0, db)"
  by (induction xs) (simp_all add: ensureStarterPolicy_def)

section \<open>Rules in force after provisioning\<close>

text \<open>A rule of a template is in force when a rule with its name, condition, action and mode is.\<close>

definition template_in_force :: "policy_db \<Rightarrow> ms \<Rightarrow> string \<Rightarrow> string \<Rightarrow> policy_template \<Rightarrow> rule_template \<Rightarrow> bool" where
  "template_in_force db t tenantId projectId tmpl rt =
     (\<exists>rr \<in> rules_in_force db t tenantId projectId. rr_name rr = rt_name rt \<and> rr_condition rr = rt_condition rt \<and>
        rr_action rr = rt_action rt \<and>
        rr_effectiveEnforcementMode rr = coalesce (obj_get (rt_action rt) ''enforcement_mode'') (JStr (pt_enforcement_mode tmpl)))"

lemma template_in_force_grown:
  "grown u db db' \<Longrightarrow> template_in_force db t tenantId projectId tmpl rt \<Longrightarrow> template_in_force db' t tenantId projectId tmpl rt"
  using grown_keeps unfolding template_in_force_def by blast

lemma resolve_unbound:
  "\<exists>rr. resolve_rule p None (b, r) = [rr] \<and> rr_name rr = ru_name r \<and> rr_condition rr = ru_condition r \<and> rr_action rr = ru_action r \<and>
     rr_effectiveEnforcementMode rr = coalesce (obj_get (ru_action r) ''enforcement_mode'') (JStr (po_enforcement_mode p))"
  by (simp add: resolve_rule_def getRuleOverride_def default_def resolveEnforcementMode_def JS_Core.present_def Let_def)

lemma installed_in_force:
  assumes "installed now tenantId tmpl db db'" and "drawn_rows db" and "pt_status tmpl = ''active''" and "rt \<in> set (pt_rules tmpl)"
    and "rt_enabled rt" and "now \<le> t"
  shows "template_in_force db' t tenantId projectId tmpl rt"
proof -
  from assms(1) obtain rowId key new bs where
      pol: "pd_policies db' = pd_policies db @ [template_policy now rowId key tenantId tmpl]"
    and rules: "pd_rules db' = pd_rules db @ new" "rules_of now tenantId (pt_rules tmpl) new"
    and bs: "pd_rule_bindings db' = pd_rule_bindings db @ bs" "map clone_of bs = map2 template_binding (map ru_id new) (pt_rules tmpl)"
      "\<forall>b \<in> set bs. rb_policy_id b = rowId \<and> rb_tenant_id b = tenantId"
    and proj: "pd_project_bindings db' = pd_project_bindings db" and key: "\<not> drawn_id (pd_uuids db) key"
    unfolding installed_def by blast
  let ?p = "template_policy now rowId key tenantId tmpl"
  from assms(4) obtain i where i: "i < length (pt_rules tmpl)" "rt = pt_rules tmpl ! i" by (metis in_set_conv_nth)
  have len: "length new = length (pt_rules tmpl)" "length bs = length (pt_rules tmpl)"
    using rules_of_length [OF rules(2)] arg_cong [OF bs(2), of length] by simp_all
  have r: "new ! i \<in> set new" "new ! i = template_rule now (ru_id (new ! i)) (ru_rule_key (new ! i)) tenantId rt"
    using rules(2) i len by (auto simp: rules_of_def list_all2_conv_all_nth)
  have "clone_of (bs ! i) = template_binding (ru_id (new ! i)) rt"
    using arg_cong [OF bs(2), of "\<lambda>l. l ! i"] i len by simp
  then have b: "bs ! i \<in> set bs" "rb_policy_id (bs ! i) = rowId" "rb_rule_id (bs ! i) = ru_id (new ! i)" "rb_enabled (bs ! i)"
    using bs(3) i len assms(5) by (auto simp: clone_of_def template_binding_def)
  have "binding_for (binding_rows db' t tenantId projectId) key = None"
    using key assms(2) proj by (auto simp: binding_for_def find_None_iff binding_rows_def drawn_rows_def)
  then have "(?p, From_global, None) \<in> set (effective_policies db' t tenantId projectId)"
    using assms(3,6) pol by (simp add: effective_policies_iff template_policy_def in_force_def opted_out_def)
  moreover obtain rr where rr: "resolve_rule ?p None (bs ! i, new ! i) = [rr]" "rr_name rr = ru_name (new ! i)"
      "rr_condition rr = ru_condition (new ! i)" "rr_action rr = ru_action (new ! i)"
      "rr_effectiveEnforcementMode rr = coalesce (obj_get (ru_action (new ! i)) ''enforcement_mode'') (JStr (po_enforcement_mode ?p))"
    using resolve_unbound [of ?p "bs ! i" "new ! i"] by blast
  moreover have rule: "ru_name (new ! i) = rt_name rt" "ru_condition (new ! i) = rt_condition rt" "ru_action (new ! i) = rt_action rt"
      "in_force t (ru_effective_from (new ! i)) (ru_effective_to (new ! i))"
    using assms(6) by (subst r(2); simp add: template_rule_def in_force_def)+
  ultimately have "rr \<in> rules_in_force db' t tenantId projectId"
    using r(1) b rules(1) bs(1) unfolding allRules_iff
    by (intro exI [of _ ?p] exI [of _ From_global] exI [of _ None] exI [of _ "bs ! i"] exI [of _ "new ! i"])
      (simp add: template_policy_def)
  moreover have "po_enforcement_mode ?p = pt_enforcement_mode tmpl" by (simp add: template_policy_def)
  ultimately show ?thesis using rr(2-) rule unfolding template_in_force_def by metis
qed

text \<open>The templates of the platform do not depend on what is installed for another tenant.\<close>

lemma template_rules_grown:
  assumes "grown tenantId db db'" and "platform \<noteq> tenantId"
  shows "template_rules platform policyId db' = template_rules platform policyId db"
proof -
  from assms(1) obtain rs bs where "pd_rules db' = pd_rules db @ rs" "pd_rule_bindings db' = pd_rule_bindings db @ bs"
      "\<forall>r \<in> set rs. ru_tenant_id r \<noteq> platform" "\<forall>b \<in> set bs. rb_tenant_id b \<noteq> platform"
    using assms(2) unfolding grown_def by blast
  moreover from this have "filter (\<lambda>r. P r \<and> ru_tenant_id r = platform) rs = []" for P by (auto simp: filter_empty_conv)
  moreover from calculation have "filter (\<lambda>b. rb_tenant_id b = platform \<and> rb_policy_id b = policyId) bs = []"
    by (auto simp: filter_empty_conv)
  ultimately show ?thesis by (simp add: template_rules_def)
qed

lemma template_rules_positions:
  assumes "positions_ok db"
  shows "distinct (map (\<lambda>(b, _). rb_order_index b) (template_rules platform policyId db))"
proof -
  let ?rules = "\<lambda>b. filter (\<lambda>r. rb_rule_id b = ru_id r \<and> ru_tenant_id r = platform) (pd_rules db)"
  let ?bound = "filter (\<lambda>b. rb_tenant_id b = platform \<and> rb_policy_id b = policyId)"
  have "unique_key rule_id_key rows \<Longrightarrow> length (filter (\<lambda>r. rb_rule_id b = ru_id r \<and> ru_tenant_id r = platform) rows) \<le> 1" for rows b
  proof (induction rows)
    case (Cons r rows)
    moreover have "filter (\<lambda>r. rb_rule_id b = ru_id r \<and> ru_tenant_id r = platform) rows = []" if "rb_rule_id b = ru_id r"
      using that Cons.prems by (auto simp: unique_key_Cons rule_id_key_def filter_empty_conv)
    ultimately show ?case by (auto simp: unique_key_Cons)
  qed simp
  from this [of "pd_rules db"] have short: "length (?rules b) \<le> 1" for b using assms unfolding positions_ok_def by blast
  have one: "distinct (map (\<lambda>(b, _). rb_order_index b) (map (Pair b) (?rules b)))" for b
    using short [of b] by (cases "?rules b") auto
  have "unique_key position_key rows \<Longrightarrow>
      distinct (map (\<lambda>(b, _). rb_order_index b) (concat (map (\<lambda>b. map (Pair b) (?rules b)) (?bound rows))))" for rows
  proof (induction rows)
    case (Cons b rows)
    let ?order = "\<lambda>(b :: rule_binding_row, r :: rule_row). rb_order_index b"
    have rest: "set (map ?order (concat (map (\<lambda>b. map (Pair b) (?rules b)) (?bound rows)))) \<subseteq> rb_order_index ` set (?bound rows)"
      and head: "set (map ?order (map (Pair b) (?rules b))) \<subseteq> {rb_order_index b}" by auto
    have "rb_order_index b \<notin> rb_order_index ` set (?bound rows)" if "rb_policy_id b = policyId"
      using that Cons.prems by (auto simp: unique_key_Cons position_key_def)
    with rest head have "rb_policy_id b = policyId \<Longrightarrow> set (map ?order (map (Pair b) (?rules b))) \<inter>
        set (map ?order (concat (map (\<lambda>b. map (Pair b) (?rules b)) (?bound rows)))) = {}" by blast
    moreover have "unique_key position_key rows" using Cons.prems by (simp add: unique_key_Cons)
    from Cons.IH [OF this] have "distinct (map ?order (concat (map (\<lambda>b. map (Pair b) (?rules b)) (?bound rows))))" .
    moreover have "?bound (b # rows) = (if rb_tenant_id b = platform \<and> rb_policy_id b = policyId then b # ?bound rows else ?bound rows)"
      by simp
    ultimately show ?case
      using one [of b]
      by (cases "rb_tenant_id b = platform \<and> rb_policy_id b = policyId")
        (simp_all only: if_True if_False list.map concat.simps map_append distinct_append simp_thms)
  qed simp
  from this [of "pd_rule_bindings db"] assms show ?thesis
    unfolding template_rules_def positions_ok_def distinct_map distinct_sort set_sort by blast
qed

lemma installed_named_iff:
  "installed now tenantId tmpl db db' \<Longrightarrow> named_policy tenantId name db' \<longleftrightarrow> named_policy tenantId name db \<or> name = pt_name tmpl"
  by (auto simp: installed_def named_policy_def template_policy_def)

text \<open>When no template is there by name yet, all of them are installed, one after the other.\<close>

fun all_installed :: "ms \<Rightarrow> string \<Rightarrow> policy_template list \<Rightarrow> policy_db \<Rightarrow> policy_db \<Rightarrow> bool" where
  "all_installed now tenantId [] db db' = (db' = db)"
| "all_installed now tenantId (tmpl # tmpls) db db' =
     (\<exists>db1. installed now tenantId tmpl db db1 \<and> tables_ok db1 \<and> all_installed now tenantId tmpls db1 db')"

lemma ensure_each_installs:
  assumes "tables_ok db" and "\<And>db' x. grown tenantId db db' \<Longrightarrow> x \<in> set xs \<Longrightarrow> tmpl db' x = T x"
    and "\<And>x. x \<in> set xs \<Longrightarrow> distinct (map rt_order_index (pt_rules (T x)))"
    and "distinct (map (pt_name \<circ> T) xs)" and "\<forall>x \<in> set xs. \<not> named_policy tenantId (pt_name (T x)) db"
  shows "\<exists>db'. ensure_each tmpl now tenantId xs db = Inr (length xs, db') \<and> all_installed now tenantId (map T xs) db db'"
  using assms
proof (induction xs arbitrary: db)
  case (Cons x xs)
  have x: "tmpl db x = T x" "distinct (map rt_order_index (pt_rules (T x)))" using Cons.prems(2) [OF grown_refl] Cons.prems(3) by simp_all
  from ensure_one [OF Cons.prems(1) x(2)] Cons.prems(5) obtain db1 where one: "ensureStarterPolicy now tenantId (tmpl db x) db = Inr (1, db1)"
    "grown tenantId db db1" "tables_ok db1" and i: "installed now tenantId (T x) db db1"
    unfolding x(1) by (metis list.set_intros(1))
  have "\<exists>db2. ensure_each tmpl now tenantId xs db1 = Inr (length xs, db2) \<and> all_installed now tenantId (map T xs) db1 db2"
  proof (rule Cons.IH [OF one(3)])
    show "\<forall>x \<in> set xs. \<not> named_policy tenantId (pt_name (T x)) db1"
      using Cons.prems(4,5) unfolding installed_named_iff [OF i] by (simp add: comp_def image_iff) metis
  qed (use Cons.prems(2-4) grown_trans [OF one(2)] in simp_all)
  with one i show ?case by auto
qed simp

lemma all_installed_grown: "all_installed now tenantId tmpls db db' \<Longrightarrow> grown tenantId db db'"
  by (induction tmpls arbitrary: db) (auto dest: installed_grown intro: grown_trans)

lemma all_installed_in_force:
  "all_installed now tenantId tmpls db db' \<Longrightarrow> drawn_rows db \<Longrightarrow> tmpl \<in> set tmpls \<Longrightarrow> pt_status tmpl = ''active'' \<Longrightarrow>
   rt \<in> set (pt_rules tmpl) \<Longrightarrow> rt_enabled rt \<Longrightarrow> now \<le> t \<Longrightarrow> template_in_force db' t tenantId projectId tmpl rt"
proof (induction tmpls arbitrary: db)
  case (Cons x tmpls)
  then obtain db1 where db1: "installed now tenantId x db db1" "tables_ok db1" "all_installed now tenantId tmpls db1 db'" by auto
  show ?case
  proof (cases "tmpl = x")
    case True
    with Cons.prems db1(1) have "template_in_force db1 t tenantId projectId tmpl rt" by (auto intro: installed_in_force)
    then show ?thesis by (rule template_in_force_grown [OF all_installed_grown [OF db1(3)]])
  qed (use Cons db1 in auto)
qed simp

lemma all_installed_policies:
  "all_installed now tenantId tmpls db db' \<Longrightarrow>
   \<exists>ps. pd_policies db' = pd_policies db @ ps \<and> list_all2 (\<lambda>tmpl p. p = template_policy now (po_id p) (po_policy_key p) tenantId tmpl) tmpls ps"
proof (induction tmpls arbitrary: db)
  case (Cons x tmpls)
  then obtain db1 where db1: "installed now tenantId x db db1" "all_installed now tenantId tmpls db1 db'" by auto
  from db1(1) obtain i k where "pd_policies db1 = pd_policies db @ [template_policy now i k tenantId x]" unfolding installed_def by blast
  moreover from Cons.IH [OF db1(2)] obtain ps where "pd_policies db' = pd_policies db1 @ ps"
      "list_all2 (\<lambda>tmpl p. p = template_policy now (po_id p) (po_policy_key p) tenantId tmpl) tmpls ps" by blast
  ultimately show ?case
    by (intro exI [of _ "template_policy now i k tenantId x # ps"]) (simp add: template_policy_def)
qed simp

text \<open>The rules of an installed template are its template again, for a copy to another tenant.\<close>

lemma installed_template_rules:
  assumes "installed now tenantId tmpl db db'" and "rt \<in> set (pt_rules tmpl)"
  shows "\<exists>p \<in> set (pd_policies db'). p = template_policy now (po_id p) (po_policy_key p) tenantId tmpl \<and> rt \<in> set (pt_rules (template_of db' p))"
proof -
  from assms(1) obtain rowId key new bs where
      pol: "pd_policies db' = pd_policies db @ [template_policy now rowId key tenantId tmpl]"
    and rules: "pd_rules db' = pd_rules db @ new" "rules_of now tenantId (pt_rules tmpl) new"
    and bs: "pd_rule_bindings db' = pd_rule_bindings db @ bs" "map clone_of bs = map2 template_binding (map ru_id new) (pt_rules tmpl)"
      "\<forall>b \<in> set bs. rb_policy_id b = rowId \<and> rb_tenant_id b = tenantId"
    unfolding installed_def by blast
  let ?p = "template_policy now rowId key tenantId tmpl"
  from assms(2) obtain i where i: "i < length (pt_rules tmpl)" "rt = pt_rules tmpl ! i" by (metis in_set_conv_nth)
  have len: "length new = length (pt_rules tmpl)" "length bs = length (pt_rules tmpl)"
    using rules_of_length [OF rules(2)] arg_cong [OF bs(2), of length] by simp_all
  have r: "new ! i \<in> set new" "new ! i = template_rule now (ru_id (new ! i)) (ru_rule_key (new ! i)) tenantId rt"
    using rules(2) i len by (auto simp: rules_of_def list_all2_conv_all_nth)
  have c: "clone_of (bs ! i) = template_binding (ru_id (new ! i)) rt"
    using arg_cong [OF bs(2), of "\<lambda>l. l ! i"] i len by simp
  have b: "bs ! i \<in> set bs" using i len by simp
  have "ru_tenant_id (new ! i) = tenantId" by (subst r(2)) (simp add: template_rule_def)
  with r(1) b c bs(1,3) rules(1) have "(bs ! i, new ! i) \<in> set (template_rules tenantId rowId db')"
    by (auto simp: template_rules_def clone_of_def template_binding_def image_iff)
  moreover have "rule_template_of (bs ! i, new ! i) = rt"
    using c by (subst r(2)) (simp add: rule_template_of_def template_rule_def clone_of_def template_binding_def)
  ultimately have "rt \<in> set (pt_rules (template_of db' ?p))"
    by (auto simp: template_of_def template_policy_def image_iff intro!: bexI [of _ "(bs ! i, new ! i)"])
  then show ?thesis using pol by (intro bexI [of _ ?p]) (simp_all add: template_policy_def)
qed

definition chosen_templates :: "ms \<Rightarrow> string \<Rightarrow> string option \<Rightarrow> provision_db \<Rightarrow> policy_row list" where
  "chosen_templates now tenantId platformTenantId db =
     (case chosen_platform platformTenantId db of
        None \<Rightarrow> []
      | Some p \<Rightarrow> if p = tenantId then [] else template_policies now p (pv_policies db))"

lemma starter_positions: "d \<in> set STARTER_POLICY_DEFINITIONS \<Longrightarrow> distinct (map rt_order_index (pt_rules d))"
  by (auto simp: STARTER_POLICY_DEFINITIONS_def starter_policy_def starter_rule_def cooling_rule_def osv_unavailable_rule_def
      critical_rule_def high_rule_def contributor_rule_def)

lemma starter_active:
  "d \<in> set STARTER_POLICY_DEFINITIONS \<Longrightarrow> pt_status d = ''active''"
  "d \<in> set STARTER_POLICY_DEFINITIONS \<Longrightarrow> rt \<in> set (pt_rules d) \<Longrightarrow> rt_enabled rt"
  by (auto simp: STARTER_POLICY_DEFINITIONS_def starter_policy_def starter_rule_def cooling_rule_def osv_unavailable_rule_def
      critical_rule_def high_rule_def contributor_rule_def)

lemma starter_names: "distinct (map pt_name STARTER_POLICY_DEFINITIONS)" "length STARTER_POLICY_DEFINITIONS = 2"
  by (simp_all add: STARTER_POLICY_DEFINITIONS_def starter_policy_def)

lemma template_of_positions: "positions_ok db \<Longrightarrow> distinct (map rt_order_index (pt_rules (template_of db p)))"
proof -
  have "map rt_order_index (pt_rules (template_of db p)) = map (\<lambda>(b, _). rb_order_index b) (template_rules (po_tenant_id p) (po_id p) db)"
    by (simp add: template_of_def rule_template_of_def comp_def case_prod_beta)
  then show "positions_ok db \<Longrightarrow> distinct (map rt_order_index (pt_rules (template_of db p)))"
    using template_rules_positions by metis
qed

lemma template_of_grown: "grown tenantId db db' \<Longrightarrow> po_tenant_id p \<noteq> tenantId \<Longrightarrow> template_of db' p = template_of db p"
  by (simp add: template_of_def template_rules_grown)

lemma starters_succeed:
  assumes "tables_ok db"
  shows "\<exists>n db'. ensureStarterPolicies now tenantId db = Inr (n, db') \<and> grown tenantId db db' \<and> tables_ok db' \<and>
    (\<forall>d \<in> set STARTER_POLICY_DEFINITIONS. named_policy tenantId (pt_name d) db')"
  using ensure_each_succeeds [where xs = STARTER_POLICY_DEFINITIONS and tmpl = "\<lambda>_ d. d" and T = "\<lambda>d. d" and now = now and tenantId = tenantId,
      OF assms refl starter_positions]
  unfolding ensureStarterPolicies_def by blast

text \<open>The starter rules are in force for every project of the tenant.\<close>

definition starters_in_force :: "policy_db \<Rightarrow> ms \<Rightarrow> string \<Rightarrow> string \<Rightarrow> bool" where
  "starters_in_force db t tenantId projectId =
     (\<forall>d \<in> set STARTER_POLICY_DEFINITIONS. \<forall>rt \<in> set (pt_rules d). template_in_force db t tenantId projectId d rt)"

lemma starters_installed:
  assumes "tables_ok db" and "\<forall>p \<in> set (pd_policies db). po_tenant_id p \<noteq> tenantId"
  shows "\<exists>db'. ensureStarterPolicies now tenantId db = Inr (2, db') \<and> all_installed now tenantId STARTER_POLICY_DEFINITIONS db db'"
proof -
  have "distinct (map (pt_name \<circ> (\<lambda>d. d)) STARTER_POLICY_DEFINITIONS)" using starter_names(1) by (simp add: comp_def)
  moreover have "\<forall>d \<in> set STARTER_POLICY_DEFINITIONS. \<not> named_policy tenantId (pt_name d) db"
    using assms(2) by (auto simp: named_policy_def list_ex_iff)
  ultimately show ?thesis
    using ensure_each_installs [where xs = STARTER_POLICY_DEFINITIONS and tmpl = "\<lambda>_ d. d" and T = "\<lambda>d. d" and now = now and tenantId = tenantId,
        OF assms(1) refl starter_positions]
    unfolding starter_names(2) ensureStarterPolicies_def list.map_ident by blast
qed

lemma all_starters_in_force:
  "all_installed now tenantId STARTER_POLICY_DEFINITIONS db db' \<Longrightarrow> tables_ok db \<Longrightarrow> now \<le> t \<Longrightarrow> starters_in_force db' t tenantId projectId"
  using all_installed_in_force starter_active unfolding starters_in_force_def by blast

lemma templates_of_tenant: "p \<in> set (template_policies now platform db) \<Longrightarrow> po_tenant_id p = platform \<and> po_status p = ''active''"
  by (simp add: template_policies_def)

lemma copy_succeeds:
  assumes "tables_ok db" and "platform \<noteq> tenantId"
  shows "\<exists>n db'. copyPlatformPolicyTemplatesToTenant now platform tenantId db = Inr (n, db') \<and> grown tenantId db db' \<and> tables_ok db' \<and>
    (\<forall>p \<in> set (template_policies now platform db). named_policy tenantId (po_name p) db') \<and>
    (n = 0 \<longleftrightarrow> (\<forall>p \<in> set (template_policies now platform db). named_policy tenantId (po_name p) db))"
  using ensure_each_succeeds [where xs = "template_policies now platform db" and tmpl = template_of and T = "template_of db" and now = now,
      OF assms(1) template_of_grown template_of_positions] assms templates_of_tenant [of _ now platform db]
  by (simp add: copyPlatformPolicyTemplatesToTenant_def template_of_def)

lemma copy_in_force:
  assumes "tables_ok db" and "platform \<noteq> tenantId" and "\<forall>p \<in> set (pd_policies db). po_tenant_id p \<noteq> tenantId"
    and "distinct (map po_name (template_policies now platform db))"
  shows "\<exists>db'. copyPlatformPolicyTemplatesToTenant now platform tenantId db = Inr (length (template_policies now platform db), db') \<and>
    grown tenantId db db' \<and>
    (\<forall>p \<in> set (template_policies now platform db). \<forall>rt \<in> set (pt_rules (template_of db p)). \<forall>t projectId. rt_enabled rt \<and> now \<le> t \<longrightarrow>
       template_in_force db' t tenantId projectId (template_of db p) rt)"
proof -
  let ?ps = "template_policies now platform db"
  have "distinct (map (pt_name \<circ> template_of db) ?ps)" using assms(4) by (simp add: template_of_def comp_def)
  moreover have "\<forall>p \<in> set ?ps. \<not> named_policy tenantId (pt_name (template_of db p)) db"
    using assms(3) by (auto simp: named_policy_def list_ex_iff)
  moreover have "template_of db' p = template_of db p" if "grown tenantId db db'" "p \<in> set ?ps" for db' p
    using template_of_grown [OF that(1)] templates_of_tenant [OF that(2)] assms(2) by simp
  moreover have "distinct (map rt_order_index (pt_rules (template_of db p)))" for p using template_of_positions assms(1) by blast
  ultimately obtain db' where run: "ensure_each template_of now tenantId ?ps db = Inr (length ?ps, db')"
      and all: "all_installed now tenantId (map (template_of db) ?ps) db db'"
    using ensure_each_installs [where xs = ?ps and tmpl = template_of and T = "template_of db" and now = now and tenantId = tenantId,
        OF assms(1)] by meson
  have "template_in_force db' t tenantId projectId (template_of db p) rt"
    if "p \<in> set ?ps" "rt \<in> set (pt_rules (template_of db p))" "rt_enabled rt" "now \<le> t" for p rt t projectId
  proof (rule all_installed_in_force [OF all _ _ _ that(2-4)])
    show "pt_status (template_of db p) = ''active''" using templates_of_tenant [OF that(1)] by (simp add: template_of_def)
  qed (use assms(1) that(1) in simp_all)
  with run all_installed_grown [OF all] assms(2) show ?thesis by (simp add: copyPlatformPolicyTemplatesToTenant_def)
qed

lemma first_row_append: "first_row P (rows @ [r]) = (if first_row P rows = None \<and> P r then Some r else first_row P rows)"
  by (induction rows) (simp_all add: first_row_def)

lemma entitlement_ensured:
  "entitlement_of u (ensureTenantEntitlements tenantId rows) =
     (if u = tenantId \<and> entitlement_of u rows = None then Some ((default_entitlements tenantId)\<lparr> en_mcp_enabled := True \<rparr>)
      else entitlement_of u rows)"
  by (auto simp: ensureTenantEntitlements_def first_row_append default_entitlements_def)

lemma entitled_db_simps [simp]:
  "pv_policies (entitled_db tenantId pdb db) = pdb" "pv_tenants (entitled_db tenantId pdb db) = pv_tenants db"
  "pv_entitlements (entitled_db tenantId pdb db) = ensureTenantEntitlements tenantId (pv_entitlements db)"
  "pv_proxies (entitled_db tenantId pdb db) = pv_proxies db" "pv_uuids (entitled_db tenantId pdb db) = pv_uuids db"
  by (simp_all add: entitled_db_def)


definition no_policies :: policy_db where
  "no_policies = \<lparr> pd_policies = [], pd_project_bindings = [], pd_rules = [], pd_rule_bindings = [],
                   pd_uuids = \<lparr> us_supply = (\<lambda>n. replicate (Suc n) CHR ''u''), us_drawn = 0 \<rparr> \<rparr>"

definition no_proxies :: proxy_db where
  "no_proxies = \<lparr> xd_proxies = [], xd_events = [], xd_uuids = pd_uuids no_policies, xd_secrets = pd_uuids no_policies \<rparr>"

definition empty_install :: provision_db where
  "empty_install = \<lparr> pv_tenants = [], pv_entitlements = [], pv_policies = no_policies, pv_proxies = no_proxies,
                     pv_uuids = pd_uuids no_policies \<rparr>"

lemma supply_ok: "source_ok (pd_uuids no_policies)"
proof -
  have "inj (\<lambda>n. replicate (Suc n) CHR ''u'')" by (rule injI) (drule arg_cong [where f = length], simp)
  then show ?thesis by (simp add: source_ok_def no_policies_def)
qed

lemma no_policies_ok: "tables_ok no_policies"
  using supply_ok by (simp add: drawn_rows_def positions_ok_def no_policies_def)


section \<open>A fresh installation\<close>

lemma template_rules_mono: "grown u db db' \<Longrightarrow> rt \<in> set (pt_rules (template_of db p)) \<Longrightarrow> rt \<in> set (pt_rules (template_of db' p))"
  by (auto simp: grown_def template_of_def template_rules_def image_iff; blast)

lemma all_installed_template_rules:
  "all_installed now tenantId tmpls db db' \<Longrightarrow> tmpl \<in> set tmpls \<Longrightarrow> rt \<in> set (pt_rules tmpl) \<Longrightarrow>
   \<exists>p \<in> set (pd_policies db'). p = template_policy now (po_id p) (po_policy_key p) tenantId tmpl \<and> rt \<in> set (pt_rules (template_of db' p))"
proof (induction tmpls arbitrary: db)
  case (Cons x tmpls)
  then obtain db1 where db1: "installed now tenantId x db db1" "all_installed now tenantId tmpls db1 db'" by auto
  note g = all_installed_grown [OF db1(2)]
  show ?case
  proof (cases "tmpl \<in> set tmpls")
    case True
    then show ?thesis by (rule Cons.IH [OF db1(2) _ Cons.prems(3)])
  next
    case False
    with Cons.prems(2,3) installed_template_rules [OF db1(1)] obtain p where
      "p \<in> set (pd_policies db1)" "p = template_policy now (po_id p) (po_policy_key p) tenantId tmpl" "rt \<in> set (pt_rules (template_of db1 p))"
      by auto
    then show ?thesis using g template_rules_mono [OF g] by (intro bexI [of _ p]) (auto simp: grown_def)
  qed
qed simp

lemma template_in_force_mode:
  "template_in_force db t tenantId projectId a rt \<Longrightarrow> pt_enforcement_mode a = pt_enforcement_mode b \<Longrightarrow>
   template_in_force db t tenantId projectId b rt"
  by (simp add: template_in_force_def)

lemma template_policy_row:
  "p = template_policy now (po_id p) (po_policy_key p) tenantId tmpl \<Longrightarrow>
   po_tenant_id p = tenantId \<and> po_project_id p = None \<and> po_name p = pt_name tmpl \<and> po_scope p = ''global'' \<and> po_status p = pt_status tmpl \<and>
   po_enforcement_mode p = pt_enforcement_mode tmpl \<and> po_effective_from p = now \<and> po_effective_to p = None"
  by (cases p) (simp add: template_policy_def)

text \<open>The templates a platform has after its starter policies, when it had none.\<close>

lemma starter_templates:
  assumes "all_installed now platform STARTER_POLICY_DEFINITIONS db db'" and "pd_policies db = []" and "now \<le> t"
  shows "pt_name ` set STARTER_POLICY_DEFINITIONS = po_name ` set (template_policies t platform db') \<and>
    set (template_policies t platform db') = set (pd_policies db') \<and>
    distinct (map po_name (template_policies t platform db')) \<and> length (template_policies t platform db') = 2 \<and>
    (\<forall>p \<in> set (pd_policies db'). po_tenant_id p = platform \<and> po_enforcement_mode p = ''enforcing'')"
proof -
  obtain ps where ps: "pd_policies db' = ps"
      "list_all2 (\<lambda>tmpl p. p = template_policy now (po_id p) (po_policy_key p) platform tmpl) STARTER_POLICY_DEFINITIONS ps"
    using all_installed_policies [OF assms(1)] assms(2) by auto
  have fields: "po_tenant_id p = platform \<and> po_project_id p = None \<and> po_scope p = ''global'' \<and> po_status p = ''active'' \<and>
      po_enforcement_mode p = ''enforcing'' \<and> in_force t (po_effective_from p) (po_effective_to p)" if mem: "p \<in> set ps" for p
  proof -
    obtain tmpl where tmpl: "tmpl \<in> set STARTER_POLICY_DEFINITIONS" and p: "p = template_policy now (po_id p) (po_policy_key p) platform tmpl"
      using list_all2_set2 [OF ps(2) mem] by blast
    have "pt_status tmpl = ''active''" "pt_enforcement_mode tmpl = ''enforcing''"
      using tmpl by (auto simp: STARTER_POLICY_DEFINITIONS_def starter_policy_def)
    with template_policy_row [OF p] assms(3) show ?thesis by (simp add: in_force_def)
  qed
  have names: "map po_name ps = map pt_name STARTER_POLICY_DEFINITIONS"
    using ps(2) by (induction rule: list_all2_induct) (auto dest: template_policy_row)
  have sel: "filter (\<lambda>p. po_tenant_id p = platform \<and> po_project_id p = None \<and> po_scope p = ''global'' \<and> po_status p = ''active'' \<and>
      in_force t (po_effective_from p) (po_effective_to p)) ps = ps"
    using fields by (simp add: filter_id_conv)
  have "length ps = 2" using arg_cong [OF names, of length] starter_names(2) by simp
  moreover have "distinct (map po_name ps)" using names starter_names(1) by simp
  moreover from this have "distinct (map po_name (sort_key po_priority ps))" by (simp add: distinct_map)
  moreover have "pt_name ` set STARTER_POLICY_DEFINITIONS = po_name ` set ps" using arg_cong [OF names, of set] by simp
  ultimately show ?thesis using fields by (simp add: template_policies_def ps(1) sel)
qed

definition fresh_install :: "provision_db \<Rightarrow> bool" where
  "fresh_install db =
     (pv_tenants db = [] \<and> source_ok (pv_uuids db) \<and> tables_ok (pv_policies db) \<and> pd_policies (pv_policies db) = [] \<and>
      xd_proxies (pv_proxies db) = [])"

definition standard_env :: "bootstrap_env \<Rightarrow> bool" where
  "standard_env env =
     (default ''bundled'' (bv_BOOTSTRAP_MODE env) = ''bundled'' \<and> parseBoolean (bv_SETUP_FIRST_TENANT env) True \<and>
      parseBoolean (bv_SETUP_FIRST_PROXY env) True \<and> parseBoolean (bv_SETUP_DEFAULT_POLICIES env) True \<and>
      first_set (bv_BOOTSTRAP_PROXY_ID env) (bv_PROXY_ID env) \<noteq> [] \<and>
      first_set (bv_BOOTSTRAP_PROXY_KEY env) (bv_PROXY_CONTROL_PLANE_SECRET env) \<noteq> [])"

definition bundled_tenants :: "ms \<Rightarrow> string \<Rightarrow> string \<Rightarrow> tenant_row list" where
  "bundled_tenants now p c =
     [\<lparr> te_id = p, te_name = ''Platform'', te_kind = ''platform'', te_created_at = now, te_updated_at = now \<rparr>,
      \<lparr> te_id = c, te_name = ''default-first-tenant'', te_kind = ''customer'', te_created_at = now, te_updated_at = now \<rparr>]"

lemma resolve_fresh:
  assumes "fresh_install db"
  shows "\<exists>p c u. resolveBundledTenants now True db = Inr ((Some p, Some c, True), db\<lparr> pv_tenants := bundled_tenants now p c, pv_uuids := u \<rparr>) \<and>
    p \<noteq> c \<and> p \<noteq> [] \<and> c \<noteq> []"
proof -
  obtain p u where p: "draw (pv_uuids db) = (p, u)" by (cases "draw (pv_uuids db)")
  obtain c u' where c: "draw u = (c, u')" by (cases "draw u")
  have ok: "source_ok (pv_uuids db)" "source_ok u" using assms p draw_source by (auto simp: fresh_install_def)
  have "p \<noteq> c" using draw_fresh [OF ok(2) c] draw_drawn [OF p] by blast
  moreover have "p \<noteq> []" "c \<noteq> []" using draw_nonempty p c ok by blast+
  moreover have "resolveBundledTenants now True db =
      Inr ((Some p, Some c, True), db\<lparr> pv_tenants := bundled_tenants now p c, pv_uuids := u' \<rparr>)"
    using assms p c
    by (simp add: fresh_install_def resolveBundledTenants_def tenant_or_new_def tenant_of_kind_def insert_tenant_def bundled_tenants_def)
  ultimately show ?thesis by blast
qed

lemma resolve_again:
  "pv_tenants db = bundled_tenants now p c \<Longrightarrow> resolveBundledTenants t b db = Inr ((Some p, Some c, False), db)"
  by (simp add: resolveBundledTenants_def bundled_tenants_def tenant_of_kind_def tenant_or_new_def)

lemma starters_again:
  "\<forall>d \<in> set STARTER_POLICY_DEFINITIONS. named_policy tenantId (pt_name d) db \<Longrightarrow> ensureStarterPolicies t tenantId db = Inr (0, db)"
  unfolding ensureStarterPolicies_def by (rule ensure_each_done) simp

lemma entitled_again:
  "entitlement_of c (pv_entitlements db) \<noteq> None \<Longrightarrow> pv_policies db = pdb \<Longrightarrow>
   entitled_db c pdb db = db \<and> db\<lparr> pv_entitlements := ensureTenantEntitlements c (pv_entitlements db) \<rparr> = db"
  by (simp add: entitled_db_def ensureTenantEntitlements_def)

text \<open>The platform with the starter policies, and the customer with a copy of them.\<close>

lemma pair_provisioned:
  assumes "tables_ok pdb" and "pd_policies pdb = []" and "p \<noteq> c" and "p \<noteq> []" and "pv_policies db = pdb"
  shows "\<exists>pdb1 pdb2. ensureStarterPolicies now p pdb = Inr (2, pdb1) \<and>
    provisionCustomerTenantDefaults now c (Some p) (db\<lparr> pv_policies := pdb1 \<rparr>) =
      Inr ((Platform_template, 2), entitled_db c pdb2 (db\<lparr> pv_policies := pdb1 \<rparr>)) \<and>
    (\<forall>t projectId. now \<le> t \<longrightarrow> starters_in_force pdb2 t p projectId \<and> starters_in_force pdb2 t c projectId) \<and>
    (\<forall>t. now \<le> t \<longrightarrow> copyPlatformPolicyTemplatesToTenant t p c pdb2 = Inr (0, pdb2)) \<and>
    (\<forall>d \<in> set STARTER_POLICY_DEFINITIONS. named_policy p (pt_name d) pdb2 \<and> named_policy c (pt_name d) pdb2)"
proof -
  from starters_installed [OF assms(1), of p now] assms(2) obtain pdb1 where
      one: "ensureStarterPolicies now p pdb = Inr (2, pdb1)" and all: "all_installed now p STARTER_POLICY_DEFINITIONS pdb pdb1" by auto
  from starters_succeed [OF assms(1), of now p] one have ok1: "tables_ok pdb1"
    and named: "\<forall>d \<in> set STARTER_POLICY_DEFINITIONS. named_policy p (pt_name d) pdb1" by auto
  note tm = starter_templates [OF all assms(2)]
  have others: "\<forall>q \<in> set (pd_policies pdb1). po_tenant_id q \<noteq> c" using tm [OF order_refl] assms(3) by simp
  from copy_in_force [OF ok1 assms(3) others] tm [OF order_refl] obtain pdb2 where
      two: "copyPlatformPolicyTemplatesToTenant now p c pdb1 = Inr (2, pdb2)" "grown c pdb1 pdb2"
    and force: "\<And>q rt t projectId. q \<in> set (template_policies now p pdb1) \<Longrightarrow> rt \<in> set (pt_rules (template_of pdb1 q)) \<Longrightarrow> rt_enabled rt \<Longrightarrow>
        now \<le> t \<Longrightarrow> template_in_force pdb2 t c projectId (template_of pdb1 q) rt" by metis
  from copy_succeeds [OF ok1 assms(3), of now] two(1)
  have copied: "\<forall>q \<in> set (template_policies now p pdb1). named_policy c (po_name q) pdb2" by auto
  then have cnamed: "\<forall>d \<in> set STARTER_POLICY_DEFINITIONS. named_policy c (pt_name d) pdb2" using tm [OF order_refl] by (metis image_iff)
  have again: "copyPlatformPolicyTemplatesToTenant t p c pdb2 = Inr (0, pdb2)" if "now \<le> t" for t
  proof -
    have "template_policies t p pdb2 = template_policies t p pdb1"
      using two(2) assms(3) by (auto simp: grown_def template_policies_def filter_empty_conv)
    then have "\<forall>q \<in> set (template_policies t p pdb2). named_policy c (po_name q) pdb2"
      using tm [OF that] tm [OF order_refl] copied by simp
    then have "ensure_each template_of t c (template_policies t p pdb2) pdb2 = Inr (0, pdb2)"
      by (intro ensure_each_done) (simp add: template_of_def)
    then show ?thesis using assms(3) by (simp add: copyPlatformPolicyTemplatesToTenant_def)
  qed
  have customer: "starters_in_force pdb2 t c projectId" if "now \<le> t" for t projectId
    unfolding starters_in_force_def
  proof (intro ballI)
    fix d rt assume d: "d \<in> set STARTER_POLICY_DEFINITIONS" and rt: "rt \<in> set (pt_rules d)"
    from all_installed_template_rules [OF all d rt] obtain q where q: "q \<in> set (pd_policies pdb1)" "rt \<in> set (pt_rules (template_of pdb1 q))" by blast
    have "template_in_force pdb2 t c projectId (template_of pdb1 q) rt"
      by (rule force [OF _ q(2) starter_active(2) [OF d rt] that]) (use tm [OF order_refl] q(1) in blast)
    moreover have "pt_enforcement_mode d = ''enforcing''"
      using d by (auto simp: STARTER_POLICY_DEFINITIONS_def starter_policy_def)
    then have "pt_enforcement_mode (template_of pdb1 q) = pt_enforcement_mode d"
      using tm [OF order_refl] q(1) by (simp add: template_of_def)
    ultimately show "template_in_force pdb2 t c projectId d rt" by (rule template_in_force_mode)
  qed
  have platform: "starters_in_force pdb2 t p projectId" if "now \<le> t" for t projectId
    using all_starters_in_force [OF all assms(1) that, of projectId] template_in_force_grown [OF two(2)]
    unfolding starters_in_force_def by blast
  have "provisionCustomerTenantDefaults now c (Some p) (db\<lparr> pv_policies := pdb1 \<rparr>) =
      Inr ((Platform_template, 2), entitled_db c pdb2 (db\<lparr> pv_policies := pdb1 \<rparr>))"
    using assms(4) two(1)
    by (simp add: provisionCustomerTenantDefaults_def copied_templates_def chosen_platform_def Tenant_Access.present_def)
  with one customer platform again named cnamed named_grown [OF two(2)] show ?thesis by blast
qed

lemma swap_updates: "db\<lparr> pv_policies := a, pv_entitlements := b \<rparr> = db\<lparr> pv_entitlements := b, pv_policies := a \<rparr>" for db :: provision_db
  by (cases db) simp

lemma proxy_registered:
  assumes "xd_proxies xdb = []"
  shows "\<exists>xdb'. ensureBundledProxy hash now p i key name xdb = Inr (True, xdb') \<and>
    first_row (\<lambda>x. xr_proxy_id x = i) (xd_proxies xdb') \<noteq> None \<and>
    (\<forall>x \<in> set (xd_proxies xdb'). xr_tenant_id x = p \<and> xr_secret_hash x = hash key)"
proof -
  obtain rowId u where "draw (xd_uuids xdb) = (rowId, u)" by (cases "draw (xd_uuids xdb)")
  with assms show ?thesis by (simp add: ensureBundledProxy_def first_row_def)
qed

text \<open>
  C32: the initialization of a fresh installation completes, and doing it again changes nothing. With
  the standard settings it creates the platform tenant and the first customer tenant, whose projects
  both have the five starter rules in force from that moment, and registers the proxy; when it runs
  again at any later time, as it does at every start, it finds everything, creates nothing and leaves
  the database as it is.
\<close>

theorem bootstrap_idempotent:
  assumes "fresh_install db" and "standard_env env"
  shows "\<exists>p c db'. p \<noteq> c \<and>
    runBundledBootstrapInitialization hash now env db =
      Inr (\<lparr> in_platformTenantId = Some p, in_customerTenantId = Some c, in_tenantCreated = True, in_proxyCreated = True,
             in_policiesCreated = 4 \<rparr>, db') \<and>
    (\<forall>t projectId. now \<le> t \<longrightarrow>
       starters_in_force (pv_policies db') t p projectId \<and> starters_in_force (pv_policies db') t c projectId) \<and>
    (\<forall>t. now \<le> t \<longrightarrow> runBundledBootstrapInitialization hash t env db' =
       Inr (\<lparr> in_platformTenantId = Some p, in_customerTenantId = Some c, in_tenantCreated = False, in_proxyCreated = False,
              in_policiesCreated = 0 \<rparr>, db'))"
proof -
  let ?id = "first_set (bv_BOOTSTRAP_PROXY_ID env) (bv_PROXY_ID env)"
  let ?key = "first_set (bv_BOOTSTRAP_PROXY_KEY env) (bv_PROXY_CONTROL_PLANE_SECRET env)"
  let ?name = "default ''bundled-proxy'' (bv_DEFAULT_PROXY_NAME env)"
  obtain p c u where resolved: "resolveBundledTenants now True db = Inr ((Some p, Some c, True), db\<lparr> pv_tenants := bundled_tenants now p c, pv_uuids := u \<rparr>)"
      and ids: "p \<noteq> c" "p \<noteq> []" using resolve_fresh [OF assms(1)] by blast
  let ?db1 = "db\<lparr> pv_tenants := bundled_tenants now p c, pv_uuids := u \<rparr>"
  let ?db2 = "?db1\<lparr> pv_entitlements := ensureTenantEntitlements c (pv_entitlements db) \<rparr>"
  have "tables_ok (pv_policies db)" "pd_policies (pv_policies db) = []" using assms(1) by (simp_all add: fresh_install_def)
  from pair_provisioned [OF this ids, of ?db2 now] obtain pdb1 pdb2 where
      starters: "ensureStarterPolicies now p (pv_policies db) = Inr (2, pdb1)"
    and customer: "provisionCustomerTenantDefaults now c (Some p) (?db2\<lparr> pv_policies := pdb1 \<rparr>) =
        Inr ((Platform_template, 2), entitled_db c pdb2 (?db2\<lparr> pv_policies := pdb1 \<rparr>))"
    and force: "\<forall>t projectId. now \<le> t \<longrightarrow> starters_in_force pdb2 t p projectId \<and> starters_in_force pdb2 t c projectId"
    and again: "\<forall>t. now \<le> t \<longrightarrow> copyPlatformPolicyTemplatesToTenant t p c pdb2 = Inr (0, pdb2)"
    and named: "\<forall>d \<in> set STARTER_POLICY_DEFINITIONS. named_policy p (pt_name d) pdb2 \<and> named_policy c (pt_name d) pdb2"
    by auto
  have "xd_proxies (pv_proxies db) = []" using assms(1) by (simp add: fresh_install_def)
  then obtain xdb where proxy: "ensureBundledProxy hash now p ?id ?key ?name (pv_proxies db) = Inr (True, xdb)"
      "first_row (\<lambda>x. xr_proxy_id x = ?id) (xd_proxies xdb) \<noteq> None"
      "\<forall>x \<in> set (xd_proxies xdb). xr_tenant_id x = p \<and> xr_secret_hash x = hash ?key"
    using proxy_registered by blast
  define db' where "db' = (entitled_db c pdb2 (?db2\<lparr> pv_policies := pdb1 \<rparr>))\<lparr> pv_proxies := xdb \<rparr>"
  have fields: "pv_tenants db' = bundled_tenants now p c" "pv_policies db' = pdb2" "pv_proxies db' = xdb"
      "entitlement_of c (pv_entitlements db') \<noteq> None"
    by (simp_all add: db'_def entitlement_ensured)
  have first: "runBundledBootstrapInitialization hash now env db =
      Inr (\<lparr> in_platformTenantId = Some p, in_customerTenantId = Some c, in_tenantCreated = True, in_proxyCreated = True,
             in_policiesCreated = 4 \<rparr>, db')"
    using assms(2) resolved starters customer proxy(1)
    by (simp add: runBundledBootstrapInitialization_def standard_env_def bootstrap_platform_def bootstrap_customer_def
        bootstrap_proxy_def db'_def swap_updates)
  have proxy_again: "ensureBundledProxy hash t p ?id ?key ?name xdb = Inr (False, xdb)" for t
    using proxy(2,3) by (auto simp: ensureBundledProxy_def first_row_def dest: find_SomeD)
  have second: "runBundledBootstrapInitialization hash t env db' =
      Inr (\<lparr> in_platformTenantId = Some p, in_customerTenantId = Some c, in_tenantCreated = False, in_proxyCreated = False,
              in_policiesCreated = 0 \<rparr>, db')" if "now \<le> t" for t
  proof -
    have "provisionCustomerTenantDefaults t c (Some p) db' = Inr ((Builtin_starter, 0), db')"
      using again that starters_again [of c pdb2 t] named ids(2) entitled_again [OF fields(4,2)]
      by (simp add: provisionCustomerTenantDefaults_def copied_templates_def chosen_platform_def Tenant_Access.present_def fields(2))
    moreover have "bootstrap_platform t True (Some p) db' = Inr (0, db')"
      using starters_again [of p pdb2 t] named by (simp add: bootstrap_platform_def fields(2) [symmetric])
    ultimately show ?thesis
      using assms(2) resolve_again [OF fields(1)] proxy_again entitled_again [OF fields(4,2)] fields(3)
      by (simp add: runBundledBootstrapInitialization_def standard_env_def bootstrap_customer_def bootstrap_proxy_def)
  qed
  show ?thesis
    by (rule exI [of _ p], rule exI [of _ c], rule exI [of _ db']) (use ids(1) first second force fields(2) in simp)
qed

definition sample_bootstrap_env :: bootstrap_env where
  "sample_bootstrap_env =
     \<lparr> bv_BOOTSTRAP_MODE = None, bv_SETUP_FIRST_TENANT = None, bv_SETUP_FIRST_PROXY = Some ''true'', bv_SETUP_DEFAULT_POLICIES = None,
       bv_DEFAULT_PROXY_NAME = None, bv_BOOTSTRAP_PROXY_ID = Some ''px'', bv_PROXY_ID = None, bv_BOOTSTRAP_PROXY_KEY = None,
       bv_PROXY_CONTROL_PLANE_SECRET = Some ''secret'' \<rparr>"

theorem bootstrap_idempotent_witness:
  "\<exists>p c db'. runBundledBootstrapInitialization id 5 sample_bootstrap_env empty_install =
      Inr (\<lparr> in_platformTenantId = Some p, in_customerTenantId = Some c, in_tenantCreated = True, in_proxyCreated = True,
             in_policiesCreated = 4 \<rparr>, db') \<and> starters_in_force (pv_policies db') 9 c ''project''"
proof -
  have "fresh_install empty_install"
    using supply_ok no_policies_ok by (simp add: fresh_install_def empty_install_def no_proxies_def) (simp add: no_policies_def)
  moreover have "standard_env sample_bootstrap_env" by code_simp
  ultimately obtain p c db' where run: "runBundledBootstrapInitialization id 5 sample_bootstrap_env empty_install =
      Inr (\<lparr> in_platformTenantId = Some p, in_customerTenantId = Some c, in_tenantCreated = True, in_proxyCreated = True,
             in_policiesCreated = 4 \<rparr>, db')"
    and force: "\<forall>t projectId. 5 \<le> t \<longrightarrow>
       starters_in_force (pv_policies db') t p projectId \<and> starters_in_force (pv_policies db') t c projectId"
    using bootstrap_idempotent [of empty_install sample_bootstrap_env id 5] by blast
  from force have "starters_in_force (pv_policies db') 9 c ''project''" by simp
  with run show ?thesis by blast
qed

text \<open>
  Provisioning itself is not idempotent: with a template of another name than the starter policies,
  the first run copies it, and the second, which finds nothing left to copy, adds the starter policies
  as well.
\<close>

definition strict_platform :: provision_db where
  "strict_platform = empty_install\<lparr> pv_policies := no_policies\<lparr> pd_policies :=
     [sample_policy\<lparr> po_id := ''x'', po_policy_key := ''y'', po_tenant_id := ''p'', po_name := ''Strict'' \<rparr>] \<rparr> \<rparr>"

lemma provisioning_not_idempotent:
  "case provisionCustomerTenantDefaults 5 ''t'' (Some ''p'') strict_platform of
     Inl _ \<Rightarrow> False
   | Inr (first, db1) \<Rightarrow> first = (Platform_template, 1) \<and>
       (case provisionCustomerTenantDefaults 6 ''t'' (Some ''p'') db1 of
          Inl _ \<Rightarrow> False
        | Inr (second, db2) \<Rightarrow> second = (Builtin_starter, 2) \<and>
            map po_name (filter (\<lambda>q. po_tenant_id q = ''t'') (pd_policies (pv_policies db2))) =
              [''Strict'', ''Default Security Policy'', ''Contributor Risk Policy''])"
  by code_simp

end
