(* ===== verification/Sign_In.thy ===== *)
theory Sign_In
  imports Provisioning
begin

text \<open>
  How a user comes to a session. The identity service calls \<open>POST /internal/auth/token-hook\<close> before it
  issues a token: the request is verified (\<open>features/internal-auth-hook/verification.ts\<close>), the user is
  given tenants on the first sign-in (\<open>features/internal-auth-hook/token-hook-service.ts\<close>), and the claims
  of the token are built. Every later request carries the token; \<open>middleware/auth.ts\<close> has it verified
  and reads the claims back (\<open>auth/jwt-verifier.ts\<close>, \<open>auth/auth-claims.ts\<close>).

  Parameters: the HMAC and the base64 decoder of \<open>node:crypto\<close> and \<open>Buffer\<close>, \<open>JSON.parse\<close>, the reading
  of URLs, the cast of PostgreSQL from text to \<open>uuid\<close>, the order in which a query without \<open>ORDER BY\<close>
  returns its rows, and \<open>jwtVerify\<close>. Proved: a delivered webhook is not accepted again while its
  identifier is remembered, or ever if it was signed before the second of its delivery; a sign-in makes a
  user an owner of memberless tenants only; the claims of a sign-in read back as a session on a tenant
  of the user, in the role the user has there.
\<close>

section \<open>Verification of a webhook\<close>

text \<open>\<open>Number.parseInt\<close> with radix ten; a number from \<open>2 ^ 1024 - 2 ^ 970\<close> on reads as infinite.\<close>

definition js_parseInt :: "string \<Rightarrow> jsnum" where
  "js_parseInt s =
     (let t = dropWhile is_js_space s;
          negative = js_startsWith t ''-'';
          digits = takeWhile is_digit (if negative \<or> js_startsWith t ''+'' then tl t else t);
          n = digits_val digits
      in if digits = [] then NaN
         else if int n \<ge> 2 ^ 1024 - 2 ^ 970 then (if negative then NegInf else PosInf)
         else Fin (if negative then - of_nat n else of_nat n))"

definition WEBHOOK_MAX_SKEW_SECONDS :: int where
  "WEBHOOK_MAX_SKEW_SECONDS = 300"

definition WEBHOOK_ID_TTL_MS :: ms where
  "WEBHOOK_ID_TTL_MS = WEBHOOK_MAX_SKEW_SECONDS * 1000"

datatype hook_result = Hook_ok | Hook_refused nat string string

record hook_message =
  hk_body :: string
  hk_webhookId :: string
  hk_webhookTimestamp :: string
  hk_webhookSignature :: string

type_synonym webhook_ids = "(string \<times> ms) list"

definition sigBase64 :: "string \<Rightarrow> string" where
  "sigBase64 webhookSignature =
     default [] (find (\<lambda>segment. segment \<noteq> [])
       (map (\<lambda>segment. if js_startsWith segment ''v1,'' then drop 3 segment else segment)
         (js_split (CHR '' '') webhookSignature)))"

definition signatureValid :: "(string \<Rightarrow> string \<Rightarrow> string) \<Rightarrow> (string \<Rightarrow> string) \<Rightarrow> string \<Rightarrow> hook_message \<Rightarrow> bool" where
  "signatureValid hmac from_base64 secret m =
     (let signed = hk_webhookId m @ ''.'' @ hk_webhookTimestamp m @ ''.'' @ hk_body m;
          expected = hmac secret signed;
          provided = from_base64 (sigBase64 (hk_webhookSignature m))
      in sigBase64 (hk_webhookSignature m) \<noteq> [] \<and> length provided = length expected \<and> provided = expected)"

definition pruneRecentWebhookIds :: "ms \<Rightarrow> webhook_ids \<Rightarrow> webhook_ids" where
  "pruneRecentWebhookIds nowMs recent = filter (\<lambda>(i, seenAt). \<not> nowMs - seenAt > WEBHOOK_ID_TTL_MS) recent"

definition verifyTokenHookRequest ::
    "(string \<Rightarrow> string \<Rightarrow> string) \<Rightarrow> (string \<Rightarrow> string) \<Rightarrow> string \<Rightarrow> ms \<Rightarrow> hook_message \<Rightarrow> webhook_ids \<Rightarrow> hook_result \<times> webhook_ids" where
  "verifyTokenHookRequest hmac from_base64 secret nowMs m recent =
     (if \<not> signatureValid hmac from_base64 secret m
      then (Hook_refused 401 ''UNAUTHORIZED'' ''Invalid hook signature'', recent)
      else case js_parseInt (hk_webhookTimestamp m) of
        Fin ts \<Rightarrow>
          if \<bar>of_int (nowMs div 1000) - ts\<bar> > of_int WEBHOOK_MAX_SKEW_SECONDS
          then (Hook_refused 401 ''UNAUTHORIZED'' ''Webhook timestamp is outside the allowed skew window'', recent)
          else (let kept = pruneRecentWebhookIds nowMs recent
                in if hk_webhookId m \<noteq> [] \<and> map_of kept (hk_webhookId m) \<noteq> None
                   then (Hook_refused 409 ''REPLAYED_WEBHOOK'' ''Duplicate webhook delivery rejected'', kept)
                   else (Hook_ok, if hk_webhookId m \<noteq> [] then kept @ [(hk_webhookId m, nowMs)] else kept))
      | _ \<Rightarrow> (Hook_refused 401 ''UNAUTHORIZED'' ''Invalid webhook timestamp'', recent))"

section \<open>The name of a new tenant\<close>

text \<open>The members that the type of the payload names; \<open>JUndef\<close> for one that is absent.\<close>

record hook_payload =
  hp_user_id :: string
  hp_email :: jsval
  hp_claims :: "jsobj option"
  hp_user :: "jsobj option"
  hp_record :: "jsobj option"

fun readStringPath :: "jsval \<Rightarrow> string list \<Rightarrow> string option" where
  "readStringPath (JStr s) [] = Some s"
| "readStringPath (JObj o') (segment # path) = readStringPath (obj_get o' segment) path"
| "readStringPath (JArr vs) (segment # path) = readStringPath JUndef path"
| "readStringPath _ _ = None"

definition as_string :: "jsval \<Rightarrow> string option" where
  "as_string v = (case v of JStr s \<Rightarrow> Some s | _ \<Rightarrow> None)"

definition payload_emails :: "hook_payload \<Rightarrow> string option list" where
  "payload_emails payload =
     (let member = (\<lambda>part. case part of None \<Rightarrow> None | Some o' \<Rightarrow> as_string (obj_get o' ''email''));
          claims = (case hp_claims payload of None \<Rightarrow> JUndef | Some o' \<Rightarrow> JObj o')
      in [as_string (hp_email payload), member (hp_user payload), member (hp_record payload),
          readStringPath claims [''email''], readStringPath claims [''user_metadata'', ''email''],
          readStringPath claims [''app_metadata'', ''email'']])"

definition getPayloadEmail :: "hook_payload \<Rightarrow> string option" where
  "getPayloadEmail payload =
     default None (find (\<lambda>candidate. case candidate of None \<Rightarrow> False | Some s \<Rightarrow> js_trim s \<noteq> []) (payload_emails payload))"

definition name_char :: "char \<Rightarrow> bool" where
  "name_char c = (97 \<le> code_unit c \<and> code_unit c \<le> 122 \<or> is_digit c \<or> c \<in> set ''@._+-'')"

definition name_edge :: "char \<Rightarrow> bool" where
  "name_edge c = (c \<in> set ''._+-'')"

text \<open>\<open>replace(/[P]+/g, "-")\<close>: every run of characters of the class becomes one dash.\<close>

fun dash_runs :: "(char \<Rightarrow> bool) \<Rightarrow> string \<Rightarrow> string" where
  "dash_runs P [] = []"
| "dash_runs P (c # s) =
     (if P c then (case s of [] \<Rightarrow> ''-'' | d # _ \<Rightarrow> if P d then dash_runs P s else CHR ''-'' # dash_runs P s)
      else c # dash_runs P s)"

definition trim_end :: "(char \<Rightarrow> bool) \<Rightarrow> string \<Rightarrow> string" where
  "trim_end P s = rev (dropWhile P (rev s))"

definition sanitizeTenantNameFromEmail :: "string \<Rightarrow> string option" where
  "sanitizeTenantNameFromEmail email =
     (let normalized = js_toLowerCase (js_trim email)
      in if \<not> js_includes normalized ''@'' then None
         else or_null (trim_end name_edge (take 80 (trim_end name_edge (dropWhile name_edge
                (dash_runs (\<lambda>c. c = CHR ''-'') (dash_runs (\<lambda>c. \<not> name_char c) normalized)))))))"

definition getAutoCreatedCustomerTenantName :: "hook_payload \<Rightarrow> string" where
  "getAutoCreatedCustomerTenantName payload =
     default (''tenant-'' @ take 8 (hp_user_id payload))
       (case getPayloadEmail payload of None \<Rightarrow> None | Some email \<Rightarrow> sanitizeTenantNameFromEmail email)"

section \<open>Audiences\<close>

record oauth_client_row =
  oc_id :: string
  oc_registration_type :: string
  oc_client_type :: string
  oc_token_endpoint_auth_method :: string
  oc_redirect_uris :: string
  oc_deleted :: bool

text \<open>A URL reads as its protocol and its host name.\<close>

definition isLocalhostRedirectUri :: "(string \<Rightarrow> (string \<times> string) option) \<Rightarrow> string \<Rightarrow> bool" where
  "isLocalhostRedirectUri parse_url uri =
     (case parse_url uri of
        None \<Rightarrow> False
      | Some (protocol, host) \<Rightarrow>
          (protocol = ''http:'' \<or> protocol = ''https:'') \<and> (host = ''localhost'' \<or> host = ''127.0.0.1''))"

definition redirect_uri_list :: "oauth_client_row \<Rightarrow> string list" where
  "redirect_uri_list client = filter (\<lambda>uri. uri \<noteq> []) (map js_trim (js_split (CHR '','') (oc_redirect_uris client)))"

definition isMcpEligibleOAuthClient ::
    "(string \<Rightarrow> (string \<times> string) option) \<Rightarrow> (string \<Rightarrow> string option) \<Rightarrow> oauth_client_row list \<Rightarrow> string \<Rightarrow> js_error + bool" where
  "isMcpEligibleOAuthClient parse_url to_uuid clients clientId =
     (case to_uuid clientId of
        None \<Rightarrow> Inl (AppError ''invalid input syntax for type uuid'')
      | Some i \<Rightarrow>
          Inr (case first_row (\<lambda>c. oc_id c = i \<and> \<not> oc_deleted c) clients of
                 None \<Rightarrow> False
               | Some client \<Rightarrow>
                   oc_registration_type client = ''dynamic'' \<and> oc_client_type client = ''public'' \<and>
                   oc_token_endpoint_auth_method client = ''none'' \<and> redirect_uri_list client \<noteq> [] \<and>
                   list_all (isLocalhostRedirectUri parse_url) (redirect_uri_list client)))"

text \<open>The distinct members in the order of their first occurrence, as \<open>[...new Set(xs)]\<close> lists them.\<close>

definition set_order :: "'a list \<Rightarrow> 'a list" where
  "set_order xs = rev (remdups (rev xs))"

fun currentAudiences :: "jsval \<Rightarrow> string list" where
  "currentAudiences (JArr vs) = filter (\<lambda>s. s \<noteq> []) (List.map_filter as_string vs)"
| "currentAudiences (JStr s) = (if s \<noteq> [] then [s] else [])"
| "currentAudiences _ = []"

definition own_audiences :: "jsval \<Rightarrow> jsval" where
  "own_audiences rawAud =
     (case currentAudiences rawAud of
        [] \<Rightarrow> JUndef
      | a # _ \<Rightarrow> (case rawAud of JArr _ \<Rightarrow> JArr (map JStr (currentAudiences rawAud)) | _ \<Rightarrow> JStr a))"

definition mergeAudiences ::
    "(string \<Rightarrow> (string \<times> string) option) \<Rightarrow> (string \<Rightarrow> string option) \<Rightarrow> oauth_client_row list \<Rightarrow> jsobj \<Rightarrow> js_error + jsval" where
  "mergeAudiences parse_url to_uuid clients claims =
     (let rawAud = obj_get claims ''aud''
      in case as_string (obj_get claims ''client_id'') of
           None \<Rightarrow> Inr (own_audiences rawAud)
         | Some clientId \<Rightarrow>
             if clientId = [] then Inr (own_audiences rawAud)
             else sum_bind (isMcpEligibleOAuthClient parse_url to_uuid clients clientId) (\<lambda>eligible.
               Inr (if eligible then JArr (map JStr (set_order (currentAudiences rawAud @ [''mcp''])))
                    else own_audiences rawAud)))"

section \<open>Tenants of a user\<close>

text \<open>A membership of the user with its tenant, and the entry of it in the claims.\<close>

record tenant_info =
  ti_tenant_id :: string
  ti_tenant_name :: string
  ti_tenant_kind :: string
  ti_role :: string

record sign_in_db =
  sn_recent :: webhook_ids
  sn_memberships :: "membership_row list"
  sn_install :: provision_db
  sn_oauth_clients :: "oauth_client_row list"

definition membership_info :: "membership_row \<Rightarrow> tenant_row \<Rightarrow> tenant_info" where
  "membership_info m t =
     \<lparr> ti_tenant_id = ms_tenant_id m, ti_tenant_name = te_name t, ti_tenant_kind = te_kind t, ti_role = ms_role m \<rparr>"

definition memberships_of :: "string \<Rightarrow> sign_in_db \<Rightarrow> tenant_info list" where
  "memberships_of userId db =
     concat (map (\<lambda>m. map (membership_info m) (filter (\<lambda>t. te_id t = ms_tenant_id m) (pv_tenants (sn_install db))))
       (filter (\<lambda>m. ms_user_id m = userId) (sn_memberships db)))"

definition memberless :: "sign_in_db \<Rightarrow> tenant_row \<Rightarrow> bool" where
  "memberless db t = (\<not> list_ex (\<lambda>m. ms_tenant_id m = te_id t) (sn_memberships db))"

definition claimableTenants :: "sign_in_db \<Rightarrow> tenant_row list" where
  "claimableTenants db = take 3 (sort_key te_created_at (filter (memberless db) (pv_tenants (sn_install db))))"

definition sortMembershipsForDefaultActiveTenant :: "tenant_info list \<Rightarrow> tenant_info list" where
  "sortMembershipsForDefaultActiveTenant rows = sort_key (\<lambda>i. ti_tenant_kind i \<noteq> ''customer'') rows"

definition insert_owner :: "ms \<Rightarrow> string \<Rightarrow> string \<Rightarrow> sign_in_db \<Rightarrow> js_error + sign_in_db" where
  "insert_owner now userId tenantId db =
     (if list_ex (the_membership tenantId userId) (sn_memberships db) then Inl (AppError ''memberships_tenant_user_idx'')
      else Inr (db\<lparr> sn_memberships := sn_memberships db @
             [\<lparr> ms_tenant_id = tenantId, ms_user_id = userId, ms_role = ''owner'', ms_created_at = now \<rparr>] \<rparr>))"

definition createTenantOwnerMembership ::
    "ms \<Rightarrow> string \<Rightarrow> string \<Rightarrow> string \<Rightarrow> sign_in_db \<Rightarrow> js_error + (tenant_info \<times> sign_in_db)" where
  "createTenantOwnerMembership now userId tenantName tenantKind db =
     sum_bind (insert_tenant now tenantName tenantKind (sn_install db)) (\<lambda>(newTenantId, inst).
     sum_bind (insert_owner now userId newTenantId (db\<lparr> sn_install := inst \<rparr>)) (\<lambda>db'.
       Inr (\<lparr> ti_tenant_id = newTenantId, ti_tenant_name = tenantName, ti_tenant_kind = tenantKind, ti_role = ''owner'' \<rparr>, db')))"

definition claimTenantOwnerMembership ::
    "ms \<Rightarrow> string \<Rightarrow> tenant_row \<Rightarrow> sign_in_db \<Rightarrow> js_error + (tenant_info \<times> sign_in_db)" where
  "claimTenantOwnerMembership now userId tenant db =
     sum_bind (insert_owner now userId (te_id tenant) db) (\<lambda>db'.
       Inr (\<lparr> ti_tenant_id = te_id tenant, ti_tenant_name = te_name tenant, ti_tenant_kind = te_kind tenant, ti_role = ''owner'' \<rparr>, db'))"

definition with_starters :: "ms \<Rightarrow> string \<Rightarrow> sign_in_db \<Rightarrow> js_error + sign_in_db" where
  "with_starters now tenantId db =
     sum_bind (ensureStarterPolicies now tenantId (pv_policies (sn_install db))) (\<lambda>(created, pdb).
       Inr (db\<lparr> sn_install := (sn_install db)\<lparr> pv_policies := pdb \<rparr> \<rparr>))"

definition with_defaults :: "ms \<Rightarrow> string \<Rightarrow> string option \<Rightarrow> sign_in_db \<Rightarrow> js_error + sign_in_db" where
  "with_defaults now tenantId platformTenantId db =
     sum_bind (provisionCustomerTenantDefaults now tenantId platformTenantId (sn_install db)) (\<lambda>(provisioned, inst).
       Inr (db\<lparr> sn_install := inst \<rparr>))"

fun provision_claimed :: "ms \<Rightarrow> string option \<Rightarrow> tenant_info list \<Rightarrow> sign_in_db \<Rightarrow> js_error + sign_in_db" where
  "provision_claimed now platformTenantId [] db = Inr db"
| "provision_claimed now platformTenantId (i # rest) db =
     (if ti_tenant_kind i \<noteq> ''customer'' then provision_claimed now platformTenantId rest db
      else sum_bind (with_defaults now (ti_tenant_id i) platformTenantId db) (provision_claimed now platformTenantId rest))"

text \<open>The tenants that nobody is a member of become the user's.\<close>

definition claim_platform :: "ms \<Rightarrow> string \<Rightarrow> tenant_row option \<Rightarrow> sign_in_db \<Rightarrow> js_error + (tenant_info list \<times> sign_in_db)" where
  "claim_platform now userId platform db =
     (case platform of
        None \<Rightarrow> Inr ([], db)
      | Some t \<Rightarrow>
          sum_bind (claimTenantOwnerMembership now userId t db) (\<lambda>(i, db1).
          sum_bind (with_starters now (te_id t) db1) (\<lambda>db2. Inr ([i], db2))))"

definition claim_customer ::
    "ms \<Rightarrow> string \<Rightarrow> string \<Rightarrow> tenant_row option \<Rightarrow> tenant_row option \<Rightarrow> sign_in_db \<Rightarrow> js_error + (tenant_info list \<times> sign_in_db)" where
  "claim_customer now userId name platform customer db =
     (case customer of
        Some t \<Rightarrow> sum_bind (claimTenantOwnerMembership now userId t db) (\<lambda>(i, db1). Inr ([i], db1))
      | None \<Rightarrow>
          if platform \<noteq> None
          then sum_bind (createTenantOwnerMembership now userId name ''customer'' db) (\<lambda>(i, db1). Inr ([i], db1))
          else Inr ([], db))"

definition claim_initial_tenants ::
    "ms \<Rightarrow> string \<Rightarrow> string \<Rightarrow> tenant_row option \<Rightarrow> tenant_row option \<Rightarrow> sign_in_db \<Rightarrow> js_error + (tenant_info list \<times> sign_in_db)" where
  "claim_initial_tenants now userId name platform customer db =
     sum_bind (claim_platform now userId platform db) (\<lambda>(first, db1).
     sum_bind (claim_customer now userId name platform customer db1) (\<lambda>(second, db2).
     sum_bind (provision_claimed now (map_option te_id platform) (first @ second) db2) (\<lambda>db3.
       Inr (sortMembershipsForDefaultActiveTenant (first @ second), db3))))"

text \<open>There is nothing to claim: the installation gets its first two tenants, or the user one of their own.\<close>

definition create_first_tenants :: "ms \<Rightarrow> string \<Rightarrow> string \<Rightarrow> sign_in_db \<Rightarrow> js_error + (tenant_info list \<times> sign_in_db)" where
  "create_first_tenants now userId name db =
     sum_bind (createTenantOwnerMembership now userId ''Platform'' ''platform'' db) (\<lambda>(platform, db1).
     sum_bind (with_starters now (ti_tenant_id platform) db1) (\<lambda>db2.
     sum_bind (createTenantOwnerMembership now userId name ''customer'' db2) (\<lambda>(customer, db3).
     sum_bind (with_defaults now (ti_tenant_id customer) (Some (ti_tenant_id platform)) db3) (\<lambda>db4.
       Inr (sortMembershipsForDefaultActiveTenant [platform, customer], db4)))))"

definition create_own_tenant :: "ms \<Rightarrow> string \<Rightarrow> string \<Rightarrow> sign_in_db \<Rightarrow> js_error + (tenant_info list \<times> sign_in_db)" where
  "create_own_tenant now userId name db =
     sum_bind (createTenantOwnerMembership now userId name ''customer'' db) (\<lambda>(customer, db1).
     sum_bind (with_defaults now (ti_tenant_id customer) None db1) (\<lambda>db2. Inr ([customer], db2)))"

text \<open>The transaction; \<open>arrange\<close> is the order in which the query returns the memberships.\<close>

definition tenants_for_user ::
    "(tenant_info list \<Rightarrow> tenant_info list) \<Rightarrow> ms \<Rightarrow> string \<Rightarrow> string \<Rightarrow> sign_in_db \<Rightarrow> js_error + (tenant_info list \<times> sign_in_db)" where
  "tenants_for_user arrange now userId name db =
     (let existing = arrange (memberships_of userId db);
          claimable = claimableTenants db;
          platform = find (\<lambda>t. te_kind t = ''platform'') claimable;
          customer = find (\<lambda>t. te_kind t = ''customer'') claimable
      in if existing \<noteq> [] then Inr (existing, db)
         else if length claimable \<le> 2 \<and> (platform \<noteq> None \<or> customer \<noteq> None)
         then claim_initial_tenants now userId name platform customer db
         else if pv_tenants (sn_install db) = [] then create_first_tenants now userId name db
         else create_own_tenant now userId name db)"

section \<open>The claims\<close>

text \<open>What the spread of a value copies.\<close>

fun own_entries :: "jsval \<Rightarrow> jsobj" where
  "own_entries (JObj o') = o'"
| "own_entries (JArr vs) = zip (map show_nat [0..<length vs]) vs"
| "own_entries (JStr s) = zip (map show_nat [0..<length s]) (map (\<lambda>c. JStr [c]) s)"
| "own_entries _ = []"

definition preferredTenantId :: "jsobj \<Rightarrow> string option" where
  "preferredTenantId claims =
     (case obj_get claims ''app_metadata'' of JObj o' \<Rightarrow> present (as_string (obj_get o' ''preferred_tenant_id'')) | _ \<Rightarrow> None)"

definition active_membership :: "string option \<Rightarrow> tenant_info list \<Rightarrow> tenant_info" where
  "active_membership preferred infos =
     default (hd infos) (case preferred of None \<Rightarrow> None | Some p \<Rightarrow> find (\<lambda>i. ti_tenant_id i = p) infos)"

definition tenant_claim :: "tenant_info \<Rightarrow> jsval" where
  "tenant_claim i =
     JObj [(''tenant_id'', JStr (ti_tenant_id i)), (''tenant_name'', JStr (ti_tenant_name i)),
           (''tenant_kind'', JStr (ti_tenant_kind i)), (''role'', JStr (ti_role i))]"

definition app_metadata_claim :: "jsval \<Rightarrow> tenant_info \<Rightarrow> tenant_info list \<Rightarrow> jsval" where
  "app_metadata_claim app_metadata active infos =
     JObj (obj_spread (own_entries app_metadata)
       [(''tenant_id'', JStr (ti_tenant_id active)), (''tenant_kind'', JStr (ti_tenant_kind active)),
        (''role'', JStr (ti_role active)), (''tenants'', JArr (map tenant_claim infos))])"

definition session_claims :: "jsobj \<Rightarrow> jsval \<Rightarrow> tenant_info list \<Rightarrow> jsobj" where
  "session_claims claims aud infos =
     (let active = active_membership (preferredTenantId claims) infos
      in obj_spread claims
           ((if js_truthy aud then [(''aud'', aud)] else []) @
            [(''tenant_id'', JStr (ti_tenant_id active)),
             (''app_metadata'', app_metadata_claim (obj_get claims ''app_metadata'') active infos)]))"

record sign_in_env =
  se_arrange :: "tenant_info list \<Rightarrow> tenant_info list"
  se_parse_url :: "string \<Rightarrow> (string \<times> string) option"
  se_to_uuid :: "string \<Rightarrow> string option"

text \<open>
  An exception inside the transaction leaves the tables as they were; one of the query for the client
  comes after the commit. The user has a membership by then, so that there is a first one.
\<close>

definition buildTokenHookClaims :: "sign_in_env \<Rightarrow> ms \<Rightarrow> hook_payload \<Rightarrow> sign_in_db \<Rightarrow> (js_error + jsobj) \<times> sign_in_db" where
  "buildTokenHookClaims env now payload db =
     (let claims = default [] (hp_claims payload);
          name = getAutoCreatedCustomerTenantName payload
      in case se_to_uuid env (hp_user_id payload) of
           None \<Rightarrow> (Inl (AppError ''invalid input syntax for type uuid''), db)
         | Some userId \<Rightarrow>
             (case tenants_for_user (se_arrange env) now userId name db of
                Inl e \<Rightarrow> (Inl e, db)
              | Inr (infos, db') \<Rightarrow>
                  (sum_bind (mergeAudiences (se_parse_url env) (se_to_uuid env) (sn_oauth_clients db') claims) (\<lambda>aud.
                     Inr (session_claims claims aud (sortMembershipsForDefaultActiveTenant infos))), db')))"

section \<open>The route of the hook\<close>

record hook_headers =
  hh_webhookId :: "string option"
  hh_webhookTimestamp :: "string option"
  hh_webhookSignature :: "string option"

definition parseTokenHookHeaders :: "hook_headers \<Rightarrow> string \<Rightarrow> hook_message http_result" where
  "parseTokenHookHeaders h body =
     (case (hh_webhookId h, hh_webhookTimestamp h, hh_webhookSignature h) of
        (Some i, Some ts, Some sig) \<Rightarrow>
          if 1 \<le> length i \<and> length i \<le> 255 \<and> ts \<noteq> [] \<and> list_all is_digit ts \<and> 1 \<le> length sig \<and> length sig \<le> 4096
          then Inr \<lparr> hk_body = body, hk_webhookId = i, hk_webhookTimestamp = ts, hk_webhookSignature = sig \<rparr>
          else errorResult 401 ''UNAUTHORIZED'' ''Token hook headers are invalid'' None
      | _ \<Rightarrow> errorResult 401 ''UNAUTHORIZED'' ''Token hook headers are invalid'' None)"

definition tokenHookRoute ::
    "(string \<Rightarrow> string \<Rightarrow> string) \<Rightarrow> (string \<Rightarrow> string) \<Rightarrow> (string \<Rightarrow> hook_payload option) \<Rightarrow> sign_in_env \<Rightarrow> string \<Rightarrow> ms \<Rightarrow>
     hook_headers \<Rightarrow> string \<Rightarrow> sign_in_db \<Rightarrow> jsobj http_result \<times> sign_in_db" where
  "tokenHookRoute hmac from_base64 parse_payload env secret now h body db =
     (if secret = [] then (errorResult 500 ''SERVER_MISCONFIGURED'' ''Hook secret not configured'' None, db)
      else case parseTokenHookHeaders h body of
        Inl e \<Rightarrow> (Inl e, db)
      | Inr m \<Rightarrow>
          (case verifyTokenHookRequest hmac from_base64 secret now m (sn_recent db) of
             (Hook_refused status code message, recent) \<Rightarrow> (errorResult status code message None, db\<lparr> sn_recent := recent \<rparr>)
           | (Hook_ok, recent) \<Rightarrow>
               (case parse_payload body of
                  None \<Rightarrow> (errorResult 400 ''BAD_REQUEST'' ''Invalid JSON payload'' None, db\<lparr> sn_recent := recent \<rparr>)
                | Some payload \<Rightarrow>
                    (case buildTokenHookClaims env now payload (db\<lparr> sn_recent := recent \<rparr>) of
                       (r, db') \<Rightarrow> (service_call r, db')))))"

section \<open>Reading the claims\<close>

record auth_claims =
  cl_tenantId :: string
  cl_tenantKind :: string
  cl_role :: string
  cl_tenants :: "tenant_info list"

definition uuid_member :: "(string \<Rightarrow> bool) \<Rightarrow> jsval \<Rightarrow> string option" where
  "uuid_member is_uuid v = (case v of JStr s \<Rightarrow> if is_uuid s then Some s else None | _ \<Rightarrow> None)"

definition role_member :: "jsval \<Rightarrow> string option" where
  "role_member v = (case v of JStr s \<Rightarrow> if isTenantRole s then Some s else None | _ \<Rightarrow> None)"

definition TENANT_KINDS :: "string list" where
  "TENANT_KINDS = [''platform'', ''customer'']"

definition kind_member :: "jsval \<Rightarrow> string option" where
  "kind_member v =
     (case v of JUndef \<Rightarrow> Some ''customer'' | JStr s \<Rightarrow> if s \<in> set TENANT_KINDS then Some s else None | _ \<Rightarrow> None)"

definition name_member :: "jsval \<Rightarrow> string option" where
  "name_member v = (case v of JStr s \<Rightarrow> if s \<noteq> [] then Some s else None | _ \<Rightarrow> None)"

definition tenantInfoSchema :: "(string \<Rightarrow> bool) \<Rightarrow> jsval \<Rightarrow> tenant_info option" where
  "tenantInfoSchema is_uuid v =
     (case v of
        JObj o' \<Rightarrow>
          (case (uuid_member is_uuid (obj_get o' ''tenant_id''), name_member (obj_get o' ''tenant_name''),
                 kind_member (obj_get o' ''tenant_kind''), role_member (obj_get o' ''role'')) of
             (Some i, Some n, Some k, Some r) \<Rightarrow>
               Some \<lparr> ti_tenant_id = i, ti_tenant_name = n, ti_tenant_kind = k, ti_role = r \<rparr>
           | _ \<Rightarrow> None)
      | _ \<Rightarrow> None)"

definition tenants_member :: "(string \<Rightarrow> bool) \<Rightarrow> jsval \<Rightarrow> tenant_info list option" where
  "tenants_member is_uuid v =
     (case v of
        JUndef \<Rightarrow> Some []
      | JArr vs \<Rightarrow> (let parsed = map (tenantInfoSchema is_uuid) vs in if None \<in> set parsed then None else Some (map the parsed))
      | _ \<Rightarrow> None)"

definition appMetadataSchema :: "(string \<Rightarrow> bool) \<Rightarrow> jsobj \<Rightarrow> auth_claims option" where
  "appMetadataSchema is_uuid o' =
     (case (uuid_member is_uuid (obj_get o' ''tenant_id''), kind_member (obj_get o' ''tenant_kind''),
            role_member (obj_get o' ''role''), tenants_member is_uuid (obj_get o' ''tenants'')) of
        (Some i, Some k, Some r, Some ts) \<Rightarrow> Some \<lparr> cl_tenantId = i, cl_tenantKind = k, cl_role = r, cl_tenants = ts \<rparr>
      | _ \<Rightarrow> None)"

definition parseBaseClaims :: "(string \<Rightarrow> bool) \<Rightarrow> jsobj \<Rightarrow> js_error + auth_claims option" where
  "parseBaseClaims is_uuid payload =
     (case obj_get payload ''app_metadata'' of
        JObj o' \<Rightarrow>
          if as_string (obj_get o' ''tenant_id'') = None then Inr None
          else (case appMetadataSchema is_uuid o' of
                  None \<Rightarrow> Inl (AppError ''JWT app_metadata claims are invalid'')
                | Some claims \<Rightarrow> Inr (Some claims))
      | _ \<Rightarrow> Inr None)"

record mcp_claims =
  mc_base :: auth_claims
  mc_audiences :: "string list"
  mc_clientId :: "string option"
  mc_sessionId :: "string option"

text \<open>An optional claim: absent, or a string that is not empty, and anything else is an error.\<close>

definition optional_name :: "jsval \<Rightarrow> string option option" where
  "optional_name v = (if v = JUndef then Some None else map_option Some (name_member v))"

definition audience_list :: "jsval \<Rightarrow> string list option" where
  "audience_list v =
     (case v of
        JUndef \<Rightarrow> Some []
      | JStr s \<Rightarrow> Some (if s \<noteq> [] then [s] else [])
      | JArr vs \<Rightarrow> (let ss = map as_string vs in if None \<in> set ss then None else Some (map the ss))
      | _ \<Rightarrow> None)"

definition parseMcpAccessTokenClaimsFromPayload :: "(string \<Rightarrow> bool) \<Rightarrow> jsobj \<Rightarrow> js_error + mcp_claims option" where
  "parseMcpAccessTokenClaimsFromPayload is_uuid payload =
     (case (audience_list (obj_get payload ''aud''), optional_name (obj_get payload ''client_id''),
            optional_name (obj_get payload ''session_id'')) of
        (Some audiences, Some clientId, Some sessionId) \<Rightarrow>
          sum_bind (parseBaseClaims is_uuid payload) (\<lambda>base.
            Inr (map_option (\<lambda>claims. \<lparr> mc_base = claims, mc_audiences = audiences, mc_clientId = clientId,
                                        mc_sessionId = sessionId \<rparr>) base))
      | _ \<Rightarrow> Inl (AppError ''JWT payload claims are invalid''))"

section \<open>Verification of an access token\<close>

text \<open>An error thrown by the library, by the classes it is an instance of.\<close>

record thrown =
  tw_TypeError :: bool
  tw_jose_named :: bool
  tw_JWTExpired :: bool
  tw_JOSEError :: bool

datatype jwt_error_kind = Jwt_misconfigured | Jwt_invalid | Jwt_expired | Jwt_unavailable

definition normalizeJwtVerificationError :: "thrown \<Rightarrow> jwt_error_kind" where
  "normalizeJwtVerificationError err =
     (if tw_TypeError err \<or> tw_jose_named err then (if tw_JWTExpired err then Jwt_expired else Jwt_invalid)
      else if tw_JOSEError err then Jwt_invalid
      else Jwt_unavailable)"

record auth_config =
  ag_gotrueUrl :: string
  ag_authUrl :: string

definition validateVerifiedPayload :: "(string \<Rightarrow> bool) \<Rightarrow> jsobj \<Rightarrow> jwt_error_kind + (string \<times> jsobj)" where
  "validateVerifiedPayload is_uuid payload =
     (case uuid_member is_uuid (obj_get payload ''sub'') of None \<Rightarrow> Inl Jwt_invalid | Some sub \<Rightarrow> Inr (sub, payload))"

definition verifyAccessToken ::
    "(string \<Rightarrow> bool) \<Rightarrow> (string \<Rightarrow> string \<Rightarrow> thrown + jsobj) \<Rightarrow> auth_config \<Rightarrow> string \<Rightarrow> string \<Rightarrow> jwt_error_kind + (string \<times> jsobj)" where
  "verifyAccessToken is_uuid jwtVerify cfg token aud =
     (if ag_authUrl cfg = [] \<and> ag_gotrueUrl cfg = [] then Inl Jwt_misconfigured
      else case jwtVerify token aud of
             Inl err \<Rightarrow> Inl (normalizeJwtVerificationError err)
           | Inr payload \<Rightarrow> validateVerifiedPayload is_uuid payload)"

definition allowsQueryToken :: "string \<Rightarrow> bool" where
  "allowsQueryToken path =
     (path = ''/v1/events/stream'' \<or>
      (case js_split (CHR ''/'') path of
         [a, b, c, p, d, e] \<Rightarrow> a = [] \<and> b = ''v1'' \<and> c = ''projects'' \<and> p \<noteq> [] \<and> d = ''events'' \<and> e = ''stream''
       | _ \<Rightarrow> False))"

record auth_request =
  aq_path :: string
  aq_authorization :: "string option"
  aq_query_token :: "string option"

definition request_token :: "auth_request \<Rightarrow> string" where
  "request_token r =
     (case aq_authorization r of
        Some h \<Rightarrow> if js_startsWith h ''Bearer '' then js_trim (drop 7 h)
                  else if allowsQueryToken (aq_path r) then default [] (aq_query_token r) else []
      | None \<Rightarrow> if allowsQueryToken (aq_path r) then default [] (aq_query_token r) else [])"

text \<open>The session that the handlers read from the request: who asks, and the tenants of the user.\<close>

definition authMiddleware ::
    "(string \<Rightarrow> bool) \<Rightarrow> (string \<Rightarrow> string \<Rightarrow> thrown + jsobj) \<Rightarrow> auth_config \<Rightarrow> auth_request \<Rightarrow> (auth_context \<times> tenant_info list) http_result" where
  "authMiddleware is_uuid jwtVerify cfg r =
     (if present (aq_query_token r) \<noteq> None \<and> \<not> allowsQueryToken (aq_path r)
      then errorResult 400 ''QUERY_TOKEN_NOT_ALLOWED'' ''Query-string tokens are only supported for SSE endpoints'' None
      else if request_token r = []
      then errorResult 401 ''MISSING_TOKEN'' ''Authorization header with Bearer token is required'' None
      else if ag_gotrueUrl cfg = []
      then errorResult 500 ''SERVER_MISCONFIGURED'' ''Authentication is not configured on this server'' (Some ''GOTRUE_URL is required'')
      else case verifyAccessToken is_uuid jwtVerify cfg (request_token r) ''authenticated'' of
        Inl Jwt_misconfigured \<Rightarrow>
          errorResult 500 ''SERVER_MISCONFIGURED'' ''Authentication is not configured on this server'' (Some ''AUTH_URL or GOTRUE_URL is required'')
      | Inl Jwt_unavailable \<Rightarrow> errorResult 503 ''AUTH_UNAVAILABLE'' ''Authentication service is temporarily unavailable'' None
      | Inl _ \<Rightarrow> errorResult 401 ''INVALID_TOKEN'' ''Token is invalid or has expired'' None
      | Inr (sub, payload) \<Rightarrow>
          (case parseBaseClaims is_uuid payload of
             Inl _ \<Rightarrow> errorResult 401 ''INVALID_TOKEN'' ''Token is invalid or has expired'' None
           | Inr None \<Rightarrow> errorResult 401 ''NO_TENANT'' ''User is not associated with a tenant'' None
           | Inr (Some claims) \<Rightarrow>
               Inr (\<lparr> au_tenantId = cl_tenantId claims, au_tenantKind = cl_tenantKind claims, au_userId = sub,
                      au_role = cl_role claims \<rparr>, cl_tenants claims)))"

section \<open>The preferred tenant\<close>

definition preferredTenantRoute ::
    "(string \<Rightarrow> bool) \<Rightarrow> (string \<Rightarrow> string \<Rightarrow> 'g \<Rightarrow> (auth_error + unit) \<times> 'g) \<Rightarrow> auth_context \<times> tenant_info list \<Rightarrow> string \<Rightarrow> 'g \<Rightarrow> unit http_result \<times> 'g" where
  "preferredTenantRoute is_uuid set_preferred session tenant_id g =
     (case session of (auth, tenants) \<Rightarrow>
        if \<not> is_uuid tenant_id then (invalid_body, g)
        else if \<not> list_ex (\<lambda>i. ti_tenant_id i = tenant_id) tenants
        then (errorResult 403 ''FORBIDDEN'' ''You are not a member of that tenant'' None, g)
        else (case set_preferred (au_userId auth) tenant_id g of
                (Inl Misconfigured, g') \<Rightarrow> (errorResult 500 ''SERVER_MISCONFIGURED'' ''Service is not configured'' None, g')
              | (Inl _, g') \<Rightarrow> (errorResult 500 ''UPDATE_FAILED'' ''Failed to update tenant preference'' None, g')
              | (Inr _, g') \<Rightarrow> (Inr (), g')))"

section \<open>A webhook is delivered once\<close>

text \<open>The requests of a stretch of time, each with the time of its arrival.\<close>

definition hook_run ::
    "(string \<Rightarrow> string \<Rightarrow> string) \<Rightarrow> (string \<Rightarrow> string) \<Rightarrow> string \<Rightarrow> (ms \<times> hook_message) list \<Rightarrow> webhook_ids \<Rightarrow> webhook_ids" where
  "hook_run hmac from_base64 secret requests recent =
     fold (\<lambda>(t, m) r. snd (verifyTokenHookRequest hmac from_base64 secret t m r)) requests recent"

lemma verify_ok_iff:
  "fst (verifyTokenHookRequest hmac b64 secret now m recent) = Hook_ok \<longleftrightarrow>
     signatureValid hmac b64 secret m \<and>
     (\<exists>ts. js_parseInt (hk_webhookTimestamp m) = Fin ts \<and> \<bar>of_int (now div 1000) - ts\<bar> \<le> 300) \<and>
     (hk_webhookId m = [] \<or> hk_webhookId m \<notin> fst ` set (pruneRecentWebhookIds now recent))"
  by (auto simp: verifyTokenHookRequest_def WEBHOOK_MAX_SKEW_SECONDS_def Let_def map_of_eq_None_iff split: jsnum.split)

lemma verify_keeps:
  "(i, T) \<in> set recent \<Longrightarrow> now - T \<le> WEBHOOK_ID_TTL_MS \<Longrightarrow> (i, T) \<in> set (snd (verifyTokenHookRequest hmac b64 secret now m recent))"
  by (auto simp: verifyTokenHookRequest_def pruneRecentWebhookIds_def Let_def split: jsnum.split)

lemma verify_remembers:
  "fst (verifyTokenHookRequest hmac b64 secret now m recent) = Hook_ok \<Longrightarrow> hk_webhookId m \<noteq> [] \<Longrightarrow>
     (hk_webhookId m, now) \<in> set (snd (verifyTokenHookRequest hmac b64 secret now m recent))"
  by (auto simp: verifyTokenHookRequest_def Let_def split: jsnum.splits if_splits)

lemma hook_run_keeps:
  "(i, T) \<in> set recent \<Longrightarrow> \<forall>(t, m) \<in> set requests. t \<le> T' \<Longrightarrow> T' - T \<le> WEBHOOK_ID_TTL_MS \<Longrightarrow>
     (i, T) \<in> set (hook_run hmac b64 secret requests recent)"
proof (induction requests arbitrary: recent)
  case Nil
  then show ?case by (simp add: hook_run_def)
next
  case (Cons r requests)
  obtain t m where r: "r = (t, m)" by (cases r)
  with Cons.prems have "(i, T) \<in> set (snd (verifyTokenHookRequest hmac b64 secret t m recent))"
    by (intro verify_keeps) auto
  from Cons.IH [OF this] Cons.prems r show ?case by (simp add: hook_run_def)
qed


definition sample_hook :: hook_message where
  "sample_hook = \<lparr> hk_body = ''{}'', hk_webhookId = ''msg_1'', hk_webhookTimestamp = ''1001'', hk_webhookSignature = ''v1,sig'' \<rparr>"

definition sample_hmac :: "string \<Rightarrow> string \<Rightarrow> string" where
  "sample_hmac secret payload = ''sig''"

lemma sample_hook_ts: "js_parseInt ''1001'' = Fin (of_int 1001)"
  by (simp add: js_parseInt_def is_js_space_def is_digit_def digits_val_def js_startsWith_def code_unit_def)

lemma sample_hook_signed: "signatureValid sample_hmac (\<lambda>s. s) ''secret'' sample_hook"
  by code_simp

lemma sample_hook_ok: "fst (verifyTokenHookRequest sample_hmac (\<lambda>s. s) ''secret'' 1002500 sample_hook []) = Hook_ok"
  using sample_hook_signed sample_hook_ts by (simp add: verify_ok_iff sample_hook_def pruneRecentWebhookIds_def)


text \<open>
  A message from the second in which it was accepted, or from a later one that the clock of the sender
  is ahead by, outlives the memory of its identifier: it is accepted again.
\<close>

theorem hook_replay_accepted:
  assumes "fst (verifyTokenHookRequest hmac from_base64 secret T m recent) = Hook_ok"
    and "\<forall>e \<in> set recent. snd e \<le> T" and "js_parseInt (hk_webhookTimestamp m) = Fin (of_int ts)"
    and "300000 < T' - T" and "T' div 1000 \<le> ts + 300" and "T div 1000 \<le> ts"
  shows "fst (verifyTokenHookRequest hmac from_base64 secret T' m
           (snd (verifyTokenHookRequest hmac from_base64 secret T m recent))) = Hook_ok"
proof -
  let ?after = "snd (verifyTokenHookRequest hmac from_base64 secret T m recent)"
  have "\<forall>e \<in> set ?after. snd e \<le> T"
    using assms(2) by (auto simp: verifyTokenHookRequest_def pruneRecentWebhookIds_def Let_def split: jsnum.split)
  then have "pruneRecentWebhookIds T' ?after = []"
    using assms(4) by (force simp: pruneRecentWebhookIds_def WEBHOOK_ID_TTL_MS_def WEBHOOK_MAX_SKEW_SECONDS_def filter_empty_conv)
  moreover have "\<bar>of_int (T' div 1000) - of_int ts :: rat\<bar> \<le> 300"
  proof -
    have "T' div 1000 \<le> ts + 300" "ts - 300 \<le> T' div 1000"
      using assms(4-6) assms(1,3) by (auto simp: verify_ok_iff intro: order_trans)
    then show ?thesis by linarith
  qed
  ultimately show ?thesis using assms(1,3) by (auto simp: verify_ok_iff)
qed

section \<open>The tenants a sign-in gives\<close>

definition tenant_user :: "membership_row \<Rightarrow> string \<times> string" where
  "tenant_user m = (ms_tenant_id m, ms_user_id m)"

text \<open>
  What the tables rely on: identifiers are drawn once and are well-formed, names and kinds are those the
  claims allow, and a membership is of an existing tenant, in a known role, at most one of a user in a tenant.
\<close>

definition tenant_ok :: "tenant_row \<Rightarrow> bool" where
  "tenant_ok t = (te_name t \<noteq> [] \<and> te_kind t \<in> set TENANT_KINDS)"

definition sign_in_ok :: "(string \<Rightarrow> bool) \<Rightarrow> sign_in_db \<Rightarrow> bool" where
  "sign_in_ok is_uuid db =
     (source_ok (pv_uuids (sn_install db)) \<and> (\<forall>n. is_uuid (us_supply (pv_uuids (sn_install db)) n)) \<and>
      ids_ok te_id (pv_uuids (sn_install db)) (pv_tenants (sn_install db)) \<and> list_all tenant_ok (pv_tenants (sn_install db)) \<and>
      (\<forall>m \<in> set (sn_memberships db). isTenantRole (ms_role m) \<and> ms_tenant_id m \<in> te_id ` set (pv_tenants (sn_install db))) \<and>
      distinct (map tenant_user (sn_memberships db)) \<and> tables_ok (pv_policies (sn_install db)))"

definition owner_info :: "string \<Rightarrow> string \<Rightarrow> string \<Rightarrow> tenant_info" where
  "owner_info tenantId name kind = \<lparr> ti_tenant_id = tenantId, ti_tenant_name = name, ti_tenant_kind = kind, ti_role = ''owner'' \<rparr>"

text \<open>The user has become an owner of tenants without members; \<open>infos\<close> are the memberships gained.\<close>

definition joined :: "string \<Rightarrow> sign_in_db \<Rightarrow> sign_in_db \<Rightarrow> tenant_info list \<Rightarrow> bool" where
  "joined userId db db' infos =
     (memberships_of userId db' = memberships_of userId db @ infos \<and>
      (\<exists>new. sn_memberships db' = sn_memberships db @ new \<and> map ms_tenant_id new = map ti_tenant_id infos \<and>
         (\<forall>m \<in> set new. ms_user_id m = userId \<and> ms_role m = ''owner'' \<and>
            (\<forall>other \<in> set (sn_memberships db). ms_tenant_id other \<noteq> ms_tenant_id m))) \<and>
      (\<exists>tenants. pv_tenants (sn_install db') = pv_tenants (sn_install db) @ tenants) \<and>
      sn_recent db' = sn_recent db \<and> sn_oauth_clients db' = sn_oauth_clients db)"

lemma joined_trans:
  assumes "joined userId db db1 xs" and "joined userId db1 db2 ys"
  shows "joined userId db db2 (xs @ ys)"
proof -
  obtain new1 new2 t1 t2 where
    "sn_memberships db1 = sn_memberships db @ new1" "map ms_tenant_id new1 = map ti_tenant_id xs"
    "\<forall>m \<in> set new1. ms_user_id m = userId \<and> ms_role m = ''owner'' \<and> (\<forall>other \<in> set (sn_memberships db). ms_tenant_id other \<noteq> ms_tenant_id m)"
    "sn_memberships db2 = sn_memberships db1 @ new2" "map ms_tenant_id new2 = map ti_tenant_id ys"
    "\<forall>m \<in> set new2. ms_user_id m = userId \<and> ms_role m = ''owner'' \<and> (\<forall>other \<in> set (sn_memberships db1). ms_tenant_id other \<noteq> ms_tenant_id m)"
    "pv_tenants (sn_install db1) = pv_tenants (sn_install db) @ t1" "pv_tenants (sn_install db2) = pv_tenants (sn_install db1) @ t2"
    using assms unfolding joined_def by blast
  then have "sn_memberships db2 = sn_memberships db @ (new1 @ new2) \<and> map ms_tenant_id (new1 @ new2) = map ti_tenant_id (xs @ ys) \<and>
      (\<forall>m \<in> set (new1 @ new2). ms_user_id m = userId \<and> ms_role m = ''owner'' \<and>
         (\<forall>other \<in> set (sn_memberships db). ms_tenant_id other \<noteq> ms_tenant_id m))"
    and "pv_tenants (sn_install db2) = pv_tenants (sn_install db) @ (t1 @ t2)"
    by auto
  with assms show ?thesis unfolding joined_def by (metis append.assoc)
qed

text \<open>A change of policies and entitlements concerns nobody's membership.\<close>

lemma joined_policies:
  assumes "pv_tenants inst = pv_tenants (sn_install db)" and "pv_uuids inst = pv_uuids (sn_install db)"
    and "tables_ok (pv_policies inst)" and "sign_in_ok is_uuid db"
  shows "joined userId db (db\<lparr> sn_install := inst \<rparr>) [] \<and> sign_in_ok is_uuid (db\<lparr> sn_install := inst \<rparr>)"
  using assms by (simp add: joined_def memberships_of_def sign_in_ok_def)

lemma with_starters_joined:
  assumes "sign_in_ok is_uuid db"
  shows "\<exists>db'. with_starters now tenantId db = Inr db' \<and> joined userId db db' [] \<and> sign_in_ok is_uuid db'"
proof -
  from assms have "tables_ok (pv_policies (sn_install db))" by (simp add: sign_in_ok_def)
  from starters_succeed [OF this] obtain n pdb where
    "ensureStarterPolicies now tenantId (pv_policies (sn_install db)) = Inr (n, pdb)" "tables_ok pdb" by blast
  then show ?thesis
    using joined_policies [of "(sn_install db)\<lparr> pv_policies := pdb \<rparr>" db is_uuid userId, OF _ _ _ assms]
    by (simp add: with_starters_def)
qed

lemma provision_succeeds:
  assumes "tables_ok (pv_policies db)"
  shows "\<exists>r db'. provisionCustomerTenantDefaults now tenantId platformTenantId db = Inr (r, db') \<and>
    tables_ok (pv_policies db') \<and> pv_tenants db' = pv_tenants db \<and> pv_uuids db' = pv_uuids db"
proof -
  obtain n pdb where copied: "copied_templates now tenantId platformTenantId db = Inr (n, pdb)" "tables_ok pdb"
  proof (cases "chosen_platform platformTenantId db")
    case None
    with assms that show thesis by (simp add: copied_templates_def)
  next
    case (Some p)
    show thesis
    proof (cases "p = tenantId")
      case True
      with Some assms that show thesis by (simp add: copied_templates_def copyPlatformPolicyTemplatesToTenant_def)
    next
      case False
      from copy_succeeds [OF assms this, of now] Some that show thesis by (auto simp: copied_templates_def)
    qed
  qed
  from starters_succeed [OF copied(2)] obtain k pdb' where
    "ensureStarterPolicies now tenantId pdb = Inr (k, pdb')" "tables_ok pdb'" by blast
  with copied show ?thesis by (cases "n > 0") (simp_all add: provisionCustomerTenantDefaults_def)
qed

lemma with_defaults_joined:
  assumes "sign_in_ok is_uuid db"
  shows "\<exists>db'. with_defaults now tenantId platformTenantId db = Inr db' \<and> joined userId db db' [] \<and> sign_in_ok is_uuid db'"
proof -
  from assms have "tables_ok (pv_policies (sn_install db))" by (simp add: sign_in_ok_def)
  from provision_succeeds [OF this] obtain r inst where
    "provisionCustomerTenantDefaults now tenantId platformTenantId (sn_install db) = Inr (r, inst)" "tables_ok (pv_policies inst)"
    "pv_tenants inst = pv_tenants (sn_install db)" "pv_uuids inst = pv_uuids (sn_install db)" by blast
  then show ?thesis using joined_policies [of inst db is_uuid userId, OF _ _ _ assms] by (simp add: with_defaults_def)
qed

lemma provision_claimed_joined:
  "sign_in_ok is_uuid db \<Longrightarrow> \<exists>db'. provision_claimed now platformTenantId infos db = Inr db' \<and> joined userId db db' [] \<and> sign_in_ok is_uuid db'"
proof (induction infos arbitrary: db)
  case Nil
  then show ?case using joined_policies [of "sn_install db" db is_uuid userId] by (simp add: sign_in_ok_def)
next
  case (Cons i infos)
  from with_defaults_joined [OF Cons.prems, of now "ti_tenant_id i" platformTenantId userId] obtain db1 where
    db1: "with_defaults now (ti_tenant_id i) platformTenantId db = Inr db1" "joined userId db db1 []" "sign_in_ok is_uuid db1" by blast
  from Cons.IH [OF db1(3)] obtain db2 where
    "provision_claimed now platformTenantId infos db1 = Inr db2" "joined userId db1 db2 []" "sign_in_ok is_uuid db2" by blast
  with db1 joined_trans [OF db1(2)] Cons.IH [OF Cons.prems] show ?case by fastforce
qed

lemma filter_distinct_key:
  "distinct (map f xs) \<Longrightarrow> x \<in> set xs \<Longrightarrow> filter (\<lambda>y. f y = f x) xs = [x]"
proof (induction xs)
  case (Cons y xs)
  then show ?case by (cases "x = y") (auto simp: filter_empty_conv image_iff eq_commute [of "f y"])
qed simp

lemma memberships_of_snoc:
  assumes "sn_memberships db' = sn_memberships db @ [m]" and "pv_tenants (sn_install db') = pv_tenants (sn_install db)"
    and "ms_user_id m = userId" and "distinct (map te_id (pv_tenants (sn_install db)))"
    and "t \<in> set (pv_tenants (sn_install db))" and "te_id t = ms_tenant_id m"
  shows "memberships_of userId db' = memberships_of userId db @ [membership_info m t]"
proof -
  have "filter (\<lambda>s. te_id s = ms_tenant_id m) (pv_tenants (sn_install db)) = [t]"
    using filter_distinct_key [OF assms(4,5)] assms(6) by simp
  with assms(1-3) show ?thesis by (simp add: memberships_of_def)
qed

text \<open>The user becomes the owner of a tenant that nobody is a member of.\<close>

lemma insert_owner_joined:
  assumes "sign_in_ok is_uuid db" and "t \<in> set (pv_tenants (sn_install db))" and "memberless db t"
  shows "\<exists>db'. insert_owner now userId (te_id t) db = Inr db' \<and>
    joined userId db db' [owner_info (te_id t) (te_name t) (te_kind t)] \<and> sign_in_ok is_uuid db'"
proof -
  let ?m = "\<lparr> ms_tenant_id = te_id t, ms_user_id = userId, ms_role = ''owner'', ms_created_at = now \<rparr>"
  let ?db = "db\<lparr> sn_memberships := sn_memberships db @ [?m] \<rparr>"
  have others: "\<forall>other \<in> set (sn_memberships db). ms_tenant_id other \<noteq> te_id t"
    using assms(3) by (auto simp: memberless_def list_ex_iff)
  then have "insert_owner now userId (te_id t) db = Inr ?db" by (auto simp: insert_owner_def list_ex_iff the_membership_def)
  moreover have "memberships_of userId ?db = memberships_of userId db @ [membership_info ?m t]"
    using assms(1,2) by (intro memberships_of_snoc) (simp_all add: sign_in_ok_def ids_ok_def)
  then have "joined userId db ?db [owner_info (te_id t) (te_name t) (te_kind t)]"
    using others by (simp add: joined_def membership_info_def owner_info_def)
  moreover have "isTenantRole ''owner''" by code_simp
  then have "sign_in_ok is_uuid ?db"
    using assms(1,2) others by (auto simp: sign_in_ok_def tenant_user_def)
  ultimately show ?thesis by blast
qed

lemma claim_joined:
  assumes "sign_in_ok is_uuid db" and "t \<in> set (pv_tenants (sn_install db))" and "memberless db t"
  shows "\<exists>db'. claimTenantOwnerMembership now userId t db = Inr (owner_info (te_id t) (te_name t) (te_kind t), db') \<and>
    joined userId db db' [owner_info (te_id t) (te_name t) (te_kind t)] \<and> sign_in_ok is_uuid db'"
proof -
  from insert_owner_joined [OF assms, of now userId] obtain db' where
    "insert_owner now userId (te_id t) db = Inr db'" "joined userId db db' [owner_info (te_id t) (te_name t) (te_kind t)]"
    "sign_in_ok is_uuid db'" by blast
  then show ?thesis by (simp add: claimTenantOwnerMembership_def owner_info_def)
qed

lemma insert_tenant_joined:
  assumes "sign_in_ok is_uuid db" and "name \<noteq> []" and "kind \<in> set TENANT_KINDS"
    and "kind = ''platform'' \<Longrightarrow> pv_tenants (sn_install db) = []"
  shows "\<exists>t inst. insert_tenant now name kind (sn_install db) = Inr (te_id t, inst) \<and> te_name t = name \<and> te_kind t = kind \<and>
    joined userId db (db\<lparr> sn_install := inst \<rparr>) [] \<and> sign_in_ok is_uuid (db\<lparr> sn_install := inst \<rparr>) \<and>
    t \<in> set (pv_tenants inst) \<and> memberless (db\<lparr> sn_install := inst \<rparr>) t"
proof -
  obtain i u where d: "draw (pv_uuids (sn_install db)) = (i, u)" by (cases "draw (pv_uuids (sn_install db))")
  let ?t = "\<lparr> te_id = i, te_name = name, te_kind = kind, te_created_at = now, te_updated_at = now \<rparr>"
  let ?inst = "(sn_install db)\<lparr> pv_tenants := pv_tenants (sn_install db) @ [?t], pv_uuids := u \<rparr>"
  have ok: "source_ok (pv_uuids (sn_install db))" "ids_ok te_id (pv_uuids (sn_install db)) (pv_tenants (sn_install db))"
    using assms(1) by (simp_all add: sign_in_ok_def)
  have fresh: "i \<notin> te_id ` set (pv_tenants (sn_install db))" using draw_fresh [OF ok(1) d] ok(2) by (auto simp: ids_ok_def)
  have run: "insert_tenant now name kind (sn_install db) = Inr (i, ?inst)"
    using assms(4) by (auto simp: insert_tenant_def d)
  have others: "\<forall>m \<in> set (sn_memberships db). ms_tenant_id m \<noteq> i" using fresh assms(1) by (auto simp: sign_in_ok_def)
  then have "memberships_of userId (db\<lparr> sn_install := ?inst \<rparr>) = memberships_of userId db"
    unfolding memberships_of_def by (intro arg_cong [where f = concat] map_cong) auto
  then have "joined userId db (db\<lparr> sn_install := ?inst \<rparr>) []" by (simp add: joined_def)
  moreover have "us_supply u = us_supply (pv_uuids (sn_install db))" using d by (auto simp: draw_def)
  then have "sign_in_ok is_uuid (db\<lparr> sn_install := ?inst \<rparr>)"
    using assms(1-3) draw_source [OF d ok(1)] ids_ok_append [OF ok(1) d ok(2), of ?t] by (auto simp: sign_in_ok_def tenant_ok_def)
  moreover have "memberless (db\<lparr> sn_install := ?inst \<rparr>) ?t" using others by (simp add: memberless_def list_ex_iff)
  ultimately show ?thesis using run by (intro exI [of _ ?t] exI [of _ ?inst]) simp
qed

lemma create_joined:
  assumes "sign_in_ok is_uuid db" and "name \<noteq> []" and "kind \<in> set TENANT_KINDS"
    and "kind = ''platform'' \<Longrightarrow> pv_tenants (sn_install db) = []"
  shows "\<exists>i db'. createTenantOwnerMembership now userId name kind db = Inr (i, db') \<and> joined userId db db' [i] \<and> sign_in_ok is_uuid db' \<and>
    ti_tenant_kind i = kind"
proof -
  from insert_tenant_joined [OF assms, of now userId] obtain t inst where
    t: "insert_tenant now name kind (sn_install db) = Inr (te_id t, inst)" "te_name t = name" "te_kind t = kind"
    "joined userId db (db\<lparr> sn_install := inst \<rparr>) []" "sign_in_ok is_uuid (db\<lparr> sn_install := inst \<rparr>)" "t \<in> set (pv_tenants inst)"
    "memberless (db\<lparr> sn_install := inst \<rparr>) t" by blast
  from insert_owner_joined [OF t(5) _ t(7), of now userId] t(6) obtain db' where
    db': "insert_owner now userId (te_id t) (db\<lparr> sn_install := inst \<rparr>) = Inr db'" "sign_in_ok is_uuid db'"
    "joined userId (db\<lparr> sn_install := inst \<rparr>) db' [owner_info (te_id t) (te_name t) (te_kind t)]" by auto
  with t joined_trans [OF t(4) db'(3)] show ?thesis by (simp add: createTenantOwnerMembership_def owner_info_def)
qed

lemma claimable:
  assumes "find (\<lambda>t. te_kind t = kind) (claimableTenants db) = Some t"
  shows "t \<in> set (pv_tenants (sn_install db))" and "memberless db t" and "te_kind t = kind"
proof -
  from assms have "t \<in> set (claimableTenants db)" "te_kind t = kind" by (auto dest: find_SomeD)
  moreover have "set (claimableTenants db) \<subseteq> set (filter (memberless db) (pv_tenants (sn_install db)))"
    unfolding claimableTenants_def using set_take_subset [of 3 "sort_key te_created_at (filter (memberless db) (pv_tenants (sn_install db)))"] by simp
  ultimately show "t \<in> set (pv_tenants (sn_install db))" "memberless db t" "te_kind t = kind" by auto
qed

lemma claim_platform_joined:
  assumes "sign_in_ok is_uuid db" and "platform = find (\<lambda>t. te_kind t = ''platform'') (claimableTenants db)"
  shows "\<exists>infos db'. claim_platform now userId platform db = Inr (infos, db') \<and> joined userId db db' infos \<and> sign_in_ok is_uuid db' \<and>
    map ti_tenant_id infos = map te_id (case platform of None \<Rightarrow> [] | Some t \<Rightarrow> [t])"
proof (cases platform)
  case None
  then show ?thesis using joined_policies [of "sn_install db" db is_uuid userId] assms(1) by (simp add: claim_platform_def sign_in_ok_def)
next
  case (Some t)
  note t = claimable [OF assms(2) [symmetric, unfolded Some]]
  from claim_joined [OF assms(1) t(1,2), of now userId] obtain db1 where
    db1: "claimTenantOwnerMembership now userId t db = Inr (owner_info (te_id t) (te_name t) (te_kind t), db1)"
    "joined userId db db1 [owner_info (te_id t) (te_name t) (te_kind t)]" "sign_in_ok is_uuid db1" by blast
  from with_starters_joined [OF db1(3), of now "te_id t" userId] obtain db2 where
    db2: "with_starters now (te_id t) db1 = Inr db2" "joined userId db1 db2 []" "sign_in_ok is_uuid db2" by blast
  with db1(1) joined_trans [OF db1(2) db2(2)] Some show ?thesis by (simp add: claim_platform_def owner_info_def)
qed

text \<open>A tenant of another identifier is memberless still.\<close>

lemma still_memberless:
  "joined userId db db' infos \<Longrightarrow> memberless db t \<Longrightarrow> te_id t \<notin> set (map ti_tenant_id infos) \<Longrightarrow> memberless db' t"
proof -
  assume j: "joined userId db db' infos" and t: "memberless db t" "te_id t \<notin> set (map ti_tenant_id infos)"
  from j obtain new where new: "sn_memberships db' = sn_memberships db @ new" "map ms_tenant_id new = map ti_tenant_id infos"
    unfolding joined_def by blast
  from t(2) have "te_id t \<notin> set (map ms_tenant_id new)" unfolding new(2) .
  with t(1) new(1) show ?thesis by (auto simp: memberless_def list_ex_iff image_iff eq_commute [of "te_id t"])
qed

lemma claim_customer_joined:
  assumes "sign_in_ok is_uuid db1" and "joined userId db db1 infos" and "name \<noteq> []" and "platform \<noteq> None \<or> customer \<noteq> None"
    and "\<And>t. customer = Some t \<Longrightarrow> t \<in> set (pv_tenants (sn_install db)) \<and> memberless db t \<and> te_id t \<notin> set (map ti_tenant_id infos)"
  shows "\<exists>more db'. claim_customer now userId name platform customer db1 = Inr (more, db') \<and> more \<noteq> [] \<and> joined userId db1 db' more \<and> sign_in_ok is_uuid db'"
proof (cases customer)
  case None
  from create_joined [OF assms(1,3), of "''customer''" now userId] obtain i db' where
    "createTenantOwnerMembership now userId name ''customer'' db1 = Inr (i, db')" "joined userId db1 db' [i]" "sign_in_ok is_uuid db'"
    by (auto simp: TENANT_KINDS_def)
  with None assms(4) show ?thesis by (simp add: claim_customer_def)
next
  case (Some t)
  from assms(2) assms(5) [OF Some] have "t \<in> set (pv_tenants (sn_install db1))" by (auto simp: joined_def)
  moreover have "memberless db1 t" using still_memberless [OF assms(2)] assms(5) [OF Some] by blast
  ultimately obtain db' where
    "claimTenantOwnerMembership now userId t db1 = Inr (owner_info (te_id t) (te_name t) (te_kind t), db')"
    "joined userId db1 db' [owner_info (te_id t) (te_name t) (te_kind t)]" "sign_in_ok is_uuid db'"
    using claim_joined [OF assms(1), of t now userId] by blast
  with Some show ?thesis by (simp add: claim_customer_def)
qed

lemma joined_refl: "joined userId db db []"
  by (simp add: joined_def)

lemma claim_initial_joined:
  assumes ok: "sign_in_ok is_uuid db" and name: "name \<noteq> []"
    and platform: "platform = find (\<lambda>t. te_kind t = ''platform'') (claimableTenants db)"
    and customer: "customer = find (\<lambda>t. te_kind t = ''customer'') (claimableTenants db)"
    and "platform \<noteq> None \<or> customer \<noteq> None"
  shows "\<exists>infos db'. claim_initial_tenants now userId name platform customer db = Inr (sortMembershipsForDefaultActiveTenant infos, db') \<and>
    infos \<noteq> [] \<and> joined userId db db' infos \<and> sign_in_ok is_uuid db'"
proof -
  from claim_platform_joined [OF ok platform, of now userId] obtain first db1 where
    db1: "claim_platform now userId platform db = Inr (first, db1)" "joined userId db db1 first" "sign_in_ok is_uuid db1"
    "map ti_tenant_id first = map te_id (case platform of None \<Rightarrow> [] | Some t \<Rightarrow> [t])" by blast
  have apart: "t \<in> set (pv_tenants (sn_install db)) \<and> memberless db t \<and> te_id t \<notin> set (map ti_tenant_id first)" if "customer = Some t" for t
  proof -
    note t = claimable [OF customer [symmetric, unfolded that]]
    have "te_id p \<noteq> te_id t" if "platform = Some p" for p
    proof
      assume "te_id p = te_id t"
      note p = claimable [OF platform [symmetric, unfolded that]]
      have "p = t" using ids_ok_inj [OF _ p(1) t(1) \<open>te_id p = te_id t\<close>] ok by (auto simp: sign_in_ok_def)
      with p(3) t(3) show False by simp
    qed
    then have "te_id t \<notin> set (map ti_tenant_id first)" unfolding db1(4) by (cases platform) auto
    with t show ?thesis by blast
  qed
  from claim_customer_joined [OF db1(3,2) name assms(5) apart, of now] obtain second db2 where
    db2: "claim_customer now userId name platform customer db1 = Inr (second, db2)" "second \<noteq> []" "joined userId db1 db2 second"
    "sign_in_ok is_uuid db2" by blast
  from provision_claimed_joined [OF db2(4), of now "map_option te_id platform" "first @ second" userId] obtain db3 where
    db3: "provision_claimed now (map_option te_id platform) (first @ second) db2 = Inr db3" "joined userId db2 db3 []" "sign_in_ok is_uuid db3"
    by blast
  have "joined userId db db3 (first @ second)" using joined_trans [OF joined_trans [OF db1(2) db2(3)] db3(2)] by simp
  with db1(1) db2(1,2) db3(1,3) show ?thesis
    by (intro exI [of _ "first @ second"] exI [of _ db3]) (simp add: claim_initial_tenants_def)
qed

lemma create_first_joined:
  assumes ok: "sign_in_ok is_uuid db" and name: "name \<noteq> []" and none: "pv_tenants (sn_install db) = []"
  shows "\<exists>infos db'. create_first_tenants now userId name db = Inr (sortMembershipsForDefaultActiveTenant infos, db') \<and>
    infos \<noteq> [] \<and> joined userId db db' infos \<and> sign_in_ok is_uuid db'"
proof -
  from create_joined [OF ok, of "''Platform''" "''platform''" now userId] none obtain p db1 where
    db1: "createTenantOwnerMembership now userId ''Platform'' ''platform'' db = Inr (p, db1)" "joined userId db db1 [p]" "sign_in_ok is_uuid db1"
    by (auto simp: TENANT_KINDS_def)
  from with_starters_joined [OF db1(3), of now "ti_tenant_id p" userId] obtain db2 where
    db2: "with_starters now (ti_tenant_id p) db1 = Inr db2" "joined userId db1 db2 []" "sign_in_ok is_uuid db2" by blast
  from create_joined [OF db2(3) name, of "''customer''" now userId] obtain c db3 where
    db3: "createTenantOwnerMembership now userId name ''customer'' db2 = Inr (c, db3)" "joined userId db2 db3 [c]" "sign_in_ok is_uuid db3"
    by (auto simp: TENANT_KINDS_def)
  from with_defaults_joined [OF db3(3), of now "ti_tenant_id c" "Some (ti_tenant_id p)" userId] obtain db4 where
    db4: "with_defaults now (ti_tenant_id c) (Some (ti_tenant_id p)) db3 = Inr db4" "joined userId db3 db4 []" "sign_in_ok is_uuid db4" by blast
  have "joined userId db db4 [p, c]"
    using joined_trans [OF joined_trans [OF joined_trans [OF db1(2) db2(2)] db3(2)] db4(2)] by simp
  with db1(1) db2(1) db3(1) db4(1,3) show ?thesis
    by (intro exI [of _ "[p, c]"] exI [of _ db4]) (simp add: create_first_tenants_def)
qed

lemma create_own_joined:
  assumes ok: "sign_in_ok is_uuid db" and name: "name \<noteq> []"
  shows "\<exists>i db'. create_own_tenant now userId name db = Inr ([i], db') \<and> joined userId db db' [i] \<and> sign_in_ok is_uuid db'"
proof -
  from create_joined [OF ok name, of "''customer''" now userId] obtain i db1 where
    db1: "createTenantOwnerMembership now userId name ''customer'' db = Inr (i, db1)" "joined userId db db1 [i]" "sign_in_ok is_uuid db1"
    by (auto simp: TENANT_KINDS_def)
  from with_defaults_joined [OF db1(3), of now "ti_tenant_id i" None userId] obtain db2 where
    db2: "with_defaults now (ti_tenant_id i) None db1 = Inr db2" "joined userId db1 db2 []" "sign_in_ok is_uuid db2" by blast
  with db1(1) joined_trans [OF db1(2) db2(2)] show ?thesis by (simp add: create_own_tenant_def)
qed

lemma set_sorted_memberships [simp]: "set (sortMembershipsForDefaultActiveTenant infos) = set infos"
  by (simp add: sortMembershipsForDefaultActiveTenant_def)

lemma sorted_memberships_empty [simp]: "sortMembershipsForDefaultActiveTenant infos = [] \<longleftrightarrow> infos = []"
  by (metis set_empty set_sorted_memberships)

text \<open>The transaction always ends with the memberships of the user, of which there is at least one.\<close>

lemma tenants_for_user_joined:
  assumes ok: "sign_in_ok is_uuid db" and name: "name \<noteq> []" and arrange: "\<forall>rows. set (arrange rows) = set rows"
  shows "\<exists>infos db' new. tenants_for_user arrange now userId name db = Inr (infos, db') \<and> infos \<noteq> [] \<and>
    set infos = set (memberships_of userId db') \<and> joined userId db db' new \<and> sign_in_ok is_uuid db' \<and>
    (memberships_of userId db \<noteq> [] \<longrightarrow> db' = db)"
proof (cases "memberships_of userId db = []")
  case False
  moreover have "arrange (memberships_of userId db) \<noteq> []" using arrange False by (metis set_empty)
  ultimately show ?thesis using ok arrange joined_refl [of userId db]
    by (auto simp: tenants_for_user_def Let_def)
next
  case True
  then have none: "arrange (memberships_of userId db) = []" using arrange by (metis set_empty)
  have gain: "set infos = set (memberships_of userId db')" if "joined userId db db' infos" for infos db'
    using that True by (simp add: joined_def)
  let ?p = "find (\<lambda>t. te_kind t = ''platform'') (claimableTenants db)"
  let ?c = "find (\<lambda>t. te_kind t = ''customer'') (claimableTenants db)"
  consider (claim) "length (claimableTenants db) \<le> 2 \<and> (?p \<noteq> None \<or> ?c \<noteq> None)"
    | (first) "\<not> (length (claimableTenants db) \<le> 2 \<and> (?p \<noteq> None \<or> ?c \<noteq> None))" "pv_tenants (sn_install db) = []"
    | (own) "\<not> (length (claimableTenants db) \<le> 2 \<and> (?p \<noteq> None \<or> ?c \<noteq> None))" "pv_tenants (sn_install db) \<noteq> []" by blast
  then show ?thesis
  proof cases
    case claim
    from claim_initial_joined [OF ok name refl refl, of now userId] claim obtain infos db' where
      r: "claim_initial_tenants now userId name ?p ?c db = Inr (sortMembershipsForDefaultActiveTenant infos, db')"
      "infos \<noteq> []" "joined userId db db' infos" "sign_in_ok is_uuid db'" by blast
    have "tenants_for_user arrange now userId name db = Inr (sortMembershipsForDefaultActiveTenant infos, db')"
      using claim none r(1) by (simp add: tenants_for_user_def Let_def)
    with r(2-4) gain [OF r(3)] True show ?thesis by auto
  next
    case first
    from create_first_joined [OF ok name first(2), of now userId] obtain infos db' where
      r: "create_first_tenants now userId name db = Inr (sortMembershipsForDefaultActiveTenant infos, db')"
      "infos \<noteq> []" "joined userId db db' infos" "sign_in_ok is_uuid db'" by blast
    have "tenants_for_user arrange now userId name db = Inr (sortMembershipsForDefaultActiveTenant infos, db')"
      using first none r(1) by (auto simp: tenants_for_user_def Let_def)
    with r(2-4) gain [OF r(3)] True show ?thesis by auto
  next
    case own
    from create_own_joined [OF ok name, of now userId] obtain i db' where
      r: "create_own_tenant now userId name db = Inr ([i], db')" "joined userId db db' [i]" "sign_in_ok is_uuid db'" by blast
    have "tenants_for_user arrange now userId name db = Inr ([i], db')"
      using own none r(1) by (auto simp: tenants_for_user_def Let_def)
    with r(2,3) gain [OF r(2)] True show ?thesis by auto
  qed
qed

lemma tenant_name_nonempty: "getAutoCreatedCustomerTenantName payload \<noteq> []"
proof -
  have "sanitizeTenantNameFromEmail email \<noteq> Some []" for email
    by (simp add: sanitizeTenantNameFromEmail_def or_null_def Let_def)
  then show ?thesis by (auto simp: getAutoCreatedCustomerTenantName_def default_def split: option.split)
qed

text \<open>
  C33: signing in never lets a user into a tenant that has members. Whatever the hook is asked, the
  memberships there were stay as they are; one that is added is the user's own, as an owner, of a tenant
  nobody was a member of; a user who has a tenant already gets none; and the tables stay consistent: every
  membership is of an existing tenant in a known role, and a user has at most one in a tenant.
\<close>

theorem sign_in_joins_memberless:
  assumes "sign_in_ok is_uuid db" and "\<forall>rows. set (se_arrange env rows) = set rows"
    and "db' = snd (buildTokenHookClaims env now payload db)"
  shows "sign_in_ok is_uuid db' \<and>
    (\<exists>new. sn_memberships db' = sn_memberships db @ new \<and>
       (\<forall>m \<in> set new. se_to_uuid env (hp_user_id payload) = Some (ms_user_id m) \<and> ms_role m = ''owner'' \<and>
          memberships_of (ms_user_id m) db = [] \<and> (\<forall>other \<in> set (sn_memberships db). ms_tenant_id other \<noteq> ms_tenant_id m)))"
proof (cases "se_to_uuid env (hp_user_id payload)")
  case None
  with assms show ?thesis by (simp add: buildTokenHookClaims_def Let_def)
next
  case (Some userId)
  let ?name = "getAutoCreatedCustomerTenantName payload"
  from tenants_for_user_joined [OF assms(1) tenant_name_nonempty [of payload] assms(2), of now userId] obtain infos db1 gained where
    run: "tenants_for_user (se_arrange env) now userId ?name db = Inr (infos, db1)" "joined userId db db1 gained"
    "sign_in_ok is_uuid db1" "memberships_of userId db \<noteq> [] \<longrightarrow> db1 = db" by blast
  with Some assms(3) have db': "db' = db1" by (simp add: buildTokenHookClaims_def Let_def)
  from run(2) obtain new where new: "sn_memberships db1 = sn_memberships db @ new"
      "\<forall>m \<in> set new. ms_user_id m = userId \<and> ms_role m = ''owner'' \<and> (\<forall>other \<in> set (sn_memberships db). ms_tenant_id other \<noteq> ms_tenant_id m)"
    unfolding joined_def by blast
  moreover have "memberships_of userId db = []" if "m \<in> set new" for m using run(4) that new(1) by fastforce
  ultimately show ?thesis using db' run(3) Some by (intro conjI exI [of _ new]) auto
qed

section \<open>The session of a sign-in\<close>

definition info_ok :: "(string \<Rightarrow> bool) \<Rightarrow> tenant_info \<Rightarrow> bool" where
  "info_ok is_uuid i =
     (is_uuid (ti_tenant_id i) \<and> ti_tenant_name i \<noteq> [] \<and> ti_tenant_kind i \<in> set TENANT_KINDS \<and> isTenantRole (ti_role i))"

lemma memberships_info_ok:
  assumes "sign_in_ok is_uuid db" and "i \<in> set (memberships_of userId db)"
  shows "info_ok is_uuid i"
proof -
  from assms(2) obtain m t where i: "i = membership_info m t" "m \<in> set (sn_memberships db)" "t \<in> set (pv_tenants (sn_install db))"
      "te_id t = ms_tenant_id m"
    by (auto simp: memberships_of_def)
  have "is_uuid (te_id t)" using assms(1) i(3) by (auto simp: sign_in_ok_def ids_ok_def drawn_id_def)
  with assms(1) i show ?thesis by (auto simp: sign_in_ok_def info_ok_def membership_info_def tenant_ok_def list_all_iff)
qed

lemma tenant_claim_parses: "info_ok is_uuid i \<Longrightarrow> tenantInfoSchema is_uuid (tenant_claim i) = Some i"
  by (simp add: tenantInfoSchema_def tenant_claim_def info_ok_def obj_get_def uuid_member_def name_member_def kind_member_def role_member_def)

lemma tenants_parse: "\<forall>i \<in> set infos. info_ok is_uuid i \<Longrightarrow> tenants_member is_uuid (JArr (map tenant_claim infos)) = Some infos"
  by (auto simp: tenants_member_def Let_def tenant_claim_parses comp_def intro: map_idI)

lemma app_metadata_members:
  assumes "app_metadata_claim v active infos = JObj o'"
  shows "obj_get o' ''tenant_id'' = JStr (ti_tenant_id active)" and "obj_get o' ''tenant_kind'' = JStr (ti_tenant_kind active)"
    and "obj_get o' ''role'' = JStr (ti_role active)" and "obj_get o' ''tenants'' = JArr (map tenant_claim infos)"
proof -
  from assms have o': "o' = obj_set ''tenants'' (JArr (map tenant_claim infos)) (obj_set ''role'' (JStr (ti_role active))
      (obj_set ''tenant_kind'' (JStr (ti_tenant_kind active)) (obj_set ''tenant_id'' (JStr (ti_tenant_id active)) (own_entries v))))"
    by (simp only: app_metadata_claim_def obj_spread_Cons obj_spread_Nil jsval.inject)
  show "obj_get o' ''tenant_id'' = JStr (ti_tenant_id active)" "obj_get o' ''tenant_kind'' = JStr (ti_tenant_kind active)"
    "obj_get o' ''role'' = JStr (ti_role active)" "obj_get o' ''tenants'' = JArr (map tenant_claim infos)"
    unfolding o' by simp_all
qed

lemma app_metadata_parses:
  assumes "\<forall>i \<in> set infos. info_ok is_uuid i" and "active \<in> set infos" and "obj_get payload ''app_metadata'' = app_metadata_claim v active infos"
  shows "parseBaseClaims is_uuid payload =
    Inr (Some \<lparr> cl_tenantId = ti_tenant_id active, cl_tenantKind = ti_tenant_kind active, cl_role = ti_role active, cl_tenants = infos \<rparr>)"
proof -
  obtain o' where o': "app_metadata_claim v active infos = JObj o'" by (simp add: app_metadata_claim_def)
  have "info_ok is_uuid active" using assms(1,2) by blast
  then have "uuid_member is_uuid (obj_get o' ''tenant_id'') = Some (ti_tenant_id active)"
    "kind_member (obj_get o' ''tenant_kind'') = Some (ti_tenant_kind active)" "role_member (obj_get o' ''role'') = Some (ti_role active)"
    "tenants_member is_uuid (obj_get o' ''tenants'') = Some infos"
    by (simp_all add: app_metadata_members [OF o'] tenants_parse [OF assms(1)] info_ok_def uuid_member_def kind_member_def role_member_def)
  moreover have "as_string (obj_get o' ''tenant_id'') \<noteq> None" by (simp add: app_metadata_members [OF o'] as_string_def)
  ultimately show ?thesis unfolding parseBaseClaims_def assms(3) o' by (simp add: appMetadataSchema_def)
qed

lemma merge_succeeds:
  assumes "\<forall>c. as_string (obj_get claims ''client_id'') = Some c \<longrightarrow> to_uuid c \<noteq> None"
  shows "\<exists>aud. mergeAudiences parse_url to_uuid clients claims = Inr aud"
proof (cases "as_string (obj_get claims ''client_id'')")
  case (Some c)
  with assms obtain i where "to_uuid c = Some i" by auto
  with Some show ?thesis by (simp add: mergeAudiences_def isMcpEligibleOAuthClient_def Let_def)
qed (simp add: mergeAudiences_def)

lemma active_in: "infos \<noteq> [] \<Longrightarrow> active_membership preferred infos \<in> set infos"
  by (auto simp: active_membership_def default_def dest: find_SomeD split: option.split)

lemma active_preferred:
  assumes "j \<in> set infos" and "ti_tenant_id j = p"
  shows "ti_tenant_id (active_membership (Some p) infos) = p"
proof -
  from assms obtain i where i: "find (\<lambda>i. ti_tenant_id i = p) infos = Some i"
    by (cases "find (\<lambda>i. ti_tenant_id i = p) infos") (auto simp: find_None_iff)
  from find_SomeD [OF i] i show ?thesis by (simp add: active_membership_def default_def)
qed

lemma session_app_metadata:
  "obj_get (session_claims claims aud infos) ''app_metadata'' =
     app_metadata_claim (obj_get claims ''app_metadata'') (active_membership (preferredTenantId claims) infos) infos"
  by (simp add: session_claims_def Let_def obj_spread_Cons)

text \<open>
  C34: a sign-in ends in a session on a tenant of the user. The hook answers with claims; and when the token
  that carries them is verified for the user, the middleware opens a session in which the tenants are exactly
  those the user is a member of, and the active one is among them, with its kind and with the role the user
  has there; it is the preferred tenant of the user, if the user is a member of that.
\<close>

theorem sign_in_session:
  assumes "sign_in_ok is_uuid db" and "\<forall>rows. set (se_arrange env rows) = set rows"
    and "se_to_uuid env (hp_user_id payload) = Some userId" and "is_uuid userId"
    and "\<forall>c. as_string (obj_get (default [] (hp_claims payload)) ''client_id'') = Some c \<longrightarrow> se_to_uuid env c \<noteq> None"
    and "ag_gotrueUrl cfg \<noteq> []" and "aq_query_token r = None" and "request_token r \<noteq> []"
  shows "\<exists>claims db'. buildTokenHookClaims env now payload db = (Inr claims, db') \<and>
    (\<forall>verified. jwtVerify (request_token r) ''authenticated'' = Inr verified \<and>
       obj_get verified ''app_metadata'' = obj_get claims ''app_metadata'' \<and> obj_get verified ''sub'' = JStr userId \<longrightarrow>
       (\<exists>auth tenants i. authMiddleware is_uuid jwtVerify cfg r = Inr (auth, tenants) \<and>
          set tenants = set (memberships_of userId db') \<and> i \<in> set tenants \<and>
          auth = \<lparr> au_tenantId = ti_tenant_id i, au_tenantKind = ti_tenant_kind i, au_userId = userId, au_role = ti_role i \<rparr> \<and>
          (\<forall>p. preferredTenantId (default [] (hp_claims payload)) = Some p \<and> (\<exists>j \<in> set tenants. ti_tenant_id j = p) \<longrightarrow>
             au_tenantId auth = p)))"
proof -
  let ?claims = "default [] (hp_claims payload)"
  from tenants_for_user_joined [OF assms(1) tenant_name_nonempty [of payload] assms(2), of now userId] obtain rows db' where
    run: "tenants_for_user (se_arrange env) now userId (getAutoCreatedCustomerTenantName payload) db = Inr (rows, db')" "rows \<noteq> []"
    "set rows = set (memberships_of userId db')" "sign_in_ok is_uuid db'" by blast
  define infos where "infos = sortMembershipsForDefaultActiveTenant rows"
  have infos: "infos \<noteq> []" "set infos = set (memberships_of userId db')" using run(2,3) by (simp_all add: infos_def)
  have ok: "\<forall>i \<in> set infos. info_ok is_uuid i" using memberships_info_ok [OF run(4)] infos(2) by simp
  obtain aud where "mergeAudiences (se_parse_url env) (se_to_uuid env) (sn_oauth_clients db') ?claims = Inr aud"
    using merge_succeeds [OF assms(5)] by blast
  then have built: "buildTokenHookClaims env now payload db = (Inr (session_claims ?claims aud infos), db')"
    using assms(3) run(1) by (simp add: buildTokenHookClaims_def Let_def infos_def)
  let ?i = "active_membership (preferredTenantId ?claims) infos"
  let ?auth = "\<lparr> au_tenantId = ti_tenant_id ?i, au_tenantKind = ti_tenant_kind ?i, au_userId = userId, au_role = ti_role ?i \<rparr>"
  have session: "authMiddleware is_uuid jwtVerify cfg r = Inr (?auth, infos)"
    if v: "jwtVerify (request_token r) ''authenticated'' = Inr verified"
      "obj_get verified ''app_metadata'' = obj_get (session_claims ?claims aud infos) ''app_metadata''"
      "obj_get verified ''sub'' = JStr userId" for verified
    using assms(4,6-8) v(1,3) app_metadata_parses [OF ok active_in [OF infos(1)] v(2) [unfolded session_app_metadata]]
    by (simp add: authMiddleware_def present_def verifyAccessToken_def validateVerifiedPayload_def uuid_member_def)
  have "\<forall>p. preferredTenantId ?claims = Some p \<and> (\<exists>j \<in> set infos. ti_tenant_id j = p) \<longrightarrow> au_tenantId ?auth = p"
    using active_preferred by auto
  with session infos(2) active_in [OF infos(1)] show ?thesis
    by (intro exI [of _ "session_claims ?claims aud infos"] exI [of _ db'] conjI [OF built] allI impI exI [of _ ?auth] exI [of _ infos] exI [of _ ?i])
      blast
qed

definition hook_env :: sign_in_env where
  "hook_env = \<lparr> se_arrange = (\<lambda>rows. rows), se_parse_url = (\<lambda>s. None), se_to_uuid = Some \<rparr>"

definition no_sign_in :: sign_in_db where
  "no_sign_in = \<lparr> sn_recent = [], sn_memberships = [], sn_install = empty_install, sn_oauth_clients = [] \<rparr>"

definition first_user :: hook_payload where
  "first_user = \<lparr> hp_user_id = ''ann'', hp_email = JStr ''Ann@Example.org'', hp_claims = None, hp_user = None, hp_record = None \<rparr>"

abbreviation "some_id \<equiv> (\<lambda>s :: string. s \<noteq> [])"

lemma no_sign_in_ok: "sign_in_ok some_id no_sign_in"
  using supply_ok no_policies_ok by (simp add: sign_in_ok_def no_sign_in_def empty_install_def source_ok_def)

lemma sample_arrange: "\<forall>rows. set (se_arrange hook_env rows) = set rows"
  by (simp add: hook_env_def)

theorem sign_in_joins_memberless_witness:
  "sign_in_ok some_id (snd (buildTokenHookClaims hook_env 5 first_user no_sign_in)) \<and>
   list_all (\<lambda>m. ms_user_id m = ''ann'' \<and> ms_role m = ''owner'') (sn_memberships (snd (buildTokenHookClaims hook_env 5 first_user no_sign_in)))"
  using sign_in_joins_memberless [OF no_sign_in_ok sample_arrange refl, of 5 first_user]
  by (auto simp: no_sign_in_def first_user_def hook_env_def list_all_iff)

definition sample_claims :: jsobj where
  "sample_claims = (case fst (buildTokenHookClaims hook_env 5 first_user no_sign_in) of Inr claims \<Rightarrow> claims | Inl _ \<Rightarrow> [])"

definition sample_verifier :: "string \<Rightarrow> string \<Rightarrow> thrown + jsobj" where
  "sample_verifier token aud = Inr (obj_set ''sub'' (JStr ''ann'') sample_claims)"

definition bearer_request :: auth_request where
  "bearer_request = \<lparr> aq_path = ''/v1/projects'', aq_authorization = Some ''Bearer token'', aq_query_token = None \<rparr>"

lemma bearer_request_token: "request_token bearer_request \<noteq> []"
  by code_simp

theorem sign_in_session_witness:
  "\<exists>auth tenants. authMiddleware some_id sample_verifier \<lparr> ag_gotrueUrl = ''http://auth'', ag_authUrl = [] \<rparr> bearer_request = Inr (auth, tenants) \<and>
     au_userId auth = ''ann'' \<and> (\<exists>i \<in> set tenants. au_tenantId auth = ti_tenant_id i \<and> au_role auth = ti_role i)"
proof -
  let ?cfg = "\<lparr> ag_gotrueUrl = ''http://auth'', ag_authUrl = [] \<rparr>"
  from sign_in_session [OF no_sign_in_ok sample_arrange, of first_user "''ann''" ?cfg bearer_request 5 sample_verifier] bearer_request_token
  obtain claims db' where built: "buildTokenHookClaims hook_env 5 first_user no_sign_in = (Inr claims, db')"
    and session: "\<forall>verified. sample_verifier (request_token bearer_request) ''authenticated'' = Inr verified \<and>
       obj_get verified ''app_metadata'' = obj_get claims ''app_metadata'' \<and> obj_get verified ''sub'' = JStr ''ann'' \<longrightarrow>
       (\<exists>auth tenants i. authMiddleware some_id sample_verifier ?cfg bearer_request = Inr (auth, tenants) \<and> i \<in> set tenants \<and>
          auth = \<lparr> au_tenantId = ti_tenant_id i, au_tenantKind = ti_tenant_kind i, au_userId = ''ann'', au_role = ti_role i \<rparr>)"
    by (fastforce simp: hook_env_def first_user_def bearer_request_def)
  have "sample_verifier (request_token bearer_request) ''authenticated'' = Inr (obj_set ''sub'' (JStr ''ann'') claims)"
    by (simp add: sample_verifier_def sample_claims_def built)
  with session show ?thesis by fastforce
qed

text \<open>A tenant is named after the address of its user, in at most eighty characters of the allowed ones.\<close>

lemma dash_runs_chars: "c \<in> set (dash_runs P s) \<Longrightarrow> c \<in> set s \<and> \<not> P c \<or> c = CHR ''-''"
proof (induction s)
  case (Cons d s)
  then show ?case by (cases "P d"; cases s) (auto simp del: dash_runs.simps simp: dash_runs.simps [of P] split: if_splits)
qed simp

lemma trim_end_subset: "set (trim_end P s) \<subseteq> set s"
  unfolding trim_end_def using set_dropWhileD [of _ P "rev s"] by auto

lemma trim_end_length: "length (trim_end P s) \<le> length s"
  unfolding trim_end_def by (metis length_dropWhile_le length_rev)

theorem sanitized_name_bounds:
  assumes "sanitizeTenantNameFromEmail email = Some name"
  shows "1 \<le> length name \<and> length name \<le> 80 \<and> list_all name_char name"
proof -
  define s where "s = dash_runs (\<lambda>c. c = CHR ''-'') (dash_runs (\<lambda>c. \<not> name_char c) (js_toLowerCase (js_trim email)))"
  define u where "u = take 80 (trim_end name_edge (dropWhile name_edge s))"
  have name: "name = trim_end name_edge u" "name \<noteq> []"
    using assms by (auto simp: sanitizeTenantNameFromEmail_def Let_def or_null_def s_def u_def split: if_splits)
  have "name_char (CHR ''-'')" by code_simp
  then have "name_char c" if "c \<in> set s" for c using that by (auto simp: s_def dest!: dash_runs_chars)
  moreover have "set name \<subseteq> set s"
    using trim_end_subset [of name_edge u] trim_end_subset [of name_edge "dropWhile name_edge s"] set_take_subset [of 80]
    unfolding name(1) u_def by (blast dest: set_dropWhileD in_set_takeD)
  ultimately have "list_all name_char name" by (auto simp: list_all_iff)
  moreover have "length name \<le> 80" using trim_end_length [of name_edge u] by (simp add: name(1) u_def)
  ultimately show ?thesis using name(2) by (simp add: Suc_leI)
qed

lemma sample_tenant_name: "getAutoCreatedCustomerTenantName first_user = ''ann@example.org''"
  by code_simp

text \<open>
  The status that the middleware keeps for an identity service out of reach is not the one it gives: the
  fetch of the keys fails with a \<open>TypeError\<close> then, and that counts as an invalid token.
\<close>

theorem unreachable_keys_reported_invalid:
  assumes "jwtVerify (request_token r) ''authenticated'' = Inl \<lparr> tw_TypeError = True, tw_jose_named = False, tw_JWTExpired = False, tw_JOSEError = False \<rparr>"
    and "ag_gotrueUrl cfg \<noteq> []" and "aq_query_token r = None" and "request_token r \<noteq> []"
  shows "authMiddleware is_uuid jwtVerify cfg r = errorResult 401 ''INVALID_TOKEN'' ''Token is invalid or has expired'' None"
  using assms by (simp add: authMiddleware_def present_def verifyAccessToken_def normalizeJwtVerificationError_def)

end
