(* ===== verification/Field_Catalog.thy ===== *)
theory Field_Catalog
  imports Registry
begin

text \<open>
  The field catalog as the policy editor sees it, \<open>features/field-catalog\<close>: the built-in fields, the
  operators, and the routes that list them with the registered fields of the connectors. Proved: the
  editor offers exactly the fields a request resolves by itself and exactly the operators the
  expression engine implements, and lists every field of a connector that is registered.
\<close>

section \<open>Built-in fields\<close>

record builtin_field =
  bf_canonical_ref :: string
  bf_label :: string
  bf_data_type :: string
  bf_description :: string
  bf_operators :: "string list"

definition BUILTIN_FIELDS :: "builtin_field list" where
  "BUILTIN_FIELDS =
     [\<lparr> bf_canonical_ref = ''asset.ecosystem'', bf_label = ''Ecosystem'', bf_data_type = ''string'',
        bf_description = ''npm | pypi'', bf_operators = [''eq'', ''ne'', ''in'', ''not_in''] \<rparr>,
      \<lparr> bf_canonical_ref = ''asset.package'', bf_label = ''Package Name'', bf_data_type = ''string'',
        bf_description = ''The package name'', bf_operators = [''eq'', ''ne'', ''contains'', ''starts_with'', ''ends_with''] \<rparr>,
      \<lparr> bf_canonical_ref = ''asset.version'', bf_label = ''Package Version'', bf_data_type = ''string'',
        bf_description = ''The version string'', bf_operators = [''eq'', ''ne'', ''contains''] \<rparr>,
      \<lparr> bf_canonical_ref = ''asset.version_published_at'', bf_label = ''Version Published At'', bf_data_type = ''datetime'',
        bf_description = ''UTC ISO 8601 publish timestamp for the requested package version, when known'',
        bf_operators = [''gt'', ''gte'', ''lt'', ''lte'', ''exists'', ''not_exists''] \<rparr>,
      \<lparr> bf_canonical_ref = ''asset.version_age_days'', bf_label = ''Version Age Days'', bf_data_type = ''float'',
        bf_description = ''Age of the requested package version in days, when the publish timestamp is known'',
        bf_operators = [''gt'', ''gte'', ''lt'', ''lte'', ''exists'', ''not_exists''] \<rparr>,
      \<lparr> bf_canonical_ref = ''asset.latest_version_published_at'', bf_label = ''Latest Version Published At'',
        bf_data_type = ''datetime'',
        bf_description = ''UTC ISO 8601 publish timestamp for the latest known package version, when known'',
        bf_operators = [''gt'', ''gte'', ''lt'', ''lte'', ''exists'', ''not_exists''] \<rparr>,
      \<lparr> bf_canonical_ref = ''runtime.request_timestamp'', bf_label = ''Request Timestamp'', bf_data_type = ''datetime'',
        bf_description = ''UTC ISO 8601 of the current request'', bf_operators = [''gt'', ''gte'', ''lt'', ''lte''] \<rparr>]"

definition BUILTIN_FIELD_REFS :: "string list" where
  "BUILTIN_FIELD_REFS = map bf_canonical_ref BUILTIN_FIELDS"

section \<open>Operators\<close>

record operator_info =
  op_id :: string
  op_label :: string
  op_applicable_types :: "string list"
  op_value_type :: "string option"
  op_note :: "string option"

definition operator_entry :: "string \<Rightarrow> string \<Rightarrow> string list \<Rightarrow> string option \<Rightarrow> string option \<Rightarrow> operator_info" where
  "operator_entry i label types value_type note =
     \<lparr> op_id = i, op_label = label, op_applicable_types = types, op_value_type = value_type, op_note = note \<rparr>"

definition OPERATORS :: "operator_info list" where
  "OPERATORS =
     (let every = [''integer'', ''float'', ''boolean'', ''string'', ''datetime''];
          ordered = [''integer'', ''float'', ''datetime'']
      in [operator_entry ''eq'' ''equals'' every None None,
          operator_entry ''ne'' ''not equals'' every None None,
          operator_entry ''gt'' ''greater than'' ordered None None,
          operator_entry ''gte'' ''greater than or equal'' ordered None None,
          operator_entry ''lt'' ''less than'' ordered None None,
          operator_entry ''lte'' ''less than or equal'' ordered None None,
          operator_entry ''in'' ''is one of'' [''string''] (Some ''array'') (Some ''value must be an array''),
          operator_entry ''not_in'' ''is not one of'' [''string''] (Some ''array'') (Some ''value must be an array''),
          operator_entry ''contains'' ''contains'' [''string''] None None,
          operator_entry ''not_contains'' ''does not contain'' [''string''] None None,
          operator_entry ''starts_with'' ''starts with'' [''string''] None None,
          operator_entry ''ends_with'' ''ends with'' [''string''] None None,
          operator_entry ''is_true'' ''is true'' [''boolean''] None (Some ''no value required''),
          operator_entry ''is_false'' ''is false'' [''boolean''] None (Some ''no value required''),
          operator_entry ''exists'' ''exists (is not null)'' every None (Some ''no value required''),
          operator_entry ''not_exists'' ''does not exist (is null)'' every None (Some ''no value required'')])"

section \<open>The routes\<close>

text \<open>The query schemas: \<open>None\<close> is a request the schema refuses with status 400.\<close>

definition optionalBooleanQuerySchema :: "string option \<Rightarrow> bool option" where
  "optionalBooleanQuerySchema v =
     (let s = default ''false'' v in if s \<in> {''true'', ''false''} then Some (s = ''true'') else None)"

definition optionalStringQuerySchema :: "string option \<Rightarrow> bool" where
  "optionalStringQuerySchema v = (v \<noteq> Some [])"

definition key_char :: "char \<Rightarrow> bool" where
  "key_char c = (let n = code_unit c in 97 \<le> n \<and> n \<le> 122 \<or> 48 \<le> n \<and> n \<le> 57)"

text \<open>\<open>/^[a-z0-9][a-z0-9_-]*$/\<close>\<close>

definition connectorKeyParamSchema :: "string \<Rightarrow> bool" where
  "connectorKeyParamSchema s =
     (case s of [] \<Rightarrow> False
      | c # r \<Rightarrow> key_char c \<and> list_all (\<lambda>d. key_char d \<or> d = CHR ''_'' \<or> d = CHR ''-'') r)"

definition fieldCatalogRoute ::
    "string option \<Rightarrow> string option \<Rightarrow> string option \<Rightarrow> field_db \<Rightarrow> (field_row list \<times> builtin_field list) option" where
  "fieldCatalogRoute connector_key entity_type deprecated db =
     (if \<not> optionalStringQuerySchema connector_key \<or> \<not> optionalStringQuerySchema entity_type then None
      else case optionalBooleanQuerySchema deprecated of
        None \<Rightarrow> None
      | Some showDeprecated \<Rightarrow>
          Some (filter (\<lambda>r. (present connector_key \<longrightarrow> Some (fr_connector_key r) = connector_key) \<and>
                            (present entity_type \<longrightarrow> Some (fr_entity_type r) = entity_type) \<and>
                            (showDeprecated \<or> \<not> fr_deprecated r)) (ft_rows db),
                BUILTIN_FIELDS))"

definition connectorFieldsRoute :: "string \<Rightarrow> string option \<Rightarrow> field_db \<Rightarrow> field_row list option" where
  "connectorFieldsRoute key deprecated db =
     (case optionalBooleanQuerySchema deprecated of
        None \<Rightarrow> None
      | Some showDeprecated \<Rightarrow>
          if \<not> connectorKeyParamSchema key then None
          else Some (filter (\<lambda>r. fr_connector_key r = key \<and> (showDeprecated \<or> \<not> fr_deprecated r)) (ft_rows db)))"

definition operatorsRoute :: "operator_info list" where
  "operatorsRoute = OPERATORS"

section \<open>What the editor offers\<close>

text \<open>
  The editor and the engine agree. The built-in references are the references a request resolves
  without any connector, in that order; the operators are those of the engine, each once; and
  every operator offered for a built-in field applies to values of its type, or to strings, as
  which timestamps are compared.
\<close>

theorem editor_matches_engine:
  "BUILTIN_FIELD_REFS = map fst (asset_fields now asset) \<and>
   set (map op_id operatorsRoute) = set leaf_operators \<and> distinct (map op_id operatorsRoute) \<and>
   (\<forall>f \<in> set BUILTIN_FIELDS. \<forall>oper \<in> set (bf_operators f). \<exists>info \<in> set operatorsRoute.
      op_id info = oper \<and> bf_data_type f \<in> set (op_applicable_types info))"
proof (intro conjI)
  show "BUILTIN_FIELD_REFS = map fst (asset_fields now asset)"
    by (simp add: BUILTIN_FIELD_REFS_def BUILTIN_FIELDS_def asset_fields_def)
  show "set (map op_id operatorsRoute) = set leaf_operators" and "distinct (map op_id operatorsRoute)"
    by code_simp+
  show "\<forall>f \<in> set BUILTIN_FIELDS. \<forall>oper \<in> set (bf_operators f). \<exists>info \<in> set operatorsRoute.
      op_id info = oper \<and> bf_data_type f \<in> set (op_applicable_types info)"
    by code_simp
qed

text \<open>
  After the registration at start-up the catalog lists, without filters, one row for each field of
  the connectors and no other.
\<close>

theorem catalog_lists_registered:
  assumes "unique_key field_ref_key (ft_rows db)" and "concat catalogs \<noteq> []"
  obtains rows where "fieldCatalogRoute None None None (registerAllFields catalogs db) = Some (rows, BUILTIN_FIELDS)"
    and "distinct (map fr_canonical_ref rows)" and "fr_canonical_ref ` set rows = fl_canonicalRef ` set (concat catalogs)"
proof
  let ?rows = "filter (\<lambda>r. \<not> fr_deprecated r) (ft_rows (registerAllFields catalogs db))"
  note reg = registerAllFields_live [OF assms]
  show "fieldCatalogRoute None None None (registerAllFields catalogs db) = Some (?rows, BUILTIN_FIELDS)"
    by (simp add: fieldCatalogRoute_def optionalStringQuerySchema_def optionalBooleanQuerySchema_def present_def default_def)
  show "fr_canonical_ref ` set ?rows = fl_canonicalRef ` set (concat catalogs)"
    using reg by (simp only: set_filter)
  have "unique_key field_ref_key ?rows" using reg by (simp add: unique_key_filter)
  then show "distinct (map fr_canonical_ref ?rows)"
    by (simp add: unique_key_def field_ref_key_def List.map_filter_def comp_def)
qed

end
