(* ===== verification/Freshness.thy ===== *)
theory Freshness
  imports Connector_Evaluation "HOL-Library.Multiset"
begin

text \<open>
  What proxies report about the releases of packages, \<open>features/package-freshness/service.ts\<close> with the
  services \<open>connect/record-package-latest-metadata-service.ts\<close> and
  \<open>connect/record-package-used-version-metadata-service.ts\<close>: the latest version of a package, the version
  a client used, and when they were published. A check reads both from the catalog. Proved: the reports refine
  a map from packages to the time of the last observation and the latest version it named, so that reports
  that arrive late do not turn the latest version back; and the age a check computes is that of the reported
  publication.
\<close>

section \<open>Tables\<close>

definition package_merge :: "package_row \<Rightarrow> package_row \<Rightarrow> package_row" where
  "package_merge new r =
     r\<lparr> pk_last_metadata_seen_at :=
          (case pk_last_metadata_seen_at new of None \<Rightarrow> pk_last_metadata_seen_at r
           | Some t \<Rightarrow> seen_at_least (pk_last_metadata_seen_at r) t) \<rparr>"

definition version_merge :: "package_version_row \<Rightarrow> package_version_row \<Rightarrow> package_version_row" where
  "version_merge new r =
     r\<lparr> pv_published_at := orelse (pv_published_at new) (pv_published_at r),
        pv_last_metadata_seen_at :=
          (case pv_last_metadata_seen_at new of None \<Rightarrow> pv_last_metadata_seen_at r
           | Some t \<Rightarrow> seen_at_least (pv_last_metadata_seen_at r) t),
        pv_last_used_at :=
          (case pv_last_used_at new of None \<Rightarrow> pv_last_used_at r
           | Some t \<Rightarrow> seen_at_least (pv_last_used_at r) t) \<rparr>"

interpretation packages: upserting package_key package_merge
  by unfold_locales (simp add: package_key_def package_merge_def)

interpretation package_versions: upserting version_key version_merge
  by unfold_locales (simp add: version_key_def version_merge_def)

section \<open>The operations\<close>

record latest_metadata =
  lm_ecosystem :: string
  lm_package :: string
  lm_latest_version :: string
  lm_latest_published_at :: "string option"
  lm_observed_at :: string

record used_metadata =
  um_ecosystem :: string
  um_package :: string
  um_used_version :: string
  um_used_version_published_at :: "string option"
  um_observed_at :: string
  um_latest_version :: "string option"
  um_latest_published_at :: "string option"

text \<open>\<open>parse_date\<close> is \<open>new Date(s).getTime()\<close>, \<open>None\<close> for \<open>NaN\<close>.\<close>

definition parseTimestamp :: "(string \<Rightarrow> ms option) \<Rightarrow> string option \<Rightarrow> ms option" where
  "parseTimestamp parse_date value = (if \<not> present value then None else parse_date (the value))"

definition parseRequiredTimestamp :: "(string \<Rightarrow> ms option) \<Rightarrow> string \<Rightarrow> ms option" where
  "parseRequiredTimestamp parse_date value = parse_date value"

definition stableVersionRefKind :: "string \<Rightarrow> string \<Rightarrow> ref_kind" where
  "stableVersionRefKind ecosystem version =
     (if oc_ref_kind (classifyObservedPackageVersionRef ecosystem version) = Digest_ref then Digest_ref else Version_ref)"

text \<open>
  No caller passes \<open>latestPackageVersionId\<close>, so that the first branch is the one without a time of
  observation.
\<close>

definition freshPackageIdentity ::
    "string \<Rightarrow> string \<Rightarrow> ms option \<Rightarrow> catalog_db \<Rightarrow> js_error + (string \<times> catalog_db)" where
  "freshPackageIdentity ecosystem package lastMetadataSeenAt db =
     (let this = (\<lambda>r. pk_ecosystem r = ecosystem \<and> pk_package r = package);
          (rowId, uuids) = draw (cg_uuids db);
          new = \<lparr> pk_id = rowId, pk_ecosystem = ecosystem, pk_package = package,
                  pk_latest_package_version_id = None, pk_last_metadata_seen_at = lastMetadataSeenAt \<rparr>;
          rows = (if lastMetadataSeenAt = None
                  then (if list_ex this (cg_packages db) then cg_packages db else cg_packages db @ [new])
                  else upsert_row package_key (package_merge new) new (cg_packages db))
      in case first_row this rows of
           None \<Rightarrow> Inl (AppError ''package_identity_resolution_failed'')
         | Some r \<Rightarrow> Inr (pk_id r, db\<lparr> cg_packages := rows, cg_uuids := uuids \<rparr>))"

text \<open>The insert takes the column defaults for the kind, the artifact kind and the role.\<close>

definition freshPackageVersion ::
    "string \<Rightarrow> string \<Rightarrow> ms option \<Rightarrow> ms option \<Rightarrow> ms option \<Rightarrow> catalog_db \<Rightarrow> js_error + (string \<times> catalog_db)" where
  "freshPackageVersion packageId version publishedAt lastMetadataSeenAt lastUsedAt db =
     (let (rowId, uuids) = draw (cg_uuids db);
          new = \<lparr> pv_id = rowId, pv_package_id = packageId, pv_version = version, pv_version_kind = Version,
                  pv_artifact_kind = Package_release, pv_display_role = Primary, pv_published_at = publishedAt,
                  pv_last_metadata_seen_at = lastMetadataSeenAt, pv_last_used_at = lastUsedAt \<rparr>;
          rows = upsert_row version_key (version_merge new) new (cg_versions db)
      in case first_row (\<lambda>r. pv_package_id r = packageId \<and> pv_version r = version) rows of
           None \<Rightarrow> Inl TypeError
         | Some r \<Rightarrow> Inr (pv_id r, db\<lparr> cg_versions := rows, cg_uuids := uuids \<rparr>))"

definition point_latest :: "string \<Rightarrow> string \<Rightarrow> ms \<Rightarrow> catalog_db \<Rightarrow> catalog_db" where
  "point_latest packageId versionId observedAt db =
     db\<lparr> cg_packages := update_where
          (\<lambda>p. pk_id p = packageId \<and> (case pk_last_metadata_seen_at p of None \<Rightarrow> True | Some t \<Rightarrow> t \<le> observedAt))
          (\<lambda>p. p\<lparr> pk_latest_package_version_id := Some versionId,
                  pk_last_metadata_seen_at := seen_at_least (pk_last_metadata_seen_at p) observedAt \<rparr>)
          (cg_packages db) \<rparr>"

definition ensureLatestVersion ::
    "string \<Rightarrow> string \<Rightarrow> string \<Rightarrow> ms option \<Rightarrow> ms \<Rightarrow> catalog_db \<Rightarrow> js_error + (string \<times> string \<times> catalog_db)" where
  "ensureLatestVersion ecosystem package latestVersion latestPublishedAt observedAt db =
     sum_bind (freshPackageIdentity ecosystem package (Some observedAt) db) (\<lambda>(pid, db1).
     sum_bind (freshPackageVersion pid latestVersion latestPublishedAt (Some observedAt) None db1) (\<lambda>(vid, db2).
       Inr (pid, vid, point_latest pid vid observedAt db2)))"

definition recordStableVersionRef :: "string \<Rightarrow> string \<Rightarrow> string \<Rightarrow> string \<Rightarrow> ms \<Rightarrow> catalog_db \<Rightarrow> catalog_db" where
  "recordStableVersionRef ecosystem packageId packageVersionId version observedAt db =
     upsertPackageVersionRef
       \<lparr> ri_package_id = packageId, ri_package_version_id = packageVersionId, ri_ref = version,
         ri_ref_kind = stableVersionRefKind ecosystem version, ri_source = Registry_metadata_source,
         ri_is_display_preferred = None, ri_metadata = None, ri_observed_at = observedAt \<rparr> db"

definition recordLatestDistTagRef :: "string \<Rightarrow> string \<Rightarrow> ms \<Rightarrow> catalog_db \<Rightarrow> catalog_db" where
  "recordLatestDistTagRef packageId packageVersionId observedAt db =
     upsertPackageVersionRef
       \<lparr> ri_package_id = packageId, ri_package_version_id = packageVersionId, ri_ref = ''latest'',
         ri_ref_kind = Dist_tag, ri_source = Registry_metadata_source, ri_is_display_preferred = None,
         ri_metadata = Some (JObj [(''resolved_at'', JStr (to_iso observedAt))]), ri_observed_at = observedAt \<rparr> db"

text \<open>The latest version with its two references, as both reports record it.\<close>

definition record_latest ::
    "string \<Rightarrow> string \<Rightarrow> string \<Rightarrow> ms option \<Rightarrow> ms \<Rightarrow> catalog_db \<Rightarrow> js_error + (string \<times> catalog_db)" where
  "record_latest ecosystem package version publishedAt observedAt db =
     sum_bind (ensureLatestVersion ecosystem package version publishedAt observedAt db) (\<lambda>(pid, vid, db1).
       Inr (pid, recordLatestDistTagRef pid vid observedAt (recordStableVersionRef ecosystem pid vid version observedAt db1)))"

definition reported_identity :: "string \<Rightarrow> string \<Rightarrow> string \<Rightarrow> package_identity" where
  "reported_identity ecosystem package version =
     canonicalizePackageIdentity \<lparr> pi_ecosystem = ecosystem, pi_package = package, pi_version = Some version \<rparr>"

definition persistPackageLatestMetadata ::
    "(string \<Rightarrow> ms option) \<Rightarrow> latest_metadata \<Rightarrow> catalog_db \<Rightarrow> js_error + catalog_db" where
  "persistPackageLatestMetadata parse_date msg db =
     (let identity = reported_identity (lm_ecosystem msg) (lm_package msg) (lm_latest_version msg)
      in if pi_ecosystem identity = [] \<or> pi_package identity = [] \<or> \<not> present (pi_version identity) then Inr db
         else case parseRequiredTimestamp parse_date (lm_observed_at msg) of
           None \<Rightarrow> Inr db
         | Some observedAt \<Rightarrow>
             sum_bind (record_latest (pi_ecosystem identity) (pi_package identity) (the (pi_version identity))
                 (parseTimestamp parse_date (lm_latest_published_at msg)) observedAt db) (\<lambda>(pid, db'). Inr db'))"

definition record_used ::
    "string \<Rightarrow> string \<Rightarrow> string \<Rightarrow> ms option \<Rightarrow> ms \<Rightarrow> catalog_db \<Rightarrow> js_error + catalog_db" where
  "record_used ecosystem packageId version publishedAt observedAt db =
     sum_bind (freshPackageVersion packageId version publishedAt None (Some observedAt) db) (\<lambda>(vid, db').
       Inr (recordStableVersionRef ecosystem packageId vid version observedAt db'))"

text \<open>The package of a used version, with its latest version when the report names one.\<close>

definition used_package ::
    "package_identity \<Rightarrow> package_identity option \<Rightarrow> ms option \<Rightarrow> ms \<Rightarrow> catalog_db \<Rightarrow> js_error + (string \<times> catalog_db)" where
  "used_package used latest publishedAt observedAt db =
     (case latest of
        Some l \<Rightarrow> record_latest (pi_ecosystem l) (pi_package l) (the (pi_version l)) publishedAt observedAt db
      | None \<Rightarrow> freshPackageIdentity (pi_ecosystem used) (pi_package used) None db)"

definition persistPackageUsedVersionMetadata ::
    "(string \<Rightarrow> ms option) \<Rightarrow> used_metadata \<Rightarrow> catalog_db \<Rightarrow> js_error + catalog_db" where
  "persistPackageUsedVersionMetadata parse_date msg db =
     (let used = reported_identity (um_ecosystem msg) (um_package msg) (um_used_version msg);
          latest = (if present (um_latest_version msg)
                    then Some (reported_identity (um_ecosystem msg) (um_package msg) (the (um_latest_version msg))) else None)
      in if pi_ecosystem used = [] \<or> pi_package used = [] \<or> \<not> present (pi_version used) then Inr db
         else if (case latest of None \<Rightarrow> False | Some l \<Rightarrow> \<not> present (pi_version l)) then Inr db
         else case parseRequiredTimestamp parse_date (um_observed_at msg) of
           None \<Rightarrow> Inr db
         | Some observedAt \<Rightarrow>
             sum_bind (used_package used latest (parseTimestamp parse_date (um_latest_published_at msg)) observedAt db) (\<lambda>(pid, db1).
               record_used (pi_ecosystem used) pid (the (pi_version used))
                 (parseTimestamp parse_date (um_used_version_published_at msg)) observedAt db1))"

section \<open>What the tables hold afterwards\<close>

lemma find_snoc: "find P (xs @ [x]) = (case find P xs of None \<Rightarrow> if P x then Some x else None | Some y \<Rightarrow> Some y)"
  by (induction xs) auto

lemma find_None_list_ex: "find P xs = None \<longleftrightarrow> \<not> list_ex P xs"
  by (induction xs) auto

lemma upsert_ids:
  assumes "source_ok u" and "draw u = (x, u')" and "ids_ok rid u rows" and "rid new = x" and "\<And>r. rid (merge r) = rid r"
  shows "ids_ok rid u' (upsert_row key merge new rows)"
proof -
  have "ids_ok rid u' (map (\<lambda>r. if key r = key new then merge r else r) rows)"
    using ids_ok_draw [OF assms(2,3)] by (subst ids_ok_map_same) (auto simp: assms(5))
  with ids_ok_append [OF assms(1-4)] show ?thesis by (simp add: upsert_row_def)
qed

lemma upsert_find_id:
  assumes "\<And>r. rid (merge r) = rid r" and "\<And>r. f (merge r) = f r" and "find (\<lambda>r. rid r = i) rows = Some z"
  shows "map_option f (find (\<lambda>r. rid r = i) (upsert_row key merge new rows)) = Some (f z)"
proof -
  let ?h = "\<lambda>r. if key r = key new then merge r else r"
  have "rid (?h r) = rid r" "f (?h r) = f r" for r using assms(1,2) by simp_all
  then have "map_option f (find (\<lambda>r. rid r = i) (map ?h rows)) = Some (f z)"
    using assms(3) by (simp add: find_map_comp)
  with assms(3) show ?thesis by (simp add: upsert_row_def find_snoc)
qed

definition the_package :: "string \<Rightarrow> string \<Rightarrow> catalog_db \<Rightarrow> package_row option" where
  "the_package e p db = find (\<lambda>r. package_key r = Some (e, p)) (cg_packages db)"

definition the_version :: "string \<Rightarrow> string \<Rightarrow> catalog_db \<Rightarrow> package_version_row option" where
  "the_version pid v db = find (\<lambda>r. version_key r = Some (pid, v)) (cg_versions db)"

text \<open>The time of the last observation of a package, and the latest version it named.\<close>

definition version_name :: "catalog_db \<Rightarrow> string \<Rightarrow> string option" where
  "version_name db vid = map_option pv_version (find (\<lambda>v. pv_id v = vid) (cg_versions db))"

definition freshness :: "catalog_db \<Rightarrow> string \<Rightarrow> string \<Rightarrow> (ms option \<times> string option) option" where
  "freshness db e p =
     map_option (\<lambda>r. (pk_last_metadata_seen_at r, Option.bind (pk_latest_package_version_id r) (version_name db)))
       (the_package e p db)"

definition latest_ok :: "catalog_db \<Rightarrow> bool" where
  "latest_ok db =
     list_all (\<lambda>p. case pk_latest_package_version_id p of None \<Rightarrow> True | Some vid \<Rightarrow> list_ex (\<lambda>v. pv_id v = vid) (cg_versions db))
       (cg_packages db)"

lemma latest_ok_iff:
  "latest_ok db \<longleftrightarrow> (\<forall>p \<in> set (cg_packages db). \<forall>vid. pk_latest_package_version_id p = Some vid \<longrightarrow> (\<exists>n. version_name db vid = Some n))"
proof -
  have "list_ex (\<lambda>v. pv_id v = vid) (cg_versions db) \<longleftrightarrow> (\<exists>n. version_name db vid = Some n)" for vid
    using find_None_list_ex [of "\<lambda>v. pv_id v = vid" "cg_versions db"] by (auto simp: version_name_def)
  then show ?thesis by (auto simp: latest_ok_def list_all_iff split: option.split)
qed

lemma fresh_identity:
  assumes "catalog_inv db"
  obtains r db' where "freshPackageIdentity e p seen db = Inr (pk_id r, db')" and "catalog_inv db'"
    and "the_package e p db' = Some r" and "cg_versions db' = cg_versions db"
    and "pk_last_metadata_seen_at r = (case seen of None \<Rightarrow> Option.bind (the_package e p db) pk_last_metadata_seen_at
           | Some t \<Rightarrow> seen_at_least (Option.bind (the_package e p db) pk_last_metadata_seen_at) t)"
    and "pk_latest_package_version_id r = Option.bind (the_package e p db) pk_latest_package_version_id"
    and "\<And>e' p'. (e', p') \<noteq> (e, p) \<Longrightarrow> the_package e' p' db' = the_package e' p' db"
    and "latest_ok db \<Longrightarrow> latest_ok db'"
proof -
  obtain i uuids where d: "draw (cg_uuids db) = (i, uuids)" by fastforce
  let ?new = "\<lparr> pk_id = i, pk_ecosystem = e, pk_package = p, pk_latest_package_version_id = None, pk_last_metadata_seen_at = seen \<rparr>"
  have key: "package_key ?new = Some (e, p)" by (simp add: package_key_def)
  have this_row: "(\<lambda>r. pk_ecosystem r = e \<and> pk_package r = p) = (\<lambda>r. package_key r = Some (e, p))"
    by (auto simp: package_key_def)
  let ?rows = "if seen = None then (if list_ex (\<lambda>r. package_key r = Some (e, p)) (cg_packages db) then cg_packages db else cg_packages db @ [?new])
               else upsert_row package_key (package_merge ?new) ?new (cg_packages db)"
  have rows: "?rows = upsert_row package_key (package_merge ?new) ?new (cg_packages db)"
    using key by (auto simp: upsert_row_def package_merge_def map_idI)
  let ?r = "case the_package e p db of None \<Rightarrow> ?new | Some r \<Rightarrow> package_merge ?new r"
  let ?db = "db\<lparr> cg_packages := upsert_row package_key (package_merge ?new) ?new (cg_packages db), cg_uuids := uuids \<rparr>"
  have found: "the_package e p ?db = Some ?r"
    using packages.upsert_find [of ?new "(e, p)" "cg_packages db"] key by (simp add: the_package_def)
  show thesis
  proof
    show "freshPackageIdentity e p seen db = Inr (pk_id ?r, ?db)"
      using found unfolding freshPackageIdentity_def d first_row_def this_row Let_def the_package_def
      by (simp only: prod.case rows) simp
    show "catalog_inv ?db"
      using assms upsert_ids [OF _ d, of pk_id "cg_packages db" ?new "package_merge ?new" package_key]
      by (auto simp: catalog_inv_def packages.upsert_unique package_merge_def intro: draw_source [OF d] ids_ok_draw [OF d])
    show "the_package e' p' ?db = the_package e' p' db" if "(e', p') \<noteq> (e, p)" for e' p'
      using packages.upsert_find [of ?new "(e', p')" "cg_packages db"] key that by (auto simp: the_package_def)
    show "latest_ok ?db" if "latest_ok db"
      using that by (auto simp: latest_ok_iff upsert_row_def package_merge_def version_name_def split: if_splits)
  qed (use found in \<open>simp_all add: package_merge_def seen_at_least_def split: option.split\<close>)
qed

lemma fresh_version:
  assumes "catalog_inv db"
  obtains r db' where "freshPackageVersion pid v published seen used db = Inr (pv_id r, db')" and "catalog_inv db'"
    and "the_version pid v db' = Some r" and "cg_packages db' = cg_packages db"
    and "pv_published_at r = orelse published (Option.bind (the_version pid v db) pv_published_at)"
    and "\<And>pid' v'. (pid', v') \<noteq> (pid, v) \<Longrightarrow> the_version pid' v' db' = the_version pid' v' db"
    and "\<And>vid n. version_name db vid = Some n \<Longrightarrow> version_name db' vid = Some n"
proof -
  obtain i uuids where d: "draw (cg_uuids db) = (i, uuids)" by fastforce
  let ?new = "\<lparr> pv_id = i, pv_package_id = pid, pv_version = v, pv_version_kind = Version, pv_artifact_kind = Package_release,
    pv_display_role = Primary, pv_published_at = published, pv_last_metadata_seen_at = seen, pv_last_used_at = used \<rparr>"
  have key: "version_key ?new = Some (pid, v)" by (simp add: version_key_def)
  have this_row: "(\<lambda>r. pv_package_id r = pid \<and> pv_version r = v) = (\<lambda>r. version_key r = Some (pid, v))"
    by (auto simp: version_key_def)
  let ?r = "case the_version pid v db of None \<Rightarrow> ?new | Some r \<Rightarrow> version_merge ?new r"
  let ?db = "db\<lparr> cg_versions := upsert_row version_key (version_merge ?new) ?new (cg_versions db), cg_uuids := uuids \<rparr>"
  have found: "the_version pid v ?db = Some ?r"
    using package_versions.upsert_find [of ?new "(pid, v)" "cg_versions db"] key by (simp add: the_version_def)
  show thesis
  proof
    show "freshPackageVersion pid v published seen used db = Inr (pv_id ?r, ?db)"
      using found unfolding freshPackageVersion_def d first_row_def this_row Let_def the_version_def by simp
    show "catalog_inv ?db"
      using assms upsert_ids [OF _ d, of pv_id "cg_versions db" ?new "version_merge ?new" version_key]
      by (auto simp: catalog_inv_def package_versions.upsert_unique version_merge_def intro: draw_source [OF d] ids_ok_draw [OF d])
    show "the_version pid' v' ?db = the_version pid' v' db" if "(pid', v') \<noteq> (pid, v)" for pid' v'
      using package_versions.upsert_find [of ?new "(pid', v')" "cg_versions db"] key that by (auto simp: the_version_def)
    show "version_name ?db vid = Some n" if "version_name db vid = Some n" for vid n
      using that unfolding version_name_def
      by (auto intro!: upsert_find_id [where rid = pv_id and f = pv_version, simplified] simp: version_merge_def)
  qed (use found in \<open>simp_all add: version_merge_def orelse_def split: option.split\<close>)
qed

lemma ref_rest [simp]:
  "cg_packages (upsertPackageVersionRef x db) = cg_packages db" "cg_versions (upsertPackageVersionRef x db) = cg_versions db"
  by (simp_all add: upsertPackageVersionRef_def Let_def)

lemma refs_rest [simp]:
  "the_package e p (recordStableVersionRef a b c d t db) = the_package e p db"
  "the_package e p (recordLatestDistTagRef b c t db) = the_package e p db"
  "the_version e p (recordStableVersionRef a b c d t db) = the_version e p db"
  "the_version e p (recordLatestDistTagRef b c t db) = the_version e p db"
  "freshness (recordStableVersionRef a b c d t db) = freshness db" "freshness (recordLatestDistTagRef b c t db) = freshness db"
  "latest_ok (recordStableVersionRef a b c d t db) = latest_ok db" "latest_ok (recordLatestDistTagRef b c t db) = latest_ok db"
  unfolding the_package_def the_version_def recordStableVersionRef_def recordLatestDistTagRef_def freshness_def version_name_def
    latest_ok_def ref_rest by (rule refl)+

lemma refs_inv [simp]:
  "catalog_inv db \<Longrightarrow> catalog_inv (recordStableVersionRef a b c d t db)" "catalog_inv db \<Longrightarrow> catalog_inv (recordLatestDistTagRef b c t db)"
  by (simp_all add: recordStableVersionRef_def recordLatestDistTagRef_def upsert_ref_inv)

section \<open>Reports refine a map of observations\<close>

definition observed :: "ms \<Rightarrow> string \<Rightarrow> (ms option \<times> string option) option \<Rightarrow> ms option \<times> string option" where
  "observed t v known =
     (case known of None \<Rightarrow> (Some t, Some v)
      | Some (seen, latest) \<Rightarrow>
          (seen_at_least seen t, if (case seen of None \<Rightarrow> True | Some s \<Rightarrow> s \<le> t) then Some v else latest))"

lemma point_latest_package:
  assumes "catalog_inv db" and "the_package e p db = Some r" and "pk_id r = pid"
  shows "the_package e' p' (point_latest pid vid t db) =
     (if (e', p') = (e, p) \<and> (case pk_last_metadata_seen_at r of None \<Rightarrow> True | Some s \<Rightarrow> s \<le> t)
      then Some (r\<lparr> pk_latest_package_version_id := Some vid,
                    pk_last_metadata_seen_at := seen_at_least (pk_last_metadata_seen_at r) t \<rparr>)
      else the_package e' p' db)"
proof -
  let ?P = "\<lambda>p. pk_id p = pid \<and> (case pk_last_metadata_seen_at p of None \<Rightarrow> True | Some s \<Rightarrow> s \<le> t)"
  let ?h = "\<lambda>p. if ?P p then p\<lparr> pk_latest_package_version_id := Some vid,
                  pk_last_metadata_seen_at := seen_at_least (pk_last_metadata_seen_at p) t \<rparr> else p"
  have "package_key (?h p) = package_key p" for p by (simp add: package_key_def)
  then have moved: "the_package e' p' (point_latest pid vid t db) = map_option ?h (the_package e' p' db)"
    by (simp add: the_package_def point_latest_def update_where_def find_map_comp)
  have ids: "ids_ok pk_id (cg_uuids db) (cg_packages db)" using assms(1) by (simp add: catalog_inv_def)
  have own: "package_key q = Some (e, p)" if "the_package e' p' db = Some q" "pk_id q = pid" for q
    using ids_ok_inj [OF ids, of q r] that assms(2,3) by (auto simp: the_package_def dest!: find_SomeD)
  show ?thesis
  proof (cases "(e', p') = (e, p)")
    case True
    with assms moved show ?thesis by simp
  next
    case False
    then have "pk_id q \<noteq> pid" if "the_package e' p' db = Some q" for q
      using own [OF that] that by (auto simp: the_package_def dest!: find_SomeD)
    with False moved show ?thesis by (cases "the_package e' p' db") auto
  qed
qed

lemma point_latest_inv: "catalog_inv db \<Longrightarrow> catalog_inv (point_latest pid vid t db)"
  by (simp add: point_latest_def update_packages_inv package_key_def)

lemma latest_okD: "latest_ok db \<Longrightarrow> the_package e p db = Some r \<Longrightarrow> pk_latest_package_version_id r = Some vid \<Longrightarrow>
    \<exists>n. version_name db vid = Some n"
  by (auto simp: latest_ok_iff the_package_def dest!: find_SomeD)

lemma freshness_names:
  assumes "latest_ok db" and "the_package e p db' = the_package e p db"
    and "\<And>vid n. version_name db vid = Some n \<Longrightarrow> version_name db' vid = Some n"
  shows "freshness db' e p = freshness db e p"
proof (cases "the_package e p db")
  case (Some r)
  have "Option.bind (pk_latest_package_version_id r) (version_name db') = Option.bind (pk_latest_package_version_id r) (version_name db)"
    using latest_okD [OF assms(1) Some] assms(3) by (cases "pk_latest_package_version_id r") auto
  with Some assms(2) show ?thesis by (simp add: freshness_def)
qed (simp add: freshness_def assms(2))

lemma latest_ok_versions:
  assumes "latest_ok db" and "cg_packages db' = cg_packages db"
    and "\<And>vid n. version_name db vid = Some n \<Longrightarrow> version_name db' vid = Some n"
  shows "latest_ok db'"
  using assms(1) unfolding latest_ok_iff assms(2) by (meson assms(3))

lemma the_version_name: "the_version pid v db = Some r \<Longrightarrow> catalog_inv db \<Longrightarrow> version_name db (pv_id r) = Some v"
  using ids_ok_inj [of pv_id "cg_uuids db" "cg_versions db" r]
  by (auto simp: the_version_def version_name_def catalog_inv_def version_key_def dest!: find_SomeD)
    (metis (mono_tags, lifting) find_SomeD find_NoneD not_None_eq)

lemma seen_at_least_again: "seen_at_least (seen_at_least s t) t = seen_at_least s t"
  by (simp add: seen_at_least_def split: option.split)

lemma record_latest_spec:
  assumes "catalog_inv db" and "latest_ok db"
  obtains r v db' where "record_latest e p version published t db = Inr (pk_id r, db')" and "catalog_inv db'" and "latest_ok db'"
    and "the_package e p db' = Some r" and "freshness db' e p = Some (observed t version (freshness db e p))"
    and "\<And>e' p'. (e', p') \<noteq> (e, p) \<Longrightarrow> freshness db' e' p' = freshness db e' p'"
    and "the_version (pk_id r) version db' = Some v"
    and "\<And>s. published = Some s \<Longrightarrow> pv_published_at v = Some s"
proof -
  obtain r db1 where 1: "freshPackageIdentity e p (Some t) db = Inr (pk_id r, db1)" "catalog_inv db1" "the_package e p db1 = Some r"
      "cg_versions db1 = cg_versions db"
      "pk_last_metadata_seen_at r = seen_at_least (Option.bind (the_package e p db) pk_last_metadata_seen_at) t"
      "pk_latest_package_version_id r = Option.bind (the_package e p db) pk_latest_package_version_id"
    and others1: "\<And>e' p'. (e', p') \<noteq> (e, p) \<Longrightarrow> the_package e' p' db1 = the_package e' p' db" and ok1: "latest_ok db1"
    using fresh_identity [OF assms(1), of e p "Some t"] assms(2) by (metis option.simps(5))
  obtain v db2 where 2: "freshPackageVersion (pk_id r) version published (Some t) None db1 = Inr (pv_id v, db2)" "catalog_inv db2"
      "the_version (pk_id r) version db2 = Some v" "cg_packages db2 = cg_packages db1"
      "pv_published_at v = orelse published (Option.bind (the_version (pk_id r) version db1) pv_published_at)"
    and names: "\<And>vid n. version_name db1 vid = Some n \<Longrightarrow> version_name db2 vid = Some n"
    using fresh_version [OF 1(2), of "pk_id r" version published "Some t" None] by metis
  have pkg2: "the_package e' p' db2 = the_package e' p' db1" for e' p' using 2(4) by (simp add: the_package_def)
  define db3 where "db3 = point_latest (pk_id r) (pv_id v) t db2"
  define older where "older = (case pk_last_metadata_seen_at r of None \<Rightarrow> True | Some s \<Rightarrow> s \<le> t)"
  let ?r = "if older then r\<lparr> pk_latest_package_version_id := Some (pv_id v),
      pk_last_metadata_seen_at := seen_at_least (pk_last_metadata_seen_at r) t \<rparr> else r"
  have pkg3: "the_package e' p' db3 = (if (e', p') = (e, p) then Some ?r else the_package e' p' db1)" for e' p'
    unfolding db3_def older_def using point_latest_package [OF 2(2), of e p r, OF _ refl] pkg2 1(3) by simp
  have name3: "version_name db3 = version_name db2" by (simp add: db3_def point_latest_def version_name_def fun_eq_iff)
  have ver3: "the_version pid n db3 = the_version pid n db2" for pid n by (simp add: db3_def point_latest_def the_version_def)
  have name_v: "version_name db2 (pv_id v) = Some version" by (rule the_version_name [OF 2(3,2)])
  have ok2: "latest_ok db2" by (rule latest_ok_versions [OF ok1 2(4) names])
  have inv3: "catalog_inv db3" unfolding db3_def by (rule point_latest_inv [OF 2(2)])
  have ok3: "latest_ok db3"
    using ok2 name_v unfolding latest_ok_iff name3 by (auto simp: db3_def point_latest_def update_where_def)
  have fresh1: "freshness db2 e' p' = freshness db1 e' p'" for e' p' by (rule freshness_names [OF ok1 pkg2 names])
  have keep: "freshness db3 e' p' = freshness db e' p'" if "(e', p') \<noteq> (e, p)" for e' p'
  proof -
    have "version_name db1 = version_name db" using 1(4) by (simp add: version_name_def fun_eq_iff)
    with others1 [OF that] have "freshness db1 e' p' = freshness db e' p'" by (simp add: freshness_def)
    with fresh1 [of e' p'] pkg3 [of e' p'] pkg2 [of e' p'] that show ?thesis by (auto simp: freshness_def name3)
  qed
  have own: "freshness db3 e p = Some (observed t version (freshness db e p))"
  proof (cases "the_package e p db")
    case None
    with 1(5) have "older" by (simp add: older_def seen_at_least_def)
    with None 1(5) show ?thesis by (simp add: freshness_def pkg3 name3 name_v observed_def seen_at_least_def)
  next
    case (Some r0)
    have older: "older \<longleftrightarrow> (case pk_last_metadata_seen_at r0 of None \<Rightarrow> True | Some s \<Rightarrow> s \<le> t)"
      using 1(5) Some by (auto simp: older_def seen_at_least_def split: option.split)
    have "Option.bind (pk_latest_package_version_id r0) (version_name db2) = Option.bind (pk_latest_package_version_id r0) (version_name db)"
      using latest_okD [OF assms(2) Some] names 1(4) by (cases "pk_latest_package_version_id r0") (auto simp: version_name_def)
    with Some 1(5,6) show ?thesis
      by (simp add: freshness_def pkg3 name3 name_v observed_def seen_at_least_again older del: option.case_eq_if)
  qed
  let ?db = "recordLatestDistTagRef (pk_id r) (pv_id v) t (recordStableVersionRef e (pk_id r) (pv_id v) version t db3)"
  show thesis
  proof (rule that [of ?r ?db v])
    show "record_latest e p version published t db = Inr (pk_id ?r, ?db)"
      by (simp add: record_latest_def ensureLatestVersion_def 1(1) 2(1) db3_def)
    show "pv_published_at v = Some s" if "published = Some s" for s using 2(5) that by (simp add: orelse_def)
  qed (use inv3 ok3 pkg3 own keep ver3 2(3) in simp_all)
qed

lemma record_used_spec:
  assumes "catalog_inv db" and "latest_ok db"
  obtains v db' where "record_used e pid version published t db = Inr db'" and "catalog_inv db'" and "latest_ok db'"
    and "freshness db' = freshness db" and "\<And>e' p'. the_package e' p' db' = the_package e' p' db"
    and "the_version pid version db' = Some v" and "\<And>s. published = Some s \<Longrightarrow> pv_published_at v = Some s"
proof -
  obtain v db1 where 1: "freshPackageVersion pid version published None (Some t) db = Inr (pv_id v, db1)" "catalog_inv db1"
      "the_version pid version db1 = Some v" "cg_packages db1 = cg_packages db"
      "pv_published_at v = orelse published (Option.bind (the_version pid version db) pv_published_at)"
    and names: "\<And>vid n. version_name db vid = Some n \<Longrightarrow> version_name db1 vid = Some n"
    using fresh_version [OF assms(1), of pid version published None "Some t"] by metis
  have pkg: "the_package e' p' db1 = the_package e' p' db" for e' p' using 1(4) by (simp add: the_package_def)
  show thesis
  proof (rule that [of "recordStableVersionRef e pid (pv_id v) version t db1" v])
    show "freshness (recordStableVersionRef e pid (pv_id v) version t db1) = freshness db"
      using freshness_names [OF assms(2) pkg names] by (simp add: fun_eq_iff)
    show "pv_published_at v = Some s" if "published = Some s" for s using 1(5) that by (simp add: orelse_def)
  qed (use 1 pkg latest_ok_versions [OF assms(2) 1(4) names] in \<open>simp_all add: record_used_def\<close>)
qed

datatype report = Latest latest_metadata | Used used_metadata

fun persist_report :: "(string \<Rightarrow> ms option) \<Rightarrow> report \<Rightarrow> catalog_db \<Rightarrow> js_error + catalog_db" where
  "persist_report parse_date (Latest msg) db = persistPackageLatestMetadata parse_date msg db"
| "persist_report parse_date (Used msg) db = persistPackageUsedVersionMetadata parse_date msg db"

text \<open>
  What a report says: which package it is about, and the time and the version when it names the
  latest one. A report that names no version, or has no time, says nothing.
\<close>

definition accepted :: "package_identity \<Rightarrow> bool" where
  "accepted i = (pi_ecosystem i \<noteq> [] \<and> pi_package i \<noteq> [] \<and> present (pi_version i))"

fun report_identity :: "report \<Rightarrow> package_identity" where
  "report_identity (Latest msg) = reported_identity (lm_ecosystem msg) (lm_package msg) (lm_latest_version msg)"
| "report_identity (Used msg) = reported_identity (um_ecosystem msg) (um_package msg) (um_used_version msg)"

fun report_latest :: "report \<Rightarrow> string option" where
  "report_latest (Latest msg) = Some (lm_latest_version msg)"
| "report_latest (Used msg) = opt_or_null (um_latest_version msg)"

fun report_time :: "(string \<Rightarrow> ms option) \<Rightarrow> report \<Rightarrow> ms option" where
  "report_time parse_date (Latest msg) = parse_date (lm_observed_at msg)"
| "report_time parse_date (Used msg) = parse_date (um_observed_at msg)"

fun report_published :: "(string \<Rightarrow> ms option) \<Rightarrow> report \<Rightarrow> ms option" where
  "report_published parse_date (Latest msg) = parseTimestamp parse_date (lm_latest_published_at msg)"
| "report_published parse_date (Used msg) = parseTimestamp parse_date (um_used_version_published_at msg)"

definition says ::
    "(string \<Rightarrow> ms option) \<Rightarrow> report \<Rightarrow> string \<Rightarrow> string \<Rightarrow> (ms \<times> string option) option" where
  "says parse_date r e p =
     (let i = report_identity r;
          latest = map_option canonicalizePackageVersion (report_latest r)
      in if accepted i \<and> latest \<noteq> Some [] \<and> (e, p) = (pi_ecosystem i, pi_package i)
         then map_option (\<lambda>t. (t, latest)) (report_time parse_date r) else None)"

definition noted :: "(ms \<times> string option) option \<Rightarrow> (ms option \<times> string option) option \<Rightarrow> (ms option \<times> string option) option" where
  "noted said known =
     (case said of None \<Rightarrow> known
      | Some (t, None) \<Rightarrow> Some (default (None, None) known)
      | Some (t, Some v) \<Rightarrow> Some (observed t v known))"

lemma reported_identity_simps [simp]:
  "pi_ecosystem (reported_identity e p v) = canonicalizeEcosystem e"
  "pi_package (reported_identity e p v) = canonicalizePackageName (canonicalizeEcosystem e) p"
  "pi_version (reported_identity e p v) = (if canonicalizePackageVersion v = [] then None else Some (canonicalizePackageVersion v))"
  by (simp_all add: reported_identity_def canonicalizePackageIdentity_def canonicalizeOptionalPackageVersion_def Let_def default_def)

lemma fresh_identity_freshness:
  assumes "catalog_inv db" and "latest_ok db"
  obtains r db' where "freshPackageIdentity e p None db = Inr (pk_id r, db')" and "catalog_inv db'" and "latest_ok db'"
    and "the_package e p db' = Some r" and "freshness db' e p = Some (default (None, None) (freshness db e p))"
    and "\<And>e' p'. (e', p') \<noteq> (e, p) \<Longrightarrow> freshness db' e' p' = freshness db e' p'"
proof -
  obtain r db' where 1: "freshPackageIdentity e p None db = Inr (pk_id r, db')" "catalog_inv db'" "the_package e p db' = Some r"
      "cg_versions db' = cg_versions db"
      "pk_last_metadata_seen_at r = Option.bind (the_package e p db) pk_last_metadata_seen_at"
      "pk_latest_package_version_id r = Option.bind (the_package e p db) pk_latest_package_version_id"
    and others: "\<And>e' p'. (e', p') \<noteq> (e, p) \<Longrightarrow> the_package e' p' db' = the_package e' p' db" and ok: "latest_ok db'"
    using fresh_identity [OF assms(1), of e p None] assms(2) by (metis option.simps(4))
  have names: "version_name db' = version_name db" using 1(4) by (simp add: version_name_def fun_eq_iff)
  show thesis
  proof (rule that [OF 1(1,2) ok 1(3)])
    show "freshness db' e p = Some (default (None, None) (freshness db e p))"
      using 1(3,5,6) by (cases "the_package e p db") (simp_all add: freshness_def names default_def)
  qed (simp add: freshness_def names others)
qed

text \<open>A version and its package in the tables, with the time of its publication.\<close>

definition published :: "package_identity \<Rightarrow> ms \<Rightarrow> catalog_db \<Rightarrow> bool" where
  "published i s db \<longleftrightarrow>
     (\<exists>q v. the_package (pi_ecosystem i) (pi_package i) db = Some q \<and>
        the_version (pk_id q) (the (pi_version i)) db = Some v \<and> pv_published_at v = Some s)"

lemma persist_latest_spec:
  assumes "catalog_inv db" and "latest_ok db"
  obtains db' where "persistPackageLatestMetadata parse_date msg db = Inr db'" and "catalog_inv db'" and "latest_ok db'"
    and "\<And>e p. freshness db' e p = noted (says parse_date (Latest msg) e p) (freshness db e p)"
    and "\<And>s. \<lbrakk>says parse_date (Latest msg) (pi_ecosystem (report_identity (Latest msg))) (pi_package (report_identity (Latest msg))) \<noteq> None;
       report_published parse_date (Latest msg) = Some s\<rbrakk> \<Longrightarrow> published (report_identity (Latest msg)) s db'"
proof -
  let ?i = "report_identity (Latest msg)"
  show thesis
  proof (cases "accepted ?i \<and> parse_date (lm_observed_at msg) \<noteq> None")
    case False
    show thesis
      by (rule that [of db]) (use assms False in \<open>auto simp: persistPackageLatestMetadata_def parseRequiredTimestamp_def accepted_def says_def noted_def
          Let_def split: option.splits if_splits\<close>)
  next
    case True
    then obtain t where t: "parse_date (lm_observed_at msg) = Some t" and v: "pi_version ?i = Some (canonicalizePackageVersion (lm_latest_version msg))"
      "canonicalizePackageVersion (lm_latest_version msg) \<noteq> []" by (auto simp: accepted_def present_def split: if_splits)
    have said: "says parse_date (Latest msg) e p =
        (if (e, p) = (pi_ecosystem ?i, pi_package ?i) then Some (t, pi_version ?i) else None)" for e p
      using True v t by (simp add: says_def Let_def)
    obtain r w db' where 1: "record_latest (pi_ecosystem ?i) (pi_package ?i) (the (pi_version ?i)) (report_published parse_date (Latest msg)) t db =
          Inr (pk_id r, db')" "catalog_inv db'" "latest_ok db'" "the_package (pi_ecosystem ?i) (pi_package ?i) db' = Some r"
        "freshness db' (pi_ecosystem ?i) (pi_package ?i) = Some (observed t (the (pi_version ?i)) (freshness db (pi_ecosystem ?i) (pi_package ?i)))"
        "\<And>e' p'. (e', p') \<noteq> (pi_ecosystem ?i, pi_package ?i) \<Longrightarrow> freshness db' e' p' = freshness db e' p'"
        "the_version (pk_id r) (the (pi_version ?i)) db' = Some w"
        "\<And>s. report_published parse_date (Latest msg) = Some s \<Longrightarrow> pv_published_at w = Some s"
      using record_latest_spec [OF assms, of "pi_ecosystem ?i" "pi_package ?i" "the (pi_version ?i)" "report_published parse_date (Latest msg)" t] by metis
    show thesis
    proof (rule that [OF _ 1(2,3)])
      show "persistPackageLatestMetadata parse_date msg db = Inr db'"
        using True 1(1) t by (simp add: persistPackageLatestMetadata_def accepted_def Let_def parseRequiredTimestamp_def)
      show "freshness db' e p = noted (says parse_date (Latest msg) e p) (freshness db e p)" for e p
        using 1(5) 1(6) [of e p] v by (auto simp: said noted_def)
      show "published ?i s db'" if "report_published parse_date (Latest msg) = Some s" for s
        unfolding published_def using 1(4,7) 1(8) [OF that] by blast
    qed
  qed
qed

definition named_latest :: "string \<Rightarrow> string \<Rightarrow> string option \<Rightarrow> package_identity option" where
  "named_latest e p latest = (if present latest then Some (reported_identity e p (the latest)) else None)"

lemma used_package_spec:
  assumes "catalog_inv db" and "latest_ok db" and "present latest \<longrightarrow> canonicalizePackageVersion (the latest) \<noteq> []"
    and "pi_ecosystem i = canonicalizeEcosystem e" and "pi_package i = canonicalizePackageName (canonicalizeEcosystem e) p"
  shows "\<exists>r db'. used_package i (named_latest e p latest) pub t db = Inr (pk_id r, db') \<and> catalog_inv db' \<and> latest_ok db' \<and>
     the_package (pi_ecosystem i) (pi_package i) db' = Some r \<and>
     (\<forall>e' p'. freshness db' e' p' =
       noted (if (e', p') = (pi_ecosystem i, pi_package i)
              then Some (t, map_option canonicalizePackageVersion (opt_or_null latest)) else None) (freshness db e' p'))"
proof (cases "present latest")
  case True
  let ?e = "pi_ecosystem i" and ?p = "pi_package i" and ?v = "canonicalizePackageVersion (the latest)"
  obtain r db' where 1: "record_latest ?e ?p ?v pub t db = Inr (pk_id r, db')" "catalog_inv db'" "latest_ok db'" "the_package ?e ?p db' = Some r"
      "freshness db' ?e ?p = Some (observed t ?v (freshness db ?e ?p))"
      "\<And>e' p'. (e', p') \<noteq> (?e, ?p) \<Longrightarrow> freshness db' e' p' = freshness db e' p'"
    using record_latest_spec [OF assms(1,2), of ?e ?p ?v pub t] by metis
  have latest: "opt_or_null latest = Some (the latest)" using True by (cases latest) (simp_all add: opt_or_null_def present_def)
  have "freshness db' e' p' = noted (if (e', p') = (?e, ?p) then Some (t, map_option canonicalizePackageVersion (opt_or_null latest)) else None)
        (freshness db e' p')" for e' p'
    using 1(5) 1(6) [of e' p'] by (auto simp: latest noted_def)
  with 1(1-4) True assms(3-5) show ?thesis by (simp add: used_package_def named_latest_def)
next
  case False
  let ?e = "pi_ecosystem i" and ?p = "pi_package i"
  obtain r db' where 1: "freshPackageIdentity ?e ?p None db = Inr (pk_id r, db')" "catalog_inv db'" "latest_ok db'" "the_package ?e ?p db' = Some r"
      "freshness db' ?e ?p = Some (default (None, None) (freshness db ?e ?p))"
      "\<And>e' p'. (e', p') \<noteq> (?e, ?p) \<Longrightarrow> freshness db' e' p' = freshness db e' p'"
    using fresh_identity_freshness [OF assms(1,2), of ?e ?p] by metis
  have "freshness db' e' p' = noted (if (e', p') = (?e, ?p) then Some (t, map_option canonicalizePackageVersion (opt_or_null latest)) else None)
        (freshness db e' p')" for e' p'
    using False 1(5) 1(6) [of e' p'] by (auto simp: opt_or_null_def noted_def)
  with 1(1-4) False show ?thesis by (simp add: used_package_def named_latest_def)
qed

lemma persist_used_spec:
  assumes "catalog_inv db" and "latest_ok db"
  obtains db' where "persistPackageUsedVersionMetadata parse_date msg db = Inr db'" and "catalog_inv db'" and "latest_ok db'"
    and "\<And>e p. freshness db' e p = noted (says parse_date (Used msg) e p) (freshness db e p)"
    and "\<And>s. \<lbrakk>says parse_date (Used msg) (pi_ecosystem (report_identity (Used msg))) (pi_package (report_identity (Used msg))) \<noteq> None;
       report_published parse_date (Used msg) = Some s\<rbrakk> \<Longrightarrow> published (report_identity (Used msg)) s db'"
proof -
  let ?i = "report_identity (Used msg)"
  let ?ok = "present (um_latest_version msg) \<longrightarrow> canonicalizePackageVersion (the (um_latest_version msg)) \<noteq> []"
  have valid: "map_option canonicalizePackageVersion (opt_or_null (um_latest_version msg)) \<noteq> Some [] \<longleftrightarrow> ?ok"
    by (cases "um_latest_version msg") (simp_all add: opt_or_null_def present_def)
  show thesis
  proof (cases "accepted ?i \<and> parse_date (um_observed_at msg) \<noteq> None \<and> ?ok")
    case False
    show thesis
      by (rule that [of db]) (use assms False valid in \<open>auto simp: persistPackageUsedVersionMetadata_def parseRequiredTimestamp_def accepted_def
          says_def noted_def present_def Let_def split: option.splits if_splits\<close>)
  next
    case True
    then obtain t where t: "parse_date (um_observed_at msg) = Some t" by auto
    have said: "says parse_date (Used msg) e p = (if (e, p) = (pi_ecosystem ?i, pi_package ?i)
        then Some (t, map_option canonicalizePackageVersion (opt_or_null (um_latest_version msg))) else None)" for e p
      using True valid t by (auto simp: says_def Let_def)
    let ?latest = "named_latest (um_ecosystem msg) (um_package msg) (um_latest_version msg)"
    from used_package_spec [OF assms, of "um_latest_version msg" ?i "um_ecosystem msg" "um_package msg"
        "parseTimestamp parse_date (um_latest_published_at msg)" t] True
    obtain r db1 where 1: "used_package ?i ?latest (parseTimestamp parse_date (um_latest_published_at msg)) t db = Inr (pk_id r, db1)"
      "catalog_inv db1" "latest_ok db1" "the_package (pi_ecosystem ?i) (pi_package ?i) db1 = Some r"
      and fresh: "\<And>e' p'. freshness db1 e' p' = noted (says parse_date (Used msg) e' p') (freshness db e' p')"
      unfolding said by auto
    obtain w db' where 2: "record_used (pi_ecosystem ?i) (pk_id r) (the (pi_version ?i)) (report_published parse_date (Used msg)) t db1 = Inr db'"
      "catalog_inv db'" "latest_ok db'" "freshness db' = freshness db1" "\<And>e' p'. the_package e' p' db' = the_package e' p' db1"
      "the_version (pk_id r) (the (pi_version ?i)) db' = Some w"
      "\<And>s. report_published parse_date (Used msg) = Some s \<Longrightarrow> pv_published_at w = Some s"
      using record_used_spec [OF 1(2,3), of "pi_ecosystem ?i" "pk_id r" "the (pi_version ?i)" "report_published parse_date (Used msg)" t] by metis
    show thesis
    proof (rule that [OF _ 2(2,3)])
      have rejected: "\<not> (case ?latest of None \<Rightarrow> False | Some l \<Rightarrow> \<not> present (pi_version l))"
        using True by (auto simp: present_def named_latest_def)
      show "persistPackageUsedVersionMetadata parse_date msg db = Inr db'"
        using True 1(1) 2(1) t rejected
        by (simp add: persistPackageUsedVersionMetadata_def accepted_def Let_def parseRequiredTimestamp_def named_latest_def)
      show "published ?i s db'" if "report_published parse_date (Used msg) = Some s" for s
        unfolding published_def using 1(4) 2(5,6) 2(7) [OF that] by auto
    qed (simp add: 2(4) fresh)
  qed
qed

lemma persist_report_spec:
  assumes "catalog_inv db" and "latest_ok db"
  obtains db' where "persist_report parse_date r db = Inr db'" and "catalog_inv db'" and "latest_ok db'"
    and "\<And>e p. freshness db' e p = noted (says parse_date r e p) (freshness db e p)"
    and "\<And>s. \<lbrakk>says parse_date r (pi_ecosystem (report_identity r)) (pi_package (report_identity r)) \<noteq> None;
       report_published parse_date r = Some s\<rbrakk> \<Longrightarrow> published (report_identity r) s db'"
proof (cases r)
  case (Latest msg)
  then show thesis using persist_latest_spec [OF assms, of parse_date msg] that by (metis persist_report.simps(1))
next
  case (Used msg)
  then show thesis using persist_used_spec [OF assms, of parse_date msg] that by (metis persist_report.simps(2))
qed

section \<open>Reports in any order\<close>

fun persist_reports :: "(string \<Rightarrow> ms option) \<Rightarrow> report list \<Rightarrow> catalog_db \<Rightarrow> js_error + catalog_db" where
  "persist_reports parse_date [] db = Inr db"
| "persist_reports parse_date (r # rs) db = sum_bind (persist_report parse_date r db) (persist_reports parse_date rs)"

lemma persist_reports_spec:
  assumes "catalog_inv db" and "latest_ok db"
  shows "\<exists>db'. persist_reports parse_date rs db = Inr db' \<and> catalog_inv db' \<and> latest_ok db' \<and>
     (\<forall>e p. freshness db' e p = fold (\<lambda>r. noted (says parse_date r e p)) rs (freshness db e p))"
  using assms
proof (induction rs arbitrary: db)
  case (Cons r rs)
  obtain db1 where 1: "persist_report parse_date r db = Inr db1" "catalog_inv db1" "latest_ok db1"
      "\<And>e p. freshness db1 e p = noted (says parse_date r e p) (freshness db e p)"
    using persist_report_spec [OF Cons.prems, of parse_date r] by metis
  from Cons.IH [OF 1(2,3)] show ?case by (simp add: 1(1,4))
qed simp

lemma noted_commute:
  assumes "\<And>t v t' v'. said = Some (t, Some v) \<Longrightarrow> said' = Some (t', Some v') \<Longrightarrow> t \<noteq> t'"
  shows "noted said (noted said' k) = noted said' (noted said k)"
  using assms
  by (auto simp: noted_def observed_def seen_at_least_def default_def max_def split: option.splits prod.splits)

text \<open>
  C38: Reports about packages converge. However the reports of the proxies are ordered when they arrive,
  each of them is stored, and as long as no two of them name the latest version of a package for the same
  time, the catalog shows for every package the same time of the last observation and the same latest version:
  those that follow from the reports by the map of observations alone, in which an observation made earlier
  than the one known never replaces the latest version.
\<close>

theorem reports_converge:
  assumes "catalog_inv db" and "latest_ok db" and "mset rs = mset rs'"
    and "\<And>r r' e p t v t' v'. \<lbrakk>r \<in> set rs; r' \<in> set rs; r \<noteq> r'; says parse_date r e p = Some (t, Some v);
           says parse_date r' e p = Some (t', Some v')\<rbrakk> \<Longrightarrow> t \<noteq> t'"
  shows "\<exists>db1 db2. persist_reports parse_date rs db = Inr db1 \<and> persist_reports parse_date rs' db = Inr db2 \<and>
     freshness db1 = freshness db2 \<and>
     freshness db1 = (\<lambda>e p. fold (\<lambda>r. noted (says parse_date r e p)) rs (freshness db e p)) \<and>
     catalog_inv db1 \<and> latest_ok db1"
proof -
  obtain db1 db2 where runs: "persist_reports parse_date rs db = Inr db1" "persist_reports parse_date rs' db = Inr db2"
      "catalog_inv db1" "latest_ok db1"
    and fresh: "\<And>e p. freshness db1 e p = fold (\<lambda>r. noted (says parse_date r e p)) rs (freshness db e p)"
      "\<And>e p. freshness db2 e p = fold (\<lambda>r. noted (says parse_date r e p)) rs' (freshness db e p)"
    using persist_reports_spec [OF assms(1,2)] by metis
  have "fold (\<lambda>r. noted (says parse_date r e p)) rs = fold (\<lambda>r. noted (says parse_date r e p)) rs'" for e p
  proof (rule fold_multiset_equiv [OF _ assms(3)])
    fix r r' assume rr: "r \<in> set rs" "r' \<in> set rs"
    have "noted (says parse_date r e p) (noted (says parse_date r' e p) k) = noted (says parse_date r' e p) (noted (says parse_date r e p) k)" for k
    proof (cases "r = r'")
      case False
      show ?thesis by (rule noted_commute) (rule assms(4) [OF rr False])
    qed simp
    then show "noted (says parse_date r e p) \<circ> noted (says parse_date r' e p) = noted (says parse_date r' e p) \<circ> noted (says parse_date r e p)"
      by (simp add: comp_def)
  qed
  then have "freshness db1 = freshness db2" by (simp only: fun_eq_iff fresh simp_thms)
  moreover have "freshness db1 = (\<lambda>e p. fold (\<lambda>r. noted (says parse_date r e p)) rs (freshness db e p))"
    by (intro ext) (rule fresh(1))
  ultimately show ?thesis using runs by blast
qed

section \<open>The age of a version\<close>

lemma find_unique: "x \<in> set xs \<Longrightarrow> P x \<Longrightarrow> (\<And>y. y \<in> set xs \<Longrightarrow> P y \<Longrightarrow> y = x) \<Longrightarrow> find P xs = Some x"
  by (metis find_SomeD find_NoneD not_None_eq)

lemma published_version:
  assumes "catalog_inv db" and "published i s db" and "pi_version i = Some v"
  obtains w q where "version_of_identity i db = Some (w, q)" and "pv_published_at w = Some s"
proof -
  obtain q w where q: "the_package (pi_ecosystem i) (pi_package i) db = Some q" and w: "the_version (pk_id q) v db = Some w"
    and s: "pv_published_at w = Some s" using assms(2,3) by (auto simp: published_def)
  note q' = find_SomeD [OF q [unfolded the_package_def]] and w' = find_SomeD [OF w [unfolded the_version_def]]
  have keys: "unique_key package_key (cg_packages db)" "unique_key version_key (cg_versions db)"
    using assms(1) by (simp_all add: catalog_inv_def)
  have "version_of_identity i db = Some (w, q)"
    unfolding version_of_identity_def
  proof (rule find_unique)
    show "(w, q) \<in> set (concat (map (\<lambda>v. map (Pair v) (filter (\<lambda>p. pk_id p = pv_package_id v) (cg_packages db))) (cg_versions db)))"
      using q' w' by (auto simp: version_key_def intro!: bexI [of _ w])
    fix y assume y: "y \<in> set (concat (map (\<lambda>v. map (Pair v) (filter (\<lambda>p. pk_id p = pv_package_id v) (cg_packages db))) (cg_versions db)))"
      and P: "case y of (v, p) \<Rightarrow> pk_ecosystem p = pi_ecosystem i \<and> pk_package p = pi_package i \<and> Some (pv_version v) = pi_version i"
    then obtain w2 q2 where y2: "y = (w2, q2)" "w2 \<in> set (cg_versions db)" "q2 \<in> set (cg_packages db)" "pk_id q2 = pv_package_id w2" by auto
    with P q' have "q2 = q" by (intro unique_key_inj [OF keys(1)]) (auto simp: package_key_def)
    with P y2 w' assms(3) have "w2 = w" by (intro unique_key_inj [OF keys(2)]) (auto simp: version_key_def)
    with \<open>q2 = q\<close> y2(1) show "y = (w, q)" by simp
  qed (use q' w' assms(3) in \<open>auto simp: package_key_def version_key_def\<close>)
  with s show thesis by (rule that [rotated]) 
qed

text \<open>
  A report that tells when a version was published gives a later check of that version its age: the
  days since that time, and none for a time in the future.
\<close>

theorem reported_age:
  assumes "catalog_inv db" and "latest_ok db" and "request_identity req = report_identity r"
    and "says parse_date r (pi_ecosystem (report_identity r)) (pi_package (report_identity r)) \<noteq> None"
    and "report_published parse_date r = Some s"
  obtains db' where "persist_report parse_date r db = Inr db'"
    and "ac_versionAgeDays (loadPackageReleaseContext now req db') = Some (max 0 (of_int (now - s) / 86400000))"
proof -
  obtain db' where 1: "persist_report parse_date r db = Inr db'" "catalog_inv db'" "published (report_identity r) s db'"
    using persist_report_spec [OF assms(1,2), of parse_date r] assms(4,5) by metis
  have acc: "accepted (report_identity r)" using assms(4) by (auto simp: says_def Let_def split: if_splits)
  then obtain v where v: "pi_version (report_identity r) = Some v" by (auto simp: accepted_def present_def split: option.splits)
  obtain w q where "version_of_identity (report_identity r) db' = Some (w, q)" "pv_published_at w = Some s"
    using published_version [OF 1(2,3) v] by metis
  with acc v assms(3) have "ac_versionAgeDays (loadPackageReleaseContext now req db') = Some (max 0 (of_int (now - s) / 86400000))"
    by (simp add: loadPackageReleaseContext_def Let_def ageDays_def accepted_def)
  with 1(1) show thesis by (rule that)
qed

section \<open>Witnesses\<close>

definition sample_dates :: "string \<Rightarrow> ms option" where
  "sample_dates s = (if s = ''five'' then Some 5 else if s = ''nine'' then Some 9 else None)"

definition sample_report :: "string \<Rightarrow> string \<Rightarrow> report" where
  "sample_report version time =
     Latest \<lparr> lm_ecosystem = ''npm'', lm_package = ''left-pad'', lm_latest_version = version,
              lm_latest_published_at = Some ''five'', lm_observed_at = time \<rparr>"

lemma sample_says:
  "says sample_dates (sample_report ''1.3.0'' ''nine'') e p = (if e = ''npm'' \<and> p = ''left-pad'' then Some (9, Some ''1.3.0'') else None)"
  "says sample_dates (sample_report ''1.2.0'' ''five'') e p = (if e = ''npm'' \<and> p = ''left-pad'' then Some (5, Some ''1.2.0'') else None)"
proof -
  have c: "canonicalizeEcosystem ''npm'' = ''npm''" "canonicalizePackageName ''npm'' ''left-pad'' = ''left-pad''"
    "canonicalizePackageVersion ''1.3.0'' = ''1.3.0''" "canonicalizePackageVersion ''1.2.0'' = ''1.2.0''" by code_simp+
  show "says sample_dates (sample_report ''1.3.0'' ''nine'') e p = (if e = ''npm'' \<and> p = ''left-pad'' then Some (9, Some ''1.3.0'') else None)"
    and "says sample_dates (sample_report ''1.2.0'' ''five'') e p = (if e = ''npm'' \<and> p = ''left-pad'' then Some (5, Some ''1.2.0'') else None)"
    by (auto simp: says_def sample_report_def Let_def c accepted_def present_def sample_dates_def)
qed

lemma sample_latest_ok: "latest_ok sample_catalog"
  by (simp add: latest_ok_def sample_catalog_def)

theorem reports_converge_witness:
  "\<exists>db1 db2. persist_reports sample_dates [sample_report ''1.3.0'' ''nine'', sample_report ''1.2.0'' ''five''] sample_catalog = Inr db1 \<and>
     persist_reports sample_dates [sample_report ''1.2.0'' ''five'', sample_report ''1.3.0'' ''nine''] sample_catalog = Inr db2 \<and>
     freshness db1 = freshness db2 \<and> freshness db1 ''npm'' ''left-pad'' = Some (Some 9, Some ''1.3.0'')"
proof -
  let ?a = "sample_report ''1.3.0'' ''nine''" and ?b = "sample_report ''1.2.0'' ''five''"
  have "freshness sample_catalog ''npm'' ''left-pad'' = None" by (simp add: freshness_def the_package_def sample_catalog_def)
  then have latest: "fold (\<lambda>r. noted (says sample_dates r ''npm'' ''left-pad'')) [?a, ?b] (freshness sample_catalog ''npm'' ''left-pad'') = Some (Some 9, Some ''1.3.0'')"
    by (simp add: sample_says noted_def observed_def seen_at_least_def)
  have "t \<noteq> t'" if "r \<in> set [?a, ?b]" "r' \<in> set [?a, ?b]" "r \<noteq> r'" "says sample_dates r e p = Some (t, Some v)"
      "says sample_dates r' e p = Some (t', Some v')" for r r' e p t v t' v'
    using that by (auto simp: sample_says split: if_splits)
  then have run: "\<exists>db1 db2. persist_reports sample_dates [?a, ?b] sample_catalog = Inr db1 \<and> persist_reports sample_dates [?b, ?a] sample_catalog = Inr db2 \<and>
     freshness db1 = freshness db2 \<and>
     freshness db1 = (\<lambda>e p. fold (\<lambda>r. noted (says sample_dates r e p)) [?a, ?b] (freshness sample_catalog e p)) \<and> catalog_inv db1 \<and> latest_ok db1"
    by (intro reports_converge [OF sample_catalog_inv sample_latest_ok]) auto
  have "freshness db1 ''npm'' ''left-pad'' = Some (Some 9, Some ''1.3.0'')"
    if "freshness db1 = (\<lambda>e p. fold (\<lambda>r. noted (says sample_dates r e p)) [?a, ?b] (freshness sample_catalog e p))" for db1
    unfolding that by (rule latest)
  with run show ?thesis by blast
qed

end
