(* ===== verification/Suppressions.thy ===== *)
theory Suppressions
  imports Check Policy_Authoring
begin

text \<open>
  Suppression of violations, \<open>features/violation-suppressions\<close>: the routes that create, delete and list
  suppressions, over the stores of the check that reads them. Proved: a suppression never changes the
  answer of a check; one that names the package and the version marks the violations of later checks as
  suppressed, and deleting it ends that; the routes touch the rows of the tenant of the caller only.
  Shown as what it is: a suppression of a whole package, which the routes accept, suppresses nothing.

  \<open>is_datetime\<close> is the schema \<open>z.string().datetime()\<close>. The display of the actors is left out.
\<close>

section \<open>The routes\<close>

record suppression_body =
  sb_project_id :: "string option"
  sb_package_id :: "string option"
  sb_package_version_id :: "string option"
  sb_rule_key :: "string option"
  sb_reason :: "string option"
  sb_expires_at :: "string option"

definition createSuppressionSchema :: "(string \<Rightarrow> bool) \<Rightarrow> (string \<Rightarrow> bool) \<Rightarrow> suppression_body \<Rightarrow> bool" where
  "createSuppressionSchema is_uuid is_datetime b =
     (optional is_uuid (sb_project_id b) \<and> optional is_uuid (sb_package_id b) \<and>
      optional is_uuid (sb_package_version_id b) \<and> optional is_uuid (sb_rule_key b) \<and>
      optional is_datetime (sb_expires_at b) \<and> (present (sb_package_id b) \<or> present (sb_package_version_id b)))"

abbreviation "ck_catalog db \<equiv> ig_catalog (kd_ingest (ck_connectors db))"

definition set_suppressions :: "suppression_row list \<Rightarrow> check_db \<Rightarrow> check_db" where
  "set_suppressions rows db = db\<lparr> ck_evaluations := (ck_evaluations db)\<lparr> ve_suppressions := rows \<rparr> \<rparr>"

text \<open>
  The insert: the date is converted first, which throws when it is none; the foreign keys require
  the package and the version to be in the catalog.
\<close>

definition insert_suppression ::
    "(string \<Rightarrow> ms option) \<Rightarrow> ms \<Rightarrow> auth_context \<Rightarrow> suppression_body \<Rightarrow> check_db \<Rightarrow> js_error + (suppression_row \<times> check_db)" where
  "insert_suppression parse_date now auth body db =
     (if present (sb_expires_at body) \<and> parse_date (the (sb_expires_at body)) = None then Inl (AppError ''Invalid time value'')
      else if \<not> optional (\<lambda>i. list_ex (\<lambda>p. pk_id p = i) (cg_packages (ck_catalog db))) (sb_package_id body)
      then Inl (AppError ''violation_suppressions_package_id_packages_id_fk'')
      else if \<not> optional (\<lambda>i. list_ex (\<lambda>v. pv_id v = i) (cg_versions (ck_catalog db))) (sb_package_version_id body)
      then Inl (AppError ''vs_pkg_ver_fk'')
      else
        let (rowId, uuids) = draw (ve_uuids (ck_evaluations db));
            row = \<lparr> sp_id = rowId, sp_tenant_id = au_tenantId auth, sp_project_id = sb_project_id body,
                    sp_package_id = sb_package_id body, sp_package_version_id = sb_package_version_id body,
                    sp_rule_key = sb_rule_key body,
                    sp_expires_at = (if present (sb_expires_at body) then parse_date (the (sb_expires_at body)) else None),
                    sp_suppressed_at = now, sp_suppressed_by_user_id = Some (au_userId auth),
                    sp_created_by_user_id = Some (au_userId auth), sp_reason = sb_reason body \<rparr>
        in Inr (row, db\<lparr> ck_evaluations := (ck_evaluations db)\<lparr>
             ve_suppressions := ve_suppressions (ck_evaluations db) @ [row], ve_uuids := uuids \<rparr> \<rparr>))"

definition createSuppressionRoute ::
    "(string \<Rightarrow> bool) \<Rightarrow> (string \<Rightarrow> bool) \<Rightarrow> (string \<Rightarrow> ms option) \<Rightarrow> ms \<Rightarrow> auth_context \<Rightarrow> suppression_body \<Rightarrow> check_db \<Rightarrow>
     (suppression_row \<times> check_db) http_result" where
  "createSuppressionRoute is_uuid is_datetime parse_date now auth body db =
     (if \<not> createSuppressionSchema is_uuid is_datetime body then invalid_body
      else sum_bind (requireTenantCapability auth ''violations.write'' ''Access denied'') (\<lambda>_.
        if present (sb_project_id body) \<and>
           current_project (the (sb_project_id body)) (au_tenantId auth) (tn_projects (ck_tenancy db)) = None
        then errorResult 404 ''NOT_FOUND'' ''Project not found'' (sb_project_id body)
        else service_call (insert_suppression parse_date now auth body db)))"

definition loadSuppressionForTenant :: "string \<Rightarrow> string \<Rightarrow> check_db \<Rightarrow> suppression_row option" where
  "loadSuppressionForTenant i tenantId db =
     first_row (\<lambda>s. sp_id s = i \<and> sp_tenant_id s = tenantId) (ve_suppressions (ck_evaluations db))"

definition deleteSuppressionRoute ::
    "(string \<Rightarrow> bool) \<Rightarrow> auth_context \<Rightarrow> string \<Rightarrow> check_db \<Rightarrow> check_db http_result" where
  "deleteSuppressionRoute is_uuid auth param db =
     sum_bind (validateUuidParam is_uuid ''Suppression ID'' param) (\<lambda>i.
     sum_bind (requireTenantCapability auth ''violations.write'' ''Access denied'') (\<lambda>_.
       case loadSuppressionForTenant i (au_tenantId auth) db of
         None \<Rightarrow> errorResult 404 ''NOT_FOUND'' ''Suppression not found'' (Some i)
       | Some _ \<Rightarrow> Inr (set_suppressions
           (filter (\<lambda>s. \<not> (sp_id s = i \<and> sp_tenant_id s = au_tenantId auth)) (ve_suppressions (ck_evaluations db))) db)))"

definition listProjectViolationSuppressions :: "string \<Rightarrow> string \<Rightarrow> check_db \<Rightarrow> suppression_row list" where
  "listProjectViolationSuppressions projectId tenantId db =
     sort_key (\<lambda>s. - sp_suppressed_at s)
       (filter (\<lambda>s. sp_tenant_id s = tenantId \<and> (sp_project_id s = Some projectId \<or> sp_project_id s = None))
         (ve_suppressions (ck_evaluations db)))"

definition listTenantViolationSuppressions :: "string \<Rightarrow> check_db \<Rightarrow> suppression_row list" where
  "listTenantViolationSuppressions tenantId db =
     sort_key (\<lambda>s. - sp_suppressed_at s) (filter (\<lambda>s. sp_tenant_id s = tenantId) (ve_suppressions (ck_evaluations db)))"

definition projectSuppressionsRoute ::
    "(string \<Rightarrow> bool) \<Rightarrow> auth_context \<Rightarrow> string \<Rightarrow> check_db \<Rightarrow> suppression_row list http_result" where
  "projectSuppressionsRoute is_uuid auth param db =
     sum_bind (requireTenantCapability auth ''violations.read_project'' ''Access denied'') (\<lambda>_.
     sum_bind (requireProjectAccess is_uuid auth True param (tn_projects (ck_tenancy db)) (tn_members (ck_tenancy db)))
       (\<lambda>(projectId, _). Inr (listProjectViolationSuppressions projectId (au_tenantId auth) db)))"

definition tenantSuppressionsRoute ::
    "(string \<Rightarrow> bool) \<Rightarrow> auth_context \<Rightarrow> string \<Rightarrow> check_db \<Rightarrow> suppression_row list http_result" where
  "tenantSuppressionsRoute is_uuid auth param db =
     sum_bind (requireTenantCapabilityAccess is_uuid auth ''violations.read_tenant'' ''Access denied'' param) (\<lambda>tenantId.
       Inr (listTenantViolationSuppressions tenantId db))"

section \<open>A check does not depend on suppressions\<close>

lemma context_evaluations:
  "loadCheckContext env proxy req (db\<lparr> ck_evaluations := x \<rparr>) =
     (fst (loadCheckContext env proxy req db), (snd (loadCheckContext env proxy req db))\<lparr> ck_evaluations := x \<rparr>)"
  by (simp add: loadCheckContext_def Let_def split: option.split)

lemma catalog_request_evaluations:
  "catalog_request env req (db\<lparr> ck_evaluations := x \<rparr>) =
     (fst (catalog_request env req db), (snd (catalog_request env req db))\<lparr> ck_evaluations := x \<rparr>)"
  by (simp add: catalog_request_def set_catalog_def Let_def case_prod_beta)

lemma policy_check_evaluations:
  "fst (policy_check env proxy ctx req connectors ai snapshot (db\<lparr> ck_evaluations := x \<rparr>)) =
   fst (policy_check env proxy ctx req connectors ai snapshot db)"
  by (simp add: policy_check_def Let_def split: sum.split prod.split)

lemma checkEntitled_evaluations:
  "fst (checkEntitled env proxy ctx req connectors ai (db\<lparr> ck_evaluations := x \<rparr>)) =
   fst (checkEntitled env proxy ctx req connectors ai db)"
  by (simp add: checkEntitled_def metadata_check_def no_policy_check_def policy_check_evaluations Let_def case_prod_beta)

lemma handleCheck_evaluations:
  "fst (handleCheck env proxy req connectors (db\<lparr> ck_evaluations := x \<rparr>)) = fst (handleCheck env proxy req connectors db)"
  by (simp add: handleCheck_def context_evaluations catalog_request_evaluations checkEntitled_evaluations Let_def case_prod_beta
      split: option.split prod.split)

section \<open>What a suppression does\<close>

lemma created_suppression:
  assumes "createSuppressionRoute is_uuid is_datetime parse_date now auth body db = Inr (row, db')"
  obtains u where "draw (ve_uuids (ck_evaluations db)) = (sp_id row, u)"
    and "db' = db\<lparr> ck_evaluations := (ck_evaluations db)\<lparr> ve_suppressions := ve_suppressions (ck_evaluations db) @ [row], ve_uuids := u \<rparr> \<rparr>"
    and "sp_tenant_id row = au_tenantId auth" and "sp_project_id row = sb_project_id body" and "sp_package_id row = sb_package_id body"
    and "sp_package_version_id row = sb_package_version_id body" and "sp_rule_key row = sb_rule_key body"
proof -
  have ins: "insert_suppression parse_date now auth body db = Inr (row, db')"
    using assms by (auto simp: createSuppressionRoute_def invalid_body_def errorResult_def sum_bind_Inr_iff split: if_splits)
  obtain x u where d: "draw (ve_uuids (ck_evaluations db)) = (x, u)" by fastforce
  show thesis
    by (rule that [of u]) (use ins d in \<open>simp_all add: insert_suppression_def Let_def split: if_splits\<close>, (auto)?)
qed

lemma matching_exists:
  assumes "s \<in> set suppressed" and "sp_project_id s \<in> {None, Some (vw_project_id v)}" and "sp_rule_key s \<in> {None, Some (cv_rule_key v)}"
  shows "write_status suppressed v = ''suppressed''"
proof -
  have "matchingSuppression suppressed v \<noteq> None"
    using assms find_NoneD [of _ suppressed s] unfolding matchingSuppression_def by blast
  then show ?thesis by (simp add: write_status_def)
qed

text \<open>
  C40: A suppression hides violations and never lets a download pass. Once a suppression of a package
  version has been created, no check is answered otherwise than before; but when the evaluation of a later check
  is recorded, before the suppression expires and for a project and a rule it covers, the violation stands in the
  table as suppressed, with the blocked flag of the decision.
\<close>

theorem suppression_effective:
  assumes "createSuppressionRoute is_uuid is_datetime parse_date now auth body db = Inr (row, db')"
    and "evaluation_ok (ck_evaluations db)" and "eo_tenant_id opts = au_tenantId auth"
    and "ai_package_id (eo_artifactIdentity opts) = sb_package_id body"
    and "ai_package_version_id (eo_artifactIdentity opts) = sb_package_version_id body"
    and "case sp_expires_at row of None \<Rightarrow> True | Some e \<Rightarrow> t < e"
    and "\<forall>c \<in> set (ve_occurrences (ck_evaluations db)). vo_evaluation_id c \<noteq> eid"
    and "\<forall>w \<in> set vs. vw_evaluation_id w = eid" and "distinct (map cv_policy_rule_binding_id vs)" and "v \<in> set vs"
    and "sb_project_id body \<in> {None, Some (vw_project_id v)}" and "sb_rule_key body \<in> {None, Some (cv_rule_key v)}"
  shows "fst (handleCheck env proxy req connectors db') = fst (handleCheck env proxy req connectors db) \<and>
     (\<exists>r \<in> set (ve_violations (recordPolicyEvaluationWithViolations t opts snapshot vs fdb (ck_evaluations db'))).
        active_key r = Some (write_index (eo_artifactIdentity opts) v) \<and> vi_status r = ''suppressed'' \<and> vi_blocked r = cv_blocked v)"
proof -
  obtain u where d: "draw (ve_uuids (ck_evaluations db)) = (sp_id row, u)"
    and db': "db' = db\<lparr> ck_evaluations := (ck_evaluations db)\<lparr> ve_suppressions := ve_suppressions (ck_evaluations db) @ [row], ve_uuids := u \<rparr> \<rparr>"
    and row: "sp_tenant_id row = au_tenantId auth" "sp_project_id row = sb_project_id body" "sp_package_id row = sb_package_id body"
      "sp_package_version_id row = sb_package_version_id body" "sp_rule_key row = sb_rule_key body"
    by (rule created_suppression [OF assms(1)])
  have "row \<in> set (active_suppressions (ck_evaluations db') opts t)"
    using assms(3-6) row by (simp add: active_suppressions_def db')
  then have status: "write_status (active_suppressions (ck_evaluations db') opts t) v = ''suppressed''"
    by (rule matching_exists) (simp_all only: row assms(11,12))
  have ok: "evaluation_ok (ck_evaluations db')"
    using assms(2) draw_source [OF d] ids_ok_draw [OF d, of vi_id "ve_violations (ck_evaluations db)"] by (simp add: evaluation_ok_def db')
  have fresh: "\<forall>c \<in> set (ve_occurrences (ck_evaluations db')). vo_evaluation_id c \<noteq> eid" using assms(7) by (simp add: db')
  from evaluation_transaction_spec [OF ok fresh assms(8,9), of t opts snapshot fdb] obtain x where
    run: "evaluation_transaction t opts snapshot vs fdb (ck_evaluations db') = Inr x"
      "\<forall>w \<in> set vs. on_record (eo_artifactIdentity opts) (active_suppressions (ck_evaluations db') opts t) x w" by blast
  from run(2) assms(10) have "on_record (eo_artifactIdentity opts) (active_suppressions (ck_evaluations db') opts t) x v" by blast
  then have "\<exists>r \<in> set (ve_violations x). active_key r = Some (write_index (eo_artifactIdentity opts) v) \<and> vi_status r = ''suppressed'' \<and> vi_blocked r = cv_blocked v"
    unfolding on_record_def status by blast
  moreover have "recordPolicyEvaluationWithViolations t opts snapshot vs fdb (ck_evaluations db') = x"
    by (simp add: recordPolicyEvaluationWithViolations_def run(1))
  moreover have "fst (handleCheck env proxy req connectors db') = fst (handleCheck env proxy req connectors db)"
    by (simp add: db' handleCheck_evaluations)
  ultimately show ?thesis by simp
qed

text \<open>
  The routes accept a suppression of a whole package, or of a version without its package. The check compares
  both columns, so that such a suppression covers no request for a version in the catalog.
\<close>

theorem partial_suppression_ineffective:
  assumes "createSuppressionRoute is_uuid is_datetime parse_date now auth body db = Inr (row, db')"
    and "sb_package_id body = None \<or> sb_package_version_id body = None"
    and "ai_package_id (eo_artifactIdentity opts) \<noteq> None" and "ai_package_version_id (eo_artifactIdentity opts) \<noteq> None"
  shows "active_suppressions (ck_evaluations db') opts t = active_suppressions (ck_evaluations db) opts t"
proof -
  obtain u where db': "db' = db\<lparr> ck_evaluations := (ck_evaluations db)\<lparr> ve_suppressions := ve_suppressions (ck_evaluations db) @ [row], ve_uuids := u \<rparr> \<rparr>"
    and row: "sp_package_id row = sb_package_id body" "sp_package_version_id row = sb_package_version_id body"
    using created_suppression [OF assms(1)] by metis
  show ?thesis using assms(2-4) row by (auto simp: active_suppressions_def db')
qed

text \<open>Deleting touches the rows of the tenant of the caller only, and ends what the suppression did.\<close>

theorem deletion_isolated:
  assumes "deleteSuppressionRoute is_uuid auth param db = Inr db'"
  shows "filter (\<lambda>s. sp_tenant_id s \<noteq> au_tenantId auth) (ve_suppressions (ck_evaluations db')) =
           filter (\<lambda>s. sp_tenant_id s \<noteq> au_tenantId auth) (ve_suppressions (ck_evaluations db)) \<and>
     loadSuppressionForTenant param (au_tenantId auth) db' = None \<and>
     fst (handleCheck env proxy req connectors db') = fst (handleCheck env proxy req connectors db)"
proof -
  from assms have "db' = set_suppressions (filter (\<lambda>s. \<not> (sp_id s = param \<and> sp_tenant_id s = au_tenantId auth))
      (ve_suppressions (ck_evaluations db))) db"
    by (auto simp: deleteSuppressionRoute_def validateUuidParam_def errorResult_def sum_bind_Inr_iff split: if_splits option.splits)
  then show ?thesis
    by (auto simp: set_suppressions_def handleCheck_evaluations loadSuppressionForTenant_def first_row_def find_filter
        intro!: filter_cong split: list.split)
qed

section \<open>Witness\<close>

definition left_pad_body :: suppression_body where
  "left_pad_body =
     \<lparr> sb_project_id = None, sb_package_id = Some (pk_id sample_package), sb_package_version_id = Some (pv_id (sample_release (hd sample_versions))), sb_rule_key = None,
       sb_reason = Some ''reviewed'', sb_expires_at = None \<rparr>"

definition left_pad_opts :: evaluation_opts where
  "left_pad_opts = sample_opts\<lparr> eo_artifactIdentity := sample_identity\<lparr> ai_package_id := sb_package_id left_pad_body,
     ai_package_version_id := sb_package_version_id left_pad_body \<rparr> \<rparr>"

definition suppressed_db :: check_db where
  "suppressed_db = (case createSuppressionRoute (\<lambda>_. True) (\<lambda>_. True) (\<lambda>_. None) 6 sample_auth left_pad_body (sample_check_db ''enforcing'') of
     Inr (row, db') \<Rightarrow> db' | Inl _ \<Rightarrow> sample_check_db ''enforcing'')"

lemma left_pad_suppressed:
  "map_option sp_expires_at (case createSuppressionRoute (\<lambda>_. True) (\<lambda>_. True) (\<lambda>_. None) 6 sample_auth left_pad_body (sample_check_db ''enforcing'') of
     Inr (row, db') \<Rightarrow> Some row | Inl _ \<Rightarrow> None) = Some None"
  by code_simp

theorem suppression_effective_witness:
  "fst (handleCheck sample_env sample_proxy sample_check_request [] suppressed_db) =
     fst (handleCheck sample_env sample_proxy sample_check_request [] (sample_check_db ''enforcing'')) \<and>
   (\<exists>r \<in> set (ve_violations (recordPolicyEvaluationWithViolations 7 left_pad_opts sample_policy_snapshot
        (violations_for_write ''t1'' ''p1'' ''k1'' ''e1'' 7 sample_violations) empty_findings (ck_evaluations suppressed_db))).
      vi_status r = ''suppressed'')"
proof -
  let ?c = "violations_for_write ''t1'' ''p1'' ''k1'' ''e1'' 7 sample_violations"
  let ?run = "createSuppressionRoute (\<lambda>_. True) (\<lambda>_. True) (\<lambda>_. None) 6 sample_auth left_pad_body (sample_check_db ''enforcing'')"
  obtain row where run: "?run = Inr (row, suppressed_db)" and never: "sp_expires_at row = None"
    using left_pad_suppressed by (cases ?run) (auto simp: suppressed_db_def)
  have c: "hd ?c \<in> set ?c" "\<forall>w \<in> set ?c. vw_evaluation_id w = ''e1''" "distinct (map cv_policy_rule_binding_id ?c)"
    by (simp_all add: violations_for_write_def sample_violations_def)
  show ?thesis
    using suppression_effective [OF run _ _ _ _ _ _ c(2,3,1), of left_pad_opts 7 sample_env sample_proxy sample_check_request "[]" sample_policy_snapshot empty_findings]
      never empty_evaluations_ok
    by (auto simp: sample_check_db_def left_pad_opts_def sample_opts_def sample_auth_def left_pad_body_def empty_evaluations_def)
qed

end
