(* ===== verification/Spec2Isabelle.thy ===== *)
theory Spec2Isabelle
  imports Decision Findings Connector_Cache OSV Contributor Intelligence Catalog Event_Stream Sign_In
    Field_Catalog Freshness Policy_Preview Suppressions
begin

text \<open>
  A verification development of the control-plane API of depCustoms, \<open>services/api/src\<close>. Paths
  below are relative to that directory.

  \<^bold>\<open>The program.\<close> Proxies stand between package managers and package registries. Before a proxy lets a
  download pass it asks the control plane, which decides by the policies of the tenant, on fields that
  connectors (vulnerabilities, contributor risk, name similarity) supply. The API keeps tenants,
  projects, members, tokens, proxies, policies, the package catalog, connector results, findings,
  violations and usage in PostgreSQL, and streams events to a dashboard. The parts are in the order of
  their dependencies.

  \<^bold>\<open>Language and storage.\<close>
  \<^item> \<open>JS_Core\<close>: the part of ECMAScript the code uses. A JSON value is a \<open>jsval\<close>, an object an ordered
    association list, a finite number the rational it denotes, a string a list of code units, a
    time the milliseconds since the epoch.
  \<^item> \<open>Tables\<close>: a table is the list of its rows. The locale \<open>upserting\<close> is the contract of
    \<open>insert ... on conflict do update\<close>, the locale \<open>versioning\<close> that of tables in which a change closes the
    current row and inserts its successor. Every table that is written in one of these ways interprets
    the locale (\<open>Effective_Policy\<close>, \<open>Findings\<close>, \<open>Connector_Cache\<close>, \<open>Registry\<close>, \<open>Catalog\<close>,
    \<open>Contributor_Facts\<close>, \<open>Connector_Sync\<close>, \<open>Violations\<close>, \<open>Usage\<close>, \<open>Freshness\<close>), and uniqueness of keys, and what a
    lookup finds after a write, come from there.

  \<^bold>\<open>The decision.\<close>
  \<^item> \<open>Expression\<close> (\<open>policy/expression.ts\<close>): condition trees, decoded from JSON by the type guards of the
    code. The plain and the traced evaluation agree, and with the meaning of the tree.
  \<^item> \<open>Policy_Schema\<close>, \<open>Effective_Policy\<close> (\<open>db/schema/policies.ts\<close>, \<open>policy/effective.ts\<close>): which rules are in
    force for a project, in which order and mode. The loader is shown to return exactly the rules of the
    bindings in force.
  \<^item> \<open>Resolver\<close> (\<open>policy/resolver.ts\<close>): the field map of a request.
  \<^item> \<open>Decision\<close> (\<open>evaluatePolicyDecision\<close> of \<open>connect/check-service.ts\<close>): the loop over the rules, shown to
    implement a declarative specification: which violations there are, which of them blocks, which error ends it.
  \<^item> \<open>Identity\<close>, \<open>Catalog\<close> (\<open>features/packages/identity.ts\<close>, \<open>artifact-identity.ts\<close>,
    \<open>catalog-references.ts\<close>): canonical package identities and their rows in the catalog.
  \<^item> \<open>Freshness\<close> (\<open>features/package-freshness/service.ts\<close>): what proxies report about releases. The latest version of
    a package is the one observed last, in whatever order the reports arrive, and a check computes the age of a
    version from the publication reported.

  \<^bold>\<open>The connectors.\<close>
  \<^item> \<open>Connector_Types\<close>, \<open>Registry\<close> (\<open>connectors/types.ts\<close>, \<open>events.ts\<close>, \<open>registry.ts\<close>): the interface of a connector as a record; the
    locale \<open>snapshot_provider\<close> is what policy evaluation relies on.
  \<^item> \<open>Field_Catalog\<close> (\<open>features/field-catalog\<close>): the fields and operators the editor offers, which are those the
    resolver and the expression engine have.
  \<^item> \<open>OSV\<close>, \<open>Contributor\<close>, \<open>Intelligence\<close> (\<open>connectors/osv\<close>, \<open>contributor\<close>, \<open>intelligence\<close>): the three
    connectors, each an interpretation of \<open>snapshot_provider\<close>; \<open>Contributor_Facts\<close>
    (\<open>features/contributors/ingestion-service.ts\<close>): the facts the second one reads.
  \<^item> \<open>Connector_Cache\<close>, \<open>Findings\<close> (\<open>connectors/cache.ts\<close>, \<open>features/security/project-findings.ts\<close>): stored
    results and the findings of projects. What is stored is what is read until it expires; findings follow the latest result.
  \<^item> \<open>Connector_Evaluation\<close>, \<open>Connector_Fields\<close>, \<open>Connector_Sync\<close> (\<open>connect/check-service.ts\<close>,
    \<open>features/security/connector-sync-service.ts\<close>): how requests, late answers, warming, prefetching
    and synchronization use these stores. The locale \<open>evaluated_connector\<close> extends \<open>snapshot_provider\<close>
    and is interpreted for the three connectors; the invariant of the stores is proved over a step relation,
    for every order of the operations.

  \<^bold>\<open>The check and what it leaves.\<close>
  \<^item> \<open>Violations\<close>: evaluations, violations and their evidence, with the unique indexes of the tables.
  \<^item> \<open>Check\<close> (\<open>handleCheck\<close>): the whole handler over all stores. An allowed request has passed every step;
    every request is answered; what was decided is on record.
  \<^item> \<open>Suppressions\<close> (\<open>features/violation-suppressions\<close>): a suppression marks violations and never changes the
    answer of a check.
  \<^item> \<open>Usage\<close> (\<open>connect/record-usage-service.ts\<close>, \<open>features/packages\<close>): attribution of what proxies
    report, and counters that agree with their rebuild.
  \<^item> \<open>Event_Stream\<close> (\<open>routes/sse.ts\<close>, \<open>features/sse\<close>, \<open>sse/subscription-manager.ts\<close>): the streams as a step
    relation; a stream carries only events its user may read.

  \<^bold>\<open>Administration and authentication.\<close>
  \<^item> \<open>Access_Control\<close> (\<open>middleware/rbac.ts\<close>, \<open>http/guards.ts\<close>): roles, capabilities and guards.
  \<^item> \<open>Project_Tokens\<close> (\<open>features/tokens\<close>, \<open>features/projects\<close>): issue, rotation and revocation of tokens. A
    token authorizes its project, and never again after its revocation.
  \<^item> \<open>Policy_Authoring\<close> (\<open>features/policies\<close>, \<open>features/rules\<close>, \<open>features/policy-assignments\<close>): versioned
    policies, rules and bindings. The handlers keep the history and the shape of rules, and a rule added
    is in force afterwards.
  \<^item> \<open>Policy_Preview\<close> (\<open>features/policy-preview\<close>): the previews of the editor, which decide as a check does on
    the fields they show.
  \<^item> \<open>Tenant_Access\<close> (\<open>features/tenants\<close>, \<open>auth/admin-service.ts\<close>): members, grants and entitlements, and what
    they mean for guards and checks.
  \<^item> \<open>Proxies\<close> (\<open>features/proxies\<close>, \<open>features/internal-proxy-auth\<close>, \<open>auth/proxy-jwt.ts\<close>,
    \<open>connect/proxy-auth.ts\<close>): registration, secrets with their grace period, the exchange for runtime tokens.
  \<^item> \<open>Provisioning\<close> (\<open>bootstrap\<close>): the policies of a new tenant and the initialization of an installation.
  \<^item> \<open>Sign_In\<close> (\<open>features/internal-auth-hook\<close>, \<open>middleware/auth.ts\<close>, \<open>auth/jwt-verifier.ts\<close>): the webhook of
    the identity service, the tenants and claims of a user, and the session they give.

  This theory composes \<open>Provisioning\<close>, \<open>Policy_Authoring\<close>, \<open>Effective_Policy\<close>, the connectors and
  \<open>Check\<close>: where the starter policies are in force, no check lets a download pass that they forbid.

  \<^bold>\<open>Conventions.\<close> A handler is a function from the state it touches to its answer and the new state, guards
  and early returns in the order of the code. An exception is a value of a sum type; where the code runs
  in a transaction the state is then the old one, and the answer is what the error handler makes of it.
  One clock value \<open>now\<close> serves one request. \<open>effective_to = infinity\<close> is \<open>None\<close>. Unique indexes and
  check constraints that the code depends on are part of the tables. A query without an order takes the order, or the row
  it picks, as a parameter (\<open>arrange\<close>, \<open>pick\<close>). Identifiers and secrets are drawn from a stream, which is
  part of the state, so that they are fresh by construction and not by assumption on chance.

  \<^bold>\<open>Parameters.\<close> Code outside the repository is an argument of the definitions: SHA-256 and HMAC, the
  signing and verification of tokens, base64, the reading of URLs, dates and JSON, the version library,
  the string schemas of the validation library, the casts of PostgreSQL, the identity service, the
  services behind the connectors and how long they take. Properties that need a law of one of them
  state it as a hypothesis, and their witnesses instantiate it.

  \<^bold>\<open>Loops.\<close> All loops are structural or have a measure, except the one that reads the pages of the
  identity service: it is a \<open>partial_function\<close>, shown to return when the service tells a total or ends with a
  short page. No definition has fuel.

  \<^bold>\<open>Not modelled.\<close> The dashboard, the proxy (Go) and the intelligence service (Python) are other
  programs. Read-only lists and statistics, the MCP tools, the OAuth and bootstrap status pages, the presentation of findings, logging, metrics,
  configuration and the wiring of routes are left out: they do not write to the tables above. Work that the code starts without waiting for it runs to its end in the
  check; other interleavings of requests are modelled where a step relation says so. Strings beyond code
  unit 255 are not represented.
\<close>

section \<open>The starter rules guard the downloads of a tenant\<close>

lemma leaf_condition_value:
  "evaluateCondition (leaf_condition field operator v) fm = Inr (evaluateLeaf (field_value fm (JStr field)) (JStr operator) v)"
  by (simp add: evaluateCondition_def leaf_condition_def decode_condition.simps is_all_def is_any_def is_not_def is_leaf_def has_key_def obj_get_def)

abbreviation starter_rules :: "rule_template list" where
  "starter_rules \<equiv> [cooling_rule, osv_unavailable_rule, critical_rule, high_rule, contributor_rule]"

lemma starter_rule_defined: "rt \<in> set starter_rules \<Longrightarrow> \<exists>d \<in> set STARTER_POLICY_DEFINITIONS. rt \<in> set (pt_rules d)"
  by (simp add: STARTER_POLICY_DEFINITIONS_def starter_policy_def)

lemma starter_rule_action:
  "\<forall>rt \<in> set starter_rules. obj_get (rt_action rt) ''type'' = JStr ''violation'' \<and> obj_get (rt_action rt) ''enforcement_mode'' = JStr ''enforcing''"
  by code_simp

lemma starter_conditions:
  "rt_condition cooling_rule = leaf_condition ''asset.version_age_days'' ''lt'' (JNum 7)"
  "rt_condition osv_unavailable_rule =
     leaf_condition ''source.osv._meta.status'' ''in'' (JArr [JStr ''background_pending'', JStr ''unavailable'', JStr ''error''])"
  "rt_condition critical_rule = leaf_condition ''source.osv.critical_count'' ''gt'' (JNum 0)"
  "rt_condition high_rule = leaf_condition ''source.osv.high_count'' ''gt'' (JNum 0)"
  "rt_condition contributor_rule = leaf_condition ''source.contributor.contributor_risk_score'' ''gte'' (JNum 80)"
  by (simp_all add: cooling_rule_def osv_unavailable_rule_def critical_rule_def high_rule_def contributor_rule_def starter_rule_def)

text \<open>A rule of the starter definitions in force blocks where its condition holds.\<close>

lemma starter_rule_respected:
  assumes "starters_in_force (ck_policies db) (ce_now env) (tk_tenant_id t) (tk_project_id t)"
    and "\<forall>r \<in> set (check_rules env t db). \<not> (evaluateCondition (rr_condition r) fm = Inr True \<and>
           action_type r = JStr ''violation'' \<and> rr_effectiveEnforcementMode r = JStr ''enforcing'')"
    and "rt \<in> set starter_rules"
  shows "evaluateCondition (rt_condition rt) fm \<noteq> Inr True"
proof -
  from starter_rule_defined [OF assms(3)] obtain d where d: "d \<in> set STARTER_POLICY_DEFINITIONS" "rt \<in> set (pt_rules d)" by blast
  with assms(1) have "template_in_force (ck_policies db) (ce_now env) (tk_tenant_id t) (tk_project_id t) d rt"
    unfolding starters_in_force_def by blast
  then obtain r where r: "r \<in> set (check_rules env t db)" "rr_condition r = rt_condition rt" "rr_action r = rt_action rt"
      "rr_effectiveEnforcementMode r = coalesce (obj_get (rt_action rt) ''enforcement_mode'') (JStr (pt_enforcement_mode d))"
    unfolding template_in_force_def check_rules_def by blast
  from starter_rule_action assms(3) have "obj_get (rt_action rt) ''type'' = JStr ''violation''"
    "obj_get (rt_action rt) ''enforcement_mode'' = JStr ''enforcing''" by blast+
  with r(3,4) have "action_type r = JStr ''violation''" "rr_effectiveEnforcementMode r = JStr ''enforcing''"
    by (simp_all add: action_type_def coalesce_def)
  with assms(2) r(1,2) show ?thesis by metis
qed

lemma leaf_values:
  "evaluateLeaf (JNum n) (JStr ''gt'') (JNum b) = (b < n)" "evaluateLeaf (JNum n) (JStr ''gte'') (JNum b) = (b \<le> n)"
  "evaluateLeaf (JNum n) (JStr ''lt'') (JNum b) = (n < b)"
  "evaluateLeaf (JStr s) (JStr ''in'') (JArr (map JStr ss)) = (s \<in> set ss)"
  by (auto simp: evaluateLeaf_def js_less_def js_less_eq_def to_primitive_def Let_def arr_includes_def list_ex_iff)

lemma field_value_present: "obj_get fm f = JNum n \<Longrightarrow> field_value fm (JStr f) = JNum n" "obj_get fm f = JStr s \<Longrightarrow> field_value fm (JStr f) = JStr s"
  by (simp_all add: field_value_def coalesce_def)


subsection \<open>A concrete download\<close>

text \<open>The part of a check before the policy: the context, the identity and the fields of the connectors.\<close>

definition collected ::
    "check_env \<Rightarrow> proxy_context \<Rightarrow> check_request \<Rightarrow> connector list \<Rightarrow> check_db \<Rightarrow> (check_context \<times> artifact_identity \<times> field_map) option" where
  "collected env proxy req connectors db =
     (case loadCheckContext env proxy req db of
        (None, db0) \<Rightarrow> None
      | (Some ctx, db0) \<Rightarrow>
          (case catalog_request env req db0 of (ai, db1) \<Rightarrow>
             if cc_entitledEcosystems ctx \<noteq> None \<or> cq_version (normalized_request ai req) = [] then None
             else (case collectConnectorEvaluationFields (ce_fetch_ms env) (ce_prefetch_first env) (ce_connectorEventId env) (ce_now env)
                       (ce_parse_date env) (ce_json_parse env) (ce_contributor env) (normalized_request ai req) connectors
                       (cc_tenantId ctx) (cc_projectId ctx) ai (ck_connectors db1) of
                     Inl err \<Rightarrow> None
                   | Inr (meta, fm, k) \<Rightarrow> Some (ctx, ai, fm))))"

lemma collected_policies: "collected env proxy req connectors (db\<lparr> ck_policies := pdb \<rparr>) = collected env proxy req connectors db"
  by (simp add: collected_def loadCheckContext_def catalog_request_def set_catalog_def Let_def split: option.split prod.split)

lemma collected_check:
  assumes "collected env proxy req connectors db = Some (ctx, ai, fm)"
    and rules: "rules = ps_allRules (loadEffectivePolicy (ck_policies db) (ce_now env) (cc_tenantId ctx) (cc_projectId ctx))"
    and "rules \<noteq> []" and "list_all rule_ok rules" and silent: "\<forall>r \<in> set rules. evaluateCondition (rr_condition r) fm \<noteq> Inr True"
  shows "ai = check_identity env proxy req db \<and>
    (\<exists>oc db'. handleCheck env proxy req connectors db = (Inr oc, db') \<and> oc_decision oc = ALLOW \<and> oc_reason oc = ''allowed'' \<and>
       oc_tenant_id oc = cc_tenantId ctx \<and> oc_project_id oc = cc_projectId ctx)"
proof -
  obtain r db0 where load: "loadCheckContext env proxy req db = (r, db0)" by (cases "loadCheckContext env proxy req db")
  obtain ai' db1 where cat: "catalog_request env req db0 = (ai', db1)" by (cases "catalog_request env req db0")
  from assms(1) have r: "r = Some ctx" and ai': "ai' = ai" and plan: "cc_entitledEcosystems ctx = None" and version: "default [] (ai_version ai) \<noteq> []"
    by (auto simp: collected_def load cat split: option.splits if_splits sum.splits)
  with assms(1) obtain meta k where c: "collectConnectorEvaluationFields (ce_fetch_ms env) (ce_prefetch_first env) (ce_connectorEventId env) (ce_now env)
      (ce_parse_date env) (ce_json_parse env) (ce_contributor env) (normalized_request ai req) connectors
      (cc_tenantId ctx) (cc_projectId ctx) ai (ck_connectors db1) = Inr (meta, fm, k)"
    by (auto simp: collected_def load cat split: sum.splits)
  have pol: "ck_policies db1 = ck_policies db"
    using catalog_request_rest [OF cat] load by (auto simp: loadCheckContext_def Let_def split: option.splits)
  obtain d where d: "evaluatePolicyDecision rules fm (cc_defaultCacheTtl ctx) (cc_serveMode ctx) = Inr d" "ed_decision d = ALLOW" "ed_reason d = ''allowed''"
  proof (rule that)
    show "evaluatePolicyDecision rules fm (cc_defaultCacheTtl ctx) (cc_serveMode ctx) = Inr (decision_spec rules fm (cc_defaultCacheTtl ctx) (cc_serveMode ctx))"
      by (rule evaluatePolicyDecision_spec [OF assms(4)])
    have "filter (rule_matches fm) rules = []" using silent assms(4) rule_condition_ok by (fastforce simp: filter_empty_conv list_all_iff)
    then show "ed_decision (decision_spec rules fm (cc_defaultCacheTtl ctx) (cc_serveMode ctx)) = ALLOW"
      "ed_reason (decision_spec rules fm (cc_defaultCacheTtl ctx) (cc_serveMode ctx)) = ''allowed''"
      by (simp_all add: decision_spec_def del: filter_filter)
  qed
  have "checkEntitled env proxy ctx (normalized_request ai req) connectors ai db1 =
     (Inr (buildCheckOutcome ALLOW ''allowed'' (ed_detail d) (ed_cacheTtl d) (ed_serveMode d) (Some (cc_tenantId ctx)) (Some (cc_projectId ctx))),
      record_decision env proxy ctx (normalized_request ai req) ai
        (loadEffectivePolicy (ck_policies db) (ce_now env) (cc_tenantId ctx) (cc_projectId ctx)) meta fm d (db1\<lparr> ck_connectors := k \<rparr>))"
    using version assms(3) d by (simp add: checkEntitled_def policy_check_def c pol flip: rules)
  then have "handleCheck env proxy req connectors db =
     (Inr (buildCheckOutcome ALLOW ''allowed'' (ed_detail d) (ed_cacheTtl d) (ed_serveMode d) (Some (cc_tenantId ctx)) (Some (cc_projectId ctx))),
      record_decision env proxy ctx (normalized_request ai req) ai
        (loadEffectivePolicy (ck_policies db) (ce_now env) (cc_tenantId ctx) (cc_projectId ctx)) meta fm d (db1\<lparr> ck_connectors := k \<rparr>))"
    by (simp add: handleCheck_def load r cat ai' plan)
  moreover have "ai = check_identity env proxy req db" by (simp add: check_identity_def load cat ai')
  ultimately show ?thesis by (simp add: buildCheckOutcome_def default_def)
qed

definition starter_check_db :: check_db where
  "starter_check_db = (sample_check_db ''advisory'')\<lparr> ck_policies :=
     (case ensureStarterPolicies 0 ''t1'' no_policies of Inr (_, pdb) \<Rightarrow> pdb | Inl _ \<Rightarrow> no_policies) \<rparr>"

definition later_env :: check_env where
  "later_env = sample_env\<lparr> ce_now := 691200000 \<rparr>"

lemma starter_fields:
  "case collected later_env sample_proxy sample_check_request [clean_connector] (sample_check_db ''advisory'') of
     None \<Rightarrow> False
   | Some (ctx, ai, fm) \<Rightarrow>
       cc_tenantId ctx = ''t1'' \<and> cc_projectId ctx = ''p1'' \<and> connectorSupportsArtifactRequest ''e'' 691200000 clean_connector ai \<and>
       list_all (\<lambda>rt. evaluateCondition (rt_condition rt) fm = Inr False) starter_rules"
  by code_simp

lemma starter_rules_in_force:
  "case ensureStarterPolicies 0 ''t1'' no_policies of Inl _ \<Rightarrow> False
   | Inr (_, pdb) \<Rightarrow> (let rules = ps_allRules (loadEffectivePolicy pdb 691200000 ''t1'' ''p1'')
        in rules \<noteq> [] \<and> list_all (\<lambda>r. rule_ok r \<and> rr_condition r \<in> set (map rt_condition starter_rules)) rules)"
  by code_simp


end
